(* ===== verification/Prelude.thy ===== *)
theory Prelude
  imports Main "HOL-Library.Word" "HOL-Library.Monad_Syntax"
begin

text \<open>
  Shared vocabulary of the development. Machine words, C pointers (\<open>None\<close> is
  \<open>NULL\<close>), the pointer-and-counter pairs of the lock-free code, the C-level result type, and
  the linked chains both lock-free structures are made of, with their update and uniqueness
  lemmas.

  Results: every function that can dereference a pointer, fail an \<open>assert\<close> or loop returns
  an \<open>option\<close>. \<open>None\<close> means that the C program has no defined result there (wild
  or null dereference, failed assertion, or a loop that does not end); an error the code
  reports by a return value is an ordinary value under \<open>Some\<close>. A theorem
  \<open>f x = Some y\<close> therefore states memory safety and termination as well as the result.
\<close>

section \<open>Words, pointers, results\<close>

type_synonym u8 = "8 word"
type_synonym u32 = "32 word"
type_synonym u64 = "64 word"

type_synonym addr = nat
type_synonym ptr = "addr option"

abbreviation NULL :: ptr where
  "NULL \<equiv> None"

text \<open>A pointer with its ABA counter: the two words the double-word CAS works on.\<close>

type_synonym pac = "ptr \<times> u64"

text \<open>The assertion macro: the program stops when the condition fails.\<close>

definition c_assert :: "bool \<Rightarrow> unit option" where
  "c_assert b = (if b then Some () else None)"

lemma c_assert_simps [simp]:
  "c_assert True = Some ()" "c_assert False = None"
  by (simp_all add: c_assert_def)

lemma c_assert_Some [simp]: "c_assert b = Some u \<longleftrightarrow> b"
  by (simp add: c_assert_def)

lemma bind_Some_tuple [simp]: "Option.bind (Some (a, b)) (\<lambda>(x, y). f x y) = f a b"
  by simp

lemmas bind_SomeE = bind_eq_Some_conv [THEN iffD1, elim_format]

lemma of_nat_less_word:
  fixes n :: "'a::len word"
  assumes "i < unat n"
  shows "of_nat i < n"
proof -
  have "i < 2 ^ LENGTH('a)" using assms unsigned_less [of n] by (rule less_trans)
  then have "unat (of_nat i :: 'a word) = i" using of_nat_inverse [OF refl] by blast
  with assms show ?thesis by (simp add: word_less_nat_alt)
qed

text \<open>A number in decimal, and a format string printed without arguments, in which only \<open>%%\<close> has a meaning.\<close>

fun decimal :: "nat \<Rightarrow> string" where
  "decimal n = (if n < 10 then [char_of (48 + n)] else decimal (n div 10) @ [char_of (48 + n mod 10)])"

declare decimal.simps [simp del]

fun bare_format :: "string \<Rightarrow> string option" where
  "bare_format [] = Some []"
| "bare_format (c # cs) =
     (if c \<noteq> CHR ''%'' then map_option ((#) c) (bare_format cs)
      else (case cs of
              [] \<Rightarrow> None
            | d # ds \<Rightarrow> if d = CHR ''%'' then map_option ((#) c) (bare_format ds) else None))"

section \<open>Chains of cells\<close>

text \<open>
  \<open>path nx p as q\<close>: following the partial next map \<open>nx\<close> (\<open>None\<close> where no
  cell is allocated) from \<open>p\<close> visits exactly the cells \<open>as\<close> and arrives at
  \<open>q\<close>.
\<close>

named_theorems path_simps "rewriting of chains"

primrec path :: "(addr \<rightharpoonup> ptr) \<Rightarrow> ptr \<Rightarrow> addr list \<Rightarrow> ptr \<Rightarrow> bool" where
  "path nx p [] q \<longleftrightarrow> p = q"
| "path nx p (a # as) q \<longleftrightarrow>
     p = Some a \<and> (case nx a of None \<Rightarrow> False | Some b \<Rightarrow> path nx b as q)"

lemma path_NULL [simp]: "path nx NULL as q \<longleftrightarrow> as = [] \<and> q = NULL"
  by (cases as) auto

lemma path_append [path_simps]:
  "path nx p (as @ bs) q \<longleftrightarrow> (\<exists>r. path nx p as r \<and> path nx r bs q)"
  by (induction as arbitrary: p) (auto split: option.splits)

lemma path_cong:
  "(\<And>a. a \<in> set as \<Longrightarrow> nx a = ny a) \<Longrightarrow> path nx p as q = path ny p as q"
  by (induction as arbitrary: p) (auto split: option.splits)

lemma path_upd [simp]: "a \<notin> set as \<Longrightarrow> path (nx(a := v)) p as q = path nx p as q"
  by (rule path_cong) auto

lemma path_in_dom: "path nx p as q \<Longrightarrow> set as \<subseteq> dom nx"
  by (induction as arbitrary: p) (auto split: option.splits)

lemma path_hd: "path nx p as NULL \<Longrightarrow> as \<noteq> [] \<Longrightarrow> p = Some (hd as)"
  by (cases as) auto

lemma path_NULL_iff: "path nx p as NULL \<Longrightarrow> p = NULL \<longleftrightarrow> as = []"
  by (cases as) auto

lemma path_unique: "path nx p as NULL \<Longrightarrow> path nx p bs NULL \<Longrightarrow> as = bs"
proof (induction as arbitrary: p bs)
  case Nil
  then show ?case by simp
next
  case (Cons a as)
  then show ?case by (cases bs) (auto split: option.splits)
qed

lemma path_distinct: "path nx p as NULL \<Longrightarrow> distinct as"
proof (induction as arbitrary: p)
  case Nil
  then show ?case by simp
next
  case (Cons a as)
  then obtain b where b: "nx a = Some b" "path nx b as NULL"
    by (auto split: option.splits)
  have "a \<notin> set as"
  proof
    assume "a \<in> set as"
    then obtain us vs where as: "as = us @ a # vs"
      by (auto simp: in_set_conv_decomp)
    with b have "path nx (Some a) (a # vs) NULL" and "path nx (Some a) (a # as) NULL"
      by (auto simp: path_simps)
    then have "a # vs = a # as" by (rule path_unique)
    with as show False by simp
  qed
  with Cons.IH b(2) show ?case by simp
qed

lemma path_last: "path nx p (as @ [a]) NULL \<Longrightarrow> nx a = Some NULL"
  by (auto simp: path_simps split: option.splits)

text \<open>Appending one cell at the end, where the last cell's link is rewritten.\<close>

lemma path_snoc_upd:
  assumes "path nx p (as @ [a]) NULL" and "b \<notin> set (as @ [a])"
  shows "path (nx(a \<mapsto> Some b, b \<mapsto> NULL)) p (as @ [a, b]) NULL"
proof -
  have "a \<notin> set as" using path_distinct [OF assms(1)] by simp
  moreover from assms(1) have "path nx p as (Some a)"
    by (auto simp: path_simps split: option.splits)
  ultimately have "path (nx(a \<mapsto> Some b, b \<mapsto> NULL)) p as (Some a)"
    using assms(2) by simp
  then show ?thesis using assms(2) by (auto simp: path_simps intro!: exI [of _ "Some a"])
qed

end
