(* ===== verification/Linked.thy ===== *)
theory Linked
  imports Prelude
begin

text \<open>
  The two loops every validator of the library runs over a chain: the tortoise-and-hare loop
  check and the element count (\<open>corelib/lfds/freelist_query.c\<close> and
  \<open>corelib/lfds/queue_query.c\<close> contain the same code over different link fields, which is the
  parameter \<open>nx\<close> here). The lemmas prove that the check ends on every finite heap without
  dangling links, and tells a terminated chain from a looping one.
\<close>

section \<open>The loops\<close>

definition next_of :: "(addr \<rightharpoonup> ptr) \<Rightarrow> ptr \<Rightarrow> ptr option" where
  "next_of nx p = Option.bind p nx"

definition advance :: "(addr \<rightharpoonup> ptr) \<Rightarrow> ptr \<Rightarrow> ptr option" where
  "advance nx p = (if p \<noteq> NULL then next_of nx p else Some p)"

partial_function (option) loop_check ::
  "(addr \<rightharpoonup> ptr) \<Rightarrow> ptr \<Rightarrow> ptr \<Rightarrow> (ptr \<times> ptr) option" where
  "loop_check nx slow fast = do {
     slow \<leftarrow> next_of nx slow;
     fast \<leftarrow> advance nx fast;
     fast \<leftarrow> advance nx fast;
     if slow \<noteq> NULL \<and> fast \<noteq> slow then loop_check nx slow fast else Some (slow, fast)
   }"

partial_function (option) count_elements ::
  "(addr \<rightharpoonup> ptr) \<Rightarrow> ptr \<Rightarrow> u64 \<Rightarrow> u64 option" where
  "count_elements nx p n =
     (if p \<noteq> NULL then do { q \<leftarrow> next_of nx p; count_elements nx q (n + 1) } else Some n)"

text \<open>The whole first phase of a validator: is there a loop in the chain from \<open>p\<close>?\<close>

definition has_loop :: "(addr \<rightharpoonup> ptr) \<Rightarrow> ptr \<Rightarrow> bool option" where
  "has_loop nx p = do {
     (slow, fast) \<leftarrow> (if p \<noteq> NULL then loop_check nx p p else Some (p, p));
     Some (fast \<noteq> NULL \<and> slow \<noteq> NULL \<and> fast = slow)
   }"

section \<open>Iterated links\<close>

lemma next_of_Some [simp]: "next_of nx (Some a) = nx a"
  by (simp add: next_of_def)

lemma advance_simps [simp]: "advance nx NULL = Some NULL" "advance nx (Some a) = nx a"
  by (simp_all add: advance_def)

text \<open>A heap without dangling links: every link is \<open>NULL\<close> or points to a cell.\<close>

definition closed :: "(addr \<rightharpoonup> ptr) \<Rightarrow> bool" where
  "closed nx \<longleftrightarrow> (\<forall>a \<in> dom nx. \<forall>b. nx a = Some (Some b) \<longrightarrow> b \<in> dom nx)"

definition valid_ptr :: "(addr \<rightharpoonup> ptr) \<Rightarrow> ptr \<Rightarrow> bool" where
  "valid_ptr nx p \<longleftrightarrow> (\<forall>a. p = Some a \<longrightarrow> a \<in> dom nx)"

definition follow :: "(addr \<rightharpoonup> ptr) \<Rightarrow> ptr \<Rightarrow> ptr" where
  "follow nx p = (case p of None \<Rightarrow> NULL | Some a \<Rightarrow> the (nx a))"

primrec nth_ptr :: "(addr \<rightharpoonup> ptr) \<Rightarrow> ptr \<Rightarrow> nat \<Rightarrow> ptr" where
  "nth_ptr nx p 0 = p"
| "nth_ptr nx p (Suc k) = follow nx (nth_ptr nx p k)"

lemma follow_NULL [simp]: "follow nx NULL = NULL"
  by (simp add: follow_def)

lemma nth_ptr_NULL [simp]: "nth_ptr nx NULL k = NULL"
  by (induction k) simp_all

lemma nth_ptr_add: "nth_ptr nx p (j + k) = nth_ptr nx (nth_ptr nx p j) k"
  by (induction k) simp_all

lemma nth_ptr_NULL_mono:
  assumes "nth_ptr nx p k = NULL" "k \<le> j"
  shows "nth_ptr nx p j = NULL"
proof -
  have "nth_ptr nx p j = nth_ptr nx (nth_ptr nx p k) (j - k)"
    using assms(2) by (simp flip: nth_ptr_add)
  with assms(1) show ?thesis by simp
qed

lemma valid_follow:
  assumes "closed nx" "valid_ptr nx p"
  shows "valid_ptr nx (follow nx p)"
proof (cases p)
  case None
  then show ?thesis by (simp add: valid_ptr_def)
next
  case (Some a)
  with assms(2) obtain q where "nx a = Some q" by (auto simp: valid_ptr_def)
  with Some assms(1) show ?thesis
    by (auto simp: closed_def valid_ptr_def follow_def dom_def)
qed

lemma valid_nth: "closed nx \<Longrightarrow> valid_ptr nx p \<Longrightarrow> valid_ptr nx (nth_ptr nx p k)"
  by (induction k) (simp_all add: valid_follow)

lemma advance_valid: "valid_ptr nx p \<Longrightarrow> advance nx p = Some (follow nx p)"
  by (auto simp: advance_def valid_ptr_def follow_def split: option.splits)

lemma next_of_valid: "valid_ptr nx p \<Longrightarrow> p \<noteq> NULL \<Longrightarrow> next_of nx p = Some (follow nx p)"
  by (auto simp: valid_ptr_def follow_def)

section \<open>The loop check ends and decides\<close>

text \<open>The tortoise stops at the end of the chain or when the hare meets it.\<close>

definition meets :: "(addr \<rightharpoonup> ptr) \<Rightarrow> ptr \<Rightarrow> nat \<Rightarrow> bool" where
  "meets nx p k \<longleftrightarrow> nth_ptr nx p k = NULL \<or> nth_ptr nx p k = nth_ptr nx p (k + k)"

lemma loop_check_runs:
  assumes "closed nx" "valid_ptr nx p" "meets nx p K" "k < K"
    and "\<forall>j. k < j \<and> j < K \<longrightarrow> \<not> meets nx p j" and "nth_ptr nx p k \<noteq> NULL"
  shows "loop_check nx (nth_ptr nx p k) (nth_ptr nx p (k + k)) =
    Some (nth_ptr nx p K, nth_ptr nx p (K + K))"
  using assms(4-6)
proof (induction "K - k" arbitrary: k)
  case 0
  then show ?case by simp
next
  case (Suc d)
  note v = valid_nth [OF assms(1,2)]
  have step: "next_of nx (nth_ptr nx p k) = Some (nth_ptr nx p (Suc k))"
    using next_of_valid [OF v Suc.prems(3)] by simp
  have fast: "advance nx (nth_ptr nx p (k + k)) = Some (nth_ptr nx p (Suc (k + k)))"
    "advance nx (follow nx (nth_ptr nx p (k + k))) = Some (nth_ptr nx p (Suc k + Suc k))"
    using advance_valid [OF v [of "k + k"]] advance_valid [OF v [of "Suc (k + k)"]] by simp_all
  show ?case
  proof (cases "Suc k = K")
    case True
    with assms(3) show ?thesis
      by (subst loop_check.simps) (auto simp: step fast meets_def)
  next
    case False
    with Suc.prems have lt: "Suc k < K" and nm: "\<not> meets nx p (Suc k)" by auto
    from nm have "nth_ptr nx p (Suc k) \<noteq> NULL" "nth_ptr nx p (Suc k + Suc k) \<noteq> nth_ptr nx p (Suc k)"
      by (auto simp: meets_def)
    moreover from this(1) Suc.prems Suc.hyps(2) lt
    have "loop_check nx (nth_ptr nx p (Suc k)) (nth_ptr nx p (Suc k + Suc k)) =
        Some (nth_ptr nx p K, nth_ptr nx p (K + K))"
      by (intro Suc.hyps(1)) auto
    ultimately show ?thesis
      by (subst loop_check.simps) (simp add: step fast)
  qed
qed

lemma has_loop_meets:
  assumes "closed nx" "valid_ptr nx p" "meets nx p K" "0 < K"
  shows "\<exists>K>0. meets nx p K \<and> has_loop nx p = Some (nth_ptr nx p K \<noteq> NULL)"
proof (cases "p = NULL")
  case True
  then show ?thesis by (auto simp: has_loop_def meets_def)
next
  case False
  define L where "L = (LEAST k. 0 < k \<and> meets nx p k)"
  have L: "0 < L \<and> meets nx p L"
    unfolding L_def by (rule LeastI [of _ K]) (use assms in simp)
  have least: "\<forall>j. 0 < j \<and> j < L \<longrightarrow> \<not> meets nx p j"
    unfolding L_def using not_less_Least by blast
  have run: "loop_check nx p p = Some (nth_ptr nx p L, nth_ptr nx p (L + L))"
    using loop_check_runs [OF assms(1,2), of L 0] L least False by simp
  have "has_loop nx p = Some (nth_ptr nx p L \<noteq> NULL)"
  proof (cases "nth_ptr nx p L = NULL")
    case True
    with False run show ?thesis by (auto simp: has_loop_def)
  next
    case nn: False
    with L have "nth_ptr nx p (L + L) = nth_ptr nx p L" by (simp add: meets_def)
    with False run nn show ?thesis by (auto simp: has_loop_def)
  qed
  with L show ?thesis by blast
qed

text \<open>On a finite heap the chain repeats or ends, so the check always returns.\<close>

lemma meets_ex:
  assumes "closed nx" "valid_ptr nx p" "finite (dom nx)"
  shows "\<exists>K>0. meets nx p K"
proof -
  have "nth_ptr nx p k \<in> insert NULL (Some ` dom nx)" for k
    using valid_nth [OF assms(1,2), of k] by (cases "nth_ptr nx p k") (auto simp: valid_ptr_def)
  then have "range (nth_ptr nx p) \<subseteq> insert NULL (Some ` dom nx)" by auto
  then have "finite (range (nth_ptr nx p))" by (rule finite_subset) (simp add: assms(3))
  then have "\<not> inj (nth_ptr nx p)"
    using finite_imageD infinite_UNIV_nat by blast
  then obtain i j where ij: "nth_ptr nx p i = nth_ptr nx p j" "i < j"
    unfolding inj_def by (metis linorder_neqE_nat)
  define l where "l = j - i"
  have per: "nth_ptr nx p (i + r + m * l) = nth_ptr nx p (i + r)" for r m
  proof (induction m)
    case (Suc m)
    have "i + r + Suc m * l = j + (r + m * l)" using ij(2) by (simp add: l_def)
    then have "nth_ptr nx p (i + r + Suc m * l) = nth_ptr nx p (j + (r + m * l))"
      by (simp only:)
    also have "\<dots> = nth_ptr nx p (i + (r + m * l))"
      by (simp only: nth_ptr_add ij(1))
    finally have "nth_ptr nx p (i + r + Suc m * l) = nth_ptr nx p (i + r + m * l)"
      by (simp add: add.assoc)
    then show ?case using Suc by simp
  qed simp
  have l: "0 < l" using ij(2) by (simp add: l_def)
  define K where "K = Suc i * l"
  have "i \<le> K" using l by (cases l) (auto simp: K_def)
  then have "nth_ptr nx p (K + K) = nth_ptr nx p K"
    using per [of "K - i" "Suc i"] by (simp add: K_def)
  then show ?thesis using l by (intro exI [of _ K]) (simp add: meets_def K_def)
qed

text \<open>Meeting on a cell means the chain never ends.\<close>

lemma meets_no_end:
  assumes "meets nx p K" "nth_ptr nx p K \<noteq> NULL" "0 < K"
  shows "nth_ptr nx p j \<noteq> NULL"
proof
  assume end_j: "nth_ptr nx p j = NULL"
  have "nth_ptr nx p (m * K + K) = nth_ptr nx p K" for m
  proof (induction m)
    case (Suc m)
    have "Suc m * K + K = (K + K) + m * K" by simp
    then have "nth_ptr nx p (Suc m * K + K) = nth_ptr nx p ((K + K) + m * K)"
      by (simp only:)
    also have "\<dots> = nth_ptr nx p (K + m * K)"
      using assms(1,2) by (simp only: nth_ptr_add [of nx p "K + K"] nth_ptr_add [of nx p K "m * K"])
        (simp add: meets_def)
    finally show ?case using Suc by (simp add: add.commute)
  qed simp
  from this [of j] have "nth_ptr nx p K = nth_ptr nx p (j * K + K)" ..
  moreover have "j \<le> j * K + K" using assms(3) by (cases K) auto
  ultimately show False using assms(2) end_j nth_ptr_NULL_mono by metis
qed

lemma has_loop_correct:
  assumes "closed nx" "valid_ptr nx p" "finite (dom nx)"
  shows "has_loop nx p = Some (\<forall>k. nth_ptr nx p k \<noteq> NULL)"
proof -
  obtain K where K: "0 < K" "meets nx p K" "has_loop nx p = Some (nth_ptr nx p K \<noteq> NULL)"
    using meets_ex [OF assms] has_loop_meets [OF assms(1,2)] by blast
  show ?thesis
  proof (cases "nth_ptr nx p K = NULL")
    case True
    with K(3) show ?thesis by auto
  next
    case False
    with meets_no_end [OF K(2) False K(1)] K(3) show ?thesis by simp
  qed
qed

section \<open>Terminated chains\<close>

lemma path_nth_ptr: "path nx p as q \<Longrightarrow> nth_ptr nx p (length as) = q"
proof (induction as arbitrary: p)
  case Nil
  then show ?case by simp
next
  case (Cons a as)
  then obtain b where "p = Some a" "nx a = Some b" "path nx b as q"
    by (auto split: option.splits)
  then have "nth_ptr nx (follow nx p) (length as) = q"
    using Cons.IH by (simp add: follow_def)
  then show ?case using nth_ptr_add [of nx p 1 "length as"] by simp
qed

lemma path_of_nth_ptr:
  assumes "closed nx" "valid_ptr nx p" "nth_ptr nx p k = NULL"
  shows "\<exists>as. path nx p as NULL"
  using assms(2,3)
proof (induction k arbitrary: p)
  case 0
  then show ?case by (auto intro!: exI [of _ "[]"])
next
  case (Suc k)
  have "nth_ptr nx (follow nx p) k = NULL"
    using Suc.prems(2) nth_ptr_add [of nx p 1 k] by simp
  then obtain as where as: "path nx (follow nx p) as NULL"
    using Suc.IH valid_follow [OF assms(1) Suc.prems(1)] by blast
  show ?case
  proof (cases p)
    case None
    then show ?thesis by (auto intro!: exI [of _ "[]"])
  next
    case (Some a)
    with Suc.prems(1) as have "path nx p (a # as) NULL"
      by (auto simp: valid_ptr_def follow_def)
    then show ?thesis ..
  qed
qed

text \<open>The check says ``loop'' exactly when no chain ends at \<open>NULL\<close>.\<close>

lemma has_loop_iff:
  assumes "closed nx" "valid_ptr nx p" "finite (dom nx)"
  shows "has_loop nx p = Some (\<not> (\<exists>as. path nx p as NULL))"
proof -
  have "(\<forall>k. nth_ptr nx p k \<noteq> NULL) \<longleftrightarrow> \<not> (\<exists>as. path nx p as NULL)"
    using path_of_nth_ptr [OF assms(1,2)] path_nth_ptr [of nx p _ NULL] by blast
  then show ?thesis by (simp only: has_loop_correct [OF assms])
qed

text \<open>
  On a terminated chain no assumption on the rest of the heap is needed: the loops only read
  the cells of the chain.
\<close>

lemma loop_check_map_le:
  assumes le: "ny \<subseteq>\<^sub>m nx" and run: "loop_check ny s f = Some r"
  shows "loop_check nx s f = Some r"
proof (rule loop_check.raw_induct [where P = "\<lambda>n s f r. n = ny \<longrightarrow> loop_check nx s f = Some r",
      OF _ run, THEN mp, OF _ refl], intro impI)
  fix g n s f r
  assume IH: "\<And>n s f r. g n s f = Some r \<Longrightarrow> n = ny \<longrightarrow> loop_check nx s f = Some r"
    and n: "n = ny"
    and eq: "do { slow \<leftarrow> next_of n s; fast \<leftarrow> advance n f; fast \<leftarrow> advance n fast;
       if slow \<noteq> NULL \<and> fast \<noteq> slow then g n slow fast else Some (slow, fast) } = Some r"
  have up: "next_of ny p = Some q \<Longrightarrow> next_of nx p = Some q"
    "advance ny p = Some q \<Longrightarrow> advance nx p = Some q" for p q
  proof -
    have key: "nx a = Some x" if "ny a = Some x" for a x
      using le that by (metis domI map_le_def)
    show "next_of ny p = Some q \<Longrightarrow> next_of nx p = Some q"
      by (cases p) (simp_all add: next_of_def key)
    show "advance ny p = Some q \<Longrightarrow> advance nx p = Some q"
      by (cases p) (simp_all add: key)
  qed
  from eq n obtain s1 f1 f2 where st: "next_of ny s = Some s1" "advance ny f = Some f1"
      "advance ny f1 = Some f2"
    and rest: "(if s1 \<noteq> NULL \<and> f2 \<noteq> s1 then g n s1 f2 else Some (s1, f2)) = Some r"
    by (auto simp: bind_eq_Some_conv)
  have st': "next_of nx s = Some s1" "advance nx f = Some f1" "advance nx f1 = Some f2"
    using st by (simp_all add: up)
  show "loop_check nx s f = Some r"
  proof (cases "s1 \<noteq> NULL \<and> f2 \<noteq> s1")
    case True
    with rest have "g n s1 f2 = Some r" by metis
    with IH n have "loop_check nx s1 f2 = Some r" by blast
    with True st' show ?thesis
      by (subst loop_check.simps) simp
  next
    case False
    with rest have "r = (s1, f2)" by (metis option.inject)
    with False st' show ?thesis
      by (subst loop_check.simps) auto
  qed
qed

lemma path_closed:
  assumes "path nx p as NULL"
  shows "closed (nx |` set as)" "valid_ptr (nx |` set as) p"
proof -
  show "closed (nx |` set as)"
    unfolding closed_def
  proof (intro ballI allI impI)
    fix a b
    assume a: "a \<in> dom (nx |` set as)" "(nx |` set as) a = Some (Some b)"
    then obtain us vs where "as = us @ a # vs" and "nx a = Some (Some b)"
      by (auto simp: in_set_conv_decomp restrict_map_def split: if_splits)
    with assms have "path nx (Some b) vs NULL" by (auto simp: path_simps)
    then have "b \<in> set vs" by (cases vs) auto
    with \<open>as = us @ a # vs\<close> path_in_dom [OF assms]
    show "b \<in> dom (nx |` set as)" by auto
  qed
  show "valid_ptr (nx |` set as) p"
    using assms path_in_dom [OF assms] by (cases as) (auto simp: valid_ptr_def)
qed

lemma has_loop_path:
  assumes "path nx p as NULL"
  shows "has_loop nx p = Some False"
proof -
  let ?ny = "nx |` set as"
  have p: "path ?ny p as NULL" using assms by (subst path_cong [of _ _ nx]) simp_all
  then have no: "has_loop ?ny p = Some False"
    using has_loop_iff [OF path_closed [OF assms]] by (auto simp: finite_subset)
  show ?thesis
  proof (cases "p = NULL")
    case True
    then show ?thesis by (simp add: has_loop_def)
  next
    case False
    with no obtain r where "loop_check ?ny p p = Some r" "\<not> (snd r \<noteq> NULL \<and> fst r \<noteq> NULL \<and> snd r = fst r)"
      by (auto simp: has_loop_def bind_eq_Some_conv)
    moreover from this(1) have "loop_check nx p p = Some r"
      by (rule loop_check_map_le [rotated]) (simp add: map_le_def)
    ultimately show ?thesis using False by (auto simp: has_loop_def split_beta)
  qed
qed

lemma count_elements_path:
  "path nx p as NULL \<Longrightarrow> count_elements nx p n = Some (n + of_nat (length as))"
proof (induction as arbitrary: p n)
  case Nil
  then show ?case by (simp add: count_elements.simps)
next
  case (Cons a as)
  then show ?case
    by (subst count_elements.simps) (auto split: option.splits simp: algebra_simps)
qed

end
