(* ===== verification/Abstraction.thy ===== *)
theory Abstraction
  imports Linked
begin

text \<open>
  The platform layer of the vendored-in lock-free library (\<open>corelib/lfds/abstraction_*.c\<close>):
  the memory the library allocates from, and its atomic primitives.

  Memory is typed: one partial map per structure the library allocates (the two element
  structures of \<open>freelist_internal.h\<close> and \<open>queue_internal.h\<close>) and the set of the
  blocks that hold the two state structures, whose contents the operations pass by value.
  \<open>posix_memalign\<close> is the POSIX function: each call succeeds or fails as the oracle
  \<open>mem_ok\<close> says, a success returns a block never handed out before with the indeterminate
  contents \<open>junk_fe\<close>/\<open>junk_qe\<close>, and a failure leaves an indeterminate pointer in its
  result argument. A freed address is not handed out again.

  The double-word compare-and-swap exists in several bodies, one per target; each is
  modelled over a small register file or over the load-exclusive/store-exclusive attempts, and
  all are proved to be the same operation.
\<close>

section \<open>The structures and the memory\<close>

record freelist_element =
  fe_next :: pac
  fe_user_data :: ptr

record queue_element =
  qe_next :: pac
  qe_fe :: ptr
  qe_user_data :: ptr

text \<open>What a call allocates: the \<open>sizeof\<close> argument of the source.\<close>

datatype struct_kind = Freelist_element | Queue_element | Freelist_state | Queue_state

record mem =
  fe_cells :: "addr \<rightharpoonup> freelist_element"
  qe_cells :: "addr \<rightharpoonup> queue_element"
  state_blocks :: "addr set"
  brk :: addr
  calls :: nat
  mem_ok :: "nat \<Rightarrow> bool"
  junk_fe :: "addr \<Rightarrow> freelist_element"
  junk_qe :: "addr \<Rightarrow> queue_element"
  junk_word :: "addr \<Rightarrow> nat \<Rightarrow> u64"
  junk_ptr :: "nat \<Rightarrow> ptr"

fun install :: "struct_kind \<Rightarrow> addr \<Rightarrow> mem \<Rightarrow> mem" where
  "install Freelist_element a m = m\<lparr>fe_cells := (fe_cells m)(a \<mapsto> junk_fe m a)\<rparr>"
| "install Queue_element a m = m\<lparr>qe_cells := (qe_cells m)(a \<mapsto> junk_qe m a)\<rparr>"
| "install Freelist_state a m = m\<lparr>state_blocks := insert a (state_blocks m)\<rparr>"
| "install Queue_state a m = m\<lparr>state_blocks := insert a (state_blocks m)\<rparr>"

text \<open>\<open>ENOMEM\<close> is 12; the third component of the result is the memory after the call.\<close>

definition posix_memalign :: "struct_kind \<Rightarrow> mem \<Rightarrow> int \<times> ptr \<times> mem" where
  "posix_memalign k m =
     (let m' = m\<lparr>calls := Suc (calls m)\<rparr>
      in if mem_ok m (calls m)
         then (0, Some (brk m), install k (brk m) (m'\<lparr>brk := Suc (brk m)\<rparr>))
         else (12, junk_ptr m (calls m), m'))"

definition abstraction_aligned_malloc :: "struct_kind \<Rightarrow> mem \<Rightarrow> ptr \<times> mem" where
  "abstraction_aligned_malloc k m =
     (let (rv, memory, m') = posix_memalign k m;
          memory = (if rv \<noteq> 0 then NULL else memory)
      in (memory, m'))"

definition live :: "mem \<Rightarrow> addr set" where
  "live m = dom (fe_cells m) \<union> dom (qe_cells m) \<union> state_blocks m"

text \<open>\<open>free\<close>: nothing for \<open>NULL\<close>, undefined for a block that is not allocated.\<close>

definition abstraction_aligned_free :: "ptr \<Rightarrow> mem \<Rightarrow> mem option" where
  "abstraction_aligned_free p m =
     (case p of
        None \<Rightarrow> Some m
      | Some a \<Rightarrow>
          (if a \<in> live m
           then Some (m\<lparr>fe_cells := (fe_cells m)(a := None), qe_cells := (qe_cells m)(a := None),
                        state_blocks := state_blocks m - {a}\<rparr>)
           else None))"

lemma live_iff [code_unfold]:
  "a \<in> live m \<longleftrightarrow> fe_cells m a \<noteq> None \<or> qe_cells m a \<noteq> None \<or> a \<in> state_blocks m"
  by (auto simp: live_def)

text \<open>Every live block lies below the allocation frontier, and no block has two kinds.\<close>

definition mem_wf :: "mem \<Rightarrow> bool" where
  "mem_wf m \<longleftrightarrow> (\<forall>a.
     (fe_cells m a \<noteq> None \<longrightarrow> a < brk m \<and> qe_cells m a = None \<and> a \<notin> state_blocks m) \<and>
     (qe_cells m a \<noteq> None \<longrightarrow> a < brk m \<and> a \<notin> state_blocks m) \<and>
     (a \<in> state_blocks m \<longrightarrow> a < brk m))"

lemma mem_wf_dom:
  "mem_wf m \<longleftrightarrow> (\<forall>a.
     (a \<in> dom (fe_cells m) \<longrightarrow> a < brk m \<and> a \<notin> dom (qe_cells m) \<and> a \<notin> state_blocks m) \<and>
     (a \<in> dom (qe_cells m) \<longrightarrow> a < brk m \<and> a \<notin> state_blocks m) \<and>
     (a \<in> state_blocks m \<longrightarrow> a < brk m))"
  by (simp add: mem_wf_def domIff)

lemma malloc_ok:
  "mem_ok m (calls m) \<Longrightarrow> abstraction_aligned_malloc k m =
     (Some (brk m), install k (brk m) (m\<lparr>calls := Suc (calls m), brk := Suc (brk m)\<rparr>))"
  by (simp add: abstraction_aligned_malloc_def posix_memalign_def)

lemma malloc_fail:
  "\<not> mem_ok m (calls m) \<Longrightarrow>
     abstraction_aligned_malloc k m = (NULL, m\<lparr>calls := Suc (calls m)\<rparr>)"
  by (simp add: abstraction_aligned_malloc_def posix_memalign_def)

lemma mem_wf_live: "mem_wf m \<Longrightarrow> a \<in> live m \<Longrightarrow> a < brk m"
  by (auto simp: mem_wf_def live_def dom_def)

lemma mem_wf_brk:
  "mem_wf m \<Longrightarrow> fe_cells m (brk m) = None \<and> qe_cells m (brk m) = None \<and> brk m \<notin> state_blocks m"
  using mem_wf_live [of m "brk m"] by (fastforce simp: live_def dom_def)

lemma mem_wf_install:
  "mem_wf m \<Longrightarrow> mem_wf (install k (brk m) (m\<lparr>calls := c, brk := Suc (brk m)\<rparr>))"
  using mem_wf_brk [of m] by (cases k) (auto simp: mem_wf_def less_Suc_eq)

lemma mem_wf_calls [simp]: "mem_wf (m\<lparr>calls := c\<rparr>) = mem_wf m"
  by (simp add: mem_wf_def)

lemma mem_wf_links: "mem_wf m \<Longrightarrow> fe_cells m a = Some c \<Longrightarrow> mem_wf (m\<lparr>fe_cells := (fe_cells m)(a \<mapsto> d)\<rparr>)"
  by (auto simp: mem_wf_def)

lemma malloc_wf: "mem_wf m \<Longrightarrow> mem_wf (snd (abstraction_aligned_malloc k m))"
  by (cases "mem_ok m (calls m)") (simp_all add: malloc_ok malloc_fail mem_wf_install)

lemma malloc_fresh: "mem_wf m \<Longrightarrow> abstraction_aligned_malloc k m = (Some a, m') \<Longrightarrow> a \<notin> live m"
  using mem_wf_live by (cases "mem_ok m (calls m)") (auto simp: malloc_ok malloc_fail)

lemma free_wf: "mem_wf m \<Longrightarrow> abstraction_aligned_free p m = Some m' \<Longrightarrow> mem_wf m'"
  by (cases p) (simp_all add: abstraction_aligned_free_def mem_wf_def split: if_splits, force)

section \<open>Increment and single-word compare-and-swap\<close>

text \<open>
  \<open>__sync_add_and_fetch\<close>: the result and the new value of the word. The counter is the
  unsigned 64-bit \<open>atom_t\<close>, so it wraps.
\<close>

definition abstraction_increment :: "u64 \<Rightarrow> u64 \<times> u64" where
  "abstraction_increment v = (v + 1, v + 1)"

text \<open>\<open>__sync_val_compare_and_swap\<close>: the old value and the new value of the word.\<close>

definition abstraction_cas :: "'a \<Rightarrow> 'a \<Rightarrow> 'a \<Rightarrow> 'a \<times> 'a" where
  "abstraction_cas destination exchange compare =
     (destination, if destination = compare then exchange else destination)"

text \<open>
  The ARM bodies retry a load-exclusive/store-exclusive pair. An attempt is the value the load
  sees and whether the store keeps its reservation; an empty list means the loop still spins.
\<close>

fun arm_increment :: "(u64 \<times> bool) list \<Rightarrow> (u64 \<times> u64) option" where
  "arm_increment [] = None"
| "arm_increment ((value, stored) # rest) =
     (let new_value = value + 1
      in if stored then Some (new_value, new_value) else arm_increment rest)"

fun arm_cas :: "('a \<times> bool) list \<Rightarrow> 'a \<Rightarrow> 'a \<Rightarrow> ('a \<times> 'a) option" where
  "arm_cas [] exchange compare = None"
| "arm_cas ((original, stored) # rest) exchange compare =
     (if original \<noteq> compare then Some (original, original)
      else if stored then Some (original, exchange)
      else arm_cas rest exchange compare)"

section \<open>Double-word compare-and-swap\<close>

text \<open>
  The contract: the flag, the new destination, the new contents of \<open>compare\<close> (which always
  receives the original destination).
\<close>

definition abstraction_dcas ::
  "'p \<times> 'c \<Rightarrow> 'p \<times> 'c \<Rightarrow> 'p \<times> 'c \<Rightarrow> u8 \<times> ('p \<times> 'c) \<times> ('p \<times> 'c)" where
  "abstraction_dcas destination exchange compare =
     (if destination = compare then (1, exchange, destination)
      else (0, destination, destination))"

text \<open>
  The registers the x86 bodies use. The low word of each pair (the pointer) travels in
  \<open>ax\<close>, \<open>bx\<close> or \<open>si\<close>, the high word (the counter) in \<open>dx\<close> or \<open>cx\<close>.
\<close>

record ('p, 'c) regs =
  ax :: 'p
  bx :: 'p
  si :: 'p
  cx :: 'c
  dx :: 'c
  zf :: bool

text \<open>\<open>lock cmpxchg16b\<close> (\<open>cmpxchg8b\<close> on 32-bit targets).\<close>

definition cmpxchg2 :: "('p, 'c) regs \<Rightarrow> 'p \<times> 'c \<Rightarrow> ('p, 'c) regs \<times> ('p \<times> 'c)" where
  "cmpxchg2 r dest =
     (if (ax r, dx r) = dest then (r\<lparr>zf := True\<rparr>, (bx r, cx r))
      else (r\<lparr>zf := False, ax := fst dest, dx := snd dest\<rparr>, dest))"

definition xchg_si_bx :: "('p, 'c) regs \<Rightarrow> ('p, 'c) regs" where
  "xchg_si_bx r = r\<lparr>si := bx r, bx := si r\<rparr>"

definition setz :: "('p, 'c) regs \<Rightarrow> u8" where
  "setz r = (if zf r then 1 else 0)"

definition dcas_x64 ::
  "('p, 'c) regs \<Rightarrow> 'p \<times> 'c \<Rightarrow> 'p \<times> 'c \<Rightarrow> 'p \<times> 'c \<Rightarrow>
     u8 \<times> ('p \<times> 'c) \<times> ('p \<times> 'c) \<times> ('p, 'c) regs" where
  "dcas_x64 r destination exchange compare =
     (let r = r\<lparr>ax := fst compare, dx := snd compare, bx := fst exchange, cx := snd exchange\<rparr>;
          (r, destination) = cmpxchg2 r destination;
          cas_result = setz r
      in (cas_result, destination, (ax r, dx r), r))"

definition dcas_i686 ::
  "('p, 'c) regs \<Rightarrow> 'p \<times> 'c \<Rightarrow> 'p \<times> 'c \<Rightarrow> 'p \<times> 'c \<Rightarrow>
     u8 \<times> ('p \<times> 'c) \<times> ('p \<times> 'c) \<times> ('p, 'c) regs" where
  "dcas_i686 r destination exchange compare =
     (let r = r\<lparr>ax := fst compare, dx := snd compare, bx := fst exchange, cx := snd exchange\<rparr>;
          (r, destination) = cmpxchg2 r destination;
          cas_result = setz r
      in (cas_result, destination, (ax r, dx r), r))"

definition dcas_x64_pic ::
  "('p, 'c) regs \<Rightarrow> 'p \<times> 'c \<Rightarrow> 'p \<times> 'c \<Rightarrow> 'p \<times> 'c \<Rightarrow>
     u8 \<times> ('p \<times> 'c) \<times> ('p \<times> 'c) \<times> ('p, 'c) regs" where
  "dcas_x64_pic r destination exchange compare =
     (let r = r\<lparr>ax := fst compare, dx := snd compare, si := fst exchange, cx := snd exchange\<rparr>;
          r = xchg_si_bx r;
          (r, destination) = cmpxchg2 r destination;
          cas_result = setz r;
          r = xchg_si_bx r
      in (cas_result, destination, (ax r, dx r), r))"

definition dcas_i686_pic ::
  "('p, 'c) regs \<Rightarrow> 'p \<times> 'c \<Rightarrow> 'p \<times> 'c \<Rightarrow> 'p \<times> 'c \<Rightarrow>
     u8 \<times> ('p \<times> 'c) \<times> ('p \<times> 'c) \<times> ('p, 'c) regs" where
  "dcas_i686_pic r destination exchange compare =
     (let r = r\<lparr>ax := fst compare, dx := snd compare, si := fst exchange, cx := snd exchange\<rparr>;
          r = xchg_si_bx r;
          (r, destination) = cmpxchg2 r destination;
          cas_result = setz r;
          r = xchg_si_bx r
      in (cas_result, destination, (ax r, dx r), r))"

text \<open>
  The 32-bit Windows body saves \<open>compare\<close>, lets the interlocked exchange return the original
  destination into it, and compares the two to recover the flag.
\<close>

definition interlocked_compare_exchange ::
  "'a \<Rightarrow> 'a \<Rightarrow> 'a \<Rightarrow> 'a \<times> 'a" where
  "interlocked_compare_exchange destination exchange compare =
     (destination, if destination = compare then exchange else destination)"

definition dcas_win32 ::
  "'p \<times> 'c \<Rightarrow> 'p \<times> 'c \<Rightarrow> 'p \<times> 'c \<Rightarrow> u8 \<times> ('p \<times> 'c) \<times> ('p \<times> 'c)" where
  "dcas_win32 destination exchange compare =
     (let original_compare = compare;
          (compare, destination) = interlocked_compare_exchange destination exchange compare
      in (if compare = original_compare then 1 else 0, destination, compare))"

text \<open>The ARM body: the flag of the last store-exclusive, negated on return.\<close>

fun dcas_arm_loop ::
  "u32 \<Rightarrow> (('p \<times> 'c) \<times> bool) list \<Rightarrow> 'p \<times> 'c \<Rightarrow> 'p \<times> 'c \<Rightarrow>
     (u32 \<times> ('p \<times> 'c) \<times> ('p \<times> 'c)) option" where
  "dcas_arm_loop stored_flag [] exchange compare = None"
| "dcas_arm_loop stored_flag ((original, stored) # rest) exchange compare =
     (if fst original \<noteq> fst compare \<or> snd original \<noteq> snd compare
      then Some (stored_flag, original, original)
      else let stored_flag = (if stored then 0 else 1)
           in if stored_flag = 0 then Some (stored_flag, exchange, original)
              else dcas_arm_loop stored_flag rest exchange compare)"

definition dcas_arm ::
  "(('p \<times> 'c) \<times> bool) list \<Rightarrow> 'p \<times> 'c \<Rightarrow> 'p \<times> 'c \<Rightarrow>
     (u8 \<times> ('p \<times> 'c) \<times> ('p \<times> 'c)) option" where
  "dcas_arm attempts exchange compare = do {
     (stored_flag, destination, compare) \<leftarrow> dcas_arm_loop 1 attempts exchange compare;
     Some (if stored_flag = 0 then 1 else 0, destination, compare)
   }"

section \<open>The bodies agree\<close>

lemma dcas_same [simp]: "abstraction_dcas d e d = (1, e, d)"
  by (simp add: abstraction_dcas_def)

lemma dcas_win32_eq: "dcas_win32 d e c = abstraction_dcas d e c"
  by (simp add: dcas_win32_def abstraction_dcas_def interlocked_compare_exchange_def Let_def)

lemmas dcas_x86_defs = dcas_x64_def dcas_i686_def dcas_x64_pic_def dcas_i686_pic_def
  cmpxchg2_def xchg_si_bx_def setz_def abstraction_dcas_def

lemma dcas_x86_eq:
  "dcas_x64 r d e c = (case abstraction_dcas d e c of (f, d', c') \<Rightarrow> (f, d', c', snd (snd (snd (dcas_x64 r d e c)))))"
  "dcas_i686 r d e c = (case abstraction_dcas d e c of (f, d', c') \<Rightarrow> (f, d', c', snd (snd (snd (dcas_i686 r d e c)))))"
  "dcas_x64_pic r d e c = (case abstraction_dcas d e c of (f, d', c') \<Rightarrow> (f, d', c', snd (snd (snd (dcas_x64_pic r d e c)))))"
  "dcas_i686_pic r d e c = (case abstraction_dcas d e c of (f, d', c') \<Rightarrow> (f, d', c', snd (snd (snd (dcas_i686_pic r d e c)))))"
  by (auto simp: dcas_x86_defs Let_def)

text \<open>
  The reason for the two position-independent bodies: \<open>rbx\<close> (\<open>ebx\<close>) holds the caller's
  global offset table and must survive.
\<close>

lemma dcas_pic_bx:
  "bx (snd (snd (snd (dcas_x64_pic r d e c)))) = bx r"
  "bx (snd (snd (snd (dcas_i686_pic r d e c)))) = bx r"
  by (auto simp: dcas_x86_defs Let_def)

text \<open>
  The ARM loop returns on the first attempt whose value differs from \<open>compare\<close> or whose
  store keeps its reservation, and what it did is the atomic operation on the value loaded in
  that attempt.
\<close>

lemma dcas_arm_loop_last:
  "dcas_arm_loop 1 (map (\<lambda>_. (compare, False)) spins @ (d, stored) # rest) exchange compare =
     (if d \<noteq> compare then Some (1, d, d)
      else if stored then Some (0, exchange, d) else dcas_arm_loop 1 rest exchange compare)"
  by (induction spins) (auto simp: prod_eq_iff)

lemma dcas_arm_last:
  assumes "d \<noteq> compare \<or> stored"
  shows "dcas_arm (map (\<lambda>_. (compare, False)) spins @ (d, stored) # rest) exchange compare =
    Some (abstraction_dcas d exchange compare)"
  using assms by (auto simp: dcas_arm_def dcas_arm_loop_last abstraction_dcas_def)

lemma arm_cas_last:
  "d \<noteq> compare \<or> stored \<Longrightarrow>
     arm_cas (map (\<lambda>_. (compare, False)) spins @ (d, stored) # rest) exchange compare =
     Some (abstraction_cas d exchange compare)"
  by (induction spins) (auto simp: abstraction_cas_def)

lemma arm_increment_last:
  "arm_increment (map (\<lambda>v. (v, False)) spins @ (v, True) # rest) = Some (abstraction_increment v)"
  by (induction spins) (auto simp: abstraction_increment_def Let_def)

end
