(* ===== verification/Freelist.thy ===== *)
theory Freelist
  imports Abstraction
begin

text \<open>
  The lock-free freelist (\<open>corelib/lfds/freelist_*.c\<close>), run by one thread at a time: the
  retry loops are kept, and the lemmas show that without interference each of them ends in its
  first round.

  The state structure is passed by value; \<open>fs_addr\<close> is the block it lives in. The chain of
  free elements starts at \<open>fs_top\<close> and is linked through \<open>fe_next\<close>. Contents: the
  operations of \<open>freelist_new.c\<close>, \<open>freelist_pop_push.c\<close>,
  \<open>freelist_get_and_set.c\<close>, \<open>freelist_delete.c\<close> and \<open>freelist_query.c\<close>; the
  representation predicate \<open>freelist_rep\<close>; the interface \<open>pool\<close> a client of push and
  pop relies on, interpreted on these operations.
\<close>

section \<open>State\<close>

text \<open>
  The function pointers of the source: an initialiser gets the old contents of the user-data
  field and the user state, and returns its status and the new contents.
\<close>

type_synonym init_fn = "ptr \<Rightarrow> ptr \<Rightarrow> mem \<Rightarrow> (int \<times> ptr \<times> mem) option"
type_synonym delete_fn = "ptr \<Rightarrow> ptr \<Rightarrow> mem \<Rightarrow> mem option"

record freelist_state =
  fs_top :: pac
  fs_init :: "init_fn option"
  fs_user_state :: ptr
  fs_aba_counter :: u64
  fs_element_count :: u64
  fs_addr :: addr

datatype data_structure_validity =
    VALIDITY_VALID
  | VALIDITY_INVALID_LOOP
  | VALIDITY_INVALID_MISSING_ELEMENTS
  | VALIDITY_INVALID_ADDITIONAL_ELEMENTS
  | VALIDITY_INVALID_TEST_DATA

record validation_info =
  min_elements :: u64
  max_elements :: u64

section \<open>Element access\<close>

definition freelist_get_user_data_from_element :: "ptr \<Rightarrow> mem \<Rightarrow> ptr option" where
  "freelist_get_user_data_from_element fe m = do {
     _ \<leftarrow> c_assert (fe \<noteq> NULL);
     a \<leftarrow> fe;
     c \<leftarrow> fe_cells m a;
     Some (fe_user_data c)
   }"

definition freelist_set_user_data_in_element :: "ptr \<Rightarrow> ptr \<Rightarrow> mem \<Rightarrow> mem option" where
  "freelist_set_user_data_in_element fe user_data m = do {
     _ \<leftarrow> c_assert (fe \<noteq> NULL);
     a \<leftarrow> fe;
     c \<leftarrow> fe_cells m a;
     Some (m\<lparr>fe_cells := (fe_cells m)(a \<mapsto> c\<lparr>fe_user_data := user_data\<rparr>)\<rparr>)
   }"

definition set_fe_next :: "ptr \<Rightarrow> pac \<Rightarrow> mem \<Rightarrow> mem option" where
  "set_fe_next fe v m = do {
     a \<leftarrow> fe;
     c \<leftarrow> fe_cells m a;
     Some (m\<lparr>fe_cells := (fe_cells m)(a \<mapsto> c\<lparr>fe_next := v\<rparr>)\<rparr>)
   }"

section \<open>Push and pop\<close>

text \<open>
  The \<open>do ... while\<close> loop of a push: store the observed top in the element's link, then
  try to swing the top. A failed compare-and-swap has loaded the actual top.
\<close>

partial_function (option) freelist_push_loop ::
  "freelist_state \<Rightarrow> mem \<Rightarrow> pac \<Rightarrow> pac \<Rightarrow> (freelist_state \<times> mem) option" where
  "freelist_push_loop fs m fe_local original_fe_next = do {
     m \<leftarrow> set_fe_next (fst fe_local) original_fe_next m;
     let (cas_result, top, original_fe_next) = abstraction_dcas (fs_top fs) fe_local original_fe_next;
         fs = fs\<lparr>fs_top := top\<rparr>
     in if cas_result = 0 then freelist_push_loop fs m fe_local original_fe_next else Some (fs, m)
   }"

definition freelist_push :: "freelist_state \<Rightarrow> ptr \<Rightarrow> mem \<Rightarrow> (freelist_state \<times> mem) option" where
  "freelist_push fs fe m = do {
     _ \<leftarrow> c_assert (fe \<noteq> NULL);
     let (counter, aba) = abstraction_increment (fs_aba_counter fs);
         fs = fs\<lparr>fs_aba_counter := aba\<rparr>;
         fe_local = (fe, counter);
         original_fe_next = fs_top fs
     in freelist_push_loop fs m fe_local original_fe_next
   }"

partial_function (option) freelist_pop_loop ::
  "freelist_state \<Rightarrow> mem \<Rightarrow> pac \<Rightarrow> (ptr \<times> freelist_state) option" where
  "freelist_pop_loop fs m fe_local =
     (case fst fe_local of
        None \<Rightarrow> Some (NULL, fs)
      | Some a \<Rightarrow> do {
          c \<leftarrow> fe_cells m a;
          let (cas_result, top, fe_local') = abstraction_dcas (fs_top fs) (fe_next c) fe_local;
              fs = fs\<lparr>fs_top := top\<rparr>
          in if cas_result = 0 then freelist_pop_loop fs m fe_local' else Some (fst fe_local', fs)
        })"

definition freelist_pop :: "freelist_state \<Rightarrow> mem \<Rightarrow> (ptr \<times> freelist_state) option" where
  "freelist_pop fs m = freelist_pop_loop fs m (fs_top fs)"

section \<open>Construction\<close>

definition freelist_internal_new_element ::
  "freelist_state \<Rightarrow> mem \<Rightarrow> (u64 \<times> ptr \<times> freelist_state \<times> mem) option" where
  "freelist_internal_new_element fs m = do {
     (rv, fe, m) \<leftarrow>
       (case abstraction_aligned_malloc Freelist_element m of
          (None, m) \<Rightarrow> Some (0, NULL, m)
        | (Some a, m) \<Rightarrow>
            (case fs_init fs of
               None \<Rightarrow> do {
                 m \<leftarrow> freelist_set_user_data_in_element (Some a) NULL m;
                 Some (1, Some a, m)
               }
             | Some user_data_init_function \<Rightarrow> do {
                 user_data \<leftarrow> freelist_get_user_data_from_element (Some a) m;
                 (status, user_data, m) \<leftarrow> user_data_init_function user_data (fs_user_state fs) m;
                 m \<leftarrow> freelist_set_user_data_in_element (Some a) user_data m;
                 let rv = word_of_int status :: u64
                 in if rv = 0 then do {
                      m \<leftarrow> abstraction_aligned_free (Some a) m;
                      Some (rv, NULL, m)
                    }
                    else Some (rv, Some a, m)
               }));
     let fs = (if rv = 1
               then fs\<lparr>fs_element_count := snd (abstraction_increment (fs_element_count fs))\<rparr>
               else fs)
     in Some (rv, fe, fs, m)
   }"

text \<open>The source returns \<open>*fe\<close>; it does not touch the list despite its name.\<close>

definition freelist_guaranteed_pop ::
  "freelist_state \<Rightarrow> mem \<Rightarrow> (ptr \<times> freelist_state \<times> mem) option" where
  "freelist_guaranteed_pop fs m = do {
     (_, fe, fs, m) \<leftarrow> freelist_internal_new_element fs m;
     Some (fe, fs, m)
   }"

text \<open>The counting loop: \<open>loop\<close> runs from 0 to the bound in the unsigned \<open>atom_t\<close>.\<close>

partial_function (option) freelist_new_elements_loop ::
  "u64 \<Rightarrow> u64 \<Rightarrow> u64 \<Rightarrow> freelist_state \<Rightarrow> mem \<Rightarrow> (u64 \<times> freelist_state \<times> mem) option" where
  "freelist_new_elements_loop number_elements loop count fs m =
     (if loop < number_elements then do {
        (rv, fe, fs, m) \<leftarrow> freelist_internal_new_element fs m;
        (count, fs, m) \<leftarrow>
          (if rv \<noteq> 0 then do {
             (fs, m) \<leftarrow> freelist_push fs fe m;
             Some (count + 1, fs, m)
           } else Some (count, fs, m));
        freelist_new_elements_loop number_elements (loop + 1) count fs m
      } else Some (count, fs, m))"

definition freelist_new_elements ::
  "freelist_state \<Rightarrow> u64 \<Rightarrow> mem \<Rightarrow> (u64 \<times> freelist_state \<times> mem) option" where
  "freelist_new_elements fs number_elements m =
     freelist_new_elements_loop number_elements 0 0 fs m"

definition freelist_new ::
  "u64 \<Rightarrow> init_fn option \<Rightarrow> ptr \<Rightarrow> mem \<Rightarrow> (int \<times> freelist_state option \<times> mem) option" where
  "freelist_new number_elements user_data_init_function user_state m =
     (case abstraction_aligned_malloc Freelist_state m of
        (None, m) \<Rightarrow> Some (0, None, m)
      | (Some a, m) \<Rightarrow>
          (let fs = \<lparr>fs_top = (NULL, 0), fs_init = user_data_init_function,
                     fs_user_state = user_state, fs_aba_counter = 0, fs_element_count = 0,
                     fs_addr = a\<rparr>
           in do {
             (element_count, fs, m) \<leftarrow> freelist_new_elements fs number_elements m;
             if element_count = number_elements then Some (1, Some fs, m)
             else do {
               m \<leftarrow> abstraction_aligned_free (Some (fs_addr fs)) m;
               Some (0, None, m)
             }
           }))"

section \<open>Destruction and queries\<close>

partial_function (option) freelist_delete_loop ::
  "freelist_state \<Rightarrow> delete_fn option \<Rightarrow> ptr \<Rightarrow> mem \<Rightarrow> (freelist_state \<times> mem) option" where
  "freelist_delete_loop fs user_data_delete_function user_state m = do {
     (fe, fs) \<leftarrow> freelist_pop fs m;
     if fe \<noteq> NULL then do {
       m \<leftarrow> (case user_data_delete_function of
               None \<Rightarrow> Some m
             | Some delete \<Rightarrow> do {
                 user_data \<leftarrow> freelist_get_user_data_from_element fe m;
                 delete user_data user_state m
               });
       m \<leftarrow> abstraction_aligned_free fe m;
       freelist_delete_loop fs user_data_delete_function user_state m
     } else Some (fs, m)
   }"

definition freelist_delete ::
  "freelist_state \<Rightarrow> delete_fn option \<Rightarrow> ptr \<Rightarrow> mem \<Rightarrow> mem option" where
  "freelist_delete fs user_data_delete_function user_state m = do {
     (fs, m) \<leftarrow> freelist_delete_loop fs user_data_delete_function user_state m;
     abstraction_aligned_free (Some (fs_addr fs)) m
   }"

definition fe_link :: "mem \<Rightarrow> addr \<rightharpoonup> ptr" where
  "fe_link m a = map_option (\<lambda>c. fst (fe_next c)) (fe_cells m a)"

text \<open>The bounds of the caller; \<open>None\<close> is the \<open>NULL\<close> that switches the count off.\<close>

definition check_count :: "u64 \<Rightarrow> validation_info \<Rightarrow> data_structure_validity" where
  "check_count element_count vi =
     (let validity = VALIDITY_VALID;
          validity = (if element_count < min_elements vi
                      then VALIDITY_INVALID_MISSING_ELEMENTS else validity);
          validity = (if element_count > max_elements vi
                      then VALIDITY_INVALID_ADDITIONAL_ELEMENTS else validity)
      in validity)"

definition freelist_internal_validate ::
  "freelist_state \<Rightarrow> validation_info option \<Rightarrow> mem \<Rightarrow> data_structure_validity option" where
  "freelist_internal_validate fs vi m = do {
     looped \<leftarrow> has_loop (fe_link m) (fst (fs_top fs));
     if looped then Some VALIDITY_INVALID_LOOP
     else (case vi of
             None \<Rightarrow> Some VALIDITY_VALID
           | Some vi \<Rightarrow> do {
               element_count \<leftarrow> count_elements (fe_link m) (fst (fs_top fs)) 0;
               Some (check_count element_count vi)
             })
   }"

datatype freelist_query_type = FREELIST_QUERY_ELEMENT_COUNT | FREELIST_QUERY_VALIDATE

text \<open>What a query writes through its \<open>query_output\<close> pointer.\<close>

datatype query_output = Count u64 | Validity data_structure_validity

fun freelist_query ::
  "freelist_state \<Rightarrow> freelist_query_type \<Rightarrow> validation_info option \<Rightarrow> mem \<Rightarrow> query_output option" where
  "freelist_query fs FREELIST_QUERY_ELEMENT_COUNT query_input m = do {
     _ \<leftarrow> c_assert (query_input = None);
     Some (Count (fs_element_count fs))
   }"
| "freelist_query fs FREELIST_QUERY_VALIDATE query_input m =
     map_option Validity (freelist_internal_validate fs query_input m)"

section \<open>The interface of a pool of elements\<close>

text \<open>
  What a client of the freelist relies on: a state that represents a list of free elements,
  operations that take the first one and put one back in front, and a frame (everything but
  the links and the top) that neither changes.
\<close>

locale pool =
  fixes rep :: "'s \<Rightarrow> addr list \<Rightarrow> bool"
    and owns :: "'s \<Rightarrow> addr \<Rightarrow> bool"
    and frame :: "'s \<Rightarrow> 'v"
    and pop :: "'s \<Rightarrow> (ptr \<times> 's) option"
    and push :: "'s \<Rightarrow> addr \<Rightarrow> 's option"
  assumes pop_empty: "rep s [] \<Longrightarrow> pop s = Some (NULL, s)"
    and pop_top: "rep s (a # as) \<Longrightarrow> \<exists>s'. pop s = Some (Some a, s') \<and> rep s' as \<and> frame s' = frame s"
    and push_top: "rep s as \<Longrightarrow> owns s a \<Longrightarrow> a \<notin> set as \<Longrightarrow>
      \<exists>s'. push s a = Some s' \<and> rep s' (a # as) \<and> frame s' = frame s"
    and owns_frame: "frame s' = frame s \<Longrightarrow> owns s' a = owns s a"
    and rep_distinct: "rep s as \<Longrightarrow> distinct as"

text \<open>Operation sequences, on the implementation and on the specification (a stack).\<close>

datatype pool_op = Push addr | Pop

fun run_pool ::
  "('s \<Rightarrow> (ptr \<times> 's) option) \<Rightarrow> ('s \<Rightarrow> addr \<Rightarrow> 's option) \<Rightarrow> pool_op list \<Rightarrow> 's \<Rightarrow> (ptr list \<times> 's) option"
where
  "run_pool pop push [] s = Some ([], s)"
| "run_pool pop push (Push a # ops) s = Option.bind (push s a) (run_pool pop push ops)"
| "run_pool pop push (Pop # ops) s = do {
     (p, s) \<leftarrow> pop s;
     (ps, s) \<leftarrow> run_pool pop push ops s;
     Some (p # ps, s)
   }"

fun run_stack :: "pool_op list \<Rightarrow> addr list \<Rightarrow> ptr list \<times> addr list" where
  "run_stack [] as = ([], as)"
| "run_stack (Push a # ops) as = run_stack ops (a # as)"
| "run_stack (Pop # ops) [] = (let (ps, bs) = run_stack ops [] in (NULL # ps, bs))"
| "run_stack (Pop # ops) (a # as) = (let (ps, bs) = run_stack ops as in (Some a # ps, bs))"

text \<open>A client pushes only elements it owns that are not in the pool already.\<close>

fun legal_ops :: "(addr \<Rightarrow> bool) \<Rightarrow> pool_op list \<Rightarrow> addr list \<Rightarrow> bool" where
  "legal_ops own [] as = True"
| "legal_ops own (Push a # ops) as = (own a \<and> a \<notin> set as \<and> legal_ops own ops (a # as))"
| "legal_ops own (Pop # ops) as = legal_ops own ops (tl as)"

context pool
begin

lemma push_pop:
  assumes "rep s as" "owns s a" "a \<notin> set as"
  shows "\<exists>s'. Option.bind (push s a) pop = Some (Some a, s') \<and> rep s' as \<and> frame s' = frame s"
  using push_top [OF assms] pop_top by fastforce

lemma run_refines:
  "rep s as \<Longrightarrow> legal_ops (owns s) ops as \<Longrightarrow>
     \<exists>s'. run_pool pop push ops s = Some (fst (run_stack ops as), s') \<and>
          rep s' (snd (run_stack ops as)) \<and> frame s' = frame s"
proof (induction ops arbitrary: s as)
  case Nil
  then show ?case by simp
next
  case (Cons opn ops)
  show ?case
  proof (cases opn)
    case (Push a)
    with Cons.prems obtain s1
      where s1: "push s a = Some s1" "rep s1 (a # as)" "frame s1 = frame s"
      using push_top by force
    moreover have "owns s1 = owns s" using owns_frame [OF s1(3)] by blast
    ultimately show ?thesis
      using Push Cons.prems Cons.IH [OF s1(2)] by auto
  next
    case Pop
    show ?thesis
    proof (cases as)
      case Nil
      then show ?thesis
        using Pop Cons.prems Cons.IH [of s "[]"] pop_empty [of s] by (force simp: split_beta)
    next
      case (Cons b bs)
      with Cons.prems obtain s1
        where s1: "pop s = Some (Some b, s1)" "rep s1 bs" "frame s1 = frame s"
        using pop_top by blast
      moreover have "owns s1 = owns s" using owns_frame [OF s1(3)] by blast
      ultimately show ?thesis
        using Pop Cons Cons.prems Cons.IH [OF s1(2)] by (auto simp: split_beta)
    qed
  qed
qed

end

section \<open>The freelist is a pool\<close>

definition freelist_rep :: "freelist_state \<times> mem \<Rightarrow> addr list \<Rightarrow> bool" where
  "freelist_rep s as = (case s of (fs, m) \<Rightarrow> path (fe_link m) (fst (fs_top fs)) as NULL)"

definition freelist_owns :: "freelist_state \<times> mem \<Rightarrow> addr \<Rightarrow> bool" where
  "freelist_owns s a = (case s of (fs, m) \<Rightarrow> a \<in> dom (fe_cells m))"

definition forget_links :: "mem \<Rightarrow> mem" where
  "forget_links m = m\<lparr>fe_cells := (\<lambda>a. map_option (\<lambda>c. c\<lparr>fe_next := (NULL, 0)\<rparr>) (fe_cells m a))\<rparr>"

definition freelist_frame :: "freelist_state \<times> mem \<Rightarrow> freelist_state \<times> mem" where
  "freelist_frame s =
     (case s of (fs, m) \<Rightarrow> (fs\<lparr>fs_top := (NULL, 0), fs_aba_counter := 0\<rparr>, forget_links m))"

definition pool_pop :: "freelist_state \<times> mem \<Rightarrow> (ptr \<times> (freelist_state \<times> mem)) option" where
  "pool_pop s = (case s of (fs, m) \<Rightarrow> do { (p, fs) \<leftarrow> freelist_pop fs m; Some (p, (fs, m)) })"

definition pool_push :: "freelist_state \<times> mem \<Rightarrow> addr \<Rightarrow> (freelist_state \<times> mem) option" where
  "pool_push s a = (case s of (fs, m) \<Rightarrow> freelist_push fs (Some a) m)"

lemma freelist_pop_empty: "fst (fs_top fs) = NULL \<Longrightarrow> freelist_pop fs m = Some (NULL, fs)"
  by (simp add: freelist_pop_def freelist_pop_loop.simps)

lemma freelist_pop_cons:
  "fst (fs_top fs) = Some a \<Longrightarrow> fe_cells m a = Some c \<Longrightarrow>
     freelist_pop fs m = Some (Some a, fs\<lparr>fs_top := fe_next c\<rparr>)"
  by (subst freelist_pop_def, subst freelist_pop_loop.simps) (simp add: Let_def)

lemma freelist_push_eq:
  "fe_cells m a = Some c \<Longrightarrow>
     freelist_push fs (Some a) m =
       Some (fs\<lparr>fs_aba_counter := fs_aba_counter fs + 1, fs_top := (Some a, fs_aba_counter fs + 1)\<rparr>,
             m\<lparr>fe_cells := (fe_cells m)(a \<mapsto> c\<lparr>fe_next := fs_top fs\<rparr>)\<rparr>)"
  by (simp add: freelist_push_def freelist_push_loop.simps set_fe_next_def
      abstraction_increment_def Let_def)

lemma fe_link_simps [simp]:
  "fe_link (m\<lparr>calls := v\<rparr>) = fe_link m"
  "fe_link (m\<lparr>fe_cells := (fe_cells m)(a \<mapsto> c)\<rparr>) = (fe_link m)(a \<mapsto> fst (fe_next c))"
  by (simp_all add: fe_link_def fun_eq_iff)

lemma fe_link_Some: "fe_link m a = Some p \<longleftrightarrow> (\<exists>c. fe_cells m a = Some c \<and> p = fst (fe_next c))"
  by (auto simp: fe_link_def)

lemma freelist_rep_cons:
  assumes "freelist_rep (fs, m) (a # as)"
  obtains c where "fst (fs_top fs) = Some a" "fe_cells m a = Some c"
    "freelist_rep (fs\<lparr>fs_top := fe_next c\<rparr>, m) as"
  using assms by (auto simp: freelist_rep_def fe_link_Some split: option.splits)

lemma forget_links_upd [simp]:
  "fe_cells m a = Some c \<Longrightarrow>
     forget_links (m\<lparr>fe_cells := (fe_cells m)(a \<mapsto> c\<lparr>fe_next := v\<rparr>)\<rparr>) = forget_links m"
  by (simp add: forget_links_def fun_eq_iff)

interpretation fl: pool freelist_rep freelist_owns freelist_frame pool_pop pool_push
proof unfold_locales
  fix s :: "freelist_state \<times> mem" and s' a as
  show "freelist_rep s [] \<Longrightarrow> pool_pop s = Some (NULL, s)"
    by (auto simp: freelist_rep_def pool_pop_def freelist_pop_empty split: prod.splits)
  show "freelist_rep s as \<Longrightarrow> distinct as"
    by (auto simp: freelist_rep_def dest: path_distinct)
  show "\<exists>s'. pool_pop s = Some (Some a, s') \<and> freelist_rep s' as \<and> freelist_frame s' = freelist_frame s"
    if "freelist_rep s (a # as)"
  proof -
    obtain fs m where s: "s = (fs, m)" by (cases s)
    with that obtain c where c: "fst (fs_top fs) = Some a" "fe_cells m a = Some c"
      "freelist_rep (fs\<lparr>fs_top := fe_next c\<rparr>, m) as"
      using freelist_rep_cons by blast
    with s show ?thesis
      by (simp add: pool_pop_def freelist_pop_cons freelist_frame_def)
  qed
  show "\<exists>s'. pool_push s a = Some s' \<and> freelist_rep s' (a # as) \<and> freelist_frame s' = freelist_frame s"
    if "freelist_rep s as" "freelist_owns s a" "a \<notin> set as"
  proof -
    obtain fs m where s: "s = (fs, m)" by (cases s)
    with that(2) obtain c where c: "fe_cells m a = Some c" by (auto simp: freelist_owns_def)
    with s that(1,3) show ?thesis
      by (simp add: pool_push_def freelist_push_eq freelist_rep_def freelist_frame_def)
  qed
  show "freelist_frame s' = freelist_frame s \<Longrightarrow> freelist_owns s' a = freelist_owns s a"
  proof -
    assume eq: "freelist_frame s' = freelist_frame s"
    have "map_option (\<lambda>c. c\<lparr>fe_next := (NULL, 0)\<rparr>) (fe_cells (snd s') a) =
        map_option (\<lambda>c. c\<lparr>fe_next := (NULL, 0)\<rparr>) (fe_cells (snd s) a)"
      using arg_cong [OF eq, of "\<lambda>x. fe_cells (snd x) a"]
      by (simp add: freelist_frame_def forget_links_def split_beta)
    then have "(fe_cells (snd s') a = None) = (fe_cells (snd s) a = None)"
      by (metis map_option_is_None)
    then show ?thesis by (auto simp add: freelist_owns_def dom_def split_beta)
  qed
qed

section \<open>Validation\<close>

lemma freelist_validate_rep:
  assumes "freelist_rep (fs, m) as"
  shows "freelist_internal_validate fs vi m =
    Some (case vi of None \<Rightarrow> VALIDITY_VALID | Some vi \<Rightarrow> check_count (of_nat (length as)) vi)"
  using assms
  by (cases vi) (simp_all add: freelist_internal_validate_def freelist_rep_def has_loop_path
      count_elements_path)

lemma freelist_validate_loop:
  assumes "closed (fe_link m)" "valid_ptr (fe_link m) (fst (fs_top fs))" "finite (dom (fe_link m))"
    and "\<nexists>as. freelist_rep (fs, m) as"
  shows "freelist_internal_validate fs vi m = Some VALIDITY_INVALID_LOOP"
  using assms(4)
  by (simp add: freelist_internal_validate_def freelist_rep_def has_loop_iff [OF assms(1-3)])

section \<open>Building a freelist\<close>

text \<open>
  The rule for the allocation loop: an invariant over the rounds done (\<open>i\<close>) and the
  elements pushed (\<open>k\<close>) that every round keeps holds at the end, after exactly
  \<open>number_elements\<close> rounds, and the loop returns the number of pushes.
\<close>

lemma freelist_new_elements_loop_rule:
  assumes step: "\<And>fs m i k. I fs m i k \<Longrightarrow> i < unat n \<Longrightarrow>
      \<exists>rv fe fs1 m1. freelist_internal_new_element fs m = Some (rv, fe, fs1, m1) \<and>
        (if rv \<noteq> 0 then \<exists>fs2 m2. freelist_push fs1 fe m1 = Some (fs2, m2) \<and> I fs2 m2 (Suc i) (Suc k)
         else I fs1 m1 (Suc i) k)"
    and "I fs m i k" "i \<le> unat n"
  shows "\<exists>k' fs' m'. freelist_new_elements_loop n (of_nat i) (of_nat k) fs m = Some (of_nat k', fs', m') \<and>
    I fs' m' (unat n) k'"
  using assms(2,3)
proof (induction "unat n - i" arbitrary: fs m i k)
  case 0
  then have "i = unat n" by simp
  with 0 show ?case by (subst freelist_new_elements_loop.simps) auto
next
  case (Suc d)
  then have lt: "i < unat n" by simp
  then have cond: "of_nat i < n" by (rule of_nat_less_word)
  obtain rv fe fs1 m1 where new: "freelist_internal_new_element fs m = Some (rv, fe, fs1, m1)"
    and next_step: "if rv \<noteq> 0 then \<exists>fs2 m2. freelist_push fs1 fe m1 = Some (fs2, m2) \<and> I fs2 m2 (Suc i) (Suc k)
         else I fs1 m1 (Suc i) k"
    using step [OF Suc.prems(1) lt] by blast
  have d: "d = unat n - Suc i" "Suc i \<le> unat n" using Suc.hyps(2) lt by auto
  show ?case
  proof (cases "rv = 0")
    case True
    with next_step have "I fs1 m1 (Suc i) k" by simp
    from Suc.hyps(1) [OF d(1) this d(2)] True new cond show ?thesis
      by (subst freelist_new_elements_loop.simps) (simp add: add.commute)
  next
    case False
    with next_step obtain fs2 m2
      where "freelist_push fs1 fe m1 = Some (fs2, m2)" "I fs2 m2 (Suc i) (Suc k)" by auto
    with Suc.hyps(1) [OF d(1) this(2) d(2)] False new cond show ?thesis
      by (subst freelist_new_elements_loop.simps) (simp add: add.commute)
  qed
qed

lemma freelist_new_elements_rule:
  assumes "\<And>fs m i k. I fs m i k \<Longrightarrow> i < unat n \<Longrightarrow>
      \<exists>rv fe fs1 m1. freelist_internal_new_element fs m = Some (rv, fe, fs1, m1) \<and>
        (if rv \<noteq> 0 then \<exists>fs2 m2. freelist_push fs1 fe m1 = Some (fs2, m2) \<and> I fs2 m2 (Suc i) (Suc k)
         else I fs1 m1 (Suc i) k)"
    and "I fs m 0 0"
  shows "\<exists>k fs' m'. freelist_new_elements fs n m = Some (of_nat k, fs', m') \<and> I fs' m' (unat n) k"
  using freelist_new_elements_loop_rule [of I n fs m 0 0] assms
  by (simp add: freelist_new_elements_def)

text \<open>The delete loop takes the elements off in order and releases each one.\<close>

primrec release :: "delete_fn option \<Rightarrow> ptr \<Rightarrow> addr list \<Rightarrow> mem \<Rightarrow> mem option" where
  "release delete us [] m = Some m"
| "release delete us (a # as) m = do {
     m \<leftarrow> (case delete of
             None \<Rightarrow> Some m
           | Some d \<Rightarrow> do {
               user_data \<leftarrow> freelist_get_user_data_from_element (Some a) m;
               d user_data us m
             });
     m \<leftarrow> abstraction_aligned_free (Some a) m;
     release delete us as m
   }"

lemma freelist_delete_loop_release:
  assumes "freelist_rep (fs, m) as"
    and "\<And>d ud m m'. delete = Some d \<Longrightarrow> d ud us m = Some m' \<Longrightarrow> fe_link m' = fe_link m"
  shows "map_option (\<lambda>(f, m). (fs_addr f, m)) (freelist_delete_loop fs delete us m) =
    map_option (Pair (fs_addr fs)) (release delete us as m)"
  using assms(1)
proof (induction as arbitrary: fs m)
  case Nil
  then show ?case
    by (subst freelist_delete_loop.simps) (simp add: freelist_pop_empty freelist_rep_def)
next
  case (Cons a as)
  from Cons.prems obtain c where c: "fst (fs_top fs) = Some a" "fe_cells m a = Some c"
    and rep: "freelist_rep (fs\<lparr>fs_top := fe_next c\<rparr>, m) as"
    by (rule freelist_rep_cons)
  have notin: "a \<notin> set as"
    using Cons.prems path_distinct [of "fe_link m" _ "a # as"] by (auto simp: freelist_rep_def)
  define get where "get = (case delete of None \<Rightarrow> Some m
     | Some d \<Rightarrow> Option.bind (freelist_get_user_data_from_element (Some a) m) (\<lambda>ud. d ud us m))"
  have IH: "map_option (\<lambda>(f, m). (fs_addr f, m)) (freelist_delete_loop (fs\<lparr>fs_top := fe_next c\<rparr>) delete us m2) =
      map_option (Pair (fs_addr fs)) (release delete us as m2)"
    if "get = Some m1" "abstraction_aligned_free (Some a) m1 = Some m2" for m1 m2
  proof -
    have "fe_link m1 = fe_link m"
      using that(1) assms(2)
      by (cases delete) (auto simp: get_def bind_eq_Some_conv)
    moreover have "fe_link m2 = (fe_link m1)(a := None)"
      using that(2) by (auto simp: abstraction_aligned_free_def fe_link_def fun_eq_iff split: if_splits)
    ultimately have "freelist_rep (fs\<lparr>fs_top := fe_next c\<rparr>, m2) as"
      using rep notin by (simp add: freelist_rep_def)
    from Cons.IH [OF this] show ?thesis by simp
  qed
  have eqs: "release delete us (a # as) m =
      Option.bind (Option.bind get (abstraction_aligned_free (Some a))) (release delete us as)"
    "freelist_delete_loop fs delete us m =
      Option.bind (Option.bind get (abstraction_aligned_free (Some a)))
        (freelist_delete_loop (fs\<lparr>fs_top := fe_next c\<rparr>) delete us)"
    by (cases delete; simp add: get_def)
      (subst freelist_delete_loop.simps, cases delete; simp add: freelist_pop_cons [OF c] get_def)
  show ?case
  proof (cases "Option.bind get (abstraction_aligned_free (Some a))")
    case None
    then show ?thesis unfolding eqs by simp
  next
    case (Some m2)
    then obtain m1 where "get = Some m1" "abstraction_aligned_free (Some a) m1 = Some m2"
      by (auto simp: bind_eq_Some_conv)
    from IH [OF this] Some show ?thesis unfolding eqs by simp
  qed
qed

end
