(* ===== verification/Queue.thy ===== *)
theory Queue
  imports Freelist
begin

text \<open>
  The lock-free queue (\<open>corelib/lfds/queue_*.c\<close>), run by one thread at a time. A queue is a
  chain of \<open>queue_element\<close>s that always starts with a dummy; its elements are recycled
  through the freelist, whose user data they are. As in the freelist, the retry loops are kept
  and shown to end in their first round.

  Two details of the source are kept because they change the values computed: adding 1 to a
  counter word in \<open>queue_queue.c\<close> is pointer arithmetic on \<open>struct queue_element *\<close>, so it
  adds the size of the structure (\<open>sizeof_queue_element\<close>, 32 bytes on x86-64); and
  \<open>queue_new\<close> leaves the counter words of \<open>enqueue\<close> and \<open>dequeue\<close> as the allocation
  delivered them, and clears \<open>aba_counter\<close> only after its first use.
\<close>

section \<open>State\<close>

record queue_state =
  q_enqueue :: pac
  q_dequeue :: pac
  q_aba_counter :: u64
  q_fs :: freelist_state
  q_addr :: addr

definition sizeof_queue_element :: u64 where
  "sizeof_queue_element = 32"

datatype dequeue_state =
    QUEUE_STATE_UNKNOWN
  | QUEUE_STATE_EMPTY
  | QUEUE_STATE_ENQUEUE_OUT_OF_PLACE
  | QUEUE_STATE_ATTEMPT_DEQUEUE

section \<open>Elements\<close>

definition queue_internal_freelist_init_function :: init_fn where
  "queue_internal_freelist_init_function user_data user_state m = do {
     _ \<leftarrow> c_assert (user_state = NULL);
     let (user_data, m) = abstraction_aligned_malloc Queue_element m;
         rv = (if user_data \<noteq> NULL then 1 else 0)
     in Some (rv, user_data, m)
   }"

definition queue_internal_freelist_delete_function :: delete_fn where
  "queue_internal_freelist_delete_function user_data user_state m = do {
     _ \<leftarrow> c_assert (user_data \<noteq> NULL);
     _ \<leftarrow> c_assert (user_state = NULL);
     abstraction_aligned_free user_data m
   }"

definition queue_internal_init_element ::
  "queue_state \<Rightarrow> ptr \<Rightarrow> ptr \<Rightarrow> mem \<Rightarrow> (pac \<times> queue_state \<times> mem) option" where
  "queue_internal_init_element qs fe user_data m = do {
     _ \<leftarrow> c_assert (fe \<noteq> NULL);
     qe_pointer \<leftarrow> freelist_get_user_data_from_element fe m;
     let (qe_counter, aba) = abstraction_increment (q_aba_counter qs);
         (next_counter, aba) = abstraction_increment aba
     in do {
       q \<leftarrow> qe_pointer;
       _ \<leftarrow> qe_cells m q;
       Some ((qe_pointer, qe_counter), qs\<lparr>q_aba_counter := aba\<rparr>,
             m\<lparr>qe_cells := (qe_cells m)(q \<mapsto>
               \<lparr>qe_next = (NULL, next_counter), qe_fe = fe, qe_user_data = user_data\<rparr>)\<rparr>)
     }
   }"

text \<open>Result: the pointer is \<open>NULL\<close> when the freelist is empty.\<close>

definition queue_internal_new_element_from_freelist ::
  "queue_state \<Rightarrow> ptr \<Rightarrow> mem \<Rightarrow> (pac \<times> queue_state \<times> mem) option" where
  "queue_internal_new_element_from_freelist qs user_data m = do {
     (fe, fs) \<leftarrow> freelist_pop (q_fs qs) m;
     let qs = qs\<lparr>q_fs := fs\<rparr>
     in if fe \<noteq> NULL then queue_internal_init_element qs fe user_data m
        else Some ((NULL, 0), qs, m)
   }"

definition queue_internal_guaranteed_new_element_from_freelist ::
  "queue_state \<Rightarrow> ptr \<Rightarrow> mem \<Rightarrow> (pac \<times> queue_state \<times> mem) option" where
  "queue_internal_guaranteed_new_element_from_freelist qs user_data m = do {
     (fe, fs, m) \<leftarrow> freelist_guaranteed_pop (q_fs qs) m;
     let qs = qs\<lparr>q_fs := fs\<rparr>
     in if fe \<noteq> NULL then queue_internal_init_element qs fe user_data m
        else Some ((NULL, 0), qs, m)
   }"

section \<open>Construction\<close>

definition queue_new :: "u64 \<Rightarrow> mem \<Rightarrow> (int \<times> queue_state option \<times> mem) option" where
  "queue_new number_elements m =
     (case abstraction_aligned_malloc Queue_state m of
        (None, m) \<Rightarrow> Some (0, None, m)
      | (Some a, m) \<Rightarrow> do {
          (_, fs, m) \<leftarrow> freelist_new (number_elements + 1)
                          (Some queue_internal_freelist_init_function) NULL m;
          case fs of
            Some fs \<Rightarrow> do {
              (qe, qs, m) \<leftarrow> queue_internal_new_element_from_freelist
                 \<lparr>q_enqueue = (NULL, junk_word m a 1), q_dequeue = (NULL, junk_word m a 3),
                  q_aba_counter = junk_word m a 4, q_fs = fs, q_addr = a\<rparr> NULL m;
              let qs = qs\<lparr>q_dequeue := (fst qe, snd (q_dequeue qs))\<rparr>;
                  qs = qs\<lparr>q_enqueue := (fst (q_dequeue qs), snd (q_enqueue qs))\<rparr>;
                  qs = qs\<lparr>q_aba_counter := 0\<rparr>
              in Some (1, Some qs, m)
            }
          | None \<Rightarrow> do {
              m \<leftarrow> abstraction_aligned_free (Some a) m;
              Some (0, None, m)
            }
        })"

section \<open>Enqueue\<close>

definition set_qe_next :: "ptr \<Rightarrow> pac \<Rightarrow> mem \<Rightarrow> mem option" where
  "set_qe_next qe v m = do {
     a \<leftarrow> qe;
     c \<leftarrow> qe_cells m a;
     Some (m\<lparr>qe_cells := (qe_cells m)(a \<mapsto> c\<lparr>qe_next := v\<rparr>)\<rparr>)
   }"

text \<open>
  The linking loop. \<open>enqueue\<close> and \<open>next\<close> are the locals of the source; the loop returns
  them as they are when the element has been linked.
\<close>

partial_function (option) queue_internal_queue_loop ::
  "queue_state \<Rightarrow> pac \<Rightarrow> mem \<Rightarrow> (pac \<times> pac \<times> queue_state \<times> mem) option" where
  "queue_internal_queue_loop qs qe m =
     (let enqueue = q_enqueue qs
      in do {
        a \<leftarrow> fst enqueue;
        c \<leftarrow> qe_cells m a;
        let next = qe_next c
        in if fst (q_enqueue qs) = fst enqueue \<and> snd (q_enqueue qs) = snd enqueue
           then if fst next = NULL
             then (let qe = (fst qe, snd next + sizeof_queue_element);
                       (cas_result, dest, next) = abstraction_dcas (qe_next c) qe next
                   in do {
                     m \<leftarrow> set_qe_next (fst enqueue) dest m;
                     if cas_result = 0 then queue_internal_queue_loop qs qe m
                     else Some (enqueue, qe, qs, m)
                   })
             else (let next = (fst next, snd enqueue + sizeof_queue_element);
                       (_, dest, enqueue) = abstraction_dcas (q_enqueue qs) next enqueue
                   in queue_internal_queue_loop (qs\<lparr>q_enqueue := dest\<rparr>) qe m)
           else queue_internal_queue_loop qs qe m
      })"

definition queue_internal_queue :: "queue_state \<Rightarrow> pac \<Rightarrow> mem \<Rightarrow> (queue_state \<times> mem) option" where
  "queue_internal_queue qs qe m = do {
     (enqueue, qe, qs, m) \<leftarrow> queue_internal_queue_loop qs qe m;
     let qe = (fst qe, snd enqueue + sizeof_queue_element);
         (_, dest, enqueue) = abstraction_dcas (q_enqueue qs) qe enqueue
     in Some (qs\<lparr>q_enqueue := dest\<rparr>, m)
   }"

definition queue_enqueue :: "queue_state \<Rightarrow> ptr \<Rightarrow> mem \<Rightarrow> (int \<times> queue_state \<times> mem) option" where
  "queue_enqueue qs user_data m = do {
     (qe, qs, m) \<leftarrow> queue_internal_new_element_from_freelist qs user_data m;
     if fst qe = NULL then Some (0, qs, m)
     else do {
       (qs, m) \<leftarrow> queue_internal_queue qs qe m;
       Some (1, qs, m)
     }
   }"

definition queue_guaranteed_enqueue ::
  "queue_state \<Rightarrow> ptr \<Rightarrow> mem \<Rightarrow> (int \<times> queue_state \<times> mem) option" where
  "queue_guaranteed_enqueue qs user_data m = do {
     (qe, qs, m) \<leftarrow> queue_internal_guaranteed_new_element_from_freelist qs user_data m;
     if fst qe = NULL then Some (0, qs, m)
     else do {
       (qs, m) \<leftarrow> queue_internal_queue qs qe m;
       Some (1, qs, m)
     }
   }"

section \<open>Dequeue\<close>

text \<open>
  The three tests that classify the state, in their order; a state no test accepts keeps its
  old value, as the source's variable does.
\<close>

definition classify :: "dequeue_state \<Rightarrow> pac \<Rightarrow> pac \<Rightarrow> pac \<Rightarrow> dequeue_state" where
  "classify state enqueue dequeue next =
     (let state = (if fst enqueue = fst dequeue \<and> fst next = NULL
                   then QUEUE_STATE_EMPTY else state);
          state = (if fst enqueue = fst dequeue \<and> fst next \<noteq> NULL
                   then QUEUE_STATE_ENQUEUE_OUT_OF_PLACE else state);
          state = (if fst enqueue \<noteq> fst dequeue
                   then QUEUE_STATE_ATTEMPT_DEQUEUE else state)
      in state)"

text \<open>Result: \<open>rv\<close>, \<open>*user_data\<close>, \<open>cas_result\<close>, the local \<open>dequeue\<close>, the state.\<close>

partial_function (option) queue_dequeue_loop ::
  "dequeue_state \<Rightarrow> queue_state \<Rightarrow> mem \<Rightarrow> (int \<times> ptr \<times> u8 \<times> pac \<times> queue_state) option" where
  "queue_dequeue_loop state qs m =
     (let dequeue = q_dequeue qs;
          enqueue = q_enqueue qs
      in do {
        d \<leftarrow> fst dequeue;
        dc \<leftarrow> qe_cells m d;
        let next = qe_next dc
        in if fst dequeue = fst (q_dequeue qs) \<and> snd dequeue = snd (q_dequeue qs)
           then (let state = classify state enqueue dequeue next
                 in case state of
                      QUEUE_STATE_UNKNOWN \<Rightarrow> queue_dequeue_loop state qs m
                    | QUEUE_STATE_EMPTY \<Rightarrow> Some (0, NULL, 0, dequeue, qs)
                    | QUEUE_STATE_ENQUEUE_OUT_OF_PLACE \<Rightarrow>
                        (let next = (fst next, snd enqueue + sizeof_queue_element);
                             (_, dest, enqueue) = abstraction_dcas (q_enqueue qs) next enqueue
                         in queue_dequeue_loop state (qs\<lparr>q_enqueue := dest\<rparr>) m)
                    | QUEUE_STATE_ATTEMPT_DEQUEUE \<Rightarrow> do {
                        n \<leftarrow> fst next;
                        nc \<leftarrow> qe_cells m n;
                        let user_data = qe_user_data nc;
                            next = (fst next, snd dequeue + sizeof_queue_element);
                            (cas_result, dest, dequeue) = abstraction_dcas (q_dequeue qs) next dequeue;
                            qs = qs\<lparr>q_dequeue := dest\<rparr>
                        in if cas_result = 1 then Some (1, user_data, cas_result, dequeue, qs)
                           else queue_dequeue_loop state qs m
                      })
           else queue_dequeue_loop state qs m
      })"

definition queue_dequeue :: "queue_state \<Rightarrow> mem \<Rightarrow> (int \<times> ptr \<times> queue_state \<times> mem) option" where
  "queue_dequeue qs m = do {
     (rv, user_data, cas_result, dequeue, qs) \<leftarrow> queue_dequeue_loop QUEUE_STATE_UNKNOWN qs m;
     if cas_result = 1 then do {
       d \<leftarrow> fst dequeue;
       dc \<leftarrow> qe_cells m d;
       (fs, m) \<leftarrow> freelist_push (q_fs qs) (qe_fe dc) m;
       Some (rv, user_data, qs\<lparr>q_fs := fs\<rparr>, m)
     } else Some (rv, user_data, qs, m)
   }"

section \<open>Destruction and queries\<close>

partial_function (option) queue_delete_loop ::
  "queue_state \<Rightarrow> delete_fn option \<Rightarrow> ptr \<Rightarrow> mem \<Rightarrow> (queue_state \<times> mem) option" where
  "queue_delete_loop qs user_data_delete_function user_state m = do {
     (rv, user_data, qs, m) \<leftarrow> queue_dequeue qs m;
     if rv \<noteq> 0 then do {
       m \<leftarrow> (case user_data_delete_function of
               None \<Rightarrow> Some m
             | Some delete \<Rightarrow> delete user_data user_state m);
       queue_delete_loop qs user_data_delete_function user_state m
     } else Some (qs, m)
   }"

definition queue_delete ::
  "queue_state \<Rightarrow> delete_fn option \<Rightarrow> ptr \<Rightarrow> mem \<Rightarrow> mem option" where
  "queue_delete qs user_data_delete_function user_state m = do {
     (qs, m) \<leftarrow> queue_delete_loop qs user_data_delete_function user_state m;
     q \<leftarrow> fst (q_enqueue qs);
     c \<leftarrow> qe_cells m q;
     (fs, m) \<leftarrow> freelist_push (q_fs qs) (qe_fe c) m;
     m \<leftarrow> freelist_delete fs (Some queue_internal_freelist_delete_function) NULL m;
     abstraction_aligned_free (Some (q_addr qs)) m
   }"

definition qe_link :: "mem \<Rightarrow> addr \<rightharpoonup> ptr" where
  "qe_link m a = map_option (\<lambda>c. fst (qe_next c)) (qe_cells m a)"

text \<open>The first half of the validator, on the chain itself.\<close>

definition queue_chain_validate ::
  "queue_state \<Rightarrow> validation_info option \<Rightarrow> mem \<Rightarrow> data_structure_validity option" where
  "queue_chain_validate qs vi m = do {
     looped \<leftarrow> has_loop (qe_link m) (fst (q_dequeue qs));
     if looped then Some VALIDITY_INVALID_LOOP
     else (case vi of
             None \<Rightarrow> Some VALIDITY_VALID
           | Some vi \<Rightarrow> do {
               element_count \<leftarrow> count_elements (qe_link m) (fst (q_dequeue qs)) 0;
               Some (check_count (element_count - 1) vi)
             })
   }"

text \<open>The bounds it derives for the freelist, in unsigned arithmetic.\<close>

definition freelist_bounds :: "u64 \<Rightarrow> validation_info \<Rightarrow> validation_info" where
  "freelist_bounds element_count vi =
     (let total_elements = element_count - 1
      in \<lparr>min_elements = total_elements - max_elements vi,
          max_elements = total_elements - min_elements vi\<rparr>)"

definition queue_internal_validate ::
  "queue_state \<Rightarrow> validation_info option \<Rightarrow> mem \<Rightarrow>
     (data_structure_validity \<times> data_structure_validity) option" where
  "queue_internal_validate qs vi m = do {
     queue_validity \<leftarrow> queue_chain_validate qs vi m;
     freelist_validity \<leftarrow>
       (case vi of
          Some vi \<Rightarrow> freelist_internal_validate (q_fs qs)
                       (Some (freelist_bounds (fs_element_count (q_fs qs)) vi)) m
        | None \<Rightarrow> freelist_internal_validate (q_fs qs) None m);
     Some (queue_validity, freelist_validity)
   }"

datatype queue_query_type = QUEUE_QUERY_ELEMENT_COUNT | QUEUE_QUERY_VALIDATE

datatype queue_query_output =
    QueueCount u64
  | QueueValidity data_structure_validity data_structure_validity

fun queue_query ::
  "queue_state \<Rightarrow> queue_query_type \<Rightarrow> validation_info option \<Rightarrow> mem \<Rightarrow> queue_query_output option" where
  "queue_query qs QUEUE_QUERY_ELEMENT_COUNT query_input m = do {
     _ \<leftarrow> c_assert (query_input = None);
     output \<leftarrow> freelist_query (q_fs qs) FREELIST_QUERY_ELEMENT_COUNT None m;
     (case output of Count n \<Rightarrow> Some (QueueCount n) | Validity _ \<Rightarrow> None)
   }"
| "queue_query qs QUEUE_QUERY_VALIDATE query_input m = do {
     (queue_validity, freelist_validity) \<leftarrow> queue_internal_validate qs query_input m;
     Some (QueueValidity queue_validity freelist_validity)
   }"

end
