(* ===== verification/Queue_Correct.thy ===== *)
theory Queue_Correct
  imports Queue
begin

text \<open>
  What the queue represents and that its operations implement a bounded FIFO. A queue state owns
  pairs of a freelist element and the queue element that is its user data: \<open>nodes\<close> are the
  pairs of the chain (the first is the dummy), \<open>free\<close> those in the freelist. The contents are
  the user data of \<open>nodes\<close> after the dummy.
\<close>

section \<open>Representation\<close>

type_synonym node = "addr \<times> addr"

definition owns_pair :: "mem \<Rightarrow> node \<Rightarrow> bool" where
  "owns_pair m n \<longleftrightarrow>
     (\<exists>c. fe_cells m (fst n) = Some c \<and> fe_user_data c = Some (snd n)) \<and> snd n \<in> dom (qe_cells m)"

definition back_pointer :: "mem \<Rightarrow> node \<Rightarrow> bool" where
  "back_pointer m n \<longleftrightarrow> (\<exists>c. qe_cells m (snd n) = Some c \<and> qe_fe c = Some (fst n))"

definition queue_rep :: "queue_state \<Rightarrow> mem \<Rightarrow> node list \<Rightarrow> node list \<Rightarrow> bool" where
  "queue_rep qs m nodes free \<longleftrightarrow>
     nodes \<noteq> [] \<and>
     distinct (map fst (nodes @ free)) \<and> distinct (map snd (nodes @ free)) \<and>
     (\<forall>n \<in> set (nodes @ free). owns_pair m n) \<and> (\<forall>n \<in> set nodes. back_pointer m n) \<and>
     path (qe_link m) (fst (q_dequeue qs)) (map snd nodes) NULL \<and>
     fst (q_enqueue qs) = Some (snd (last nodes)) \<and>
     freelist_rep (q_fs qs, m) (map fst free)"

definition node_data :: "mem \<Rightarrow> node \<Rightarrow> ptr" where
  "node_data m n = qe_user_data (the (qe_cells m (snd n)))"

definition contents :: "mem \<Rightarrow> node list \<Rightarrow> ptr list" where
  "contents m nodes = map (node_data m) (tl nodes)"

lemma qe_link_upd [simp]:
  "qe_link (m\<lparr>qe_cells := (qe_cells m)(a \<mapsto> c)\<rparr>) = (qe_link m)(a \<mapsto> fst (qe_next c))"
  by (auto simp: qe_link_def fun_eq_iff)

lemma qe_link_cong [simp]: "qe_link (m\<lparr>fe_cells := v\<rparr>) = qe_link m"
  by (simp add: qe_link_def fun_eq_iff)

lemma fe_link_cong [simp]: "fe_link (m\<lparr>qe_cells := v\<rparr>) = fe_link m"
  by (simp add: fe_link_def fun_eq_iff)

lemma qe_link_Some: "qe_link m a = Some p \<longleftrightarrow> (\<exists>c. qe_cells m a = Some c \<and> p = fst (qe_next c))"
  by (auto simp: qe_link_def)

section \<open>Enqueue\<close>

lemma init_element_eq:
  assumes "fe_cells m f = Some fc" "fe_user_data fc = Some q" "q \<in> dom (qe_cells m)"
  shows "queue_internal_init_element qs (Some f) x m =
    Some ((Some q, q_aba_counter qs + 1), qs\<lparr>q_aba_counter := q_aba_counter qs + 2\<rparr>,
      m\<lparr>qe_cells := (qe_cells m)(q \<mapsto>
        \<lparr>qe_next = (NULL, q_aba_counter qs + 2), qe_fe = Some f, qe_user_data = x\<rparr>)\<rparr>)"
  using assms
  by (auto simp: queue_internal_init_element_def freelist_get_user_data_from_element_def
      abstraction_increment_def Let_def add.assoc)

lemma new_element_eq:
  assumes "freelist_rep (q_fs qs, m) (f # fs)" "fe_cells m f = Some fc" "fe_user_data fc = Some q"
    "q \<in> dom (qe_cells m)"
  shows "queue_internal_new_element_from_freelist qs x m =
    Some ((Some q, q_aba_counter qs + 1),
      qs\<lparr>q_fs := (q_fs qs)\<lparr>fs_top := fe_next fc\<rparr>, q_aba_counter := q_aba_counter qs + 2\<rparr>,
      m\<lparr>qe_cells := (qe_cells m)(q \<mapsto>
        \<lparr>qe_next = (NULL, q_aba_counter qs + 2), qe_fe = Some f, qe_user_data = x\<rparr>)\<rparr>)"
proof -
  have "freelist_pop (q_fs qs) m = Some (Some f, (q_fs qs)\<lparr>fs_top := fe_next fc\<rparr>)"
    using assms(1,2) freelist_rep_cons freelist_pop_cons by (metis option.inject)
  then show ?thesis
    using init_element_eq [OF assms(2-4)]
    by (simp add: queue_internal_new_element_from_freelist_def)
qed

lemma queue_internal_queue_eq:
  assumes "fst (q_enqueue qs) = Some l" "qe_cells m l = Some lc" "fst (qe_next lc) = NULL"
  shows "queue_internal_queue qs (Some q, k) m =
    Some (qs\<lparr>q_enqueue := (Some q, snd (q_enqueue qs) + sizeof_queue_element)\<rparr>,
      m\<lparr>qe_cells := (qe_cells m)(l \<mapsto>
        lc\<lparr>qe_next := (Some q, snd (qe_next lc) + sizeof_queue_element)\<rparr>)\<rparr>)"
  using assms
  by (simp add: queue_internal_queue_def queue_internal_queue_loop.simps set_qe_next_def Let_def)

lemma queue_enqueue_full: "queue_rep qs m nodes [] \<Longrightarrow> queue_enqueue qs x m = Some (0, qs, m)"
  by (simp add: queue_enqueue_def queue_internal_new_element_from_freelist_def queue_rep_def
      freelist_rep_def freelist_pop_empty)

text \<open>One element moved from the free pairs to the end of the chain.\<close>

lemma queue_rep_last:
  assumes "queue_rep qs m nodes free"
  obtains lc where "fst (q_enqueue qs) = Some (snd (last nodes))"
    "qe_cells m (snd (last nodes)) = Some lc" "fst (qe_next lc) = NULL"
proof -
  from assms have "nodes \<noteq> []" "path (qe_link m) (fst (q_dequeue qs)) (map snd nodes) NULL"
    by (auto simp: queue_rep_def)
  then have "qe_link m (snd (last nodes)) = Some NULL"
    using path_last [of "qe_link m" _ "map snd (butlast nodes)" "snd (last nodes)"]
    by (metis append_butlast_last_id list.simps(8,9) map_append)
  then show thesis using that assms by (auto simp: qe_link_Some queue_rep_def)
qed

lemma owns_pairD:
  assumes "owns_pair m (f, q)"
  obtains fc where "fe_cells m f = Some fc" "fe_user_data fc = Some q" "q \<in> dom (qe_cells m)"
  using assms by (auto simp: owns_pair_def)

text \<open>The memory after linking \<open>(f, q)\<close> behind \<open>l\<close>.\<close>

definition linked :: "mem \<Rightarrow> node \<Rightarrow> addr \<Rightarrow> u64 \<Rightarrow> ptr \<Rightarrow> queue_element \<Rightarrow> mem" where
  "linked m n l k x lc = m\<lparr>qe_cells := (qe_cells m)
     (snd n \<mapsto> \<lparr>qe_next = (NULL, k), qe_fe = Some (fst n), qe_user_data = x\<rparr>,
      l \<mapsto> lc\<lparr>qe_next := (Some (snd n), snd (qe_next lc) + sizeof_queue_element)\<rparr>)\<rparr>"

lemma queue_enqueue_eq:
  assumes rep: "queue_rep qs m nodes ((f, q) # free)"
  obtains lc fc where "qe_cells m (snd (last nodes)) = Some lc" "fst (qe_next lc) = NULL"
    "fe_cells m f = Some fc"
    "queue_enqueue qs x m =
       Some (1, qs\<lparr>q_fs := (q_fs qs)\<lparr>fs_top := fe_next fc\<rparr>, q_aba_counter := q_aba_counter qs + 2,
                   q_enqueue := (Some q, snd (q_enqueue qs) + sizeof_queue_element)\<rparr>,
             linked m (f, q) (snd (last nodes)) (q_aba_counter qs + 2) x lc)"
proof -
  obtain lc where lc: "fst (q_enqueue qs) = Some (snd (last nodes))"
      "qe_cells m (snd (last nodes)) = Some lc" "fst (qe_next lc) = NULL"
    using queue_rep_last [OF rep] .
  from rep have "owns_pair m (f, q)" and fl: "freelist_rep (q_fs qs, m) (f # map fst free)"
    and ne: "snd (last nodes) \<noteq> q"
    by (auto simp: queue_rep_def)
  then obtain fc where fc: "fe_cells m f = Some fc" "fe_user_data fc = Some q" "q \<in> dom (qe_cells m)"
    using owns_pairD by blast
  have new: "queue_internal_new_element_from_freelist qs x m =
    Some ((Some q, q_aba_counter qs + 1),
      qs\<lparr>q_fs := (q_fs qs)\<lparr>fs_top := fe_next fc\<rparr>, q_aba_counter := q_aba_counter qs + 2\<rparr>,
      m\<lparr>qe_cells := (qe_cells m)(q \<mapsto>
        \<lparr>qe_next = (NULL, q_aba_counter qs + 2), qe_fe = Some f, qe_user_data = x\<rparr>)\<rparr>)"
    by (rule new_element_eq [OF fl fc])
  have "queue_enqueue qs x m =
       Some (1, qs\<lparr>q_fs := (q_fs qs)\<lparr>fs_top := fe_next fc\<rparr>, q_aba_counter := q_aba_counter qs + 2,
                   q_enqueue := (Some q, snd (q_enqueue qs) + sizeof_queue_element)\<rparr>,
             linked m (f, q) (snd (last nodes)) (q_aba_counter qs + 2) x lc)"
    using lc ne by (simp add: queue_enqueue_def new queue_internal_queue_eq linked_def)
  with lc(2,3) fc(1) show thesis by (rule that)
qed

lemma linked_simps [simp]:
  "fe_cells (linked m n l k x lc) = fe_cells m"
  "state_blocks (linked m n l k x lc) = state_blocks m"
  "brk (linked m n l k x lc) = brk m"
  "mem_ok (linked m n l k x lc) = mem_ok m"
  "fe_link (linked m n l k x lc) = fe_link m"
  by (simp_all add: linked_def)

text \<open>A pair that is in neither list is linked behind the last element.\<close>

lemma linked_rep_new:
  assumes rep: "queue_rep qs m nodes free" and pair: "owns_pair m (f, q)"
    and out: "f \<notin> fst ` set (nodes @ free)" "q \<notin> snd ` set (nodes @ free)"
    and lc: "qe_cells m (snd (last nodes)) = Some lc" "fst (qe_next lc) = NULL"
    and qs': "fst (q_dequeue qs') = fst (q_dequeue qs)" "fst (q_enqueue qs') = Some q"
      "fst (fs_top (q_fs qs')) = fst (fs_top (q_fs qs))"
  shows "queue_rep qs' (linked m (f, q) (snd (last nodes)) k x lc) (nodes @ [(f, q)]) free"
    and "contents (linked m (f, q) (snd (last nodes)) k x lc) (nodes @ [(f, q)]) = contents m nodes @ [x]"
proof -
  let ?m = "linked m (f, q) (snd (last nodes)) k x lc"
  let ?l = "snd (last nodes)"
  from rep pair have ne: "nodes \<noteq> []"
    and own: "\<forall>n \<in> set (nodes @ (f, q) # free). owns_pair m n"
    and bp: "\<forall>n \<in> set nodes. back_pointer m n"
    and chain: "path (qe_link m) (fst (q_dequeue qs)) (map snd nodes) NULL"
    and fl: "freelist_rep (q_fs qs, m) (map fst free)"
    by (auto simp: queue_rep_def)
  have q_out: "q \<notin> snd ` set nodes" using out(2) by auto
  have l_ne: "?l \<noteq> q" using q_out ne by (metis imageI last_in_set)
  have same: "qe_cells ?m p = qe_cells m p" if "p \<noteq> q" "p \<noteq> ?l" for p
    using that by (simp add: linked_def)
  have keep: "\<exists>c'. qe_cells ?m p = Some c' \<and> qe_fe c' = qe_fe c \<and> qe_user_data c' = qe_user_data c"
    if "p \<noteq> q" "qe_cells m p = Some c" for p c
    using that lc(1) by (auto simp: linked_def)
  have "owns_pair ?m n" if "owns_pair m n" for n
    using that by (auto simp: owns_pair_def linked_def)
  moreover have "back_pointer ?m n" if "n \<in> set nodes" for n
  proof -
    from that q_out have "snd n \<noteq> q" by auto
    with bp that keep show ?thesis by (fastforce simp: back_pointer_def)
  qed
  moreover have "back_pointer ?m (f, q)"
    using l_ne by (simp add: back_pointer_def linked_def)
  moreover have "path (qe_link ?m) (fst (q_dequeue qs')) (map snd (nodes @ [(f, q)])) NULL"
  proof -
    have "qe_link ?m = (qe_link m)(?l \<mapsto> Some q, q \<mapsto> NULL)"
      using l_ne by (auto simp: linked_def qe_link_def fun_eq_iff)
    moreover have "map snd nodes = map snd (butlast nodes) @ [?l]"
      using ne by (metis append_butlast_last_id list.simps(8,9) map_append)
    ultimately show ?thesis
      using path_snoc_upd [of "qe_link m" "fst (q_dequeue qs)" "map snd (butlast nodes)" ?l q]
        chain q_out qs'(1) by (auto simp flip: set_map)
  qed
  moreover have "freelist_rep (q_fs qs', ?m) (map fst free)"
    using fl qs'(3) by (simp add: freelist_rep_def)
  ultimately show "queue_rep qs' ?m (nodes @ [(f, q)]) free"
    using rep ne qs'(2) own out by (auto simp: queue_rep_def image_Un)
  have "node_data ?m n = node_data m n" if "n \<in> set nodes" for n
  proof -
    from that q_out have "snd n \<noteq> q" by auto
    moreover have "owns_pair m n" using own that by simp
    then obtain c where "qe_cells m (snd n) = Some c" by (auto simp: owns_pair_def)
    ultimately show ?thesis using keep by (fastforce simp: node_data_def)
  qed
  then show "contents ?m (nodes @ [(f, q)]) = contents m nodes @ [x]"
    using ne l_ne by (cases nodes) (auto simp: contents_def node_data_def linked_def)
qed

text \<open>In particular the pair that the freelist hands out.\<close>

lemma linked_rep:
  assumes rep: "queue_rep qs m nodes ((f, q) # free)"
    and lc: "qe_cells m (snd (last nodes)) = Some lc" "fst (qe_next lc) = NULL"
    and fc: "fe_cells m f = Some fc"
    and qs': "fst (q_dequeue qs') = fst (q_dequeue qs)" "fst (q_enqueue qs') = Some q"
      "fst (fs_top (q_fs qs')) = fst (fe_next fc)"
  shows "queue_rep qs' (linked m (f, q) (snd (last nodes)) k x lc) (nodes @ [(f, q)]) free"
    and "contents (linked m (f, q) (snd (last nodes)) k x lc) (nodes @ [(f, q)]) = contents m nodes @ [x]"
proof -
  let ?qs = "qs\<lparr>q_fs := (q_fs qs)\<lparr>fs_top := fe_next fc\<rparr>\<rparr>"
  have rep1: "queue_rep ?qs m nodes free"
    using rep fc by (auto simp: queue_rep_def freelist_rep_def fe_link_Some split: option.splits)
  have pair: "owns_pair m (f, q)" using rep by (simp add: queue_rep_def)
  have out: "f \<notin> fst ` set (nodes @ free)" "q \<notin> snd ` set (nodes @ free)"
    using rep by (auto simp: queue_rep_def)
  note l = linked_rep_new [OF rep1 pair out lc, of qs' k x]
  show "queue_rep qs' (linked m (f, q) (snd (last nodes)) k x lc) (nodes @ [(f, q)]) free"
    "contents (linked m (f, q) (snd (last nodes)) k x lc) (nodes @ [(f, q)]) = contents m nodes @ [x]"
    using l qs' by simp_all
qed

section \<open>Dequeue\<close>

lemma queue_dequeue_empty:
  assumes "queue_rep qs m [n] free"
  shows "queue_dequeue qs m = Some (0, NULL, qs, m)"
proof -
  from assms obtain c where "fst (q_dequeue qs) = Some (snd n)" "qe_cells m (snd n) = Some c"
      "fst (qe_next c) = NULL" "fst (q_enqueue qs) = Some (snd n)"
    by (auto simp: queue_rep_def qe_link_Some split: option.splits)
  then show ?thesis
    by (simp add: queue_dequeue_def queue_dequeue_loop.simps classify_def Let_def)
qed

text \<open>The state and the memory after the dummy \<open>n\<close> has gone back to the freelist.\<close>

definition recycled :: "mem \<Rightarrow> addr \<Rightarrow> pac \<Rightarrow> mem" where
  "recycled m f v = m\<lparr>fe_cells := (fe_cells m)(f \<mapsto> (the (fe_cells m f))\<lparr>fe_next := v\<rparr>)\<rparr>"

lemma recycled_simps [simp]:
  "qe_cells (recycled m f v) = qe_cells m"
  "state_blocks (recycled m f v) = state_blocks m"
  "brk (recycled m f v) = brk m"
  "mem_ok (recycled m f v) = mem_ok m"
  "qe_link (recycled m f v) = qe_link m"
  "node_data (recycled m f v) = node_data m"
  "contents (recycled m f v) ns = contents m ns"
  by (simp_all add: recycled_def node_data_def contents_def fun_eq_iff)

lemma queue_dequeue_eq:
  assumes rep: "queue_rep qs m (n0 # n1 # ns) free"
  shows "queue_dequeue qs m = Some (1, node_data m n1,
      qs\<lparr>q_dequeue := (Some (snd n1), snd (q_dequeue qs) + sizeof_queue_element),
         q_fs := (q_fs qs)\<lparr>fs_aba_counter := fs_aba_counter (q_fs qs) + 1,
                         fs_top := (Some (fst n0), fs_aba_counter (q_fs qs) + 1)\<rparr>\<rparr>,
      recycled m (fst n0) (fs_top (q_fs qs)))"
proof -
  obtain c0 where c0: "fst (q_dequeue qs) = Some (snd n0)" "qe_cells m (snd n0) = Some c0"
      "fst (qe_next c0) = Some (snd n1)" "qe_fe c0 = Some (fst n0)"
    using rep by (auto simp: queue_rep_def qe_link_Some back_pointer_def split: option.splits)
  obtain c1 fc where c1: "qe_cells m (snd n1) = Some c1" "fe_cells m (fst n0) = Some fc"
    using rep by (auto simp: queue_rep_def owns_pair_def)
  have "snd n0 \<notin> snd ` set (n1 # ns)" using rep by (auto simp: queue_rep_def)
  moreover have "last (n0 # n1 # ns) \<in> set (n1 # ns)" by simp
  ultimately have "snd (last (n0 # n1 # ns)) \<noteq> snd n0" by (metis imageI)
  then have "fst (q_enqueue qs) \<noteq> fst (q_dequeue qs)"
    using rep c0(1) by (auto simp: queue_rep_def)
  with c0 c1 show ?thesis
    by (simp add: queue_dequeue_def queue_dequeue_loop.simps classify_def Let_def
        freelist_push_eq recycled_def node_data_def)
qed

lemma recycled_rep:
  assumes rep: "queue_rep qs m (n0 # n1 # ns) free"
    and qs': "fst (q_dequeue qs') = Some (snd n1)" "fst (q_enqueue qs') = fst (q_enqueue qs)"
      "fst (fs_top (q_fs qs')) = Some (fst n0)"
  shows "queue_rep qs' (recycled m (fst n0) (fs_top (q_fs qs))) (n1 # ns) (n0 # free)"
proof -
  let ?m = "recycled m (fst n0) (fs_top (q_fs qs))"
  obtain fc where fc: "fe_cells m (fst n0) = Some fc"
    using rep by (auto simp: queue_rep_def owns_pair_def)
  have "owns_pair ?m n" if "owns_pair m n" for n
    using that fc by (auto simp: owns_pair_def recycled_def)
  moreover have "back_pointer ?m n = back_pointer m n" for n
    by (simp add: back_pointer_def)
  moreover have "freelist_rep (q_fs qs', ?m) (map fst (n0 # free))"
    using rep qs'(3) fc by (auto simp: queue_rep_def freelist_rep_def recycled_def)
  moreover have "path (qe_link m) (Some (snd n1)) (map snd (n1 # ns)) NULL"
    using rep by (auto simp: queue_rep_def split: option.splits)
  ultimately show ?thesis
    using rep qs'(1,2) by (auto simp: queue_rep_def)
qed

section \<open>The interface of a bounded FIFO\<close>

text \<open>
  What the client of the event queue relies on: a state that represents a list of at most
  \<open>n\<close> pointers, an insertion that refuses exactly when the list is full, a removal that
  reports emptiness and otherwise returns the oldest element, and a frame neither changes.
\<close>

locale bounded_fifo =
  fixes rep :: "'s \<Rightarrow> nat \<Rightarrow> ptr list \<Rightarrow> bool"
    and frame :: "'s \<Rightarrow> 'v"
    and enq :: "'s \<Rightarrow> ptr \<Rightarrow> (int \<times> 's) option"
    and deq :: "'s \<Rightarrow> (int \<times> ptr \<times> 's) option"
  assumes enq_room: "rep s n xs \<Longrightarrow> length xs < n \<Longrightarrow>
      \<exists>s'. enq s x = Some (1, s') \<and> rep s' n (xs @ [x]) \<and> frame s' = frame s"
    and enq_full: "rep s n xs \<Longrightarrow> length xs = n \<Longrightarrow> enq s x = Some (0, s)"
    and deq_empty: "rep s n [] \<Longrightarrow> deq s = Some (0, NULL, s)"
    and deq_first: "rep s n (x # xs) \<Longrightarrow>
      \<exists>s'. deq s = Some (1, x, s') \<and> rep s' n xs \<and> frame s' = frame s"
    and rep_bound: "rep s n xs \<Longrightarrow> length xs \<le> n"

datatype fifo_op = Enq ptr | Deq

text \<open>One operation: the return code and, for a removal, the element.\<close>

fun run_fifo ::
  "('s \<Rightarrow> ptr \<Rightarrow> (int \<times> 's) option) \<Rightarrow> ('s \<Rightarrow> (int \<times> ptr \<times> 's) option) \<Rightarrow>
     fifo_op list \<Rightarrow> 's \<Rightarrow> ((int \<times> ptr) list \<times> 's) option" where
  "run_fifo enq deq [] s = Some ([], s)"
| "run_fifo enq deq (Enq x # ops) s = do {
     (rc, s) \<leftarrow> enq s x;
     (outs, s) \<leftarrow> run_fifo enq deq ops s;
     Some ((rc, NULL) # outs, s)
   }"
| "run_fifo enq deq (Deq # ops) s = do {
     (rc, x, s) \<leftarrow> deq s;
     (outs, s) \<leftarrow> run_fifo enq deq ops s;
     Some ((rc, x) # outs, s)
   }"

text \<open>The specification: a list of bounded length.\<close>

fun run_list :: "nat \<Rightarrow> fifo_op list \<Rightarrow> ptr list \<Rightarrow> (int \<times> ptr) list \<times> ptr list" where
  "run_list n [] xs = ([], xs)"
| "run_list n (Enq x # ops) xs =
     (if length xs < n
      then let (outs, ys) = run_list n ops (xs @ [x]) in ((1, NULL) # outs, ys)
      else let (outs, ys) = run_list n ops xs in ((0, NULL) # outs, ys))"
| "run_list n (Deq # ops) [] = (let (outs, ys) = run_list n ops [] in ((0, NULL) # outs, ys))"
| "run_list n (Deq # ops) (x # xs) = (let (outs, ys) = run_list n ops xs in ((1, x) # outs, ys))"

context bounded_fifo
begin

lemma run_refines:
  "rep s n xs \<Longrightarrow>
     \<exists>s'. run_fifo enq deq ops s = Some (fst (run_list n ops xs), s') \<and>
          rep s' n (snd (run_list n ops xs)) \<and> frame s' = frame s"
proof (induction ops arbitrary: s xs)
  case Nil
  then show ?case by simp
next
  case (Cons opn ops)
  show ?case
  proof (cases opn)
    case (Enq x)
    show ?thesis
    proof (cases "length xs < n")
      case True
      obtain s1 where s1: "enq s x = Some (1, s1)" "rep s1 n (xs @ [x])" "frame s1 = frame s"
        using enq_room [OF Cons.prems True] by blast
      from Cons.IH [OF s1(2)] s1 Enq True show ?thesis by (auto simp: split_beta)
    next
      case False
      with rep_bound [OF Cons.prems] have "enq s x = Some (0, s)"
        using enq_full [OF Cons.prems] by simp
      with Cons.IH [OF Cons.prems] Enq False show ?thesis by (auto simp: split_beta)
    qed
  next
    case Deq
    show ?thesis
    proof (cases xs)
      case Nil
      with Cons.IH [OF Cons.prems] deq_empty Cons.prems Deq show ?thesis
        by (auto simp: split_beta)
    next
      case (Cons y ys)
      with Cons.prems obtain s1 where s1: "deq s = Some (1, y, s1)" "rep s1 n ys" "frame s1 = frame s"
        using deq_first by blast
      from Cons.IH [OF s1(2)] s1 Deq Cons show ?thesis by (auto simp: split_beta)
    qed
  qed
qed

lemma enq_deq_empty:
  assumes "rep s n []" "0 < n"
  shows "\<exists>s1 s2. enq s x = Some (1, s1) \<and> deq s1 = Some (1, x, s2) \<and> rep s2 n [] \<and> frame s2 = frame s"
  using enq_room [OF assms(1), of x] deq_first [of _ n x "[]"] assms(2) by fastforce

lemma deq_total: "rep s n xs \<Longrightarrow> \<exists>rc x s'. deq s = Some (rc, x, s') \<and> (rc = 0 \<longleftrightarrow> xs = [])"
  by (cases xs) (use deq_empty deq_first in force)+

end

section \<open>The lock-free queue is a bounded FIFO\<close>

text \<open>
  The capacity counts the pairs the queue owns less the dummy; \<open>A\<close> and \<open>B\<close> are the
  addresses of the two halves of all the pairs. The frame: which cells and blocks exist, and
  what the two state structures keep for good.
\<close>

definition fifo_rep ::
  "addr set \<Rightarrow> addr set \<Rightarrow> queue_state \<times> mem \<Rightarrow> nat \<Rightarrow> ptr list \<Rightarrow> bool" where
  "fifo_rep A B s n xs = (case s of (qs, m) \<Rightarrow>
     \<exists>nodes free. queue_rep qs m nodes free \<and> contents m nodes = xs \<and>
       Suc n = length nodes + length free \<and>
       fst ` set (nodes @ free) = A \<and> snd ` set (nodes @ free) = B)"

definition fifo_enq :: "queue_state \<times> mem \<Rightarrow> ptr \<Rightarrow> (int \<times> (queue_state \<times> mem)) option" where
  "fifo_enq s x = (case s of (qs, m) \<Rightarrow> do { (rc, qs, m) \<leftarrow> queue_enqueue qs x m; Some (rc, (qs, m)) })"

definition fifo_deq :: "queue_state \<times> mem \<Rightarrow> (int \<times> ptr \<times> (queue_state \<times> mem)) option" where
  "fifo_deq s = (case s of (qs, m) \<Rightarrow> do { (rc, x, qs, m) \<leftarrow> queue_dequeue qs m; Some (rc, x, (qs, m)) })"

definition fifo_frame ::
  "queue_state \<times> mem \<Rightarrow> (addr set \<times> addr set \<times> addr set \<times> addr \<times> (nat \<Rightarrow> bool)) \<times>
     (addr \<times> addr \<times> u64 \<times> init_fn option \<times> ptr)"
where
  "fifo_frame s = (case s of (qs, m) \<Rightarrow>
     ((dom (fe_cells m), dom (qe_cells m), state_blocks m, brk m, mem_ok m),
      (q_addr qs, fs_addr (q_fs qs), fs_element_count (q_fs qs), fs_init (q_fs qs),
       fs_user_state (q_fs qs))))"

lemma length_contents: "nodes \<noteq> [] \<Longrightarrow> length nodes = Suc (length (contents m nodes))"
  by (cases nodes) (simp_all add: contents_def)

lemma fifo_repE:
  assumes "fifo_rep A B (qs, m) n xs"
  obtains nodes free where "queue_rep qs m nodes free" "contents m nodes = xs"
    "length nodes = Suc (length xs)" "n = length xs + length free"
    "fst ` set (nodes @ free) = A" "snd ` set (nodes @ free) = B"
proof -
  from assms obtain nodes free where r: "queue_rep qs m nodes free" "contents m nodes = xs"
      "Suc n = length nodes + length free" "fst ` set (nodes @ free) = A" "snd ` set (nodes @ free) = B"
    unfolding fifo_rep_def prod.case by blast
  moreover from r(1) have "nodes \<noteq> []" unfolding queue_rep_def by blast
  from length_contents [OF this, of m] r(2) have "length nodes = Suc (length xs)" by simp
  ultimately show thesis using that by simp
qed

lemma fifo_repI:
  assumes "queue_rep qs m nodes free" "contents m nodes = xs" "n = length xs + length free"
    "fst ` set (nodes @ free) = A" "snd ` set (nodes @ free) = B"
  shows "fifo_rep A B (qs, m) n xs"
proof -
  have "length nodes = Suc (length xs)"
    using assms(1,2) length_contents by (auto simp: queue_rep_def)
  with assms show ?thesis unfolding fifo_rep_def prod.case
    by (intro exI [of _ nodes] exI [of _ free] conjI) simp_all
qed

lemma fifo_enq_room:
  assumes "fifo_rep A B s n xs" "length xs < n"
  shows "\<exists>s'. fifo_enq s x = Some (1, s') \<and> fifo_rep A B s' n (xs @ [x]) \<and> fifo_frame s' = fifo_frame s"
proof -
  obtain qs m where s: "s = (qs, m)" by (cases s)
  obtain nodes free where r: "queue_rep qs m nodes free" "contents m nodes = xs"
      "length nodes = Suc (length xs)" "n = length xs + length free"
      "fst ` set (nodes @ free) = A" "snd ` set (nodes @ free) = B"
    using assms(1) s fifo_repE by blast
  then obtain f q free' where free: "free = (f, q) # free'"
    using assms(2) by (cases free) auto
  obtain lc fc where e: "qe_cells m (snd (last nodes)) = Some lc" "fst (qe_next lc) = NULL"
    "fe_cells m f = Some fc"
    "queue_enqueue qs x m =
       Some (1, qs\<lparr>q_fs := (q_fs qs)\<lparr>fs_top := fe_next fc\<rparr>, q_aba_counter := q_aba_counter qs + 2,
                   q_enqueue := (Some q, snd (q_enqueue qs) + sizeof_queue_element)\<rparr>,
             linked m (f, q) (snd (last nodes)) (q_aba_counter qs + 2) x lc)"
    using queue_enqueue_eq r(1) free by metis
  note l = linked_rep [OF r(1) [unfolded free] e(1-3)]
  have "q \<in> dom (qe_cells m)" using r(1) free by (auto simp: queue_rep_def owns_pair_def)
  then have "dom (qe_cells (linked m (f, q) (snd (last nodes)) (q_aba_counter qs + 2) x lc)) = dom (qe_cells m)"
    using e(1) by (auto simp: linked_def)
  then have frame: "fifo_frame (qs', linked m (f, q) (snd (last nodes)) (q_aba_counter qs + 2) x lc) =
      fifo_frame s" if "q_addr qs' = q_addr qs" "fs_addr (q_fs qs') = fs_addr (q_fs qs)"
      "fs_element_count (q_fs qs') = fs_element_count (q_fs qs)" "fs_init (q_fs qs') = fs_init (q_fs qs)"
      "fs_user_state (q_fs qs') = fs_user_state (q_fs qs)" for qs'
    using that s by (simp add: fifo_frame_def)
  have rep': "fifo_rep A B (qs', linked m (f, q) (snd (last nodes)) (q_aba_counter qs + 2) x lc) n (xs @ [x])"
    if "fst (q_dequeue qs') = fst (q_dequeue qs)" "fst (q_enqueue qs') = Some q"
      "fst (fs_top (q_fs qs')) = fst (fe_next fc)" for qs'
    by (rule fifo_repI [OF l(1) [OF that]]) (use l(2) [OF that] r free in auto)
  show ?thesis
    unfolding fifo_enq_def s prod.case e(4)
    by (intro exI conjI) (simp, rule rep', simp_all add: frame [unfolded s])
qed

lemma fifo_deq_first:
  assumes "fifo_rep A B s n (x # xs)"
  shows "\<exists>s'. fifo_deq s = Some (1, x, s') \<and> fifo_rep A B s' n xs \<and> fifo_frame s' = fifo_frame s"
proof -
  obtain qs m where s: "s = (qs, m)" by (cases s)
  obtain nodes free where r: "queue_rep qs m nodes free" "contents m nodes = x # xs"
      "length nodes = Suc (length (x # xs))" "n = length (x # xs) + length free"
      "fst ` set (nodes @ free) = A" "snd ` set (nodes @ free) = B"
    using assms s fifo_repE by blast
  then obtain n0 n1 ns where nodes: "nodes = n0 # n1 # ns" "node_data m n1 = x"
    "map (node_data m) ns = xs"
    by (auto simp: contents_def length_Suc_conv)
  note d = queue_dequeue_eq [OF r(1) [unfolded nodes(1)]] and r' = recycled_rep [OF r(1) [unfolded nodes(1)]]
  have "fst n0 \<in> dom (fe_cells m)" using r(1) nodes(1) by (auto simp: queue_rep_def owns_pair_def)
  then have "dom (fe_cells (recycled m (fst n0) (fs_top (q_fs qs)))) = dom (fe_cells m)"
    by (auto simp: recycled_def)
  then have frame: "fifo_frame (qs', recycled m (fst n0) (fs_top (q_fs qs))) = fifo_frame s"
    if "q_addr qs' = q_addr qs" "fs_addr (q_fs qs') = fs_addr (q_fs qs)"
      "fs_element_count (q_fs qs') = fs_element_count (q_fs qs)" "fs_init (q_fs qs') = fs_init (q_fs qs)"
      "fs_user_state (q_fs qs') = fs_user_state (q_fs qs)" for qs'
    using that s by (simp add: fifo_frame_def)
  have rep': "fifo_rep A B (qs', recycled m (fst n0) (fs_top (q_fs qs))) n xs"
    if "fst (q_dequeue qs') = Some (snd n1)" "fst (q_enqueue qs') = fst (q_enqueue qs)"
      "fst (fs_top (q_fs qs')) = Some (fst n0)" for qs'
    by (rule fifo_repI [OF r' [OF that]]) (use nodes r(3-6) in \<open>auto simp: contents_def\<close>)
  show ?thesis
    unfolding fifo_deq_def s prod.case d
    by (intro exI conjI) (simp add: nodes(2), rule rep', simp_all add: frame [unfolded s])
qed

interpretation lq: bounded_fifo "fifo_rep A B" fifo_frame fifo_enq fifo_deq for A B
proof unfold_locales
  fix A B and s :: "queue_state \<times> mem" and n x xs
  show "fifo_rep A B s n xs \<Longrightarrow> length xs < n \<Longrightarrow>
      \<exists>s'. fifo_enq s x = Some (1, s') \<and> fifo_rep A B s' n (xs @ [x]) \<and> fifo_frame s' = fifo_frame s"
    by (rule fifo_enq_room)
  show "fifo_rep A B s n (x # xs) \<Longrightarrow>
      \<exists>s'. fifo_deq s = Some (1, x, s') \<and> fifo_rep A B s' n xs \<and> fifo_frame s' = fifo_frame s"
    by (rule fifo_deq_first)
  show "fifo_rep A B s n xs \<Longrightarrow> length xs = n \<Longrightarrow> fifo_enq s x = Some (0, s)"
    by (cases s) (auto simp: fifo_enq_def queue_enqueue_full elim!: fifo_repE)
  show "fifo_rep A B s n [] \<Longrightarrow> fifo_deq s = Some (0, NULL, s)"
    by (cases s) (auto simp: fifo_deq_def queue_dequeue_empty length_Suc_conv elim!: fifo_repE)
  show "fifo_rep A B s n xs \<Longrightarrow> length xs \<le> n"
    by (cases s) (auto elim!: fifo_repE)
qed

end
