(* ===== verification/Queue_Life.thy ===== *)
theory Queue_Life
  imports Queue_Correct
begin

text \<open>
  The life of a queue: \<open>queue_new\<close> builds an empty FIFO of the requested capacity out of
  fresh blocks, and
  \<open>queue_delete\<close> gives every block back.
\<close>

section \<open>Construction\<close>

definition always_ok :: "mem \<Rightarrow> bool" where
  "always_ok m \<longleftrightarrow> (\<forall>j. mem_ok m j)"

lemma mem_ok_upds [simp]:
  "mem_ok (install k a m) = mem_ok m" "mem_ok (forget_links m) = mem_ok m"
  by (cases k) (simp_all add: forget_links_def)

text \<open>The memory after one element and its queue element have been allocated.\<close>

definition grown :: "mem \<Rightarrow> mem" where
  "grown m = m\<lparr>
     fe_cells := (fe_cells m)(brk m \<mapsto> (junk_fe m (brk m))\<lparr>fe_user_data := Some (Suc (brk m))\<rparr>),
     qe_cells := (qe_cells m)(Suc (brk m) \<mapsto> junk_qe m (Suc (brk m))),
     calls := calls m + 2, brk := brk m + 2\<rparr>"

lemma new_element_grown:
  assumes "always_ok m" "fs_init fs = Some queue_internal_freelist_init_function"
    "fs_user_state fs = NULL"
  shows "freelist_internal_new_element fs m =
    Some (1, Some (brk m), fs\<lparr>fs_element_count := fs_element_count fs + 1\<rparr>, grown m)"
  using assms
  by (simp add: freelist_internal_new_element_def malloc_ok always_ok_def
      freelist_get_user_data_from_element_def freelist_set_user_data_in_element_def
      queue_internal_freelist_init_function_def abstraction_increment_def Let_def grown_def)

text \<open>The invariant of the allocation loop, over the memory \<open>m0\<close> it started from.\<close>

definition pairs_inv :: "mem \<Rightarrow> freelist_state \<Rightarrow> mem \<Rightarrow> node list \<Rightarrow> bool" where
  "pairs_inv m0 fs m ps \<longleftrightarrow>
     freelist_rep (fs, m) (map fst ps) \<and> distinct (map fst ps) \<and> distinct (map snd ps) \<and>
     (\<forall>n \<in> set ps. owns_pair m n) \<and> fs_element_count fs = of_nat (length ps) \<and>
     fs_init fs = Some queue_internal_freelist_init_function \<and> fs_user_state fs = NULL \<and>
     dom (fe_cells m) = dom (fe_cells m0) \<union> fst ` set ps \<and>
     dom (qe_cells m) = dom (qe_cells m0) \<union> snd ` set ps \<and>
     (\<forall>n \<in> set ps. brk m0 \<le> fst n \<and> fst n < brk m \<and> brk m0 \<le> snd n \<and> snd n < brk m) \<and>
     brk m0 \<le> brk m \<and> state_blocks m = state_blocks m0 \<and> mem_wf m \<and> always_ok m"

lemma mem_wf_grown: "mem_wf m \<Longrightarrow> mem_wf (grown m)"
  using mem_wf_brk [of m]
  by (auto simp: mem_wf_def grown_def less_Suc_eq)

lemma owns_pair_push:
  "owns_pair m n \<Longrightarrow> fe_cells m a = Some c \<Longrightarrow>
     owns_pair (m\<lparr>fe_cells := (fe_cells m)(a \<mapsto> c\<lparr>fe_next := v\<rparr>)\<rparr>) n"
  by (auto simp: owns_pair_def)

text \<open>The new pair, and the memory after it has been pushed.\<close>

definition pushed :: "mem \<Rightarrow> pac \<Rightarrow> mem" where
  "pushed m v = (grown m)\<lparr>fe_cells := (fe_cells (grown m))(brk m \<mapsto>
     (junk_fe m (brk m))\<lparr>fe_user_data := Some (Suc (brk m)), fe_next := v\<rparr>)\<rparr>"

lemma pushed_simps [simp]:
  "fe_cells (pushed m v) = (fe_cells m)(brk m \<mapsto>
     (junk_fe m (brk m))\<lparr>fe_user_data := Some (Suc (brk m)), fe_next := v\<rparr>)"
  "qe_cells (pushed m v) = (qe_cells m)(Suc (brk m) \<mapsto> junk_qe m (Suc (brk m)))"
  "state_blocks (pushed m v) = state_blocks m" "brk (pushed m v) = brk m + 2"
  "mem_ok (pushed m v) = mem_ok m"
  by (simp_all add: pushed_def grown_def)

lemma fe_link_pushed: "fe_link (pushed m v) = (fe_link m)(brk m \<mapsto> fst v)"
  by (simp add: fe_link_def fun_eq_iff)

lemma pairs_inv_step:
  assumes inv: "pairs_inv m0 fs m ps"
  shows "\<exists>fs1 fs2. freelist_internal_new_element fs m = Some (1, Some (brk m), fs1, grown m) \<and>
    freelist_push fs1 (Some (brk m)) (grown m) = Some (fs2, pushed m (fs_top fs)) \<and>
    fs_addr fs2 = fs_addr fs \<and>
    pairs_inv m0 fs2 (pushed m (fs_top fs)) ((brk m, Suc (brk m)) # ps)"
proof -
  let ?fs1 = "fs\<lparr>fs_element_count := fs_element_count fs + 1\<rparr>"
  let ?fs2 = "?fs1\<lparr>fs_aba_counter := fs_aba_counter fs + 1,
                  fs_top := (Some (brk m), fs_aba_counter fs + 1)\<rparr>"
  let ?m = "pushed m (fs_top fs)"
  have new: "freelist_internal_new_element fs m = Some (1, Some (brk m), ?fs1, grown m)"
    using inv by (intro new_element_grown) (simp_all add: pairs_inv_def)
  have push: "freelist_push ?fs1 (Some (brk m)) (grown m) = Some (?fs2, ?m)"
    by (subst freelist_push_eq [of _ _ "(junk_fe m (brk m))\<lparr>fe_user_data := Some (Suc (brk m))\<rparr>"])
      (simp_all add: grown_def pushed_def)
  have wf: "mem_wf m" using inv by (simp add: pairs_inv_def)
  note fresh = mem_wf_brk [OF wf]
  have out: "brk m \<notin> fst ` set ps" "Suc (brk m) \<notin> snd ` set ps"
    using inv by (force simp: pairs_inv_def)+
  have rep: "freelist_rep (?fs2, ?m) (map fst ((brk m, Suc (brk m)) # ps))"
    using inv out(1) by (simp add: pairs_inv_def freelist_rep_def fe_link_pushed image_image)
  have own: "owns_pair ?m n" if "n \<in> set ((brk m, Suc (brk m)) # ps)" for n
  proof (cases "n = (brk m, Suc (brk m))")
    case True
    then show ?thesis by (simp add: owns_pair_def)
  next
    case False
    with that have n: "n \<in> set ps" by simp
    then have "fst n \<noteq> brk m" using out(1) by (metis imageI)
    moreover have "owns_pair m n" using inv n by (simp add: pairs_inv_def)
    ultimately show ?thesis by (auto simp: owns_pair_def)
  qed
  have wf': "mem_wf ?m"
    using mem_wf_links [OF mem_wf_grown [OF wf], of "brk m"] by (simp add: pushed_def grown_def)
  have "pairs_inv m0 ?fs2 ?m ((brk m, Suc (brk m)) # ps)"
    unfolding pairs_inv_def
  proof (intro conjI)
    show "\<forall>n \<in> set ((brk m, Suc (brk m)) # ps).
        brk m0 \<le> fst n \<and> fst n < brk ?m \<and> brk m0 \<le> snd n \<and> snd n < brk ?m"
      using inv by (auto simp: pairs_inv_def intro: less_SucI)
    show "\<forall>n \<in> set ((brk m, Suc (brk m)) # ps). owns_pair ?m n" using own by blast
  qed (use inv rep wf' out in \<open>auto simp: pairs_inv_def always_ok_def add.commute\<close>)
  with new push show ?thesis by auto
qed

lemma new_elements_pairs:
  assumes "pairs_inv m0 fs m []"
  shows "\<exists>fs' m' ps. freelist_new_elements fs n m = Some (n, fs', m') \<and>
    pairs_inv m0 fs' m' ps \<and> length ps = unat n \<and> fs_addr fs' = fs_addr fs"
proof -
  let ?I = "\<lambda>fs' m i k. k = i \<and> (\<exists>ps. pairs_inv m0 fs' m ps \<and> length ps = i) \<and> fs_addr fs' = fs_addr fs"
  have "\<exists>k fs' m'. freelist_new_elements fs n m = Some (of_nat k, fs', m') \<and> ?I fs' m' (unat n) k"
  proof (rule freelist_new_elements_rule)
    show "?I fs m 0 0" using assms by auto
    fix fs' m i k
    assume "?I fs' m i k"
    then obtain ps where ps: "pairs_inv m0 fs' m ps" "length ps = i" "k = i" "fs_addr fs' = fs_addr fs"
      by blast
    from pairs_inv_step [OF ps(1)] ps(2-4)
    show "\<exists>rv fe fs1 m1. freelist_internal_new_element fs' m = Some (rv, fe, fs1, m1) \<and>
        (if rv \<noteq> 0 then \<exists>fs2 m2. freelist_push fs1 fe m1 = Some (fs2, m2) \<and> ?I fs2 m2 (Suc i) (Suc k)
         else ?I fs1 m1 (Suc i) k)"
      by (metis length_Cons zero_neq_one)
  qed
  then show ?thesis by auto
qed

text \<open>The two state blocks come first, then the pairs.\<close>

definition started :: "mem \<Rightarrow> mem" where
  "started m = m\<lparr>state_blocks := {brk m, Suc (brk m)} \<union> state_blocks m,
     calls := calls m + 2, brk := brk m + 2\<rparr>"

lemma started_simps [simp]:
  "fe_cells (started m) = fe_cells m" "qe_cells (started m) = qe_cells m"
  "brk (started m) = Suc (Suc (brk m))"
  "state_blocks (started m) = {brk m, Suc (brk m)} \<union> state_blocks m"
  "always_ok (started m) = always_ok m"
  by (simp_all add: started_def always_ok_def)

lemma mem_wf_started: "mem_wf m \<Longrightarrow> mem_wf (started m)"
  using mem_wf_live [of m "brk m"] mem_wf_live [of m "Suc (brk m)"]
  by (fastforce simp: mem_wf_def live_def dom_def)

definition fresh_freelist :: "addr \<Rightarrow> freelist_state" where
  "fresh_freelist a = \<lparr>fs_top = (NULL, 0), fs_init = Some queue_internal_freelist_init_function,
     fs_user_state = NULL, fs_aba_counter = 0, fs_element_count = 0, fs_addr = a\<rparr>"

lemma pairs_inv_fresh:
  "mem_wf m \<Longrightarrow> always_ok m \<Longrightarrow> pairs_inv m (fresh_freelist a) m []"
  by (simp add: pairs_inv_def fresh_freelist_def freelist_rep_def)

lemma freelist_new_pairs:
  assumes "always_ok m" "mem_wf (started m)"
    and "m1 = install Queue_state (brk m) (m\<lparr>calls := Suc (calls m), brk := Suc (brk m)\<rparr>)"
  shows "\<exists>fs m' ps. freelist_new n (Some queue_internal_freelist_init_function) NULL m1 =
      Some (1, Some fs, m') \<and> pairs_inv (started m) fs m' ps \<and> length ps = unat n \<and>
      fs_addr fs = Suc (brk m)"
proof -
  have mal: "abstraction_aligned_malloc Freelist_state m1 = (Some (Suc (brk m)), started m)"
    using assms(1,3) by (simp add: malloc_ok always_ok_def started_def insert_commute)
  obtain fs' m' ps where "freelist_new_elements (fresh_freelist (Suc (brk m))) n (started m) = Some (n, fs', m')"
    "pairs_inv (started m) fs' m' ps" "length ps = unat n" "fs_addr fs' = Suc (brk m)"
    using new_elements_pairs [OF pairs_inv_fresh, of "started m" "Suc (brk m)" n] assms(1,2)
    by (auto simp: fresh_freelist_def)
  then show ?thesis
    by (auto simp: freelist_new_def mal fresh_freelist_def [symmetric])
qed

text \<open>
  The state of a complete queue: the representation, the count the validator trusts, and the
  two live state blocks.
\<close>

definition queue_state_ok :: "addr set \<Rightarrow> addr set \<Rightarrow> queue_state \<times> mem \<Rightarrow> nat \<Rightarrow> bool" where
  "queue_state_ok A B s n = (case s of (qs, m) \<Rightarrow>
     fs_element_count (q_fs qs) = of_nat n + 1 \<and>
     fs_init (q_fs qs) = Some queue_internal_freelist_init_function \<and>
     fs_user_state (q_fs qs) = NULL \<and> q_addr qs \<noteq> fs_addr (q_fs qs) \<and> {q_addr qs, fs_addr (q_fs qs)} \<subseteq> state_blocks m \<and>
     A \<subseteq> dom (fe_cells m) \<and> B \<subseteq> dom (qe_cells m) \<and> mem_wf m)"

lemma mem_wf_frame:
  "dom (fe_cells m') = dom (fe_cells m) \<Longrightarrow> dom (qe_cells m') = dom (qe_cells m) \<Longrightarrow>
     state_blocks m' = state_blocks m \<Longrightarrow> brk m' = brk m \<Longrightarrow> mem_wf m' = mem_wf m"
  by (simp add: mem_wf_dom)

lemma queue_state_ok_frame:
  assumes "fifo_frame s' = fifo_frame s" "queue_state_ok A B s n"
  shows "queue_state_ok A B s' n"
proof -
  obtain qs m qs' m' where s: "s = (qs, m)" "s' = (qs', m')" by (cases s, cases s')
  with assms(1) have "mem_wf m' = mem_wf m"
    by (intro mem_wf_frame) (simp_all add: fifo_frame_def)
  with assms s show ?thesis by (simp add: fifo_frame_def queue_state_ok_def)
qed

lemma first_dummy:
  assumes inv: "pairs_inv m0 (q_fs qs) m ((f, q) # ps)"
  obtains fs' m' k where
    "queue_internal_new_element_from_freelist qs NULL m =
       Some ((Some q, q_aba_counter qs + 1), qs\<lparr>q_fs := fs', q_aba_counter := k\<rparr>, m')"
    "dom (fe_cells m') = dom (fe_cells m)" "dom (qe_cells m') = dom (qe_cells m)"
    "state_blocks m' = state_blocks m" "brk m' = brk m" "mem_ok m' = mem_ok m"
    "fs_addr fs' = fs_addr (q_fs qs)" "fs_init fs' = fs_init (q_fs qs)"
    "fs_user_state fs' = fs_user_state (q_fs qs)"
    "fs_element_count fs' = fs_element_count (q_fs qs)"
    "\<And>qs'. fst (q_enqueue qs') = Some q \<Longrightarrow> fst (q_dequeue qs') = Some q \<Longrightarrow> q_fs qs' = fs' \<Longrightarrow>
       queue_rep qs' m' [(f, q)] ps"
proof -
  have fl: "freelist_rep (q_fs qs, m) (f # map fst ps)" and "owns_pair m (f, q)"
    using inv by (auto simp: pairs_inv_def)
  then obtain fc where fc: "fe_cells m f = Some fc" "fe_user_data fc = Some q" "q \<in> dom (qe_cells m)"
    using owns_pairD by blast
  let ?m = "m\<lparr>qe_cells := (qe_cells m)(q \<mapsto>
        \<lparr>qe_next = (NULL, q_aba_counter qs + 2), qe_fe = Some f, qe_user_data = NULL\<rparr>)\<rparr>"
  show thesis
  proof (rule that)
    show "queue_internal_new_element_from_freelist qs NULL m =
       Some ((Some q, q_aba_counter qs + 1),
         qs\<lparr>q_fs := (q_fs qs)\<lparr>fs_top := fe_next fc\<rparr>, q_aba_counter := q_aba_counter qs + 2\<rparr>, ?m)"
      by (rule new_element_eq [OF fl fc])
    show "queue_rep qs' ?m [(f, q)] ps"
      if "fst (q_enqueue qs') = Some q" "fst (q_dequeue qs') = Some q"
        "q_fs qs' = (q_fs qs)\<lparr>fs_top := fe_next fc\<rparr>" for qs'
    proof -
      have "owns_pair ?m n" if "n \<in> set ((f, q) # ps)" for n
        using inv that by (auto simp: pairs_inv_def owns_pair_def)
      moreover have "freelist_rep (q_fs qs', ?m) (map fst ps)"
        using fl fc(1) that(3)
        by (auto simp: freelist_rep_def fe_link_Some split: option.splits)
      ultimately show ?thesis
        using inv that(1,2) by (auto simp: queue_rep_def pairs_inv_def back_pointer_def)
    qed
  qed (use fc(3) in auto)
qed

lemma queue_new_ok:
  assumes ok: "always_ok m" and wf: "mem_wf m" and n: "n + 1 \<noteq> 0"
  obtains qs m' A B where "queue_new n m = Some (1, Some qs, m')"
    "fifo_rep A B (qs, m') (unat n) []" "queue_state_ok A B (qs, m') (unat n)" "always_ok m'"
    "A \<inter> live m = {}" "B \<inter> live m = {}" "{q_addr qs, fs_addr (q_fs qs)} \<inter> live m = {}"
    "dom (fe_cells m') = dom (fe_cells m) \<union> A" "dom (qe_cells m') = dom (qe_cells m) \<union> B"
    "state_blocks m' = state_blocks m \<union> {q_addr qs, fs_addr (q_fs qs)}"
proof -
  define m1 where "m1 = install Queue_state (brk m) (m\<lparr>calls := Suc (calls m), brk := Suc (brk m)\<rparr>)"
  have mal: "abstraction_aligned_malloc Queue_state m = (Some (brk m), m1)"
    using ok by (simp add: malloc_ok always_ok_def m1_def)
  obtain fs m2 ps where fl: "freelist_new (n + 1) (Some queue_internal_freelist_init_function) NULL m1 =
      Some (1, Some fs, m2)" "pairs_inv (started m) fs m2 ps" "length ps = unat (n + 1)"
      "fs_addr fs = Suc (brk m)"
    using freelist_new_pairs [OF ok mem_wf_started [OF wf] m1_def] by blast
  have un: "unat (n + 1) = Suc (unat n)" using n unatSuc [of n] by (simp add: add.commute)
  then obtain f q ps' where ps: "ps = (f, q) # ps'" "length ps' = unat n"
    using fl(3) by (cases ps) auto
  define qs0 where "qs0 = \<lparr>q_enqueue = (NULL, junk_word m2 (brk m) 1),
    q_dequeue = (NULL, junk_word m2 (brk m) 3), q_aba_counter = junk_word m2 (brk m) 4,
    q_fs = fs, q_addr = brk m\<rparr>"
  have inv0: "pairs_inv (started m) (q_fs qs0) m2 ((f, q) # ps')"
    using fl(2) ps(1) by (simp add: qs0_def)
  have qf: "q_fs qs0 = fs" by (simp add: qs0_def)
  obtain k fs' m' where el:
    "queue_internal_new_element_from_freelist qs0 NULL m2 =
       Some ((Some q, q_aba_counter qs0 + 1), qs0\<lparr>q_fs := fs', q_aba_counter := k\<rparr>, m')"
    and frame: "dom (fe_cells m') = dom (fe_cells m2)" "dom (qe_cells m') = dom (qe_cells m2)"
    "state_blocks m' = state_blocks m2" "brk m' = brk m2" "mem_ok m' = mem_ok m2"
    "fs_addr fs' = fs_addr (q_fs qs0)" "fs_init fs' = fs_init (q_fs qs0)"
    "fs_user_state fs' = fs_user_state (q_fs qs0)" "fs_element_count fs' = fs_element_count (q_fs qs0)"
    and rep: "\<And>qs'. fst (q_enqueue qs') = Some q \<Longrightarrow> fst (q_dequeue qs') = Some q \<Longrightarrow> q_fs qs' = fs' \<Longrightarrow>
       queue_rep qs' m' [(f, q)] ps'"
    by (rule first_dummy [OF inv0]; rule that; assumption)
  note frame = frame [unfolded qf]
  define qs where "qs = qs0\<lparr>q_fs := fs', q_dequeue := (Some q, snd (q_dequeue qs0)),
    q_enqueue := (Some q, snd (q_enqueue qs0)), q_aba_counter := 0\<rparr>"
  have new: "queue_new n m = Some (1, Some qs, m')"
    by (simp add: queue_new_def mal fl(1) qs0_def [symmetric, unfolded One_nat_def] el Let_def qs_def)
  let ?A = "fst ` set ps" and ?B = "snd ` set ps"
  have "fifo_rep ?A ?B (qs, m') (unat n) []"
    using rep [of qs] ps
    by (intro fifo_repI [where nodes = "[(f, q)]" and free = ps']) (simp_all add: qs_def contents_def)
  moreover have addrs: "q_addr qs = brk m" "fs_addr (q_fs qs) = Suc (brk m)"
    using fl(4) frame(6) by (simp_all add: qs_def qs0_def)
  moreover have "mem_wf m'"
    using fl(2) mem_wf_frame [OF frame(1-4)] by (simp add: pairs_inv_def)
  then have "queue_state_ok ?A ?B (qs, m') (unat n)"
    using fl(2,3) frame addrs by (auto simp: queue_state_ok_def pairs_inv_def qs_def un add.commute)
  moreover have "always_ok m'" using fl(2) frame by (simp add: pairs_inv_def always_ok_def)
  moreover have disj: "X \<inter> live m = {}" if "X \<subseteq> {brk m..}" for X
    using that mem_wf_live [OF wf] by fastforce
  moreover have "?A \<inter> live m = {}" "?B \<inter> live m = {}"
    by (rule disj, use fl(2) in \<open>fastforce simp: pairs_inv_def\<close>)+
  moreover have "{q_addr qs, fs_addr (q_fs qs)} \<inter> live m = {}"
    by (rule disj) (simp add: addrs)
  moreover have "dom (fe_cells m') = dom (fe_cells m) \<union> ?A" "dom (qe_cells m') = dom (qe_cells m) \<union> ?B"
    "state_blocks m' = state_blocks m \<union> {q_addr qs, fs_addr (q_fs qs)}"
    using fl(2) frame addrs by (auto simp: pairs_inv_def)
  ultimately show thesis using that [OF new, of ?A ?B] by blast
qed

section \<open>Destruction\<close>

lemma free_fe:
  assumes "mem_wf m" "a \<in> dom (fe_cells m)"
  shows "abstraction_aligned_free (Some a) m = Some (m\<lparr>fe_cells := (fe_cells m)(a := None)\<rparr>)"
proof -
  have "qe_cells m a = None" "a \<notin> state_blocks m" using assms by (auto simp: mem_wf_def)
  then show ?thesis using assms(2) by (simp add: abstraction_aligned_free_def live_def fun_upd_idem)
qed

lemma free_qe:
  assumes "mem_wf m" "a \<in> dom (qe_cells m)"
  shows "abstraction_aligned_free (Some a) m = Some (m\<lparr>qe_cells := (qe_cells m)(a := None)\<rparr>)"
proof -
  have "fe_cells m a = None" "a \<notin> state_blocks m" using assms by (auto simp: mem_wf_def)
  then show ?thesis using assms(2) by (simp add: abstraction_aligned_free_def live_def fun_upd_idem)
qed

lemma free_state:
  assumes "mem_wf m" "a \<in> state_blocks m"
  shows "abstraction_aligned_free (Some a) m = Some (m\<lparr>state_blocks := state_blocks m - {a}\<rparr>)"
proof -
  have "fe_cells m a = None" "qe_cells m a = None" using assms by (auto simp: mem_wf_def)
  then show ?thesis using assms(2) by (simp add: abstraction_aligned_free_def live_def fun_upd_idem)
qed

lemma delete_pairs:
  assumes "freelist_rep (fs, m) (map fst ps)" "distinct (map snd ps)"
    "\<forall>n \<in> set ps. owns_pair m n" "mem_wf m"
  shows "\<exists>fs' m'. freelist_delete_loop fs (Some queue_internal_freelist_delete_function) NULL m =
      Some (fs', m') \<and> fs_addr fs' = fs_addr fs \<and>
    dom (fe_cells m') = dom (fe_cells m) - fst ` set ps \<and>
    dom (qe_cells m') = dom (qe_cells m) - snd ` set ps \<and>
    state_blocks m' = state_blocks m \<and> mem_wf m'"
  using assms
proof (induction ps arbitrary: fs m)
  case Nil
  then show ?case
    by (subst freelist_delete_loop.simps) (simp add: freelist_pop_empty freelist_rep_def)
next
  case (Cons n ps)
  obtain f q where n: "n = (f, q)" by (cases n)
  obtain fc where fc: "fst (fs_top fs) = Some f" "fe_cells m f = Some fc"
    and rep: "freelist_rep (fs\<lparr>fs_top := fe_next fc\<rparr>, m) (map fst ps)"
    by (rule freelist_rep_cons [of fs m f "map fst ps"]) (use Cons.prems(1) n in simp)
  have q: "fe_user_data fc = Some q" "q \<in> dom (qe_cells m)"
    using Cons.prems(3) n fc(2) owns_pairD [of m f q] by auto
  have dist: "f \<notin> set (map fst ps)"
    using Cons.prems(1) path_distinct [of "fe_link m" _ "f # map fst ps"]
    by (auto simp: freelist_rep_def n)
  let ?m1 = "m\<lparr>qe_cells := (qe_cells m)(q := None)\<rparr>"
  let ?m2 = "?m1\<lparr>fe_cells := (fe_cells m)(f := None)\<rparr>"
  have f1: "abstraction_aligned_free (Some q) m = Some ?m1"
    by (rule free_qe [OF Cons.prems(4) q(2)])
  have wf1: "mem_wf ?m1" by (rule free_wf [OF Cons.prems(4) f1])
  have f2: "abstraction_aligned_free (Some f) ?m1 = Some ?m2"
    using free_fe [OF wf1, of f] fc(2) by auto
  have wf2: "mem_wf ?m2" by (rule free_wf [OF wf1 f2])
  have own: "\<forall>k \<in> set ps. owns_pair ?m2 k"
  proof
    fix k
    assume k: "k \<in> set ps"
    then have "fst k \<noteq> f" "snd k \<noteq> q" using Cons.prems(2) dist n by force+
    then show "owns_pair ?m2 k" using Cons.prems(3) k by (auto simp: owns_pair_def)
  qed
  have "fe_link ?m2 = (fe_link m)(f := None)" by (simp add: fe_link_def fun_eq_iff)
  then have rep2: "freelist_rep (fs\<lparr>fs_top := fe_next fc\<rparr>, ?m2) (map fst ps)"
    using rep dist by (simp add: freelist_rep_def)
  have dists: "distinct (map snd ps)" using Cons.prems(2) by simp
  obtain fs' m' where m': "freelist_delete_loop (fs\<lparr>fs_top := fe_next fc\<rparr>)
      (Some queue_internal_freelist_delete_function) NULL ?m2 = Some (fs', m')"
    "fs_addr fs' = fs_addr (fs\<lparr>fs_top := fe_next fc\<rparr>)" "dom (fe_cells m') = dom (fe_cells ?m2) - fst ` set ps"
    "dom (qe_cells m') = dom (qe_cells ?m2) - snd ` set ps"
    "state_blocks m' = state_blocks ?m2" "mem_wf m'"
    using Cons.IH [OF rep2 dists own wf2] by (elim exE conjE) (rule that; assumption)
  have "freelist_delete_loop fs (Some queue_internal_freelist_delete_function) NULL m = Some (fs', m')"
    using f1 f2 fc q(1) m'(1)
    by (subst freelist_delete_loop.simps)
      (simp add: freelist_pop_cons [OF fc] freelist_get_user_data_from_element_def
        queue_internal_freelist_delete_function_def)
  moreover have "dom (fe_cells m') = dom (fe_cells m) - fst ` set (n # ps)"
    "dom (qe_cells m') = dom (qe_cells m) - snd ` set (n # ps)"
    using m'(3,4) n by (auto split: if_splits)
  ultimately show ?case using m'(2,5,6) by (intro exI [of _ fs'] exI [of _ m']) simp
qed

text \<open>
  The caller's delete function gets the user data, which are not memory of the library: it may
  do anything but leaves the library's memory alone.
\<close>

definition harmless :: "delete_fn option \<Rightarrow> ptr \<Rightarrow> bool" where
  "harmless delete us \<longleftrightarrow> (\<forall>d ud m. delete = Some d \<longrightarrow> d ud us m = Some m)"

lemma queue_delete_loop_drains:
  assumes "harmless delete us"
  shows "fifo_rep A B (qs, m) n xs \<Longrightarrow>
    \<exists>qs' m'. queue_delete_loop qs delete us m = Some (qs', m') \<and> fifo_rep A B (qs', m') n [] \<and>
      fifo_frame (qs', m') = fifo_frame (qs, m)"
proof (induction xs arbitrary: qs m)
  case Nil
  then have "queue_dequeue qs m = Some (0, NULL, qs, m)"
    using lq.deq_empty by (fastforce simp: fifo_deq_def bind_eq_Some_conv)
  with Nil show ?case by (subst queue_delete_loop.simps) simp
next
  case (Cons x xs)
  obtain qs1 m1 where d: "fifo_deq (qs, m) = Some (1, x, (qs1, m1))" "fifo_rep A B (qs1, m1) n xs"
    "fifo_frame (qs1, m1) = fifo_frame (qs, m)"
    using lq.deq_first [OF Cons.prems] by auto
  then have "queue_dequeue qs m = Some (1, x, qs1, m1)"
    by (auto simp: fifo_deq_def bind_eq_Some_conv)
  then have "queue_delete_loop qs delete us m = queue_delete_loop qs1 delete us m1"
    using assms by (subst queue_delete_loop.simps) (auto simp: harmless_def split: option.splits)
  with Cons.IH [OF d(2)] d(3) show ?case by metis
qed

lemma queue_delete_ok:
  assumes rep: "fifo_rep A B (qs, m) n xs" and ok: "queue_state_ok A B (qs, m) n"
    and del: "harmless delete us"
  shows "\<exists>m'. queue_delete qs delete us m = Some m' \<and>
    dom (fe_cells m') = dom (fe_cells m) - A \<and> dom (qe_cells m') = dom (qe_cells m) - B \<and>
    state_blocks m' = state_blocks m - {q_addr qs, fs_addr (q_fs qs)}"
proof -
  obtain qs1 m1 where loop: "queue_delete_loop qs delete us m = Some (qs1, m1)"
    "fifo_rep A B (qs1, m1) n []" and frame: "fifo_frame (qs1, m1) = fifo_frame (qs, m)"
    using queue_delete_loop_drains [OF del rep] by blast
  have ok1: "queue_state_ok A B (qs1, m1) n" by (rule queue_state_ok_frame [OF frame ok])
  obtain f q free where r: "queue_rep qs1 m1 [(f, q)] free" "fst ` set ((f, q) # free) = A"
      "snd ` set ((f, q) # free) = B"
    using loop(2) by (elim fifo_repE) (auto simp: length_Suc_conv)
  obtain c fc where c: "fst (q_enqueue qs1) = Some q" "qe_cells m1 q = Some c" "qe_fe c = Some f"
      "fe_cells m1 f = Some fc"
    using r(1) by (auto simp: queue_rep_def back_pointer_def owns_pair_def)
  obtain fs2 m2 where p: "pool_push (q_fs qs1, m1) f = Some (fs2, m2)"
    "freelist_rep (fs2, m2) (f # map fst free)"
    using fl.push_top [of "(q_fs qs1, m1)" "map fst free" f] r(1) c(4)
    by (auto simp: queue_rep_def freelist_owns_def)
  have m2: "m2 = m1\<lparr>fe_cells := (fe_cells m1)(f \<mapsto> fc\<lparr>fe_next := fs_top (q_fs qs1)\<rparr>)\<rparr>"
    "fs_addr fs2 = fs_addr (q_fs qs1)"
    using p(1) by (auto simp: pool_push_def freelist_push_eq [OF c(4)])
  have wf2: "mem_wf m2"
    using ok1 mem_wf_links [OF _ c(4)] by (simp add: m2(1) queue_state_ok_def)
  have "\<forall>k \<in> set ((f, q) # free). owns_pair m2 k"
    using r(1) owns_pair_push [OF _ c(4)] by (auto simp: queue_rep_def m2(1))
  then obtain fs3 m3 where m3: "freelist_delete_loop fs2
      (Some queue_internal_freelist_delete_function) NULL m2 = Some (fs3, m3)"
    "fs_addr fs3 = fs_addr fs2"
    "dom (fe_cells m3) = dom (fe_cells m2) - A" "dom (qe_cells m3) = dom (qe_cells m2) - B"
    "state_blocks m3 = state_blocks m2" "mem_wf m3"
    using delete_pairs [of fs2 m2 "(f, q) # free"] p(2) r wf2
    by (auto simp: queue_rep_def)
  have addrs: "q_addr qs1 = q_addr qs" "fs_addr (q_fs qs1) = fs_addr (q_fs qs)"
    "state_blocks m1 = state_blocks m" "dom (fe_cells m1) = dom (fe_cells m)"
    "dom (qe_cells m1) = dom (qe_cells m)"
    using frame by (auto simp: fifo_frame_def)
  have blocks: "fs_addr (q_fs qs) \<in> state_blocks m3" "q_addr qs \<in> state_blocks m3"
    "fs_addr (q_fs qs) \<noteq> q_addr qs"
    using ok m3(5) addrs by (auto simp: queue_state_ok_def m2(1))
  let ?m4 = "m3\<lparr>state_blocks := state_blocks m3 - {fs_addr (q_fs qs)}\<rparr>"
  let ?m5 = "?m4\<lparr>state_blocks := state_blocks ?m4 - {q_addr qs}\<rparr>"
  have f4: "abstraction_aligned_free (Some (fs_addr (q_fs qs))) m3 = Some ?m4"
    by (rule free_state [OF m3(6) blocks(1)])
  have f5: "abstraction_aligned_free (Some (q_addr qs)) ?m4 = Some ?m5"
    by (rule free_state [OF free_wf [OF m3(6) f4]]) (use blocks in auto)
  have "queue_delete qs delete us m = Some ?m5"
    using loop(1) c p(1) m3(1,2) m2(2) addrs f4 f5
    by (simp add: queue_delete_def freelist_delete_def pool_push_def)
  moreover have "state_blocks ?m5 = state_blocks m - {q_addr qs, fs_addr (q_fs qs)}"
    using m3(5) addrs by (auto simp: m2(1))
  moreover have "dom (fe_cells m2) = dom (fe_cells m1)" "dom (qe_cells m2) = dom (qe_cells m1)"
    using c(4) by (auto simp: m2(1))
  ultimately show ?thesis using m3(3,4) addrs by auto
qed

end
