(* ===== verification/Queue_Check.thy ===== *)
theory Queue_Check
  imports Queue_Life
begin

text \<open>
  Growing and validating a queue: \<open>queue_guaranteed_enqueue\<close> adds one element of capacity
  and appends to the contents in every state, full ones included; the two validators of
  \<open>queue_query.c\<close> on a well-formed queue, with the unsigned bounds they derive; and the
  construction that wraps at the largest capacity.
\<close>

section \<open>Growth\<close>

lemma queue_rep_grown:
  assumes "queue_rep qs m nodes free" "mem_wf m"
  shows "queue_rep qs (grown m) nodes free"
proof -
  have fe: "fe_cells (grown m) a = fe_cells m a" "fe_link (grown m) a = fe_link m a"
    if "a \<in> dom (fe_cells m)" for a
    using that mem_wf_brk [OF assms(2)] by (auto simp: grown_def fe_link_def)
  have qe: "qe_cells (grown m) a = qe_cells m a" "qe_link (grown m) a = qe_link m a"
    if "a \<in> dom (qe_cells m)" for a
    using that mem_wf_live [OF assms(2), of "Suc (brk m)"]
    by (auto simp: grown_def qe_link_def live_def)
  have own: "owns_pair (grown m) n" if "owns_pair m n" for n
    using that fe qe by (fastforce simp: owns_pair_def domIff)
  have bp: "back_pointer (grown m) n" if "back_pointer m n" for n
    using that qe by (fastforce simp: back_pointer_def)
  have q_chain: "path (qe_link (grown m)) p (map snd ns) NULL = path (qe_link m) p (map snd ns) NULL"
    if "\<forall>n \<in> set ns. owns_pair m n" for p ns
    by (rule path_cong) (use that qe in \<open>auto simp: owns_pair_def\<close>)
  have f_chain: "path (fe_link (grown m)) p (map fst ns) NULL = path (fe_link m) p (map fst ns) NULL"
    if "\<forall>n \<in> set ns. owns_pair m n" for p ns
    by (rule path_cong) (use that fe in \<open>force simp: owns_pair_def\<close>)
  show ?thesis
    using assms(1) own bp by (auto simp: queue_rep_def freelist_rep_def q_chain f_chain)
qed

lemma contents_grown:
  assumes "queue_rep qs m nodes free" "mem_wf m"
  shows "contents (grown m) nodes = contents m nodes"
proof -
  have "qe_cells (grown m) (snd n) = qe_cells m (snd n)" if "n \<in> set nodes" for n
  proof -
    have "Suc (brk m) \<notin> dom (qe_cells m)"
      using mem_wf_live [OF assms(2), of "Suc (brk m)"] by (auto simp: live_def)
    moreover have "snd n \<in> dom (qe_cells m)"
      using that assms(1) by (auto simp: queue_rep_def owns_pair_def)
    ultimately have "snd n \<noteq> Suc (brk m)" by metis
    then show ?thesis by (simp add: grown_def)
  qed
  then show ?thesis
    by (cases nodes) (auto simp: contents_def node_data_def)
qed

lemma guaranteed_new_element_eq:
  assumes "always_ok m" "fs_init (q_fs qs) = Some queue_internal_freelist_init_function"
    "fs_user_state (q_fs qs) = NULL"
  shows "queue_internal_guaranteed_new_element_from_freelist qs x m =
    Some ((Some (Suc (brk m)), q_aba_counter qs + 1),
      qs\<lparr>q_fs := (q_fs qs)\<lparr>fs_element_count := fs_element_count (q_fs qs) + 1\<rparr>,
         q_aba_counter := q_aba_counter qs + 2\<rparr>,
      (grown m)\<lparr>qe_cells := (qe_cells (grown m))(Suc (brk m) \<mapsto>
        \<lparr>qe_next = (NULL, q_aba_counter qs + 2), qe_fe = Some (brk m), qe_user_data = x\<rparr>)\<rparr>)"
  using init_element_eq [of "grown m" "brk m" _ "Suc (brk m)"]
  by (simp add: queue_internal_guaranteed_new_element_from_freelist_def freelist_guaranteed_pop_def
      new_element_grown [OF assms] grown_def)

lemma queue_guaranteed_enqueue_ok:
  assumes rep: "fifo_rep A B (qs, m) n xs" and ok: "queue_state_ok A B (qs, m) n"
    and mem: "always_ok m"
  shows "\<exists>qs' m'. queue_guaranteed_enqueue qs x m = Some (1, qs', m') \<and>
    fifo_rep (insert (brk m) A) (insert (Suc (brk m)) B) (qs', m') (Suc n) (xs @ [x]) \<and>
    queue_state_ok (insert (brk m) A) (insert (Suc (brk m)) B) (qs', m') (Suc n) \<and>
    always_ok m' \<and> {brk m, Suc (brk m)} \<inter> live m = {}"
proof -
  let ?f = "brk m" and ?q = "Suc (brk m)"
  have wf: "mem_wf m" and init: "fs_init (q_fs qs) = Some queue_internal_freelist_init_function"
      "fs_user_state (q_fs qs) = NULL"
    using ok by (simp_all add: queue_state_ok_def)
  obtain nodes free where r: "queue_rep qs m nodes free" "contents m nodes = xs"
      "length nodes = Suc (length xs)" "n = length xs + length free"
      "fst ` set (nodes @ free) = A" "snd ` set (nodes @ free) = B"
    using rep fifo_repE by blast
  have r1: "queue_rep qs (grown m) nodes free" by (rule queue_rep_grown [OF r(1) wf])
  have out: "?f \<notin> fst ` set (nodes @ free)" "?q \<notin> snd ` set (nodes @ free)"
  proof -
    have "A \<subseteq> live m" "B \<subseteq> live m" using ok by (auto simp: queue_state_ok_def live_def)
    moreover have "?f \<notin> live m" "?q \<notin> live m" using mem_wf_live [OF wf] by fastforce+
    ultimately show "?f \<notin> fst ` set (nodes @ free)" "?q \<notin> snd ` set (nodes @ free)"
      unfolding r(5,6) by blast+
  qed
  have pair: "owns_pair (grown m) (?f, ?q)" by (simp add: owns_pair_def grown_def)
  obtain lc where lc: "fst (q_enqueue qs) = Some (snd (last nodes))"
      "qe_cells (grown m) (snd (last nodes)) = Some lc" "fst (qe_next lc) = NULL"
    using queue_rep_last [OF r1] .
  have ne: "snd (last nodes) \<noteq> ?q"
    using out(2) r(3) by (metis Un_iff imageI last_in_set length_0_conv nat.distinct(1) set_append)
  define qs' where "qs' = qs\<lparr>q_fs := (q_fs qs)\<lparr>fs_element_count := fs_element_count (q_fs qs) + 1\<rparr>,
      q_aba_counter := q_aba_counter qs + 2, q_enqueue := (Some ?q, snd (q_enqueue qs) + sizeof_queue_element)\<rparr>"
  define m' where "m' = linked (grown m) (?f, ?q) (snd (last nodes)) (q_aba_counter qs + 2) x lc"
  have enq: "queue_guaranteed_enqueue qs x m = Some (1, qs', m')"
    using lc ne by (simp add: queue_guaranteed_enqueue_def guaranteed_new_element_eq [OF mem init]
        queue_internal_queue_eq linked_def qs'_def m'_def)
  note l = linked_rep_new [OF r1 pair out lc(2,3), of qs' "q_aba_counter qs + 2" x, folded m'_def]
  have "fifo_rep (insert ?f A) (insert ?q B) (qs', m') (Suc n) (xs @ [x])"
    by (rule fifo_repI [OF l(1)])
      (use l(2) r contents_grown [OF r(1) wf] in \<open>auto simp: qs'_def\<close>)
  moreover have doms: "dom (fe_cells m') = insert ?f (dom (fe_cells m))"
    "dom (qe_cells m') = insert ?q (dom (qe_cells m))" "state_blocks m' = state_blocks m"
    "brk m' = brk m + 2" "mem_ok m' = mem_ok m"
    using lc(2) by (auto simp: m'_def linked_def grown_def split: if_splits)
  moreover have "mem_wf m' = mem_wf (grown m)"
    by (rule mem_wf_frame) (simp_all add: doms, simp_all add: grown_def)
  then have "mem_wf m'" using mem_wf_grown [OF wf] by simp
  then have "queue_state_ok (insert ?f A) (insert ?q B) (qs', m') (Suc n)"
    using ok doms by (auto simp: queue_state_ok_def qs'_def)
  moreover have "{?f, ?q} \<inter> live m = {}" using mem_wf_live [OF wf] by fastforce
  ultimately show ?thesis using enq mem by (auto simp: always_ok_def)
qed

section \<open>Validation\<close>

text \<open>
  Both halves on a well-formed queue. \<open>xs\<close> are the elements queued: the chain counts one
  more, the dummy, which the validator takes off again; the freelist holds the rest.
\<close>

definition expected_validity ::
  "nat \<Rightarrow> nat \<Rightarrow> validation_info option \<Rightarrow> data_structure_validity \<times> data_structure_validity" where
  "expected_validity n k vi =
     (case vi of
        None \<Rightarrow> (VALIDITY_VALID, VALIDITY_VALID)
      | Some vi \<Rightarrow> (check_count (of_nat k) vi,
          check_count (of_nat (n - k)) \<lparr>min_elements = of_nat n - max_elements vi,
                                        max_elements = of_nat n - min_elements vi\<rparr>))"

lemma queue_chain_validate_rep:
  assumes "queue_rep qs m nodes free"
  shows "queue_chain_validate qs vi m =
    Some (case vi of None \<Rightarrow> VALIDITY_VALID | Some vi \<Rightarrow> check_count (of_nat (length nodes) - 1) vi)"
  using assms
  by (cases vi) (auto simp: queue_chain_validate_def queue_rep_def has_loop_path count_elements_path)

lemma queue_validate_rep:
  assumes rep: "fifo_rep A B (qs, m) n xs" and ok: "queue_state_ok A B (qs, m) n"
  shows "queue_internal_validate qs vi m = Some (expected_validity n (length xs) vi)"
proof -
  obtain nodes free where r: "queue_rep qs m nodes free" "length nodes = Suc (length xs)"
      "n = length xs + length free"
    using rep fifo_repE by blast
  have fl: "freelist_rep (q_fs qs, m) (map fst free)" using r(1) by (simp add: queue_rep_def)
  have "fs_element_count (q_fs qs) = of_nat n + 1" using ok by (simp add: queue_state_ok_def)
  then show ?thesis
    using r(2,3)
    by (cases vi) (simp_all add: queue_internal_validate_def queue_chain_validate_rep [OF r(1)]
        freelist_validate_rep [OF fl] expected_validity_def freelist_bounds_def Let_def)
qed

lemma check_count_valid:
  "check_count k vi = VALIDITY_VALID \<longleftrightarrow> min_elements vi \<le> k \<and> k \<le> max_elements vi"
  by (auto simp: check_count_def Let_def not_less)

text \<open>Within the capacity the two verdicts agree, as the comment of the source intends.\<close>

lemma expected_validity_agree:
  assumes "k \<le> n" "n < 2 ^ 64" "min_elements vi \<le> max_elements vi" "unat (max_elements vi) \<le> n"
  shows "(fst (expected_validity n k (Some vi)) = VALIDITY_VALID \<longleftrightarrow>
          snd (expected_validity n k (Some vi)) = VALIDITY_VALID) \<and>
    (fst (expected_validity n k (Some vi)) = VALIDITY_VALID \<longleftrightarrow>
       unat (min_elements vi) \<le> k \<and> k \<le> unat (max_elements vi))"
proof -
  have n: "unat (of_nat n :: u64) = n" "unat (of_nat k :: u64) = k" "unat (of_nat (n - k) :: u64) = n - k"
    by (rule of_nat_inverse [OF refl], use assms(1,2) in simp)+
  have le: "max_elements vi \<le> of_nat n" "min_elements vi \<le> of_nat n"
    using assms(3,4) n(1) by (auto simp: word_le_nat_alt)
  have sub: "unat (of_nat n - max_elements vi) = n - unat (max_elements vi)"
    "unat (of_nat n - min_elements vi) = n - unat (min_elements vi)"
    using unat_sub [OF le(1)] unat_sub [OF le(2)] n(1) by simp_all
  show ?thesis
    using assms n sub
    by (auto simp del: of_nat_diff simp: expected_validity_def check_count_valid word_le_nat_alt)
qed

section \<open>The largest capacity\<close>

lemma freelist_new_zero:
  assumes "always_ok m"
  shows "freelist_new 0 ini us m =
    Some (1, Some \<lparr>fs_top = (NULL, 0), fs_init = ini, fs_user_state = us, fs_aba_counter = 0,
                   fs_element_count = 0, fs_addr = brk m\<rparr>,
      install Freelist_state (brk m) (m\<lparr>calls := Suc (calls m), brk := Suc (brk m)\<rparr>))"
  using assms
  by (simp add: freelist_new_def malloc_ok always_ok_def freelist_new_elements_def
      freelist_new_elements_loop.simps)

lemma queue_new_wraps:
  assumes ok: "always_ok m"
  obtains qs m' where "queue_new (- 1) m = Some (1, Some qs, m')"
    "fst (q_enqueue qs) = NULL" "fst (q_dequeue qs) = NULL"
    "queue_dequeue qs m' = None" "queue_enqueue qs x m' = Some (0, qs, m')"
proof -
  have "\<exists>qs m'. queue_new (- 1) m = Some (1, Some qs, m') \<and> fst (q_enqueue qs) = NULL \<and>
      fst (q_dequeue qs) = NULL \<and> fst (fs_top (q_fs qs)) = NULL"
    using ok freelist_new_zero
    by (simp add: queue_new_def malloc_ok always_ok_def queue_internal_new_element_from_freelist_def
        freelist_pop_empty)
  then obtain qs m' where q: "queue_new (- 1) m = Some (1, Some qs, m')" "fst (q_enqueue qs) = NULL"
      "fst (q_dequeue qs) = NULL" "fst (fs_top (q_fs qs)) = NULL"
    by blast
  have "queue_dequeue qs m' = None"
    using q(3) by (simp add: queue_dequeue_def queue_dequeue_loop.simps)
  moreover have "queue_enqueue qs x m' = Some (0, qs, m')"
    using q(4) by (simp add: queue_enqueue_def queue_internal_new_element_from_freelist_def
        freelist_pop_empty)
  ultimately show thesis using q that by blast
qed

end
