(* ===== verification/Store.thy ===== *)
theory Store
  imports Prelude
begin

text \<open>
  The heap objects of the core library (events, latches, ports): one store per structure, with
  \<open>malloc\<close> that may fail at any call, loads and stores through pointers, and \<open>free\<close>. An
  address is never handed out twice, so a use after \<open>free\<close> has no result.
\<close>

record 'a store =
  objs :: "addr \<rightharpoonup> 'a"
  next_addr :: addr
  alloc_calls :: nat
  alloc_ok :: "nat \<Rightarrow> bool"

definition new_obj :: "'a \<Rightarrow> 'a store \<Rightarrow> ptr \<times> 'a store" where
  "new_obj x h =
     (let h' = h\<lparr>alloc_calls := Suc (alloc_calls h)\<rparr>
      in if alloc_ok h (alloc_calls h)
         then (Some (next_addr h), h'\<lparr>objs := (objs h)(next_addr h \<mapsto> x), next_addr := Suc (next_addr h)\<rparr>)
         else (NULL, h'))"

definition get_obj :: "ptr \<Rightarrow> 'a store \<Rightarrow> 'a option" where
  "get_obj p h = Option.bind p (objs h)"

definition put_obj :: "ptr \<Rightarrow> 'a \<Rightarrow> 'a store \<Rightarrow> 'a store option" where
  "put_obj p x h = do { a \<leftarrow> p; _ \<leftarrow> objs h a; Some (h\<lparr>objs := (objs h)(a \<mapsto> x)\<rparr>) }"

definition free_obj :: "ptr \<Rightarrow> 'a store \<Rightarrow> 'a store option" where
  "free_obj p h =
     (case p of
        None \<Rightarrow> Some h
      | Some a \<Rightarrow> do { _ \<leftarrow> objs h a; Some (h\<lparr>objs := (objs h)(a := None)\<rparr>) })"

definition store_wf :: "'a store \<Rightarrow> bool" where
  "store_wf h \<longleftrightarrow> (\<forall>a \<in> dom (objs h). a < next_addr h)"

lemma get_Some [simp]: "get_obj (Some a) h = objs h a" and get_NULL [simp]: "get_obj NULL h = None"
  by (simp_all add: get_obj_def)

lemma put_get: "get_obj p h = Some y \<Longrightarrow> put_obj p x h = Some (h\<lparr>objs := (objs h)(the p \<mapsto> x)\<rparr>)"
  by (cases p) (simp_all add: put_obj_def)

lemma get_put: "put_obj p x h = Some h' \<Longrightarrow> get_obj r h' = (if r = p then Some x else get_obj r h)"
  by (cases p; cases r) (auto simp: put_obj_def bind_eq_Some_conv)

lemma free_get: "get_obj (Some a) h = Some x \<Longrightarrow> free_obj (Some a) h = Some (h\<lparr>objs := (objs h)(a := None)\<rparr>)"
  by (simp add: free_obj_def)

lemma get_free: "free_obj (Some a) h = Some h' \<Longrightarrow> get_obj (Some a) h' = None"
  by (auto simp: free_obj_def bind_eq_Some_conv)

lemma double_free: "free_obj (Some a) h = Some h' \<Longrightarrow> free_obj (Some a) h' = None"
  by (auto simp: free_obj_def bind_eq_Some_conv)

lemma new_fresh: "store_wf h \<Longrightarrow> new_obj x h = (Some a, h') \<Longrightarrow> objs h a = None"
  by (auto simp: new_obj_def store_wf_def Let_def dom_def split: if_splits)

lemma new_get: "new_obj x h = (p, h') \<Longrightarrow> p \<noteq> NULL \<Longrightarrow> get_obj p h' = Some x"
  by (auto simp: new_obj_def Let_def split: if_splits)

lemma new_wf: "store_wf h \<Longrightarrow> store_wf (snd (new_obj x h))"
  by (auto simp: new_obj_def store_wf_def Let_def less_Suc_eq)

lemma put_wf: "store_wf h \<Longrightarrow> put_obj p x h = Some h' \<Longrightarrow> store_wf h'"
  by (auto simp: put_obj_def store_wf_def bind_eq_Some_conv dom_def split: if_splits)

lemma free_wf_store: "store_wf h \<Longrightarrow> free_obj p h = Some h' \<Longrightarrow> store_wf h'"
  by (cases p) (auto simp: free_obj_def store_wf_def bind_eq_Some_conv split: if_splits)

end
