(* ===== verification/Event.thy ===== *)
theory Event
  imports Store
begin

text \<open>
  Events (\<open>corelib/JacksEvent.c\<close>): a type code, a data pointer, and a completion token, a
  function with its argument. Function pointers are code values of a type \<open>'f\<close>;
  \<open>call\<close> says what calling one does to the state \<open>'w\<close> it acts on.
\<close>

record 'f jacks_event_T =
  etype :: int
  event_data :: ptr
  ctoken :: "'f option"
  ctoken_arg :: ptr

definition JacksEvent_new ::
  "int \<Rightarrow> 'f option \<Rightarrow> ptr \<Rightarrow> 'f jacks_event_T store \<Rightarrow> ptr \<times> 'f jacks_event_T store" where
  "JacksEvent_new t token token_arg h =
     new_obj \<lparr>etype = t, event_data = NULL, ctoken = token, ctoken_arg = token_arg\<rparr> h"

text \<open>The argument is the variable that holds the pointer; the variable keeps its value.\<close>

definition JacksEvent_free :: "ptr option \<Rightarrow> 'f jacks_event_T store \<Rightarrow> 'f jacks_event_T store option" where
  "JacksEvent_free this_p h = do {
     _ \<leftarrow> c_assert (this_p \<noteq> None \<and> this_p \<noteq> Some NULL);
     this \<leftarrow> this_p;
     free_obj this h
   }"

definition JacksEvent_complete ::
  "('f \<Rightarrow> ptr \<Rightarrow> 'w \<Rightarrow> 'w option) \<Rightarrow> ptr \<Rightarrow> 'f jacks_event_T store \<Rightarrow> 'w \<Rightarrow> 'w option" where
  "JacksEvent_complete call this h w = do {
     e \<leftarrow> get_obj this h;
     (case ctoken e of None \<Rightarrow> Some w | Some f \<Rightarrow> call f (ctoken_arg e) w)
   }"

definition JacksEvent_get_type :: "ptr \<Rightarrow> 'f jacks_event_T store \<Rightarrow> int option" where
  "JacksEvent_get_type this h = map_option etype (get_obj this h)"

definition JacksEvent_get_data :: "ptr \<Rightarrow> 'f jacks_event_T store \<Rightarrow> ptr option" where
  "JacksEvent_get_data this h = map_option event_data (get_obj this h)"

definition JacksEvent_set_data ::
  "ptr \<Rightarrow> ptr \<Rightarrow> 'f jacks_event_T store \<Rightarrow> 'f jacks_event_T store option" where
  "JacksEvent_set_data this data h = do {
     e \<leftarrow> get_obj this h;
     put_obj this (e\<lparr>event_data := data\<rparr>) h
   }"

lemma set_data_get:
  assumes "JacksEvent_set_data p d h = Some h'"
  shows "JacksEvent_get_data p h' = Some d"
    and "q \<noteq> p \<Longrightarrow> JacksEvent_get_data q h' = JacksEvent_get_data q h"
    and "JacksEvent_get_type q h' = JacksEvent_get_type q h"
  using assms
  by (auto simp: JacksEvent_set_data_def JacksEvent_get_data_def JacksEvent_get_type_def
      bind_eq_Some_conv get_put)

lemma set_data_complete:
  "JacksEvent_set_data p d h = Some h' \<Longrightarrow> JacksEvent_complete call q h' w = JacksEvent_complete call q h w"
  by (auto simp: JacksEvent_set_data_def JacksEvent_complete_def bind_eq_Some_conv get_put
      split: option.split)

lemma new_event_get:
  assumes "JacksEvent_new t c arg h = (p, h')" "p \<noteq> NULL"
  shows "JacksEvent_get_type p h' = Some t" "JacksEvent_get_data p h' = Some NULL"
    "JacksEvent_complete call p h' w = (case c of None \<Rightarrow> Some w | Some f \<Rightarrow> call f arg w)"
  using new_get [OF assms(1) [unfolded JacksEvent_new_def] assms(2)]
  by (simp_all add: JacksEvent_get_type_def JacksEvent_get_data_def JacksEvent_complete_def
      split: option.split)

lemma freed_event_dead:
  assumes "JacksEvent_free (Some p) h = Some h'"
  shows "JacksEvent_get_type p h' = None" "JacksEvent_get_data p h' = None"
    "JacksEvent_set_data p d h' = None" "JacksEvent_complete call p h' w = None"
    "JacksEvent_free (Some p) h' = None"
proof -
  obtain a where a: "p = Some a" "free_obj (Some a) h = Some h'"
    using assms by (cases p) (auto simp: JacksEvent_free_def)
  then show "JacksEvent_get_type p h' = None" "JacksEvent_get_data p h' = None"
    "JacksEvent_set_data p d h' = None" "JacksEvent_complete call p h' w = None"
    "JacksEvent_free (Some p) h' = None"
    using get_free [OF a(2)] double_free [OF a(2)]
    by (simp_all add: JacksEvent_get_type_def JacksEvent_get_data_def JacksEvent_set_data_def
        JacksEvent_complete_def JacksEvent_free_def)
qed

end
