(* ===== verification/Latch.thy ===== *)
theory Latch
  imports Store
begin

text \<open>
  The latch (\<open>corelib/JacksLatch.c\<close>): a mutex, a condition variable and a flag. A completed
  session event posts it; the session callback waits on it.

  The operations are modelled twice. \<open>JacksLatch_get\<close> and its companions are the functions
  of one caller; what the other threads leave in the flag each time \<open>pthread_cond_wait\<close>
  returns is an argument. \<open>latch_step\<close> is the code of any number of threads, one POSIX
  call or memory access at a time, with spurious wakeups and with signals that may wake more
  than one waiter, as POSIX allows. Its theorems: mutual exclusion, no lost wakeup, and a
  simulation by the atomic flag that the first model and the session protocol use.
\<close>

section \<open>The functions\<close>

definition NOT_POSTED :: int where "NOT_POSTED = 0"
definition POSTED :: int where "POSTED = 1"

record latch_T =
  status :: int

definition JacksLatch_new :: "latch_T store \<Rightarrow> ptr \<times> latch_T store" where
  "JacksLatch_new h = new_obj \<lparr>status = NOT_POSTED\<rparr> h"

text \<open>
  The waiting loop: the flag as first read under the lock, then after each return from
  \<open>pthread_cond_wait\<close>. \<open>None\<close>: still waiting when the list of wakeups ends.
\<close>

fun latch_wait :: "int \<Rightarrow> int list \<Rightarrow> int option" where
  "latch_wait seen wakes =
     (if seen \<noteq> POSTED
      then (case wakes of [] \<Rightarrow> None | w # ws \<Rightarrow> latch_wait w ws)
      else Some seen)"

definition JacksLatch_get :: "int list \<Rightarrow> ptr \<Rightarrow> latch_T store \<Rightarrow> (int \<times> latch_T store) option" where
  "JacksLatch_get wakes this h = do {
     l \<leftarrow> get_obj this h;
     _ \<leftarrow> latch_wait (status l) wakes;
     h \<leftarrow> put_obj this (l\<lparr>status := NOT_POSTED\<rparr>) h;
     Some (0, h)
   }"

definition JacksLatch_post :: "ptr \<Rightarrow> latch_T store \<Rightarrow> (int \<times> latch_T store) option" where
  "JacksLatch_post this h = do {
     l \<leftarrow> get_obj this h;
     h \<leftarrow> put_obj this (l\<lparr>status := POSTED\<rparr>) h;
     Some (0, h)
   }"

definition JacksLatch_free :: "ptr option \<Rightarrow> latch_T store \<Rightarrow> latch_T store option" where
  "JacksLatch_free this_p h = do {
     _ \<leftarrow> c_assert (this_p \<noteq> None \<and> this_p \<noteq> Some NULL);
     this \<leftarrow> this_p;
     free_obj this h
   }"

lemma latch_wait_Some: "latch_wait s ws = Some v \<longleftrightarrow> v = POSTED \<and> POSTED \<in> set (s # ws)"
  by (induction ws arbitrary: s) (auto simp: POSTED_def)

lemma latch_get_iff:
  "JacksLatch_get ws p h = Some (rc, h') \<longleftrightarrow>
     (\<exists>l. get_obj p h = Some l \<and> POSTED \<in> set (status l # ws) \<and> rc = 0 \<and>
        put_obj p (l\<lparr>status := NOT_POSTED\<rparr>) h = Some h')"
  by (auto simp: JacksLatch_get_def bind_eq_Some_conv latch_wait_Some simp del: latch_wait.simps)

text \<open>A post before the wait is kept; two posts are one.\<close>

lemma post_then_get:
  assumes "JacksLatch_post p h = Some (rc, h1)"
  shows "\<exists>h2. JacksLatch_get [] p h1 = Some (0, h2) \<and> JacksLatch_get [] p h2 = None"
proof -
  obtain l where "get_obj p h = Some l" "put_obj p (l\<lparr>status := POSTED\<rparr>) h = Some h1"
    using assms by (auto simp: JacksLatch_post_def bind_eq_Some_conv)
  then have l1: "get_obj p h1 = Some (l\<lparr>status := POSTED\<rparr>)" by (simp add: get_put)
  then obtain h2 where h2: "put_obj p (l\<lparr>status := NOT_POSTED\<rparr>) h1 = Some h2"
    by (simp add: put_get)
  then have "get_obj p h2 = Some (l\<lparr>status := NOT_POSTED\<rparr>)" by (simp add: get_put)
  then have "JacksLatch_get [] p h2 = None"
    by (simp add: JacksLatch_get_def NOT_POSTED_def POSTED_def)
  with l1 h2 show ?thesis by (simp add: JacksLatch_get_def)
qed

section \<open>Threads\<close>

text \<open>
  Where a thread is: the next action of \<open>JacksLatch_get\<close> (\<open>G_\<close>) or \<open>JacksLatch_post\<close>
  (\<open>P_\<close>). \<open>G_sleep\<close> is inside \<open>pthread_cond_wait\<close> with the mutex released,
  \<open>G_woken\<close> is a waiter that wants the mutex back.
\<close>

datatype latch_pc =
    Idle
  | G_lock | G_test | G_sleep | G_woken | G_reset | G_signal | G_unlock
  | P_lock | P_set | P_signal | P_unlock

record 't latch_sys =
  flag :: int
  owner :: "'t option"
  pcs :: "'t \<Rightarrow> latch_pc"

definition goto :: "'t \<Rightarrow> latch_pc \<Rightarrow> 't latch_sys \<Rightarrow> 't latch_sys" where
  "goto t pc s = s\<lparr>pcs := (pcs s)(t := pc)\<rparr>"

definition sleepers :: "'t latch_sys \<Rightarrow> 't set" where
  "sleepers s = {t. pcs s t = G_sleep}"

text \<open>\<open>pthread_cond_signal\<close>: at least one of the waiters, if there is any.\<close>

definition signalled :: "'t latch_sys \<Rightarrow> 't set \<Rightarrow> bool" where
  "signalled s W \<longleftrightarrow> W \<subseteq> sleepers s \<and> (sleepers s \<noteq> {} \<longrightarrow> W \<noteq> {})"

definition wake :: "'t set \<Rightarrow> 't latch_sys \<Rightarrow> 't latch_sys" where
  "wake W s = s\<lparr>pcs := (\<lambda>t. if t \<in> W then G_woken else pcs s t)\<rparr>"

inductive latch_step :: "'t latch_sys \<Rightarrow> 't \<Rightarrow> 't latch_sys \<Rightarrow> bool" where
  call_get: "pcs s t = Idle \<Longrightarrow> latch_step s t (goto t G_lock s)"
| call_post: "pcs s t = Idle \<Longrightarrow> latch_step s t (goto t P_lock s)"
| get_lock: "pcs s t = G_lock \<Longrightarrow> owner s = None \<Longrightarrow> latch_step s t (goto t G_test (s\<lparr>owner := Some t\<rparr>))"
| get_wait: "pcs s t = G_test \<Longrightarrow> flag s \<noteq> POSTED \<Longrightarrow>
    latch_step s t (goto t G_sleep (s\<lparr>owner := None\<rparr>))"
| get_leave: "pcs s t = G_test \<Longrightarrow> flag s = POSTED \<Longrightarrow> latch_step s t (goto t G_reset s)"
| spurious: "pcs s t = G_sleep \<Longrightarrow> latch_step s t (goto t G_woken s)"
| get_relock: "pcs s t = G_woken \<Longrightarrow> owner s = None \<Longrightarrow>
    latch_step s t (goto t G_test (s\<lparr>owner := Some t\<rparr>))"
| get_reset: "pcs s t = G_reset \<Longrightarrow> latch_step s t (goto t G_signal (s\<lparr>flag := NOT_POSTED\<rparr>))"
| get_signal: "pcs s t = G_signal \<Longrightarrow> signalled s W \<Longrightarrow> latch_step s t (goto t G_unlock (wake W s))"
| get_unlock: "pcs s t = G_unlock \<Longrightarrow> latch_step s t (goto t Idle (s\<lparr>owner := None\<rparr>))"
| post_lock: "pcs s t = P_lock \<Longrightarrow> owner s = None \<Longrightarrow>
    latch_step s t (goto t P_set (s\<lparr>owner := Some t\<rparr>))"
| post_set: "pcs s t = P_set \<Longrightarrow> latch_step s t (goto t P_signal (s\<lparr>flag := POSTED\<rparr>))"
| post_signal: "pcs s t = P_signal \<Longrightarrow> signalled s W \<Longrightarrow> latch_step s t (goto t P_unlock (wake W s))"
| post_unlock: "pcs s t = P_unlock \<Longrightarrow> latch_step s t (goto t Idle (s\<lparr>owner := None\<rparr>))"

inductive_cases latch_stepE: "latch_step s t s'"

definition latch_init :: "'t latch_sys" where
  "latch_init = \<lparr>flag = NOT_POSTED, owner = None, pcs = (\<lambda>_. Idle)\<rparr>"

inductive latch_reachable :: "'t latch_sys \<Rightarrow> bool" where
  init: "latch_reachable latch_init"
| step: "latch_reachable s \<Longrightarrow> latch_step s t s' \<Longrightarrow> latch_reachable s'"

text \<open>The points between locking and unlocking.\<close>

fun holds_mutex :: "latch_pc \<Rightarrow> bool" where
  "holds_mutex Idle = False"
| "holds_mutex G_lock = False"
| "holds_mutex G_test = True"
| "holds_mutex G_sleep = False"
| "holds_mutex G_woken = False"
| "holds_mutex G_reset = True"
| "holds_mutex G_signal = True"
| "holds_mutex G_unlock = True"
| "holds_mutex P_lock = False"
| "holds_mutex P_set = True"
| "holds_mutex P_signal = True"
| "holds_mutex P_unlock = True"

text \<open>A thread that is about to see the flag, or about to signal that it is set.\<close>

definition attends :: "latch_pc \<Rightarrow> bool" where
  "attends pc \<longleftrightarrow> pc = G_woken \<or> pc = G_test \<or> pc = G_reset \<or> pc = P_signal"

definition mutex_inv :: "'t latch_sys \<Rightarrow> bool" where
  "mutex_inv s \<longleftrightarrow> (\<forall>t. holds_mutex (pcs s t) \<longleftrightarrow> owner s = Some t)"

definition flag_inv :: "'t latch_sys \<Rightarrow> bool" where
  "flag_inv s \<longleftrightarrow> (flag s = NOT_POSTED \<or> flag s = POSTED) \<and> (\<forall>t. pcs s t = G_reset \<longrightarrow> flag s = POSTED)"

definition wakeup_inv :: "'t latch_sys \<Rightarrow> bool" where
  "wakeup_inv s \<longleftrightarrow> (flag s = POSTED \<and> sleepers s \<noteq> {} \<longrightarrow> (\<exists>t. attends (pcs s t)))"

lemma pcs_goto [simp]:
  "pcs (goto t pc s) = (pcs s)(t := pc)"
  "flag (goto t pc s) = flag s" "owner (goto t pc s) = owner s"
  by (simp_all add: goto_def)

lemma wake_simps [simp]:
  "pcs (wake W s) = (\<lambda>u. if u \<in> W then G_woken else pcs s u)"
  "flag (wake W s) = flag s" "owner (wake W s) = owner s"
  by (simp_all add: wake_def)

lemma flag_values [simp]: "POSTED \<noteq> NOT_POSTED" "NOT_POSTED \<noteq> POSTED"
  by (simp_all add: POSTED_def NOT_POSTED_def)

lemma signalled_sleeps: "signalled s W \<Longrightarrow> u \<in> W \<Longrightarrow> pcs s u = G_sleep"
  by (auto simp: signalled_def sleepers_def)

lemma mutex_inv_goto:
  assumes "mutex_inv s" "holds_mutex (pcs s t)" "holds_mutex pc" "owner s' = owner s" "pcs s' = (pcs s)(t := pc)"
  shows "mutex_inv s'"
  using assms by (simp add: mutex_inv_def)

lemma mutex_inv_step:
  assumes "latch_step s t s'" "mutex_inv s"
  shows "mutex_inv s'"
proof -
  have me: "holds_mutex (pcs s u) \<longleftrightarrow> owner s = Some u" for u
    using assms(2) by (simp add: mutex_inv_def)
  note at = me [of t]
  have sig: "mutex_inv (goto t pc (wake W s))"
    if "signalled s W" "holds_mutex (pcs s t)" "holds_mutex pc" for W pc
    unfolding mutex_inv_def
  proof
    fix u
    show "holds_mutex (pcs (goto t pc (wake W s)) u) \<longleftrightarrow> owner (goto t pc (wake W s)) = Some u"
      using me [of u] at that signalled_sleeps [OF that(1), of u] by auto
  qed
  show ?thesis
    using assms(1)
  proof (cases rule: latch_step.cases)
    case (get_signal W)
    then show ?thesis using sig by simp
  next
    case (post_signal W)
    then show ?thesis using sig by simp
  qed (use me at in \<open>auto simp: mutex_inv_def\<close>)
qed

lemma flag_inv_step:
  assumes "latch_step s t s'" "mutex_inv s" "flag_inv s"
  shows "flag_inv s'"
proof -
  have only: "u = t" if "holds_mutex (pcs s u)" "holds_mutex (pcs s t)" for u
    using assms(2) that by (simp add: mutex_inv_def)
  show ?thesis
    using assms(1)
  proof (cases rule: latch_step.cases)
    case get_reset
    then have "pcs s u \<noteq> G_reset" if "u \<noteq> t" for u using only [of u] that by auto
    then show ?thesis using get_reset by (simp add: flag_inv_def)
  qed (use assms(3) in \<open>auto simp: flag_inv_def\<close>)
qed

lemma wakeup_inv_step:
  assumes "latch_step s t s'" "wakeup_inv s"
  shows "wakeup_inv s'"
proof -
  have keep: "wakeup_inv (goto t pc r)"
    if "flag r = flag s" "pcs r = pcs s" "pc \<noteq> G_sleep" "attends (pcs s t) \<longrightarrow> attends pc" for r pc
    unfolding wakeup_inv_def
  proof
    assume "flag (goto t pc r) = POSTED \<and> sleepers (goto t pc r) \<noteq> {}"
    then have "flag s = POSTED" "sleepers s \<noteq> {}"
      using that by (auto simp: sleepers_def split: if_splits)
    then obtain u where "attends (pcs s u)" using assms(2) by (auto simp: wakeup_inv_def)
    then show "\<exists>u. attends (pcs (goto t pc r) u)" using that by (intro exI [of _ u]) auto
  qed
  have sig: "wakeup_inv (goto t pc (wake W s))" if "signalled s W" "pcs s t \<noteq> G_sleep" "pc \<noteq> G_sleep" for W pc
  proof (cases "W = {}")
    case True
    then have "sleepers (goto t pc (wake W s)) = {}"
      using that by (auto simp: signalled_def sleepers_def)
    then show ?thesis by (simp add: wakeup_inv_def)
  next
    case False
    then obtain u where u: "u \<in> W" by blast
    with that have "u \<noteq> t" using signalled_sleeps by metis
    with u have "attends (pcs (goto t pc (wake W s)) u)" by (simp add: attends_def)
    then show ?thesis unfolding wakeup_inv_def by blast
  qed
  show ?thesis
    using assms(1)
  proof (cases rule: latch_step.cases)
    case (get_signal W)
    then show ?thesis using sig by simp
  next
    case (post_signal W)
    then show ?thesis using sig by simp
  next
    case get_wait
    then show ?thesis by (simp add: wakeup_inv_def)
  next
    case get_reset
    then show ?thesis by (simp add: wakeup_inv_def)
  next
    case post_set
    then show ?thesis by (auto simp: wakeup_inv_def attends_def)
  qed (simp, rule keep; simp add: attends_def)+
qed

lemma latch_reachable_inv:
  "latch_reachable s \<Longrightarrow> mutex_inv s \<and> flag_inv s \<and> wakeup_inv s"
proof (induction rule: latch_reachable.induct)
  case init
  show ?case
    by (simp add: mutex_inv_def flag_inv_def wakeup_inv_def latch_init_def)
next
  case (step s t s')
  then show ?case
    using mutex_inv_step [OF step(2)] flag_inv_step [OF step(2)] wakeup_inv_step [OF step(2)] by simp
qed

text \<open>The latch never gets stuck with the flag set: some thread can go on without a new call.\<close>

fun outside :: "latch_pc \<Rightarrow> bool" where
  "outside Idle = True"
| "outside G_sleep = True"
| "outside _ = False"

lemma awake_moves:
  assumes "\<not> outside (pcs s t)" "holds_mutex (pcs s t) \<or> owner s = None"
  shows "\<exists>s'. latch_step s t s'"
proof -
  have sig: "signalled s (sleepers s)" by (simp add: signalled_def)
  show ?thesis
  proof (cases "pcs s t")
    case G_lock
    with assms(2) have "owner s = None" by simp
    with G_lock show ?thesis by (intro exI) (rule get_lock)
  next
    case G_test
    then show ?thesis
      by (cases "flag s = POSTED") (intro exI, rule get_leave, simp_all, intro exI, rule get_wait)
  next
    case G_woken
    with assms(2) have "owner s = None" by simp
    with G_woken show ?thesis by (intro exI) (rule get_relock)
  next
    case G_reset then show ?thesis by (intro exI) (rule get_reset)
  next
    case G_signal then show ?thesis by (intro exI) (rule get_signal [OF _ sig])
  next
    case G_unlock then show ?thesis by (intro exI) (rule get_unlock)
  next
    case P_lock
    with assms(2) have "owner s = None" by simp
    with P_lock show ?thesis by (intro exI) (rule post_lock)
  next
    case P_set then show ?thesis by (intro exI) (rule post_set)
  next
    case P_signal then show ?thesis by (intro exI) (rule post_signal [OF _ sig])
  next
    case P_unlock then show ?thesis by (intro exI) (rule post_unlock)
  qed (use assms(1) in simp_all)
qed

lemma latch_progress:
  assumes "latch_reachable s" "\<not> outside (pcs s t)"
  shows "\<exists>u s'. \<not> outside (pcs s u) \<and> latch_step s u s'"
proof (cases "owner s")
  case None
  with awake_moves [of s t] assms(2) show ?thesis by blast
next
  case (Some u)
  then have u: "holds_mutex (pcs s u)"
    using latch_reachable_inv [OF assms(1)] by (simp add: mutex_inv_def)
  then have "\<not> outside (pcs s u)" by (cases "pcs s u") simp_all
  with u awake_moves [of s u] show ?thesis by blast
qed

section \<open>The atomic latch\<close>

text \<open>
  What a client of the latch sees of a step: a post sets the flag, a get takes it when it is
  set. Every other step leaves the flag alone.
\<close>

datatype latch_event = Silent | Posted | Taken

inductive atomic_latch :: "int \<Rightarrow> latch_event \<Rightarrow> int \<Rightarrow> bool" where
  silent: "atomic_latch f Silent f"
| posted: "atomic_latch f Posted POSTED"
| taken: "atomic_latch POSTED Taken NOT_POSTED"

inductive_simps atomic_latch_simps: "atomic_latch f e f'"

definition observe :: "'t latch_sys \<Rightarrow> 't \<Rightarrow> latch_event" where
  "observe s t = (case pcs s t of P_set \<Rightarrow> Posted | G_reset \<Rightarrow> Taken | _ \<Rightarrow> Silent)"

lemma latch_step_atomic:
  assumes "latch_step s t s'" "latch_reachable s"
  shows "atomic_latch (flag s) (observe s t) (flag s')"
  using assms(1) latch_reachable_inv [OF assms(2)]
  by (cases rule: latch_step.cases)
    (auto simp: observe_def flag_inv_def intro: atomic_latch.intros split: if_splits)

text \<open>Runs: the events of a run, and how often a get can have succeeded.\<close>

inductive latch_run :: "'t latch_sys \<Rightarrow> latch_event list \<Rightarrow> 't latch_sys \<Rightarrow> bool" where
  run_nil: "latch_run s [] s"
| run_step: "latch_run s es s' \<Longrightarrow> latch_step s' t s'' \<Longrightarrow> latch_run s (es @ [observe s' t]) s''"

lemma latch_run_reachable: "latch_run s es s' \<Longrightarrow> latch_reachable s \<Longrightarrow> latch_reachable s'"
  by (induction rule: latch_run.induct) (auto intro: latch_reachable.step)

lemma latch_run_counts:
  assumes "latch_run s es s'" "latch_reachable s" "flag s = NOT_POSTED"
  shows "count_list es Taken + (if flag s' = POSTED then 1 else 0) \<le> count_list es Posted"
  using assms
proof (induction rule: latch_run.induct)
  case (run_step s es s' t s'')
  have "latch_reachable s'" by (rule latch_run_reachable [OF run_step.hyps(1) run_step.prems(1)])
  then have "atomic_latch (flag s') (observe s' t) (flag s'')"
    by (rule latch_step_atomic [OF run_step.hyps(2)])
  with run_step.IH [OF run_step.prems] show ?case
    by (auto simp: atomic_latch_simps split: if_splits)
qed simp

end
