(* ===== verification/Port.thy ===== *)
theory Port
  imports Store
begin

text \<open>
  Ports (\<open>corelib/JacksRbPort.c\<close>): each owns a JACK ring buffer that the process callback
  writes and the script reads, a byte buffer the samples are read into, and two socket pairs
  for latency notifications.

  The JACK and system calls are arguments. \<open>ringbuffer_api\<close> is the ring buffer of
  \<open>jack/ringbuffer.h\<close>, \<open>ringbuffer_ok\<close> its documented behaviour: a bounded FIFO
  of bytes whose write and read transfer as many bytes as fit. The results of
  \<open>socketpair\<close> and \<open>jack_set_latency_callback\<close> are given per call; the latter
  replaces the one callback of the client when it succeeds.
\<close>

section \<open>Parameters\<close>

record 'rb ringbuffer_api =
  rb_create :: "u64 \<Rightarrow> 'rb option"
  rb_write :: "'rb \<Rightarrow> u8 list \<Rightarrow> u64 \<Rightarrow> u64 \<times> 'rb"
  rb_read_space :: "'rb \<Rightarrow> u64"
  rb_read :: "'rb \<Rightarrow> u64 \<Rightarrow> u8 list \<times> 'rb"

text \<open>
  \<open>bytes\<close> are the unread bytes, \<open>cap\<close> how many fit. The size asked for is rounded up
  and one byte stays unused.
\<close>

definition ringbuffer_ok :: "'rb ringbuffer_api \<Rightarrow> ('rb \<Rightarrow> u8 list) \<Rightarrow> ('rb \<Rightarrow> nat) \<Rightarrow> bool" where
  "ringbuffer_ok api bytes cap \<longleftrightarrow>
     (\<forall>n rb. rb_create api n = Some rb \<longrightarrow> bytes rb = [] \<and> unat n \<le> Suc (cap rb)) \<and>
     (\<forall>rb. length (bytes rb) \<le> cap rb \<and> cap rb < 2 ^ 64 \<and>
        rb_read_space api rb = of_nat (length (bytes rb))) \<and>
     (\<forall>rb data n. unat n \<le> length data \<longrightarrow>
        (let k = min (unat n) (cap rb - length (bytes rb)); (w, rb') = rb_write api rb data n
         in w = of_nat k \<and> bytes rb' = bytes rb @ take k data \<and> cap rb' = cap rb)) \<and>
     (\<forall>rb n.
        (let (out, rb') = rb_read api rb n
         in out = take (unat n) (bytes rb) \<and> bytes rb' = drop (unat n) (bytes rb) \<and> cap rb' = cap rb))"

section \<open>State\<close>

record 'rb port_T =
  playback_lat_cb_fd :: "int \<times> int"
  capture_lat_cb_fd :: "int \<times> int"
  lat_cb_is_init :: bool
  port_rb_size :: u32
  jport :: ptr
  jackclient :: ptr
  rb :: "'rb option"
  framebuf :: "u8 list option"
  overruns :: int

definition jacks_sample_size :: u64 where
  "jacks_sample_size = 4"

text \<open>What fresh memory holds: the bytes of the buffer and the uninitialised counter.\<close>

record indeterminate =
  junk_byte :: "nat \<Rightarrow> u8"
  junk_int :: int

definition malloc_bytes :: "indeterminate \<Rightarrow> nat \<Rightarrow> 'a store \<Rightarrow> u8 list option \<times> 'a store" where
  "malloc_bytes junk n h =
     (if alloc_ok h (alloc_calls h) then Some (map (junk_byte junk) [0..<n]) else None,
      h\<lparr>alloc_calls := Suc (alloc_calls h)\<rparr>)"

section \<open>Construction and destruction\<close>

definition JacksRbPort_new ::
  "'rb ringbuffer_api \<Rightarrow> indeterminate \<Rightarrow> ptr \<Rightarrow> ptr \<Rightarrow> u32 \<Rightarrow> 'rb port_T store \<Rightarrow>
     (ptr \<times> 'rb port_T store) option" where
  "JacksRbPort_new api junk jp jackclientp rbs h =
     (let (this, h) = new_obj \<lparr>playback_lat_cb_fd = (0, 0), capture_lat_cb_fd = (0, 0),
            lat_cb_is_init = False, port_rb_size = rbs, jport = jp, jackclient = jackclientp,
            rb = None, framebuf = None, overruns = junk_int junk\<rparr> h
      in if this = NULL then Some (NULL, h)
         else (let (buf, h) = malloc_bytes junk (unat rbs) h;
                   ring = rb_create api (jacks_sample_size * ucast rbs)
               in do {
                 p \<leftarrow> get_obj this h;
                 h \<leftarrow> put_obj this (p\<lparr>framebuf := buf, rb := ring\<rparr>) h;
                 Some (this, h)
               }))"

text \<open>\<open>jack_port_register\<close> is an argument: client, name and options to a port or \<open>NULL\<close>.\<close>

definition JacksRbPort_new_port ::
  "'rb ringbuffer_api \<Rightarrow> (ptr \<Rightarrow> string \<Rightarrow> u64 \<Rightarrow> ptr) \<Rightarrow> (ptr \<Rightarrow> ptr option) \<Rightarrow> indeterminate \<Rightarrow>
     string \<Rightarrow> u64 \<Rightarrow> ptr \<Rightarrow> u32 \<Rightarrow> 'rb port_T store \<Rightarrow> (ptr \<times> 'rb port_T store) option" where
  "JacksRbPort_new_port api port_register get_client junk name options jackclientp rbs h = do {
     client \<leftarrow> get_client jackclientp;
     let jp = port_register client name options
     in JacksRbPort_new api junk jp jackclientp rbs h
   }"

definition JacksRbPort_free :: "ptr option \<Rightarrow> 'rb port_T store \<Rightarrow> 'rb port_T store option" where
  "JacksRbPort_free this_p h = do {
     _ \<leftarrow> c_assert (this_p \<noteq> None \<and> this_p \<noteq> Some NULL);
     this \<leftarrow> this_p;
     free_obj this h
   }"

definition JacksRbPort_get_port :: "ptr \<Rightarrow> 'rb port_T store \<Rightarrow> ptr option" where
  "JacksRbPort_get_port this h = map_option jport (get_obj this h)"

definition JacksRbPort_connect ::
  "(ptr \<Rightarrow> string \<Rightarrow> string \<Rightarrow> int) \<Rightarrow> (ptr \<Rightarrow> string) \<Rightarrow> (ptr \<Rightarrow> ptr option) \<Rightarrow>
     ptr \<Rightarrow> ptr \<Rightarrow> 'rb port_T store \<Rightarrow> int option" where
  "JacksRbPort_connect connect port_name get_client this that h = do {
     p \<leftarrow> get_obj this h;
     client \<leftarrow> get_client (jackclient p);
     q \<leftarrow> get_obj that h;
     Some (if connect client (port_name (jport p)) (port_name (jport q)) \<noteq> 0 then - 1 else 0)
   }"

section \<open>Samples\<close>

text \<open>Signed overflow of the counter is undefined.\<close>

definition int_incr :: "int \<Rightarrow> int option" where
  "int_incr n = (if n < 2 ^ 31 - 1 then Some (n + 1) else None)"

text \<open>\<open>buff\<close>: the bytes of the buffer \<open>jack_port_get_buffer\<close> returns for \<open>nframes\<close>.\<close>

definition JacksRbPort_write_to_ringbuffer ::
  "'rb ringbuffer_api \<Rightarrow> u8 list \<Rightarrow> ptr \<Rightarrow> u32 \<Rightarrow> 'rb port_T store \<Rightarrow>
     (int \<times> 'rb port_T store) option" where
  "JacksRbPort_write_to_ringbuffer api buff this nframes h = do {
     p \<leftarrow> get_obj this h;
     ring \<leftarrow> rb p;
     let write_size = jacks_sample_size * ucast nframes;
         (written, ring) = rb_write api ring buff write_size;
         p = p\<lparr>rb := Some ring\<rparr>
     in if written < write_size
        then do {
          n \<leftarrow> int_incr (overruns p);
          h \<leftarrow> put_obj this (p\<lparr>overruns := n\<rparr>) h;
          Some (- 1, h)
        }
        else do {
          h \<leftarrow> put_obj this p h;
          Some (0, h)
        }
   }"

text \<open>
  Result: the buffer that is returned, \<open>*len\<close>, the store. A read of more bytes than the
  buffer has room for is undefined.
\<close>

definition JacksRbPort_read_from_ringbuffer ::
  "'rb ringbuffer_api \<Rightarrow> ptr \<Rightarrow> 'rb port_T store \<Rightarrow>
     (u8 list option \<times> int \<times> 'rb port_T store) option" where
  "JacksRbPort_read_from_ringbuffer api this h = do {
     p \<leftarrow> get_obj this h;
     ring \<leftarrow> rb p;
     let avail = rb_read_space api ring;
         limit = ucast (port_rb_size p) :: u64;
         blen = (if avail < limit then avail else limit);
         (out, ring) = rb_read api ring blen
     in do {
       buf \<leftarrow> (if blen = 0 then Some (framebuf p)
              else do {
                buf \<leftarrow> framebuf p;
                _ \<leftarrow> c_assert (unat blen \<le> length buf);
                Some (Some (out @ drop (length out) buf))
              });
       h \<leftarrow> put_obj this (p\<lparr>rb := Some ring, framebuf := buf\<rparr>) h;
       Some (buf, sint (ucast blen :: u32), h)
     }
   }"

section \<open>Latency notifications\<close>

datatype latency_callback = Latency_listener_fd | Latency_listener

text \<open>What the port does outside its own structure.\<close>

record port_world =
  latency_cb :: "(latency_callback \<times> ptr) option"
  written :: "(int \<times> char) list"
  signals :: nat

definition jack_set_latency_callback ::
  "int \<Rightarrow> latency_callback \<Rightarrow> ptr \<Rightarrow> port_world \<Rightarrow> int \<times> port_world" where
  "jack_set_latency_callback rc cb arg w =
     (rc, if rc = 0 then w\<lparr>latency_cb := Some (cb, arg)\<rparr> else w)"

definition JackCaptureLatency :: int where "JackCaptureLatency = 0"
definition JackPlaybackLatency :: int where "JackPlaybackLatency = 1"

definition latency_listener_fd ::
  "int \<Rightarrow> ptr \<Rightarrow> 'rb port_T store \<Rightarrow> port_world \<Rightarrow> port_world option" where
  "latency_listener_fd mode arg h w = do {
     p \<leftarrow> get_obj arg h;
     Some (if mode = JackCaptureLatency
           then (if fst (capture_lat_cb_fd p) \<noteq> 0
                 then w\<lparr>written := written w @ [(fst (capture_lat_cb_fd p), CHR ''b'')]\<rparr> else w)
           else if mode = JackPlaybackLatency
           then (if fst (playback_lat_cb_fd p) \<noteq> 0
                 then w\<lparr>written := written w @ [(fst (playback_lat_cb_fd p), CHR ''b'')]\<rparr> else w)
           else w)
   }"

text \<open>\<open>raise(SIGUSR2)\<close>.\<close>

definition latency_listener :: "int \<Rightarrow> ptr \<Rightarrow> port_world \<Rightarrow> port_world" where
  "latency_listener mode arg w = w\<lparr>signals := Suc (signals w)\<rparr>"

definition JacksRbPort_wakeup_latency_callbacks ::
  "ptr \<Rightarrow> 'rb port_T store \<Rightarrow> port_world \<Rightarrow> port_world option" where
  "JacksRbPort_wakeup_latency_callbacks this h w = do {
     w \<leftarrow> latency_listener_fd JackPlaybackLatency this h w;
     latency_listener_fd JackCaptureLatency this h w
   }"

definition JacksRbPort_wakeup_sig_latency_cb :: "ptr \<Rightarrow> port_world \<Rightarrow> port_world" where
  "JacksRbPort_wakeup_sig_latency_cb this w = latency_listener 0 this w"

definition register_lat_cb ::
  "int \<Rightarrow> ptr \<Rightarrow> 'rb port_T store \<Rightarrow> port_world \<Rightarrow> (int \<times> 'rb port_T store \<times> port_world) option" where
  "register_lat_cb set_rc this h w = do {
     p \<leftarrow> get_obj this h;
     let (rc, w) = jack_set_latency_callback set_rc Latency_listener_fd this w
     in if rc \<noteq> 0 then Some (rc, h, w)
        else do {
          h \<leftarrow> put_obj this (p\<lparr>lat_cb_is_init := True\<rparr>) h;
          Some (rc, h, w)
        }
   }"

text \<open>\<open>sp\<close>: the result of \<open>socketpair\<close> and what it leaves in the array.\<close>

definition JacksRbPort_init_capture_latency_listener ::
  "int \<times> (int \<times> int) \<Rightarrow> int \<Rightarrow> ptr \<Rightarrow> 'rb port_T store \<Rightarrow> port_world \<Rightarrow>
     (int \<times> 'rb port_T store \<times> port_world) option" where
  "JacksRbPort_init_capture_latency_listener sp set_rc this h w = do {
     p \<leftarrow> get_obj this h;
     if snd (capture_lat_cb_fd p) \<noteq> 0 then Some (snd (capture_lat_cb_fd p), h, w)
     else do {
       h \<leftarrow> put_obj this (p\<lparr>capture_lat_cb_fd := snd sp\<rparr>) h;
       if fst sp \<noteq> 0 then Some (- 1, h, w)
       else do {
         (failed, h, w) \<leftarrow>
           (if lat_cb_is_init p then Some (False, h, w)
            else do {
              (rc, h, w) \<leftarrow> register_lat_cb set_rc this h w;
              Some (rc \<noteq> 0, h, w)
            });
         Some (if failed then - 1 else snd (snd sp), h, w)
       }
     }
   }"

definition JacksRbPort_init_playback_latency_listener ::
  "int \<times> (int \<times> int) \<Rightarrow> int \<Rightarrow> ptr \<Rightarrow> 'rb port_T store \<Rightarrow> port_world \<Rightarrow>
     (int \<times> 'rb port_T store \<times> port_world) option" where
  "JacksRbPort_init_playback_latency_listener sp set_rc this h w = do {
     p \<leftarrow> get_obj this h;
     if snd (playback_lat_cb_fd p) \<noteq> 0 then Some (snd (playback_lat_cb_fd p), h, w)
     else do {
       h \<leftarrow> put_obj this (p\<lparr>playback_lat_cb_fd := snd sp\<rparr>) h;
       if fst sp \<noteq> 0 then Some (- 1, h, w)
       else do {
         (failed, h, w) \<leftarrow>
           (if lat_cb_is_init p then Some (False, h, w)
            else do {
              (rc, h, w) \<leftarrow> register_lat_cb set_rc this h w;
              Some (rc \<noteq> 0, h, w)
            });
         Some (if failed then - 1 else snd (snd sp), h, w)
       }
     }
   }"

definition JacksRbPort_init_latency_listener ::
  "int \<Rightarrow> ptr \<Rightarrow> 'rb port_T store \<Rightarrow> port_world \<Rightarrow> (int \<times> port_world) option" where
  "JacksRbPort_init_latency_listener set_rc this h w = do {
     _ \<leftarrow> get_obj this h;
     let (rc, w) = jack_set_latency_callback set_rc Latency_listener this w
     in Some (if rc \<noteq> 0 then - 1 else 0, w)
   }"

end
