(* ===== verification/Port_Correct.thy ===== *)
theory Port_Correct
  imports Port
begin

text \<open>
  Correctness of the ports over any ring buffer with the documented behaviour: a port is a
  bounded byte queue, whatever the order of process cycles and reads; what an overrun does to
  it; memory safety of the sample buffer; and the behaviour of the latency listeners.
\<close>

section \<open>The ring buffer\<close>

lemma ring_create:
  "ringbuffer_ok api bytes cap \<Longrightarrow> rb_create api n = Some ring \<Longrightarrow> bytes ring = [] \<and> unat n \<le> Suc (cap ring)"
  unfolding ringbuffer_ok_def by blast

lemma ring_bounds:
  assumes "ringbuffer_ok api bytes cap"
  shows "length (bytes ring) \<le> cap ring" "cap ring < 2 ^ 64"
    "rb_read_space api ring = of_nat (length (bytes ring))"
    "unat (rb_read_space api ring) = length (bytes ring)"
proof -
  show b: "length (bytes ring) \<le> cap ring" "cap ring < 2 ^ 64"
    "rb_read_space api ring = of_nat (length (bytes ring))"
    using assms unfolding ringbuffer_ok_def by blast+
  show "unat (rb_read_space api ring) = length (bytes ring)"
    by (rule of_nat_inverse [OF b(3) [symmetric]]) (use b(1,2) in simp)
qed

lemma ring_write:
  assumes "ringbuffer_ok api bytes cap" "unat n \<le> length data"
  obtains ring' where "rb_write api ring data n = (of_nat (min (unat n) (cap ring - length (bytes ring))), ring')"
    "bytes ring' = bytes ring @ take (min (unat n) (cap ring - length (bytes ring))) data"
    "cap ring' = cap ring"
  using assms unfolding ringbuffer_ok_def Let_def
  by (cases "rb_write api ring data n") (auto split: prod.splits)

lemma ring_read:
  assumes "ringbuffer_ok api bytes cap"
  obtains ring' where "rb_read api ring n = (take (unat n) (bytes ring), ring')"
    "bytes ring' = drop (unat n) (bytes ring)" "cap ring' = cap ring"
  using assms unfolding ringbuffer_ok_def Let_def
  by (cases "rb_read api ring n") (auto split: prod.splits)

lemma sample_bytes: "unat (jacks_sample_size * ucast (n :: u32) :: u64) = 4 * unat n"
proof -
  have "unat n < 2 ^ 32" using unsigned_less [of n] by simp
  then show ?thesis
    by (simp add: jacks_sample_size_def unat_word_ariths unsigned_ucast_eq take_bit_nat_eq_self)
qed

section \<open>The representation\<close>

text \<open>
  \<open>c\<close> is the capacity in bytes, \<open>s\<close> the size of the sample buffer, \<open>n\<close> the
  overrun counter and \<open>q\<close> the bytes in flight.
\<close>

definition port_rep ::
  "('rb \<Rightarrow> u8 list) \<Rightarrow> ('rb \<Rightarrow> nat) \<Rightarrow> ptr \<Rightarrow> 'rb port_T store \<Rightarrow> nat \<Rightarrow> u32 \<Rightarrow> int \<Rightarrow> u8 list \<Rightarrow> bool"
where
  "port_rep bytes cap this h c s n q \<longleftrightarrow>
     (\<exists>p ring buf. get_obj this h = Some p \<and> rb p = Some ring \<and> framebuf p = Some buf \<and>
        length buf = unat s \<and> port_rb_size p = s \<and> overruns p = n \<and> bytes ring = q \<and> cap ring = c)"

lemma port_repI:
  assumes "get_obj this h = Some p" "put_obj this p' h = Some h'" "rb p' = Some ring"
    "framebuf p' = Some buf" "length buf = unat s" "port_rb_size p' = s" "overruns p' = n"
    "bytes ring = q" "cap ring = c"
  shows "port_rep bytes cap this h' c s n q"
  using assms by (auto simp: port_rep_def get_put)

lemma port_repE:
  assumes "port_rep bytes cap this h c s n q"
  obtains p ring buf where "get_obj this h = Some p" "rb p = Some ring" "framebuf p = Some buf"
    "length buf = unat s" "port_rb_size p = s" "overruns p = n" "bytes ring = q" "cap ring = c"
  using assms unfolding port_rep_def by blast

lemma port_rep_other:
  assumes "port_rep bytes cap this h c s n q" "get_obj this h' = get_obj this h"
  shows "port_rep bytes cap this h' c s n q"
  using assms by (simp add: port_rep_def)

lemma port_bounds:
  assumes "ringbuffer_ok api bytes cap" "port_rep bytes cap this h c s n q"
  shows "length q \<le> c"
  using assms ring_bounds(1) by (auto elim!: port_repE)

lemma port_new_rep:
  assumes ok: "ringbuffer_ok api bytes cap" and mem: "alloc_ok h (alloc_calls h)" "alloc_ok h (Suc (alloc_calls h))"
    and create: "rb_create api (jacks_sample_size * ucast s) = Some ring"
  shows "\<exists>this h'. JacksRbPort_new api junk jp client s h = Some (this, h') \<and> this \<noteq> NULL \<and>
    JacksRbPort_get_port this h' = Some jp \<and>
    port_rep bytes cap this h' (cap ring) s (junk_int junk) [] \<and> 4 * unat s \<le> Suc (cap ring)"
proof -
  let ?p = "\<lparr>playback_lat_cb_fd = (0, 0), capture_lat_cb_fd = (0, 0), lat_cb_is_init = False,
    port_rb_size = s, jport = jp, jackclient = client, rb = Some ring,
    framebuf = Some (map (junk_byte junk) [0..<unat s]), overruns = junk_int junk\<rparr>"
  have "\<exists>h'. JacksRbPort_new api junk jp client s h = Some (Some (next_addr h), h') \<and>
      get_obj (Some (next_addr h)) h' = Some ?p"
    using mem create by (simp add: JacksRbPort_new_def new_obj_def malloc_bytes_def put_obj_def Let_def)
  then obtain h' where h': "JacksRbPort_new api junk jp client s h = Some (Some (next_addr h), h')"
    "get_obj (Some (next_addr h)) h' = Some ?p" by blast
  moreover have "port_rep bytes cap (Some (next_addr h)) h' (cap ring) s (junk_int junk) []"
    using h'(2) ring_create [OF ok create] by (simp add: port_rep_def)
  ultimately show ?thesis
    using ring_create [OF ok create] by (simp add: JacksRbPort_get_port_def sample_bytes)
qed

section \<open>One process cycle, one read\<close>

lemma port_write:
  assumes ok: "ringbuffer_ok api bytes cap" and rep: "port_rep bytes cap this h c s n q"
    and buff: "length buff = 4 * unat nframes"
    and room: "length q + length buff \<le> c \<or> n < 2 ^ 31 - 1"
  obtains h' where "JacksRbPort_write_to_ringbuffer api buff this nframes h =
      Some (if length q + length buff \<le> c then 0 else - 1, h')"
    "port_rep bytes cap this h' c s (if length q + length buff \<le> c then n else n + 1)
       (q @ take (c - length q) buff)"
    "\<And>r. r \<noteq> this \<Longrightarrow> get_obj r h' = get_obj r h"
proof -
  obtain p ring buf where p: "get_obj this h = Some p" "rb p = Some ring" "framebuf p = Some buf"
    "length buf = unat s" "port_rb_size p = s" "overruns p = n" "bytes ring = q" "cap ring = c"
    using rep port_repE by blast
  let ?n = "jacks_sample_size * ucast nframes :: u64" and ?k = "min (length buff) (c - length q)"
  have nn: "unat ?n = length buff" by (simp add: sample_bytes buff)
  obtain ring' where w0: "rb_write api ring buff ?n = (of_nat ?k, ring')"
    "bytes ring' = q @ take ?k buff" "cap ring' = c"
    by (rule ring_write [OF ok, of ?n buff ring, unfolded nn p(7,8), OF order_refl]) (rule that)
  have w: "rb_write api ring buff ?n = (of_nat ?k, ring')"
    "bytes ring' = q @ take (c - length q) buff" "cap ring' = c"
    using w0 by (simp_all add: min_def)
  have qc: "length q \<le> c" using port_bounds [OF ok rep] .
  have k: "unat (of_nat ?k :: u64) = ?k"
    by (rule of_nat_inverse [OF refl], rule le_less_trans [of _ c])
      (use ring_bounds(2) [OF ok, of ring] p(8) in auto)
  then have short: "of_nat ?k < ?n \<longleftrightarrow> \<not> length q + length buff \<le> c"
    using buff qc by (auto simp: word_less_nat_alt sample_bytes)
  define p' where "p' = (if length q + length buff \<le> c then p\<lparr>rb := Some ring'\<rparr>
    else p\<lparr>rb := Some ring', overruns := n + 1\<rparr>)"
  obtain h' where put: "put_obj this p' h = Some h'" using put_get [OF p(1)] by blast
  show thesis
  proof (rule that)
    show "JacksRbPort_write_to_ringbuffer api buff this nframes h =
        Some (if length q + length buff \<le> c then 0 else - 1, h')"
      using p w(1) short put room
      by (auto simp: JacksRbPort_write_to_ringbuffer_def Let_def int_incr_def p'_def)
    show "port_rep bytes cap this h' c s (if length q + length buff \<le> c then n else n + 1)
       (q @ take (c - length q) buff)"
      by (rule port_repI [OF p(1) put, of ring' buf]) (use p w in \<open>auto simp: p'_def\<close>)
    show "\<And>r. r \<noteq> this \<Longrightarrow> get_obj r h' = get_obj r h" using get_put [OF put] by simp
  qed
qed

lemma port_read:
  assumes ok: "ringbuffer_ok api bytes cap" and rep: "port_rep bytes cap this h c s n q"
    and small: "unat s < 2 ^ 31"
  obtains buf h' where "JacksRbPort_read_from_ringbuffer api this h =
      Some (Some buf, int (min (length q) (unat s)), h')"
    "take (min (length q) (unat s)) buf = take (unat s) q" "length buf = unat s"
    "port_rep bytes cap this h' c s n (drop (unat s) q)"
    "\<And>r. r \<noteq> this \<Longrightarrow> get_obj r h' = get_obj r h"
proof -
  obtain p ring buf where p: "get_obj this h = Some p" "rb p = Some ring" "framebuf p = Some buf"
    "length buf = unat s" "port_rb_size p = s" "overruns p = n" "bytes ring = q" "cap ring = c"
    using rep port_repE by blast
  let ?avail = "rb_read_space api ring" and ?limit = "ucast s :: u64"
  define b where "b = (if ?avail < ?limit then ?avail else ?limit)"
  have limit: "unat ?limit = unat s" by (simp add: unsigned_ucast_eq take_bit_nat_eq_self
        order_less_trans [OF unsigned_less [of s]])
  have b: "unat b = min (length q) (unat s)"
    using ring_bounds(4) [OF ok, of ring] p(7) limit by (simp add: b_def word_less_nat_alt)
  have b': "(if ?avail < ucast (port_rb_size p) then ?avail else ucast (port_rb_size p)) = b"
    by (simp only: b_def p(5))
  obtain ring' where r: "rb_read api ring b = (take (unat s) q, ring')"
    "bytes ring' = drop (unat s) q" "cap ring' = c"
  proof -
    have eqs: "take (unat b) q = take (unat s) q" "drop (unat b) q = drop (unat s) q"
      by (simp_all add: b min_def)
    from ring_read [OF ok, of ring b, unfolded p(7,8) eqs] that show thesis by blast
  qed
  define buf' where "buf' = take (unat s) q @ drop (length (take (unat s) q)) buf"
  have fold: "take (unat s) q @ drop (min (length q) (unat s)) buf = buf'" by (simp add: buf'_def)
  have buf': "length buf' = unat s" "take (min (length q) (unat s)) buf' = take (unat s) q"
    using p(4) by (auto simp: buf'_def min_def)
  obtain h' where put: "put_obj this (p\<lparr>rb := Some ring', framebuf := Some buf'\<rparr>) h = Some h'"
    using put_get [OF p(1)] by blast
  have zero: "buf' = buf" if "b = 0"
    using that b by (auto simp: buf'_def min_def split: if_splits)
  have len: "sint (ucast b :: u32) = int (min (length q) (unat s))"
  proof -
    have "unat (ucast b :: u32) = min (length q) (unat s)"
      unfolding unsigned_ucast_eq b using small by (simp add: take_bit_nat_eq_self min_less_iff_disj)
    then have "uint (ucast b :: u32) = int (min (length q) (unat s))" by (metis uint_nat)
    moreover have "int (min (length q) (unat s)) < 2 ^ 31" using small by simp
    ultimately show ?thesis by (simp add: sint_uint signed_take_bit_int_eq_self)
  qed
  show thesis
  proof (rule that)
    show "JacksRbPort_read_from_ringbuffer api this h =
      Some (Some buf', int (min (length q) (unat s)), h')"
      using p(1-4) r(1) put zero len b
      by (cases "b = 0") (simp_all add: JacksRbPort_read_from_ringbuffer_def Let_def
          b' fold split del: if_split)
    show "port_rep bytes cap this h' c s n (drop (unat s) q)"
      by (rule port_repI [OF p(1) put, of ring' buf']) (use p r buf' in auto)
    show "\<And>r. r \<noteq> this \<Longrightarrow> get_obj r h' = get_obj r h" using get_put [OF put] by simp
  qed (use buf' in auto)
qed

section \<open>Any order of process cycles and reads\<close>

text \<open>
  What the callback thread and the script do to one port: a cycle hands over the bytes of the
  JACK buffer, a fetch reads. The observable result is the return code, or the bytes
  delivered with \<open>*len\<close>.
\<close>

datatype port_op = Cycle "u8 list" | Fetch

datatype port_out = Wrote int | Got int "u8 list"

fun run_port ::
  "'rb ringbuffer_api \<Rightarrow> ptr \<Rightarrow> port_op list \<Rightarrow> 'rb port_T store \<Rightarrow> (port_out list \<times> 'rb port_T store) option"
where
  "run_port api this [] h = Some ([], h)"
| "run_port api this (Cycle buff # ops) h = do {
     (rc, h) \<leftarrow> JacksRbPort_write_to_ringbuffer api buff this (of_nat (length buff div 4)) h;
     (outs, h) \<leftarrow> run_port api this ops h;
     Some (Wrote rc # outs, h)
   }"
| "run_port api this (Fetch # ops) h = do {
     (buf, len, h) \<leftarrow> JacksRbPort_read_from_ringbuffer api this h;
     buf \<leftarrow> buf;
     (outs, h) \<leftarrow> run_port api this ops h;
     Some (Got len (take (nat len) buf) # outs, h)
   }"

text \<open>The specification: a byte queue with room for \<open>c\<close>, read \<open>s\<close> bytes at most at a time.\<close>

fun run_bytes :: "nat \<Rightarrow> nat \<Rightarrow> port_op list \<Rightarrow> u8 list \<Rightarrow> port_out list \<times> u8 list" where
  "run_bytes c s [] q = ([], q)"
| "run_bytes c s (Cycle buff # ops) q =
     (let (outs, q') = run_bytes c s ops (q @ take (c - length q) buff)
      in (Wrote (if length q + length buff \<le> c then 0 else - 1) # outs, q'))"
| "run_bytes c s (Fetch # ops) q =
     (let (outs, q') = run_bytes c s ops (drop s q)
      in (Got (int (min (length q) s)) (take s q) # outs, q'))"

fun whole_samples :: "port_op \<Rightarrow> bool" where
  "whole_samples (Cycle buff) = (length buff mod 4 = 0 \<and> length buff < 2 ^ 34)"
| "whole_samples Fetch = True"

lemma run_port_bytes:
  assumes ok: "ringbuffer_ok api bytes cap" and small: "unat s < 2 ^ 31"
  shows "port_rep bytes cap this h c s n q \<Longrightarrow> \<forall>x \<in> set ops. whole_samples x \<Longrightarrow>
    n + int (length ops) < 2 ^ 31 \<Longrightarrow>
    \<exists>h' n'. run_port api this ops h = Some (fst (run_bytes c (unat s) ops q), h') \<and>
      n \<le> n' \<and> n' \<le> n + int (length ops) \<and>
      port_rep bytes cap this h' c s n' (snd (run_bytes c (unat s) ops q))"
proof (induction ops arbitrary: h n q)
  case Nil
  then show ?case by auto
next
  case (Cons x ops)
  show ?case
  proof (cases x)
    case (Cycle buff)
    have w: "length buff mod 4 = 0" "length buff < 2 ^ 34" using Cons.prems(2) Cycle by auto
    have "unat (of_nat (length buff div 4) :: u32) = length buff div 4"
      by (rule of_nat_inverse [OF refl]) (use w(2) in simp)
    then have nf: "length buff = 4 * unat (of_nat (length buff div 4) :: u32)" using w(1) by auto
    let ?fits = "length q + length buff \<le> c"
    have room: "?fits \<or> n < 2 ^ 31 - 1" using Cons.prems(3) by simp
    obtain h1 where h1: "JacksRbPort_write_to_ringbuffer api buff this (of_nat (length buff div 4)) h =
        Some (if ?fits then 0 else - 1, h1)"
      "port_rep bytes cap this h1 c s (if ?fits then n else n + 1) (q @ take (c - length q) buff)"
      by (rule port_write [OF ok Cons.prems(1) nf room]) (rule that)
    have "(if ?fits then n else n + 1) + int (length ops) < 2 ^ 31" using Cons.prems(3) by auto
    from Cons.IH [OF h1(2) _ this] Cons.prems(2) obtain h' n' where
      "run_port api this ops h1 = Some (fst (run_bytes c (unat s) ops (q @ take (c - length q) buff)), h')"
      "(if ?fits then n else n + 1) \<le> n'" "n' \<le> (if ?fits then n else n + 1) + int (length ops)"
      "port_rep bytes cap this h' c s n' (snd (run_bytes c (unat s) ops (q @ take (c - length q) buff)))"
      by auto
    with h1(1) Cycle show ?thesis
      by (intro exI [of _ h'] exI [of _ n']) (auto simp: split_beta split: if_splits)
  next
    case Fetch
    obtain buf h1 where h1: "JacksRbPort_read_from_ringbuffer api this h =
        Some (Some buf, int (min (length q) (unat s)), h1)"
      "take (min (length q) (unat s)) buf = take (unat s) q"
      "port_rep bytes cap this h1 c s n (drop (unat s) q)"
      by (rule port_read [OF ok Cons.prems(1) small]) (rule that)
    from Cons.IH [OF h1(3)] Cons.prems(2,3) obtain h' n' where
      "run_port api this ops h1 = Some (fst (run_bytes c (unat s) ops (drop (unat s) q)), h')"
      "n \<le> n'" "n' \<le> n + int (length ops)"
      "port_rep bytes cap this h' c s n' (snd (run_bytes c (unat s) ops (drop (unat s) q)))"
      by auto
    with h1(1,2) Fetch show ?thesis
      by (intro exI [of _ h'] exI [of _ n']) (simp add: split_beta)
  qed
qed

text \<open>Without an overrun nothing is lost, duplicated or reordered.\<close>

fun sent :: "port_op list \<Rightarrow> u8 list" where
  "sent [] = []"
| "sent (Cycle buff # ops) = buff @ sent ops"
| "sent (Fetch # ops) = sent ops"

fun received :: "port_out list \<Rightarrow> u8 list" where
  "received [] = []"
| "received (Wrote rc # outs) = received outs"
| "received (Got len bs # outs) = bs @ received outs"

lemma run_bytes_lossless:
  "length q \<le> c \<Longrightarrow> Wrote (- 1) \<notin> set (fst (run_bytes c s ops q)) \<Longrightarrow>
     received (fst (run_bytes c s ops q)) @ snd (run_bytes c s ops q) = q @ sent ops"
proof (induction ops arbitrary: q)
  case (Cons x ops)
  show ?case
  proof (cases x)
    case (Cycle buff)
    with Cons.prems have "length q + length buff \<le> c"
      by (auto simp: split_beta split: if_splits)
    with Cycle Cons show ?thesis by (simp add: split_beta)
  next
    case Fetch
    have "length (drop s q) \<le> c" using Cons.prems(1) by simp
    from Cons.IH [OF this] Cons.prems(2) Fetch show ?thesis by (simp add: split_beta)
  qed
qed simp

text \<open>After an overrun the queue is exactly full, whatever the size of a sample.\<close>

lemma run_bytes_aligned:
  assumes "s mod 4 = 0" "length q mod 4 = 0" "Wrote (- 1) \<notin> set (fst (run_bytes c s ops q))"
    "\<forall>x \<in> set ops. whole_samples x"
  shows "length (snd (run_bytes c s ops q)) mod 4 = 0 \<and>
    (\<forall>len bs. Got len bs \<in> set (fst (run_bytes c s ops q)) \<longrightarrow> length bs mod 4 = 0)"
  using assms(2-4)
proof (induction ops arbitrary: q)
  case (Cons x ops)
  show ?case
  proof (cases x)
    case (Cycle buff)
    with Cons.prems(2) have fits: "length q + length buff \<le> c"
      by (auto simp: split_beta split: if_splits)
    with Cycle Cons.prems have "length (q @ take (c - length q) buff) mod 4 = 0" by (auto simp: mod_eq_0_iff_dvd)
    from Cons.IH [OF this] Cons.prems(2,3) Cycle show ?thesis by (auto simp: split_beta)
  next
    case Fetch
    have min4: "min (length q) s mod 4 = 0" "(length q - s) mod 4 = 0"
      using assms(1) Cons.prems(1) by (auto simp: min_def mod_eq_0_iff_dvd)
    then have "length (drop s q) mod 4 = 0" by simp
    from Cons.IH [OF this] Cons.prems(2,3) Fetch min4(1) show ?thesis by (auto simp: split_beta)
  qed
qed simp

section \<open>Latency listeners\<close>

lemma capture_again:
  assumes "get_obj this h = Some p" "snd (capture_lat_cb_fd p) \<noteq> 0"
  shows "JacksRbPort_init_capture_latency_listener sp rc this h w =
    Some (snd (capture_lat_cb_fd p), h, w)"
  using assms by (simp add: JacksRbPort_init_capture_latency_listener_def)

lemma capture_first:
  assumes p: "get_obj this h = Some p" "capture_lat_cb_fd p = (0, 0)" "\<not> lat_cb_is_init p"
    and sp: "sp = (0, (fd0, fd1))" "fd1 \<noteq> 0"
  shows "\<exists>h'. JacksRbPort_init_capture_latency_listener sp rc this h w =
      Some (if rc = 0 then fd1 else - 1, h', if rc = 0 then w\<lparr>latency_cb := Some (Latency_listener_fd, this)\<rparr> else w) \<and>
    get_obj this h' = Some (p\<lparr>capture_lat_cb_fd := (fd0, fd1), lat_cb_is_init := (rc = 0)\<rparr>) \<and>
    (\<forall>r. r \<noteq> this \<longrightarrow> get_obj r h' = get_obj r h)"
proof -
  obtain h1 where h1: "put_obj this (p\<lparr>capture_lat_cb_fd := (fd0, fd1)\<rparr>) h = Some h1"
    using put_get [OF p(1)] by blast
  note g1 = get_put [OF h1]
  obtain h2 where h2: "put_obj this (p\<lparr>capture_lat_cb_fd := (fd0, fd1), lat_cb_is_init := True\<rparr>) h1 = Some h2"
    using put_get [of this h1] g1 by simp
  note g2 = get_put [OF h2]
  show ?thesis
    using p sp h1 h2 g1 g2
    by (cases "rc = 0") (auto simp: JacksRbPort_init_capture_latency_listener_def register_lat_cb_def
        jack_set_latency_callback_def)
qed

text \<open>A notification from JACK runs the callback that is registered for the client.\<close>

definition deliver_latency :: "int \<Rightarrow> 'rb port_T store \<Rightarrow> port_world \<Rightarrow> port_world option" where
  "deliver_latency mode h w =
     (case latency_cb w of
        None \<Rightarrow> Some w
      | Some (Latency_listener_fd, arg) \<Rightarrow> latency_listener_fd mode arg h w
      | Some (Latency_listener, arg) \<Rightarrow> Some (latency_listener mode arg w))"

end
