(* ===== verification/Client.thy ===== *)
theory Client
  imports Queue_Check Event Latch Port_Correct
begin

text \<open>
  The client (\<open>corelib/JacksRbClient.c\<close>): it owns the ports, the lock-free event queue
  with its semaphore, one event object per kind of event, and the session latch; JACK calls
  its callbacks, the script calls its API.

  The whole program state is \<open>jacks\<close>: one store per structure, the memory of the lock-free
  library, the port world and what was asked of JACK. The results of JACK calls are arguments.
  Where a function waits for another thread, what the other threads do meanwhile is an
  argument (\<open>env\<close>).
\<close>

section \<open>State\<close>

definition MAX_PORTS :: nat where "MAX_PORTS = 999"
definition DEFAULT_RB_SIZE :: u32 where "DEFAULT_RB_SIZE = 16384"

datatype JACKSCRIPT_EVENT_TYPE = PROCESS | SESSION | ERR | SAMPLE_RATE_CHANGE | SHUTDOWN

fun event_code :: "JACKSCRIPT_EVENT_TYPE \<Rightarrow> int" where
  "event_code PROCESS = 0"
| "event_code SESSION = 1"
| "event_code ERR = 2"
| "event_code SAMPLE_RATE_CHANGE = 3"
| "event_code SHUTDOWN = 4"

text \<open>The one completion token of the program.\<close>

datatype token_fn = JacksLatch_post_fn

record jacks_rb_client_T =
  ports :: "ptr list option"
  nports :: nat
  rb_size :: u32
  client :: ptr
  event_queue :: "queue_state option"
  mutex :: nat
  process_event :: ptr
  session_event :: ptr
  session_latch :: ptr
  sample_rate_event :: ptr
  shutdown_event :: ptr
  activated :: int

text \<open>The callbacks registered with JACK (the argument of each), and the session traffic.\<close>

record jack_server =
  on_shutdown :: "ptr option"
  sample_rate_callback :: "ptr option"
  session_callback :: "ptr option"
  process_callback :: "ptr option"
  client_open :: bool
  replied :: "ptr list"
  events_freed :: "ptr list"

record 'rb jacks =
  clients :: "jacks_rb_client_T store"
  events :: "token_fn jacks_event_T store"
  latches :: "latch_T store"
  port_store :: "'rb port_T store"
  lfds :: mem
  port_env :: port_world
  jackd :: jack_server

fun call_token :: "token_fn \<Rightarrow> ptr \<Rightarrow> latch_T store \<Rightarrow> latch_T store option" where
  "call_token JacksLatch_post_fn arg h = map_option snd (JacksLatch_post arg h)"

text \<open>\<open>JacksEvent_complete\<close> on the whole state.\<close>

definition complete_event :: "ptr \<Rightarrow> 'rb jacks \<Rightarrow> 'rb jacks option" where
  "complete_event e s = do {
     h \<leftarrow> JacksEvent_complete call_token e (events s) (latches s);
     Some (s\<lparr>latches := h\<rparr>)
   }"

definition JacksRbClient_get_client :: "ptr \<Rightarrow> jacks_rb_client_T store \<Rightarrow> ptr option" where
  "JacksRbClient_get_client this h = map_option client (get_obj this h)"

definition JacksRbClient_get_rb_size :: "ptr \<Rightarrow> jacks_rb_client_T store \<Rightarrow> u32 option" where
  "JacksRbClient_get_rb_size this h = map_option rb_size (get_obj this h)"

definition JacksRbClient_get_sample_rate ::
  "(ptr \<Rightarrow> u32) \<Rightarrow> ptr \<Rightarrow> jacks_rb_client_T store \<Rightarrow> u32 option" where
  "JacksRbClient_get_sample_rate jack_get_sample_rate this h =
     map_option (\<lambda>c. jack_get_sample_rate (client c)) (get_obj this h)"

definition JacksRbClient_get_name ::
  "(ptr \<Rightarrow> string) \<Rightarrow> ptr \<Rightarrow> jacks_rb_client_T store \<Rightarrow> string option" where
  "JacksRbClient_get_name jack_get_client_name this h =
     map_option (\<lambda>c. jack_get_client_name (client c)) (get_obj this h)"

definition upd_client ::
  "ptr \<Rightarrow> (jacks_rb_client_T \<Rightarrow> jacks_rb_client_T) \<Rightarrow> 'rb jacks \<Rightarrow> 'rb jacks option" where
  "upd_client this f s = do {
     c \<leftarrow> get_obj this (clients s);
     h \<leftarrow> put_obj this (f c) (clients s);
     Some (s\<lparr>clients := h\<rparr>)
   }"

section \<open>The event queue and the semaphore\<close>

text \<open>\<open>sem_post\<close> fails, and leaves the value, at \<open>SEM_VALUE_MAX\<close>.\<close>

definition SEM_VALUE_MAX :: nat where "SEM_VALUE_MAX = 2147483647"

definition sem_up :: "nat \<Rightarrow> nat" where
  "sem_up v = (if v < SEM_VALUE_MAX then Suc v else v)"

definition client_post :: "ptr \<Rightarrow> 'rb jacks \<Rightarrow> 'rb jacks option" where
  "client_post this s = upd_client this (\<lambda>c. c\<lparr>mutex := sem_up (mutex c)\<rparr>) s"

definition client_enqueue :: "ptr \<Rightarrow> ptr \<Rightarrow> 'rb jacks \<Rightarrow> (int \<times> 'rb jacks) option" where
  "client_enqueue this e s = do {
     c \<leftarrow> get_obj this (clients s);
     qs \<leftarrow> event_queue c;
     (rc, qs, m) \<leftarrow> queue_enqueue qs e (lfds s);
     s \<leftarrow> upd_client this (\<lambda>c. c\<lparr>event_queue := Some qs\<rparr>) (s\<lparr>lfds := m\<rparr>);
     Some (rc, s)
   }"

definition client_dequeue :: "ptr \<Rightarrow> 'rb jacks \<Rightarrow> (int \<times> ptr \<times> 'rb jacks) option" where
  "client_dequeue this s = do {
     c \<leftarrow> get_obj this (clients s);
     qs \<leftarrow> event_queue c;
     (rv, je, qs, m) \<leftarrow> queue_dequeue qs (lfds s);
     s \<leftarrow> upd_client this (\<lambda>c. c\<lparr>event_queue := Some qs\<rparr>) (s\<lparr>lfds := m\<rparr>);
     Some (rv, je, s)
   }"

section \<open>Callbacks\<close>

text \<open>
  The loop of \<open>_process_cb\<close> over the registered ports. \<open>buffers\<close> gives the bytes of the
  buffer JACK has for a port in this cycle.
\<close>

partial_function (option) process_loop ::
  "'rb ringbuffer_api \<Rightarrow> (ptr \<Rightarrow> u8 list) \<Rightarrow> u32 \<Rightarrow> ptr \<Rightarrow> nat \<Rightarrow> 'rb jacks \<Rightarrow> (int \<times> 'rb jacks) option"
where
  "process_loop api buffers nframes this i s = do {
     c \<leftarrow> get_obj this (clients s);
     if i < nports c then do {
       arr \<leftarrow> ports c;
       _ \<leftarrow> c_assert (i < length arr);
       let port = arr ! i
       in do {
         p \<leftarrow> get_obj port (port_store s);
         (rc, h) \<leftarrow> JacksRbPort_write_to_ringbuffer api (buffers (jport p)) port nframes (port_store s);
         let s = s\<lparr>port_store := h\<rparr>
         in if rc \<noteq> 0 then Some (- 1, s)
            else do {
              (rc, s) \<leftarrow> client_enqueue this (process_event c) s;
              if rc \<noteq> 1 then Some (- 1, s)
              else do {
                s \<leftarrow> client_post this s;
                process_loop api buffers nframes this (Suc i) s
              }
            }
       }
     } else Some (0, s)
   }"

definition process_cb ::
  "'rb ringbuffer_api \<Rightarrow> (ptr \<Rightarrow> u8 list) \<Rightarrow> u32 \<Rightarrow> ptr \<Rightarrow> 'rb jacks \<Rightarrow> (int \<times> 'rb jacks) option" where
  "process_cb api buffers nframes this s = process_loop api buffers nframes this 0 s"

text \<open>
  The two halves of \<open>_session_cb\<close>, before and after it blocks on the latch; \<open>wakes\<close> as in
  \<open>JacksLatch_get\<close>.
\<close>

definition session_cb_notify :: "ptr \<Rightarrow> ptr \<Rightarrow> 'rb jacks \<Rightarrow> 'rb jacks option" where
  "session_cb_notify event this s = do {
     c \<leftarrow> get_obj this (clients s);
     h \<leftarrow> JacksEvent_set_data (session_event c) event (events s);
     (_, s) \<leftarrow> client_enqueue this (session_event c) (s\<lparr>events := h\<rparr>);
     client_post this s
   }"

definition session_cb_finish :: "int list \<Rightarrow> ptr \<Rightarrow> ptr \<Rightarrow> 'rb jacks \<Rightarrow> 'rb jacks option" where
  "session_cb_finish wakes event this s = do {
     c \<leftarrow> get_obj this (clients s);
     (_, l) \<leftarrow> JacksLatch_get wakes (session_latch c) (latches s);
     h \<leftarrow> JacksEvent_set_data (session_event c) NULL (events s);
     Some (s\<lparr>latches := l, events := h,
             jackd := (jackd s)\<lparr>replied := replied (jackd s) @ [event],
                                events_freed := events_freed (jackd s) @ [event]\<rparr>\<rparr>)
   }"

definition session_cb ::
  "('rb jacks \<Rightarrow> 'rb jacks option) \<Rightarrow> int list \<Rightarrow> ptr \<Rightarrow> ptr \<Rightarrow> 'rb jacks \<Rightarrow> 'rb jacks option" where
  "session_cb env wakes event this s = do {
     s \<leftarrow> session_cb_notify event this s;
     s \<leftarrow> env s;
     session_cb_finish wakes event this s
   }"

definition shutdown_cb :: "ptr \<Rightarrow> 'rb jacks \<Rightarrow> 'rb jacks option" where
  "shutdown_cb this s = do {
     c \<leftarrow> get_obj this (clients s);
     (_, s) \<leftarrow> client_enqueue this (shutdown_event c) s;
     client_post this s
   }"

definition sample_rate_change_cb :: "u32 \<Rightarrow> ptr \<Rightarrow> 'rb jacks \<Rightarrow> (int \<times> 'rb jacks) option" where
  "sample_rate_change_cb nframes this s = do {
     c \<leftarrow> get_obj this (clients s);
     (_, s) \<leftarrow> client_enqueue this (sample_rate_event c) s;
     s \<leftarrow> client_post this s;
     Some (0, s)
   }"

section \<open>The script side\<close>

text \<open>
  \<open>sem_wait\<close>: takes one when the semaphore is positive; otherwise the next action of the
  other threads happens and the wait is tried again. \<open>None\<close>: blocked for good.
\<close>

fun client_wait ::
  "('rb jacks \<Rightarrow> 'rb jacks option) list \<Rightarrow> ptr \<Rightarrow> 'rb jacks \<Rightarrow>
     (('rb jacks \<Rightarrow> 'rb jacks option) list \<times> 'rb jacks) option" where
  "client_wait env this s = do {
     c \<leftarrow> get_obj this (clients s);
     if 0 < mutex c then do {
       s \<leftarrow> upd_client this (\<lambda>c. c\<lparr>mutex := mutex c - 1\<rparr>) s;
       Some (env, s)
     } else (case env of [] \<Rightarrow> None | act # env \<Rightarrow> Option.bind (act s) (client_wait env this))
   }"

declare client_wait.simps [simp del]

text \<open>The timeout is not used by the code. Result: the event, the actions left, the state.\<close>

partial_function (option) JacksRbClient_get_event ::
  "('rb jacks \<Rightarrow> 'rb jacks option) list \<Rightarrow> ptr \<Rightarrow> int \<Rightarrow> 'rb jacks \<Rightarrow>
     (ptr \<times> ('rb jacks \<Rightarrow> 'rb jacks option) list \<times> 'rb jacks) option" where
  "JacksRbClient_get_event env this timeout s = do {
     (rv, je, s) \<leftarrow> client_dequeue this s;
     if rv \<noteq> 0 then Some (je, env, s)
     else do {
       (env, s) \<leftarrow> client_wait env this s;
       JacksRbClient_get_event env this timeout s
     }
   }"

text \<open>\<open>jp\<close>: what \<open>jack_port_register\<close> returns.\<close>

definition JacksRbClient_registerPort ::
  "'rb ringbuffer_api \<Rightarrow> (ptr \<Rightarrow> string \<Rightarrow> u64 \<Rightarrow> ptr) \<Rightarrow> indeterminate \<Rightarrow> ptr \<Rightarrow> string \<Rightarrow> u64 \<Rightarrow>
     'rb jacks \<Rightarrow> (ptr \<times> 'rb jacks) option" where
  "JacksRbClient_registerPort api port_register junk this name options s = do {
     c \<leftarrow> get_obj this (clients s);
     (jp, h) \<leftarrow> JacksRbPort_new_port api port_register (\<lambda>p. JacksRbClient_get_client p (clients s))
                  junk name options this (rb_size c) (port_store s);
     _ \<leftarrow> c_assert (jp \<noteq> NULL);
     arr \<leftarrow> ports c;
     _ \<leftarrow> c_assert (nports c < length arr);
     s \<leftarrow> upd_client this (\<lambda>c. c\<lparr>ports := Some (arr[nports c := jp]), nports := Suc (nports c)\<rparr>)
            (s\<lparr>port_store := h\<rparr>);
     Some (jp, s)
   }"

definition YES :: int where "YES = 1"
definition NO :: int where "NO = 0"

definition JacksRbClient_activate :: "int \<Rightarrow> ptr \<Rightarrow> int \<Rightarrow> 'rb jacks \<Rightarrow> (int \<times> 'rb jacks) option" where
  "JacksRbClient_activate jack_activate_rc this process_audio s = do {
     c \<leftarrow> get_obj this (clients s);
     if activated c = YES then Some (- 1, s)
     else do {
       s \<leftarrow> (if process_audio = YES
             then upd_client this (\<lambda>c. c\<lparr>activated := YES\<rparr>)
                    (s\<lparr>jackd := (jackd s)\<lparr>process_callback := Some this\<rparr>\<rparr>)
             else Some s);
       Some (jack_activate_rc, s)
     }
   }"

section \<open>Construction and destruction\<close>

text \<open>
  \<open>open_client\<close>: what \<open>jack_client_open\<close> returns; \<open>junk\<close>, \<open>junk_ports\<close>: the
  contents of fresh memory. \<open>Inl 1\<close> is \<open>exit(1)\<close>.
\<close>

definition JacksRbClient_new ::
  "ptr \<Rightarrow> jacks_rb_client_T \<Rightarrow> (nat \<Rightarrow> ptr) \<Rightarrow> u32 \<Rightarrow> 'rb jacks \<Rightarrow> (int + (ptr \<times> 'rb jacks)) option" where
  "JacksRbClient_new open_client junk junk_ports rbs s =
     (let (this, h) = new_obj junk (clients s);
          arr = (if alloc_ok h (alloc_calls h) then Some (map junk_ports [0..<MAX_PORTS]) else None);
          s = s\<lparr>clients := h\<lparr>alloc_calls := Suc (alloc_calls h)\<rparr>\<rparr>;
          rbs = (if rbs \<noteq> 0 then rbs else DEFAULT_RB_SIZE)
      in do {
        s \<leftarrow> upd_client this (\<lambda>c. c\<lparr>ports := arr, nports := 0, activated := NO, rb_size := rbs\<rparr>) s;
        (_, qs, m) \<leftarrow> queue_new (ucast rbs) (lfds s);
        let (pe, ev) = JacksEvent_new (event_code PROCESS) None NULL (events s);
            (sl, la) = JacksLatch_new (latches s);
            (se, ev) = JacksEvent_new (event_code SESSION) (Some JacksLatch_post_fn) sl ev;
            (re, ev) = JacksEvent_new (event_code SAMPLE_RATE_CHANGE) None NULL ev;
            (de, ev) = JacksEvent_new (event_code SHUTDOWN) None NULL ev
        in do {
          s \<leftarrow> upd_client this (\<lambda>c. c\<lparr>event_queue := qs, mutex := 1, process_event := pe,
                   session_latch := sl, session_event := se, sample_rate_event := re,
                   shutdown_event := de, client := open_client\<rparr>)
                 (s\<lparr>lfds := m, events := ev, latches := la\<rparr>);
          if open_client = NULL then Some (Inl 1)
          else Some (Inr (this, s\<lparr>jackd := (jackd s)\<lparr>client_open := True, on_shutdown := Some this,
                 sample_rate_callback := Some this, session_callback := Some this\<rparr>\<rparr>))
        }
      })"

definition JacksRbClient_free :: "ptr option \<Rightarrow> 'rb jacks \<Rightarrow> 'rb jacks option" where
  "JacksRbClient_free this_p s = do {
     _ \<leftarrow> c_assert (this_p \<noteq> None \<and> this_p \<noteq> Some NULL);
     this \<leftarrow> this_p;
     c \<leftarrow> get_obj this (clients s);
     let s = s\<lparr>jackd := (jackd s)\<lparr>client_open := False\<rparr>\<rparr>
     in do {
       ev \<leftarrow> JacksEvent_free (Some (process_event c)) (events s);
       la \<leftarrow> JacksLatch_free (Some (session_latch c)) (latches s);
       ev \<leftarrow> JacksEvent_free (Some (session_event c)) ev;
       ev \<leftarrow> JacksEvent_free (Some (sample_rate_event c)) ev;
       ev \<leftarrow> JacksEvent_free (Some (shutdown_event c)) ev;
       h \<leftarrow> free_obj this (clients s);
       Some (s\<lparr>clients := h, events := ev, latches := la\<rparr>)
     }
   }"

end
