(* ===== verification/Client_Correct.thy ===== *)
theory Client_Correct
  imports Client
begin

text \<open>
  Correctness of the client over the bounded-FIFO interface of the event queue: construction,
  the process callback on every port, delivery of events to the script in order, the session
  protocol, registration of ports and its bound, activation, destruction.
\<close>

section \<open>The client through the interface of its queue\<close>

text \<open>
  \<open>xs\<close> are the events queued, \<open>v\<close> is the semaphore, \<open>f\<close> holds the fields that queue
  and semaphore operations leave alone.
\<close>

definition fixed :: "jacks_rb_client_T \<Rightarrow> jacks_rb_client_T" where
  "fixed c = c\<lparr>event_queue := None, mutex := 0\<rparr>"

definition client_rep ::
  "addr set \<Rightarrow> addr set \<Rightarrow> ptr \<Rightarrow> 'rb jacks \<Rightarrow> nat \<Rightarrow> ptr list \<Rightarrow> nat \<Rightarrow> jacks_rb_client_T \<Rightarrow> bool" where
  "client_rep A B this s n xs v f \<longleftrightarrow>
     (\<exists>c qs. get_obj this (clients s) = Some c \<and> event_queue c = Some qs \<and>
        fifo_rep A B (qs, lfds s) n xs \<and> queue_state_ok A B (qs, lfds s) n \<and>
        mutex c = v \<and> fixed c = f)"

definition others :: "'rb jacks \<Rightarrow> _" where
  "others s = (events s, latches s, port_store s, port_env s, jackd s)"

lemma others_eq:
  "others s' = others s \<longleftrightarrow> events s' = events s \<and> latches s' = latches s \<and>
     port_store s' = port_store s \<and> port_env s' = port_env s \<and> jackd s' = jackd s"
  by (simp add: others_def)

lemma fixed_fields [simp]:
  "fixed (c\<lparr>event_queue := q\<rparr>) = fixed c" "fixed (c\<lparr>mutex := v\<rparr>) = fixed c"
  by (simp_all add: fixed_def)

lemma fixed_sel:
  assumes "fixed c = f"
  shows "ports c = ports f" "nports c = nports f" "rb_size c = rb_size f" "client c = client f"
    "process_event c = process_event f" "session_event c = session_event f"
    "session_latch c = session_latch f" "sample_rate_event c = sample_rate_event f"
    "shutdown_event c = shutdown_event f" "activated c = activated f"
  using assms by (auto simp: fixed_def)

lemma client_repE:
  assumes "client_rep A B this s n xs v f"
  obtains c qs where "get_obj this (clients s) = Some c" "event_queue c = Some qs"
    "fifo_rep A B (qs, lfds s) n xs" "queue_state_ok A B (qs, lfds s) n" "mutex c = v" "fixed c = f"
  using assms unfolding client_rep_def by blast

lemma client_rep_same:
  assumes "client_rep A B this s n xs v f" "clients s' = clients s" "lfds s' = lfds s"
  shows "client_rep A B this s' n xs v f"
  using assms by (simp add: client_rep_def)

lemma upd_client_eq:
  assumes "get_obj this (clients s) = Some c"
  shows "\<exists>h. upd_client this f s = Some (s\<lparr>clients := h\<rparr>) \<and> get_obj this h = Some (f c)"
proof -
  obtain h where h: "put_obj this (f c) (clients s) = Some h" using put_get [OF assms] by blast
  with assms get_put [OF h, of this] show ?thesis
    by (intro exI [of _ h]) (simp add: upd_client_def)
qed

lemma client_enqueue_rep:
  assumes "client_rep A B this s n xs v f"
  obtains s' where "client_enqueue this e s = Some (if length xs < n then 1 else 0, s')"
    "client_rep A B this s' n (if length xs < n then xs @ [e] else xs) v f" "others s' = others s"
proof -
  obtain c qs where c: "get_obj this (clients s) = Some c" "event_queue c = Some qs"
    "fifo_rep A B (qs, lfds s) n xs" "queue_state_ok A B (qs, lfds s) n" "mutex c = v" "fixed c = f"
    using assms by (rule client_repE)
  have "\<exists>qs' m'. fifo_enq (qs, lfds s) e = Some (if length xs < n then 1 else 0, (qs', m')) \<and>
      fifo_rep A B (qs', m') n (if length xs < n then xs @ [e] else xs) \<and>
      fifo_frame (qs', m') = fifo_frame (qs, lfds s)"
  proof (cases "length xs < n")
    case True
    with lq.enq_room [OF c(3) True, of e] show ?thesis by auto
  next
    case False
    with lq.enq_full [OF c(3), of e] lq.rep_bound [OF c(3)] c(3) show ?thesis by auto
  qed
  then obtain qs' m' where q: "queue_enqueue qs e (lfds s) = Some (if length xs < n then 1 else 0, qs', m')"
    "fifo_rep A B (qs', m') n (if length xs < n then xs @ [e] else xs)"
    "fifo_frame (qs', m') = fifo_frame (qs, lfds s)"
    by (auto simp: fifo_enq_def bind_eq_Some_conv split: if_splits)
  obtain h where h: "upd_client this (\<lambda>c. c\<lparr>event_queue := Some qs'\<rparr>) (s\<lparr>lfds := m'\<rparr>) =
      Some (s\<lparr>lfds := m', clients := h\<rparr>)" "get_obj this h = Some (c\<lparr>event_queue := Some qs'\<rparr>)"
    using upd_client_eq [of this "s\<lparr>lfds := m'\<rparr>" c] c(1) by auto
  show thesis
  proof (rule that)
    show "client_enqueue this e s = Some (if length xs < n then 1 else 0, s\<lparr>lfds := m', clients := h\<rparr>)"
      by (simp only: client_enqueue_def c(1,2) q(1) h(1) bind.bind_lunit prod.case)
    show "client_rep A B this (s\<lparr>lfds := m', clients := h\<rparr>) n (if length xs < n then xs @ [e] else xs) v f"
      using h(2) q(2) queue_state_ok_frame [OF q(3) c(4)] c(5,6) by (simp add: client_rep_def)
  qed (simp add: others_def)
qed

lemma client_dequeue_rep:
  assumes "client_rep A B this s n xs v f"
  obtains s' where "client_dequeue this s = Some (case xs of [] \<Rightarrow> (0, NULL, s') | x # _ \<Rightarrow> (1, x, s'))"
    "client_rep A B this s' n (tl xs) v f" "others s' = others s"
proof -
  obtain c qs where c: "get_obj this (clients s) = Some c" "event_queue c = Some qs"
    "fifo_rep A B (qs, lfds s) n xs" "queue_state_ok A B (qs, lfds s) n" "mutex c = v" "fixed c = f"
    using assms by (rule client_repE)
  have "\<exists>qs' m'. fifo_deq (qs, lfds s) = Some (case xs of [] \<Rightarrow> (0, NULL, (qs', m')) | x # _ \<Rightarrow> (1, x, (qs', m'))) \<and>
      fifo_rep A B (qs', m') n (tl xs) \<and> fifo_frame (qs', m') = fifo_frame (qs, lfds s)"
  proof (cases xs)
    case Nil
    with lq.deq_empty c(3) show ?thesis by auto
  next
    case (Cons x ys)
    with lq.deq_first [of A B "(qs, lfds s)" n x ys] c(3) show ?thesis by auto
  qed
  then obtain qs' m' where
    q: "queue_dequeue qs (lfds s) = Some (case xs of [] \<Rightarrow> (0, NULL, qs', m') | x # _ \<Rightarrow> (1, x, qs', m'))"
    "fifo_rep A B (qs', m') n (tl xs)" "fifo_frame (qs', m') = fifo_frame (qs, lfds s)"
    by (cases xs) (auto simp: fifo_deq_def bind_eq_Some_conv)
  obtain h where h: "upd_client this (\<lambda>c. c\<lparr>event_queue := Some qs'\<rparr>) (s\<lparr>lfds := m'\<rparr>) =
      Some (s\<lparr>lfds := m', clients := h\<rparr>)" "get_obj this h = Some (c\<lparr>event_queue := Some qs'\<rparr>)"
    using upd_client_eq [of this "s\<lparr>lfds := m'\<rparr>" c] c(1) by auto
  show thesis
  proof (rule that)
    show "client_dequeue this s = Some (case xs of [] \<Rightarrow> (0, NULL, s\<lparr>lfds := m', clients := h\<rparr>)
        | x # _ \<Rightarrow> (1, x, s\<lparr>lfds := m', clients := h\<rparr>))"
      using h(1) by (cases xs) (simp_all add: client_dequeue_def c(1,2) q(1))
    show "client_rep A B this (s\<lparr>lfds := m', clients := h\<rparr>) n (tl xs) v f"
      using h(2) q(2) queue_state_ok_frame [OF q(3) c(4)] c(5,6) by (simp add: client_rep_def)
  qed (simp add: others_def)
qed

lemma client_post_rep:
  assumes "client_rep A B this s n xs v f"
  obtains s' where "client_post this s = Some s'" "client_rep A B this s' n xs (sem_up v) f"
    "others s' = others s"
proof -
  obtain c qs where c: "get_obj this (clients s) = Some c" "event_queue c = Some qs"
    "fifo_rep A B (qs, lfds s) n xs" "queue_state_ok A B (qs, lfds s) n" "mutex c = v" "fixed c = f"
    using assms by (rule client_repE)
  from upd_client_eq [OF c(1), of "\<lambda>c. c\<lparr>mutex := sem_up (mutex c)\<rparr>"] c obtain h where
    "client_post this s = Some (s\<lparr>clients := h\<rparr>)" "get_obj this h = Some (c\<lparr>mutex := sem_up v\<rparr>)"
    by (auto simp: client_post_def)
  with c that [of "s\<lparr>clients := h\<rparr>"] show thesis by (simp add: client_rep_def others_def)
qed

text \<open>Enqueue and post, what every callback does to notify the script.\<close>

lemma client_notify_rep:
  assumes "client_rep A B this s n xs v f"
  obtains s1 s' where "client_enqueue this e s = Some (if length xs < n then 1 else 0, s1)"
    "client_post this s1 = Some s'"
    "client_rep A B this s' n (if length xs < n then xs @ [e] else xs) (sem_up v) f" "others s' = others s"
proof -
  obtain s1 where s1: "client_enqueue this e s = Some (if length xs < n then 1 else 0, s1)"
    "client_rep A B this s1 n (if length xs < n then xs @ [e] else xs) v f" "others s1 = others s"
    using client_enqueue_rep [OF assms] .
  obtain s' where "client_post this s1 = Some s'"
    "client_rep A B this s' n (if length xs < n then xs @ [e] else xs) (sem_up v) f" "others s' = others s1"
    using client_post_rep [OF s1(2)] .
  with s1 that show thesis by simp
qed

lemma client_wait_rep:
  assumes "client_rep A B this s n xs (Suc v) f"
  obtains s' where "client_wait env this s = Some (env, s')" "client_rep A B this s' n xs v f"
    "others s' = others s"
proof -
  obtain c qs where c: "get_obj this (clients s) = Some c" "event_queue c = Some qs"
    "fifo_rep A B (qs, lfds s) n xs" "queue_state_ok A B (qs, lfds s) n" "mutex c = Suc v" "fixed c = f"
    using assms by (rule client_repE)
  from upd_client_eq [OF c(1), of "\<lambda>c. c\<lparr>mutex := mutex c - 1\<rparr>"] c obtain h where
    "upd_client this (\<lambda>c. c\<lparr>mutex := mutex c - 1\<rparr>) s = Some (s\<lparr>clients := h\<rparr>)"
    "get_obj this h = Some (c\<lparr>mutex := v\<rparr>)"
    by auto
  with c that [of "s\<lparr>clients := h\<rparr>"] show thesis
    by (simp add: client_rep_def others_def client_wait.simps)
qed

lemma client_wait_zero:
  assumes "client_rep A B this s n xs 0 f"
  shows "client_wait [] this s = None"
    "client_wait (act # env) this s = Option.bind (act s) (client_wait env this)"
  using assms by (auto elim!: client_repE simp: client_wait.simps)

section \<open>Delivery of events\<close>

lemma get_event_ready:
  assumes "client_rep A B this s n (x # xs) v f"
  shows "\<exists>s'. JacksRbClient_get_event env this t s = Some (x, env, s') \<and>
    client_rep A B this s' n xs v f \<and> others s' = others s"
proof -
  obtain s' where "client_dequeue this s = Some (1, x, s')" "client_rep A B this s' n xs v f"
    "others s' = others s"
    using client_dequeue_rep [OF assms] by auto
  then show ?thesis by (subst JacksRbClient_get_event.simps) simp
qed

text \<open>
  On an empty queue the call uses up the semaphore: the excess of a counting semaphore costs
  that many empty rounds, and then it blocks.
\<close>

lemma get_event_drains:
  assumes "client_rep A B this s n [] v f"
  shows "\<exists>s'. JacksRbClient_get_event env this t s =
      Option.bind (client_wait env this s') (\<lambda>(env, s). JacksRbClient_get_event env this t s) \<and>
    client_rep A B this s' n [] 0 f \<and> others s' = others s"
  using assms
proof (induction v arbitrary: s)
  case 0
  obtain s' where "client_dequeue this s = Some (0, NULL, s')" "client_rep A B this s' n [] 0 f"
    "others s' = others s"
    using client_dequeue_rep [OF 0] by auto
  then show ?case by (subst JacksRbClient_get_event.simps) (auto simp: split_beta)
next
  case (Suc v)
  obtain s1 where s1: "client_dequeue this s = Some (0, NULL, s1)"
    "client_rep A B this s1 n [] (Suc v) f" "others s1 = others s"
    using client_dequeue_rep [OF Suc.prems] by auto
  obtain s2 where s2: "client_wait env this s1 = Some (env, s2)" "client_rep A B this s2 n [] v f"
    "others s2 = others s1"
    using client_wait_rep [OF s1(2)] .
  have "JacksRbClient_get_event env this t s = JacksRbClient_get_event env this t s2"
    by (subst JacksRbClient_get_event.simps) (simp add: s1(1) s2(1))
  with Suc.IH [OF s2(2)] s1(3) s2(3) show ?case by simp
qed

lemma get_event_blocks:
  assumes "client_rep A B this s n [] v f"
  shows "JacksRbClient_get_event [] this t s = None"
proof -
  obtain s' where "JacksRbClient_get_event [] this t s =
      Option.bind (client_wait [] this s') (\<lambda>(env, s). JacksRbClient_get_event env this t s)"
    "client_rep A B this s' n [] 0 f"
    using get_event_drains [OF assms] by blast
  with client_wait_zero(1) [OF this(2)] show ?thesis by simp
qed

text \<open>A blocked call returns the first event another thread queues.\<close>

lemma get_event_wakes:
  assumes rep: "client_rep A B this s n [] v f"
    and act: "\<And>r. client_rep A B this r n [] 0 f \<Longrightarrow> others r = others s \<Longrightarrow>
      \<exists>r'. act r = Some r' \<and> client_rep A B this r' n (x # xs) (Suc w) f \<and> others r' = others s'"
  shows "\<exists>s''. JacksRbClient_get_event (act # env) this t s = Some (x, env, s'') \<and>
    client_rep A B this s'' n xs w f \<and> others s'' = others s'"
proof -
  obtain r where r: "JacksRbClient_get_event (act # env) this t s =
      Option.bind (client_wait (act # env) this r) (\<lambda>(env, s). JacksRbClient_get_event env this t s)"
    "client_rep A B this r n [] 0 f" "others r = others s"
    using get_event_drains [OF rep] by blast
  obtain r1 where r1: "act r = Some r1" "client_rep A B this r1 n (x # xs) (Suc w) f"
    "others r1 = others s'"
    using act [OF r(2,3)] by blast
  obtain r2 where r2: "client_wait env this r1 = Some (env, r2)" "client_rep A B this r2 n (x # xs) w f"
    "others r2 = others r1"
    using client_wait_rep [OF r1(2)] .
  have "JacksRbClient_get_event (act # env) this t s = JacksRbClient_get_event env this t r2"
    using r(1) client_wait_zero(2) [OF r(2)] r1(1) r2(1) by simp
  with get_event_ready [OF r2(2)] r2(3) r1(3) show ?thesis by auto
qed

section \<open>The process callback\<close>

text \<open>
  The return code and the number of ports served, from which ports have room for the cycle
  and how many events the queue still takes.
\<close>

fun process_spec :: "bool list \<Rightarrow> nat \<Rightarrow> int \<times> nat" where
  "process_spec [] room = (0, 0)"
| "process_spec (fits # rest) room =
     (if fits \<and> 0 < room then let (rc, k) = process_spec rest (room - 1) in (rc, Suc k) else (- 1, 0))"

lemma process_spec_all:
  "fst (process_spec fs room) = 0 \<longleftrightarrow> (\<forall>b \<in> set fs. b) \<and> length fs \<le> room"
  "(\<forall>b \<in> set fs. b) \<Longrightarrow> length fs \<le> room \<Longrightarrow> process_spec fs room = (0, length fs)"
  by (induction fs arbitrary: room) (auto simp: split_beta)

lemma process_spec_le: "snd (process_spec fs room) \<le> length fs \<and> snd (process_spec fs room) \<le> room"
proof (induction fs arbitrary: room)
  case (Cons b fs)
  from Cons.IH [of "room - 1"] show ?case by (cases room) (auto simp: split_beta)
qed simp

text \<open>What one port of the cycle looks like before it.\<close>

record port_view =
  pv_cap :: nat
  pv_size :: u32
  pv_over :: int
  pv_queue :: "u8 list"
  pv_jport :: ptr

definition port_is ::
  "('rb \<Rightarrow> u8 list) \<Rightarrow> ('rb \<Rightarrow> nat) \<Rightarrow> 'rb port_T store \<Rightarrow> ptr \<Rightarrow> port_view \<Rightarrow> bool" where
  "port_is bytes cap h p w \<longleftrightarrow>
     port_rep bytes cap p h (pv_cap w) (pv_size w) (pv_over w) (pv_queue w) \<and>
     JacksRbPort_get_port p h = Some (pv_jport w)"

definition fits_in :: "u32 \<Rightarrow> port_view \<Rightarrow> bool" where
  "fits_in nframes w \<longleftrightarrow> length (pv_queue w) + 4 * unat nframes \<le> pv_cap w"

lemma port_is_other:
  "port_is bytes cap h p w \<Longrightarrow> get_obj p h' = get_obj p h \<Longrightarrow> port_is bytes cap h' p w"
  by (auto simp: port_is_def port_rep_other JacksRbPort_get_port_def)

lemma process_loop_step:
  assumes rep: "client_rep A B this s n xs v f"
    and arr: "ports f = Some arr" "i < nports f" "nports f \<le> length arr"
    and ok: "ringbuffer_ok api bytes cap" and port: "port_is bytes cap (port_store s) (arr ! i) w"
    and bufs: "\<forall>j. length (buffers j) = 4 * unat nframes" and over: "pv_over w < 2 ^ 31 - 1"
  obtains s' where
    "process_loop api buffers nframes this i s =
       (if fits_in nframes w \<and> length xs < n
        then process_loop api buffers nframes this (Suc i) s' else Some (- 1, s'))"
    "client_rep A B this s' n (if fits_in nframes w \<and> length xs < n then xs @ [process_event f] else xs)
       (if fits_in nframes w \<and> length xs < n then sem_up v else v) f"
    "events s' = events s" "latches s' = latches s" "jackd s' = jackd s"
    "\<And>r. r \<noteq> arr ! i \<Longrightarrow> get_obj r (port_store s') = get_obj r (port_store s)"
    "fits_in nframes w \<Longrightarrow> port_rep bytes cap (arr ! i) (port_store s') (pv_cap w) (pv_size w) (pv_over w)
       (pv_queue w @ buffers (pv_jport w))"
proof -
  obtain c qs where c: "get_obj this (clients s) = Some c" "fixed c = f"
    using rep by (rule client_repE)
  note c' = fixed_sel [OF c(2)]
  obtain p where p: "get_obj (arr ! i) (port_store s) = Some p" "jport p = pv_jport w"
    using port by (auto simp: port_is_def JacksRbPort_get_port_def)
  have rp: "port_rep bytes cap (arr ! i) (port_store s) (pv_cap w) (pv_size w) (pv_over w) (pv_queue w)"
    using port by (simp add: port_is_def)
  let ?buf = "buffers (pv_jport w)"
  have len: "length ?buf = 4 * unat nframes" using bufs by simp
  have fits: "length (pv_queue w) + length ?buf \<le> pv_cap w \<longleftrightarrow> fits_in nframes w"
    by (simp add: fits_in_def len)
  obtain h where h: "JacksRbPort_write_to_ringbuffer api ?buf (arr ! i) nframes (port_store s) =
      Some (if fits_in nframes w then 0 else - 1, h)"
    "port_rep bytes cap (arr ! i) h (pv_cap w) (pv_size w) (if fits_in nframes w then pv_over w else pv_over w + 1)
       (pv_queue w @ take (pv_cap w - length (pv_queue w)) ?buf)"
    "\<And>r. r \<noteq> arr ! i \<Longrightarrow> get_obj r h = get_obj r (port_store s)"
  proof (rule port_write [OF ok rp len, unfolded fits])
    show "fits_in nframes w \<or> pv_over w < 2 ^ 31 - 1" using over by blast
  qed (rule that)
  let ?s = "s\<lparr>port_store := h\<rparr>"
  have step: "process_loop api buffers nframes this i s =
      (if fits_in nframes w then do {
         (rc, s) \<leftarrow> client_enqueue this (process_event f) ?s;
         if rc \<noteq> 1 then Some (- 1, s)
         else do { s \<leftarrow> client_post this s; process_loop api buffers nframes this (Suc i) s }
       } else Some (- 1, ?s))"
    using arr c c' p h(1) by (subst process_loop.simps) simp
  have rep': "client_rep A B this ?s n xs v f" by (rule client_rep_same [OF rep]) simp_all
  have full: "take (pv_cap w - length (pv_queue w)) ?buf = ?buf" if "fits_in nframes w"
    using that fits by simp
  show thesis
  proof (cases "fits_in nframes w")
    case False
    show thesis by (rule that [of ?s]) (use False step rep' h in simp_all)
  next
    case True
    obtain s1 where s1: "client_enqueue this (process_event f) ?s = Some (if length xs < n then 1 else 0, s1)"
      "client_rep A B this s1 n (if length xs < n then xs @ [process_event f] else xs) v f" "others s1 = others ?s"
      using client_enqueue_rep [OF rep'] .
    show thesis
    proof (cases "length xs < n")
      case no: False
      show thesis
        by (rule that [of s1]) (use no True step s1 h full in \<open>simp_all add: others_eq\<close>)
    next
      case yes: True
      have r1: "client_rep A B this s1 n (xs @ [process_event f]) v f" using s1(2) yes by simp
      obtain s2 where s2: "client_post this s1 = Some s2"
        "client_rep A B this s2 n (xs @ [process_event f]) (sem_up v) f" "others s2 = others s1"
        using client_post_rep [OF r1] .
      show thesis
        by (rule that [of s2]) (use yes True step s1 s2 h full in \<open>simp_all add: others_eq\<close>)
    qed
  qed
qed

lemma process_loop_run:
  assumes arr: "ports f = Some arr" "nports f \<le> length arr" "distinct (take (nports f) arr)"
    and ok: "ringbuffer_ok api bytes cap"
    and bufs: "\<forall>j. length (buffers j) = 4 * unat nframes"
    and over: "\<forall>i < nports f. pv_over (w i) < 2 ^ 31 - 1"
  shows "client_rep A B this s n xs v f \<Longrightarrow> i \<le> nports f \<Longrightarrow>
    (\<forall>k. i \<le> k \<and> k < nports f \<longrightarrow> port_is bytes cap (port_store s) (arr ! k) (w k)) \<Longrightarrow>
    \<exists>s' rc served. process_spec (map (\<lambda>k. fits_in nframes (w k)) [i..<nports f]) (n - length xs) = (rc, served) \<and>
      process_loop api buffers nframes this i s = Some (rc, s') \<and>
      client_rep A B this s' n (xs @ replicate served (process_event f)) ((sem_up ^^ served) v) f \<and>
      events s' = events s \<and> latches s' = latches s \<and> jackd s' = jackd s \<and>
      (\<forall>r. r \<notin> set (drop i (take (nports f) arr)) \<longrightarrow> get_obj r (port_store s') = get_obj r (port_store s)) \<and>
      (\<forall>k. i \<le> k \<and> k < i + served \<longrightarrow>
         port_rep bytes cap (arr ! k) (port_store s') (pv_cap (w k)) (pv_size (w k)) (pv_over (w k))
           (pv_queue (w k) @ buffers (pv_jport (w k))))"
proof (induction "nports f - i" arbitrary: i s xs v)
  case 0
  then have "i = nports f" by simp
  moreover obtain c where "get_obj this (clients s) = Some c" "fixed c = f"
    using 0(2) by (rule client_repE)
  moreover from this(2) have "nports c = nports f" by (rule fixed_sel)
  ultimately show ?case using 0(2) by (subst process_loop.simps) auto
next
  case (Suc d)
  then have i: "i < nports f" by simp
  have split: "map (\<lambda>k. fits_in nframes (w k)) [i..<nports f] =
      fits_in nframes (w i) # map (\<lambda>k. fits_in nframes (w k)) [Suc i..<nports f]"
    using i by (simp add: upt_conv_Cons)
  have drop: "drop i (take (nports f) arr) = arr ! i # drop (Suc i) (take (nports f) arr)"
    using i arr(2) by (simp add: Cons_nth_drop_Suc [symmetric])
  have neq: "arr ! k \<noteq> arr ! i" if "Suc i \<le> k" "k < nports f" for k
    using that arr(2,3) i by (auto simp: distinct_conv_nth)
  have pi: "port_is bytes cap (port_store s) (arr ! i) (w i)" and ov: "pv_over (w i) < 2 ^ 31 - 1"
    using Suc.prems(3) i over by auto
  let ?go = "fits_in nframes (w i) \<and> length xs < n"
  obtain s1 where s1:
    "process_loop api buffers nframes this i s =
       (if ?go then process_loop api buffers nframes this (Suc i) s1 else Some (- 1, s1))"
    "client_rep A B this s1 n (if ?go then xs @ [process_event f] else xs) (if ?go then sem_up v else v) f"
    "events s1 = events s" "latches s1 = latches s" "jackd s1 = jackd s"
    "\<And>r. r \<noteq> arr ! i \<Longrightarrow> get_obj r (port_store s1) = get_obj r (port_store s)"
    "fits_in nframes (w i) \<Longrightarrow> port_rep bytes cap (arr ! i) (port_store s1) (pv_cap (w i)) (pv_size (w i))
       (pv_over (w i)) (pv_queue (w i) @ buffers (pv_jport (w i)))"
    by (rule process_loop_step [OF Suc.prems(1) arr(1) i arr(2) ok pi bufs ov]) (rule that)
  show ?case
  proof (cases ?go)
    case False
    then have "process_spec (map (\<lambda>k. fits_in nframes (w k)) [i..<nports f]) (n - length xs) = (- 1, 0)"
      by (auto simp: split)
    with False s1 drop show ?thesis by (intro exI [of _ s1] exI [of _ "- 1"] exI [of _ 0]) auto
  next
    case True
    have rep1: "client_rep A B this s1 n (xs @ [process_event f]) (sem_up v) f" using s1(2) True by simp
    have rest: "\<forall>k. Suc i \<le> k \<and> k < nports f \<longrightarrow> port_is bytes cap (port_store s1) (arr ! k) (w k)"
      using Suc.prems(3) s1(6) neq port_is_other by (metis Suc_leD)
    have d: "d = nports f - Suc i" "Suc i \<le> nports f" using Suc.hyps(2) i by auto
    obtain s' rc served where r:
      "process_spec (map (\<lambda>k. fits_in nframes (w k)) [Suc i..<nports f]) (n - length (xs @ [process_event f])) = (rc, served)"
      "process_loop api buffers nframes this (Suc i) s1 = Some (rc, s')"
      "client_rep A B this s' n ((xs @ [process_event f]) @ replicate served (process_event f)) ((sem_up ^^ served) (sem_up v)) f"
      "events s' = events s1" "latches s' = latches s1" "jackd s' = jackd s1"
      "\<forall>r. r \<notin> set (drop (Suc i) (take (nports f) arr)) \<longrightarrow> get_obj r (port_store s') = get_obj r (port_store s1)"
      "\<forall>k. Suc i \<le> k \<and> k < Suc i + served \<longrightarrow>
         port_rep bytes cap (arr ! k) (port_store s') (pv_cap (w k)) (pv_size (w k)) (pv_over (w k))
           (pv_queue (w k) @ buffers (pv_jport (w k)))"
      using Suc.hyps(1) [OF d(1) rep1 d(2) rest] by blast
    have spec: "process_spec (map (\<lambda>k. fits_in nframes (w k)) [i..<nports f]) (n - length xs) = (rc, Suc served)"
      using r(1) True by (simp add: split)
    have out: "arr ! i \<notin> set (drop (Suc i) (take (nports f) arr))"
      using arr(2,3) drop distinct_drop [OF arr(3), of i] by simp
    have first: "port_rep bytes cap (arr ! i) (port_store s') (pv_cap (w i)) (pv_size (w i)) (pv_over (w i))
           (pv_queue (w i) @ buffers (pv_jport (w i)))"
      by (rule port_rep_other [OF s1(7)]) (use True r(7) out in auto)
    have all: "port_rep bytes cap (arr ! k) (port_store s') (pv_cap (w k)) (pv_size (w k)) (pv_over (w k))
           (pv_queue (w k) @ buffers (pv_jport (w k)))" if "i \<le> k" "k < i + Suc served" for k
      using first r(8) that by (cases "k = i") auto
    have rep2: "client_rep A B this s' n (xs @ replicate (Suc served) (process_event f)) ((sem_up ^^ Suc served) v) f"
      using r(3) by (simp add: funpow_swap1)
    have same: "\<forall>r. r \<notin> set (drop i (take (nports f) arr)) \<longrightarrow> get_obj r (port_store s') = get_obj r (port_store s)"
      using r(7) s1(6) unfolding drop by auto
    show ?thesis
      using spec r(2) rep2 r(4-6) s1(1,3-5) same all True
      by (intro exI [of _ s'] exI [of _ rc] exI [of _ "Suc served"]) simp
  qed
qed

end
