(* ===== verification/Client_Life.thy ===== *)
theory Client_Life
  imports Client_Correct
begin

text \<open>
  The life of a client: what \<open>JacksRbClient_new\<close> builds, port registration up to the fixed
  size of the port table, activation, the session protocol between the callback and the
  script, and what \<open>JacksRbClient_free\<close> gives back and what it keeps.
\<close>

section \<open>Construction\<close>

definition always_alloc :: "'a store \<Rightarrow> bool" where
  "always_alloc h \<longleftrightarrow> (\<forall>k. alloc_ok h k)"

lemma always_new:
  "always_alloc h \<Longrightarrow> new_obj x h =
     (Some (next_addr h), h\<lparr>alloc_calls := Suc (alloc_calls h), objs := (objs h)(next_addr h \<mapsto> x),
        next_addr := Suc (next_addr h)\<rparr>)"
  by (simp add: always_alloc_def new_obj_def Let_def)

lemma always_alloc_upd [simp]:
  "always_alloc (h\<lparr>alloc_calls := k\<rparr>) = always_alloc h" "always_alloc (h\<lparr>objs := g\<rparr>) = always_alloc h"
  "always_alloc (h\<lparr>next_addr := a\<rparr>) = always_alloc h"
  by (simp_all add: always_alloc_def)

text \<open>The objects a client owns in the other stores.\<close>

definition plain_event :: "int \<Rightarrow> token_fn jacks_event_T" where
  "plain_event t = \<lparr>etype = t, event_data = NULL, ctoken = None, ctoken_arg = NULL\<rparr>"

definition client_objects :: "jacks_rb_client_T \<Rightarrow> 'rb jacks \<Rightarrow> bool" where
  "client_objects f s \<longleftrightarrow>
     get_obj (process_event f) (events s) = Some (plain_event 0) \<and>
     get_obj (sample_rate_event f) (events s) = Some (plain_event 3) \<and>
     get_obj (shutdown_event f) (events s) = Some (plain_event 4) \<and>
     (\<exists>d. get_obj (session_event f) (events s) = Some \<lparr>etype = 1, event_data = d,
        ctoken = Some JacksLatch_post_fn, ctoken_arg = session_latch f\<rparr>) \<and>
     distinct [process_event f, session_event f, sample_rate_event f, shutdown_event f] \<and>
     get_obj (session_latch f) (latches s) \<noteq> None"

lemma ucast_bound: "(ucast (r :: u32) :: u64) + 1 \<noteq> 0" "unat (ucast r :: u64) = unat r"
proof -
  have r: "unat r < 2 ^ 32" using unsigned_less [of r] by simp
  then show u: "unat (ucast r :: u64) = unat r"
    by (simp add: unsigned_ucast_eq take_bit_nat_eq_self)
  show "(ucast r :: u64) + 1 \<noteq> 0"
  proof
    assume "(ucast r :: u64) + 1 = 0"
    then have "unat ((ucast r :: u64) + 1) = 0" by simp
    moreover have "unat ((ucast r :: u64) + 1) = unat r + 1"
      using u r by (simp add: unat_word_ariths)
    ultimately show False by simp
  qed
qed

lemma client_new_ok:
  assumes mem: "always_ok (lfds s)" "mem_wf (lfds s)"
    and alloc: "always_alloc (clients s)" "always_alloc (events s)" "always_alloc (latches s)"
    and jc: "open_client \<noteq> NULL" and r: "r = (if rbs \<noteq> 0 then rbs else DEFAULT_RB_SIZE)"
  obtains this s' A B f where
    "JacksRbClient_new open_client junk junk_ports rbs s = Some (Inr (this, s'))"
    "client_rep A B this s' (unat r) [] 1 f" "client_objects f s'"
    "ports f = Some (map junk_ports [0..<MAX_PORTS])" "nports f = 0" "activated f = NO" "rb_size f = r"
    "client f = open_client" "session_callback (jackd s') = Some this"
    "get_obj (session_latch f) (latches s') = Some \<lparr>status = NOT_POSTED\<rparr>"
    "port_store s' = port_store s"
proof -
  define h0 where "h0 = snd (new_obj junk (clients s))"
  define this where "this = Some (next_addr (clients s))"
  define c1 where "c1 = junk\<lparr>ports := Some (map junk_ports [0..<MAX_PORTS]), nports := 0, activated := NO, rb_size := r\<rparr>"
  define s1 where "s1 = s\<lparr>clients := h0\<lparr>alloc_calls := Suc (alloc_calls h0)\<rparr>\<rparr>"
  have new: "new_obj junk (clients s) = (this, h0)" and g0: "get_obj this (clients s1) = Some junk"
    and ao: "alloc_ok h0 k" for k
    using alloc(1) by (simp_all add: always_new h0_def this_def s1_def) (simp add: always_alloc_def)
  obtain h1 where u1: "upd_client this (\<lambda>c. c\<lparr>ports := Some (map junk_ports [0..<MAX_PORTS]), nports := 0,
      activated := NO, rb_size := r\<rparr>) s1 = Some (s1\<lparr>clients := h1\<rparr>)" "get_obj this h1 = Some c1"
    using upd_client_eq [OF g0] unfolding c1_def by blast
  obtain qs m' A B where q: "queue_new (ucast r) (lfds s) = Some (1, Some qs, m')"
    "fifo_rep A B (qs, m') (unat r) []" "queue_state_ok A B (qs, m') (unat r)"
    by (rule queue_new_ok [OF mem ucast_bound(1) [of r], unfolded ucast_bound(2)]) (rule that)
  let ?a = "next_addr (events s)"
  define sl where "sl = Some (next_addr (latches s))"
  define la where "la = snd (JacksLatch_new (latches s))"
  define ev1 where "ev1 = snd (JacksEvent_new (event_code PROCESS) None NULL (events s))"
  define ev2 where "ev2 = snd (JacksEvent_new (event_code SESSION) (Some JacksLatch_post_fn) sl ev1)"
  define ev3 where "ev3 = snd (JacksEvent_new (event_code SAMPLE_RATE_CHANGE) None NULL ev2)"
  define ev4 where "ev4 = snd (JacksEvent_new (event_code SHUTDOWN) None NULL ev3)"
  have news: "JacksLatch_new (latches s) = (sl, la)"
    "JacksEvent_new (event_code PROCESS) None NULL (events s) = (Some ?a, ev1)"
    "JacksEvent_new (event_code SESSION) (Some JacksLatch_post_fn) sl ev1 = (Some (Suc ?a), ev2)"
    "JacksEvent_new (event_code SAMPLE_RATE_CHANGE) None NULL ev2 = (Some (?a + 2), ev3)"
    "JacksEvent_new (event_code SHUTDOWN) None NULL ev3 = (Some (?a + 3), ev4)"
    using alloc(2,3) by (simp_all add: JacksLatch_new_def JacksEvent_new_def always_new sl_def la_def
        ev1_def ev2_def ev3_def ev4_def)
  have objs: "get_obj (Some ?a) ev4 = Some (plain_event 0)"
    "get_obj (Some (Suc ?a)) ev4 = Some \<lparr>etype = 1, event_data = NULL, ctoken = Some JacksLatch_post_fn, ctoken_arg = sl\<rparr>"
    "get_obj (Some (?a + 2)) ev4 = Some (plain_event 3)" "get_obj (Some (?a + 3)) ev4 = Some (plain_event 4)"
    "get_obj sl la = Some \<lparr>status = NOT_POSTED\<rparr>"
    using alloc(2,3) by (simp_all add: JacksLatch_new_def JacksEvent_new_def always_new sl_def la_def
        ev1_def ev2_def ev3_def ev4_def plain_event_def)
  let ?s2 = "s1\<lparr>clients := h1, lfds := m', events := ev4, latches := la\<rparr>"
  let ?up = "\<lambda>c. c\<lparr>event_queue := Some qs, mutex := 1, process_event := Some ?a, session_latch := sl,
    session_event := Some (Suc ?a), sample_rate_event := Some (?a + 2), shutdown_event := Some (?a + 3),
    client := open_client\<rparr>"
  obtain h2 where u2: "upd_client this ?up ?s2 = Some (?s2\<lparr>clients := h2\<rparr>)" "get_obj this h2 = Some (?up c1)"
    using upd_client_eq [of this ?s2 c1 ?up] u1(2) by auto
  let ?s3 = "?s2\<lparr>clients := h2, jackd := (jackd s1)\<lparr>client_open := True, on_shutdown := Some this,
    sample_rate_callback := Some this, session_callback := Some this\<rparr>\<rparr>"
  have run: "JacksRbClient_new open_client junk junk_ports rbs s = Some (Inr (this, ?s3))"
    using u1(1) u2(1) jc
    by (simp add: JacksRbClient_new_def new ao r [symmetric] s1_def q(1) news numeral_2_eq_2 del: event_code.simps)
  show thesis
  proof (rule that [OF run])
    show "client_rep A B this ?s3 (unat r) [] 1 (fixed (?up c1))"
      using u2(2) q(2,3) by (simp add: client_rep_def)
    show "client_objects (fixed (?up c1)) ?s3"
      using objs by (simp add: client_objects_def fixed_def)
  qed (use objs(5) in \<open>simp_all add: fixed_def c1_def s1_def\<close>)
qed

section \<open>Port registration\<close>

lemma register_full:
  assumes "get_obj this (clients s) = Some c" "ports c = Some arr" "length arr \<le> nports c"
  shows "JacksRbClient_registerPort api reg junk this name options s = None"
  using assms by (auto simp: JacksRbClient_registerPort_def bind_eq_None_conv)

text \<open>A new port lies at a fresh address and leaves the other ports alone.\<close>

lemma port_new_fresh:
  assumes ok: "ringbuffer_ok api bytes cap" and mem: "always_alloc h"
    and ring: "rb_create api (jacks_sample_size * ucast s) = Some ring"
  shows "\<exists>h'. JacksRbPort_new api junk jp cl s h = Some (Some (next_addr h), h') \<and>
    port_is bytes cap h' (Some (next_addr h))
      \<lparr>pv_cap = cap ring, pv_size = s, pv_over = junk_int junk, pv_queue = [], pv_jport = jp\<rparr> \<and>
    4 * unat s \<le> Suc (cap ring) \<and> next_addr h' = Suc (next_addr h) \<and> always_alloc h' \<and>
    (\<forall>r. r \<noteq> Some (next_addr h) \<longrightarrow> get_obj r h' = get_obj r h)"
proof -
  let ?p = "\<lparr>playback_lat_cb_fd = (0, 0), capture_lat_cb_fd = (0, 0), lat_cb_is_init = False,
    port_rb_size = s, jport = jp, jackclient = cl, rb = Some ring,
    framebuf = Some (map (junk_byte junk) [0..<unat s]), overruns = junk_int junk\<rparr>"
  let ?h' = "h\<lparr>alloc_calls := Suc (Suc (alloc_calls h)), next_addr := Suc (next_addr h),
    objs := (objs h)(next_addr h \<mapsto> ?p)\<rparr>"
  have "JacksRbPort_new api junk jp cl s h = Some (Some (next_addr h), ?h')"
    using mem ring by (simp add: JacksRbPort_new_def always_new malloc_bytes_def put_obj_def Let_def)
      (simp add: always_alloc_def)
  moreover have "port_is bytes cap ?h' (Some (next_addr h))
      \<lparr>pv_cap = cap ring, pv_size = s, pv_over = junk_int junk, pv_queue = [], pv_jport = jp\<rparr>"
    using ring_create [OF ok ring] by (simp add: port_is_def port_rep_def JacksRbPort_get_port_def)
  moreover have "4 * unat s \<le> Suc (cap ring)" using ring_create [OF ok ring] by (simp add: sample_bytes)
  moreover have "\<forall>r. r \<noteq> Some (next_addr h) \<longrightarrow> get_obj r ?h' = get_obj r h"
    by (auto simp: get_obj_def split: bind_split)
  ultimately show ?thesis using mem by (intro exI [of _ ?h']) simp
qed

text \<open>
  The state of a client with \<open>k\<close> registered ports: their pointers are distinct, allocated and
  ready for a process cycle.
\<close>

definition ports_ready ::
  "('rb \<Rightarrow> u8 list) \<Rightarrow> ('rb \<Rightarrow> nat) \<Rightarrow> jacks_rb_client_T \<Rightarrow> 'rb jacks \<Rightarrow> nat \<Rightarrow> (nat \<Rightarrow> port_view) \<Rightarrow> bool" where
  "ports_ready bytes cap f s k w \<longleftrightarrow>
     nports f = k \<and> (\<exists>arr. ports f = Some arr \<and> length arr = MAX_PORTS \<and> k \<le> MAX_PORTS \<and>
       distinct (take k arr) \<and>
       (\<forall>i < k. port_is bytes cap (port_store s) (arr ! i) (w i) \<and>
          (\<exists>a < next_addr (port_store s). arr ! i = Some a))) \<and>
     always_alloc (port_store s)"

paragraph \<open>Process cycles on registered ports\<close>

lemma process_cycle_run:
  assumes "client_rep A B this s n xs v f" "ports_ready bytes cap f s k w" "ringbuffer_ok api bytes cap"
    "\<forall>j. length (buffers j) = 4 * unat nframes" "\<forall>i < k. pv_over (w i) < 2 ^ 31 - 1" "ports f = Some arr"
  shows "\<exists>s' rc served.
    process_spec (map (\<lambda>i. fits_in nframes (w i)) [0..<k]) (n - length xs) = (rc, served) \<and>
    process_cb api buffers nframes this s = Some (rc, s') \<and>
    client_rep A B this s' n (xs @ replicate served (process_event f)) ((sem_up ^^ served) v) f \<and>
    events s' = events s \<and> latches s' = latches s \<and> jackd s' = jackd s \<and>
    (\<forall>r. r \<notin> set (take k arr) \<longrightarrow> get_obj r (port_store s') = get_obj r (port_store s)) \<and>
    (\<forall>i < served. port_rep bytes cap (arr ! i) (port_store s') (pv_cap (w i)) (pv_size (w i)) (pv_over (w i))
       (pv_queue (w i) @ buffers (pv_jport (w i))))"
proof -
  have arr: "nports f = k" "length arr = MAX_PORTS" "k \<le> MAX_PORTS" "distinct (take k arr)"
    "\<forall>i < k. port_is bytes cap (port_store s) (arr ! i) (w i)"
    using assms(2,6) by (auto simp: ports_ready_def)
  from process_loop_run [OF assms(6) _ _ assms(3,4), of w A B this s n xs v 0] arr assms(1,5)
  show ?thesis by (auto simp: process_cb_def)
qed

lemma process_spec_room: "k \<le> m \<Longrightarrow> process_spec (replicate k True) m = (0, k)"
proof (induction k arbitrary: m)
  case (Suc k)
  then show ?case by (cases m) simp_all
qed simp

text \<open>
  A cycle with room everywhere, then the script's event and its read of a port that was empty: the
  read gives the bytes JACK had for the port.
\<close>

lemma cycle_event_read:
  assumes rep: "client_rep A B this s0 n [] u f" and ready: "ports_ready bytes cap f s0 k pw"
    and ok: "ringbuffer_ok api bytes cap" and buffers: "\<forall>j. length (buffers j) = 4 * unat nframes"
    and room: "\<forall>i < k. pv_over (pw i) < 2 ^ 31 - 1 \<and> fits_in nframes (pw i)" "k \<le> n"
    and port: "i < k" "ports f = Some arr" "pv_queue (pw i) = []" "4 * unat nframes \<le> unat (pv_size (pw i))"
      "unat (pv_size (pw i)) < 2 ^ 31"
  obtains s s2 buf h where "process_cb api buffers nframes this s0 = Some (0, s)"
    "JacksRbClient_get_event [] this (- 1) s = Some (process_event f, [], s2)" "events s2 = events s0"
    "JacksRbPort_read_from_ringbuffer api (arr ! i) (port_store s2) = Some (Some buf, int (4 * unat nframes), h)"
    "take (4 * unat nframes) buf = buffers (pv_jport (pw i))"
proof -
  have over: "\<forall>i < k. pv_over (pw i) < 2 ^ 31 - 1" using room(1) by blast
  have all: "map (\<lambda>i. fits_in nframes (pw i)) [0..<k] = replicate k True"
    using room(1) by (intro nth_equalityI) simp_all
  obtain s where s: "process_cb api buffers nframes this s0 = Some (0, s)"
    "client_rep A B this s n (replicate k (process_event f)) ((sem_up ^^ k) u) f" "events s = events s0"
    "\<forall>i < k. port_rep bytes cap (arr ! i) (port_store s) (pv_cap (pw i)) (pv_size (pw i)) (pv_over (pw i))
       (pv_queue (pw i) @ buffers (pv_jport (pw i)))"
    using process_cycle_run [OF rep ready ok buffers over port(2)] room(2) by (auto simp: all process_spec_room)
  have "replicate k (process_event f) = process_event f # replicate (k - 1) (process_event f)"
    using port(1) by (cases k) simp_all
  with s(2) have rep': "client_rep A B this s n (process_event f # replicate (k - 1) (process_event f)) ((sem_up ^^ k) u) f"
    by simp
  obtain s2 where s2: "JacksRbClient_get_event [] this (- 1) s = Some (process_event f, [], s2)" "others s2 = others s"
    using get_event_ready [OF rep'] by blast
  have pr: "port_rep bytes cap (arr ! i) (port_store s2) (pv_cap (pw i)) (pv_size (pw i)) (pv_over (pw i))
      (buffers (pv_jport (pw i)))"
    using s(4) port(1,3) s2(2) by (auto simp: others_eq)
  have len: "min (length (buffers (pv_jport (pw i)))) (unat (pv_size (pw i))) = 4 * unat nframes"
    using buffers port(4) by simp
  obtain buf h where rd: "JacksRbPort_read_from_ringbuffer api (arr ! i) (port_store s2) =
      Some (Some buf, int (4 * unat nframes), h)"
    "take (4 * unat nframes) buf = take (unat (pv_size (pw i))) (buffers (pv_jport (pw i)))"
    by (rule port_read [OF ok pr port(5)], unfold len) (rule that)
  have "events s2 = events s0" using s(3) s2(2) by (simp add: others_eq)
  moreover have "take (4 * unat nframes) buf = buffers (pv_jport (pw i))" using rd(2) buffers port(4) by simp
  ultimately show thesis using s(1) s2(1) rd(1) that by blast
qed

text \<open>A port as it comes out of registration.\<close>

definition fresh_view :: "nat \<Rightarrow> u32 \<Rightarrow> int \<Rightarrow> ptr \<Rightarrow> port_view" where
  "fresh_view c sz over jp = \<lparr>pv_cap = c, pv_size = sz, pv_over = over, pv_queue = [], pv_jport = jp\<rparr>"

lemma register_ok:
  assumes rep: "client_rep A B this s n xs v f" and ready: "ports_ready bytes cap f s k w" and k: "k < MAX_PORTS"
    and ok: "ringbuffer_ok api bytes cap"
    and create: "rb_create api (jacks_sample_size * ucast (rb_size f)) = Some ring"
  obtains s' f' where
    "JacksRbClient_registerPort api reg junk this name options s = Some (Some (next_addr (port_store s)), s')"
    "client_rep A B this s' n xs v f'"
    "ports_ready bytes cap f' s' (Suc k)
       (w(k := fresh_view (cap ring) (rb_size f) (junk_int junk) (reg (client f) name options)))"
    "rb_size f' = rb_size f" "client f' = client f" "client_objects f s \<Longrightarrow> client_objects f' s'"
proof -
  obtain c qs where c: "get_obj this (clients s) = Some c" "event_queue c = Some qs"
    "fifo_rep A B (qs, lfds s) n xs" "queue_state_ok A B (qs, lfds s) n" "mutex c = v" "fixed c = f"
    using rep by (rule client_repE)
  note cf = fixed_sel [OF c(6)]
  obtain arr where arr: "nports f = k" "ports f = Some arr" "length arr = MAX_PORTS" "distinct (take k arr)"
    "\<forall>i < k. port_is bytes cap (port_store s) (arr ! i) (w i) \<and>
       (\<exists>a < next_addr (port_store s). arr ! i = Some a)" "always_alloc (port_store s)"
    using ready by (auto simp: ports_ready_def)
  let ?jp = "Some (next_addr (port_store s))"
  obtain h where h: "JacksRbPort_new api junk (reg (client f) name options) this (rb_size f) (port_store s) =
      Some (?jp, h)"
    "port_is bytes cap h ?jp (fresh_view (cap ring) (rb_size f) (junk_int junk) (reg (client f) name options))"
      (is "port_is _ _ _ _ ?w")
    "next_addr h = Suc (next_addr (port_store s))" "always_alloc h"
    "\<forall>r. r \<noteq> ?jp \<longrightarrow> get_obj r h = get_obj r (port_store s)"
    using port_new_fresh [OF ok arr(6) create] unfolding fresh_view_def by blast
  let ?up = "\<lambda>c. c\<lparr>ports := Some (arr[nports c := ?jp]), nports := Suc (nports c)\<rparr>"
  obtain hc where u: "upd_client this ?up (s\<lparr>port_store := h\<rparr>) = Some (s\<lparr>port_store := h, clients := hc\<rparr>)"
    "get_obj this hc = Some (?up c)"
    using upd_client_eq [of this "s\<lparr>port_store := h\<rparr>" c ?up] c(1) by auto
  have nk: "nports c = k" using cf arr(1) by simp
  let ?s = "s\<lparr>port_store := h, clients := hc\<rparr>" and ?w = "w(k := ?w)"
  have not_new: "arr ! i \<noteq> ?jp" if "i < k" for i using arr(5) that by force
  show thesis
  proof (rule that)
    show "JacksRbClient_registerPort api reg junk this name options s = Some (?jp, ?s)"
      using c(1) cf arr(1-3) h(1) k u(1)
      by (simp add: JacksRbClient_registerPort_def JacksRbPort_new_port_def JacksRbClient_get_client_def)
    show "client_rep A B this ?s n xs v (fixed (?up c))"
      using u(2) c by (simp add: client_rep_def)
    show "ports_ready bytes cap (fixed (?up c)) ?s (Suc k) ?w"
    proof -
      have take: "take (Suc k) (arr[k := ?jp]) = take k arr @ [?jp]"
        using k arr(3) by (simp add: take_Suc_conv_app_nth)
      have "?jp \<notin> set (take k arr)"
        using not_new arr(3) k by (auto simp: in_set_conv_nth)
      then have dist: "distinct (take (Suc k) (arr[k := ?jp]))" using arr(4) take by simp
      have each: "port_is bytes cap h (arr[k := ?jp] ! i) (?w i) \<and> (\<exists>a < next_addr h. arr[k := ?jp] ! i = Some a)"
        if "i < Suc k" for i
      proof (cases "i = k")
        case True
        then show ?thesis using h(2,3) k arr(3) by simp
      next
        case False
        with that have i: "i < k" by simp
        have "port_is bytes cap h (arr ! i) (w i)"
          by (rule port_is_other) (use arr(5) i h(5) not_new [OF i] in auto)
        moreover obtain a where "a < next_addr (port_store s)" "arr ! i = Some a" using arr(5) i by blast
        ultimately show ?thesis using False h(3) by (auto intro!: exI [of _ a])
      qed
      show ?thesis
        using dist each k h(4) arr(3) by (simp add: ports_ready_def fixed_def nk)
    qed
  qed (use cf in \<open>simp_all add: fixed_def client_objects_def\<close>)
qed

text \<open>Registrations one after the other.\<close>

fun register_many ::
  "'rb ringbuffer_api \<Rightarrow> (ptr \<Rightarrow> string \<Rightarrow> u64 \<Rightarrow> ptr) \<Rightarrow> indeterminate \<Rightarrow> ptr \<Rightarrow> (string \<times> u64) list \<Rightarrow>
     'rb jacks \<Rightarrow> 'rb jacks option" where
  "register_many api reg junk this [] s = Some s"
| "register_many api reg junk this ((name, options) # reqs) s = do {
     (jp, s) \<leftarrow> JacksRbClient_registerPort api reg junk this name options s;
     register_many api reg junk this reqs s
   }"

lemma register_many_ok:
  assumes ok: "ringbuffer_ok api bytes cap"
  shows "client_rep A B this s n xs v f \<Longrightarrow> ports_ready bytes cap f s k w \<Longrightarrow>
    rb_create api (jacks_sample_size * ucast (rb_size f)) = Some ring \<Longrightarrow>
    (if k + length reqs \<le> MAX_PORTS
     then \<exists>s' f' w'. register_many api reg junk this reqs s = Some s' \<and> client_rep A B this s' n xs v f' \<and>
       ports_ready bytes cap f' s' (k + length reqs) w' \<and> (\<forall>i < k. w' i = w i) \<and>
       (\<forall>i < length reqs. w' (k + i) = fresh_view (cap ring) (rb_size f) (junk_int junk)
          (reg (client f) (fst (reqs ! i)) (snd (reqs ! i)))) \<and>
       (client_objects f s \<longrightarrow> client_objects f' s')
     else register_many api reg junk this reqs s = None)"
proof (induction reqs arbitrary: s k f w)
  case Nil
  then have "k \<le> MAX_PORTS" by (auto simp: ports_ready_def)
  with Nil show ?case by force
next
  case (Cons req reqs)
  obtain name options where req: "req = (name, options)" by (cases req)
  show ?case
  proof (cases "k < MAX_PORTS")
    case True
    obtain s' f' where r:
      "JacksRbClient_registerPort api reg junk this name options s = Some (Some (next_addr (port_store s)), s')"
      "client_rep A B this s' n xs v f'"
      "ports_ready bytes cap f' s' (Suc k)
         (w(k := fresh_view (cap ring) (rb_size f) (junk_int junk) (reg (client f) name options)))"
      "rb_size f' = rb_size f" "client f' = client f" "client_objects f s \<Longrightarrow> client_objects f' s'"
      by (rule register_ok [OF Cons.prems(1,2) True ok Cons.prems(3)]) (rule that)
    have c': "rb_create api (jacks_sample_size * ucast (rb_size f')) = Some ring"
      using Cons.prems(3) r(4) by simp
    note IH = Cons.IH [OF r(2,3) c']
    show ?thesis
    proof (cases "Suc k + length reqs \<le> MAX_PORTS")
      case fits: True
      obtain s2 f2 w2 where w2: "register_many api reg junk this reqs s' = Some s2" "client_rep A B this s2 n xs v f2"
        "ports_ready bytes cap f2 s2 (Suc k + length reqs) w2"
        "\<forall>i < Suc k. w2 i = (w(k := fresh_view (cap ring) (rb_size f) (junk_int junk) (reg (client f) name options))) i"
        "\<forall>i < length reqs. w2 (Suc k + i) = fresh_view (cap ring) (rb_size f) (junk_int junk)
           (reg (client f) (fst (reqs ! i)) (snd (reqs ! i)))"
        "client_objects f' s' \<longrightarrow> client_objects f2 s2"
        using IH fits r(4,5) by auto
      have "w2 (k + i) = fresh_view (cap ring) (rb_size f) (junk_int junk)
          (reg (client f) (fst ((req # reqs) ! i)) (snd ((req # reqs) ! i)))" if "i < length (req # reqs)" for i
        using w2(4,5) that by (cases i) (simp_all add: req)
      moreover have "\<forall>i < k. w2 i = w i" using w2(4) by simp
      ultimately show ?thesis using r(1,6) w2(1-3,6) fits by (auto simp: req)
    next
      case False
      with IH r(1) show ?thesis by (simp add: req)
    qed
  next
    case False
    obtain arr where arr: "ports f = Some arr" "length arr \<le> nports f"
      using Cons.prems(2) False by (auto simp: ports_ready_def)
    obtain c where c: "get_obj this (clients s) = Some c" "fixed c = f"
      using Cons.prems(1) by (rule client_repE)
    have "JacksRbClient_registerPort api reg junk this name options s = None"
      by (rule register_full [OF c(1)]) (use arr fixed_sel [OF c(2)] in simp_all)
    with False show ?thesis by (simp add: req)
  qed
qed

section \<open>Activation\<close>

lemma activate_audio:
  assumes "get_obj this (clients s) = Some c" "activated c \<noteq> YES"
  shows "\<exists>s'. JacksRbClient_activate rc this YES s = Some (rc, s') \<and>
    process_callback (jackd s') = Some this \<and> JacksRbClient_activate rc2 this pa s' = Some (- 1, s')"
proof -
  obtain h where h: "upd_client this (\<lambda>c. c\<lparr>activated := YES\<rparr>) (s\<lparr>jackd := (jackd s)\<lparr>process_callback := Some this\<rparr>\<rparr>) =
      Some (s\<lparr>jackd := (jackd s)\<lparr>process_callback := Some this\<rparr>, clients := h\<rparr>)"
    "get_obj this h = Some (c\<lparr>activated := YES\<rparr>)"
    using upd_client_eq [of this "s\<lparr>jackd := (jackd s)\<lparr>process_callback := Some this\<rparr>\<rparr>" c] assms(1) by auto
  with assms show ?thesis by (simp add: JacksRbClient_activate_def)
qed

lemma activate_no_audio:
  "get_obj this (clients s) = Some c \<Longrightarrow> activated c \<noteq> YES \<Longrightarrow> pa \<noteq> YES \<Longrightarrow>
     JacksRbClient_activate rc this pa s = Some (rc, s)"
  by (simp add: JacksRbClient_activate_def)

section \<open>The session protocol\<close>

text \<open>The script's side of a session event: take the next event and complete it.\<close>

definition answer :: "ptr \<Rightarrow> 'rb jacks \<Rightarrow> 'rb jacks option" where
  "answer this s = do {
     (je, _, s) \<leftarrow> JacksRbClient_get_event [] this 0 s;
     complete_event je s
   }"

lemma session_notify:
  assumes rep: "client_rep A B this s n xs v f" and obj: "client_objects f s"
  obtains s' where "session_cb_notify event this s = Some s'"
    "client_rep A B this s' n (if length xs < n then xs @ [session_event f] else xs) (sem_up v) f"
    "JacksEvent_get_data (session_event f) (events s') = Some event" "client_objects f s'"
    "latches s' = latches s" "jackd s' = jackd s" "port_store s' = port_store s"
proof -
  obtain c qs where c: "get_obj this (clients s) = Some c" "fixed c = f"
    using rep by (rule client_repE)
  obtain d where d: "get_obj (session_event f) (events s) = Some \<lparr>etype = 1, event_data = d,
      ctoken = Some JacksLatch_post_fn, ctoken_arg = session_latch f\<rparr>" (is "_ = Some ?e")
    using obj by (auto simp: client_objects_def)
  obtain h where h: "put_obj (session_event f) (?e\<lparr>event_data := event\<rparr>) (events s) = Some h"
    using put_get [OF d] by blast
  note g = get_put [OF h]
  have set: "JacksEvent_set_data (session_event f) event (events s) = Some h"
    using d h by (simp add: JacksEvent_set_data_def)
  have rep': "client_rep A B this (s\<lparr>events := h\<rparr>) n xs v f" by (rule client_rep_same [OF rep]) simp_all
  obtain s1 s' where s': "client_enqueue this (session_event f) (s\<lparr>events := h\<rparr>) = Some (if length xs < n then 1 else 0, s1)"
    "client_post this s1 = Some s'"
    "client_rep A B this s' n (if length xs < n then xs @ [session_event f] else xs) (sem_up v) f"
    "others s' = others (s\<lparr>events := h\<rparr>)"
    using client_notify_rep [OF rep'] .
  have "session_cb_notify event this s = Some s'"
    using c fixed_sel [OF c(2)] set s' by (simp add: session_cb_notify_def)
  moreover have "client_objects f s'"
    using obj s'(4) g d by (auto simp: client_objects_def others_eq)
  moreover have "JacksEvent_get_data (session_event f) (events s') = Some event"
    using s'(4) g by (simp add: others_eq JacksEvent_get_data_def)
  ultimately show thesis using that s' by (simp add: others_eq)
qed

lemma session_finish:
  assumes rep: "client_rep A B this s n xs v f" and obj: "client_objects f s"
  shows "if get_obj (session_latch f) (latches s) = Some \<lparr>status = POSTED\<rparr>
    then \<exists>s'. session_cb_finish [] event this s = Some s' \<and> client_rep A B this s' n xs v f \<and>
      client_objects f s' \<and> JacksEvent_get_data (session_event f) (events s') = Some NULL \<and>
      get_obj (session_latch f) (latches s') = Some \<lparr>status = NOT_POSTED\<rparr> \<and>
      jackd s' = (jackd s)\<lparr>replied := replied (jackd s) @ [event], events_freed := events_freed (jackd s) @ [event]\<rparr>
    else session_cb_finish [] event this s = None"
proof -
  obtain c qs where c: "get_obj this (clients s) = Some c" "fixed c = f"
    using rep by (rule client_repE)
  note cf = fixed_sel [OF c(2)]
  obtain l where l: "get_obj (session_latch f) (latches s) = Some l"
    using obj by (auto simp: client_objects_def)
  obtain d where d: "get_obj (session_event f) (events s) = Some \<lparr>etype = 1, event_data = d,
      ctoken = Some JacksLatch_post_fn, ctoken_arg = session_latch f\<rparr>" (is "_ = Some ?e")
    using obj by (auto simp: client_objects_def)
  have st: "l = \<lparr>status = POSTED\<rparr> \<longleftrightarrow> status l = POSTED" by (cases l) simp
  show ?thesis
  proof (cases "status l = POSTED")
    case False
    then show ?thesis
      using c cf l st by (auto simp: session_cb_finish_def JacksLatch_get_def)
  next
    case True
    obtain hl where hl: "put_obj (session_latch f) (l\<lparr>status := NOT_POSTED\<rparr>) (latches s) = Some hl"
      using put_get [OF l] by blast
    obtain h where h: "put_obj (session_event f) (?e\<lparr>event_data := NULL\<rparr>) (events s) = Some h"
      using put_get [OF d] by blast
    let ?s = "s\<lparr>latches := hl, events := h, jackd := (jackd s)\<lparr>replied := replied (jackd s) @ [event],
      events_freed := events_freed (jackd s) @ [event]\<rparr>\<rparr>"
    have "session_cb_finish [] event this s = Some ?s"
      using c cf l d hl h True by (simp add: session_cb_finish_def JacksLatch_get_def JacksEvent_set_data_def)
    moreover have "client_rep A B this ?s n xs v f" by (rule client_rep_same [OF rep]) simp_all
    moreover have "client_objects f ?s"
      using obj get_put [OF h] get_put [OF hl] d by (auto simp: client_objects_def)
    ultimately show ?thesis
      using True l st get_put [OF h, of "session_event f"] get_put [OF hl, of "session_latch f"]
      by (cases l) (simp add: JacksEvent_get_data_def)
  qed
qed

lemma complete_session:
  assumes obj: "client_objects f s"
  obtains s' where "complete_event (session_event f) s = Some s'" "client_objects f s'"
    "get_obj (session_latch f) (latches s') = Some \<lparr>status = POSTED\<rparr>"
    "clients s' = clients s" "lfds s' = lfds s" "events s' = events s" "jackd s' = jackd s"
proof -
  obtain l where l: "get_obj (session_latch f) (latches s) = Some l"
    using obj by (auto simp: client_objects_def)
  obtain d where d: "get_obj (session_event f) (events s) = Some \<lparr>etype = 1, event_data = d,
      ctoken = Some JacksLatch_post_fn, ctoken_arg = session_latch f\<rparr>"
    using obj by (auto simp: client_objects_def)
  obtain hl where hl: "put_obj (session_latch f) (l\<lparr>status := POSTED\<rparr>) (latches s) = Some hl"
    using put_get [OF l] by blast
  have "complete_event (session_event f) s = Some (s\<lparr>latches := hl\<rparr>)"
    using l d hl by (simp add: complete_event_def JacksEvent_complete_def JacksLatch_post_def)
  moreover have "client_objects f (s\<lparr>latches := hl\<rparr>)"
    using obj get_put [OF hl] by (auto simp: client_objects_def)
  ultimately show thesis
    using that get_put [OF hl, of "session_latch f"] by (cases l) simp
qed

lemma client_objects_same:
  "client_objects f s \<Longrightarrow> events s' = events s \<Longrightarrow> latches s' = latches s \<Longrightarrow> client_objects f s'"
  by (simp add: client_objects_def)

lemma answer_session:
  assumes rep: "client_rep A B this s n (session_event f # xs) v f" and obj: "client_objects f s"
  obtains s' where "answer this s = Some s'" "client_rep A B this s' n xs v f" "client_objects f s'"
    "get_obj (session_latch f) (latches s') = Some \<lparr>status = POSTED\<rparr>" "events s' = events s" "jackd s' = jackd s"
proof -
  obtain s1 where s1: "JacksRbClient_get_event [] this 0 s = Some (session_event f, [], s1)"
    "client_rep A B this s1 n xs v f" "others s1 = others s"
    using get_event_ready [OF rep] by blast
  have o1: "client_objects f s1"
    by (rule client_objects_same [OF obj]) (use s1(3) in \<open>simp_all add: others_eq\<close>)
  obtain s2 where s2: "complete_event (session_event f) s1 = Some s2" "client_objects f s2"
    "get_obj (session_latch f) (latches s2) = Some \<lparr>status = POSTED\<rparr>"
    "clients s2 = clients s1" "lfds s2 = lfds s1" "events s2 = events s1" "jackd s2 = jackd s1"
    using complete_session [OF o1] .
  show thesis
    by (rule that [of s2]) (use s1 s2 client_rep_same [OF s1(2) s2(4,5)] in \<open>simp_all add: answer_def others_eq\<close>)
qed

text \<open>The events whose completion does nothing, and a script that answers one event after the other.\<close>

definition plain_events :: "jacks_rb_client_T \<Rightarrow> ptr set" where
  "plain_events f = {process_event f, sample_rate_event f, shutdown_event f}"

fun answer_many :: "nat \<Rightarrow> ptr \<Rightarrow> 'rb jacks \<Rightarrow> 'rb jacks option" where
  "answer_many 0 this s = Some s"
| "answer_many (Suc k) this s = Option.bind (answer this s) (answer_many k this)"

lemma answer_plain:
  assumes rep: "client_rep A B this s n (e # xs) v f" and obj: "client_objects f s" and e: "e \<in> plain_events f"
  obtains s' where "answer this s = Some s'" "client_rep A B this s' n xs v f" "others s' = others s"
proof -
  obtain s1 where s1: "JacksRbClient_get_event [] this 0 s = Some (e, [], s1)"
    "client_rep A B this s1 n xs v f" "others s1 = others s"
    using get_event_ready [OF rep] by blast
  have "\<exists>t. get_obj e (events s1) = Some (plain_event t)"
    using obj e s1(3) by (auto simp: client_objects_def plain_events_def others_eq)
  then have "answer this s = Some s1"
    using s1(1) by (auto simp: answer_def complete_event_def JacksEvent_complete_def plain_event_def)
  with s1(2,3) show thesis using that by blast
qed

lemma answer_many_plain:
  "client_rep A B this s n (xs @ ys) v f \<Longrightarrow> client_objects f s \<Longrightarrow> set xs \<subseteq> plain_events f \<Longrightarrow>
     \<exists>s'. answer_many (length xs) this s = Some s' \<and> client_rep A B this s' n ys v f \<and> others s' = others s"
proof (induction xs arbitrary: s)
  case (Cons x xs)
  have x: "client_rep A B this s n (x # (xs @ ys)) v f" "x \<in> plain_events f" "set xs \<subseteq> plain_events f"
    using Cons.prems(1,3) by simp_all
  obtain s1 where s1: "answer this s = Some s1" "client_rep A B this s1 n (xs @ ys) v f" "others s1 = others s"
    using answer_plain [OF x(1) Cons.prems(2) x(2)] .
  have "client_objects f s1"
    by (rule client_objects_same [OF Cons.prems(2)]) (use s1(3) in \<open>simp_all add: others_eq\<close>)
  from Cons.IH [OF s1(2) this x(3)] s1(1,3) show ?case by auto
qed simp

lemma answer_many_add:
  "answer_many (j + k) this s = Option.bind (answer_many j this s) (answer_many k this)"
  by (induction j arbitrary: s) (simp_all cong: Option.bind_cong)

section \<open>Destruction\<close>

lemma get_obj_ptr: "get_obj p h = Some x \<Longrightarrow> \<exists>a. p = Some a \<and> objs h a = Some x"
  by (cases p) simp_all

lemma client_free_ok:
  assumes rep: "client_rep A B this s n xs v f" and obj: "client_objects f s"
  shows "\<exists>s'. JacksRbClient_free (Some this) s = Some s' \<and>
    get_obj this (clients s') = None \<and> get_obj (process_event f) (events s') = None \<and>
    get_obj (session_event f) (events s') = None \<and> get_obj (sample_rate_event f) (events s') = None \<and>
    get_obj (shutdown_event f) (events s') = None \<and> get_obj (session_latch f) (latches s') = None \<and>
    \<not> client_open (jackd s') \<and> lfds s' = lfds s \<and> port_store s' = port_store s"
proof -
  obtain c qs where c: "get_obj this (clients s) = Some c" "fixed c = f"
    using rep by (rule client_repE)
  note cf = fixed_sel [OF c(2)]
  obtain pa where pa: "process_event f = Some pa" "objs (events s) pa = Some (plain_event 0)"
    using obj get_obj_ptr unfolding client_objects_def by (metis not_None_eq)
  obtain sa e where sa: "session_event f = Some sa" "objs (events s) sa = Some e"
    using obj get_obj_ptr unfolding client_objects_def by (metis not_None_eq)
  obtain ra where ra: "sample_rate_event f = Some ra" "objs (events s) ra = Some (plain_event 3)"
    using obj get_obj_ptr unfolding client_objects_def by (metis not_None_eq)
  obtain da where da: "shutdown_event f = Some da" "objs (events s) da = Some (plain_event 4)"
    using obj get_obj_ptr unfolding client_objects_def by (metis not_None_eq)
  obtain la l where la: "session_latch f = Some la" "objs (latches s) la = Some l"
    using obj get_obj_ptr unfolding client_objects_def by (metis not_None_eq)
  obtain ta where ta: "this = Some ta" "objs (clients s) ta = Some c"
    using get_obj_ptr [OF c(1)] by blast
  have dist: "pa \<noteq> sa" "pa \<noteq> ra" "pa \<noteq> da" "sa \<noteq> ra" "sa \<noteq> da" "ra \<noteq> da"
    "sa \<noteq> pa" "ra \<noteq> pa" "da \<noteq> pa" "ra \<noteq> sa" "da \<noteq> sa" "da \<noteq> ra"
    using obj pa(1) sa(1) ra(1) da(1) by (auto simp: client_objects_def)
  let ?ev = "(events s)\<lparr>objs := (objs (events s))(pa := None, sa := None, ra := None, da := None)\<rparr>"
  have "JacksRbClient_free (Some this) s = Some (s\<lparr>clients := (clients s)\<lparr>objs := (objs (clients s))(ta := None)\<rparr>,
      events := ?ev, latches := (latches s)\<lparr>objs := (objs (latches s))(la := None)\<rparr>,
      jackd := (jackd s)\<lparr>client_open := False\<rparr>\<rparr>)"
    using c(1) cf pa sa ra da la ta dist
    by (simp add: JacksRbClient_free_def JacksEvent_free_def JacksLatch_free_def free_obj_def)
  with pa(1) sa(1) ra(1) da(1) la(1) ta(1) dist show ?thesis by simp
qed

end
