(* ===== verification/Helper.thy ===== *)
theory Helper
  imports Prelude
begin

text \<open>
  The error channel of the scripting layer (\<open>corelib/JacksHelper.c\<close>): one static buffer of
  256 characters and a flag. \<open>throw_exception\<close> copies exactly the characters of the
  message, without its terminating zero, so the buffer keeps the tail of a longer earlier
  message; a message of 256 characters or more leaves no terminator at all.

  A C string argument is the list of its characters before the terminator. Reading a buffer
  as a C string (\<open>c_string\<close>) has no value when it holds no terminator.
\<close>

abbreviation NUL :: char where
  "NUL \<equiv> CHR 0x00"

record exception_state =
  error_message :: "char list"
  error_status :: int

definition exception_init :: exception_state where
  "exception_init = \<lparr>error_message = replicate 256 NUL, error_status = 0\<rparr>"

text \<open>
  \<open>strlen\<close> is stored in an \<open>int\<close>; the conditional has type \<open>int\<close> and is converted to
  \<open>size_t\<close>. \<open>strncpy\<close> writes exactly \<open>n\<close> characters, the message padded with zeros; a
  write past the destination is undefined.
\<close>

definition strlen_int :: "string \<Rightarrow> int" where
  "strlen_int msg = sint (of_nat (length msg) :: u32)"

definition strncpy :: "char list \<Rightarrow> string \<Rightarrow> nat \<Rightarrow> char list option" where
  "strncpy dest src n =
     (if n \<le> length dest
      then Some (take n (src @ replicate (n - length src) NUL) @ drop n dest) else None)"

definition throw_exception :: "string \<Rightarrow> exception_state \<Rightarrow> exception_state option" where
  "throw_exception msg s =
     (let len = strlen_int msg;
          n = (if len < 256 then len else 256)
      in do {
        buf \<leftarrow> strncpy (error_message s) msg (unat (word_of_int n :: u64));
        Some (s\<lparr>error_message := buf, error_status := 1\<rparr>)
      })"

definition clear_exception :: "exception_state \<Rightarrow> exception_state" where
  "clear_exception s = s\<lparr>error_status := 0\<rparr>"

text \<open>The result is the address of the buffer, or \<open>NULL\<close>.\<close>

definition check_exception :: "exception_state \<Rightarrow> char list option" where
  "check_exception s = (if error_status s \<noteq> 0 then Some (error_message s) else None)"

text \<open>What the caller reads through a \<open>char *\<close>.\<close>

definition c_string :: "char list \<Rightarrow> string option" where
  "c_string buf = (if NUL \<in> set buf then Some (takeWhile (\<lambda>c. c \<noteq> NUL) buf) else None)"

section \<open>One throw\<close>

lemma strlen_int_small: "length msg < 2 ^ 31 \<Longrightarrow> strlen_int msg = int (length msg)"
  unfolding strlen_int_def
  by (simp add: sint_uint unsigned_of_nat take_bit_nat_eq_self signed_take_bit_int_eq_self
      signed_take_bit_int_eq_self_iff)

lemma throw_eq:
  assumes "length msg < 2 ^ 31" "length (error_message s) = 256"
  shows "throw_exception msg s =
    Some (s\<lparr>error_message := take 256 msg @ drop (length msg) (error_message s), error_status := 1\<rparr>)"
proof -
  have n: "unat (word_of_int (if strlen_int msg < 256 then strlen_int msg else 256) :: u64) =
      min (length msg) 256"
    using assms(1)
    by (auto simp: strlen_int_small unsigned_of_int take_bit_int_eq_self min_def)
  show ?thesis
    using assms(2) by (simp add: throw_exception_def n strncpy_def min_def)
qed

lemma throw_length:
  "length (error_message s) = 256 \<Longrightarrow> length msg < 2 ^ 31 \<Longrightarrow> throw_exception msg s = Some s' \<Longrightarrow>
     length (error_message s') = 256"
  by (auto simp: throw_eq)

section \<open>Any number of throws\<close>

text \<open>
  What the buffer holds as a string: every message is laid over the one before and leaves its
  tail.
\<close>

definition overlay :: "string \<Rightarrow> string \<Rightarrow> string" where
  "overlay old new = new @ drop (length new) old"

fun throw_all :: "string list \<Rightarrow> exception_state \<Rightarrow> exception_state option" where
  "throw_all [] s = Some s"
| "throw_all (msg # msgs) s = Option.bind (throw_exception msg s) (throw_all msgs)"

definition is_text :: "string \<Rightarrow> bool" where
  "is_text msg \<longleftrightarrow> NUL \<notin> set msg \<and> length msg < 256"

definition holds_text :: "exception_state \<Rightarrow> string \<Rightarrow> bool" where
  "holds_text s held \<longleftrightarrow> is_text held \<and> error_message s = held @ replicate (256 - length held) NUL"

lemma holds_text_c_string: "holds_text s held \<Longrightarrow> c_string (error_message s) = Some held"
  by (auto simp: holds_text_def is_text_def c_string_def takeWhile_append)

lemma throw_holds:
  assumes "holds_text s held" "is_text msg"
  shows "\<exists>s'. throw_exception msg s = Some s' \<and> holds_text s' (overlay held msg) \<and> error_status s' = 1"
proof -
  have len: "length (error_message s) = 256" and "length msg < 2 ^ 31"
    using assms by (auto simp: holds_text_def is_text_def)
  from throw_eq [OF this(2,1)] show ?thesis
    using assms by (auto simp: holds_text_def is_text_def overlay_def dest: in_set_dropD)
qed

lemma throw_all_holds:
  "holds_text s held \<Longrightarrow> \<forall>msg \<in> set msgs. is_text msg \<Longrightarrow>
     \<exists>s'. throw_all msgs s = Some s' \<and> holds_text s' (foldl overlay held msgs) \<and>
       (msgs \<noteq> [] \<longrightarrow> error_status s' = 1)"
proof (induction msgs arbitrary: s held)
  case (Cons msg msgs)
  then obtain s1 where s1: "throw_exception msg s = Some s1" "holds_text s1 (overlay held msg)"
      "error_status s1 = 1"
    using throw_holds [of s held msg] by auto
  have "\<forall>msg \<in> set msgs. is_text msg" using Cons.prems(2) by simp
  from Cons.IH [OF s1(2) this] s1(1,3) show ?case by (cases msgs) auto
qed simp

lemma length_overlays_le:
  "length (foldl overlay held msgs) \<le> n \<longleftrightarrow> (\<forall>k \<in> set (held # msgs). length k \<le> n)"
  by (induction msgs arbitrary: held) (auto simp: overlay_def)

lemma overlay_last: "overlay held msg = msg \<longleftrightarrow> length held \<le> length msg"
  by (simp add: overlay_def)

lemma overlays_last:
  "foldl overlay held (msgs @ [msg]) = msg \<longleftrightarrow> (\<forall>k \<in> set (held # msgs). length k \<le> length msg)"
  by (simp only: foldl_append foldl.simps overlay_last length_overlays_le)

lemma holds_init: "holds_text exception_init []"
  by (simp add: holds_text_def is_text_def exception_init_def)

end
