(* ===== verification/Bindings.thy ===== *)
theory Bindings
  imports Client_Life Helper
begin

text \<open>
  The object layer the scripts see: the extension functions of \<open>modules/Jacks.i\<close>, which SWIG
  copies into every language module. They are mapped to the copy in
  \<open>modules/python3/Jacks_python3_wrap.c\<close>. Each function works on small heap objects that
  wrap a pointer into the core library.

  The state \<open>js_world\<close> is the core state with one store per wrapper structure, the session
  events JACK hands over, the C strings on the heap and the error channel. What JACK answers is
  the argument \<open>jack_api\<close>. As everywhere, \<open>None\<close> means that the C code has no defined
  result.
\<close>

section \<open>State\<close>

record js_port_buffer =
  pb_framebuf :: ptr
  pb_len :: int

text \<open>
  \<open>pb_framebuf\<close> is the port whose sample buffer is meant, or \<open>NULL\<close>: every buffer object
  of a port shares that port's one sample buffer.
\<close>

record js_latency_range =
  lr_rmin :: int
  lr_rmax :: int

text \<open>\<open>sl_impl\<close>: the strings before the terminating \<open>NULL\<close>; \<open>None\<close> is the null pointer.\<close>

record string_list =
  sl_impl :: "string list option"
  sl_len :: int

record js_port =
  jp_impl :: ptr
  jp_clientimpl :: ptr

record js_event = jv_impl :: ptr

record js_client =
  jc_impl :: ptr
  jc_process_audio :: int

text \<open>A \<open>char *\<close>: null, into memory that stays valid, or a block of the heap.\<close>

datatype char_ptr = CNULL | CStatic string | CHeap addr

record jack_session_event_T =
  se_type :: int
  session_dir :: char_ptr
  client_uuid :: char_ptr
  command_line :: char_ptr
  se_flags :: int

record 'rb js_world =
  core :: "'rb jacks"
  port_buffers :: "js_port_buffer store"
  latency_ranges :: "js_latency_range store"
  string_lists :: "string_list store"
  js_ports :: "js_port store"
  js_events :: "js_event store"
  js_clients :: "js_client store"
  session_events :: "jack_session_event_T store"
  cstrings :: "string store"
  errors :: exception_state
  latency_set :: "(ptr \<times> int \<times> u32 \<times> u32) list"

text \<open>
  The answers of JACK and of the operating system, and what fresh memory holds (\<open>j_junk\<close> and the
  fields after it).
\<close>

record 'rb jack_api =
  j_ring :: "'rb ringbuffer_api"
  j_junk :: indeterminate
  j_junk_client :: jacks_rb_client_T
  j_junk_ports :: "nat \<Rightarrow> ptr"
  j_junk_impl :: ptr
  j_client_open :: "string option \<Rightarrow> string option \<Rightarrow> int \<Rightarrow> ptr"
  j_activate :: int
  j_port_register :: "ptr \<Rightarrow> string \<Rightarrow> u64 \<Rightarrow> ptr"
  j_port_by_name :: "ptr \<Rightarrow> string \<Rightarrow> ptr"
  j_port_name :: "ptr \<Rightarrow> string"
  j_connect :: "ptr \<Rightarrow> string \<Rightarrow> string \<Rightarrow> int"
  j_get_ports :: "ptr \<Rightarrow> string option \<Rightarrow> string option \<Rightarrow> int \<Rightarrow> string list option"
  j_get_latency_range :: "ptr \<Rightarrow> int \<Rightarrow> u32 \<times> u32"
  j_sample_rate :: "ptr \<Rightarrow> u32"
  j_client_name :: "ptr \<Rightarrow> string"
  j_transport_query :: "ptr \<Rightarrow> int"
  j_recompute :: "ptr \<Rightarrow> int"
  j_socketpair :: "int \<times> (int \<times> int)"
  j_set_latency_callback :: int

section \<open>Numbers\<close>

text \<open>A C double, \<open>m * 2 ^ e\<close> when finite.\<close>

datatype c_double = Finite int int | Infinite bool | NotANumber

text \<open>An integer as a double: beyond 53 bits it is rounded, halves to the even neighbour.\<close>

fun excess_bits :: "nat \<Rightarrow> nat" where
  "excess_bits n = (if n < 2 ^ 53 then 0 else Suc (excess_bits (n div 2)))"

declare excess_bits.simps [simp del]

definition to_double :: "int \<Rightarrow> c_double" where
  "to_double n =
     (let a = nat \<bar>n\<bar>; e = excess_bits a; q = a div 2 ^ e; r = 2 * (a mod 2 ^ e);
          up = (2 ^ e < r \<or> 2 ^ e = r \<and> odd q)
      in if e = 0 then Finite n 0 else Finite (sgn n * int (if up then Suc q else q)) (int e))"

section \<open>Calls\<close>

text \<open>Calls that only read, that only change the state, and \<open>calloc\<close>.\<close>

definition reads :: "('rb js_world \<Rightarrow> 'r option) \<Rightarrow> 'rb js_world \<Rightarrow> ('r \<times> 'rb js_world) option" where
  "reads f w = map_option (\<lambda>r. (r, w)) (f w)"

definition changes :: "('rb js_world \<Rightarrow> 'rb js_world option) \<Rightarrow> 'rb js_world \<Rightarrow> (unit \<times> 'rb js_world) option" where
  "changes f w = map_option (\<lambda>w. ((), w)) (f w)"

definition makes ::
  "('rb js_world \<Rightarrow> 'a store) \<Rightarrow> ('a store \<Rightarrow> 'rb js_world \<Rightarrow> 'rb js_world) \<Rightarrow> 'a \<Rightarrow>
     'rb js_world \<Rightarrow> (ptr \<times> 'rb js_world) option" where
  "makes get put zero w = (let (p, h) = new_obj zero (get w) in Some (p, put h w))"

section \<open>Strings and errors\<close>

text \<open>The string a pointer that is not null points to; a block without a terminator has none.\<close>

definition read_chars :: "char_ptr \<Rightarrow> 'rb js_world \<Rightarrow> string option" where
  "read_chars p w =
     (case p of
        CNULL \<Rightarrow> None
      | CStatic s \<Rightarrow> Some s
      | CHeap a \<Rightarrow> Option.bind (objs (cstrings w) a) c_string)"

text \<open>A string argument that may be null.\<close>

definition read_opt :: "char_ptr \<Rightarrow> 'rb js_world \<Rightarrow> string option option" where
  "read_opt p w = (if p = CNULL then Some None else map_option Some (read_chars p w))"

definition new_chars :: "string \<Rightarrow> 'rb js_world \<Rightarrow> char_ptr \<times> 'rb js_world" where
  "new_chars s w =
     (let (p, h) = new_obj s (cstrings w)
      in (case p of None \<Rightarrow> CNULL | Some a \<Rightarrow> CHeap a, w\<lparr>cstrings := h\<rparr>))"

definition free_chars :: "char_ptr \<Rightarrow> 'rb js_world \<Rightarrow> 'rb js_world option" where
  "free_chars p w =
     (case p of
        CNULL \<Rightarrow> Some w
      | CStatic s \<Rightarrow> None
      | CHeap a \<Rightarrow> map_option (\<lambda>h. w\<lparr>cstrings := h\<rparr>) (free_obj (Some a) (cstrings w)))"

definition js_throw :: "string \<Rightarrow> 'rb js_world \<Rightarrow> 'rb js_world option" where
  "js_throw msg w = map_option (\<lambda>e. w\<lparr>errors := e\<rparr>) (throw_exception msg (errors w))"

section \<open>Sample buffers\<close>

definition delete_JsPortBuffer :: "ptr \<Rightarrow> 'rb js_world \<Rightarrow> 'rb js_world option" where
  "delete_JsPortBuffer self w =
     map_option (\<lambda>h. w\<lparr>port_buffers := h\<rparr>) (free_obj self (port_buffers w))"

text \<open>The bytes a buffer object gives access to.\<close>

definition shared_bytes :: "ptr \<Rightarrow> 'rb js_world \<Rightarrow> u8 list option" where
  "shared_bytes self w = do {
     b \<leftarrow> get_obj self (port_buffers w);
     p \<leftarrow> get_obj (pb_framebuf b) (port_store (core w));
     framebuf p
   }"

text \<open>
  \<open>(float*) self->framebuf[i]\<close>: the byte at index \<open>i\<close>, a signed char, converted to a
  pointer.
\<close>

definition JsPortBuffer_getf :: "ptr \<Rightarrow> u32 \<Rightarrow> 'rb js_world \<Rightarrow> ptr option" where
  "JsPortBuffer_getf self i w = do {
     buf \<leftarrow> shared_bytes self w;
     _ \<leftarrow> c_assert (unat i < length buf);
     let b = buf ! unat i
     in Some (if b = 0 then NULL else Some (unat (scast b :: u64)))
   }"

definition JsPortBuffer_setf :: "ptr \<Rightarrow> u32 \<Rightarrow> 'rb js_world \<Rightarrow> 'rb js_world option" where
  "JsPortBuffer_setf self i w = js_throw ''unsupported opperation'' w"

definition JsPortBuffer_length :: "ptr \<Rightarrow> 'rb js_world \<Rightarrow> u32 option" where
  "JsPortBuffer_length self w = map_option (\<lambda>b. word_of_int (pb_len b)) (get_obj self (port_buffers w))"

text \<open>
  \<open>sprintf(pos, "0x%8.8XL%c", ...)\<close>: the low 32 bits of the eight bytes read at the sample
  (little-endian), in upper-case hexadecimal, the letter \<open>L\<close>, the separator.
\<close>

definition hex_upper :: "nat \<Rightarrow> char" where
  "hex_upper d = ''0123456789ABCDEF'' ! (d mod 16)"

definition sample_word :: "u8 list \<Rightarrow> nat" where
  "sample_word bs = (\<Sum>k<4. unat (bs ! k) * 256 ^ k)"

definition hex_item :: "char \<Rightarrow> u8 list \<Rightarrow> string" where
  "hex_item sep bs =
     ''0x'' @ map (\<lambda>k. hex_upper (sample_word bs div 16 ^ (7 - k))) [0..<8] @ ''L'' @
     [if sep \<noteq> NUL then sep else CHR '' '']"

text \<open>
  The loop from item \<open>i\<close>. Each item reads a \<open>long\<close> at a \<open>float\<close> index and writes twelve
  characters and a terminator.
\<close>

fun hex_loop :: "u8 list \<Rightarrow> u32 \<Rightarrow> char \<Rightarrow> nat \<Rightarrow> nat \<Rightarrow> string \<Rightarrow> string option" where
  "hex_loop buf start sep i 0 text = Some text"
| "hex_loop buf start sep i (Suc k) text = do {
     let pos = 4 * unat (start + of_nat i)
     in do {
       _ \<leftarrow> c_assert (pos + 8 \<le> length buf \<and> 12 * i + 13 \<le> length text);
       hex_loop buf start sep (Suc i) k
         (take (12 * i) text @ hex_item sep (take 8 (drop pos buf)) @ [NUL] @ drop (12 * i + 13) text)
     }
   }"

text \<open>\<open>12 * len + 1\<close> is computed in \<open>unsigned int\<close>; fresh memory is indeterminate.\<close>

definition JsPortBuffer_toHexString ::
  "'rb jack_api \<Rightarrow> ptr \<Rightarrow> u32 \<Rightarrow> u32 \<Rightarrow> char \<Rightarrow> 'rb js_world \<Rightarrow> (char_ptr \<times> 'rb js_world) option" where
  "JsPortBuffer_toHexString api self start len sep w = do {
     b \<leftarrow> get_obj self (port_buffers w);
     let room = unat (12 * len + 1);
         fresh = map (\<lambda>k. char_of (unat (junk_byte (j_junk api) k))) [0..<room];
         (p, h) = new_obj fresh (cstrings w)
     in if len = 0 then Some (case p of None \<Rightarrow> CNULL | Some a \<Rightarrow> CHeap a, w\<lparr>cstrings := h\<rparr>)
        else do {
          buf \<leftarrow> shared_bytes self w;
          a \<leftarrow> p;
          text \<leftarrow> hex_loop buf start sep 0 (unat len) fresh;
          h \<leftarrow> put_obj p text h;
          Some (CHeap a, w\<lparr>cstrings := h\<rparr>)
        }
   }"

section \<open>Latency ranges and lists of names\<close>

definition delete_JsLatencyRange :: "ptr \<Rightarrow> 'rb js_world \<Rightarrow> 'rb js_world option" where
  "delete_JsLatencyRange self w =
     map_option (\<lambda>h. w\<lparr>latency_ranges := h\<rparr>) (free_obj self (latency_ranges w))"

definition JsLatencyRange_min :: "ptr \<Rightarrow> 'rb js_world \<Rightarrow> int option" where
  "JsLatencyRange_min self w = map_option lr_rmin (get_obj self (latency_ranges w))"

definition JsLatencyRange_max :: "ptr \<Rightarrow> 'rb js_world \<Rightarrow> int option" where
  "JsLatencyRange_max self w = map_option lr_rmax (get_obj self (latency_ranges w))"

definition delete_StringList :: "ptr \<Rightarrow> 'rb js_world \<Rightarrow> 'rb js_world option" where
  "delete_StringList self w = do {
     _ \<leftarrow> get_obj self (string_lists w);
     h \<leftarrow> free_obj self (string_lists w);
     Some (w\<lparr>string_lists := h\<rparr>)
   }"

definition StringList_get :: "ptr \<Rightarrow> int \<Rightarrow> 'rb js_world \<Rightarrow> char_ptr option" where
  "StringList_get self pos w = do {
     l \<leftarrow> get_obj self (string_lists w);
     names \<leftarrow> sl_impl l;
     _ \<leftarrow> c_assert (0 \<le> pos \<and> nat pos \<le> length names);
     Some (if nat pos = length names then CNULL else CStatic (names ! nat pos))
   }"

definition StringList_length :: "ptr \<Rightarrow> 'rb js_world \<Rightarrow> (u64 \<times> 'rb js_world) option" where
  "StringList_length self w = do {
     l \<leftarrow> get_obj self (string_lists w);
     if sl_len l \<noteq> 0 then Some (word_of_int (sl_len l), w)
     else do {
       names \<leftarrow> sl_impl l;
       let n = int (length names)
       in do {
         h \<leftarrow> put_obj self (l\<lparr>sl_len := n\<rparr>) (string_lists w);
         Some (word_of_int n, w\<lparr>string_lists := h\<rparr>)
       }
     }
   }"

section \<open>Ports\<close>

definition delete_JsPort :: "ptr \<Rightarrow> 'rb js_world \<Rightarrow> 'rb js_world option" where
  "delete_JsPort self w = do {
     p \<leftarrow> get_obj self (js_ports w);
     h \<leftarrow> JacksRbPort_free (Some (jp_impl p)) (port_store (core w));
     g \<leftarrow> free_obj self (js_ports w);
     Some (w\<lparr>core := (core w)\<lparr>port_store := h\<rparr>, js_ports := g\<rparr>)
   }"

definition JsPort_getBuffer ::
  "'rb jack_api \<Rightarrow> ptr \<Rightarrow> 'rb js_world \<Rightarrow> (ptr \<times> 'rb js_world) option" where
  "JsPort_getBuffer api self w = do {
     p \<leftarrow> get_obj self (js_ports w);
     let (holder, bh) = new_obj \<lparr>pb_framebuf = NULL, pb_len = 0\<rparr> (port_buffers w)
     in do {
       (buf, len, h) \<leftarrow> JacksRbPort_read_from_ringbuffer (j_ring api) (jp_impl p) (port_store (core w));
       bh \<leftarrow> put_obj holder \<lparr>pb_framebuf = (if buf = None then NULL else jp_impl p), pb_len = len\<rparr> bh;
       Some (holder, w\<lparr>port_buffers := bh, core := (core w)\<lparr>port_store := h\<rparr>\<rparr>)
     }
   }"

definition JsPort_name :: "'rb jack_api \<Rightarrow> ptr \<Rightarrow> 'rb js_world \<Rightarrow> char_ptr option" where
  "JsPort_name api self w = do {
     p \<leftarrow> get_obj self (js_ports w);
     jp \<leftarrow> JacksRbPort_get_port (jp_impl p) (port_store (core w));
     Some (CStatic (j_port_name api jp))
   }"

text \<open>The client of a port, as the core functions look it up.\<close>

definition core_client :: "'rb js_world \<Rightarrow> ptr \<Rightarrow> ptr option" where
  "core_client w this = JacksRbClient_get_client this (clients (core w))"

definition JsPort_connect ::
  "'rb jack_api \<Rightarrow> ptr \<Rightarrow> ptr \<Rightarrow> 'rb js_world \<Rightarrow> (int \<times> 'rb js_world) option" where
  "JsPort_connect api self that w = do {
     p \<leftarrow> get_obj self (js_ports w);
     q \<leftarrow> get_obj that (js_ports w);
     rc \<leftarrow> JacksRbPort_connect (j_connect api) (j_port_name api) (core_client w) (jp_impl p) (jp_impl q)
            (port_store (core w));
     w \<leftarrow> (if rc \<noteq> 0 then js_throw ''can not connect ports'' w else Some w);
     Some (rc, w)
   }"

definition JsPort_getLatencyRange ::
  "'rb jack_api \<Rightarrow> ptr \<Rightarrow> int \<Rightarrow> 'rb js_world \<Rightarrow> (ptr \<times> 'rb js_world) option" where
  "JsPort_getLatencyRange api self mode w = do {
     p \<leftarrow> get_obj self (js_ports w);
     jp \<leftarrow> JacksRbPort_get_port (jp_impl p) (port_store (core w));
     let (rmin, rmax) = j_get_latency_range api jp mode;
         (holder, h) = new_obj \<lparr>lr_rmin = 0, lr_rmax = 0\<rparr> (latency_ranges w)
     in do {
       h \<leftarrow> put_obj holder \<lparr>lr_rmin = sint rmin, lr_rmax = sint rmax\<rparr> h;
       Some (holder, w\<lparr>latency_ranges := h\<rparr>)
     }
   }"

definition JsPort_setLatencyRange :: "ptr \<Rightarrow> int \<Rightarrow> int \<Rightarrow> int \<Rightarrow> 'rb js_world \<Rightarrow> 'rb js_world option" where
  "JsPort_setLatencyRange self mode rmin rmax w = do {
     p \<leftarrow> get_obj self (js_ports w);
     jp \<leftarrow> JacksRbPort_get_port (jp_impl p) (port_store (core w));
     Some (w\<lparr>latency_set := latency_set w @ [(jp, mode, word_of_int rmin, word_of_int rmax)]\<rparr>)
   }"

definition JsPort_wakeupLatencyCallbacks :: "ptr \<Rightarrow> 'rb js_world \<Rightarrow> 'rb js_world option" where
  "JsPort_wakeupLatencyCallbacks self w = do {
     p \<leftarrow> get_obj self (js_ports w);
     e \<leftarrow> JacksRbPort_wakeup_latency_callbacks (jp_impl p) (port_store (core w)) (port_env (core w));
     Some (w\<lparr>core := (core w)\<lparr>port_env := e\<rparr>\<rparr>)
   }"

definition JsPort_wakeupSigLatencyCallback :: "ptr \<Rightarrow> 'rb js_world \<Rightarrow> 'rb js_world option" where
  "JsPort_wakeupSigLatencyCallback self w = do {
     p \<leftarrow> get_obj self (js_ports w);
     Some (w\<lparr>core := (core w)\<lparr>port_env := JacksRbPort_wakeup_sig_latency_cb (jp_impl p) (port_env (core w))\<rparr>\<rparr>)
   }"

text \<open>After a listener call: the new port store and environment, and an exception on failure.\<close>

definition after_listener ::
  "bool \<Rightarrow> string \<Rightarrow> int \<Rightarrow> 'rb port_T store \<Rightarrow> port_world \<Rightarrow> 'rb js_world \<Rightarrow> (int \<times> 'rb js_world) option" where
  "after_listener failed msg rc h e w = do {
     w \<leftarrow> (let w = w\<lparr>core := (core w)\<lparr>port_store := h, port_env := e\<rparr>\<rparr>
          in if failed then js_throw msg w else Some w);
     Some (rc, w)
   }"

definition JsPort_initCaptureLatencyListener ::
  "'rb jack_api \<Rightarrow> ptr \<Rightarrow> 'rb js_world \<Rightarrow> (int \<times> 'rb js_world) option" where
  "JsPort_initCaptureLatencyListener api self w = do {
     p \<leftarrow> get_obj self (js_ports w);
     (fd, h, e) \<leftarrow> JacksRbPort_init_capture_latency_listener (j_socketpair api) (j_set_latency_callback api)
                    (jp_impl p) (port_store (core w)) (port_env (core w));
     after_listener (fd < 0) ''can not init capture latency callback'' fd h e w
   }"

definition JsPort_initPlaybackLatencyListener ::
  "'rb jack_api \<Rightarrow> ptr \<Rightarrow> 'rb js_world \<Rightarrow> (int \<times> 'rb js_world) option" where
  "JsPort_initPlaybackLatencyListener api self w = do {
     p \<leftarrow> get_obj self (js_ports w);
     (fd, h, e) \<leftarrow> JacksRbPort_init_playback_latency_listener (j_socketpair api) (j_set_latency_callback api)
                    (jp_impl p) (port_store (core w)) (port_env (core w));
     after_listener (fd < 0) ''can not init playback latency callback'' fd h e w
   }"

definition JsPort_initLatencyListener ::
  "'rb jack_api \<Rightarrow> ptr \<Rightarrow> 'rb js_world \<Rightarrow> (int \<times> 'rb js_world) option" where
  "JsPort_initLatencyListener api self w = do {
     p \<leftarrow> get_obj self (js_ports w);
     (rc, e) \<leftarrow> JacksRbPort_init_latency_listener (j_set_latency_callback api) (jp_impl p)
                 (port_store (core w)) (port_env (core w));
     after_listener (rc \<noteq> 0) ''can not init latency callback'' rc (port_store (core w)) e w
   }"

section \<open>Events\<close>

definition delete_JsEvent :: "ptr \<Rightarrow> 'rb js_world \<Rightarrow> 'rb js_world option" where
  "delete_JsEvent self w = do {
     v \<leftarrow> get_obj self (js_events w);
     h \<leftarrow> JacksEvent_free (Some (jv_impl v)) (events (core w));
     g \<leftarrow> free_obj self (js_events w);
     Some (w\<lparr>core := (core w)\<lparr>events := h\<rparr>, js_events := g\<rparr>)
   }"

definition JsEvent_getType :: "ptr \<Rightarrow> 'rb js_world \<Rightarrow> int option" where
  "JsEvent_getType self w = do {
     v \<leftarrow> get_obj self (js_events w);
     JacksEvent_get_type (jv_impl v) (events (core w))
   }"

definition JsEvent_getData :: "ptr \<Rightarrow> 'rb js_world \<Rightarrow> ptr option" where
  "JsEvent_getData self w = do {
     v \<leftarrow> get_obj self (js_events w);
     JacksEvent_get_data (jv_impl v) (events (core w))
   }"

definition JsEvent_complete :: "ptr \<Rightarrow> 'rb js_world \<Rightarrow> 'rb js_world option" where
  "JsEvent_complete self w = do {
     v \<leftarrow> get_obj self (js_events w);
     c \<leftarrow> complete_event (jv_impl v) (core w);
     Some (w\<lparr>core := c\<rparr>)
   }"

text \<open>
  The opening lines of every session accessor: the event's data is fetched, an exception is
  thrown when it is null, and the pointer is used all the same.
\<close>

definition session_of :: "ptr \<Rightarrow> 'rb js_world \<Rightarrow> (ptr \<times> jack_session_event_T \<times> 'rb js_world) option" where
  "session_of self w = do {
     v \<leftarrow> get_obj self (js_events w);
     se \<leftarrow> JacksEvent_get_data (jv_impl v) (events (core w));
     w \<leftarrow> (if se = NULL then js_throw ''not a session event'' w else Some w);
     s \<leftarrow> get_obj se (session_events w);
     Some (se, s, w)
   }"

definition put_session :: "ptr \<Rightarrow> jack_session_event_T \<Rightarrow> 'rb js_world \<Rightarrow> 'rb js_world option" where
  "put_session se s w = map_option (\<lambda>h. w\<lparr>session_events := h\<rparr>) (put_obj se s (session_events w))"

definition JsEvent_getSessionEventType :: "ptr \<Rightarrow> 'rb js_world \<Rightarrow> (int \<times> 'rb js_world) option" where
  "JsEvent_getSessionEventType self w = do { (se, s, w) \<leftarrow> session_of self w; Some (se_type s, w) }"

definition JsEvent_getSessionDir :: "ptr \<Rightarrow> 'rb js_world \<Rightarrow> (char_ptr \<times> 'rb js_world) option" where
  "JsEvent_getSessionDir self w = do { (se, s, w) \<leftarrow> session_of self w; Some (session_dir s, w) }"

definition JsEvent_setSessionDir :: "ptr \<Rightarrow> char_ptr \<Rightarrow> 'rb js_world \<Rightarrow> 'rb js_world option" where
  "JsEvent_setSessionDir self dirname w = do {
     (se, s, w) \<leftarrow> session_of self w;
     put_session se (s\<lparr>session_dir := dirname\<rparr>) w
   }"

definition JsEvent_getClientUuid :: "ptr \<Rightarrow> 'rb js_world \<Rightarrow> (char_ptr \<times> 'rb js_world) option" where
  "JsEvent_getClientUuid self w = do { (se, s, w) \<leftarrow> session_of self w; Some (client_uuid s, w) }"

definition JsEvent_setClientUuid :: "ptr \<Rightarrow> char_ptr \<Rightarrow> 'rb js_world \<Rightarrow> 'rb js_world option" where
  "JsEvent_setClientUuid self uuid w = do {
     (se, s, w) \<leftarrow> session_of self w;
     put_session se (s\<lparr>client_uuid := uuid\<rparr>) w
   }"

definition JsEvent_getCommandLine :: "ptr \<Rightarrow> 'rb js_world \<Rightarrow> (char_ptr \<times> 'rb js_world) option" where
  "JsEvent_getCommandLine self w = do { (se, s, w) \<leftarrow> session_of self w; Some (command_line s, w) }"

text \<open>\<open>strdup\<close>: a fresh copy, or null when memory is out; a null argument is undefined.\<close>

definition JsEvent_setCommandLine :: "ptr \<Rightarrow> char_ptr \<Rightarrow> 'rb js_world \<Rightarrow> 'rb js_world option" where
  "JsEvent_setCommandLine self cmd w = do {
     (se, s, w) \<leftarrow> session_of self w;
     text \<leftarrow> read_chars cmd w;
     let (copy, w) = new_chars (text @ [NUL]) w
     in put_session se (s\<lparr>command_line := copy\<rparr>) w
   }"

definition JsEvent_getSessionEventFlags :: "ptr \<Rightarrow> 'rb js_world \<Rightarrow> (int \<times> 'rb js_world) option" where
  "JsEvent_getSessionEventFlags self w = do { (se, s, w) \<leftarrow> session_of self w; Some (se_flags s, w) }"

definition JsEvent_setSessionEventFlags :: "ptr \<Rightarrow> int \<Rightarrow> 'rb js_world \<Rightarrow> 'rb js_world option" where
  "JsEvent_setSessionEventFlags self flags w = do {
     (se, s, w) \<leftarrow> session_of self w;
     put_session se (s\<lparr>se_flags := flags\<rparr>) w
   }"

section \<open>Clients\<close>

text \<open>\<open>Inl\<close>: the process exits.\<close>

definition new_JsClient ::
  "'rb jack_api \<Rightarrow> char_ptr \<Rightarrow> char_ptr \<Rightarrow> int \<Rightarrow> u32 \<Rightarrow> 'rb js_world \<Rightarrow> (int + (ptr \<times> 'rb js_world)) option" where
  "new_JsClient api name option_str options rbs w = do {
     name \<leftarrow> read_opt name w;
     option_str \<leftarrow> read_opt option_str w;
     made \<leftarrow> JacksRbClient_new (j_client_open api name option_str options) (j_junk_client api)
              (j_junk_ports api) rbs (core w);
     (case made of
        Inl code \<Rightarrow> Some (Inl code)
      | Inr (j, c) \<Rightarrow>
          (let (holder, h) = new_obj \<lparr>jc_impl = NULL, jc_process_audio = 0\<rparr> (js_clients w)
           in do {
             h \<leftarrow> put_obj holder \<lparr>jc_impl = j, jc_process_audio = NO\<rparr> h;
             Some (Inr (holder, w\<lparr>core := c, js_clients := h\<rparr>))
           }))
   }"

definition delete_JsClient :: "ptr \<Rightarrow> 'rb js_world \<Rightarrow> 'rb js_world option" where
  "delete_JsClient self w = do {
     j \<leftarrow> get_obj self (js_clients w);
     c \<leftarrow> JacksRbClient_free (Some (jc_impl j)) (core w);
     g \<leftarrow> free_obj self (js_clients w);
     Some (w\<lparr>core := c, js_clients := g\<rparr>)
   }"

definition JsClient_getPortNamesByType ::
  "'rb jack_api \<Rightarrow> ptr \<Rightarrow> char_ptr \<Rightarrow> char_ptr \<Rightarrow> int \<Rightarrow> 'rb js_world \<Rightarrow> (ptr \<times> 'rb js_world) option" where
  "JsClient_getPortNamesByType api self namepattern typepattern flags w = do {
     j \<leftarrow> get_obj self (js_clients w);
     client \<leftarrow> core_client w (jc_impl j);
     namepattern \<leftarrow> read_opt namepattern w;
     typepattern \<leftarrow> read_opt typepattern w;
     (case j_get_ports api client namepattern typepattern flags of
        None \<Rightarrow> Some (NULL, w)
      | Some names \<Rightarrow>
          (let (holder, h) = new_obj \<lparr>sl_impl = None, sl_len = 0\<rparr> (string_lists w)
           in do {
             h \<leftarrow> put_obj holder \<lparr>sl_impl = Some names, sl_len = 0\<rparr> h;
             Some (holder, w\<lparr>string_lists := h\<rparr>)
           }))
   }"

definition JsClient_getPortNames ::
  "'rb jack_api \<Rightarrow> ptr \<Rightarrow> char_ptr \<Rightarrow> 'rb js_world \<Rightarrow> (ptr \<times> 'rb js_world) option" where
  "JsClient_getPortNames api self namepattern w = JsClient_getPortNamesByType api self namepattern CNULL 0 w"

definition JsClient_getPort ::
  "'rb jack_api \<Rightarrow> ptr \<Rightarrow> char_ptr \<Rightarrow> 'rb js_world \<Rightarrow> (ptr \<times> 'rb js_world) option" where
  "JsClient_getPort api self name w =
     (if name = CNULL then Some (NULL, w)
      else do {
        j \<leftarrow> get_obj self (js_clients w);
        client \<leftarrow> core_client w (jc_impl j);
        text \<leftarrow> read_chars name w;
        let jport = j_port_by_name api client text
        in if jport = NULL then Some (NULL, w)
           else do {
             rbs \<leftarrow> JacksRbClient_get_rb_size (jc_impl j) (clients (core w));
             (p, h) \<leftarrow> JacksRbPort_new (j_ring api) (j_junk api) jport (jc_impl j) rbs (port_store (core w));
             let (holder, g) = new_obj \<lparr>jp_impl = NULL, jp_clientimpl = j_junk_impl api\<rparr> (js_ports w)
             in do {
               g \<leftarrow> put_obj holder \<lparr>jp_impl = p, jp_clientimpl = j_junk_impl api\<rparr> g;
               Some (holder, w\<lparr>core := (core w)\<lparr>port_store := h\<rparr>, js_ports := g\<rparr>)
             }
           }
      })"

definition JsClient_registerPort ::
  "'rb jack_api \<Rightarrow> ptr \<Rightarrow> char_ptr \<Rightarrow> u64 \<Rightarrow> 'rb js_world \<Rightarrow> (ptr \<times> 'rb js_world) option" where
  "JsClient_registerPort api self name options w = do {
     j \<leftarrow> get_obj self (js_clients w);
     text \<leftarrow> read_chars name w;
     (p, c) \<leftarrow> JacksRbClient_registerPort (j_ring api) (j_port_register api) (j_junk api) (jc_impl j) text
                options (core w);
     let (holder, g) = new_obj \<lparr>jp_impl = NULL, jp_clientimpl = j_junk_impl api\<rparr> (js_ports w)
     in do {
       g \<leftarrow> put_obj holder \<lparr>jp_impl = p, jp_clientimpl = jc_impl j\<rparr> g;
       f \<leftarrow> put_obj self (j\<lparr>jc_process_audio := YES\<rparr>) (js_clients w);
       Some (holder, w\<lparr>core := c, js_ports := g, js_clients := f\<rparr>)
     }
   }"

definition JsClient_getEvent ::
  "('rb jacks \<Rightarrow> 'rb jacks option) list \<Rightarrow> ptr \<Rightarrow> int \<Rightarrow> 'rb js_world \<Rightarrow> (ptr \<times> 'rb js_world) option" where
  "JsClient_getEvent env self timeout w = do {
     j \<leftarrow> get_obj self (js_clients w);
     (e, _, c) \<leftarrow> JacksRbClient_get_event env (jc_impl j) timeout (core w);
     let (holder, h) = new_obj \<lparr>jv_impl = NULL\<rparr> (js_events w)
     in do {
       h \<leftarrow> put_obj holder \<lparr>jv_impl = e\<rparr> h;
       Some (holder, w\<lparr>core := c, js_events := h\<rparr>)
     }
   }"

definition JsClient_getSampleRate :: "'rb jack_api \<Rightarrow> ptr \<Rightarrow> 'rb js_world \<Rightarrow> u32 option" where
  "JsClient_getSampleRate api self w = do {
     j \<leftarrow> get_obj self (js_clients w);
     JacksRbClient_get_sample_rate (j_sample_rate api) (jc_impl j) (clients (core w))
   }"

definition JsClient_activate :: "'rb jack_api \<Rightarrow> ptr \<Rightarrow> 'rb js_world \<Rightarrow> (int \<times> 'rb js_world) option" where
  "JsClient_activate api self w = do {
     j \<leftarrow> get_obj self (js_clients w);
     (rc, c) \<leftarrow> JacksRbClient_activate (j_activate api) (jc_impl j) (jc_process_audio j) (core w);
     Some (rc, w\<lparr>core := c\<rparr>)
   }"

definition JsClient_getName :: "'rb jack_api \<Rightarrow> ptr \<Rightarrow> 'rb js_world \<Rightarrow> char_ptr option" where
  "JsClient_getName api self w = do {
     j \<leftarrow> get_obj self (js_clients w);
     name \<leftarrow> JacksRbClient_get_name (j_client_name api) (jc_impl j) (clients (core w));
     Some (CStatic name)
   }"

definition JsClient_getTransportState :: "'rb jack_api \<Rightarrow> ptr \<Rightarrow> 'rb js_world \<Rightarrow> int option" where
  "JsClient_getTransportState api self w = do {
     j \<leftarrow> get_obj self (js_clients w);
     client \<leftarrow> core_client w (jc_impl j);
     Some (j_transport_query api client)
   }"

definition JsClient_recomputeLatencies ::
  "'rb jack_api \<Rightarrow> ptr \<Rightarrow> 'rb js_world \<Rightarrow> 'rb js_world option" where
  "JsClient_recomputeLatencies api self w = do {
     j \<leftarrow> get_obj self (js_clients w);
     client \<leftarrow> core_client w (jc_impl j);
     if j_recompute api client \<noteq> 0 then js_throw ''can not recompute total latency'' w else Some w
   }"

end
