(* ===== verification/SwigTypes.thy ===== *)
theory SwigTypes
  imports Prelude "HOL-Library.Char_ord" "HOL-Library.List_Lexorder"
begin

text \<open>
  The type registry and the data packing of the SWIG runtime, which the build copies into every
  language module (\<open>modules/python3/Jacks_python3_wrap.c\<close>): the comparison of type names, the
  check of a type against the list of types that cast to it, which moves what it finds to the
  front of a doubly linked list, the search of the modules' tables, and the hexadecimal packing
  of pointers.
\<close>

section \<open>Structures\<close>

record swig_type_info =
  ti_name :: "string option"
  ti_str :: "string option"
  ti_cast :: ptr
  ti_clientdata :: ptr
  ti_owndata :: int

text \<open>\<open>ci_converter\<close>: what converting a pointer gives, when a conversion is needed.\<close>

record swig_cast_info =
  ci_type :: addr
  ci_converter :: "(ptr \<Rightarrow> ptr) option"
  ci_next :: ptr
  ci_prev :: ptr

record swig_heap =
  ti :: "addr \<rightharpoonup> swig_type_info"
  ci :: "addr \<rightharpoonup> swig_cast_info"

record swig_module_info =
  sm_types :: "addr list"
  sm_next :: addr

section \<open>Type names\<close>

text \<open>
  A C string is the list of its characters; the terminator can be read, what follows it can
  not.
\<close>

definition char_at :: "string \<Rightarrow> nat \<Rightarrow> char option" where
  "char_at s i = (if i < length s then Some (s ! i) else if i = length s then Some CHR 0x00 else None)"

definition signed_char :: "char \<Rightarrow> int" where
  "signed_char c = (let n = int (of_char c :: nat) in if n < 128 then n else n - 256)"

partial_function (option) skip_spaces :: "string \<Rightarrow> nat \<Rightarrow> nat \<Rightarrow> nat option" where
  "skip_spaces s i l = do {
     c \<leftarrow> char_at s i;
     if c = CHR '' '' \<and> i \<noteq> l then skip_spaces s (Suc i) l else Some i
   }"

partial_function (option) SWIG_TypeNameComp ::
  "string \<Rightarrow> nat \<Rightarrow> nat \<Rightarrow> string \<Rightarrow> nat \<Rightarrow> nat \<Rightarrow> int option" where
  "SWIG_TypeNameComp s f1 l1 t f2 l2 =
     (if f1 \<noteq> l1 \<and> f2 \<noteq> l2
      then do {
        f1 \<leftarrow> skip_spaces s f1 l1;
        f2 \<leftarrow> skip_spaces t f2 l2;
        c \<leftarrow> char_at s f1;
        d \<leftarrow> char_at t f2;
        if c \<noteq> d then Some (if signed_char d < signed_char c then 1 else - 1)
        else SWIG_TypeNameComp s (Suc f1) l1 t (Suc f2) l2
      }
      else Some ((int l1 - int f1) - (int l2 - int f2)))"

text \<open>The end of the name that starts at \<open>ne\<close>: the next bar or the terminator.\<close>

partial_function (option) name_end :: "string \<Rightarrow> nat \<Rightarrow> nat option" where
  "name_end nb ne = do {
     c \<leftarrow> char_at nb ne;
     if c = CHR 0x00 \<or> c = CHR ''|'' then Some ne else name_end nb (Suc ne)
   }"

partial_function (option) equiv_loop :: "string \<Rightarrow> string \<Rightarrow> int \<Rightarrow> nat \<Rightarrow> int option" where
  "equiv_loop nb tb eq ne = do {
     c \<leftarrow> char_at nb ne;
     if eq = 0 \<and> c \<noteq> CHR 0x00
     then do {
       e \<leftarrow> name_end nb ne;
       cmp \<leftarrow> SWIG_TypeNameComp nb ne e tb 0 (length tb);
       c \<leftarrow> char_at nb e;
       equiv_loop nb tb (if cmp = 0 then 1 else 0) (if c \<noteq> CHR 0x00 then Suc e else e)
     }
     else Some eq
   }"

definition SWIG_TypeEquiv :: "string \<Rightarrow> string \<Rightarrow> int option" where
  "SWIG_TypeEquiv nb tb = equiv_loop nb tb 0 0"

text \<open>The code of \<open>SWIG_TypeCompare\<close> is the same, whatever its comment says.\<close>

definition SWIG_TypeCompare :: "string \<Rightarrow> string \<Rightarrow> int option" where
  "SWIG_TypeCompare nb tb = equiv_loop nb tb 0 0"

text \<open>The part after the last bar.\<close>

fun last_name :: "string \<Rightarrow> string \<Rightarrow> string" where
  "last_name s best = (case s of [] \<Rightarrow> best | c # s' \<Rightarrow> last_name s' (if c = CHR ''|'' then s' else best))"

definition SWIG_TypePrettyName :: "ptr \<Rightarrow> swig_heap \<Rightarrow> string option option" where
  "SWIG_TypePrettyName ty h =
     (case ty of
        None \<Rightarrow> Some None
      | Some a \<Rightarrow> do {
          t \<leftarrow> ti h a;
          Some (case ti_str t of Some s \<Rightarrow> Some (last_name s s) | None \<Rightarrow> ti_name t)
        })"

definition SWIG_TypeName :: "ptr \<Rightarrow> swig_heap \<Rightarrow> string option option" where
  "SWIG_TypeName ty h = do { a \<leftarrow> ty; t \<leftarrow> ti h a; Some (ti_name t) }"

section \<open>Checking a type\<close>

definition set_next :: "addr \<Rightarrow> ptr \<Rightarrow> swig_heap \<Rightarrow> swig_heap option" where
  "set_next a p h = do { c \<leftarrow> ci h a; Some (h\<lparr>ci := (ci h)(a \<mapsto> c\<lparr>ci_next := p\<rparr>)\<rparr>) }"

definition set_prev :: "addr \<Rightarrow> ptr \<Rightarrow> swig_heap \<Rightarrow> swig_heap option" where
  "set_prev a p h = do { c \<leftarrow> ci h a; Some (h\<lparr>ci := (ci h)(a \<mapsto> c\<lparr>ci_prev := p\<rparr>)\<rparr>) }"

definition set_cast :: "addr \<Rightarrow> ptr \<Rightarrow> swig_heap \<Rightarrow> swig_heap option" where
  "set_cast a p h = do { t \<leftarrow> ti h a; Some (h\<lparr>ti := (ti h)(a \<mapsto> t\<lparr>ti_cast := p\<rparr>)\<rparr>) }"

text \<open>\<open>iter\<close> is unlinked and put in front of the list of \<open>ty\<close>.\<close>

definition move_to_top :: "addr \<Rightarrow> addr \<Rightarrow> swig_heap \<Rightarrow> swig_heap option" where
  "move_to_top iter ty h = do {
     c \<leftarrow> ci h iter;
     p \<leftarrow> ci_prev c;
     h \<leftarrow> set_next p (ci_next c) h;
     h \<leftarrow> (case ci_next c of None \<Rightarrow> Some h | Some n \<Rightarrow> set_prev n (ci_prev c) h);
     t \<leftarrow> ti h ty;
     h \<leftarrow> set_next iter (ti_cast t) h;
     h \<leftarrow> set_prev iter NULL h;
     h \<leftarrow> (case ti_cast t of None \<Rightarrow> Some h | Some a \<Rightarrow> set_prev a (Some iter) h);
     set_cast ty (Some iter) h
   }"

text \<open>The loop both checks share; \<open>hit\<close> compares the type of a cast.\<close>

partial_function (option) check_loop ::
  "(swig_heap \<Rightarrow> addr \<Rightarrow> bool option) \<Rightarrow> addr \<Rightarrow> ptr \<Rightarrow> swig_heap \<Rightarrow> (ptr \<times> swig_heap) option" where
  "check_loop hit ty iter h =
     (case iter of
        None \<Rightarrow> Some (NULL, h)
      | Some a \<Rightarrow> do {
          c \<leftarrow> ci h a;
          found \<leftarrow> hit h (ci_type c);
          if found then do {
            t \<leftarrow> ti h ty;
            if ti_cast t = Some a then Some (Some a, h)
            else do { h \<leftarrow> move_to_top a ty h; Some (Some a, h) }
          }
          else check_loop hit ty (ci_next c) h
        })"

definition name_is :: "string \<Rightarrow> swig_heap \<Rightarrow> addr \<Rightarrow> bool option" where
  "name_is c h a = do { t \<leftarrow> ti h a; n \<leftarrow> ti_name t; Some (n = c) }"

definition SWIG_TypeCheck :: "string \<Rightarrow> ptr \<Rightarrow> swig_heap \<Rightarrow> (ptr \<times> swig_heap) option" where
  "SWIG_TypeCheck c ty h =
     (case ty of
        None \<Rightarrow> Some (NULL, h)
      | Some a \<Rightarrow> do { t \<leftarrow> ti h a; check_loop (name_is c) a (ti_cast t) h })"

definition SWIG_TypeCheckStruct :: "addr \<Rightarrow> ptr \<Rightarrow> swig_heap \<Rightarrow> (ptr \<times> swig_heap) option" where
  "SWIG_TypeCheckStruct from_type ty h =
     (case ty of
        None \<Rightarrow> Some (NULL, h)
      | Some a \<Rightarrow> do { t \<leftarrow> ti h a; check_loop (\<lambda>_ b. Some (b = from_type)) a (ti_cast t) h })"

text \<open>The second result of the C function, new memory, is not set by any converter here.\<close>

definition SWIG_TypeCast :: "ptr \<Rightarrow> ptr \<Rightarrow> swig_heap \<Rightarrow> ptr option" where
  "SWIG_TypeCast ty p h =
     (case ty of
        None \<Rightarrow> Some p
      | Some a \<Rightarrow> do { c \<leftarrow> ci h a; Some (case ci_converter c of None \<Rightarrow> p | Some f \<Rightarrow> f p) })"

text \<open>Client data spreads to the equivalent types that have none yet.\<close>

partial_function (option) SWIG_TypeClientData :: "addr \<Rightarrow> ptr \<Rightarrow> ptr option \<Rightarrow> swig_heap \<Rightarrow> swig_heap option" where
  "SWIG_TypeClientData a data iter h =
     (case iter of
        None \<Rightarrow> do {
          t \<leftarrow> ti h a;
          SWIG_TypeClientData a data (Some (ti_cast t)) (h\<lparr>ti := (ti h)(a \<mapsto> t\<lparr>ti_clientdata := data\<rparr>)\<rparr>)
        }
      | Some None \<Rightarrow> Some h
      | Some (Some i) \<Rightarrow> do {
          c \<leftarrow> ci h i;
          h \<leftarrow> (if ci_converter c = None
               then do {
                 t \<leftarrow> ti h (ci_type c);
                 if ti_clientdata t = NULL then SWIG_TypeClientData (ci_type c) data None h else Some h
               }
               else Some h);
          c \<leftarrow> ci h i;
          SWIG_TypeClientData a data (Some (ci_next c)) h
        })"

definition SWIG_TypeNewClientData :: "addr \<Rightarrow> ptr \<Rightarrow> swig_heap \<Rightarrow> swig_heap option" where
  "SWIG_TypeNewClientData a data h = do {
     h \<leftarrow> SWIG_TypeClientData a data None h;
     t \<leftarrow> ti h a;
     Some (h\<lparr>ti := (ti h)(a \<mapsto> t\<lparr>ti_owndata := 1\<rparr>)\<rparr>)
   }"

section \<open>Searching the modules\<close>

definition strcmp :: "string \<Rightarrow> string \<Rightarrow> int" where
  "strcmp s t = (if s = t then 0 else if s < t then - 1 else 1)"

text \<open>The binary search of one table, between \<open>l\<close> and \<open>r\<close>; the sum of the two wraps.\<close>

partial_function (option) search_types ::
  "swig_heap \<Rightarrow> addr list \<Rightarrow> string \<Rightarrow> nat \<Rightarrow> nat \<Rightarrow> ptr option" where
  "search_types h types name l r =
     (let i = ((l + r) mod 2 ^ 64) div 2
      in do {
        _ \<leftarrow> c_assert (i < length types);
        t \<leftarrow> ti h (types ! i);
        (case ti_name t of
           None \<Rightarrow> Some NULL
         | Some iname \<Rightarrow>
             (if strcmp name iname = 0 then Some (Some (types ! i))
              else if strcmp name iname < 0
              then (if i \<noteq> 0 \<and> l \<le> i - 1 then search_types h types name l (i - 1) else Some NULL)
              else (if Suc i \<le> r then search_types h types name (Suc i) r else Some NULL)))
      })"

partial_function (option) SWIG_MangledTypeQueryModule ::
  "swig_heap \<Rightarrow> (addr \<rightharpoonup> swig_module_info) \<Rightarrow> addr \<Rightarrow> addr \<Rightarrow> string \<Rightarrow> ptr option" where
  "SWIG_MangledTypeQueryModule h mods iter stop name = do {
     m \<leftarrow> mods iter;
     found \<leftarrow> (if sm_types m \<noteq> [] then search_types h (sm_types m) name 0 (length (sm_types m) - 1)
              else Some NULL);
     if found \<noteq> NULL then Some found
     else if sm_next m \<noteq> stop then SWIG_MangledTypeQueryModule h mods (sm_next m) stop name
     else Some NULL
   }"

text \<open>The second search: the human-readable names, one type after the other.\<close>

fun search_str :: "swig_heap \<Rightarrow> addr list \<Rightarrow> string \<Rightarrow> ptr option" where
  "search_str h [] name = Some NULL"
| "search_str h (a # as) name = do {
     t \<leftarrow> ti h a;
     (case ti_str t of
        None \<Rightarrow> search_str h as name
      | Some s \<Rightarrow> do {
          eq \<leftarrow> SWIG_TypeEquiv s name;
          if eq \<noteq> 0 then Some (Some a) else search_str h as name
        })
   }"

partial_function (option) str_modules ::
  "swig_heap \<Rightarrow> (addr \<rightharpoonup> swig_module_info) \<Rightarrow> addr \<Rightarrow> addr \<Rightarrow> string \<Rightarrow> ptr option" where
  "str_modules h mods iter stop name = do {
     m \<leftarrow> mods iter;
     found \<leftarrow> search_str h (sm_types m) name;
     if found \<noteq> NULL then Some found
     else if sm_next m \<noteq> stop then str_modules h mods (sm_next m) stop name
     else Some NULL
   }"

definition SWIG_TypeQueryModule ::
  "swig_heap \<Rightarrow> (addr \<rightharpoonup> swig_module_info) \<Rightarrow> addr \<Rightarrow> addr \<Rightarrow> string \<Rightarrow> ptr option" where
  "SWIG_TypeQueryModule h mods start stop name = do {
     ret \<leftarrow> SWIG_MangledTypeQueryModule h mods start stop name;
     if ret \<noteq> NULL then Some ret else str_modules h mods start stop name
   }"

section \<open>Packing\<close>

definition hex_digit :: "u8 \<Rightarrow> char" where
  "hex_digit d = ''0123456789abcdef'' ! unat d"

fun SWIG_PackData :: "u8 list \<Rightarrow> string" where
  "SWIG_PackData [] = []"
| "SWIG_PackData (u # us) = hex_digit (drop_bit 4 (and u 0xf0)) # hex_digit (and u 0xf) # SWIG_PackData us"

definition hex_value :: "char \<Rightarrow> u8 option" where
  "hex_value d =
     (let n = (of_char d :: nat)
      in if 48 \<le> n \<and> n \<le> 57 then Some (of_nat (n - 48))
         else if 97 \<le> n \<and> n \<le> 102 then Some (of_nat (n - 87)) else None)"

text \<open>
  Result: the position after the data, or null at a character that is no digit, and the bytes
  written so far. A string that ends early stops the loop at its terminator.
\<close>

fun SWIG_UnpackData :: "string \<Rightarrow> nat \<Rightarrow> string option \<times> u8 list" where
  "SWIG_UnpackData c 0 = (Some c, [])"
| "SWIG_UnpackData c (Suc sz) =
     (case c of
        [] \<Rightarrow> (None, [])
      | d # c \<Rightarrow>
          (case hex_value d of
             None \<Rightarrow> (None, [])
           | Some hi \<Rightarrow>
               (case c of
                  [] \<Rightarrow> (None, [])
                | e # c \<Rightarrow>
                    (case hex_value e of
                       None \<Rightarrow> (None, [])
                     | Some lo \<Rightarrow>
                         (let (c, us) = SWIG_UnpackData c sz in (c, or (push_bit 4 hi) lo # us))))))"

text \<open>The text in the buffer, or null when the buffer is too small.\<close>

definition SWIG_PackVoidPtr :: "u8 list \<Rightarrow> string \<Rightarrow> nat \<Rightarrow> string option" where
  "SWIG_PackVoidPtr bytes name bsz =
     (if 2 * 8 + 2 > bsz then None
      else (let r = ''_'' @ SWIG_PackData bytes
            in if length name + 1 > bsz - length r then None else Some (r @ name)))"

definition SWIG_UnpackVoidPtr :: "string \<Rightarrow> string \<Rightarrow> string option \<times> u8 list" where
  "SWIG_UnpackVoidPtr c name =
     (if take 1 c \<noteq> ''_''
      then (if c = ''NULL'' then (Some name, replicate 8 0) else (None, []))
      else SWIG_UnpackData (tl c) 8)"

definition SWIG_PackDataName :: "u8 list \<Rightarrow> string option \<Rightarrow> nat \<Rightarrow> string option" where
  "SWIG_PackDataName bytes name bsz =
     (let lname = (case name of None \<Rightarrow> 0 | Some n \<Rightarrow> length n)
      in if 2 * length bytes + 2 + lname > bsz then None
         else Some (''_'' @ SWIG_PackData bytes @ (case name of None \<Rightarrow> [] | Some n \<Rightarrow> n)))"

definition SWIG_UnpackDataName :: "string \<Rightarrow> nat \<Rightarrow> string option \<Rightarrow> string option \<times> u8 list" where
  "SWIG_UnpackDataName c sz name =
     (if take 1 c \<noteq> ''_''
      then (if c = ''NULL'' then (name, replicate sz 0) else (None, []))
      else SWIG_UnpackData (tl c) sz)"

section \<open>Return codes\<close>

text \<open>Negative codes are errors.\<close>

definition SWIG_IsOK :: "int \<Rightarrow> bool" where
  "SWIG_IsOK r \<longleftrightarrow> 0 \<le> r"

end
