(* ===== verification/Swig_Correct.thy ===== *)
theory Swig_Correct
  imports SwigTypes "HOL-Library.Multiset"
begin

text \<open>
  Correctness of the type registry and of the packing: the type check is a move-to-front list,
  the table search finds a name exactly when it is there and always ends, name comparison on
  names without blanks is membership, and unpacking is the inverse of packing.
\<close>

section \<open>The doubly linked list of casts\<close>

definition nxt :: "swig_heap \<Rightarrow> addr \<rightharpoonup> ptr" where
  "nxt h a = map_option ci_next (ci h a)"

definition prv :: "swig_heap \<Rightarrow> addr \<rightharpoonup> ptr" where
  "prv h a = map_option ci_prev (ci h a)"

text \<open>What the list operations leave alone: the type and the converter of each cast.\<close>

definition cast_data :: "swig_heap \<Rightarrow> addr \<Rightarrow> (addr \<times> (ptr \<Rightarrow> ptr) option) option" where
  "cast_data h a = map_option (\<lambda>c. (ci_type c, ci_converter c)) (ci h a)"

text \<open>Each cell of the list points links_back to the one before it, starting behind \<open>p\<close>.\<close>

primrec links_back :: "(addr \<rightharpoonup> ptr) \<Rightarrow> addr \<Rightarrow> addr list \<Rightarrow> bool" where
  "links_back pv p [] \<longleftrightarrow> True"
| "links_back pv p (b # bs) \<longleftrightarrow> pv b = Some (Some p) \<and> links_back pv b bs"

definition casts_rep :: "swig_heap \<Rightarrow> addr \<Rightarrow> addr list \<Rightarrow> bool" where
  "casts_rep h ty cs \<longleftrightarrow>
     (\<exists>t. ti h ty = Some t \<and> path (nxt h) (ti_cast t) cs NULL) \<and> (cs \<noteq> [] \<longrightarrow> links_back (prv h) (hd cs) (tl cs))"

lemma set_next_eq:
  assumes "nxt h a = Some q"
  obtains h' where "set_next a p h = Some h'" "nxt h' = (nxt h)(a \<mapsto> p)" "prv h' = prv h"
    "cast_data h' = cast_data h" "ti h' = ti h"
proof -
  obtain c where c: "ci h a = Some c" using assms by (auto simp: nxt_def)
  show thesis
    by (rule that [of "h\<lparr>ci := (ci h)(a \<mapsto> c\<lparr>ci_next := p\<rparr>)\<rparr>"])
      (use c in \<open>auto simp: set_next_def nxt_def prv_def cast_data_def fun_eq_iff\<close>)
qed

lemma set_prev_eq:
  assumes "nxt h a = Some q"
  obtains h' where "set_prev a p h = Some h'" "nxt h' = nxt h" "prv h' = (prv h)(a \<mapsto> p)"
    "cast_data h' = cast_data h" "ti h' = ti h"
proof -
  obtain c where c: "ci h a = Some c" using assms by (auto simp: nxt_def)
  show thesis
    by (rule that [of "h\<lparr>ci := (ci h)(a \<mapsto> c\<lparr>ci_prev := p\<rparr>)\<rparr>"])
      (use c in \<open>auto simp: set_prev_def nxt_def prv_def cast_data_def fun_eq_iff\<close>)
qed

lemma nxt_Some: "nxt h a = Some q \<Longrightarrow> \<exists>c. ci h a = Some c \<and> ci_next c = q \<and> prv h a = Some (ci_prev c)"
  by (auto simp: nxt_def prv_def)

lemma links_back_append:
  "links_back pv p (us @ vs) \<longleftrightarrow> links_back pv p us \<and> links_back pv (last (p # us)) vs"
  by (induction us arbitrary: p) auto

lemma links_back_cong: "(\<And>b. b \<in> set bs \<Longrightarrow> pv b = qv b) \<Longrightarrow> links_back pv p bs = links_back qv p bs"
  by (induction bs arbitrary: p) auto

text \<open>Unlinking \<open>a\<close> and putting it in front, on the two link maps.\<close>

lemma path_to_front:
  assumes "path nx (Some u) (u # us @ a # vs) NULL" "nx a = Some n"
  shows "path (nx(last (u # us) \<mapsto> n, a \<mapsto> Some u)) (Some a) (a # u # us @ vs) NULL"
proof -
  have dist: "distinct (u # us @ a # vs)" by (rule path_distinct [OF assms(1)])
  obtain ws p where wp: "u # us = ws @ [p]" by (metis append_butlast_last_id list.discI)
  then have p: "last (u # us) = p" by simp
  have all: "path nx (Some u) (ws @ p # a # vs) NULL" using assms(1) wp by (metis append.assoc append_Cons append_Nil)
  have d: "distinct (ws @ p # a # vs)" using dist wp by (metis append.assoc append_Cons append_Nil)
  from all have front: "path nx (Some u) ws (Some p)" and rest: "path nx n vs NULL"
    using assms(2) by (auto simp: path_simps split: option.splits)
  let ?nx = "nx(p \<mapsto> n, a \<mapsto> Some u)"
  have 1: "path ?nx (Some u) ws (Some p)" using front d by simp
  have 2: "path ?nx n vs NULL" using rest d by simp
  have "path ?nx (Some u) ((ws @ [p]) @ vs) NULL"
    using 1 2 d by (auto simp: path_simps)
  then have "path ?nx (Some u) (u # us @ vs) NULL" by (simp only: wp [symmetric] append_Cons)
  then have "path ?nx (Some a) (a # u # us @ vs) NULL" by (subst path.simps(2)) simp
  then show ?thesis by (simp only: p)
qed

lemma back_to_front:
  assumes "links_back pv u (us @ a # vs)" "distinct (u # us @ a # vs)"
  shows "links_back ((case vs of [] \<Rightarrow> pv | v # _ \<Rightarrow> pv(v \<mapsto> Some (last (u # us))))(a \<mapsto> NULL, u \<mapsto> Some a)) a (u # us @ vs)"
proof -
  let ?pv = "(case vs of [] \<Rightarrow> pv | v # _ \<Rightarrow> pv(v \<mapsto> Some (last (u # us))))(a \<mapsto> NULL, u \<mapsto> Some a)"
  have us: "links_back ?pv u us"
    using assms by (subst links_back_cong [of us _ pv]) (auto simp: links_back_append split: list.splits)
  have vs: "links_back ?pv (last (u # us)) vs"
  proof (cases vs)
    case (Cons v vs')
    have "links_back pv v vs'" using assms(1) Cons by (simp add: links_back_append)
    then have "links_back ?pv v vs'"
      using assms(2) Cons by (subst links_back_cong [of vs' _ pv]) auto
    then show ?thesis using assms(2) Cons by auto
  qed simp
  from us vs show ?thesis by (simp add: links_back_append)
qed

lemma move_to_top_rep:
  assumes rep: "casts_rep h ty (u # us @ a # vs)"
  obtains h' where "move_to_top a ty h = Some h'" "casts_rep h' ty (a # u # us @ vs)"
    "cast_data h' = cast_data h" "\<And>b. map_option ti_name (ti h' b) = map_option ti_name (ti h b)"
proof -
  obtain t where t: "ti h ty = Some t" "path (nxt h) (ti_cast t) (u # us @ a # vs) NULL"
    and bk: "links_back (prv h) u (us @ a # vs)"
    using rep by (auto simp: casts_rep_def)
  have dist: "distinct (u # us @ a # vs)" by (rule path_distinct [OF t(2)])
  have head: "ti_cast t = Some u" using t(2) by (simp split: option.splits)
  note dom = path_in_dom [OF t(2)]
  let ?p = "last (u # us)"
  have in_dom: "\<exists>q. nxt h b = Some q" if "b \<in> set (u # us @ a # vs)" for b using dom that by (auto simp: dom_def)
  obtain n where n: "nxt h a = Some n" using in_dom [of a] by auto
  have nvs: "path (nxt h) n vs NULL" using t(2) n head by (auto simp: path_simps split: option.splits)
  have pa: "prv h a = Some (Some ?p)" using bk by (simp add: links_back_append)
  obtain c where c: "ci h a = Some c" "ci_next c = n" "ci_prev c = Some ?p"
    using nxt_Some [OF n] pa by auto
  obtain q where q: "nxt h ?p = Some q" using in_dom [of ?p] by (metis UnCI last_in_set list.discI set_append append_Cons)
  obtain h1 where h1: "set_next ?p n h = Some h1" "nxt h1 = (nxt h)(?p \<mapsto> n)" "prv h1 = prv h"
    "cast_data h1 = cast_data h" "ti h1 = ti h"
    using set_next_eq [OF q] .
  define pv2 where "pv2 = (case vs of [] \<Rightarrow> prv h | v # _ \<Rightarrow> (prv h)(v \<mapsto> Some ?p))"
  have "\<exists>h2. (case n of None \<Rightarrow> Some h1 | Some v \<Rightarrow> set_prev v (Some ?p) h1) = Some h2 \<and>
      nxt h2 = nxt h1 \<and> prv h2 = pv2 \<and> cast_data h2 = cast_data h1 \<and> ti h2 = ti h1"
  proof (cases vs)
    case Nil
    then have "n = NULL" using nvs by simp
    then show ?thesis using Nil h1(3) by (simp add: pv2_def)
  next
    case (Cons v vs')
    then have v: "n = Some v" using nvs by simp
    obtain q where "nxt h v = Some q" using in_dom [of v] Cons by auto
    then obtain q' where "nxt h1 v = Some q'" using h1(2) by (cases "v = ?p") auto
    then obtain h2 where "set_prev v (Some ?p) h1 = Some h2" "nxt h2 = nxt h1" "prv h2 = (prv h1)(v \<mapsto> Some ?p)"
      "cast_data h2 = cast_data h1" "ti h2 = ti h1"
      by (rule set_prev_eq)
    then show ?thesis using v Cons h1(3) by (simp add: pv2_def)
  qed
  then obtain h2 where h2: "(case n of None \<Rightarrow> Some h1 | Some v \<Rightarrow> set_prev v (Some ?p) h1) = Some h2"
    "nxt h2 = nxt h1" "prv h2 = pv2" "cast_data h2 = cast_data h1" "ti h2 = ti h1" by blast
  have "a \<noteq> ?p" using dist by (metis Un_iff append_Cons distinct_append last_in_set list.discI list.set_intros(1)
        disjoint_iff)
  then have "nxt h2 a = Some n" using h1(2) h2(2) n by simp
  then obtain h3 where h3: "set_next a (Some u) h2 = Some h3" "nxt h3 = (nxt h2)(a \<mapsto> Some u)" "prv h3 = prv h2"
    "cast_data h3 = cast_data h2" "ti h3 = ti h2"
    by (rule set_next_eq)
  have "nxt h3 a = Some (Some u)" using h3(2) by simp
  then obtain h4 where h4: "set_prev a NULL h3 = Some h4" "nxt h4 = nxt h3" "prv h4 = (prv h3)(a \<mapsto> NULL)"
    "cast_data h4 = cast_data h3" "ti h4 = ti h3"
    by (rule set_prev_eq)
  obtain q where "nxt h u = Some q" using in_dom [of u] by auto
  then have "\<exists>q'. nxt h4 u = Some q'"
    unfolding h4(2) h3(2) h2(2) h1(2) by (cases "u = a"; cases "u = ?p") (simp_all del: last.simps)
  then obtain q' where "nxt h4 u = Some q'" ..
  then obtain h5 where h5: "set_prev u (Some a) h4 = Some h5" "nxt h5 = nxt h4" "prv h5 = (prv h4)(u \<mapsto> Some a)"
    "cast_data h5 = cast_data h4" "ti h5 = ti h4"
    by (rule set_prev_eq)
  let ?h = "h5\<lparr>ti := (ti h5)(ty \<mapsto> t\<lparr>ti_cast := Some a\<rparr>)\<rparr>"
  have same: "nxt ?h = nxt h5" "prv ?h = prv h5" "cast_data ?h = cast_data h5"
    by (simp_all add: nxt_def [abs_def] prv_def [abs_def] cast_data_def [abs_def])
  have tis: "ti h5 = ti h" using h5(5) h4(5) h3(5) h2(5) h1(5) by simp
  have ts: "ti h2 ty = Some t" "ti h5 ty = Some t" using t(1) tis h1(5) h2(5) by simp_all
  show thesis
  proof (rule that [of ?h])
    show "move_to_top a ty h = Some ?h"
      by (simp only: move_to_top_def set_cast_def c h1(1) h2(1) h3(1) h4(1) h5(1) ts head
          Option.bind.simps option.case)
    have "nxt ?h = (nxt h)(?p \<mapsto> n, a \<mapsto> Some u)"
      using same(1) h5(2) h4(2) h3(2) h2(2) h1(2) by simp
    moreover have "prv ?h = pv2(a \<mapsto> NULL, u \<mapsto> Some a)"
      using same(2) h5(3) h4(3) h3(3) h2(3) by simp
    moreover have "path (nxt h) (Some u) (u # us @ a # vs) NULL" using t(2) head by simp
    note path_to_front [OF this n]
    moreover note back_to_front [OF bk dist, folded pv2_def]
    ultimately show "casts_rep ?h ty (a # u # us @ vs)"
      by (simp add: casts_rep_def del: path.simps links_back.simps)
    show "cast_data ?h = cast_data h" using same(3) h5(4) h4(4) h3(4) h2(4) h1(4) by simp
    show "map_option ti_name (ti ?h b) = map_option ti_name (ti h b)" for b using t(1) tis by simp
  qed
qed

section \<open>The check\<close>

text \<open>The specification: the first cast that is hit moves to the front.\<close>

definition first_hit :: "(addr \<Rightarrow> bool) \<Rightarrow> addr list \<Rightarrow> ptr" where
  "first_hit P cs = List.find P cs"

definition hit_to_front :: "(addr \<Rightarrow> bool) \<Rightarrow> addr list \<Rightarrow> addr list" where
  "hit_to_front P cs = (case first_hit P cs of None \<Rightarrow> cs | Some a \<Rightarrow> a # remove1 a cs)"

lemma hit_to_front_mset: "mset (hit_to_front P cs) = mset cs"
proof (cases "first_hit P cs")
  case (Some a)
  then have "a \<in> set cs" by (auto simp: first_hit_def find_Some_iff)
  with Some show ?thesis by (simp add: hit_to_front_def)
qed (simp add: hit_to_front_def)

lemma first_hit_again: "first_hit P (hit_to_front P cs) = first_hit P cs"
proof (cases "first_hit P cs")
  case (Some a)
  then have "P a" by (auto simp: first_hit_def find_Some_iff)
  with Some show ?thesis by (simp add: hit_to_front_def) (simp add: first_hit_def)
qed (simp add: hit_to_front_def)

text \<open>What the loop sees of each cast.\<close>

definition hits :: "(swig_heap \<Rightarrow> addr \<Rightarrow> bool option) \<Rightarrow> (addr \<Rightarrow> bool) \<Rightarrow> swig_heap \<Rightarrow> addr list \<Rightarrow> bool" where
  "hits hit P h cs \<longleftrightarrow> (\<forall>a \<in> set cs. \<exists>c. ci h a = Some c \<and> hit h (ci_type c) = Some (P a))"

lemma check_loop_rep:
  assumes rep: "casts_rep h ty (us @ vs)" and hit: "hits hit P h vs" and us: "\<forall>a \<in> set us. \<not> P a"
    and iter: "path (nxt h) iter vs NULL"
  shows "\<exists>h'. check_loop hit ty iter h = Some (first_hit P vs, h') \<and>
    casts_rep h' ty (hit_to_front P (us @ vs)) \<and> cast_data h' = cast_data h \<and>
    (\<forall>b. map_option ti_name (ti h' b) = map_option ti_name (ti h b))"
  using rep hit us iter
proof (induction vs arbitrary: us iter)
  case Nil
  then have "first_hit P us = None" by (simp add: first_hit_def find_None_iff)
  with Nil show ?case by (subst check_loop.simps) (simp add: hit_to_front_def first_hit_def)
next
  case (Cons a vs)
  obtain c where c: "ci h a = Some c" "hit h (ci_type c) = Some (P a)" using Cons.prems(2) by (auto simp: hits_def)
  have it: "iter = Some a" "path (nxt h) (ci_next c) vs NULL" using Cons.prems(4) c(1) nxt_def [of h a] by auto
  obtain t where t: "ti h ty = Some t" "path (nxt h) (ti_cast t) (us @ a # vs) NULL"
    using Cons.prems(1) by (auto simp: casts_rep_def)
  have nu: "first_hit P us = None" using Cons.prems(3) by (simp add: first_hit_def find_None_iff)
  show ?case
  proof (cases "P a")
    case False
    have "\<forall>b \<in> set (us @ [a]). \<not> P b" using Cons.prems(3) False by simp
    moreover have "casts_rep h ty ((us @ [a]) @ vs)" using Cons.prems(1) by simp
    moreover have "hits hit P h vs" using Cons.prems(2) by (simp add: hits_def)
    ultimately obtain h' where "check_loop hit ty (ci_next c) h = Some (first_hit P vs, h')"
      "casts_rep h' ty (hit_to_front P ((us @ [a]) @ vs))" "cast_data h' = cast_data h"
      "\<forall>b. map_option ti_name (ti h' b) = map_option ti_name (ti h b)"
      using Cons.IH [of "us @ [a]"] it(2) by blast
    then show ?thesis
      using c it(1) False by (subst check_loop.simps) (simp add: first_hit_def)
  next
    case True
    have fh: "first_hit P (us @ a # vs) = Some a" "first_hit P (a # vs) = Some a"
      using True Cons.prems(3) by (induction us) (simp_all add: first_hit_def)
    have nus: "a \<notin> set us" using True Cons.prems(3) by blast
    show ?thesis
    proof (cases us)
      case Nil
      then have "ti_cast t = Some a" using t(2) by simp
      then have "check_loop hit ty iter h = Some (Some a, h)"
        using c it(1) t(1) True by (subst check_loop.simps) simp
      then show ?thesis using fh Nil Cons.prems(1) by (intro exI [of _ h]) (simp add: hit_to_front_def)
    next
      case us: (Cons u us')
      have "casts_rep h ty (u # us' @ a # vs)" using Cons.prems(1) us by simp
      then obtain h' where m: "move_to_top a ty h = Some h'" "casts_rep h' ty (a # u # us' @ vs)"
        "cast_data h' = cast_data h" "\<And>b. map_option ti_name (ti h' b) = map_option ti_name (ti h b)"
        by (rule move_to_top_rep) (rule that)
      have "ti_cast t \<noteq> Some a" using t(2) us nus by auto
      then have "check_loop hit ty iter h = Some (Some a, h')"
        using c it(1) t(1) True m(1) by (subst check_loop.simps) simp
      moreover have "hit_to_front P (us @ a # vs) = a # u # us' @ vs"
        using fh(1) us nus by (simp add: hit_to_front_def remove1_append)
      ultimately show ?thesis using m(2-4) fh(2) by simp
    qed
  qed
qed

section \<open>Packing\<close>

lemma hex_value_digit: "unat d < 16 \<Longrightarrow> hex_value (hex_digit d) = Some d"
proof -
  assume d: "unat d < 16"
  have "\<forall>n < 16. hex_value (''0123456789abcdef'' ! n) = Some (of_nat n)"
    by (simp add: All_less_Suc eval_nat_numeral hex_value_def Let_def)
  with d show ?thesis by (simp add: hex_digit_def)
qed

lemma nibbles:
  fixes u :: u8
  shows "unat (drop_bit 4 (and u 240)) < 16" "unat (and u 15) < 16"
    "or (push_bit 4 (drop_bit 4 (and u 240))) (and u 15) = u"
proof -
  have m: "(15 :: u8) = mask 4" "(240 :: u8) = push_bit 4 (mask 4)" by (simp_all add: mask_eq_exp_minus_1)
  have "unat (and u 240) < 256" using unsigned_less [of "and u 240"] by simp
  moreover have "unat (drop_bit 4 (and u 240)) = unat (and u 240) div 2 ^ 4"
    by (simp only: unat_drop_bit_eq) (simp only: drop_bit_eq_div)
  ultimately show "unat (drop_bit 4 (and u 240)) < 16" by simp
  have "and u 15 \<le> 15" by (rule word_and_le1)
  then show "unat (and u 15) < 16" by (simp add: word_le_nat_alt)
  show "or (push_bit 4 (drop_bit 4 (and u 240))) (and u 15) = u"
    unfolding m by (rule bit_word_eqI) (auto simp: bit_simps)
qed

lemma unpack_pack:
  "SWIG_UnpackData (SWIG_PackData us @ rest) (length us) = (Some rest, us)"
  by (induction us) (simp_all only: SWIG_PackData.simps SWIG_UnpackData.simps list.size append.simps add_Suc_right add_0_right list.case hex_value_digit nibbles option.case prod.case Let_def)

lemma length_pack [simp]: "length (SWIG_PackData us) = 2 * length us"
  by (induction us) simp_all

section \<open>The search of a table\<close>

text \<open>A table whose names are there and strictly increasing, as SWIG generates it.\<close>

definition sorted_table :: "swig_heap \<Rightarrow> addr list \<Rightarrow> string list \<Rightarrow> bool" where
  "sorted_table h types names \<longleftrightarrow>
     length types = length names \<and> length names \<le> 2 ^ 63 \<and>
     (\<forall>i < length names. \<exists>t. ti h (types ! i) = Some t \<and> ti_name t = Some (names ! i)) \<and>
     sorted_wrt (<) names"

lemma search_types_range:
  assumes tab: "sorted_table h types names"
  shows "l \<le> r \<Longrightarrow> r < length names \<Longrightarrow>
    \<exists>res. search_types h types name l r = Some res \<and>
      (\<forall>i. l \<le> i \<and> i \<le> r \<and> names ! i = name \<longrightarrow> res = Some (types ! i)) \<and>
      ((\<forall>i. l \<le> i \<and> i \<le> r \<longrightarrow> names ! i \<noteq> name) \<longrightarrow> res = NULL)"
proof (induction "r - l" arbitrary: l r rule: less_induct)
  case less
  have len: "length types = length names" "length names \<le> 2 ^ 63" and sorted: "sorted_wrt (<) names"
    using tab by (auto simp: sorted_table_def)
  have mono: "names ! i < names ! j" if "i < j" "j < length names" for i j
    using sorted_wrt_nth_less [OF sorted that] .
  define i where "i = (l + r) div 2"
  have "l + r < 2 ^ 64" using less.prems len(2) by simp
  then have mid: "((l + r) mod 2 ^ 64) div 2 = i" by (simp add: i_def)
  have i: "l \<le> i" "i \<le> r" "i < length types" using less.prems len(1) by (simp_all add: i_def)
  obtain t where t: "ti h (types ! i) = Some t" "ti_name t = Some (names ! i)"
    using tab i(3) len(1) by (auto simp: sorted_table_def)
  have step: "search_types h types name l r =
      (if name = names ! i then Some (Some (types ! i))
       else if name < names ! i
       then (if i \<noteq> 0 \<and> l \<le> i - 1 then search_types h types name l (i - 1) else Some NULL)
       else (if Suc i \<le> r then search_types h types name (Suc i) r else Some NULL))"
    by (subst search_types.simps, simp only: Let_def mid) (simp add: i(3) t strcmp_def)
  consider (eq) "name = names ! i" | (lt) "name < names ! i" | (gt) "names ! i < name" by (metis neqE)
  then show ?case
  proof cases
    case eq
    have uniq: "k = i" if "k \<le> r" "names ! k = name" for k
      using mono [of k i] mono [of i k] that eq i less.prems(2) by (cases k i rule: linorder_cases) auto
    have at: "search_types h types name l r = Some (Some (types ! i))" using step eq by simp
    show ?thesis
    proof (intro exI [of _ "Some (types ! i)"] conjI at allI impI)
      fix k assume "l \<le> k \<and> k \<le> r \<and> names ! k = name"
      then show "Some (types ! i) = Some (types ! k)" using uniq [of k] by simp
    next
      assume "\<forall>k. l \<le> k \<and> k \<le> r \<longrightarrow> names ! k \<noteq> name"
      then show "Some (types ! i) = NULL" using i(1,2) eq by blast
    qed
  next
    case lt
    have high: "names ! k \<noteq> name" if "i \<le> k" "k \<le> r" for k
      using mono [of i k] lt that less.prems(2) by (cases "k = i") auto
    show ?thesis
    proof (cases "i \<noteq> 0 \<and> l \<le> i - 1")
      case True
      then have "i - 1 - l < r - l" "l \<le> i - 1" "i - 1 < length names" using i less.prems by auto
      from less.hyps [OF this] obtain res where "search_types h types name l (i - 1) = Some res"
        "\<forall>k. l \<le> k \<and> k \<le> i - 1 \<and> names ! k = name \<longrightarrow> res = Some (types ! k)"
        "(\<forall>k. l \<le> k \<and> k \<le> i - 1 \<longrightarrow> names ! k \<noteq> name) \<longrightarrow> res = NULL" by blast
      moreover have "k \<le> i - 1" if "k \<le> r" "names ! k = name" for k
        using high [of k] that by (cases "i \<le> k") auto
      ultimately show ?thesis using step lt True i(2) by (intro exI [of _ res]) auto
    next
      case False
      then have "names ! k \<noteq> name" if "l \<le> k" "k \<le> r" for k
        using high [of k] that by (cases "i \<le> k") auto
      then show ?thesis using step lt False by auto
    qed
  next
    case gt
    then have nlt: "name \<noteq> names ! i" "\<not> name < names ! i" by auto
    have low: "names ! k \<noteq> name" if "k \<le> i" for k
      using mono [of k i] gt that i(3) len(1) by (cases "k = i") auto
    show ?thesis
    proof (cases "Suc i \<le> r")
      case True
      then have "r - Suc i < r - l" using i by simp
      from less.hyps [OF this True less.prems(2)] obtain res where "search_types h types name (Suc i) r = Some res"
        "\<forall>k. Suc i \<le> k \<and> k \<le> r \<and> names ! k = name \<longrightarrow> res = Some (types ! k)"
        "(\<forall>k. Suc i \<le> k \<and> k \<le> r \<longrightarrow> names ! k \<noteq> name) \<longrightarrow> res = NULL" by blast
      moreover have "Suc i \<le> k" if "names ! k = name" for k
        using low [of k] that by (cases "k \<le> i") auto
      ultimately show ?thesis using step nlt True i(1) by (intro exI [of _ res]) auto
    next
      case False
      then have "names ! k \<noteq> name" if "k \<le> r" for k using low [of k] that by simp
      then show ?thesis using step nlt False by auto
    qed
  qed
qed

text \<open>The first type of the modules, in the order of the ring, that has the name.\<close>

fun first_in_table :: "string \<Rightarrow> (addr \<times> string) list \<Rightarrow> ptr" where
  "first_in_table name [] = NULL"
| "first_in_table name ((a, n) # rest) = (if n = name then Some a else first_in_table name rest)"

lemma first_in_table_nth:
  "length types = length names \<Longrightarrow>
     (\<forall>i < length names. names ! i = name \<longrightarrow> (\<forall>j < i. names ! j \<noteq> name) \<longrightarrow>
        first_in_table name (zip types names) = Some (types ! i)) \<and>
     (name \<notin> set names \<longrightarrow> first_in_table name (zip types names) = NULL)"
proof (induction types names rule: list_induct2)
  case (Cons a types n names)
  show ?case
  proof (cases "n = name")
    case True
    have "i = 0" if "i < length (n # names)" "\<forall>j < i. (n # names) ! j \<noteq> name" for i
      using that True by (cases i) auto
    with True show ?thesis by (metis first_in_table.simps(2) list.set_intros(1) nth_Cons_0 zip_Cons_Cons)
  next
    case False
    have "first_in_table name (zip types names) = Some ((a # types) ! i)"
      if "i < length (n # names)" "(n # names) ! i = name" "\<forall>j < i. (n # names) ! j \<noteq> name" for i
    proof (cases i)
      case 0
      with that False show ?thesis by simp
    next
      case (Suc k)
      then have "\<forall>j < k. names ! j \<noteq> name" using that(3) by (auto simp: less_Suc_eq_0_disj)
      with Suc that Cons.IH show ?thesis by simp
    qed
    with False Cons.IH show ?thesis by simp
  qed
qed simp

lemma search_table:
  assumes tab: "sorted_table h types names" and ne: "types \<noteq> []"
  shows "search_types h types name 0 (length types - 1) = Some (first_in_table name (zip types names))"
proof -
  have len: "length types = length names" and sorted: "sorted_wrt (<) names"
    using tab by (auto simp: sorted_table_def)
  then have r: "0 \<le> length types - 1" "length types - 1 < length names" using ne by (cases types; simp)+
  obtain res where res: "search_types h types name 0 (length types - 1) = Some res"
    "\<forall>i. 0 \<le> i \<and> i \<le> length types - 1 \<and> names ! i = name \<longrightarrow> res = Some (types ! i)"
    "(\<forall>i. 0 \<le> i \<and> i \<le> length types - 1 \<longrightarrow> names ! i \<noteq> name) \<longrightarrow> res = NULL"
    using search_types_range [OF tab r] by blast
  have "res = first_in_table name (zip types names)"
  proof (cases "name \<in> set names")
    case True
    then obtain i where i: "i < length names" "names ! i = name" by (auto simp: in_set_conv_nth)
    then have "\<forall>j < i. names ! j \<noteq> name" using sorted_wrt_nth_less [OF sorted] by fastforce
    then have "first_in_table name (zip types names) = Some (types ! i)"
      using first_in_table_nth [OF len] i by blast
    moreover have "i \<le> length types - 1" using i(1) len by simp
    ultimately show ?thesis using res(2) i(2) by simp
  next
    case False
    then have "names ! i \<noteq> name" if "i \<le> length types - 1" for i
      using that r(2) by (metis le_less_trans nth_mem)
    then show ?thesis using False res(3) first_in_table_nth [OF len] by simp
  qed
  with res(1) show ?thesis by simp
qed

section \<open>The ring of modules\<close>

text \<open>\<open>stop\<close> is reached again after the modules listed.\<close>

primrec ring_from :: "(addr \<rightharpoonup> swig_module_info) \<Rightarrow> addr list \<Rightarrow> addr \<Rightarrow> bool" where
  "ring_from mods [] stop \<longleftrightarrow> True"
| "ring_from mods (a # as) stop \<longleftrightarrow>
     (\<exists>m. mods a = Some m \<and> sm_next m = (case as of [] \<Rightarrow> stop | b # _ \<Rightarrow> b)) \<and> stop \<notin> set as \<and>
     ring_from mods as stop"

definition table_of :: "(addr \<rightharpoonup> swig_module_info) \<Rightarrow> addr \<Rightarrow> addr list" where
  "table_of mods a = (case mods a of None \<Rightarrow> [] | Some m \<Rightarrow> sm_types m)"

definition named_types :: "swig_heap \<Rightarrow> addr list \<Rightarrow> (addr \<times> string) list" where
  "named_types h types = map (\<lambda>a. (a, the (Option.bind (ti h a) ti_name))) types"

lemma named_types_zip:
  assumes "sorted_table h types names"
  shows "named_types h types = zip types names"
proof (rule nth_equalityI)
  have len: "length types = length names" using assms by (simp add: sorted_table_def)
  then show "length (named_types h types) = length (zip types names)" by (simp add: named_types_def)
  fix i assume "i < length (named_types h types)"
  then have i: "i < length types" by (simp add: named_types_def)
  then obtain t where "ti h (types ! i) = Some t" "ti_name t = Some (names ! i)"
    using assms len by (auto simp: sorted_table_def)
  with i len show "named_types h types ! i = zip types names ! i" by (simp add: named_types_def)
qed

lemma first_in_table_append:
  "first_in_table name (xs @ ys) =
     (case first_in_table name xs of None \<Rightarrow> first_in_table name ys | Some a \<Rightarrow> Some a)"
  by (induction name xs rule: first_in_table.induct) simp_all

lemma mangled_query_ring:
  "ring_from mods (a # as) stop \<Longrightarrow>
     \<forall>b \<in> set (a # as). \<exists>names. sorted_table h (table_of mods b) names \<Longrightarrow>
     SWIG_MangledTypeQueryModule h mods a stop name =
       Some (first_in_table name (concat (map (\<lambda>b. named_types h (table_of mods b)) (a # as))))"
proof (induction as arbitrary: a)
  case (Nil a)
  then obtain m names where m: "mods a = Some m" "sm_next m = stop" "sorted_table h (sm_types m) names"
    by (auto simp: table_of_def)
  then show ?case
    using search_table [OF m(3), of name]
    by (subst SWIG_MangledTypeQueryModule.simps) (simp add: table_of_def named_types_zip [OF m(3)])
next
  case (Cons b as a)
  then obtain m names where m: "mods a = Some m" "sm_next m = b" "b \<noteq> stop" "sorted_table h (sm_types m) names"
    by (auto simp: table_of_def)
  have rest: "ring_from mods (b # as) stop" using Cons.prems(1) by simp
  have tabs: "\<forall>b \<in> set (b # as). \<exists>names. sorted_table h (table_of mods b) names" using Cons.prems(2) by simp
  let ?here = "first_in_table name (named_types h (sm_types m))"
  have found: "(if sm_types m \<noteq> [] then search_types h (sm_types m) name 0 (length (sm_types m) - 1) else Some NULL) =
      Some ?here"
    using search_table [OF m(4), of name] by (simp add: named_types_zip [OF m(4)])
  have "SWIG_MangledTypeQueryModule h mods a stop name =
      (if ?here \<noteq> NULL then Some ?here else SWIG_MangledTypeQueryModule h mods b stop name)"
    using m(1-3) found by (subst SWIG_MangledTypeQueryModule.simps) (simp del: One_nat_def)
  also have "\<dots> = (if ?here \<noteq> NULL then Some ?here
      else Some (first_in_table name (concat (map (\<lambda>b. named_types h (table_of mods b)) (b # as)))))"
    using Cons.IH [OF rest tabs] by simp
  finally show ?case using m(1) by (auto simp: first_in_table_append table_of_def split: option.splits)
qed

section \<open>Names without blanks\<close>

definition plain_name :: "string \<Rightarrow> bool" where
  "plain_name s \<longleftrightarrow> s \<noteq> [] \<and> CHR '' '' \<notin> set s \<and> CHR ''|'' \<notin> set s \<and> CHR 0x00 \<notin> set s"

lemma skip_none: "i < length s \<Longrightarrow> s ! i \<noteq> CHR '' '' \<Longrightarrow> skip_spaces s i l = Some i"
  by (subst skip_spaces.simps) (simp add: char_at_def)

lemma name_comp_plain:
  assumes "CHR '' '' \<notin> set s" "CHR '' '' \<notin> set t" "l1 \<le> length s" "l2 \<le> length t"
  shows "f1 \<le> l1 \<Longrightarrow> f2 \<le> l2 \<Longrightarrow> \<exists>v. SWIG_TypeNameComp s f1 l1 t f2 l2 = Some v \<and>
    (v = 0 \<longleftrightarrow> drop f1 (take l1 s) = drop f2 (take l2 t))"
proof (induction "l1 - f1" arbitrary: f1 f2)
  case 0
  then have "f1 = l1" by simp
  then show ?case using 0 assms(3,4) by (subst SWIG_TypeNameComp.simps) auto
next
  case (Suc k)
  show ?case
  proof (cases "f2 = l2")
    case True
    then show ?thesis using Suc.hyps(2) assms(3,4) by (subst SWIG_TypeNameComp.simps) auto
  next
    case False
    have f: "f1 < l1" "f2 < l2" using False Suc.hyps(2) Suc.prems by auto
    then have at: "skip_spaces s f1 l1 = Some f1" "skip_spaces t f2 l2 = Some f2"
      "char_at s f1 = Some (s ! f1)" "char_at t f2 = Some (t ! f2)"
      using assms by (auto simp: char_at_def intro!: skip_none) (metis less_le_trans nth_mem)+
    have cons: "drop f1 (take l1 s) = s ! f1 # drop (Suc f1) (take l1 s)"
      "drop f2 (take l2 t) = t ! f2 # drop (Suc f2) (take l2 t)"
      using f assms(3,4) by (auto simp: Cons_nth_drop_Suc [symmetric])
    show ?thesis
    proof (cases "s ! f1 = t ! f2")
      case True
      have "k = l1 - Suc f1" "Suc f1 \<le> l1" "Suc f2 \<le> l2" using Suc.hyps(2) f by auto
      from Suc.hyps(1) [OF this] show ?thesis
        using f at True by (subst SWIG_TypeNameComp.simps) (simp add: cons)
    next
      case ne: False
      then show ?thesis using f at by (subst SWIG_TypeNameComp.simps) (simp add: cons)
    qed
  qed
qed

fun bar_join :: "string list \<Rightarrow> string" where
  "bar_join [] = []"
| "bar_join [c] = c"
| "bar_join (c # d # cs) = c @ ''|'' @ bar_join (d # cs)"

lemma name_end_at:
  assumes "CHR ''|'' \<notin> set c" "CHR 0x00 \<notin> set c" "rest = [] \<or> hd rest = CHR ''|''"
  shows "name_end (pre @ c @ rest) (length pre) = Some (length pre + length c)"
  using assms(1,2)
proof (induction c arbitrary: pre)
  case Nil
  then show ?case using assms(3) by (subst name_end.simps) (auto simp: char_at_def nth_append hd_conv_nth)
next
  case (Cons x c)
  from Cons.IH [of "pre @ [x]"] Cons.prems show ?case
    by (subst name_end.simps) (auto simp: char_at_def nth_append)
qed

lemma comp_in_context:
  assumes "CHR '' '' \<notin> set c" "CHR '' '' \<notin> set tb"
  shows "\<exists>v. SWIG_TypeNameComp (pre @ c @ rest) (length pre) (length pre + length c) tb 0 (length tb) = Some v \<and>
    (v = 0 \<longleftrightarrow> c = tb)"
proof -
  have comp: "SWIG_TypeNameComp (pre @ c @ rest) (length pre + i) (length pre + length c) tb j (length tb) =
      SWIG_TypeNameComp c i (length c) tb j (length tb)" if "i \<le> length c" "j \<le> length tb" for i j
    using that
  proof (induction "length c - i" arbitrary: i j)
    case 0
    then show ?case by (subst (1 2) SWIG_TypeNameComp.simps) simp
  next
    case (Suc k)
    show ?case
    proof (cases "j = length tb")
      case True
      then show ?thesis by (subst (1 2) SWIG_TypeNameComp.simps) simp
    next
      case False
      have ij: "i < length c" "j < length tb" using False Suc.hyps(2) Suc.prems by auto
      then have "c ! i \<noteq> CHR '' ''" "tb ! j \<noteq> CHR '' ''" using assms nth_mem by metis+
      then have at: "skip_spaces (pre @ c @ rest) (length pre + i) (length pre + length c) = Some (length pre + i)"
        "skip_spaces c i (length c) = Some i" "skip_spaces tb j (length tb) = Some j"
        "char_at (pre @ c @ rest) (length pre + i) = Some (c ! i)" "char_at c i = Some (c ! i)"
        "char_at tb j = Some (tb ! j)"
        using ij by (auto intro!: skip_none simp: char_at_def nth_append)
      have "k = length c - Suc i" "Suc i \<le> length c" "Suc j \<le> length tb" using Suc.hyps(2) ij by auto
      from Suc.hyps(1) [OF this] show ?thesis
        using ij at by (subst (1 2) SWIG_TypeNameComp.simps) simp
    qed
  qed
  from name_comp_plain [OF assms order_refl order_refl, of 0 0] comp [of 0 0] show ?thesis by simp
qed

lemma equiv_loop_plain:
  assumes tb: "plain_name tb"
  shows "\<forall>c \<in> set names. plain_name c \<Longrightarrow>
    equiv_loop (pre @ bar_join names) tb 0 (length pre) = Some (if tb \<in> set names then 1 else 0)"
proof (induction names arbitrary: pre)
  case Nil
  then show ?case by (subst equiv_loop.simps) (simp add: char_at_def)
next
  case (Cons c names)
  define rest where "rest = (case names of [] \<Rightarrow> [] | d # ds \<Rightarrow> CHR ''|'' # bar_join names)"
  have nb: "pre @ bar_join (c # names) = pre @ c @ rest" by (cases names) (simp_all add: rest_def)
  have c: "c \<noteq> []" "CHR '' '' \<notin> set c" "CHR ''|'' \<notin> set c" "CHR 0x00 \<notin> set c"
    using Cons.prems by (simp_all add: plain_name_def)
  let ?s = "pre @ c @ rest" and ?e = "length pre + length c"
  obtain x c' where x: "c = x # c'" "x \<noteq> CHR 0x00" using c by (cases c) auto
  have e: "name_end ?s (length pre) = Some ?e"
    by (rule name_end_at [OF c(3,4)]) (auto simp: rest_def split: list.split)
  have ct: "char_at ?s (length pre) = Some x" by (simp add: char_at_def nth_append x(1))
  have ce: "char_at ?s ?e = Some (if names = [] then CHR 0x00 else CHR ''|'')"
    by (auto simp: char_at_def nth_append rest_def split: list.split)
  obtain v where v: "SWIG_TypeNameComp ?s (length pre) ?e tb 0 (length tb) = Some v" "v = 0 \<longleftrightarrow> c = tb"
    using comp_in_context [OF c(2), of tb pre rest] tb by (auto simp: plain_name_def)
  let ?next = "if names = [] then ?e else Suc ?e"
  have step: "equiv_loop ?s tb 0 (length pre) = equiv_loop ?s tb (if c = tb then 1 else 0) ?next"
    by (subst equiv_loop.simps) (simp add: ct x(2) e v ce)
  show ?case
  proof (cases "c = tb")
    case True
    have "?next \<le> length ?s" by (auto simp: rest_def split: list.split)
    then have "char_at ?s ?next \<noteq> None" by (simp add: char_at_def)
    then have "equiv_loop ?s tb 1 ?next = Some 1" by (subst equiv_loop.simps) auto
    with step True show ?thesis unfolding nb by simp
  next
    case False
    have "?s = (pre @ c @ (if names = [] then [] else ''|'')) @ bar_join names"
      by (simp add: rest_def split: list.split)
    moreover have "length (pre @ c @ (if names = [] then [] else ''|'')) = ?next" by simp
    moreover have "\<forall>c \<in> set names. plain_name c" using Cons.prems by simp
    note Cons.IH [OF this, of "pre @ c @ (if names = [] then [] else ''|'')"]
    ultimately show ?thesis using step False unfolding nb by auto
  qed
qed

section \<open>Running the comparison\<close>

text \<open>Conditional equations, so that the simplifier runs the loops on concrete names.\<close>

definition comp_at :: "string \<Rightarrow> nat \<Rightarrow> nat \<Rightarrow> string \<Rightarrow> nat \<Rightarrow> nat \<Rightarrow> int option" where
  "comp_at s f1 l1 t f2 l2 = do {
     c \<leftarrow> char_at s f1;
     d \<leftarrow> char_at t f2;
     if c \<noteq> d then Some (if signed_char d < signed_char c then 1 else - 1)
     else SWIG_TypeNameComp s (Suc f1) l1 t (Suc f2) l2
   }"

named_theorems run_names "running the loops over type names"

lemma run_skip [run_names]:
  "i < length s \<Longrightarrow> s ! i = CHR '' '' \<Longrightarrow> i \<noteq> l \<Longrightarrow> skip_spaces s i l = skip_spaces s (Suc i) l"
  "i < length s \<Longrightarrow> s ! i \<noteq> CHR '' '' \<Longrightarrow> skip_spaces s i l = Some i"
  "skip_spaces s (length s) l = Some (length s)"
  "length s < i \<Longrightarrow> skip_spaces s i l = None"
  by (subst skip_spaces.simps, simp add: char_at_def)+

lemma run_skip_end [run_names]: "i = length s \<Longrightarrow> skip_spaces s i l = Some i"
  by (simp add: run_skip(3))

lemma run_comp [run_names]:
  "f1 = l1 \<or> f2 = l2 \<Longrightarrow> SWIG_TypeNameComp s f1 l1 t f2 l2 = Some ((int l1 - int f1) - (int l2 - int f2))"
  "f1 \<noteq> l1 \<Longrightarrow> f2 \<noteq> l2 \<Longrightarrow> SWIG_TypeNameComp s f1 l1 t f2 l2 =
     Option.bind (skip_spaces s f1 l1) (\<lambda>f1. Option.bind (skip_spaces t f2 l2) (\<lambda>f2. comp_at s f1 l1 t f2 l2))"
  by (subst SWIG_TypeNameComp.simps, auto simp: comp_at_def)+

lemma run_comp_at [run_names]:
  "f1 < length s \<Longrightarrow> f2 < length t \<Longrightarrow> s ! f1 = t ! f2 \<Longrightarrow>
     comp_at s f1 l1 t f2 l2 = SWIG_TypeNameComp s (Suc f1) l1 t (Suc f2) l2"
  "f1 = length s \<Longrightarrow> f2 = length t \<Longrightarrow> comp_at s f1 l1 t f2 l2 = SWIG_TypeNameComp s (Suc f1) l1 t (Suc f2) l2"
  by (simp_all add: comp_at_def char_at_def)

text \<open>The comparison of a whole one-name list.\<close>

lemma equiv_single:
  assumes "s \<noteq> []" "CHR ''|'' \<notin> set s" "CHR 0x00 \<notin> set s"
  shows "SWIG_TypeEquiv s t =
    map_option (\<lambda>v. if v = 0 then 1 else 0) (SWIG_TypeNameComp s 0 (length s) t 0 (length t))"
proof -
  obtain x xs where x: "s = x # xs" using assms(1) by (cases s) auto
  have e: "name_end s 0 = Some (length s)" using name_end_at [OF assms(2,3), of "[]" "[]"] by simp
  have c: "char_at s 0 = Some x" "x \<noteq> CHR 0x00" "char_at s (length s) = Some (CHR 0x00)"
    using x assms(3) by (auto simp: char_at_def)
  have fin: "equiv_loop s t eq (length s) = Some eq" for eq
    by (subst equiv_loop.simps) (simp add: c(3))
  show ?thesis
    unfolding SWIG_TypeEquiv_def
    by (subst equiv_loop.simps)
      (cases "SWIG_TypeNameComp s 0 (length s) t 0 (length t)"; simp add: c e fin)
qed

end
