(* ===== verification/SwigInit.thy ===== *)
theory SwigInit
  imports Swig_Correct
begin

text \<open>
  Loading a module into the type registry of the SWIG runtime
  (\<open>modules/python3/Jacks_python3_wrap.c\<close>): how the interpreter hands over the ring of the
  modules loaded before, how a module joins the ring, takes the types that are already there
  for its own and links its casts, and how client data spreads over the casts afterwards.
\<close>

section \<open>Structures\<close>

text \<open>The static tables SWIG generates: per type its structure and the array of its casts.\<close>

record swig_tables =
  self :: addr
  type_initial :: "addr list"
  cast_initial :: "addr list list"

text \<open>
  \<open>modules\<close> maps each module structure whose \<open>next\<close> has been set up; the others still have a null
  \<open>next\<close>. \<open>capsule\<close> is what the interpreter keeps under the name of the capsule, \<open>type_pointer\<close>
  the static variable of that name in the copy of the runtime in each module.
\<close>

record swig_runtime =
  heap :: swig_heap
  modules :: "addr \<rightharpoonup> swig_module_info"
  capsule :: ptr
  type_pointer :: "addr \<Rightarrow> ptr"
  init_run :: "addr \<Rightarrow> bool"

section \<open>The ring of modules\<close>

text \<open>An import that fails leaves an exception, which is cleared, and the pointer null.\<close>

definition SWIG_Python_GetModule :: "addr \<Rightarrow> swig_runtime \<Rightarrow> ptr \<times> swig_runtime" where
  "SWIG_Python_GetModule this r =
     (if type_pointer r this = NULL
      then (capsule r, r\<lparr>type_pointer := (type_pointer r)(this := capsule r)\<rparr>)
      else (type_pointer r this, r))"

text \<open>\<open>stored\<close>: the interpreter has made the capsule and the module that holds it.\<close>

definition SWIG_Python_SetModule :: "bool \<Rightarrow> addr \<Rightarrow> swig_runtime \<Rightarrow> swig_runtime" where
  "SWIG_Python_SetModule stored m r = (if stored then r\<lparr>capsule := Some m\<rparr> else r)"

definition set_module_next :: "addr \<Rightarrow> addr \<Rightarrow> (addr \<rightharpoonup> swig_module_info) \<Rightarrow> (addr \<rightharpoonup> swig_module_info) option" where
  "set_module_next a b mods = do { m \<leftarrow> mods a; Some (mods(a \<mapsto> m\<lparr>sm_next := b\<rparr>)) }"

partial_function (option) find_module :: "(addr \<rightharpoonup> swig_module_info) \<Rightarrow> addr \<Rightarrow> addr \<Rightarrow> addr \<Rightarrow> bool option" where
  "find_module mods this head iter =
     (if iter = this then Some True
      else do {
        m \<leftarrow> mods iter;
        if sm_next m \<noteq> head then find_module mods this head (sm_next m) else Some False
      })"

section \<open>Types and casts\<close>

text \<open>The structure another module has for the name of a type; only other modules are searched.\<close>

definition loaded_type :: "addr \<Rightarrow> addr \<Rightarrow> swig_runtime \<Rightarrow> ptr option" where
  "loaded_type this ty r = do {
     m \<leftarrow> modules r this;
     if sm_next m \<noteq> this
     then do {
       t \<leftarrow> ti (heap r) ty;
       name \<leftarrow> ti_name t;
       SWIG_MangledTypeQueryModule (heap r) (modules r) (sm_next m) this name
     }
     else Some NULL
   }"

text \<open>A cast goes to the front of the list of its type.\<close>

definition link_cast :: "addr \<Rightarrow> addr \<Rightarrow> swig_heap \<Rightarrow> swig_heap option" where
  "link_cast cast ty h = do {
     t \<leftarrow> ti h ty;
     h \<leftarrow> (case ti_cast t of
            None \<Rightarrow> Some h
          | Some first \<Rightarrow> do { h \<leftarrow> set_prev first (Some cast) h; set_next cast (Some first) h });
     set_cast ty (Some cast) h
   }"

text \<open>
  One cast of \<open>ty\<close>. When the type it converts from is loaded and \<open>ty\<close> is new, the cast takes the
  loaded structure; when both are loaded and the list has such a cast, it is not added.
\<close>

definition insert_cast :: "addr \<Rightarrow> addr \<Rightarrow> addr \<Rightarrow> addr \<Rightarrow> swig_runtime \<Rightarrow> swig_runtime option" where
  "insert_cast this own ty cast r = do {
     c \<leftarrow> ci (heap r) cast;
     ret \<leftarrow> loaded_type this (ci_type c) r;
     (ret, h) \<leftarrow>
       (case ret of
          None \<Rightarrow> Some (NULL, heap r)
        | Some a \<Rightarrow>
            (if ty = own
             then Some (NULL, (heap r)\<lparr>ci := (ci (heap r))(cast \<mapsto> c\<lparr>ci_type := a\<rparr>)\<rparr>)
             else do {
               t \<leftarrow> ti (heap r) a;
               name \<leftarrow> ti_name t;
               (ocast, h) \<leftarrow> SWIG_TypeCheck name (Some ty) (heap r);
               Some (if ocast = NULL then NULL else ret, h)
             }));
     h \<leftarrow> (if ret = NULL then link_cast cast ty h else Some h);
     Some (r\<lparr>heap := h\<rparr>)
   }"

fun insert_casts :: "addr \<Rightarrow> addr \<Rightarrow> addr \<Rightarrow> addr list \<Rightarrow> swig_runtime \<Rightarrow> swig_runtime option" where
  "insert_casts this own ty [] r = Some r"
| "insert_casts this own ty (cast # row) r = do {
     r \<leftarrow> insert_cast this own ty cast r;
     insert_casts this own ty row r
   }"

text \<open>The type for an entry of the table: the loaded one, which takes over the client data, or its own.\<close>

definition adopt_type :: "addr \<Rightarrow> addr \<Rightarrow> swig_runtime \<Rightarrow> (addr \<times> swig_runtime) option" where
  "adopt_type this own r = do {
     found \<leftarrow> loaded_type this own r;
     (case found of
        None \<Rightarrow> Some (own, r)
      | Some ty \<Rightarrow> do {
          o1 \<leftarrow> ti (heap r) own;
          t \<leftarrow> ti (heap r) ty;
          Some (ty, if ti_clientdata o1 = NULL then r
                    else r\<lparr>heap := (heap r)\<lparr>ti := (ti (heap r))(ty \<mapsto> t\<lparr>ti_clientdata := ti_clientdata o1\<rparr>)\<rparr>\<rparr>)
        })
   }"

definition set_type :: "addr \<Rightarrow> addr \<Rightarrow> swig_runtime \<Rightarrow> swig_runtime option" where
  "set_type this ty r = do {
     m \<leftarrow> modules r this;
     Some (r\<lparr>modules := (modules r)(this \<mapsto> m\<lparr>sm_types := sm_types m @ [ty]\<rparr>)\<rparr>)
   }"

fun init_types :: "addr \<Rightarrow> (addr \<times> addr list) list \<Rightarrow> swig_runtime \<Rightarrow> swig_runtime option" where
  "init_types this [] r = Some r"
| "init_types this ((own, row) # rest) r = do {
     (ty, r) \<leftarrow> adopt_type this own r;
     r \<leftarrow> insert_casts this own ty row r;
     r \<leftarrow> set_type this ty r;
     init_types this rest r
   }"

text \<open>Joining the ring of \<open>head\<close>; the flag says that the module is not there yet.\<close>

definition enter_ring :: "addr \<Rightarrow> addr \<Rightarrow> swig_runtime \<Rightarrow> (bool \<times> swig_runtime) option" where
  "enter_ring this head r = do {
     found \<leftarrow> find_module (modules r) this head head;
     if found then Some (False, r)
     else do {
       h \<leftarrow> modules r head;
       mods \<leftarrow> set_module_next this (sm_next h) (modules r);
       mods \<leftarrow> set_module_next head this mods;
       Some (True, r\<lparr>modules := mods\<rparr>)
     }
   }"

definition join_ring :: "bool \<Rightarrow> addr \<Rightarrow> swig_runtime \<Rightarrow> (bool \<times> swig_runtime) option" where
  "join_ring stored this r =
     (case SWIG_Python_GetModule this r of
        (None, r) \<Rightarrow> Some (True, SWIG_Python_SetModule stored this r)
      | (Some head, r) \<Rightarrow> enter_ring this head r)"

text \<open>The loading of a module, over the way the interpreter keeps the ring.\<close>

definition load_module ::
  "(addr \<Rightarrow> swig_runtime \<Rightarrow> (bool \<times> swig_runtime) option) \<Rightarrow> swig_tables \<Rightarrow> swig_runtime \<Rightarrow> swig_runtime option" where
  "load_module join tab r =
     (let this = self tab;
          init = (modules r this = None);
          r = (if init then r\<lparr>modules := (modules r)(this \<mapsto> \<lparr>sm_types = [], sm_next = this\<rparr>)\<rparr> else r)
      in do {
        (new, r) \<leftarrow> join this r;
        if \<not> new \<or> \<not> init then Some r
        else init_types this (zip (type_initial tab) (cast_initial tab)) r
      })"

definition SWIG_InitializeModule :: "bool \<Rightarrow> swig_tables \<Rightarrow> swig_runtime \<Rightarrow> swig_runtime option" where
  "SWIG_InitializeModule stored tab r = load_module (join_ring stored) tab r"

section \<open>Client data\<close>

partial_function (option) propagate_casts :: "ptr \<Rightarrow> ptr \<Rightarrow> swig_heap \<Rightarrow> swig_heap option" where
  "propagate_casts data iter h =
     (case iter of
        None \<Rightarrow> Some h
      | Some a \<Rightarrow> do {
          c \<leftarrow> ci h a;
          h \<leftarrow> (if ci_converter c = None
               then do {
                 t \<leftarrow> ti h (ci_type c);
                 if ti_clientdata t = NULL then SWIG_TypeClientData (ci_type c) data None h else Some h
               }
               else Some h);
          c \<leftarrow> ci h a;
          propagate_casts data (ci_next c) h
        })"

fun propagate_types :: "addr list \<Rightarrow> swig_heap \<Rightarrow> swig_heap option" where
  "propagate_types [] h = Some h"
| "propagate_types (ty # tys) h = do {
     t \<leftarrow> ti h ty;
     h \<leftarrow> (if ti_clientdata t = NULL then Some h else propagate_casts (ti_clientdata t) (ti_cast t) h);
     propagate_types tys h
   }"

definition SWIG_PropagateClientData :: "addr \<Rightarrow> swig_runtime \<Rightarrow> swig_runtime option" where
  "SWIG_PropagateClientData this r =
     (if init_run r this then Some r
      else do {
        m \<leftarrow> modules r this;
        h \<leftarrow> propagate_types (sm_types m) (heap r);
        Some (r\<lparr>heap := h, init_run := (init_run r)(this := True)\<rparr>)
      })"

end
