(* ===== verification/PyRuntime.thy ===== *)
theory PyRuntime
  imports Bindings Swig_Correct SwigInit
begin

text \<open>
  The part of the Python 3 module's runtime the wrapper functions use
  (\<open>modules/python3/Jacks_python3_wrap.c\<close>): proxy objects, the conversion of Python values to
  C values and back, ownership, and the pending Python exception.

  Python objects are values; proxies are heap objects, and a shadow instance and the proxy its
  \<open>this\<close> holds are one. The interpreter's own behaviour is modelled as far as the module
  relies on it: checks of an object's type, integers that do not fit a C type (which leave an
  exception pending), and the pending exception.
\<close>

section \<open>State\<close>

text \<open>
  Values, proxies, and any other object, with or without a dictionary of instance attributes;
  bytes and byte arrays are such others.
\<close>

datatype py_obj = PyNone | PyInt int | PyFloat c_double | PyStr string | PyProxy addr | PyOther bool

datatype py_exc =
    MemoryError | IOError | RuntimeError | IndexError | TypeError | ZeroDivisionError
  | OverflowError | SyntaxError | ValueError | SystemError | AttributeError

record swig_py_object =
  so_ptr :: ptr
  so_ty :: addr
  so_own :: int
  so_next :: ptr

record 'rb py_world =
  js :: "'rb js_world"
  proxies :: "swig_py_object store"
  rt :: swig_heap
  py_err :: "(py_exc \<times> string) option"

text \<open>What a wrapper hands to the interpreter; \<open>Returned None\<close> is the null pointer.\<close>

datatype wrap_result = Returned "py_obj option" | Exited int

type_synonym 'rb outcome = "(wrap_result \<times> 'rb py_world) option"

section \<open>The type table of the module\<close>

definition swig_type_names :: "string list" where
  "swig_type_names =
     [''_p_JackOptions'', ''_p_JackSessionEventType'', ''_p_JackSessionFlags'', ''_p_JsClient'', ''_p_JsEvent'',
      ''_p_JsLatencyRange'', ''_p_JsPort'', ''_p_JsPortBuffer'', ''_p_StringList'', ''_p_char'', ''_p_float'',
      ''_p_jack_transport_state_t'', ''_p_uint32_t'', ''_p_void'']"

definition swig_type_strs :: "string list" where
  "swig_type_strs =
     [''enum JackOptions *|jack_options_t *'', ''enum JackSessionEventType *|jack_session_event_type_t *'',
      ''jack_session_flags_t *|enum JackSessionFlags *'', ''JsClient *'', ''JsEvent *'', ''JsLatencyRange *'',
      ''JsPort *'', ''JsPortBuffer *'', ''StringList *'', ''char *'', ''float *|jack_default_audio_sample_t *'',
      ''enum jack_transport_state_t *|jack_transport_state_t *'', ''uint32_t *|jack_nframes_t *'', ''void *'']"

definition SWIGTYPE_p_JsClient :: addr where "SWIGTYPE_p_JsClient = 3"
definition SWIGTYPE_p_JsEvent :: addr where "SWIGTYPE_p_JsEvent = 4"
definition SWIGTYPE_p_JsLatencyRange :: addr where "SWIGTYPE_p_JsLatencyRange = 5"
definition SWIGTYPE_p_JsPort :: addr where "SWIGTYPE_p_JsPort = 6"
definition SWIGTYPE_p_JsPortBuffer :: addr where "SWIGTYPE_p_JsPortBuffer = 7"
definition SWIGTYPE_p_StringList :: addr where "SWIGTYPE_p_StringList = 8"
definition SWIGTYPE_p_char :: addr where "SWIGTYPE_p_char = 9"
definition SWIGTYPE_p_float :: addr where "SWIGTYPE_p_float = 10"
definition SWIGTYPE_p_void :: addr where "SWIGTYPE_p_void = 13"

text \<open>Before the module is initialised no type has a list of casts.\<close>

definition static_heap :: swig_heap where
  "static_heap =
     \<lparr>ti = (\<lambda>a. if a < 14
              then Some \<lparr>ti_name = Some (swig_type_names ! a), ti_str = Some (swig_type_strs ! a),
                     ti_cast = NULL, ti_clientdata = NULL, ti_owndata = 0\<rparr>
              else None),
      ci = (\<lambda>a. if a < 14
              then Some \<lparr>ci_type = a, ci_converter = None, ci_next = NULL, ci_prev = NULL\<rparr> else None)\<rparr>"

definition swig_module :: swig_tables where
  "swig_module = \<lparr>self = 0, type_initial = [0..<14], cast_initial = map (\<lambda>a. [a]) [0..<14]\<rparr>"

text \<open>An interpreter without any module of SWIG.\<close>

definition interpreter0 :: swig_runtime where
  "interpreter0 = \<lparr>heap = static_heap, modules = Map.empty, capsule = NULL, type_pointer = (\<lambda>_. NULL),
     init_run = (\<lambda>_. False)\<rparr>"

text \<open>The table once this module alone is loaded: every type casts to itself only.\<close>

definition swig_heap0 :: swig_heap where
  "swig_heap0 =
     \<lparr>ti = (\<lambda>a. if a < 14
              then Some \<lparr>ti_name = Some (swig_type_names ! a), ti_str = Some (swig_type_strs ! a),
                     ti_cast = Some a, ti_clientdata = NULL, ti_owndata = 0\<rparr>
              else None),
      ci = (\<lambda>a. if a < 14
              then Some \<lparr>ci_type = a, ci_converter = None, ci_next = NULL, ci_prev = NULL\<rparr> else None)\<rparr>"

definition swig_modules :: "addr \<rightharpoonup> swig_module_info" where
  "swig_modules = [0 \<mapsto> \<lparr>sm_types = [0..<14], sm_next = 0\<rparr>]"

section \<open>Return codes\<close>

definition SWIG_POINTER_OWN :: nat where "SWIG_POINTER_OWN = 1"
definition SWIG_POINTER_NEW :: nat where "SWIG_POINTER_NEW = 3"
definition SWIG_POINTER_DISOWN :: nat where "SWIG_POINTER_DISOWN = 1"
definition SWIG_NEWOBJ :: int where "SWIG_NEWOBJ = 512"

definition SWIG_ArgError :: "int \<Rightarrow> int" where
  "SWIG_ArgError r = (if r \<noteq> - 1 then r else - 5)"

definition SWIG_ErrorType :: "int \<Rightarrow> py_exc" where
  "SWIG_ErrorType code =
     (if code = - 12 then MemoryError else if code = - 2 then IOError else if code = - 3 then RuntimeError
      else if code = - 4 then IndexError else if code = - 5 then TypeError
      else if code = - 6 then ZeroDivisionError else if code = - 7 then OverflowError
      else if code = - 8 then SyntaxError else if code = - 9 then ValueError
      else if code = - 10 then SystemError else if code = - 11 then AttributeError else RuntimeError)"

definition SWIG_Error :: "int \<Rightarrow> string \<Rightarrow> 'rb py_world \<Rightarrow> 'rb py_world" where
  "SWIG_Error code msg w = w\<lparr>py_err := Some (SWIG_ErrorType code, msg)\<rparr>"

section \<open>Proxies\<close>

text \<open>
  The proxy behind an object. In an object with a dictionary, \<open>this\<close> is looked up there; in
  any other the attribute access fails, and its failure clears the pending exception.
\<close>

definition SWIG_Python_GetSwigThis :: "py_obj \<Rightarrow> 'rb py_world \<Rightarrow> ptr \<times> 'rb py_world" where
  "SWIG_Python_GetSwigThis obj w =
     (case obj of
        PyProxy a \<Rightarrow> (Some a, w)
      | PyOther True \<Rightarrow> (NULL, w)
      | _ \<Rightarrow> (NULL, w\<lparr>py_err := None\<rparr>))"

text \<open>The loop over the chain of a proxy: the proxy that fits and the pointer it gives.\<close>

partial_function (option) convert_loop ::
  "addr option \<Rightarrow> ptr \<Rightarrow> 'rb py_world \<Rightarrow> (ptr \<times> ptr \<times> 'rb py_world) option" where
  "convert_loop ty sobj w =
     (case sobj of
        None \<Rightarrow> Some (NULL, NULL, w)
      | Some a \<Rightarrow> do {
          o1 \<leftarrow> objs (proxies w) a;
          (case ty of
             None \<Rightarrow> Some (Some a, so_ptr o1, w)
           | Some t \<Rightarrow>
               (if so_ty o1 = t then Some (Some a, so_ptr o1, w)
                else do {
                  name \<leftarrow> Option.bind (ti (rt w) (so_ty o1)) ti_name;
                  (tc, h) \<leftarrow> SWIG_TypeCheck name (Some t) (rt w);
                  if tc = NULL then convert_loop ty (so_next o1) (w\<lparr>rt := h\<rparr>)
                  else do {
                    p \<leftarrow> SWIG_TypeCast tc (so_ptr o1) h;
                    Some (Some a, p, w\<lparr>rt := h\<rparr>)
                  }
                }))
        })"

text \<open>The return code, the pointer, the state. The wrappers pass no flag but disown.\<close>

definition SWIG_ConvertPtr ::
  "py_obj \<Rightarrow> addr option \<Rightarrow> nat \<Rightarrow> 'rb py_world \<Rightarrow> (int \<times> ptr \<times> 'rb py_world) option" where
  "SWIG_ConvertPtr obj ty flags w =
     (if obj = PyNone then Some (0, NULL, w)
      else (let (sobj, w) = SWIG_Python_GetSwigThis obj w
            in do {
              (found, p, w) \<leftarrow> convert_loop ty sobj w;
              (case found of
                 None \<Rightarrow> Some (- 1, NULL, w)
               | Some a \<Rightarrow> do {
                   o1 \<leftarrow> objs (proxies w) a;
                   h \<leftarrow> (if odd flags then put_obj found (o1\<lparr>so_own := 0\<rparr>) (proxies w) else Some (proxies w));
                   Some (0, p, w\<lparr>proxies := h\<rparr>)
                 })
            }))"

definition SWIG_Python_AcquirePtr :: "py_obj \<Rightarrow> int \<Rightarrow> 'rb py_world \<Rightarrow> (int \<times> 'rb py_world) option" where
  "SWIG_Python_AcquirePtr obj own w =
     (if own = 1
      then (let (sobj, w) = SWIG_Python_GetSwigThis obj w
            in case sobj of
                 None \<Rightarrow> Some (0, w)
               | Some a \<Rightarrow> do {
                   o1 \<leftarrow> objs (proxies w) a;
                   h \<leftarrow> put_obj sobj (o1\<lparr>so_own := own\<rparr>) (proxies w);
                   Some (so_own o1, w\<lparr>proxies := h\<rparr>)
                 })
      else Some (0, w))"

definition SwigPyObject_New :: "ptr \<Rightarrow> addr \<Rightarrow> int \<Rightarrow> 'rb py_world \<Rightarrow> ptr \<times> 'rb py_world" where
  "SwigPyObject_New p ty own w =
     (let (a, h) = new_obj \<lparr>so_ptr = p, so_ty = ty, so_own = own, so_next = NULL\<rparr> (proxies w)
      in (a, w\<lparr>proxies := h\<rparr>))"

text \<open>
  A new proxy for a pointer. When the allocation fails there is no object; with a shadow class
  the code then drops a reference to the null pointer.
\<close>

definition SWIG_NewPointerObj :: "ptr \<Rightarrow> addr \<Rightarrow> nat \<Rightarrow> 'rb py_world \<Rightarrow> (py_obj option \<times> 'rb py_world) option" where
  "SWIG_NewPointerObj p ty flags w =
     (if p = NULL then Some (Some PyNone, w)
      else do {
        t \<leftarrow> ti (rt w) ty;
        let (robj, w) = SwigPyObject_New p ty (if odd flags then 1 else 0) w
        in (case robj of
              Some a \<Rightarrow> Some (Some (PyProxy a), w)
            | None \<Rightarrow> (if ti_clientdata t \<noteq> NULL \<and> \<not> odd (flags div 2) then None
                      else Some (None, w\<lparr>py_err := Some (MemoryError, [])\<rparr>)))
      })"

definition SwigPyObject_disown :: "addr \<Rightarrow> 'rb py_world \<Rightarrow> 'rb py_world option" where
  "SwigPyObject_disown v w = do {
     o1 \<leftarrow> objs (proxies w) v;
     h \<leftarrow> put_obj (Some v) (o1\<lparr>so_own := 0\<rparr>) (proxies w);
     Some (w\<lparr>proxies := h\<rparr>)
   }"

definition SwigPyObject_acquire :: "addr \<Rightarrow> 'rb py_world \<Rightarrow> 'rb py_world option" where
  "SwigPyObject_acquire v w = do {
     o1 \<leftarrow> objs (proxies w) v;
     h \<leftarrow> put_obj (Some v) (o1\<lparr>so_own := 1\<rparr>) (proxies w);
     Some (w\<lparr>proxies := h\<rparr>)
   }"

text \<open>\<open>own([flag])\<close>: the ownership before the call.\<close>

definition SwigPyObject_own :: "addr \<Rightarrow> bool option \<Rightarrow> 'rb py_world \<Rightarrow> (py_obj \<times> 'rb py_world) option" where
  "SwigPyObject_own v val w = do {
     o1 \<leftarrow> objs (proxies w) v;
     w \<leftarrow> (case val of
            None \<Rightarrow> Some w
          | Some True \<Rightarrow> SwigPyObject_acquire v w
          | Some False \<Rightarrow> SwigPyObject_disown v w);
     Some (PyInt (if so_own o1 \<noteq> 0 then 1 else 0), w)
   }"

definition SwigPyObject_append :: "addr \<Rightarrow> py_obj \<Rightarrow> 'rb py_world \<Rightarrow> (py_obj option \<times> 'rb py_world) option" where
  "SwigPyObject_append v arg w =
     (case arg of
        PyProxy a \<Rightarrow> do {
          o1 \<leftarrow> objs (proxies w) v;
          h \<leftarrow> put_obj (Some v) (o1\<lparr>so_next := Some a\<rparr>) (proxies w);
          Some (Some PyNone, w\<lparr>proxies := h\<rparr>)
        }
      | _ \<Rightarrow> Some (None, w))"

definition SwigPyObject_next :: "addr \<Rightarrow> 'rb py_world \<Rightarrow> py_obj option" where
  "SwigPyObject_next v w = do {
     o1 \<leftarrow> objs (proxies w) v;
     Some (case so_next o1 of None \<Rightarrow> PyNone | Some a \<Rightarrow> PyProxy a)
   }"

text \<open>Pointers compare as addresses, null first.\<close>

definition SwigPyObject_compare :: "addr \<Rightarrow> addr \<Rightarrow> 'rb py_world \<Rightarrow> int option" where
  "SwigPyObject_compare v u w = do {
     x \<leftarrow> objs (proxies w) v;
     y \<leftarrow> objs (proxies w) u;
     let i = (case so_ptr x of None \<Rightarrow> 0 | Some a \<Rightarrow> Suc a);
         j = (case so_ptr y of None \<Rightarrow> 0 | Some a \<Rightarrow> Suc a)
     in Some (if i < j then - 1 else if j < i then 1 else 0)
   }"

text \<open>
  Collection of a proxy. An owned one is destroyed first: \<open>destroy\<close> is the wrapper of its
  type's destructor, called on a temporary proxy that owns nothing.
\<close>

definition SwigPyObject_dealloc ::
  "(addr \<Rightarrow> (py_obj list \<Rightarrow> 'rb py_world \<Rightarrow> 'rb outcome) option) \<Rightarrow> addr \<Rightarrow> 'rb py_world \<Rightarrow> 'rb py_world option"
where
  "SwigPyObject_dealloc destroy v w = do {
     o1 \<leftarrow> objs (proxies w) v;
     w \<leftarrow> (if so_own o1 = 1
          then (case destroy (so_ty o1) of
                  None \<Rightarrow> Some w
                | Some f \<Rightarrow>
                    (let (tmp, w) = SwigPyObject_New (so_ptr o1) (so_ty o1) 0 w
                     in do {
                       t \<leftarrow> tmp;
                       (_, w) \<leftarrow> f [PyProxy t] w;
                       h \<leftarrow> free_obj tmp (proxies w);
                       Some (w\<lparr>proxies := h\<rparr>)
                     }))
          else Some w);
     h \<leftarrow> free_obj (Some v) (proxies w);
     Some (w\<lparr>proxies := h\<rparr>)
   }"

section \<open>Numbers\<close>

definition long_min :: int where "long_min = - (2 ^ 63)"
definition long_max :: int where "long_max = 2 ^ 63 - 1"

text \<open>\<open>PyLong_AsLong\<close>: -1 and a pending exception when the integer does not fit.\<close>

definition PyLong_AsLong :: "int \<Rightarrow> 'rb py_world \<Rightarrow> int \<times> 'rb py_world" where
  "PyLong_AsLong v w =
     (if long_min \<le> v \<and> v \<le> long_max then (v, w)
      else (- 1, w\<lparr>py_err := Some (OverflowError, ''Python int too large to convert to C long'')\<rparr>))"

text \<open>The return code, the value, the state.\<close>

definition SWIG_AsVal_long :: "py_obj \<Rightarrow> 'rb py_world \<Rightarrow> int \<times> int \<times> 'rb py_world" where
  "SWIG_AsVal_long obj w =
     (case obj of PyInt v \<Rightarrow> (0, PyLong_AsLong v w) | _ \<Rightarrow> (- 5, 0, w))"

definition SWIG_AsVal_int :: "py_obj \<Rightarrow> 'rb py_world \<Rightarrow> int \<times> int \<times> 'rb py_world" where
  "SWIG_AsVal_int obj w =
     (let (res, v, w) = SWIG_AsVal_long obj w
      in if SWIG_IsOK res then (if v < - (2 ^ 31) \<or> v > 2 ^ 31 - 1 then (- 7, 0, w) else (res, v, w))
         else (res, 0, w))"

definition SWIG_AsVal_unsigned_SS_long :: "py_obj \<Rightarrow> 'rb py_world \<Rightarrow> int \<times> u64 \<times> 'rb py_world" where
  "SWIG_AsVal_unsigned_SS_long obj w =
     (case obj of
        PyInt n \<Rightarrow> (let (v, w) = PyLong_AsLong n w in if v \<ge> 0 then (0, word_of_int v, w) else (- 7, 0, w))
      | _ \<Rightarrow> (- 5, 0, w))"

definition SWIG_AsVal_unsigned_SS_int :: "py_obj \<Rightarrow> 'rb py_world \<Rightarrow> int \<times> u32 \<times> 'rb py_world" where
  "SWIG_AsVal_unsigned_SS_int obj w =
     (let (res, v, w) = SWIG_AsVal_unsigned_SS_long obj w
      in if SWIG_IsOK res then (if v > 4294967295 then (- 7, 0, w) else (res, ucast v, w)) else (res, 0, w))"

definition SWIG_AsVal_double :: "py_obj \<Rightarrow> 'rb py_world \<Rightarrow> int \<times> c_double \<times> 'rb py_world" where
  "SWIG_AsVal_double obj w =
     (case obj of
        PyFloat d \<Rightarrow> (0, d, w)
      | PyInt n \<Rightarrow> (let (v, w) = PyLong_AsLong n w in (0, to_double v, w))
      | _ \<Rightarrow> (- 5, NotANumber, w))"

text \<open>Larger in magnitude than \<open>FLT_MAX\<close>, \<open>(2^24 - 1) * 2^104\<close>.\<close>

definition beyond_float :: "c_double \<Rightarrow> bool" where
  "beyond_float d =
     (case d of
        Finite m e \<Rightarrow>
          (if 0 \<le> e then \<bar>m\<bar> * 2 ^ nat e > (2 ^ 24 - 1) * 2 ^ 104 else \<bar>m\<bar> > (2 ^ 24 - 1) * 2 ^ 104 * 2 ^ nat (- e))
      | Infinite neg \<Rightarrow> True
      | NotANumber \<Rightarrow> False)"

definition SWIG_AsVal_float :: "py_obj \<Rightarrow> 'rb py_world \<Rightarrow> int \<times> c_double \<times> 'rb py_world" where
  "SWIG_AsVal_float obj w =
     (let (res, v, w) = SWIG_AsVal_double obj w
      in if SWIG_IsOK res then (if beyond_float v then (- 7, NotANumber, w) else (res, v, w))
         else (res, NotANumber, w))"

definition SWIG_From_int :: "int \<Rightarrow> py_obj" where
  "SWIG_From_int v = PyInt v"

definition SWIG_From_unsigned_SS_long :: "u64 \<Rightarrow> py_obj" where
  "SWIG_From_unsigned_SS_long v = PyInt (uint v)"

definition SWIG_From_unsigned_SS_int :: "u32 \<Rightarrow> py_obj" where
  "SWIG_From_unsigned_SS_int v = SWIG_From_unsigned_SS_long (ucast v)"

definition SWIG_From_size_t :: "u64 \<Rightarrow> py_obj" where
  "SWIG_From_size_t v = SWIG_From_unsigned_SS_long v"

section \<open>Strings\<close>

definition SWIG_pchar_descriptor :: "'rb py_world \<Rightarrow> ptr option" where
  "SWIG_pchar_descriptor w = SWIG_TypeQueryModule (rt w) swig_modules 0 0 ''_p_char''"

text \<open>
  The return code, the pointer, the size with its terminator, the allocation flag. A Python
  string is copied to the heap in UTF-8 (without checking that \<open>malloc\<close> succeeded); of other
  objects only \<open>None\<close> and proxies of \<open>char *\<close> convert.
\<close>

definition SWIG_AsCharPtrAndSize ::
  "py_obj \<Rightarrow> 'rb py_world \<Rightarrow> (int \<times> char_ptr \<times> nat \<times> int \<times> 'rb py_world) option" where
  "SWIG_AsCharPtrAndSize obj w =
     (case obj of
        PyStr s \<Rightarrow>
          (let (p, j) = new_chars (s @ [NUL]) (js w)
           in if p = CNULL then None else Some (0, p, length s + 1, SWIG_NEWOBJ, w\<lparr>js := j\<rparr>))
      | _ \<Rightarrow> do {
          pchar \<leftarrow> SWIG_pchar_descriptor w;
          if pchar = NULL then Some (- 5, CNULL, 0, 0, w)
          else do {
            (res, vptr, w) \<leftarrow> SWIG_ConvertPtr obj pchar 0 w;
            if res = 0
            then (case vptr of
                    None \<Rightarrow> Some (0, CNULL, 0, 0, w)
                  | Some a \<Rightarrow> do {
                      s \<leftarrow> read_chars (CHeap a) (js w);
                      Some (0, CHeap a, length s + 1, 0, w)
                    })
            else Some (- 5, CNULL, 0, 0, w)
          }
        })"

text \<open>\<open>free\<close> of a converted string, when the conversion allocated it.\<close>

definition free_buf :: "int \<times> char_ptr \<Rightarrow> 'rb py_world \<Rightarrow> 'rb py_world option" where
  "free_buf b w =
     (if fst b = SWIG_NEWOBJ then map_option (\<lambda>j. w\<lparr>js := j\<rparr>) (free_chars (snd b) (js w)) else Some w)"

text \<open>\<open>SWIG_AsCharArray\<close> for an array of one character.\<close>

definition SWIG_AsCharArray1 :: "py_obj \<Rightarrow> 'rb py_world \<Rightarrow> (int \<times> char \<times> 'rb py_world) option" where
  "SWIG_AsCharArray1 obj w = do {
     (res, cptr, csize, alloc, w) \<leftarrow> SWIG_AsCharPtrAndSize obj w;
     if SWIG_IsOK res
     then do {
       c \<leftarrow> (case cptr of
              CHeap a \<Rightarrow> do { s \<leftarrow> objs (cstrings (js w)) a; _ \<leftarrow> c_assert (s \<noteq> []); Some (hd s) }
            | _ \<Rightarrow> Some NUL);
       w \<leftarrow> free_buf (alloc, cptr) w;
       if csize \<le> 2 then Some (0, c, w) else Some (- 5, NUL, w)
     }
     else Some (- 5, NUL, w)
   }"

definition SWIG_AsVal_char :: "py_obj \<Rightarrow> 'rb py_world \<Rightarrow> (int \<times> char \<times> 'rb py_world) option" where
  "SWIG_AsVal_char obj w = do {
     (res, c, w) \<leftarrow> SWIG_AsCharArray1 obj w;
     Some (if SWIG_IsOK res then (res, c, w)
           else (let (res, v, w) = SWIG_AsVal_long obj w
                 in if SWIG_IsOK res
                    then (if - 128 \<le> v \<and> v \<le> 127 then (res, char_of (v mod 256), w) else (- 7, NUL, w))
                    else (res, NUL, w)))
   }"

text \<open>Strings longer than \<open>INT_MAX\<close> are outside the model.\<close>

definition SWIG_FromCharPtr :: "char_ptr \<Rightarrow> 'rb py_world \<Rightarrow> py_obj option" where
  "SWIG_FromCharPtr p w =
     (if p = CNULL then Some PyNone
      else do { s \<leftarrow> read_chars p (js w); _ \<leftarrow> c_assert (length s < 2 ^ 31); Some (PyStr s) })"

end
