(* ===== verification/RubyRuntime.thy ===== *)
theory RubyRuntime
  imports PyRuntime
begin

text \<open>
  The runtime of the Ruby module (\<open>modules/ruby/Jacks_ruby_wrap.c\<close>): the values a script hands
  over, the data objects that hold C pointers, their conversion, ownership and tracking, and the
  conversion of numbers and strings. The module's type tables are those of the Python module,
  entry by entry.

  \<open>rb_raise\<close> leaves the function at once, so the steps that may raise take what follows them
  as an argument. Ruby strings are blocks of \<open>cstrings\<close>.
\<close>

section \<open>State\<close>

text \<open>\<open>RData\<close> is any object of Ruby's type \<open>T_DATA\<close>, \<open>ROther\<close> any other object, by its class.\<close>

datatype rb_value = RNil | RInt int | RFloat c_double | RStr addr | RData addr | ROther string

text \<open>
  A data object: its class with the ancestors, the C pointer, the function that frees it, and the
  instance variable \<open>@__swigtype__\<close>.
\<close>

record swig_rb_object =
  ro_kinds :: "string list"
  ro_data :: ptr
  ro_dfree :: "string option"
  ro_swigtype :: "string option"

text \<open>The structure behind the client data of a type. No class has a mark function.\<close>

record swig_rb_class =
  sc_klass :: string
  sc_destroy :: "string option"
  sc_track :: bool

text \<open>A class as the interpreter knows it: its allocator and its methods.\<close>

record rb_class =
  rk_alloc :: "string option"
  rk_methods :: "string \<rightharpoonup> string"

text \<open>
  \<open>rpointers\<close>: the classes for plain pointers in the module \<open>SWIG\<close>; \<open>rtrackings\<close>: the hash from
  pointers to the objects that hold them.
\<close>

record 'rb rb_world =
  rjs :: "'rb js_world"
  robjs :: "swig_rb_object store"
  rrun :: swig_runtime
  rclasses :: "addr \<rightharpoonup> swig_rb_class"
  rdefs :: "string \<rightharpoonup> rb_class"
  rconsts :: "string \<rightharpoonup> rb_value"
  rpointers :: "string list"
  rtrackings :: "addr \<rightharpoonup> addr"

text \<open>What the interpreter and JACK answer: the class of a value and how it is printed.\<close>

record 'rb rb_api =
  r_jack :: "'rb jack_api"
  r_env :: "('rb jacks \<Rightarrow> 'rb jacks option) list"
  r_classname :: "rb_value \<Rightarrow> string"
  r_inspect :: "rb_value \<Rightarrow> string"

datatype rb_exc =
    rb_eNoMemError | rb_eIOError | rb_eRuntimeError | rb_eIndexError | rb_eTypeError | rb_eZeroDivError
  | rb_eRangeError | rb_eSyntaxError | rb_eArgError | rb_eFatal | rb_eNameError | NullReferenceError
  | ObjectPreviouslyDeleted | JacksRuntimeError

datatype rb_result = RReturned rb_value | RRaised rb_exc string | RExited int

type_synonym 'rb rb_outcome = "(rb_result \<times> 'rb rb_world) option"

abbreviation rheap :: "'rb rb_world \<Rightarrow> swig_heap" where
  "rheap w \<equiv> heap (rrun w)"

definition set_rheap :: "swig_heap \<Rightarrow> 'rb rb_world \<Rightarrow> 'rb rb_world" where
  "set_rheap h w = w\<lparr>rrun := (rrun w)\<lparr>heap := h\<rparr>\<rparr>"

section \<open>Errors\<close>

definition rb_raise :: "rb_exc \<Rightarrow> string \<Rightarrow> 'rb rb_world \<Rightarrow> 'rb rb_outcome" where
  "rb_raise e msg w = Some (RRaised e msg, w)"

definition SWIG_Ruby_ErrorType :: "int \<Rightarrow> rb_exc" where
  "SWIG_Ruby_ErrorType code =
     (if code = - 12 then rb_eNoMemError else if code = - 2 then rb_eIOError
      else if code = - 3 then rb_eRuntimeError else if code = - 4 then rb_eIndexError
      else if code = - 5 then rb_eTypeError else if code = - 6 then rb_eZeroDivError
      else if code = - 7 then rb_eRangeError else if code = - 8 then rb_eSyntaxError
      else if code = - 9 then rb_eArgError else if code = - 10 then rb_eFatal
      else if code = - 11 then rb_eRuntimeError else if code = - 13 then NullReferenceError
      else if code = - 100 then ObjectPreviouslyDeleted else rb_eRuntimeError)"

text \<open>The position is one less than the wrapper's, so a method's first argument after the receiver is
  argument 1, but a constructor's first argument is argument 0.\<close>

definition Ruby_Format_TypeError :: "'rb rb_api \<Rightarrow> string \<Rightarrow> string \<Rightarrow> string \<Rightarrow> nat \<Rightarrow> rb_value \<Rightarrow> string" where
  "Ruby_Format_TypeError R msg ty name argn input =
     (let asStr = r_inspect R input
      in msg @ ''Expected argument '' @ decimal (argn - 1) @ '' of type '' @ ty @ '', but got '' @
         r_classname R input @ '' '' @ (if length asStr > 30 then take 30 asStr @ ''...'' else asStr) @
         [CHR 0x0A, CHR 0x09] @ ''in SWIG method '' @ [CHR 0x27] @ name @ [CHR 0x27])"

section \<open>Tracking\<close>

definition SWIG_RubyAddTracking :: "addr \<Rightarrow> addr \<Rightarrow> 'rb rb_world \<Rightarrow> 'rb rb_world" where
  "SWIG_RubyAddTracking p obj w = w\<lparr>rtrackings := (rtrackings w)(p \<mapsto> obj)\<rparr>"

definition SWIG_RubyInstanceFor :: "addr \<Rightarrow> 'rb rb_world \<Rightarrow> rb_value" where
  "SWIG_RubyInstanceFor p w = (case rtrackings w p of None \<Rightarrow> RNil | Some obj \<Rightarrow> RData obj)"

definition SWIG_RubyRemoveTracking :: "addr \<Rightarrow> 'rb rb_world \<Rightarrow> 'rb rb_world" where
  "SWIG_RubyRemoveTracking p w = w\<lparr>rtrackings := (rtrackings w)(p := None)\<rparr>"

definition SWIG_RubyUnlinkObjects :: "addr \<Rightarrow> 'rb rb_world \<Rightarrow> 'rb rb_world option" where
  "SWIG_RubyUnlinkObjects p w =
     (case SWIG_RubyInstanceFor p w of
        RData a \<Rightarrow> do {
          obj \<leftarrow> objs (robjs w) a;
          h \<leftarrow> put_obj (Some a) (obj\<lparr>ro_data := NULL\<rparr>) (robjs w);
          Some (w\<lparr>robjs := h\<rparr>)
        }
      | _ \<Rightarrow> Some w)"

section \<open>Data objects\<close>

text \<open>The class structure of a type, when it has one.\<close>

definition class_of :: "addr \<Rightarrow> 'rb rb_world \<Rightarrow> swig_rb_class option option" where
  "class_of ty w = do {
     t \<leftarrow> ti (rheap w) ty;
     (case ti_clientdata t of None \<Rightarrow> Some None | Some c \<Rightarrow> map_option Some (rclasses w c))
   }"

definition Data_Wrap_Struct ::
  "swig_rb_object \<Rightarrow> (addr \<Rightarrow> 'rb rb_world \<Rightarrow> 'rb rb_outcome) \<Rightarrow> 'rb rb_world \<Rightarrow> 'rb rb_outcome" where
  "Data_Wrap_Struct obj k w =
     (let (p, h) = new_obj obj (robjs w)
      in case p of
           None \<Rightarrow> rb_raise rb_eNoMemError ''failed to allocate memory'' (w\<lparr>robjs := h\<rparr>)
         | Some a \<Rightarrow> k a (w\<lparr>robjs := h\<rparr>))"

definition pointer_class :: "addr \<Rightarrow> 'rb rb_world \<Rightarrow> string option" where
  "pointer_class ty w = do { t \<leftarrow> ti (rheap w) ty; name \<leftarrow> ti_name t; Some (''TYPE'' @ name) }"

text \<open>The object that already holds the pointer, when its class is tracked and its type is the same.\<close>

definition tracked_object :: "addr \<Rightarrow> string \<Rightarrow> swig_rb_class \<Rightarrow> 'rb rb_world \<Rightarrow> rb_value option" where
  "tracked_object p name sklass w =
     (if sc_track sklass
      then (case SWIG_RubyInstanceFor p w of
              RData a \<Rightarrow> do {
                obj \<leftarrow> objs (robjs w) a;
                ty \<leftarrow> ro_swigtype obj;
                Some (if ty = name then RData a else RNil)
              }
            | v \<Rightarrow> Some v)
      else Some RNil)"

definition SWIG_Ruby_NewPointerObj :: "ptr \<Rightarrow> addr \<Rightarrow> nat \<Rightarrow> (rb_value \<Rightarrow> 'rb rb_world \<Rightarrow> 'rb rb_outcome) \<Rightarrow>
    'rb rb_world \<Rightarrow> 'rb rb_outcome" where
  "SWIG_Ruby_NewPointerObj p ty flags k w =
     (case p of
        None \<Rightarrow> k RNil w
      | Some a \<Rightarrow> do {
          t \<leftarrow> ti (rheap w) ty;
          name \<leftarrow> ti_name t;
          sklass \<leftarrow> class_of ty w;
          (case sklass of
             Some s \<Rightarrow> do {
               old \<leftarrow> tracked_object a name s w;
               if old \<noteq> RNil then k old w
               else Data_Wrap_Struct
                 \<lparr>ro_kinds = [sc_klass s], ro_data = p,
                  ro_dfree = (if odd flags then sc_destroy s
                              else if sc_track s then Some ''SWIG_RubyRemoveTracking'' else None),
                  ro_swigtype = Some name\<rparr>
                 (\<lambda>obj w. k (RData obj) (if sc_track s then SWIG_RubyAddTracking a obj w else w)) w
             }
           | None \<Rightarrow>
               (if ''TYPE'' @ name \<in> set (rpointers w)
                then Data_Wrap_Struct \<lparr>ro_kinds = [''TYPE'' @ name], ro_data = p, ro_dfree = None, ro_swigtype = Some name\<rparr>
                  (\<lambda>obj. k (RData obj)) w
                else rb_raise rb_eNameError (''uninitialized constant SWIG::TYPE'' @ name) w))
        })"

text \<open>A new instance of a class: owned, with no pointer yet. Its class may be a script's subclass.\<close>

definition SWIG_Ruby_NewClassInstance :: "string list \<Rightarrow> addr \<Rightarrow> (rb_value \<Rightarrow> 'rb rb_world \<Rightarrow> 'rb rb_outcome) \<Rightarrow>
    'rb rb_world \<Rightarrow> 'rb rb_outcome" where
  "SWIG_Ruby_NewClassInstance klass ty k w = do {
     t \<leftarrow> ti (rheap w) ty;
     name \<leftarrow> ti_name t;
     c \<leftarrow> ti_clientdata t;
     sklass \<leftarrow> rclasses w c;
     Data_Wrap_Struct \<lparr>ro_kinds = klass, ro_data = NULL, ro_dfree = sc_destroy sklass, ro_swigtype = Some name\<rparr>
       (\<lambda>obj. k (RData obj)) w
   }"

definition SWIG_Ruby_AcquirePtr :: "addr \<Rightarrow> string option \<Rightarrow> 'rb rb_world \<Rightarrow> (string option \<times> 'rb rb_world) option" where
  "SWIG_Ruby_AcquirePtr a own w = do {
     obj \<leftarrow> objs (robjs w) a;
     h \<leftarrow> put_obj (Some a) (obj\<lparr>ro_dfree := own\<rparr>) (robjs w);
     Some (ro_dfree obj, w\<lparr>robjs := h\<rparr>)
   }"

text \<open>
  The return code and the pointer. The parameter \<open>own\<close> of the C function is null in every call.
  A data object without \<open>@__swigtype__\<close> makes Ruby raise the error of converting nil to a string.
\<close>

definition SWIG_Ruby_ConvertPtrAndOwn ::
  "rb_value \<Rightarrow> addr option \<Rightarrow> nat \<Rightarrow> (int \<Rightarrow> ptr \<Rightarrow> 'rb rb_world \<Rightarrow> 'rb rb_outcome) \<Rightarrow> 'rb rb_world \<Rightarrow> 'rb rb_outcome" where
  "SWIG_Ruby_ConvertPtrAndOwn v ty flags k w =
     (case v of
        RNil \<Rightarrow> k 0 NULL w
      | RData a \<Rightarrow> do {
          obj \<leftarrow> objs (robjs w) a;
          sklass \<leftarrow> (case ty of None \<Rightarrow> Some None | Some t \<Rightarrow> class_of t w);
          w \<leftarrow> (if odd flags
               then do {
                 h \<leftarrow> put_obj (Some a)
                   (obj\<lparr>ro_dfree := (case sklass of
                       Some s \<Rightarrow> if sc_track s then Some ''SWIG_RubyRemoveTracking'' else None
                     | None \<Rightarrow> None)\<rparr>) (robjs w);
                 Some (w\<lparr>robjs := h\<rparr>)
               }
               else Some w);
          (case ty of
             None \<Rightarrow> k 0 (ro_data obj) w
           | Some t \<Rightarrow>
               (if (case sklass of Some s \<Rightarrow> sc_klass s \<in> set (ro_kinds obj) | None \<Rightarrow> False)
                then (if ro_data obj = NULL then k (- 100) NULL w else k 0 (ro_data obj) w)
                else (case ro_swigtype obj of
                        None \<Rightarrow> rb_raise rb_eTypeError ''can not convert nil into String'' w
                      | Some c \<Rightarrow> do {
                          (tc, h) \<leftarrow> SWIG_TypeCheck c (Some t) (rheap w);
                          if tc = NULL then k (- 1) NULL (set_rheap h w)
                          else do {
                            p \<leftarrow> SWIG_TypeCast tc (ro_data obj) h;
                            k 0 p (set_rheap h w)
                          }
                        })))
        }
      | _ \<Rightarrow> k (- 1) NULL w)"

definition SWIG_Ruby_CheckConvert :: "addr \<Rightarrow> addr \<Rightarrow> 'rb rb_world \<Rightarrow> (bool \<times> 'rb rb_world) option" where
  "SWIG_Ruby_CheckConvert a ty w = do {
     obj \<leftarrow> objs (robjs w) a;
     c \<leftarrow> ro_swigtype obj;
     (tc, h) \<leftarrow> SWIG_TypeCheck c (Some ty) (rheap w);
     Some (tc \<noteq> NULL, set_rheap h w)
   }"

text \<open>
  Ruby collects a data object: the function it carries frees the pointer, unless that is null;
  \<open>destroy\<close> runs a function by its name.
\<close>

definition rb_collect ::
  "(string \<Rightarrow> addr \<Rightarrow> 'rb rb_world \<Rightarrow> 'rb rb_world option) \<Rightarrow> addr \<Rightarrow> 'rb rb_world \<Rightarrow> 'rb rb_world option" where
  "rb_collect destroy a w = do {
     obj \<leftarrow> objs (robjs w) a;
     w \<leftarrow> (case (ro_data obj, ro_dfree obj) of (Some p, Some f) \<Rightarrow> destroy f p w | _ \<Rightarrow> Some w);
     h \<leftarrow> free_obj (Some a) (robjs w);
     Some (w\<lparr>robjs := h\<rparr>)
   }"

section \<open>Numbers\<close>

text \<open>Ruby's own conversions; a range error is rescued, and the value is then of the wrong type.\<close>

definition ruby_AsVal_long :: "rb_value \<Rightarrow> int \<times> int" where
  "ruby_AsVal_long v =
     (case v of RInt n \<Rightarrow> if - (2 ^ 63) \<le> n \<and> n < 2 ^ 63 then (0, n) else (- 5, 0) | _ \<Rightarrow> (- 5, 0))"

definition ruby_AsVal_int :: "rb_value \<Rightarrow> int \<times> int" where
  "ruby_AsVal_int obj =
     (let (res, v) = ruby_AsVal_long obj
      in if SWIG_IsOK res then (if v < - (2 ^ 31) \<or> v > 2 ^ 31 - 1 then (- 7, 0) else (res, v)) else (res, 0))"

text \<open>\<open>NUM2ULONG\<close> and \<open>rb_big2ulong\<close> take negative numbers for their two's complement.\<close>

definition ruby_AsVal_unsigned_SS_long :: "rb_value \<Rightarrow> int \<times> u64" where
  "ruby_AsVal_unsigned_SS_long v =
     (case v of RInt n \<Rightarrow> if - (2 ^ 63) \<le> n \<and> n < 2 ^ 64 then (0, word_of_int n) else (- 5, 0) | _ \<Rightarrow> (- 5, 0))"

definition ruby_AsVal_unsigned_SS_int :: "rb_value \<Rightarrow> int \<times> u32" where
  "ruby_AsVal_unsigned_SS_int obj =
     (let (res, v) = ruby_AsVal_unsigned_SS_long obj
      in if SWIG_IsOK res then (if v > 4294967295 then (- 7, 0) else (res, ucast v)) else (res, 0))"

definition ruby_AsVal_double :: "rb_value \<Rightarrow> int \<times> c_double" where
  "ruby_AsVal_double v =
     (case v of RFloat d \<Rightarrow> (0, d) | RInt n \<Rightarrow> (0, to_double n) | _ \<Rightarrow> (- 5, NotANumber))"

definition ruby_AsVal_float :: "rb_value \<Rightarrow> int \<times> c_double" where
  "ruby_AsVal_float obj =
     (let (res, v) = ruby_AsVal_double obj
      in if SWIG_IsOK res then (if beyond_float v then (- 7, NotANumber) else (res, v)) else (res, NotANumber))"

definition ruby_From_int :: "int \<Rightarrow> rb_value" where
  "ruby_From_int v = RInt v"

definition ruby_From_unsigned_SS_long :: "u64 \<Rightarrow> rb_value" where
  "ruby_From_unsigned_SS_long v = RInt (uint v)"

definition ruby_From_unsigned_SS_int :: "u32 \<Rightarrow> rb_value" where
  "ruby_From_unsigned_SS_int v = ruby_From_unsigned_SS_long (ucast v)"

definition ruby_From_size_t :: "u64 \<Rightarrow> rb_value" where
  "ruby_From_size_t v = ruby_From_unsigned_SS_long v"

section \<open>Strings\<close>

definition rb_str_new :: "string \<Rightarrow> (rb_value \<Rightarrow> 'rb rb_world \<Rightarrow> 'rb rb_outcome) \<Rightarrow> 'rb rb_world \<Rightarrow> 'rb rb_outcome" where
  "rb_str_new s k w =
     (let (p, h) = new_obj (s @ [NUL]) (cstrings (rjs w)); w = w\<lparr>rjs := (rjs w)\<lparr>cstrings := h\<rparr>\<rparr>
      in case p of
           None \<Rightarrow> rb_raise rb_eNoMemError ''failed to allocate memory'' w
         | Some a \<Rightarrow> k (RStr a) w)"

text \<open>The C function keeps the first answer; the model asks each time.\<close>

definition ruby_pchar_descriptor :: "'rb rb_world \<Rightarrow> ptr option" where
  "ruby_pchar_descriptor w = SWIG_TypeQueryModule (rheap w) (modules (rrun w)) 0 0 ''_p_char''"

text \<open>
  The return code, the pointer, the size with its terminator, and the flag that was given: only a
  caller that asks for a new object gets a copy, others the memory of the Ruby string.
\<close>

definition ruby_AsCharPtrAndSize ::
  "rb_value \<Rightarrow> int \<Rightarrow> (int \<Rightarrow> char_ptr \<Rightarrow> nat \<Rightarrow> int \<Rightarrow> 'rb rb_world \<Rightarrow> 'rb rb_outcome) \<Rightarrow> 'rb rb_world \<Rightarrow> 'rb rb_outcome" where
  "ruby_AsCharPtrAndSize obj alloc k w =
     (case obj of
        RStr a \<Rightarrow> do {
          s \<leftarrow> objs (cstrings (rjs w)) a;
          if alloc = SWIG_NEWOBJ
          then (let (p, j) = new_chars s (rjs w)
                in if p = CNULL then None else k 0 p (length s) SWIG_NEWOBJ (w\<lparr>rjs := j\<rparr>))
          else k 0 (CHeap a) (length s) 0 w
        }
      | _ \<Rightarrow> do {
          pchar \<leftarrow> ruby_pchar_descriptor w;
          if pchar = NULL then k (- 5) CNULL 0 alloc w
          else SWIG_Ruby_ConvertPtrAndOwn obj pchar 0 (\<lambda>res vptr w.
            if res = 0
            then (case vptr of
                    None \<Rightarrow> k 0 CNULL 0 0 w
                  | Some a \<Rightarrow> do { s \<leftarrow> read_chars (CHeap a) (rjs w); k 0 (CHeap a) (length s + 1) 0 w })
            else k (- 5) CNULL 0 alloc w) w
        })"

definition ruby_free_buf :: "int \<times> char_ptr \<Rightarrow> 'rb rb_world \<Rightarrow> 'rb rb_world option" where
  "ruby_free_buf b w =
     (if fst b = SWIG_NEWOBJ then map_option (\<lambda>j. w\<lparr>rjs := j\<rparr>) (free_chars (snd b) (rjs w)) else Some w)"

text \<open>\<open>SWIG_AsCharArray\<close> for an array of one character.\<close>

definition ruby_AsCharArray1 :: "rb_value \<Rightarrow> (int \<Rightarrow> char \<Rightarrow> 'rb rb_world \<Rightarrow> 'rb rb_outcome) \<Rightarrow> 'rb rb_world \<Rightarrow> 'rb rb_outcome" where
  "ruby_AsCharArray1 obj k =
     ruby_AsCharPtrAndSize obj 0 (\<lambda>res cptr csize alloc w.
       if SWIG_IsOK res
       then do {
         c \<leftarrow> (case cptr of
                CHeap a \<Rightarrow> do { s \<leftarrow> objs (cstrings (rjs w)) a; _ \<leftarrow> c_assert (s \<noteq> []); Some (hd s) }
              | _ \<Rightarrow> Some NUL);
         w \<leftarrow> ruby_free_buf (alloc, cptr) w;
         if csize \<le> 1 \<or> csize = 2 \<and> cptr \<noteq> CNULL then k res c w else k (- 5) NUL w
       }
       else k (- 5) NUL w)"

definition ruby_AsVal_char :: "rb_value \<Rightarrow> (int \<Rightarrow> char \<Rightarrow> 'rb rb_world \<Rightarrow> 'rb rb_outcome) \<Rightarrow> 'rb rb_world \<Rightarrow> 'rb rb_outcome" where
  "ruby_AsVal_char obj k =
     ruby_AsCharArray1 obj (\<lambda>res c w.
       if SWIG_IsOK res then k res c w
       else (let (res, v) = ruby_AsVal_long obj
             in if SWIG_IsOK res
                then (if - 128 \<le> v \<and> v \<le> 127 then k res (char_of (v mod 256)) w else k (- 7) NUL w)
                else k res NUL w))"

definition ruby_FromCharPtr :: "char_ptr \<Rightarrow> (rb_value \<Rightarrow> 'rb rb_world \<Rightarrow> 'rb rb_outcome) \<Rightarrow> 'rb rb_world \<Rightarrow> 'rb rb_outcome" where
  "ruby_FromCharPtr p k w =
     (if p = CNULL then k RNil w else do { s \<leftarrow> read_chars p (rjs w); rb_str_new s k w })"

section \<open>The ring of modules\<close>

text \<open>The field \<open>capsule\<close> is here the global variable of the interpreter.\<close>

definition SWIG_Ruby_GetModule :: "swig_runtime \<Rightarrow> ptr" where
  "SWIG_Ruby_GetModule r = capsule r"

definition SWIG_Ruby_SetModule :: "addr \<Rightarrow> swig_runtime \<Rightarrow> swig_runtime" where
  "SWIG_Ruby_SetModule m r = r\<lparr>capsule := Some m\<rparr>"

definition ruby_join_ring :: "addr \<Rightarrow> swig_runtime \<Rightarrow> (bool \<times> swig_runtime) option" where
  "ruby_join_ring this r =
     (case SWIG_Ruby_GetModule r of
        None \<Rightarrow> Some (True, SWIG_Ruby_SetModule this r)
      | Some head \<Rightarrow> enter_ring this head r)"

definition ruby_InitializeModule :: "swig_tables \<Rightarrow> swig_runtime \<Rightarrow> swig_runtime option" where
  "ruby_InitializeModule tab r = load_module ruby_join_ring tab r"

text \<open>A class for the plain pointers of a type.\<close>

definition SWIG_Ruby_define_class :: "addr \<Rightarrow> 'rb rb_world \<Rightarrow> 'rb rb_world option" where
  "SWIG_Ruby_define_class ty w = do {
     name \<leftarrow> pointer_class ty w;
     Some (w\<lparr>rpointers := rpointers w @ [name]\<rparr>)
   }"

section \<open>Packed objects\<close>

text \<open>A packed value is a string: an underscore, the bytes in hexadecimal, the name of the type.\<close>

definition SWIG_Ruby_NewPackedObj :: "u8 list \<Rightarrow> addr \<Rightarrow> (rb_value \<Rightarrow> 'rb rb_world \<Rightarrow> 'rb rb_outcome) \<Rightarrow>
    'rb rb_world \<Rightarrow> 'rb rb_outcome" where
  "SWIG_Ruby_NewPackedObj bytes ty k w = do {
     t \<leftarrow> ti (rheap w) ty;
     name \<leftarrow> ti_name t;
     if 2 * length bytes + 1 + length name > 1000 then k (ROther ''FalseClass'') w
     else rb_str_new (''_'' @ SWIG_PackData bytes @ name) k w
   }"

text \<open>
  The bytes come with the return code. When the digits are bad and a type is asked for, the null
  pointer is compared with its name.
\<close>

definition SWIG_Ruby_ConvertPacked ::
  "rb_value \<Rightarrow> nat \<Rightarrow> addr option \<Rightarrow> 'rb rb_world \<Rightarrow> (int \<times> u8 list \<times> 'rb rb_world) option" where
  "SWIG_Ruby_ConvertPacked obj sz ty w =
     (case obj of
        RStr a \<Rightarrow> do {
          s \<leftarrow> read_chars (CHeap a) (rjs w);
          if take 1 s \<noteq> ''_'' then Some (- 1, [], w)
          else (let (c, bytes) = SWIG_UnpackData (tl s) sz
                in case ty of
                     None \<Rightarrow> Some (0, bytes, w)
                   | Some t \<Rightarrow> do {
                       c \<leftarrow> c;
                       (tc, h) \<leftarrow> SWIG_TypeCheck c (Some t) (rheap w);
                       Some (if tc = NULL then - 1 else 0, bytes, set_rheap h w)
                     })
        }
      | _ \<Rightarrow> Some (- 1, [], w))"

end
