(* ===== verification/RubyWrap.thy ===== *)
theory RubyWrap
  imports RubyRuntime
begin

text \<open>
  The functions of the Ruby module (\<open>_wrap_*\<close> and \<open>free_*\<close> in
  \<open>modules/ruby/Jacks_ruby_wrap.c\<close>), one definition each, its tables of classes, and the loading
  of the module. The receiver \<open>self\<close> is the first argument of the C function; the others are
  counted and converted in turn. A failed conversion raises an error that names the class and the
  value; nothing is freed then. The error channel is cleared, the function of \<open>Bindings\<close> called,
  and an error that is set raised as \<open>JacksRuntimeError\<close>, with the text as the format; otherwise
  the result is converted. A constructor is the method \<open>initialize\<close>: it stores the pointer in the
  object the allocator made, before the error channel is read.
\<close>

section \<open>The protocol\<close>

definition rb_check_argc :: "nat \<Rightarrow> rb_value list \<Rightarrow> ('rb rb_world \<Rightarrow> 'rb rb_outcome) \<Rightarrow> 'rb rb_world \<Rightarrow> 'rb rb_outcome" where
  "rb_check_argc n argv k w =
     (if length argv \<noteq> n
      then rb_raise rb_eArgError (''wrong # of arguments('' @ decimal (length argv) @ '' for '' @ decimal n @ '')'') w
      else k w)"

definition rb_arg_fail :: "'rb rb_api \<Rightarrow> int \<Rightarrow> string \<times> string \<times> nat \<Rightarrow> rb_value \<Rightarrow> 'rb rb_world \<Rightarrow> 'rb rb_outcome" where
  "rb_arg_fail R res who v w =
     (case who of (ty, meth, i) \<Rightarrow>
        rb_raise (SWIG_Ruby_ErrorType (SWIG_ArgError res)) (Ruby_Format_TypeError R [] ty meth i v) w)"

definition rb_arg_ptr ::
  "'rb rb_api \<Rightarrow> rb_value \<Rightarrow> addr \<Rightarrow> string \<times> string \<times> nat \<Rightarrow> (ptr \<Rightarrow> 'rb rb_world \<Rightarrow> 'rb rb_outcome) \<Rightarrow>
     'rb rb_world \<Rightarrow> 'rb rb_outcome" where
  "rb_arg_ptr R v ty who k =
     SWIG_Ruby_ConvertPtrAndOwn v (Some ty) 0 (\<lambda>res p w.
       if SWIG_IsOK res then k p w else rb_arg_fail R res who v w)"

definition rb_arg_val ::
  "(rb_value \<Rightarrow> int \<times> 'v) \<Rightarrow> 'rb rb_api \<Rightarrow> rb_value \<Rightarrow> string \<times> string \<times> nat \<Rightarrow>
     ('v \<Rightarrow> 'rb rb_world \<Rightarrow> 'rb rb_outcome) \<Rightarrow> 'rb rb_world \<Rightarrow> 'rb rb_outcome" where
  "rb_arg_val conv R v who k w =
     (let (res, n) = conv v in if SWIG_IsOK res then k n w else rb_arg_fail R res who v w)"

definition rb_arg_char ::
  "'rb rb_api \<Rightarrow> rb_value \<Rightarrow> string \<times> string \<times> nat \<Rightarrow> (char \<Rightarrow> 'rb rb_world \<Rightarrow> 'rb rb_outcome) \<Rightarrow>
     'rb rb_world \<Rightarrow> 'rb rb_outcome" where
  "rb_arg_char R v who k =
     ruby_AsVal_char v (\<lambda>res c w. if SWIG_IsOK res then k c w else rb_arg_fail R res who v w)"

definition rb_arg_str ::
  "'rb rb_api \<Rightarrow> rb_value \<Rightarrow> string \<times> string \<times> nat \<Rightarrow> (int \<Rightarrow> char_ptr \<Rightarrow> 'rb rb_world \<Rightarrow> 'rb rb_outcome) \<Rightarrow>
     'rb rb_world \<Rightarrow> 'rb rb_outcome" where
  "rb_arg_str R v who k =
     ruby_AsCharPtrAndSize v 0 (\<lambda>res p size alloc w.
       if SWIG_IsOK res then k alloc p w else rb_arg_fail R res who v w)"

fun ruby_free_bufs :: "(int \<times> char_ptr) list \<Rightarrow> 'rb rb_world \<Rightarrow> 'rb rb_world option" where
  "ruby_free_bufs [] w = Some w"
| "ruby_free_bufs (b # bs) w = Option.bind (ruby_free_buf b w) (ruby_free_bufs bs)"

definition rb_cleared :: "'rb rb_world \<Rightarrow> 'rb js_world" where
  "rb_cleared w = (rjs w)\<lparr>errors := clear_exception (errors (rjs w))\<rparr>"

text \<open>\<open>rb_raise\<close> gets the text of the error as its format.\<close>

definition rb_check_error :: "('rb rb_world \<Rightarrow> 'rb rb_outcome) \<Rightarrow> 'rb rb_world \<Rightarrow> 'rb rb_outcome" where
  "rb_check_error k w =
     (case check_exception (errors (rjs w)) of
        None \<Rightarrow> k w
      | Some buf \<Rightarrow> do { err \<leftarrow> c_string buf; msg \<leftarrow> bare_format err; rb_raise JacksRuntimeError msg w })"

definition rb_guarded ::
  "('rb js_world \<Rightarrow> ('r \<times> 'rb js_world) option) \<Rightarrow> ('r \<Rightarrow> 'rb rb_world \<Rightarrow> 'rb rb_outcome) \<Rightarrow>
     'rb rb_world \<Rightarrow> 'rb rb_outcome" where
  "rb_guarded act k w = do { (r, j) \<leftarrow> act (rb_cleared w); rb_check_error (k r) (w\<lparr>rjs := j\<rparr>) }"

definition rb_return_obj :: "rb_value \<Rightarrow> (int \<times> char_ptr) list \<Rightarrow> 'rb rb_world \<Rightarrow> 'rb rb_outcome" where
  "rb_return_obj v bufs w = do { w \<leftarrow> ruby_free_bufs bufs w; Some (RReturned v, w) }"

definition rb_return_str :: "char_ptr \<Rightarrow> (int \<times> char_ptr) list \<Rightarrow> 'rb rb_world \<Rightarrow> 'rb rb_outcome" where
  "rb_return_str p bufs = ruby_FromCharPtr p (\<lambda>v. rb_return_obj v bufs)"

definition rb_return_ptr :: "ptr \<Rightarrow> addr \<Rightarrow> nat \<Rightarrow> (int \<times> char_ptr) list \<Rightarrow> 'rb rb_world \<Rightarrow> 'rb rb_outcome" where
  "rb_return_ptr p ty flags bufs = SWIG_Ruby_NewPointerObj p ty flags (\<lambda>v. rb_return_obj v bufs)"

text \<open>\<open>DATA_PTR(self) = p\<close>\<close>

definition set_data_ptr :: "rb_value \<Rightarrow> ptr \<Rightarrow> 'rb rb_world \<Rightarrow> 'rb rb_world option" where
  "set_data_ptr recv p w =
     (case recv of
        RData a \<Rightarrow> do {
          obj \<leftarrow> objs (robjs w) a;
          h \<leftarrow> put_obj (Some a) (obj\<lparr>ro_data := p\<rparr>) (robjs w);
          Some (w\<lparr>robjs := h\<rparr>)
        }
      | _ \<Rightarrow> None)"

definition rb_constructed ::
  "rb_value \<Rightarrow> (int \<times> char_ptr) list \<Rightarrow> ptr \<times> 'rb js_world \<Rightarrow> 'rb rb_world \<Rightarrow> 'rb rb_outcome" where
  "rb_constructed recv bufs called w =
     (case called of (p, j) \<Rightarrow> do {
        w \<leftarrow> set_data_ptr recv p (w\<lparr>rjs := j\<rparr>);
        rb_check_error (rb_return_obj recv bufs) w
      })"

definition rb_construct ::
  "('rb js_world \<Rightarrow> (ptr \<times> 'rb js_world) option) \<Rightarrow> rb_value \<Rightarrow> (int \<times> char_ptr) list \<Rightarrow> 'rb rb_world \<Rightarrow> 'rb rb_outcome" where
  "rb_construct act recv bufs w = do { called \<leftarrow> act (rb_cleared w); rb_constructed recv bufs called w }"

definition rb_construct_exit ::
  "('rb js_world \<Rightarrow> (int + (ptr \<times> 'rb js_world)) option) \<Rightarrow> rb_value \<Rightarrow> (int \<times> char_ptr) list \<Rightarrow> 'rb rb_world \<Rightarrow> 'rb rb_outcome" where
  "rb_construct_exit act recv bufs w = do {
     called \<leftarrow> act (rb_cleared w);
     (case called of
        Inl code \<Rightarrow> Some (RExited code, w)
      | Inr called \<Rightarrow> rb_constructed recv bufs called w)
   }"

section \<open>Sample buffers\<close>

definition rb_free_JsPortBuffer :: "addr \<Rightarrow> 'rb rb_world \<Rightarrow> 'rb rb_world option" where
  "rb_free_JsPortBuffer p w = map_option (\<lambda>j. w\<lparr>rjs := j\<rparr>) (delete_JsPortBuffer (Some p) (rjs w))"

definition rb_wrap_JsPortBuffer_getf :: "'rb rb_api \<Rightarrow> rb_value list \<Rightarrow> rb_value \<Rightarrow> 'rb rb_world \<Rightarrow> 'rb rb_outcome" where
  "rb_wrap_JsPortBuffer_getf R argv recv =
     rb_check_argc 1 argv (
     rb_arg_ptr R recv SWIGTYPE_p_JsPortBuffer (''JsPortBuffer *'', ''getf'', 1) (\<lambda>arg1.
     rb_arg_val ruby_AsVal_unsigned_SS_int R (argv ! 0) (''unsigned int'', ''getf'', 2) (\<lambda>arg2.
     rb_guarded (reads (JsPortBuffer_getf arg1 arg2)) (\<lambda>result.
     rb_return_ptr result SWIGTYPE_p_float 0 []))))"

definition rb_wrap_JsPortBuffer_setf :: "'rb rb_api \<Rightarrow> rb_value list \<Rightarrow> rb_value \<Rightarrow> 'rb rb_world \<Rightarrow> 'rb rb_outcome" where
  "rb_wrap_JsPortBuffer_setf R argv recv =
     rb_check_argc 2 argv (
     rb_arg_ptr R recv SWIGTYPE_p_JsPortBuffer (''JsPortBuffer *'', ''setf'', 1) (\<lambda>arg1.
     rb_arg_val ruby_AsVal_unsigned_SS_int R (argv ! 0) (''unsigned int'', ''setf'', 2) (\<lambda>arg2.
     rb_arg_val ruby_AsVal_float R (argv ! 1) (''float'', ''setf'', 3) (\<lambda>arg3.
     rb_guarded (changes (JsPortBuffer_setf arg1 arg2)) (\<lambda>result.
     rb_return_obj RNil [])))))"

definition rb_wrap_JsPortBuffer_length :: "'rb rb_api \<Rightarrow> rb_value list \<Rightarrow> rb_value \<Rightarrow> 'rb rb_world \<Rightarrow> 'rb rb_outcome" where
  "rb_wrap_JsPortBuffer_length R argv recv =
     rb_check_argc 0 argv (
     rb_arg_ptr R recv SWIGTYPE_p_JsPortBuffer (''JsPortBuffer *'', ''length'', 1) (\<lambda>arg1.
     rb_guarded (reads (JsPortBuffer_length arg1)) (\<lambda>result.
     rb_return_obj (ruby_From_unsigned_SS_int result) [])))"

definition rb_wrap_JsPortBuffer_toHexString :: "'rb rb_api \<Rightarrow> rb_value list \<Rightarrow> rb_value \<Rightarrow> 'rb rb_world \<Rightarrow> 'rb rb_outcome" where
  "rb_wrap_JsPortBuffer_toHexString R argv recv =
     rb_check_argc 3 argv (
     rb_arg_ptr R recv SWIGTYPE_p_JsPortBuffer (''JsPortBuffer *'', ''toHexString'', 1) (\<lambda>arg1.
     rb_arg_val ruby_AsVal_unsigned_SS_int R (argv ! 0) (''unsigned int'', ''toHexString'', 2) (\<lambda>arg2.
     rb_arg_val ruby_AsVal_unsigned_SS_int R (argv ! 1) (''unsigned int'', ''toHexString'', 3) (\<lambda>arg3.
     rb_arg_char R (argv ! 2) (''char'', ''toHexString'', 4) (\<lambda>arg4.
     rb_guarded (JsPortBuffer_toHexString (r_jack R) arg1 arg2 arg3 arg4) (\<lambda>result.
     rb_return_str result []))))))"

definition rb_wrap_JsPortBuffer_allocate :: "string list \<Rightarrow> (rb_value \<Rightarrow> 'rb rb_world \<Rightarrow> 'rb rb_outcome) \<Rightarrow> 'rb rb_world \<Rightarrow> 'rb rb_outcome" where
  "rb_wrap_JsPortBuffer_allocate klass = SWIG_Ruby_NewClassInstance klass SWIGTYPE_p_JsPortBuffer"

definition rb_wrap_new_JsPortBuffer :: "'rb rb_api \<Rightarrow> rb_value list \<Rightarrow> rb_value \<Rightarrow> 'rb rb_world \<Rightarrow> 'rb rb_outcome" where
  "rb_wrap_new_JsPortBuffer R argv recv =
     rb_check_argc 0 argv (
     rb_construct (makes port_buffers (\<lambda>h w. w\<lparr>port_buffers := h\<rparr>) \<lparr>pb_framebuf = NULL, pb_len = 0\<rparr>) recv [])"

section \<open>Latency ranges\<close>

definition rb_free_JsLatencyRange :: "addr \<Rightarrow> 'rb rb_world \<Rightarrow> 'rb rb_world option" where
  "rb_free_JsLatencyRange p w = map_option (\<lambda>j. w\<lparr>rjs := j\<rparr>) (delete_JsLatencyRange (Some p) (rjs w))"

definition rb_wrap_JsLatencyRange_min :: "'rb rb_api \<Rightarrow> rb_value list \<Rightarrow> rb_value \<Rightarrow> 'rb rb_world \<Rightarrow> 'rb rb_outcome" where
  "rb_wrap_JsLatencyRange_min R argv recv =
     rb_check_argc 0 argv (
     rb_arg_ptr R recv SWIGTYPE_p_JsLatencyRange (''JsLatencyRange *'', ''min'', 1) (\<lambda>arg1.
     rb_guarded (reads (JsLatencyRange_min arg1)) (\<lambda>result.
     rb_return_obj (ruby_From_int result) [])))"

definition rb_wrap_JsLatencyRange_max :: "'rb rb_api \<Rightarrow> rb_value list \<Rightarrow> rb_value \<Rightarrow> 'rb rb_world \<Rightarrow> 'rb rb_outcome" where
  "rb_wrap_JsLatencyRange_max R argv recv =
     rb_check_argc 0 argv (
     rb_arg_ptr R recv SWIGTYPE_p_JsLatencyRange (''JsLatencyRange *'', ''max'', 1) (\<lambda>arg1.
     rb_guarded (reads (JsLatencyRange_max arg1)) (\<lambda>result.
     rb_return_obj (ruby_From_int result) [])))"

definition rb_wrap_JsLatencyRange_allocate :: "string list \<Rightarrow> (rb_value \<Rightarrow> 'rb rb_world \<Rightarrow> 'rb rb_outcome) \<Rightarrow> 'rb rb_world \<Rightarrow> 'rb rb_outcome" where
  "rb_wrap_JsLatencyRange_allocate klass = SWIG_Ruby_NewClassInstance klass SWIGTYPE_p_JsLatencyRange"

definition rb_wrap_new_JsLatencyRange :: "'rb rb_api \<Rightarrow> rb_value list \<Rightarrow> rb_value \<Rightarrow> 'rb rb_world \<Rightarrow> 'rb rb_outcome" where
  "rb_wrap_new_JsLatencyRange R argv recv =
     rb_check_argc 0 argv (
     rb_construct (makes latency_ranges (\<lambda>h w. w\<lparr>latency_ranges := h\<rparr>) \<lparr>lr_rmin = 0, lr_rmax = 0\<rparr>) recv [])"

section \<open>Lists of names\<close>

definition rb_free_StringList :: "addr \<Rightarrow> 'rb rb_world \<Rightarrow> 'rb rb_world option" where
  "rb_free_StringList p w = map_option (\<lambda>j. w\<lparr>rjs := j\<rparr>) (delete_StringList (Some p) (rjs w))"

definition rb_wrap_StringList_get :: "'rb rb_api \<Rightarrow> rb_value list \<Rightarrow> rb_value \<Rightarrow> 'rb rb_world \<Rightarrow> 'rb rb_outcome" where
  "rb_wrap_StringList_get R argv recv =
     rb_check_argc 1 argv (
     rb_arg_ptr R recv SWIGTYPE_p_StringList (''StringList *'', ''get'', 1) (\<lambda>arg1.
     rb_arg_val ruby_AsVal_int R (argv ! 0) (''int'', ''get'', 2) (\<lambda>arg2.
     rb_guarded (reads (StringList_get arg1 arg2)) (\<lambda>result.
     rb_return_str result []))))"

definition rb_wrap_StringList_length :: "'rb rb_api \<Rightarrow> rb_value list \<Rightarrow> rb_value \<Rightarrow> 'rb rb_world \<Rightarrow> 'rb rb_outcome" where
  "rb_wrap_StringList_length R argv recv =
     rb_check_argc 0 argv (
     rb_arg_ptr R recv SWIGTYPE_p_StringList (''StringList *'', ''length'', 1) (\<lambda>arg1.
     rb_guarded (StringList_length arg1) (\<lambda>result.
     rb_return_obj (ruby_From_size_t result) [])))"

definition rb_wrap_StringList_allocate :: "string list \<Rightarrow> (rb_value \<Rightarrow> 'rb rb_world \<Rightarrow> 'rb rb_outcome) \<Rightarrow> 'rb rb_world \<Rightarrow> 'rb rb_outcome" where
  "rb_wrap_StringList_allocate klass = SWIG_Ruby_NewClassInstance klass SWIGTYPE_p_StringList"

definition rb_wrap_new_StringList :: "'rb rb_api \<Rightarrow> rb_value list \<Rightarrow> rb_value \<Rightarrow> 'rb rb_world \<Rightarrow> 'rb rb_outcome" where
  "rb_wrap_new_StringList R argv recv =
     rb_check_argc 0 argv (
     rb_construct (makes string_lists (\<lambda>h w. w\<lparr>string_lists := h\<rparr>) \<lparr>sl_impl = None, sl_len = 0\<rparr>) recv [])"

section \<open>Ports\<close>

definition rb_free_JsPort :: "addr \<Rightarrow> 'rb rb_world \<Rightarrow> 'rb rb_world option" where
  "rb_free_JsPort p w = map_option (\<lambda>j. w\<lparr>rjs := j\<rparr>) (delete_JsPort (Some p) (rjs w))"

definition rb_wrap_JsPort_getBuffer :: "'rb rb_api \<Rightarrow> rb_value list \<Rightarrow> rb_value \<Rightarrow> 'rb rb_world \<Rightarrow> 'rb rb_outcome" where
  "rb_wrap_JsPort_getBuffer R argv recv =
     rb_check_argc 0 argv (
     rb_arg_ptr R recv SWIGTYPE_p_JsPort (''JsPort *'', ''getBuffer'', 1) (\<lambda>arg1.
     rb_guarded (JsPort_getBuffer (r_jack R) arg1) (\<lambda>result.
     rb_return_ptr result SWIGTYPE_p_JsPortBuffer 0 [])))"

definition rb_wrap_JsPort_name :: "'rb rb_api \<Rightarrow> rb_value list \<Rightarrow> rb_value \<Rightarrow> 'rb rb_world \<Rightarrow> 'rb rb_outcome" where
  "rb_wrap_JsPort_name R argv recv =
     rb_check_argc 0 argv (
     rb_arg_ptr R recv SWIGTYPE_p_JsPort (''JsPort *'', ''name'', 1) (\<lambda>arg1.
     rb_guarded (reads (JsPort_name (r_jack R) arg1)) (\<lambda>result.
     rb_return_str result [])))"

definition rb_wrap_JsPort_connect :: "'rb rb_api \<Rightarrow> rb_value list \<Rightarrow> rb_value \<Rightarrow> 'rb rb_world \<Rightarrow> 'rb rb_outcome" where
  "rb_wrap_JsPort_connect R argv recv =
     rb_check_argc 1 argv (
     rb_arg_ptr R recv SWIGTYPE_p_JsPort (''JsPort *'', ''connect'', 1) (\<lambda>arg1.
     rb_arg_ptr R (argv ! 0) SWIGTYPE_p_JsPort (''JsPort *'', ''connect'', 2) (\<lambda>arg2.
     rb_guarded (JsPort_connect (r_jack R) arg1 arg2) (\<lambda>result.
     rb_return_obj (ruby_From_int result) []))))"

definition rb_wrap_JsPort_getLatencyRange :: "'rb rb_api \<Rightarrow> rb_value list \<Rightarrow> rb_value \<Rightarrow> 'rb rb_world \<Rightarrow> 'rb rb_outcome" where
  "rb_wrap_JsPort_getLatencyRange R argv recv =
     rb_check_argc 1 argv (
     rb_arg_ptr R recv SWIGTYPE_p_JsPort (''JsPort *'', ''getLatencyRange'', 1) (\<lambda>arg1.
     rb_arg_val ruby_AsVal_int R (argv ! 0) (''enum JackLatencyCallbackMode'', ''getLatencyRange'', 2) (\<lambda>arg2.
     rb_guarded (JsPort_getLatencyRange (r_jack R) arg1 arg2) (\<lambda>result.
     rb_return_ptr result SWIGTYPE_p_JsLatencyRange 0 []))))"

definition rb_wrap_JsPort_setLatencyRange :: "'rb rb_api \<Rightarrow> rb_value list \<Rightarrow> rb_value \<Rightarrow> 'rb rb_world \<Rightarrow> 'rb rb_outcome" where
  "rb_wrap_JsPort_setLatencyRange R argv recv =
     rb_check_argc 3 argv (
     rb_arg_ptr R recv SWIGTYPE_p_JsPort (''JsPort *'', ''setLatencyRange'', 1) (\<lambda>arg1.
     rb_arg_val ruby_AsVal_int R (argv ! 0) (''enum JackLatencyCallbackMode'', ''setLatencyRange'', 2) (\<lambda>arg2.
     rb_arg_val ruby_AsVal_int R (argv ! 1) (''int'', ''setLatencyRange'', 3) (\<lambda>arg3.
     rb_arg_val ruby_AsVal_int R (argv ! 2) (''int'', ''setLatencyRange'', 4) (\<lambda>arg4.
     rb_guarded (changes (JsPort_setLatencyRange arg1 arg2 arg3 arg4)) (\<lambda>result.
     rb_return_obj RNil []))))))"

definition rb_wrap_JsPort_wakeupLatencyCallbacks :: "'rb rb_api \<Rightarrow> rb_value list \<Rightarrow> rb_value \<Rightarrow> 'rb rb_world \<Rightarrow> 'rb rb_outcome" where
  "rb_wrap_JsPort_wakeupLatencyCallbacks R argv recv =
     rb_check_argc 0 argv (
     rb_arg_ptr R recv SWIGTYPE_p_JsPort (''JsPort *'', ''wakeupLatencyCallbacks'', 1) (\<lambda>arg1.
     rb_guarded (changes (JsPort_wakeupLatencyCallbacks arg1)) (\<lambda>result.
     rb_return_obj RNil [])))"

definition rb_wrap_JsPort_wakeupSigLatencyCallback :: "'rb rb_api \<Rightarrow> rb_value list \<Rightarrow> rb_value \<Rightarrow> 'rb rb_world \<Rightarrow> 'rb rb_outcome" where
  "rb_wrap_JsPort_wakeupSigLatencyCallback R argv recv =
     rb_check_argc 0 argv (
     rb_arg_ptr R recv SWIGTYPE_p_JsPort (''JsPort *'', ''wakeupSigLatencyCallback'', 1) (\<lambda>arg1.
     rb_guarded (changes (JsPort_wakeupSigLatencyCallback arg1)) (\<lambda>result.
     rb_return_obj RNil [])))"

definition rb_wrap_JsPort_initCaptureLatencyListener :: "'rb rb_api \<Rightarrow> rb_value list \<Rightarrow> rb_value \<Rightarrow> 'rb rb_world \<Rightarrow> 'rb rb_outcome" where
  "rb_wrap_JsPort_initCaptureLatencyListener R argv recv =
     rb_check_argc 0 argv (
     rb_arg_ptr R recv SWIGTYPE_p_JsPort (''JsPort *'', ''initCaptureLatencyListener'', 1) (\<lambda>arg1.
     rb_guarded (JsPort_initCaptureLatencyListener (r_jack R) arg1) (\<lambda>result.
     rb_return_obj (ruby_From_int result) [])))"

definition rb_wrap_JsPort_initPlaybackLatencyListener :: "'rb rb_api \<Rightarrow> rb_value list \<Rightarrow> rb_value \<Rightarrow> 'rb rb_world \<Rightarrow> 'rb rb_outcome" where
  "rb_wrap_JsPort_initPlaybackLatencyListener R argv recv =
     rb_check_argc 0 argv (
     rb_arg_ptr R recv SWIGTYPE_p_JsPort (''JsPort *'', ''initPlaybackLatencyListener'', 1) (\<lambda>arg1.
     rb_guarded (JsPort_initPlaybackLatencyListener (r_jack R) arg1) (\<lambda>result.
     rb_return_obj (ruby_From_int result) [])))"

definition rb_wrap_JsPort_initLatencyListener :: "'rb rb_api \<Rightarrow> rb_value list \<Rightarrow> rb_value \<Rightarrow> 'rb rb_world \<Rightarrow> 'rb rb_outcome" where
  "rb_wrap_JsPort_initLatencyListener R argv recv =
     rb_check_argc 0 argv (
     rb_arg_ptr R recv SWIGTYPE_p_JsPort (''JsPort *'', ''initLatencyListener'', 1) (\<lambda>arg1.
     rb_guarded (JsPort_initLatencyListener (r_jack R) arg1) (\<lambda>result.
     rb_return_obj (ruby_From_int result) [])))"

definition rb_wrap_JsPort_allocate :: "string list \<Rightarrow> (rb_value \<Rightarrow> 'rb rb_world \<Rightarrow> 'rb rb_outcome) \<Rightarrow> 'rb rb_world \<Rightarrow> 'rb rb_outcome" where
  "rb_wrap_JsPort_allocate klass = SWIG_Ruby_NewClassInstance klass SWIGTYPE_p_JsPort"

definition rb_wrap_new_JsPort :: "'rb rb_api \<Rightarrow> rb_value list \<Rightarrow> rb_value \<Rightarrow> 'rb rb_world \<Rightarrow> 'rb rb_outcome" where
  "rb_wrap_new_JsPort R argv recv =
     rb_check_argc 0 argv (
     rb_construct (makes js_ports (\<lambda>h w. w\<lparr>js_ports := h\<rparr>) \<lparr>jp_impl = NULL, jp_clientimpl = NULL\<rparr>) recv [])"

section \<open>Events\<close>

definition rb_free_JsEvent :: "addr \<Rightarrow> 'rb rb_world \<Rightarrow> 'rb rb_world option" where
  "rb_free_JsEvent p w = map_option (\<lambda>j. w\<lparr>rjs := j\<rparr>) (delete_JsEvent (Some p) (rjs w))"

definition rb_wrap_JsEvent_getType :: "'rb rb_api \<Rightarrow> rb_value list \<Rightarrow> rb_value \<Rightarrow> 'rb rb_world \<Rightarrow> 'rb rb_outcome" where
  "rb_wrap_JsEvent_getType R argv recv =
     rb_check_argc 0 argv (
     rb_arg_ptr R recv SWIGTYPE_p_JsEvent (''JsEvent *'', ''getType'', 1) (\<lambda>arg1.
     rb_guarded (reads (JsEvent_getType arg1)) (\<lambda>result.
     rb_return_obj (ruby_From_int result) [])))"

definition rb_wrap_JsEvent_getData :: "'rb rb_api \<Rightarrow> rb_value list \<Rightarrow> rb_value \<Rightarrow> 'rb rb_world \<Rightarrow> 'rb rb_outcome" where
  "rb_wrap_JsEvent_getData R argv recv =
     rb_check_argc 0 argv (
     rb_arg_ptr R recv SWIGTYPE_p_JsEvent (''JsEvent *'', ''getData'', 1) (\<lambda>arg1.
     rb_guarded (reads (JsEvent_getData arg1)) (\<lambda>result.
     rb_return_ptr result SWIGTYPE_p_void 0 [])))"

definition rb_wrap_JsEvent_complete :: "'rb rb_api \<Rightarrow> rb_value list \<Rightarrow> rb_value \<Rightarrow> 'rb rb_world \<Rightarrow> 'rb rb_outcome" where
  "rb_wrap_JsEvent_complete R argv recv =
     rb_check_argc 0 argv (
     rb_arg_ptr R recv SWIGTYPE_p_JsEvent (''JsEvent *'', ''complete'', 1) (\<lambda>arg1.
     rb_guarded (changes (JsEvent_complete arg1)) (\<lambda>result.
     rb_return_obj RNil [])))"

definition rb_wrap_JsEvent_getSessionEventType :: "'rb rb_api \<Rightarrow> rb_value list \<Rightarrow> rb_value \<Rightarrow> 'rb rb_world \<Rightarrow> 'rb rb_outcome" where
  "rb_wrap_JsEvent_getSessionEventType R argv recv =
     rb_check_argc 0 argv (
     rb_arg_ptr R recv SWIGTYPE_p_JsEvent (''JsEvent *'', ''getSessionEventType'', 1) (\<lambda>arg1.
     rb_guarded (JsEvent_getSessionEventType arg1) (\<lambda>result.
     rb_return_obj (ruby_From_int result) [])))"

definition rb_wrap_JsEvent_getSessionDir :: "'rb rb_api \<Rightarrow> rb_value list \<Rightarrow> rb_value \<Rightarrow> 'rb rb_world \<Rightarrow> 'rb rb_outcome" where
  "rb_wrap_JsEvent_getSessionDir R argv recv =
     rb_check_argc 0 argv (
     rb_arg_ptr R recv SWIGTYPE_p_JsEvent (''JsEvent *'', ''getSessionDir'', 1) (\<lambda>arg1.
     rb_guarded (JsEvent_getSessionDir arg1) (\<lambda>result.
     rb_return_str result [])))"

definition rb_wrap_JsEvent_setSessionDir :: "'rb rb_api \<Rightarrow> rb_value list \<Rightarrow> rb_value \<Rightarrow> 'rb rb_world \<Rightarrow> 'rb rb_outcome" where
  "rb_wrap_JsEvent_setSessionDir R argv recv =
     rb_check_argc 1 argv (
     rb_arg_ptr R recv SWIGTYPE_p_JsEvent (''JsEvent *'', ''setSessionDir'', 1) (\<lambda>arg1.
     rb_arg_str R (argv ! 0) (''char const *'', ''setSessionDir'', 2) (\<lambda>alloc2 arg2.
     rb_guarded (changes (JsEvent_setSessionDir arg1 arg2)) (\<lambda>result.
     rb_return_obj RNil [(alloc2, arg2)]))))"

definition rb_wrap_JsEvent_getClientUuid :: "'rb rb_api \<Rightarrow> rb_value list \<Rightarrow> rb_value \<Rightarrow> 'rb rb_world \<Rightarrow> 'rb rb_outcome" where
  "rb_wrap_JsEvent_getClientUuid R argv recv =
     rb_check_argc 0 argv (
     rb_arg_ptr R recv SWIGTYPE_p_JsEvent (''JsEvent *'', ''getClientUuid'', 1) (\<lambda>arg1.
     rb_guarded (JsEvent_getClientUuid arg1) (\<lambda>result.
     rb_return_str result [])))"

definition rb_wrap_JsEvent_setClientUuid :: "'rb rb_api \<Rightarrow> rb_value list \<Rightarrow> rb_value \<Rightarrow> 'rb rb_world \<Rightarrow> 'rb rb_outcome" where
  "rb_wrap_JsEvent_setClientUuid R argv recv =
     rb_check_argc 1 argv (
     rb_arg_ptr R recv SWIGTYPE_p_JsEvent (''JsEvent *'', ''setClientUuid'', 1) (\<lambda>arg1.
     rb_arg_str R (argv ! 0) (''char const *'', ''setClientUuid'', 2) (\<lambda>alloc2 arg2.
     rb_guarded (changes (JsEvent_setClientUuid arg1 arg2)) (\<lambda>result.
     rb_return_obj RNil [(alloc2, arg2)]))))"

definition rb_wrap_JsEvent_getCommandLine :: "'rb rb_api \<Rightarrow> rb_value list \<Rightarrow> rb_value \<Rightarrow> 'rb rb_world \<Rightarrow> 'rb rb_outcome" where
  "rb_wrap_JsEvent_getCommandLine R argv recv =
     rb_check_argc 0 argv (
     rb_arg_ptr R recv SWIGTYPE_p_JsEvent (''JsEvent *'', ''getCommandLine'', 1) (\<lambda>arg1.
     rb_guarded (JsEvent_getCommandLine arg1) (\<lambda>result.
     rb_return_str result [])))"

definition rb_wrap_JsEvent_setCommandLine :: "'rb rb_api \<Rightarrow> rb_value list \<Rightarrow> rb_value \<Rightarrow> 'rb rb_world \<Rightarrow> 'rb rb_outcome" where
  "rb_wrap_JsEvent_setCommandLine R argv recv =
     rb_check_argc 1 argv (
     rb_arg_ptr R recv SWIGTYPE_p_JsEvent (''JsEvent *'', ''setCommandLine'', 1) (\<lambda>arg1.
     rb_arg_str R (argv ! 0) (''char *'', ''setCommandLine'', 2) (\<lambda>alloc2 arg2.
     rb_guarded (changes (JsEvent_setCommandLine arg1 arg2)) (\<lambda>result.
     rb_return_obj RNil [(alloc2, arg2)]))))"

definition rb_wrap_JsEvent_getSessionEventFlags :: "'rb rb_api \<Rightarrow> rb_value list \<Rightarrow> rb_value \<Rightarrow> 'rb rb_world \<Rightarrow> 'rb rb_outcome" where
  "rb_wrap_JsEvent_getSessionEventFlags R argv recv =
     rb_check_argc 0 argv (
     rb_arg_ptr R recv SWIGTYPE_p_JsEvent (''JsEvent *'', ''getSessionEventFlags'', 1) (\<lambda>arg1.
     rb_guarded (JsEvent_getSessionEventFlags arg1) (\<lambda>result.
     rb_return_obj (ruby_From_int result) [])))"

definition rb_wrap_JsEvent_setSessionEventFlags :: "'rb rb_api \<Rightarrow> rb_value list \<Rightarrow> rb_value \<Rightarrow> 'rb rb_world \<Rightarrow> 'rb rb_outcome" where
  "rb_wrap_JsEvent_setSessionEventFlags R argv recv =
     rb_check_argc 1 argv (
     rb_arg_ptr R recv SWIGTYPE_p_JsEvent (''JsEvent *'', ''setSessionEventFlags'', 1) (\<lambda>arg1.
     rb_arg_val ruby_AsVal_int R (argv ! 0) (''jack_session_flags_t'', ''setSessionEventFlags'', 2) (\<lambda>arg2.
     rb_guarded (changes (JsEvent_setSessionEventFlags arg1 arg2)) (\<lambda>result.
     rb_return_obj RNil []))))"

definition rb_wrap_JsEvent_allocate :: "string list \<Rightarrow> (rb_value \<Rightarrow> 'rb rb_world \<Rightarrow> 'rb rb_outcome) \<Rightarrow> 'rb rb_world \<Rightarrow> 'rb rb_outcome" where
  "rb_wrap_JsEvent_allocate klass = SWIG_Ruby_NewClassInstance klass SWIGTYPE_p_JsEvent"

definition rb_wrap_new_JsEvent :: "'rb rb_api \<Rightarrow> rb_value list \<Rightarrow> rb_value \<Rightarrow> 'rb rb_world \<Rightarrow> 'rb rb_outcome" where
  "rb_wrap_new_JsEvent R argv recv =
     rb_check_argc 0 argv (
     rb_construct (makes js_events (\<lambda>h w. w\<lparr>js_events := h\<rparr>) \<lparr>jv_impl = NULL\<rparr>) recv [])"

section \<open>Clients\<close>

definition rb_wrap_JsClient_allocate :: "string list \<Rightarrow> (rb_value \<Rightarrow> 'rb rb_world \<Rightarrow> 'rb rb_outcome) \<Rightarrow> 'rb rb_world \<Rightarrow> 'rb rb_outcome" where
  "rb_wrap_JsClient_allocate klass = SWIG_Ruby_NewClassInstance klass SWIGTYPE_p_JsClient"

definition rb_wrap_new_JsClient :: "'rb rb_api \<Rightarrow> rb_value list \<Rightarrow> rb_value \<Rightarrow> 'rb rb_world \<Rightarrow> 'rb rb_outcome" where
  "rb_wrap_new_JsClient R argv recv =
     rb_check_argc 4 argv (
     rb_arg_str R (argv ! 0) (''char const *'', ''JsClient'', 1) (\<lambda>alloc1 arg1.
     rb_arg_str R (argv ! 1) (''char const *'', ''JsClient'', 2) (\<lambda>alloc2 arg2.
     rb_arg_val ruby_AsVal_int R (argv ! 2) (''jack_options_t'', ''JsClient'', 3) (\<lambda>arg3.
     rb_arg_val ruby_AsVal_unsigned_SS_int R (argv ! 3) (''unsigned int'', ''JsClient'', 4) (\<lambda>arg4.
     rb_construct_exit (new_JsClient (r_jack R) arg1 arg2 arg3 arg4) recv [(alloc1, arg1), (alloc2, arg2)])))))"

definition rb_free_JsClient :: "addr \<Rightarrow> 'rb rb_world \<Rightarrow> 'rb rb_world option" where
  "rb_free_JsClient p w = map_option (\<lambda>j. w\<lparr>rjs := j\<rparr>) (delete_JsClient (Some p) (rjs w))"

definition rb_wrap_JsClient_getPortNamesByType :: "'rb rb_api \<Rightarrow> rb_value list \<Rightarrow> rb_value \<Rightarrow> 'rb rb_world \<Rightarrow> 'rb rb_outcome" where
  "rb_wrap_JsClient_getPortNamesByType R argv recv =
     rb_check_argc 3 argv (
     rb_arg_ptr R recv SWIGTYPE_p_JsClient (''JsClient *'', ''getPortNamesByType'', 1) (\<lambda>arg1.
     rb_arg_str R (argv ! 0) (''char const *'', ''getPortNamesByType'', 2) (\<lambda>alloc2 arg2.
     rb_arg_str R (argv ! 1) (''char const *'', ''getPortNamesByType'', 3) (\<lambda>alloc3 arg3.
     rb_arg_val ruby_AsVal_int R (argv ! 2) (''enum JackPortFlags'', ''getPortNamesByType'', 4) (\<lambda>arg4.
     rb_guarded (JsClient_getPortNamesByType (r_jack R) arg1 arg2 arg3 arg4) (\<lambda>result.
     rb_return_ptr result SWIGTYPE_p_StringList 0 [(alloc2, arg2), (alloc3, arg3)]))))))"

definition rb_wrap_JsClient_getPortNames :: "'rb rb_api \<Rightarrow> rb_value list \<Rightarrow> rb_value \<Rightarrow> 'rb rb_world \<Rightarrow> 'rb rb_outcome" where
  "rb_wrap_JsClient_getPortNames R argv recv =
     rb_check_argc 1 argv (
     rb_arg_ptr R recv SWIGTYPE_p_JsClient (''JsClient *'', ''getPortNames'', 1) (\<lambda>arg1.
     rb_arg_str R (argv ! 0) (''char const *'', ''getPortNames'', 2) (\<lambda>alloc2 arg2.
     rb_guarded (JsClient_getPortNames (r_jack R) arg1 arg2) (\<lambda>result.
     rb_return_ptr result SWIGTYPE_p_StringList 0 [(alloc2, arg2)]))))"

definition rb_wrap_JsClient_getPort :: "'rb rb_api \<Rightarrow> rb_value list \<Rightarrow> rb_value \<Rightarrow> 'rb rb_world \<Rightarrow> 'rb rb_outcome" where
  "rb_wrap_JsClient_getPort R argv recv =
     rb_check_argc 1 argv (
     rb_arg_ptr R recv SWIGTYPE_p_JsClient (''JsClient *'', ''getPort'', 1) (\<lambda>arg1.
     rb_arg_str R (argv ! 0) (''char *'', ''getPort'', 2) (\<lambda>alloc2 arg2.
     rb_guarded (JsClient_getPort (r_jack R) arg1 arg2) (\<lambda>result.
     rb_return_ptr result SWIGTYPE_p_JsPort 0 [(alloc2, arg2)]))))"

definition rb_wrap_JsClient_registerPort :: "'rb rb_api \<Rightarrow> rb_value list \<Rightarrow> rb_value \<Rightarrow> 'rb rb_world \<Rightarrow> 'rb rb_outcome" where
  "rb_wrap_JsClient_registerPort R argv recv =
     rb_check_argc 2 argv (
     rb_arg_ptr R recv SWIGTYPE_p_JsClient (''JsClient *'', ''registerPort'', 1) (\<lambda>arg1.
     rb_arg_str R (argv ! 0) (''char *'', ''registerPort'', 2) (\<lambda>alloc2 arg2.
     rb_arg_val ruby_AsVal_unsigned_SS_long R (argv ! 1) (''unsigned long'', ''registerPort'', 3) (\<lambda>arg3.
     rb_guarded (JsClient_registerPort (r_jack R) arg1 arg2 arg3) (\<lambda>result.
     rb_return_ptr result SWIGTYPE_p_JsPort 0 [(alloc2, arg2)])))))"

definition rb_wrap_JsClient_getEvent :: "'rb rb_api \<Rightarrow> rb_value list \<Rightarrow> rb_value \<Rightarrow> 'rb rb_world \<Rightarrow> 'rb rb_outcome" where
  "rb_wrap_JsClient_getEvent R argv recv =
     rb_check_argc 1 argv (
     rb_arg_ptr R recv SWIGTYPE_p_JsClient (''JsClient *'', ''getEvent'', 1) (\<lambda>arg1.
     rb_arg_val ruby_AsVal_long R (argv ! 0) (''long'', ''getEvent'', 2) (\<lambda>arg2.
     rb_guarded (JsClient_getEvent (r_env R) arg1 arg2) (\<lambda>result.
     rb_return_ptr result SWIGTYPE_p_JsEvent 0 []))))"

definition rb_wrap_JsClient_getSampleRate :: "'rb rb_api \<Rightarrow> rb_value list \<Rightarrow> rb_value \<Rightarrow> 'rb rb_world \<Rightarrow> 'rb rb_outcome" where
  "rb_wrap_JsClient_getSampleRate R argv recv =
     rb_check_argc 0 argv (
     rb_arg_ptr R recv SWIGTYPE_p_JsClient (''JsClient *'', ''getSampleRate'', 1) (\<lambda>arg1.
     rb_guarded (reads (JsClient_getSampleRate (r_jack R) arg1)) (\<lambda>result.
     rb_return_obj (ruby_From_unsigned_SS_int result) [])))"

definition rb_wrap_JsClient_activate :: "'rb rb_api \<Rightarrow> rb_value list \<Rightarrow> rb_value \<Rightarrow> 'rb rb_world \<Rightarrow> 'rb rb_outcome" where
  "rb_wrap_JsClient_activate R argv recv =
     rb_check_argc 0 argv (
     rb_arg_ptr R recv SWIGTYPE_p_JsClient (''JsClient *'', ''activate'', 1) (\<lambda>arg1.
     rb_guarded (JsClient_activate (r_jack R) arg1) (\<lambda>result.
     rb_return_obj (ruby_From_int result) [])))"

definition rb_wrap_JsClient_getName :: "'rb rb_api \<Rightarrow> rb_value list \<Rightarrow> rb_value \<Rightarrow> 'rb rb_world \<Rightarrow> 'rb rb_outcome" where
  "rb_wrap_JsClient_getName R argv recv =
     rb_check_argc 0 argv (
     rb_arg_ptr R recv SWIGTYPE_p_JsClient (''JsClient *'', ''getName'', 1) (\<lambda>arg1.
     rb_guarded (reads (JsClient_getName (r_jack R) arg1)) (\<lambda>result.
     rb_return_str result [])))"

definition rb_wrap_JsClient_getTransportState :: "'rb rb_api \<Rightarrow> rb_value list \<Rightarrow> rb_value \<Rightarrow> 'rb rb_world \<Rightarrow> 'rb rb_outcome" where
  "rb_wrap_JsClient_getTransportState R argv recv =
     rb_check_argc 0 argv (
     rb_arg_ptr R recv SWIGTYPE_p_JsClient (''JsClient *'', ''getTransportState'', 1) (\<lambda>arg1.
     rb_guarded (reads (JsClient_getTransportState (r_jack R) arg1)) (\<lambda>result.
     rb_return_obj (ruby_From_int result) [])))"

definition rb_wrap_JsClient_recomputeLatencies :: "'rb rb_api \<Rightarrow> rb_value list \<Rightarrow> rb_value \<Rightarrow> 'rb rb_world \<Rightarrow> 'rb rb_outcome" where
  "rb_wrap_JsClient_recomputeLatencies R argv recv =
     rb_check_argc 0 argv (
     rb_arg_ptr R recv SWIGTYPE_p_JsClient (''JsClient *'', ''recomputeLatencies'', 1) (\<lambda>arg1.
     rb_guarded (changes (JsClient_recomputeLatencies (r_jack R) arg1)) (\<lambda>result.
     rb_return_obj RNil [])))"

section \<open>The C functions by name\<close>

definition rb_functions :: "'rb rb_api \<Rightarrow> (string \<times> (rb_value list \<Rightarrow> rb_value \<Rightarrow> 'rb rb_world \<Rightarrow> 'rb rb_outcome)) list" where
  "rb_functions R =
     [(''_wrap_JsPortBuffer_getf'', rb_wrap_JsPortBuffer_getf R),
      (''_wrap_JsPortBuffer_setf'', rb_wrap_JsPortBuffer_setf R),
      (''_wrap_JsPortBuffer_length'', rb_wrap_JsPortBuffer_length R),
      (''_wrap_JsPortBuffer_toHexString'', rb_wrap_JsPortBuffer_toHexString R),
      (''_wrap_new_JsPortBuffer'', rb_wrap_new_JsPortBuffer R),
      (''_wrap_JsLatencyRange_min'', rb_wrap_JsLatencyRange_min R),
      (''_wrap_JsLatencyRange_max'', rb_wrap_JsLatencyRange_max R),
      (''_wrap_new_JsLatencyRange'', rb_wrap_new_JsLatencyRange R),
      (''_wrap_StringList_get'', rb_wrap_StringList_get R),
      (''_wrap_StringList_length'', rb_wrap_StringList_length R),
      (''_wrap_new_StringList'', rb_wrap_new_StringList R),
      (''_wrap_JsPort_getBuffer'', rb_wrap_JsPort_getBuffer R), (''_wrap_JsPort_name'', rb_wrap_JsPort_name R),
      (''_wrap_JsPort_connect'', rb_wrap_JsPort_connect R),
      (''_wrap_JsPort_getLatencyRange'', rb_wrap_JsPort_getLatencyRange R),
      (''_wrap_JsPort_setLatencyRange'', rb_wrap_JsPort_setLatencyRange R),
      (''_wrap_JsPort_wakeupLatencyCallbacks'', rb_wrap_JsPort_wakeupLatencyCallbacks R),
      (''_wrap_JsPort_wakeupSigLatencyCallback'', rb_wrap_JsPort_wakeupSigLatencyCallback R),
      (''_wrap_JsPort_initCaptureLatencyListener'', rb_wrap_JsPort_initCaptureLatencyListener R),
      (''_wrap_JsPort_initPlaybackLatencyListener'', rb_wrap_JsPort_initPlaybackLatencyListener R),
      (''_wrap_JsPort_initLatencyListener'', rb_wrap_JsPort_initLatencyListener R),
      (''_wrap_new_JsPort'', rb_wrap_new_JsPort R), (''_wrap_JsEvent_getType'', rb_wrap_JsEvent_getType R),
      (''_wrap_JsEvent_getData'', rb_wrap_JsEvent_getData R),
      (''_wrap_JsEvent_complete'', rb_wrap_JsEvent_complete R),
      (''_wrap_JsEvent_getSessionEventType'', rb_wrap_JsEvent_getSessionEventType R),
      (''_wrap_JsEvent_getSessionDir'', rb_wrap_JsEvent_getSessionDir R),
      (''_wrap_JsEvent_setSessionDir'', rb_wrap_JsEvent_setSessionDir R),
      (''_wrap_JsEvent_getClientUuid'', rb_wrap_JsEvent_getClientUuid R),
      (''_wrap_JsEvent_setClientUuid'', rb_wrap_JsEvent_setClientUuid R),
      (''_wrap_JsEvent_getCommandLine'', rb_wrap_JsEvent_getCommandLine R),
      (''_wrap_JsEvent_setCommandLine'', rb_wrap_JsEvent_setCommandLine R),
      (''_wrap_JsEvent_getSessionEventFlags'', rb_wrap_JsEvent_getSessionEventFlags R),
      (''_wrap_JsEvent_setSessionEventFlags'', rb_wrap_JsEvent_setSessionEventFlags R),
      (''_wrap_new_JsEvent'', rb_wrap_new_JsEvent R), (''_wrap_new_JsClient'', rb_wrap_new_JsClient R),
      (''_wrap_JsClient_getPortNamesByType'', rb_wrap_JsClient_getPortNamesByType R),
      (''_wrap_JsClient_getPortNames'', rb_wrap_JsClient_getPortNames R),
      (''_wrap_JsClient_getPort'', rb_wrap_JsClient_getPort R),
      (''_wrap_JsClient_registerPort'', rb_wrap_JsClient_registerPort R),
      (''_wrap_JsClient_getEvent'', rb_wrap_JsClient_getEvent R),
      (''_wrap_JsClient_getSampleRate'', rb_wrap_JsClient_getSampleRate R),
      (''_wrap_JsClient_activate'', rb_wrap_JsClient_activate R),
      (''_wrap_JsClient_getName'', rb_wrap_JsClient_getName R),
      (''_wrap_JsClient_getTransportState'', rb_wrap_JsClient_getTransportState R),
      (''_wrap_JsClient_recomputeLatencies'', rb_wrap_JsClient_recomputeLatencies R)]"

definition rb_call :: "'rb rb_api \<Rightarrow> string \<Rightarrow> rb_value list \<Rightarrow> rb_value \<Rightarrow> 'rb rb_world \<Rightarrow> 'rb rb_outcome" where
  "rb_call R f argv recv w = (case map_of (rb_functions R) f of None \<Rightarrow> None | Some g \<Rightarrow> g argv recv w)"

definition rb_allocators :: "(string \<times> (string list \<Rightarrow> (rb_value \<Rightarrow> 'rb rb_world \<Rightarrow> 'rb rb_outcome) \<Rightarrow> 'rb rb_world \<Rightarrow> 'rb rb_outcome)) list" where
  "rb_allocators =
     [(''_wrap_JsPortBuffer_allocate'', rb_wrap_JsPortBuffer_allocate),
      (''_wrap_JsLatencyRange_allocate'', rb_wrap_JsLatencyRange_allocate),
      (''_wrap_StringList_allocate'', rb_wrap_StringList_allocate),
      (''_wrap_JsPort_allocate'', rb_wrap_JsPort_allocate),
      (''_wrap_JsEvent_allocate'', rb_wrap_JsEvent_allocate),
      (''_wrap_JsClient_allocate'', rb_wrap_JsClient_allocate)]"

definition rb_destructors :: "(string \<times> (addr \<Rightarrow> 'rb rb_world \<Rightarrow> 'rb rb_world option)) list" where
  "rb_destructors =
     [(''free_JsPortBuffer'', rb_free_JsPortBuffer), (''free_JsLatencyRange'', rb_free_JsLatencyRange),
      (''free_StringList'', rb_free_StringList), (''free_JsPort'', rb_free_JsPort),
      (''free_JsEvent'', rb_free_JsEvent), (''free_JsClient'', rb_free_JsClient),
      (''SWIG_RubyRemoveTracking'', \<lambda>p w. Some (SWIG_RubyRemoveTracking p w))]"

definition rb_destroy :: "string \<Rightarrow> addr \<Rightarrow> 'rb rb_world \<Rightarrow> 'rb rb_world option" where
  "rb_destroy f p w = (case map_of rb_destructors f of None \<Rightarrow> None | Some d \<Rightarrow> d p w)"

section \<open>Loading the module\<close>

text \<open>The classes: the index of the type, the name, the methods. \<open>jack\<close> gives the values of JACK's constants.\<close>

definition ruby_classes :: "(nat \<times> string \<times> (string \<times> string) list) list" where
  "ruby_classes =
     [(SWIGTYPE_p_JsPortBuffer, ''JsPortBuffer'',
        [(''initialize'', ''_wrap_new_JsPortBuffer''), (''getf'', ''_wrap_JsPortBuffer_getf''),
         (''setf'', ''_wrap_JsPortBuffer_setf''), (''length'', ''_wrap_JsPortBuffer_length''),
         (''toHexString'', ''_wrap_JsPortBuffer_toHexString'')]),
      (SWIGTYPE_p_JsLatencyRange, ''JsLatencyRange'',
        [(''initialize'', ''_wrap_new_JsLatencyRange''), (''min'', ''_wrap_JsLatencyRange_min''),
         (''max'', ''_wrap_JsLatencyRange_max'')]),
      (SWIGTYPE_p_StringList, ''StringList'',
        [(''initialize'', ''_wrap_new_StringList''), (''get'', ''_wrap_StringList_get''),
         (''length'', ''_wrap_StringList_length'')]),
      (SWIGTYPE_p_JsPort, ''JsPort'',
        [(''initialize'', ''_wrap_new_JsPort''), (''getBuffer'', ''_wrap_JsPort_getBuffer''),
         (''name'', ''_wrap_JsPort_name''), (''connect'', ''_wrap_JsPort_connect''),
         (''getLatencyRange'', ''_wrap_JsPort_getLatencyRange''),
         (''setLatencyRange'', ''_wrap_JsPort_setLatencyRange''),
         (''wakeupLatencyCallbacks'', ''_wrap_JsPort_wakeupLatencyCallbacks''),
         (''wakeupSigLatencyCallback'', ''_wrap_JsPort_wakeupSigLatencyCallback''),
         (''initCaptureLatencyListener'', ''_wrap_JsPort_initCaptureLatencyListener''),
         (''initPlaybackLatencyListener'', ''_wrap_JsPort_initPlaybackLatencyListener''),
         (''initLatencyListener'', ''_wrap_JsPort_initLatencyListener'')]),
      (SWIGTYPE_p_JsEvent, ''JsEvent'',
        [(''initialize'', ''_wrap_new_JsEvent''), (''getType'', ''_wrap_JsEvent_getType''),
         (''getData'', ''_wrap_JsEvent_getData''), (''complete'', ''_wrap_JsEvent_complete''),
         (''getSessionEventType'', ''_wrap_JsEvent_getSessionEventType''),
         (''getSessionDir'', ''_wrap_JsEvent_getSessionDir''),
         (''setSessionDir'', ''_wrap_JsEvent_setSessionDir''),
         (''getClientUuid'', ''_wrap_JsEvent_getClientUuid''),
         (''setClientUuid'', ''_wrap_JsEvent_setClientUuid''),
         (''getCommandLine'', ''_wrap_JsEvent_getCommandLine''),
         (''setCommandLine'', ''_wrap_JsEvent_setCommandLine''),
         (''getSessionEventFlags'', ''_wrap_JsEvent_getSessionEventFlags''),
         (''setSessionEventFlags'', ''_wrap_JsEvent_setSessionEventFlags'')]),
      (SWIGTYPE_p_JsClient, ''JsClient'',
        [(''initialize'', ''_wrap_new_JsClient''),
         (''getPortNamesByType'', ''_wrap_JsClient_getPortNamesByType''),
         (''getPortNames'', ''_wrap_JsClient_getPortNames''), (''getPort'', ''_wrap_JsClient_getPort''),
         (''registerPort'', ''_wrap_JsClient_registerPort''), (''getEvent'', ''_wrap_JsClient_getEvent''),
         (''getSampleRate'', ''_wrap_JsClient_getSampleRate''), (''activate'', ''_wrap_JsClient_activate''),
         (''getName'', ''_wrap_JsClient_getName''),
         (''getTransportState'', ''_wrap_JsClient_getTransportState''),
         (''recomputeLatencies'', ''_wrap_JsClient_recomputeLatencies'')])]"

definition ruby_constants :: "(string \<Rightarrow> int) \<Rightarrow> (string \<times> int) list" where
  "ruby_constants jack =
     [(''PROCESS'', event_code PROCESS), (''SESSION'', event_code SESSION), (''ERR'', event_code ERR),
      (''SAMPLE_RATE_CHANGE'', event_code SAMPLE_RATE_CHANGE), (''SHUTDOWN'', event_code SHUTDOWN),
      (''JackTransportStopped'', jack ''JackTransportStopped''),
      (''JackTransportRolling'', jack ''JackTransportRolling''),
      (''JackTransportLooping'', jack ''JackTransportLooping''),
      (''JackTransportStarting'', jack ''JackTransportStarting''),
      (''JackPortIsInput'', jack ''JackPortIsInput''), (''JackPortIsOutput'', jack ''JackPortIsOutput''),
      (''JackPortIsPhysical'', jack ''JackPortIsPhysical''),
      (''JackPortCanMonitor'', jack ''JackPortCanMonitor''),
      (''JackPortIsTerminal'', jack ''JackPortIsTerminal''), (''JackNullOption'', jack ''JackNullOption''),
      (''JackNoStartServer'', jack ''JackNoStartServer''), (''JackUseExactName'', jack ''JackUseExactName''),
      (''JackServerName'', jack ''JackServerName''), (''JackLoadName'', jack ''JackLoadName''),
      (''JackLoadInit'', jack ''JackLoadInit''), (''JackSessionID'', jack ''JackSessionID''),
      (''JackSessionSave'', jack ''JackSessionSave''),
      (''JackSessionSaveAndQuit'', jack ''JackSessionSaveAndQuit''),
      (''JackSessionSaveTemplate'', jack ''JackSessionSaveTemplate''),
      (''JackSessionSaveError'', jack ''JackSessionSaveError''),
      (''JackSessionNeedTerminal'', jack ''JackSessionNeedTerminal''),
      (''JackCaptureLatency'', jack ''JackCaptureLatency''),
      (''JackPlaybackLatency'', jack ''JackPlaybackLatency'')]"

fun each_item :: "('a \<Rightarrow> 's \<Rightarrow> 's option) \<Rightarrow> 'a list \<Rightarrow> 's \<Rightarrow> 's option" where
  "each_item f [] s = Some s"
| "each_item f (x # xs) s = Option.bind (f x s) (each_item f xs)"

text \<open>
  One class: it is defined in Ruby, becomes the client data of its type, gets its allocator and its
  methods, and last its fields. The structure \<open>SwigClass\<dots>\<close> has the index of the type as address.
\<close>

definition ruby_define_class :: "nat \<times> string \<times> (string \<times> string) list \<Rightarrow> 'rb rb_world \<Rightarrow> 'rb rb_world option" where
  "ruby_define_class entry w =
     (case entry of (i, name, methods) \<Rightarrow> do {
        m \<leftarrow> modules (rrun w) (self swig_module);
        _ \<leftarrow> c_assert (i < length (sm_types m));
        let w = w\<lparr>rclasses := (rclasses w)(i \<mapsto> \<lparr>sc_klass = name, sc_destroy = None, sc_track = False\<rparr>)\<rparr>
        in do {
          h \<leftarrow> SWIG_TypeClientData (sm_types m ! i) (Some i) None (rheap w);
          let w = set_rheap h w;
              w = w\<lparr>rdefs := (rdefs w)(name \<mapsto>
                    \<lparr>rk_alloc = Some (''_wrap_'' @ name @ ''_allocate''), rk_methods = map_of (rev methods)\<rparr>)\<rparr>
          in Some (w\<lparr>rclasses := (rclasses w)(i \<mapsto>
               \<lparr>sc_klass = name, sc_destroy = Some (''free_'' @ name), sc_track = False\<rparr>)\<rparr>)
        }
      })"

definition Init_jacks :: "(string \<Rightarrow> int) \<Rightarrow> 'rb rb_world \<Rightarrow> 'rb rb_world option" where
  "Init_jacks jack w = do {
     r \<leftarrow> ruby_InitializeModule swig_module (rrun w);
     m \<leftarrow> modules r (self swig_module);
     w \<leftarrow> each_item SWIG_Ruby_define_class (sm_types m) (w\<lparr>rrun := r\<rparr>);
     let w = fold (\<lambda>(name, v) w. w\<lparr>rconsts := (rconsts w)(name \<mapsto> ruby_From_int v)\<rparr>) (ruby_constants jack) w
     in each_item ruby_define_class ruby_classes w
   }"

text \<open>
  What the interpreter does with a call: a method is looked up along the classes of its receiver;
  \<open>new\<close> allocates an instance and then calls \<open>initialize\<close> on it.
\<close>

fun find_method :: "'rb rb_world \<Rightarrow> string \<Rightarrow> string list \<Rightarrow> string option" where
  "find_method w m [] = None"
| "find_method w m (k # ks) =
     (case Option.bind (rdefs w k) (\<lambda>c. rk_methods c m) of None \<Rightarrow> find_method w m ks | Some f \<Rightarrow> Some f)"

fun find_alloc :: "'rb rb_world \<Rightarrow> string list \<Rightarrow> string option" where
  "find_alloc w [] = None"
| "find_alloc w (k # ks) = (case Option.bind (rdefs w k) rk_alloc of None \<Rightarrow> find_alloc w ks | Some f \<Rightarrow> Some f)"

definition rb_send :: "'rb rb_api \<Rightarrow> rb_value \<Rightarrow> string \<Rightarrow> rb_value list \<Rightarrow> 'rb rb_world \<Rightarrow> 'rb rb_outcome" where
  "rb_send R recv m argv w =
     (case recv of
        RData a \<Rightarrow> do {
          obj \<leftarrow> objs (robjs w) a;
          f \<leftarrow> find_method w m (ro_kinds obj);
          rb_call R f argv recv w
        }
      | _ \<Rightarrow> None)"

text \<open>When \<open>initialize\<close> raises, the object without a pointer stays until it is collected.\<close>

definition rb_new :: "'rb rb_api \<Rightarrow> string list \<Rightarrow> rb_value list \<Rightarrow> 'rb rb_world \<Rightarrow> 'rb rb_outcome" where
  "rb_new R klass argv w = do {
     f \<leftarrow> find_alloc w klass;
     alloc \<leftarrow> map_of rb_allocators f;
     alloc klass (\<lambda>v w. case rb_send R v ''initialize'' argv w of
         Some (RReturned _, w) \<Rightarrow> Some (RReturned v, w)
       | out \<Rightarrow> out) w
   }"

end
