(* ===== verification/PyWrap.thy ===== *)
theory PyWrap
  imports PyRuntime
begin

text \<open>
  The functions of the Python 3 module (\<open>_wrap_*\<close> in \<open>modules/python3/Jacks_python3_wrap.c\<close>),
  one definition each. They share one protocol, whose steps are the combinators of the first
  section, in the order of the C code: the arguments are counted; each is converted, and a
  failed conversion sets a Python exception, frees the strings converted so far and returns the
  null pointer; the error channel is cleared, the function of \<open>Bindings\<close> is called, and if an
  error is set then it becomes a \<open>RuntimeError\<close> (and the converted strings are not freed);
  otherwise the result is converted, the strings are freed, and the result is returned.
\<close>

section \<open>The protocol\<close>

definition parse_args ::
  "nat \<Rightarrow> string \<Rightarrow> py_obj list \<Rightarrow> ((nat \<Rightarrow> py_obj) \<Rightarrow> 'rb py_world \<Rightarrow> 'rb outcome) \<Rightarrow> 'rb py_world \<Rightarrow> 'rb outcome"
where
  "parse_args n meth args k w =
     (if length args = n then k (\<lambda>i. args ! i) w
      else Some (Returned None, w\<lparr>py_err := Some (TypeError, meth)\<rparr>))"

fun free_bufs :: "(int \<times> char_ptr) list \<Rightarrow> 'rb py_world \<Rightarrow> 'rb py_world option" where
  "free_bufs [] w = Some w"
| "free_bufs (b # bs) w = Option.bind (free_buf b w) (free_bufs bs)"

text \<open>The message names the method, the position and the type of the argument.\<close>

definition arg_message :: "string \<times> string \<times> string \<Rightarrow> string" where
  "arg_message who =
     (case who of (meth, i, ty) \<Rightarrow>
        ''in method '' @ [CHR 0x27] @ meth @ [CHR 0x27] @ '', argument '' @ i @ '' of type '' @
        [CHR 0x27] @ ty @ [CHR 0x27])"

definition arg_fail ::
  "int \<Rightarrow> (int \<times> char_ptr) list \<Rightarrow> string \<times> string \<times> string \<Rightarrow> 'rb py_world \<Rightarrow> 'rb outcome" where
  "arg_fail res bufs who w = do {
     w \<leftarrow> free_bufs bufs (SWIG_Error (SWIG_ArgError res) (arg_message who) w);
     Some (Returned None, w)
   }"

definition arg_ptr ::
  "py_obj \<Rightarrow> addr \<Rightarrow> nat \<Rightarrow> (int \<times> char_ptr) list \<Rightarrow> string \<times> string \<times> string \<Rightarrow>
     (ptr \<Rightarrow> 'rb py_world \<Rightarrow> 'rb outcome) \<Rightarrow> 'rb py_world \<Rightarrow> 'rb outcome" where
  "arg_ptr obj ty flags bufs who k w = do {
     (res, p, w) \<leftarrow> SWIG_ConvertPtr obj (Some ty) flags w;
     if SWIG_IsOK res then k p w else arg_fail res bufs who w
   }"

text \<open>The conversions that cannot go wrong in C, then those of characters and strings.\<close>

definition arg_val ::
  "(py_obj \<Rightarrow> 'rb py_world \<Rightarrow> int \<times> 'v \<times> 'rb py_world) \<Rightarrow> py_obj \<Rightarrow> (int \<times> char_ptr) list \<Rightarrow>
     string \<times> string \<times> string \<Rightarrow> ('v \<Rightarrow> 'rb py_world \<Rightarrow> 'rb outcome) \<Rightarrow> 'rb py_world \<Rightarrow> 'rb outcome" where
  "arg_val conv obj bufs who k w =
     (let (res, v, w) = conv obj w in if SWIG_IsOK res then k v w else arg_fail res bufs who w)"

abbreviation arg_int where "arg_int \<equiv> arg_val SWIG_AsVal_int"
abbreviation arg_long where "arg_long \<equiv> arg_val SWIG_AsVal_long"
abbreviation arg_uint where "arg_uint \<equiv> arg_val SWIG_AsVal_unsigned_SS_int"
abbreviation arg_ulong where "arg_ulong \<equiv> arg_val SWIG_AsVal_unsigned_SS_long"
abbreviation arg_float where "arg_float \<equiv> arg_val SWIG_AsVal_float"

definition arg_char ::
  "py_obj \<Rightarrow> (int \<times> char_ptr) list \<Rightarrow> string \<times> string \<times> string \<Rightarrow>
     (char \<Rightarrow> 'rb py_world \<Rightarrow> 'rb outcome) \<Rightarrow> 'rb py_world \<Rightarrow> 'rb outcome" where
  "arg_char obj bufs who k w = do {
     (res, c, w) \<leftarrow> SWIG_AsVal_char obj w;
     if SWIG_IsOK res then k c w else arg_fail res bufs who w
   }"

definition arg_str ::
  "py_obj \<Rightarrow> (int \<times> char_ptr) list \<Rightarrow> string \<times> string \<times> string \<Rightarrow>
     (int \<Rightarrow> char_ptr \<Rightarrow> 'rb py_world \<Rightarrow> 'rb outcome) \<Rightarrow> 'rb py_world \<Rightarrow> 'rb outcome" where
  "arg_str obj bufs who k w = do {
     (res, p, _, alloc, w) \<leftarrow> SWIG_AsCharPtrAndSize obj w;
     if SWIG_IsOK res then k alloc p w else arg_fail res bufs who w
   }"

definition cleared :: "'rb py_world \<Rightarrow> 'rb js_world" where
  "cleared w = (js w)\<lparr>errors := clear_exception (errors (js w))\<rparr>"

text \<open>The check after the call; reading an unterminated message has no result.\<close>

definition after_call ::
  "'r \<times> 'rb js_world \<Rightarrow> ('r \<Rightarrow> 'rb py_world \<Rightarrow> 'rb outcome) \<Rightarrow> 'rb py_world \<Rightarrow> 'rb outcome" where
  "after_call called k w =
     (case called of (r, j) \<Rightarrow>
        (case check_exception (errors j) of
           None \<Rightarrow> k r (w\<lparr>js := j\<rparr>)
         | Some buf \<Rightarrow> do {
             err \<leftarrow> c_string buf;
             Some (Returned None, w\<lparr>js := j, py_err := Some (RuntimeError, err)\<rparr>)
           }))"

definition guarded ::
  "('rb js_world \<Rightarrow> ('r \<times> 'rb js_world) option) \<Rightarrow> ('r \<Rightarrow> 'rb py_world \<Rightarrow> 'rb outcome) \<Rightarrow>
     'rb py_world \<Rightarrow> 'rb outcome" where
  "guarded act k w = do { called \<leftarrow> act (cleared w); after_call called k w }"

text \<open>The same for a call that may end the process.\<close>

definition guarded_exit ::
  "('rb js_world \<Rightarrow> (int + ('r \<times> 'rb js_world)) option) \<Rightarrow> ('r \<Rightarrow> 'rb py_world \<Rightarrow> 'rb outcome) \<Rightarrow>
     'rb py_world \<Rightarrow> 'rb outcome" where
  "guarded_exit act k w = do {
     called \<leftarrow> act (cleared w);
     (case called of
        Inl code \<Rightarrow> Some (Exited code, w)
      | Inr called \<Rightarrow> after_call called k w)
   }"

definition return_obj :: "py_obj \<Rightarrow> (int \<times> char_ptr) list \<Rightarrow> 'rb py_world \<Rightarrow> 'rb outcome" where
  "return_obj obj bufs w = do { w \<leftarrow> free_bufs bufs w; Some (Returned (Some obj), w) }"

definition return_str :: "char_ptr \<Rightarrow> (int \<times> char_ptr) list \<Rightarrow> 'rb py_world \<Rightarrow> 'rb outcome" where
  "return_str p bufs w = do { obj \<leftarrow> SWIG_FromCharPtr p w; return_obj obj bufs w }"

definition return_ptr :: "ptr \<Rightarrow> addr \<Rightarrow> nat \<Rightarrow> (int \<times> char_ptr) list \<Rightarrow> 'rb py_world \<Rightarrow> 'rb outcome" where
  "return_ptr p ty flags bufs w = do {
     (obj, w) \<leftarrow> SWIG_NewPointerObj p ty flags w;
     w \<leftarrow> free_bufs bufs w;
     Some (Returned obj, w)
   }"

section \<open>Sample buffers\<close>

definition wrap_delete_JsPortBuffer :: "py_obj list \<Rightarrow> 'rb py_world \<Rightarrow> 'rb outcome" where
  "wrap_delete_JsPortBuffer args =
     parse_args 1 ''delete_JsPortBuffer'' args (\<lambda>obj.
     arg_ptr (obj 0) SWIGTYPE_p_JsPortBuffer SWIG_POINTER_DISOWN [] (''delete_JsPortBuffer'', ''1'', ''JsPortBuffer *'') (\<lambda>arg1.
     guarded (changes (delete_JsPortBuffer arg1)) (\<lambda>result.
     return_obj PyNone [])))"

definition wrap_JsPortBuffer_getf :: "py_obj list \<Rightarrow> 'rb py_world \<Rightarrow> 'rb outcome" where
  "wrap_JsPortBuffer_getf args =
     parse_args 2 ''JsPortBuffer_getf'' args (\<lambda>obj.
     arg_ptr (obj 0) SWIGTYPE_p_JsPortBuffer 0 [] (''JsPortBuffer_getf'', ''1'', ''JsPortBuffer *'') (\<lambda>arg1.
     arg_uint (obj 1) [] (''JsPortBuffer_getf'', ''2'', ''unsigned int'') (\<lambda>arg2.
     guarded (reads (JsPortBuffer_getf arg1 arg2)) (\<lambda>result.
     return_ptr result SWIGTYPE_p_float 0 []))))"

definition wrap_JsPortBuffer_setf :: "py_obj list \<Rightarrow> 'rb py_world \<Rightarrow> 'rb outcome" where
  "wrap_JsPortBuffer_setf args =
     parse_args 3 ''JsPortBuffer_setf'' args (\<lambda>obj.
     arg_ptr (obj 0) SWIGTYPE_p_JsPortBuffer 0 [] (''JsPortBuffer_setf'', ''1'', ''JsPortBuffer *'') (\<lambda>arg1.
     arg_uint (obj 1) [] (''JsPortBuffer_setf'', ''2'', ''unsigned int'') (\<lambda>arg2.
     arg_float (obj 2) [] (''JsPortBuffer_setf'', ''3'', ''float'') (\<lambda>arg3.
     guarded (changes (JsPortBuffer_setf arg1 arg2)) (\<lambda>result.
     return_obj PyNone [])))))"

definition wrap_JsPortBuffer_length :: "py_obj list \<Rightarrow> 'rb py_world \<Rightarrow> 'rb outcome" where
  "wrap_JsPortBuffer_length args =
     parse_args 1 ''JsPortBuffer_length'' args (\<lambda>obj.
     arg_ptr (obj 0) SWIGTYPE_p_JsPortBuffer 0 [] (''JsPortBuffer_length'', ''1'', ''JsPortBuffer *'') (\<lambda>arg1.
     guarded (reads (JsPortBuffer_length arg1)) (\<lambda>result.
     return_obj (SWIG_From_unsigned_SS_int result) [])))"

definition wrap_JsPortBuffer_toHexString :: "'rb jack_api \<Rightarrow> py_obj list \<Rightarrow> 'rb py_world \<Rightarrow> 'rb outcome" where
  "wrap_JsPortBuffer_toHexString api args =
     parse_args 4 ''JsPortBuffer_toHexString'' args (\<lambda>obj.
     arg_ptr (obj 0) SWIGTYPE_p_JsPortBuffer 0 [] (''JsPortBuffer_toHexString'', ''1'', ''JsPortBuffer *'') (\<lambda>arg1.
     arg_uint (obj 1) [] (''JsPortBuffer_toHexString'', ''2'', ''unsigned int'') (\<lambda>arg2.
     arg_uint (obj 2) [] (''JsPortBuffer_toHexString'', ''3'', ''unsigned int'') (\<lambda>arg3.
     arg_char (obj 3) [] (''JsPortBuffer_toHexString'', ''4'', ''char'') (\<lambda>arg4.
     guarded (JsPortBuffer_toHexString api arg1 arg2 arg3 arg4) (\<lambda>result.
     return_str result []))))))"

definition wrap_new_JsPortBuffer :: "py_obj list \<Rightarrow> 'rb py_world \<Rightarrow> 'rb outcome" where
  "wrap_new_JsPortBuffer args =
     parse_args 0 ''new_JsPortBuffer'' args (\<lambda>obj.
     guarded (makes port_buffers (\<lambda>h w. w\<lparr>port_buffers := h\<rparr>) \<lparr>pb_framebuf = NULL, pb_len = 0\<rparr>) (\<lambda>result.
     return_ptr result SWIGTYPE_p_JsPortBuffer SWIG_POINTER_NEW []))"

section \<open>Latency ranges\<close>

definition wrap_delete_JsLatencyRange :: "py_obj list \<Rightarrow> 'rb py_world \<Rightarrow> 'rb outcome" where
  "wrap_delete_JsLatencyRange args =
     parse_args 1 ''delete_JsLatencyRange'' args (\<lambda>obj.
     arg_ptr (obj 0) SWIGTYPE_p_JsLatencyRange SWIG_POINTER_DISOWN [] (''delete_JsLatencyRange'', ''1'', ''JsLatencyRange *'') (\<lambda>arg1.
     guarded (changes (delete_JsLatencyRange arg1)) (\<lambda>result.
     return_obj PyNone [])))"

definition wrap_JsLatencyRange_min :: "py_obj list \<Rightarrow> 'rb py_world \<Rightarrow> 'rb outcome" where
  "wrap_JsLatencyRange_min args =
     parse_args 1 ''JsLatencyRange_min'' args (\<lambda>obj.
     arg_ptr (obj 0) SWIGTYPE_p_JsLatencyRange 0 [] (''JsLatencyRange_min'', ''1'', ''JsLatencyRange *'') (\<lambda>arg1.
     guarded (reads (JsLatencyRange_min arg1)) (\<lambda>result.
     return_obj (SWIG_From_int result) [])))"

definition wrap_JsLatencyRange_max :: "py_obj list \<Rightarrow> 'rb py_world \<Rightarrow> 'rb outcome" where
  "wrap_JsLatencyRange_max args =
     parse_args 1 ''JsLatencyRange_max'' args (\<lambda>obj.
     arg_ptr (obj 0) SWIGTYPE_p_JsLatencyRange 0 [] (''JsLatencyRange_max'', ''1'', ''JsLatencyRange *'') (\<lambda>arg1.
     guarded (reads (JsLatencyRange_max arg1)) (\<lambda>result.
     return_obj (SWIG_From_int result) [])))"

definition wrap_new_JsLatencyRange :: "py_obj list \<Rightarrow> 'rb py_world \<Rightarrow> 'rb outcome" where
  "wrap_new_JsLatencyRange args =
     parse_args 0 ''new_JsLatencyRange'' args (\<lambda>obj.
     guarded (makes latency_ranges (\<lambda>h w. w\<lparr>latency_ranges := h\<rparr>) \<lparr>lr_rmin = 0, lr_rmax = 0\<rparr>) (\<lambda>result.
     return_ptr result SWIGTYPE_p_JsLatencyRange SWIG_POINTER_NEW []))"

section \<open>Lists of names\<close>

definition wrap_delete_StringList :: "py_obj list \<Rightarrow> 'rb py_world \<Rightarrow> 'rb outcome" where
  "wrap_delete_StringList args =
     parse_args 1 ''delete_StringList'' args (\<lambda>obj.
     arg_ptr (obj 0) SWIGTYPE_p_StringList SWIG_POINTER_DISOWN [] (''delete_StringList'', ''1'', ''StringList *'') (\<lambda>arg1.
     guarded (changes (delete_StringList arg1)) (\<lambda>result.
     return_obj PyNone [])))"

definition wrap_StringList_get :: "py_obj list \<Rightarrow> 'rb py_world \<Rightarrow> 'rb outcome" where
  "wrap_StringList_get args =
     parse_args 2 ''StringList_get'' args (\<lambda>obj.
     arg_ptr (obj 0) SWIGTYPE_p_StringList 0 [] (''StringList_get'', ''1'', ''StringList *'') (\<lambda>arg1.
     arg_int (obj 1) [] (''StringList_get'', ''2'', ''int'') (\<lambda>arg2.
     guarded (reads (StringList_get arg1 arg2)) (\<lambda>result.
     return_str result []))))"

definition wrap_StringList_length :: "py_obj list \<Rightarrow> 'rb py_world \<Rightarrow> 'rb outcome" where
  "wrap_StringList_length args =
     parse_args 1 ''StringList_length'' args (\<lambda>obj.
     arg_ptr (obj 0) SWIGTYPE_p_StringList 0 [] (''StringList_length'', ''1'', ''StringList *'') (\<lambda>arg1.
     guarded (StringList_length arg1) (\<lambda>result.
     return_obj (SWIG_From_size_t result) [])))"

definition wrap_new_StringList :: "py_obj list \<Rightarrow> 'rb py_world \<Rightarrow> 'rb outcome" where
  "wrap_new_StringList args =
     parse_args 0 ''new_StringList'' args (\<lambda>obj.
     guarded (makes string_lists (\<lambda>h w. w\<lparr>string_lists := h\<rparr>) \<lparr>sl_impl = None, sl_len = 0\<rparr>) (\<lambda>result.
     return_ptr result SWIGTYPE_p_StringList SWIG_POINTER_NEW []))"

section \<open>Ports\<close>

definition wrap_delete_JsPort :: "py_obj list \<Rightarrow> 'rb py_world \<Rightarrow> 'rb outcome" where
  "wrap_delete_JsPort args =
     parse_args 1 ''delete_JsPort'' args (\<lambda>obj.
     arg_ptr (obj 0) SWIGTYPE_p_JsPort SWIG_POINTER_DISOWN [] (''delete_JsPort'', ''1'', ''JsPort *'') (\<lambda>arg1.
     guarded (changes (delete_JsPort arg1)) (\<lambda>result.
     return_obj PyNone [])))"

definition wrap_JsPort_getBuffer :: "'rb jack_api \<Rightarrow> py_obj list \<Rightarrow> 'rb py_world \<Rightarrow> 'rb outcome" where
  "wrap_JsPort_getBuffer api args =
     parse_args 1 ''JsPort_getBuffer'' args (\<lambda>obj.
     arg_ptr (obj 0) SWIGTYPE_p_JsPort 0 [] (''JsPort_getBuffer'', ''1'', ''JsPort *'') (\<lambda>arg1.
     guarded (JsPort_getBuffer api arg1) (\<lambda>result.
     return_ptr result SWIGTYPE_p_JsPortBuffer 0 [])))"

definition wrap_JsPort_name :: "'rb jack_api \<Rightarrow> py_obj list \<Rightarrow> 'rb py_world \<Rightarrow> 'rb outcome" where
  "wrap_JsPort_name api args =
     parse_args 1 ''JsPort_name'' args (\<lambda>obj.
     arg_ptr (obj 0) SWIGTYPE_p_JsPort 0 [] (''JsPort_name'', ''1'', ''JsPort *'') (\<lambda>arg1.
     guarded (reads (JsPort_name api arg1)) (\<lambda>result.
     return_str result [])))"

definition wrap_JsPort_connect :: "'rb jack_api \<Rightarrow> py_obj list \<Rightarrow> 'rb py_world \<Rightarrow> 'rb outcome" where
  "wrap_JsPort_connect api args =
     parse_args 2 ''JsPort_connect'' args (\<lambda>obj.
     arg_ptr (obj 0) SWIGTYPE_p_JsPort 0 [] (''JsPort_connect'', ''1'', ''JsPort *'') (\<lambda>arg1.
     arg_ptr (obj 1) SWIGTYPE_p_JsPort 0 [] (''JsPort_connect'', ''2'', ''JsPort *'') (\<lambda>arg2.
     guarded (JsPort_connect api arg1 arg2) (\<lambda>result.
     return_obj (SWIG_From_int result) []))))"

definition wrap_JsPort_getLatencyRange :: "'rb jack_api \<Rightarrow> py_obj list \<Rightarrow> 'rb py_world \<Rightarrow> 'rb outcome" where
  "wrap_JsPort_getLatencyRange api args =
     parse_args 2 ''JsPort_getLatencyRange'' args (\<lambda>obj.
     arg_ptr (obj 0) SWIGTYPE_p_JsPort 0 [] (''JsPort_getLatencyRange'', ''1'', ''JsPort *'') (\<lambda>arg1.
     arg_int (obj 1) [] (''JsPort_getLatencyRange'', ''2'', ''enum JackLatencyCallbackMode'') (\<lambda>arg2.
     guarded (JsPort_getLatencyRange api arg1 arg2) (\<lambda>result.
     return_ptr result SWIGTYPE_p_JsLatencyRange 0 []))))"

definition wrap_JsPort_setLatencyRange :: "py_obj list \<Rightarrow> 'rb py_world \<Rightarrow> 'rb outcome" where
  "wrap_JsPort_setLatencyRange args =
     parse_args 4 ''JsPort_setLatencyRange'' args (\<lambda>obj.
     arg_ptr (obj 0) SWIGTYPE_p_JsPort 0 [] (''JsPort_setLatencyRange'', ''1'', ''JsPort *'') (\<lambda>arg1.
     arg_int (obj 1) [] (''JsPort_setLatencyRange'', ''2'', ''enum JackLatencyCallbackMode'') (\<lambda>arg2.
     arg_int (obj 2) [] (''JsPort_setLatencyRange'', ''3'', ''int'') (\<lambda>arg3.
     arg_int (obj 3) [] (''JsPort_setLatencyRange'', ''4'', ''int'') (\<lambda>arg4.
     guarded (changes (JsPort_setLatencyRange arg1 arg2 arg3 arg4)) (\<lambda>result.
     return_obj PyNone []))))))"

definition wrap_JsPort_wakeupLatencyCallbacks :: "py_obj list \<Rightarrow> 'rb py_world \<Rightarrow> 'rb outcome" where
  "wrap_JsPort_wakeupLatencyCallbacks args =
     parse_args 1 ''JsPort_wakeupLatencyCallbacks'' args (\<lambda>obj.
     arg_ptr (obj 0) SWIGTYPE_p_JsPort 0 [] (''JsPort_wakeupLatencyCallbacks'', ''1'', ''JsPort *'') (\<lambda>arg1.
     guarded (changes (JsPort_wakeupLatencyCallbacks arg1)) (\<lambda>result.
     return_obj PyNone [])))"

definition wrap_JsPort_wakeupSigLatencyCallback :: "py_obj list \<Rightarrow> 'rb py_world \<Rightarrow> 'rb outcome" where
  "wrap_JsPort_wakeupSigLatencyCallback args =
     parse_args 1 ''JsPort_wakeupSigLatencyCallback'' args (\<lambda>obj.
     arg_ptr (obj 0) SWIGTYPE_p_JsPort 0 [] (''JsPort_wakeupSigLatencyCallback'', ''1'', ''JsPort *'') (\<lambda>arg1.
     guarded (changes (JsPort_wakeupSigLatencyCallback arg1)) (\<lambda>result.
     return_obj PyNone [])))"

definition wrap_JsPort_initCaptureLatencyListener :: "'rb jack_api \<Rightarrow> py_obj list \<Rightarrow> 'rb py_world \<Rightarrow> 'rb outcome" where
  "wrap_JsPort_initCaptureLatencyListener api args =
     parse_args 1 ''JsPort_initCaptureLatencyListener'' args (\<lambda>obj.
     arg_ptr (obj 0) SWIGTYPE_p_JsPort 0 [] (''JsPort_initCaptureLatencyListener'', ''1'', ''JsPort *'') (\<lambda>arg1.
     guarded (JsPort_initCaptureLatencyListener api arg1) (\<lambda>result.
     return_obj (SWIG_From_int result) [])))"

definition wrap_JsPort_initPlaybackLatencyListener :: "'rb jack_api \<Rightarrow> py_obj list \<Rightarrow> 'rb py_world \<Rightarrow> 'rb outcome" where
  "wrap_JsPort_initPlaybackLatencyListener api args =
     parse_args 1 ''JsPort_initPlaybackLatencyListener'' args (\<lambda>obj.
     arg_ptr (obj 0) SWIGTYPE_p_JsPort 0 [] (''JsPort_initPlaybackLatencyListener'', ''1'', ''JsPort *'') (\<lambda>arg1.
     guarded (JsPort_initPlaybackLatencyListener api arg1) (\<lambda>result.
     return_obj (SWIG_From_int result) [])))"

definition wrap_JsPort_initLatencyListener :: "'rb jack_api \<Rightarrow> py_obj list \<Rightarrow> 'rb py_world \<Rightarrow> 'rb outcome" where
  "wrap_JsPort_initLatencyListener api args =
     parse_args 1 ''JsPort_initLatencyListener'' args (\<lambda>obj.
     arg_ptr (obj 0) SWIGTYPE_p_JsPort 0 [] (''JsPort_initLatencyListener'', ''1'', ''JsPort *'') (\<lambda>arg1.
     guarded (JsPort_initLatencyListener api arg1) (\<lambda>result.
     return_obj (SWIG_From_int result) [])))"

definition wrap_new_JsPort :: "py_obj list \<Rightarrow> 'rb py_world \<Rightarrow> 'rb outcome" where
  "wrap_new_JsPort args =
     parse_args 0 ''new_JsPort'' args (\<lambda>obj.
     guarded (makes js_ports (\<lambda>h w. w\<lparr>js_ports := h\<rparr>) \<lparr>jp_impl = NULL, jp_clientimpl = NULL\<rparr>) (\<lambda>result.
     return_ptr result SWIGTYPE_p_JsPort SWIG_POINTER_NEW []))"

section \<open>Events\<close>

definition wrap_delete_JsEvent :: "py_obj list \<Rightarrow> 'rb py_world \<Rightarrow> 'rb outcome" where
  "wrap_delete_JsEvent args =
     parse_args 1 ''delete_JsEvent'' args (\<lambda>obj.
     arg_ptr (obj 0) SWIGTYPE_p_JsEvent SWIG_POINTER_DISOWN [] (''delete_JsEvent'', ''1'', ''JsEvent *'') (\<lambda>arg1.
     guarded (changes (delete_JsEvent arg1)) (\<lambda>result.
     return_obj PyNone [])))"

definition wrap_JsEvent_getType :: "py_obj list \<Rightarrow> 'rb py_world \<Rightarrow> 'rb outcome" where
  "wrap_JsEvent_getType args =
     parse_args 1 ''JsEvent_getType'' args (\<lambda>obj.
     arg_ptr (obj 0) SWIGTYPE_p_JsEvent 0 [] (''JsEvent_getType'', ''1'', ''JsEvent *'') (\<lambda>arg1.
     guarded (reads (JsEvent_getType arg1)) (\<lambda>result.
     return_obj (SWIG_From_int result) [])))"

definition wrap_JsEvent_getData :: "py_obj list \<Rightarrow> 'rb py_world \<Rightarrow> 'rb outcome" where
  "wrap_JsEvent_getData args =
     parse_args 1 ''JsEvent_getData'' args (\<lambda>obj.
     arg_ptr (obj 0) SWIGTYPE_p_JsEvent 0 [] (''JsEvent_getData'', ''1'', ''JsEvent *'') (\<lambda>arg1.
     guarded (reads (JsEvent_getData arg1)) (\<lambda>result.
     return_ptr result SWIGTYPE_p_void 0 [])))"

definition wrap_JsEvent_complete :: "py_obj list \<Rightarrow> 'rb py_world \<Rightarrow> 'rb outcome" where
  "wrap_JsEvent_complete args =
     parse_args 1 ''JsEvent_complete'' args (\<lambda>obj.
     arg_ptr (obj 0) SWIGTYPE_p_JsEvent 0 [] (''JsEvent_complete'', ''1'', ''JsEvent *'') (\<lambda>arg1.
     guarded (changes (JsEvent_complete arg1)) (\<lambda>result.
     return_obj PyNone [])))"

definition wrap_JsEvent_getSessionEventType :: "py_obj list \<Rightarrow> 'rb py_world \<Rightarrow> 'rb outcome" where
  "wrap_JsEvent_getSessionEventType args =
     parse_args 1 ''JsEvent_getSessionEventType'' args (\<lambda>obj.
     arg_ptr (obj 0) SWIGTYPE_p_JsEvent 0 [] (''JsEvent_getSessionEventType'', ''1'', ''JsEvent *'') (\<lambda>arg1.
     guarded (JsEvent_getSessionEventType arg1) (\<lambda>result.
     return_obj (SWIG_From_int result) [])))"

definition wrap_JsEvent_getSessionDir :: "py_obj list \<Rightarrow> 'rb py_world \<Rightarrow> 'rb outcome" where
  "wrap_JsEvent_getSessionDir args =
     parse_args 1 ''JsEvent_getSessionDir'' args (\<lambda>obj.
     arg_ptr (obj 0) SWIGTYPE_p_JsEvent 0 [] (''JsEvent_getSessionDir'', ''1'', ''JsEvent *'') (\<lambda>arg1.
     guarded (JsEvent_getSessionDir arg1) (\<lambda>result.
     return_str result [])))"

definition wrap_JsEvent_setSessionDir :: "py_obj list \<Rightarrow> 'rb py_world \<Rightarrow> 'rb outcome" where
  "wrap_JsEvent_setSessionDir args =
     parse_args 2 ''JsEvent_setSessionDir'' args (\<lambda>obj.
     arg_ptr (obj 0) SWIGTYPE_p_JsEvent 0 [] (''JsEvent_setSessionDir'', ''1'', ''JsEvent *'') (\<lambda>arg1.
     arg_str (obj 1) [] (''JsEvent_setSessionDir'', ''2'', ''char const *'') (\<lambda>alloc2 arg2.
     guarded (changes (JsEvent_setSessionDir arg1 arg2)) (\<lambda>result.
     return_obj PyNone [(alloc2, arg2)]))))"

definition wrap_JsEvent_getClientUuid :: "py_obj list \<Rightarrow> 'rb py_world \<Rightarrow> 'rb outcome" where
  "wrap_JsEvent_getClientUuid args =
     parse_args 1 ''JsEvent_getClientUuid'' args (\<lambda>obj.
     arg_ptr (obj 0) SWIGTYPE_p_JsEvent 0 [] (''JsEvent_getClientUuid'', ''1'', ''JsEvent *'') (\<lambda>arg1.
     guarded (JsEvent_getClientUuid arg1) (\<lambda>result.
     return_str result [])))"

definition wrap_JsEvent_setClientUuid :: "py_obj list \<Rightarrow> 'rb py_world \<Rightarrow> 'rb outcome" where
  "wrap_JsEvent_setClientUuid args =
     parse_args 2 ''JsEvent_setClientUuid'' args (\<lambda>obj.
     arg_ptr (obj 0) SWIGTYPE_p_JsEvent 0 [] (''JsEvent_setClientUuid'', ''1'', ''JsEvent *'') (\<lambda>arg1.
     arg_str (obj 1) [] (''JsEvent_setClientUuid'', ''2'', ''char const *'') (\<lambda>alloc2 arg2.
     guarded (changes (JsEvent_setClientUuid arg1 arg2)) (\<lambda>result.
     return_obj PyNone [(alloc2, arg2)]))))"

definition wrap_JsEvent_getCommandLine :: "py_obj list \<Rightarrow> 'rb py_world \<Rightarrow> 'rb outcome" where
  "wrap_JsEvent_getCommandLine args =
     parse_args 1 ''JsEvent_getCommandLine'' args (\<lambda>obj.
     arg_ptr (obj 0) SWIGTYPE_p_JsEvent 0 [] (''JsEvent_getCommandLine'', ''1'', ''JsEvent *'') (\<lambda>arg1.
     guarded (JsEvent_getCommandLine arg1) (\<lambda>result.
     return_str result [])))"

definition wrap_JsEvent_setCommandLine :: "py_obj list \<Rightarrow> 'rb py_world \<Rightarrow> 'rb outcome" where
  "wrap_JsEvent_setCommandLine args =
     parse_args 2 ''JsEvent_setCommandLine'' args (\<lambda>obj.
     arg_ptr (obj 0) SWIGTYPE_p_JsEvent 0 [] (''JsEvent_setCommandLine'', ''1'', ''JsEvent *'') (\<lambda>arg1.
     arg_str (obj 1) [] (''JsEvent_setCommandLine'', ''2'', ''char *'') (\<lambda>alloc2 arg2.
     guarded (changes (JsEvent_setCommandLine arg1 arg2)) (\<lambda>result.
     return_obj PyNone [(alloc2, arg2)]))))"

definition wrap_JsEvent_getSessionEventFlags :: "py_obj list \<Rightarrow> 'rb py_world \<Rightarrow> 'rb outcome" where
  "wrap_JsEvent_getSessionEventFlags args =
     parse_args 1 ''JsEvent_getSessionEventFlags'' args (\<lambda>obj.
     arg_ptr (obj 0) SWIGTYPE_p_JsEvent 0 [] (''JsEvent_getSessionEventFlags'', ''1'', ''JsEvent *'') (\<lambda>arg1.
     guarded (JsEvent_getSessionEventFlags arg1) (\<lambda>result.
     return_obj (SWIG_From_int result) [])))"

definition wrap_JsEvent_setSessionEventFlags :: "py_obj list \<Rightarrow> 'rb py_world \<Rightarrow> 'rb outcome" where
  "wrap_JsEvent_setSessionEventFlags args =
     parse_args 2 ''JsEvent_setSessionEventFlags'' args (\<lambda>obj.
     arg_ptr (obj 0) SWIGTYPE_p_JsEvent 0 [] (''JsEvent_setSessionEventFlags'', ''1'', ''JsEvent *'') (\<lambda>arg1.
     arg_int (obj 1) [] (''JsEvent_setSessionEventFlags'', ''2'', ''jack_session_flags_t'') (\<lambda>arg2.
     guarded (changes (JsEvent_setSessionEventFlags arg1 arg2)) (\<lambda>result.
     return_obj PyNone []))))"

definition wrap_new_JsEvent :: "py_obj list \<Rightarrow> 'rb py_world \<Rightarrow> 'rb outcome" where
  "wrap_new_JsEvent args =
     parse_args 0 ''new_JsEvent'' args (\<lambda>obj.
     guarded (makes js_events (\<lambda>h w. w\<lparr>js_events := h\<rparr>) \<lparr>jv_impl = NULL\<rparr>) (\<lambda>result.
     return_ptr result SWIGTYPE_p_JsEvent SWIG_POINTER_NEW []))"

section \<open>Clients\<close>

definition wrap_new_JsClient :: "'rb jack_api \<Rightarrow> py_obj list \<Rightarrow> 'rb py_world \<Rightarrow> 'rb outcome" where
  "wrap_new_JsClient api args =
     parse_args 4 ''new_JsClient'' args (\<lambda>obj.
     arg_str (obj 0) [] (''new_JsClient'', ''1'', ''char const *'') (\<lambda>alloc1 arg1.
     arg_str (obj 1) [(alloc1, arg1)] (''new_JsClient'', ''2'', ''char const *'') (\<lambda>alloc2 arg2.
     arg_int (obj 2) [(alloc1, arg1), (alloc2, arg2)] (''new_JsClient'', ''3'', ''jack_options_t'') (\<lambda>arg3.
     arg_uint (obj 3) [(alloc1, arg1), (alloc2, arg2)] (''new_JsClient'', ''4'', ''unsigned int'') (\<lambda>arg4.
     guarded_exit (new_JsClient api arg1 arg2 arg3 arg4) (\<lambda>result.
     return_ptr result SWIGTYPE_p_JsClient SWIG_POINTER_NEW [(alloc1, arg1), (alloc2, arg2)]))))))"

definition wrap_delete_JsClient :: "py_obj list \<Rightarrow> 'rb py_world \<Rightarrow> 'rb outcome" where
  "wrap_delete_JsClient args =
     parse_args 1 ''delete_JsClient'' args (\<lambda>obj.
     arg_ptr (obj 0) SWIGTYPE_p_JsClient SWIG_POINTER_DISOWN [] (''delete_JsClient'', ''1'', ''JsClient *'') (\<lambda>arg1.
     guarded (changes (delete_JsClient arg1)) (\<lambda>result.
     return_obj PyNone [])))"

definition wrap_JsClient_getPortNamesByType :: "'rb jack_api \<Rightarrow> py_obj list \<Rightarrow> 'rb py_world \<Rightarrow> 'rb outcome" where
  "wrap_JsClient_getPortNamesByType api args =
     parse_args 4 ''JsClient_getPortNamesByType'' args (\<lambda>obj.
     arg_ptr (obj 0) SWIGTYPE_p_JsClient 0 [] (''JsClient_getPortNamesByType'', ''1'', ''JsClient *'') (\<lambda>arg1.
     arg_str (obj 1) [] (''JsClient_getPortNamesByType'', ''2'', ''char const *'') (\<lambda>alloc2 arg2.
     arg_str (obj 2) [(alloc2, arg2)] (''JsClient_getPortNamesByType'', ''3'', ''char const *'') (\<lambda>alloc3 arg3.
     arg_int (obj 3) [(alloc2, arg2), (alloc3, arg3)] (''JsClient_getPortNamesByType'', ''4'', ''enum JackPortFlags'') (\<lambda>arg4.
     guarded (JsClient_getPortNamesByType api arg1 arg2 arg3 arg4) (\<lambda>result.
     return_ptr result SWIGTYPE_p_StringList 0 [(alloc2, arg2), (alloc3, arg3)]))))))"

definition wrap_JsClient_getPortNames :: "'rb jack_api \<Rightarrow> py_obj list \<Rightarrow> 'rb py_world \<Rightarrow> 'rb outcome" where
  "wrap_JsClient_getPortNames api args =
     parse_args 2 ''JsClient_getPortNames'' args (\<lambda>obj.
     arg_ptr (obj 0) SWIGTYPE_p_JsClient 0 [] (''JsClient_getPortNames'', ''1'', ''JsClient *'') (\<lambda>arg1.
     arg_str (obj 1) [] (''JsClient_getPortNames'', ''2'', ''char const *'') (\<lambda>alloc2 arg2.
     guarded (JsClient_getPortNames api arg1 arg2) (\<lambda>result.
     return_ptr result SWIGTYPE_p_StringList 0 [(alloc2, arg2)]))))"

definition wrap_JsClient_getPort :: "'rb jack_api \<Rightarrow> py_obj list \<Rightarrow> 'rb py_world \<Rightarrow> 'rb outcome" where
  "wrap_JsClient_getPort api args =
     parse_args 2 ''JsClient_getPort'' args (\<lambda>obj.
     arg_ptr (obj 0) SWIGTYPE_p_JsClient 0 [] (''JsClient_getPort'', ''1'', ''JsClient *'') (\<lambda>arg1.
     arg_str (obj 1) [] (''JsClient_getPort'', ''2'', ''char *'') (\<lambda>alloc2 arg2.
     guarded (JsClient_getPort api arg1 arg2) (\<lambda>result.
     return_ptr result SWIGTYPE_p_JsPort 0 [(alloc2, arg2)]))))"

definition wrap_JsClient_registerPort :: "'rb jack_api \<Rightarrow> py_obj list \<Rightarrow> 'rb py_world \<Rightarrow> 'rb outcome" where
  "wrap_JsClient_registerPort api args =
     parse_args 3 ''JsClient_registerPort'' args (\<lambda>obj.
     arg_ptr (obj 0) SWIGTYPE_p_JsClient 0 [] (''JsClient_registerPort'', ''1'', ''JsClient *'') (\<lambda>arg1.
     arg_str (obj 1) [] (''JsClient_registerPort'', ''2'', ''char *'') (\<lambda>alloc2 arg2.
     arg_ulong (obj 2) [(alloc2, arg2)] (''JsClient_registerPort'', ''3'', ''unsigned long'') (\<lambda>arg3.
     guarded (JsClient_registerPort api arg1 arg2 arg3) (\<lambda>result.
     return_ptr result SWIGTYPE_p_JsPort 0 [(alloc2, arg2)])))))"

definition wrap_JsClient_getEvent :: "('rb jacks \<Rightarrow> 'rb jacks option) list \<Rightarrow> py_obj list \<Rightarrow> 'rb py_world \<Rightarrow> 'rb outcome" where
  "wrap_JsClient_getEvent env args =
     parse_args 2 ''JsClient_getEvent'' args (\<lambda>obj.
     arg_ptr (obj 0) SWIGTYPE_p_JsClient 0 [] (''JsClient_getEvent'', ''1'', ''JsClient *'') (\<lambda>arg1.
     arg_long (obj 1) [] (''JsClient_getEvent'', ''2'', ''long'') (\<lambda>arg2.
     guarded (JsClient_getEvent env arg1 arg2) (\<lambda>result.
     return_ptr result SWIGTYPE_p_JsEvent 0 []))))"

definition wrap_JsClient_getSampleRate :: "'rb jack_api \<Rightarrow> py_obj list \<Rightarrow> 'rb py_world \<Rightarrow> 'rb outcome" where
  "wrap_JsClient_getSampleRate api args =
     parse_args 1 ''JsClient_getSampleRate'' args (\<lambda>obj.
     arg_ptr (obj 0) SWIGTYPE_p_JsClient 0 [] (''JsClient_getSampleRate'', ''1'', ''JsClient *'') (\<lambda>arg1.
     guarded (reads (JsClient_getSampleRate api arg1)) (\<lambda>result.
     return_obj (SWIG_From_unsigned_SS_int result) [])))"

definition wrap_JsClient_activate :: "'rb jack_api \<Rightarrow> py_obj list \<Rightarrow> 'rb py_world \<Rightarrow> 'rb outcome" where
  "wrap_JsClient_activate api args =
     parse_args 1 ''JsClient_activate'' args (\<lambda>obj.
     arg_ptr (obj 0) SWIGTYPE_p_JsClient 0 [] (''JsClient_activate'', ''1'', ''JsClient *'') (\<lambda>arg1.
     guarded (JsClient_activate api arg1) (\<lambda>result.
     return_obj (SWIG_From_int result) [])))"

definition wrap_JsClient_getName :: "'rb jack_api \<Rightarrow> py_obj list \<Rightarrow> 'rb py_world \<Rightarrow> 'rb outcome" where
  "wrap_JsClient_getName api args =
     parse_args 1 ''JsClient_getName'' args (\<lambda>obj.
     arg_ptr (obj 0) SWIGTYPE_p_JsClient 0 [] (''JsClient_getName'', ''1'', ''JsClient *'') (\<lambda>arg1.
     guarded (reads (JsClient_getName api arg1)) (\<lambda>result.
     return_str result [])))"

definition wrap_JsClient_getTransportState :: "'rb jack_api \<Rightarrow> py_obj list \<Rightarrow> 'rb py_world \<Rightarrow> 'rb outcome" where
  "wrap_JsClient_getTransportState api args =
     parse_args 1 ''JsClient_getTransportState'' args (\<lambda>obj.
     arg_ptr (obj 0) SWIGTYPE_p_JsClient 0 [] (''JsClient_getTransportState'', ''1'', ''JsClient *'') (\<lambda>arg1.
     guarded (reads (JsClient_getTransportState api arg1)) (\<lambda>result.
     return_obj (SWIG_From_int result) [])))"

definition wrap_JsClient_recomputeLatencies :: "'rb jack_api \<Rightarrow> py_obj list \<Rightarrow> 'rb py_world \<Rightarrow> 'rb outcome" where
  "wrap_JsClient_recomputeLatencies api args =
     parse_args 1 ''JsClient_recomputeLatencies'' args (\<lambda>obj.
     arg_ptr (obj 0) SWIGTYPE_p_JsClient 0 [] (''JsClient_recomputeLatencies'', ''1'', ''JsClient *'') (\<lambda>arg1.
     guarded (changes (JsClient_recomputeLatencies api arg1)) (\<lambda>result.
     return_obj PyNone [])))"


section \<open>Registration of the classes\<close>

text \<open>
  \<open>X_swigregister\<close>: the class object becomes the client data of the type; \<open>data\<close> is where
  the runtime keeps it.
\<close>

definition swigregister :: "addr \<Rightarrow> ptr \<Rightarrow> 'rb py_world \<Rightarrow> 'rb outcome" where
  "swigregister ty data w = do {
     h \<leftarrow> SWIG_TypeNewClientData ty data (rt w);
     Some (Returned (Some PyNone), w\<lparr>rt := h\<rparr>)
   }"

text \<open>The destructor each class brings along, by the type of its proxies.\<close>

definition swig_destroy :: "addr \<Rightarrow> (py_obj list \<Rightarrow> 'rb py_world \<Rightarrow> 'rb outcome) option" where
  "swig_destroy ty =
     (if ty = SWIGTYPE_p_JsClient then Some wrap_delete_JsClient
      else if ty = SWIGTYPE_p_JsEvent then Some wrap_delete_JsEvent
      else if ty = SWIGTYPE_p_JsLatencyRange then Some wrap_delete_JsLatencyRange
      else if ty = SWIGTYPE_p_JsPort then Some wrap_delete_JsPort
      else if ty = SWIGTYPE_p_JsPortBuffer then Some wrap_delete_JsPortBuffer
      else if ty = SWIGTYPE_p_StringList then Some wrap_delete_StringList
      else None)"

end
