(* ===== verification/PyWrap_Correct.thy ===== *)
theory PyWrap_Correct
  imports PyWrap
begin

text \<open>
  Lemmas on the wrapper protocol: what converting a proxy does, in the module's own type table
  and whatever classes are registered; the error channel around a call; the strings a call
  borrows; and the integers.
\<close>

section \<open>The type table of the module\<close>

text \<open>The table of the module with any registered classes (the client data of its types).\<close>

definition module_types :: "swig_heap \<Rightarrow> bool" where
  "module_types h \<longleftrightarrow> ci h = ci swig_heap0 \<and>
     (\<forall>a < 14. \<exists>t. ti h a = Some t \<and> ti_name t = Some (swig_type_names ! a) \<and> ti_cast t = Some a)"

lemma module_types0: "module_types swig_heap0"
  by (simp add: module_types_def swig_heap0_def)

lemma names_distinct: "distinct swig_type_names" "length swig_type_names = 14"
  by (simp_all add: swig_type_names_def)

lemma check_other_type:
  assumes "module_types h" "a < 14" "t < 14" "a \<noteq> t"
  shows "SWIG_TypeCheck (swig_type_names ! a) (Some t) h = Some (NULL, h)"
proof -
  obtain ty where t: "ti h t = Some ty" "ti_name ty = Some (swig_type_names ! t)" "ti_cast ty = Some t"
    using assms(1,3) by (auto simp: module_types_def)
  have c: "ci h t = Some \<lparr>ci_type = t, ci_converter = None, ci_next = NULL, ci_prev = NULL\<rparr>"
    using assms(1,3) by (simp add: module_types_def swig_heap0_def)
  have "swig_type_names ! t \<noteq> swig_type_names ! a"
    using names_distinct assms(2-4) by (simp add: nth_eq_iff_index_eq)
  then have "check_loop (name_is (swig_type_names ! a)) t (Some t) h = Some (NULL, h)"
    by (subst check_loop.simps, simp add: c name_is_def t) (subst check_loop.simps, simp)
  then show ?thesis by (simp add: SWIG_TypeCheck_def t)
qed

lemmas py_type_defs = SWIGTYPE_p_JsClient_def SWIGTYPE_p_JsEvent_def SWIGTYPE_p_JsLatencyRange_def
  SWIGTYPE_p_JsPort_def SWIGTYPE_p_JsPortBuffer_def SWIGTYPE_p_StringList_def SWIGTYPE_p_void_def

text \<open>The function of the library that deletes an object of class \<open>c\<close>.\<close>

definition library_delete :: "addr \<Rightarrow> ptr \<Rightarrow> 'rb js_world \<Rightarrow> 'rb js_world option" where
  "library_delete c =
     (if c = SWIGTYPE_p_JsClient then delete_JsClient else if c = SWIGTYPE_p_JsEvent then delete_JsEvent
      else if c = SWIGTYPE_p_JsLatencyRange then delete_JsLatencyRange else if c = SWIGTYPE_p_JsPort then delete_JsPort
      else if c = SWIGTYPE_p_JsPortBuffer then delete_JsPortBuffer else delete_StringList)"

section \<open>Converting proxies\<close>

definition disowned :: "addr \<Rightarrow> 'rb py_world \<Rightarrow> 'rb py_world" where
  "disowned v w =
     w\<lparr>proxies := (proxies w)\<lparr>objs := (objs (proxies w))(v \<mapsto> (the (objs (proxies w) v))\<lparr>so_own := 0\<rparr>)\<rparr>\<rparr>"

lemma disowned_simps [simp]:
  "js (disowned v w) = js w" "rt (disowned v w) = rt w" "py_err (disowned v w) = py_err w"
  "objs (proxies w) v = Some x \<Longrightarrow>
     objs (proxies (disowned v w)) = (objs (proxies w))(v \<mapsto> x\<lparr>so_own := 0\<rparr>)"
  by (simp_all add: disowned_def)

lemma convert_own_type:
  assumes "objs (proxies w) v = Some x" "so_ty x = t"
  shows "SWIG_ConvertPtr (PyProxy v) (Some t) 0 w = Some (0, so_ptr x, w)"
    "SWIG_ConvertPtr (PyProxy v) (Some t) SWIG_POINTER_DISOWN w = Some (0, so_ptr x, disowned v w)"
proof -
  have l: "convert_loop (Some t) (Some v) w = Some (Some v, so_ptr x, w)"
    using assms by (subst convert_loop.simps) simp
  show "SWIG_ConvertPtr (PyProxy v) (Some t) 0 w = Some (0, so_ptr x, w)"
    using l assms(1) by (simp add: SWIG_ConvertPtr_def SWIG_Python_GetSwigThis_def)
  show "SWIG_ConvertPtr (PyProxy v) (Some t) SWIG_POINTER_DISOWN w = Some (0, so_ptr x, disowned v w)"
    using l assms(1)
    by (simp add: SWIG_ConvertPtr_def SWIG_Python_GetSwigThis_def SWIG_POINTER_DISOWN_def put_obj_def disowned_def)
qed

lemma convert_wrong_type:
  assumes "module_types (rt w)" "objs (proxies w) v = Some x" "so_next x = NULL" "so_ty x < 14" "t < 14" "so_ty x \<noteq> t"
  shows "SWIG_ConvertPtr (PyProxy v) (Some t) flags w = Some (- 1, NULL, w)"
proof -
  obtain ty where ty: "ti (rt w) (so_ty x) = Some ty" "ti_name ty = Some (swig_type_names ! so_ty x)"
    using assms(1,4) by (auto simp: module_types_def)
  have "convert_loop (Some t) NULL w = Some (NULL, NULL, w)" by (subst convert_loop.simps) simp
  moreover have "w\<lparr>rt := rt w\<rparr> = w" by simp
  ultimately have "convert_loop (Some t) (Some v) w = Some (NULL, NULL, w)"
    using assms(2,3,6) ty check_other_type [OF assms(1,4,5,6)] by (subst convert_loop.simps) simp
  then show ?thesis by (simp add: SWIG_ConvertPtr_def SWIG_Python_GetSwigThis_def)
qed

text \<open>Objects that are no proxies never convert, \<open>None\<close> converts to the null pointer.\<close>

fun plain_value :: "py_obj \<Rightarrow> bool" where
  "plain_value (PyInt n) = True"
| "plain_value (PyFloat d) = True"
| "plain_value (PyStr s) = True"
| "plain_value (PyOther dict) = True"
| "plain_value _ = False"

lemma convert_plain:
  "plain_value obj \<Longrightarrow> SWIG_ConvertPtr obj t flags w = Some (- 1, NULL, if obj = PyOther True then w else w\<lparr>py_err := None\<rparr>)"
  by (cases obj) (auto simp: SWIG_ConvertPtr_def SWIG_Python_GetSwigThis_def convert_loop.simps split: bool.splits)

section \<open>The protocol\<close>

lemma parse_1 [simp]: "parse_args 1 meth [a] k w = k (\<lambda>i. [a] ! i) w"
  and parse_1' [simp]: "parse_args (Suc 0) meth [a] k w = k (\<lambda>i. [a] ! i) w"
  and parse_2 [simp]: "parse_args 2 meth [a, b] k w = k (\<lambda>i. [a, b] ! i) w"
  by (simp_all add: parse_args_def)

lemma arg_ptr_own:
  assumes "objs (proxies w) v = Some x" "so_ty x = t"
  shows "arg_ptr (PyProxy v) t 0 bufs who k w = k (so_ptr x) w"
    "arg_ptr (PyProxy v) t SWIG_POINTER_DISOWN bufs who k w = k (so_ptr x) (disowned v w)"
  by (simp_all add: arg_ptr_def convert_own_type [OF assms] SWIG_IsOK_def)

lemma arg_ptr_wrong:
  assumes "module_types (rt w)" "objs (proxies w) v = Some x" "so_next x = NULL" "so_ty x < 14" "t < 14" "so_ty x \<noteq> t"
  shows "arg_ptr (PyProxy v) t flags [] who k w =
    Some (Returned None, w\<lparr>py_err := Some (TypeError, arg_message who)\<rparr>)"
  by (simp add: arg_ptr_def convert_wrong_type [OF assms] SWIG_IsOK_def arg_fail_def SWIG_Error_def
      SWIG_ArgError_def SWIG_ErrorType_def)

lemma arg_ptr_plain:
  "plain_value obj \<Longrightarrow> arg_ptr obj t flags [] who k w =
     Some (Returned None, w\<lparr>py_err := Some (TypeError, arg_message who)\<rparr>)"
  by (simp add: arg_ptr_def convert_plain SWIG_IsOK_def arg_fail_def SWIG_Error_def
      SWIG_ArgError_def SWIG_ErrorType_def)

lemma cleared_status: "error_status (errors (cleared w)) = 0"
  by (simp add: cleared_def clear_exception_def)

lemma cleared_sel [simp]:
  "core (cleared w) = core (js w)" "port_buffers (cleared w) = port_buffers (js w)"
  "js_ports (cleared w) = js_ports (js w)" "js_events (cleared w) = js_events (js w)"
  "js_clients (cleared w) = js_clients (js w)" "session_events (cleared w) = session_events (js w)"
  "cstrings (cleared w) = cstrings (js w)" "string_lists (cleared w) = string_lists (js w)"
  "latency_ranges (cleared w) = latency_ranges (js w)"
  by (simp_all add: cleared_def)

lemma after_call_ok: "error_status (errors j) = 0 \<Longrightarrow> after_call (r, j) k w = k r (w\<lparr>js := j\<rparr>)"
  by (simp add: after_call_def check_exception_def)

lemma after_call_error:
  "error_status (errors j) \<noteq> 0 \<Longrightarrow> c_string (error_message (errors j)) = Some err \<Longrightarrow>
     after_call (r, j) k w = Some (Returned None, w\<lparr>js := j, py_err := Some (RuntimeError, err)\<rparr>)"
  by (simp add: after_call_def check_exception_def)

section \<open>Integers\<close>

lemma as_val_int:
  "SWIG_AsVal_int (PyInt n) w =
     (if - (2 ^ 31) \<le> n \<and> n < 2 ^ 31 then (0, n, w)
      else if long_min \<le> n \<and> n \<le> long_max then (- 7, 0, w)
      else (0, - 1, w\<lparr>py_err := Some (OverflowError, ''Python int too large to convert to C long'')\<rparr>))"
  by (auto simp: SWIG_AsVal_int_def SWIG_AsVal_long_def PyLong_AsLong_def SWIG_IsOK_def long_min_def long_max_def)

lemma from_numbers: "SWIG_From_int n = PyInt n" "SWIG_From_unsigned_SS_int k = PyInt (uint k)" "SWIG_From_size_t m = PyInt (uint m)"
  by (simp_all add: SWIG_From_int_def SWIG_From_unsigned_SS_int_def SWIG_From_unsigned_SS_long_def SWIG_From_size_t_def
      uint_up_ucast is_up)

lemma as_val_uint:
  "SWIG_AsVal_unsigned_SS_int (PyInt n) w =
     (if 0 \<le> n \<and> n < 2 ^ 32 then (0, word_of_int n, w)
      else (- 7, 0, if long_min \<le> n \<and> n \<le> long_max then w
        else w\<lparr>py_err := Some (OverflowError, ''Python int too large to convert to C long'')\<rparr>))"
proof (cases "0 \<le> n \<and> n \<le> long_max")
  case True
  then have u: "uint (word_of_int n :: u64) = n"
    by (simp add: uint_word_of_int long_max_def)
  have big: "(4294967295 :: u64) < word_of_int n \<longleftrightarrow> 4294967295 < n" by (simp only: word_less_def u) simp
  have "ucast (word_of_int n :: u64) = (word_of_int n :: u32)" by (simp only: ucast_eq u)
  with True big show ?thesis
    by (auto simp: SWIG_AsVal_unsigned_SS_int_def SWIG_AsVal_unsigned_SS_long_def PyLong_AsLong_def SWIG_IsOK_def
        long_min_def long_max_def)
next
  case False
  then show ?thesis
    by (auto simp: SWIG_AsVal_unsigned_SS_int_def SWIG_AsVal_unsigned_SS_long_def PyLong_AsLong_def SWIG_IsOK_def
        long_min_def long_max_def)
qed

section \<open>Strings\<close>

lemma new_chars_ok:
  assumes "always_alloc (cstrings w)"
  shows "new_chars s w = (CHeap (next_addr (cstrings w)),
    w\<lparr>cstrings := (cstrings w)\<lparr>alloc_calls := Suc (alloc_calls (cstrings w)),
      objs := (objs (cstrings w))(next_addr (cstrings w) \<mapsto> s), next_addr := Suc (next_addr (cstrings w))\<rparr>\<rparr>)"
  using always_new [OF assms, of s] by (simp add: new_chars_def)

lemma as_char_ptr_str:
  assumes "always_alloc (cstrings (js w))"
  shows "SWIG_AsCharPtrAndSize (PyStr s) w =
    Some (0, fst (new_chars (s @ [NUL]) (js w)), length s + 1, SWIG_NEWOBJ, w\<lparr>js := snd (new_chars (s @ [NUL]) (js w))\<rparr>)"
  by (simp add: SWIG_AsCharPtrAndSize_def new_chars_ok [OF assms])

section \<open>Fresh objects\<close>

definition added :: "'a \<Rightarrow> 'a store \<Rightarrow> 'a store" where
  "added x h = h\<lparr>alloc_calls := Suc (alloc_calls h), objs := (objs h)(next_addr h \<mapsto> x), next_addr := Suc (next_addr h)\<rparr>"

lemma added_simps [simp]:
  "always_alloc (added x h) = always_alloc h" "objs (added x h) = (objs h)(next_addr h \<mapsto> x)"
  "next_addr (added x h) = Suc (next_addr h)" "put_obj (Some (next_addr h)) y (added x h) = Some (added y h)"
  by (simp_all add: added_def put_obj_def)

lemma new_added: "always_alloc h \<Longrightarrow> new_obj x h = (Some (next_addr h), added x h)"
  by (simp add: always_new added_def)

text \<open>A new proxy that does not own its pointer, as the getters return it.\<close>

definition with_proxy :: "addr \<Rightarrow> addr \<Rightarrow> 'rb py_world \<Rightarrow> 'rb py_world" where
  "with_proxy p ty w =
     w\<lparr>proxies := added \<lparr>so_ptr = Some p, so_ty = ty, so_own = 0, so_next = NULL\<rparr> (proxies w)\<rparr>"

lemma with_proxy_simps [simp]:
  "js (with_proxy p ty w) = js w" "rt (with_proxy p ty w) = rt w" "py_err (with_proxy p ty w) = py_err w"
  "proxies (with_proxy p ty w) = added \<lparr>so_ptr = Some p, so_ty = ty, so_own = 0, so_next = NULL\<rparr> (proxies w)"
  by (simp_all add: with_proxy_def)

lemma return_fresh:
  assumes "module_types (rt w)" "ty < 14" "always_alloc (proxies w)"
  shows "return_ptr (Some p) ty 0 [] w = Some (Returned (Some (PyProxy (next_addr (proxies w)))), with_proxy p ty w)"
proof -
  obtain t where "ti (rt w) ty = Some t" using assms(1,2) by (auto simp: module_types_def)
  then show ?thesis
    using assms(3) by (simp add: return_ptr_def SWIG_NewPointerObj_def SwigPyObject_New_def new_added with_proxy_def)
qed

section \<open>Getting events and samples\<close>

lemma get_event_wrapper:
  assumes "objs (proxies w) c = Some x" "so_ty x = SWIGTYPE_p_JsClient" "so_ptr x = Some p"
    "objs (js_clients (js w)) p = Some jc"
    "JacksRbClient_get_event env (jc_impl jc) t (core (js w)) = Some (ev, env', s')"
    "always_alloc (js_events (js w))" "always_alloc (proxies w)" "module_types (rt w)" "long_min \<le> t" "t \<le> long_max"
  shows "wrap_JsClient_getEvent env [PyProxy c, PyInt t] w =
    Some (Returned (Some (PyProxy (next_addr (proxies w)))),
      with_proxy (next_addr (js_events (js w))) SWIGTYPE_p_JsEvent
        (w\<lparr>js := (cleared w)\<lparr>core := s', js_events := added \<lparr>jv_impl = ev\<rparr> (js_events (js w))\<rparr>\<rparr>))"
proof -
  have "SWIG_AsVal_long (PyInt t) w = (0, t, w)"
    using assms(9,10) by (simp add: SWIG_AsVal_long_def PyLong_AsLong_def)
  moreover have "JsClient_getEvent env (Some p) t (cleared w) = Some (Some (next_addr (js_events (js w))),
      (cleared w)\<lparr>core := s', js_events := added \<lparr>jv_impl = ev\<rparr> (js_events (js w))\<rparr>)"
    using assms(4-6) by (simp add: JsClient_getEvent_def new_added)
  moreover have "SWIGTYPE_p_JsEvent < 14" by (simp add: SWIGTYPE_p_JsEvent_def)
  ultimately show ?thesis
    using assms(3,7,8) by (simp add: wrap_JsClient_getEvent_def arg_ptr_own [OF assms(1,2)] arg_val_def SWIG_IsOK_def
        guarded_def after_call_ok cleared_status return_fresh)
qed

lemma event_type_wrapper:
  assumes "objs (proxies w) v = Some x" "so_ty x = SWIGTYPE_p_JsEvent" "so_ptr x = Some p"
    "objs (js_events (js w)) p = Some jv" "JacksEvent_get_type (jv_impl jv) (events (core (js w))) = Some t"
  shows "wrap_JsEvent_getType [PyProxy v] w = Some (Returned (Some (PyInt t)), w\<lparr>js := cleared w\<rparr>)"
  using assms by (simp add: wrap_JsEvent_getType_def JsEvent_getType_def arg_ptr_own guarded_def reads_def
      after_call_ok cleared_status return_obj_def SWIG_From_int_def)

lemma get_buffer_wrapper:
  assumes "objs (proxies w) v = Some x" "so_ty x = SWIGTYPE_p_JsPort" "so_ptr x = Some p"
    "objs (js_ports (js w)) p = Some jp"
    "JacksRbPort_read_from_ringbuffer (j_ring api) (jp_impl jp) (port_store (core (js w))) = Some (Some buf, len, h)"
    "always_alloc (port_buffers (js w))" "always_alloc (proxies w)" "module_types (rt w)"
  shows "wrap_JsPort_getBuffer api [PyProxy v] w =
    Some (Returned (Some (PyProxy (next_addr (proxies w)))),
      with_proxy (next_addr (port_buffers (js w))) SWIGTYPE_p_JsPortBuffer
        (w\<lparr>js := (cleared w)\<lparr>port_buffers := added \<lparr>pb_framebuf = jp_impl jp, pb_len = len\<rparr> (port_buffers (js w)),
           core := (core (js w))\<lparr>port_store := h\<rparr>\<rparr>\<rparr>))"
proof -
  have "SWIGTYPE_p_JsPortBuffer < 14" by (simp add: SWIGTYPE_p_JsPortBuffer_def)
  moreover have "JsPort_getBuffer api (Some p) (cleared w) = Some (Some (next_addr (port_buffers (js w))),
      (cleared w)\<lparr>port_buffers := added \<lparr>pb_framebuf = jp_impl jp, pb_len = len\<rparr> (port_buffers (js w)),
        core := (core (js w))\<lparr>port_store := h\<rparr>\<rparr>)"
    using assms(4-6) by (simp add: JsPort_getBuffer_def new_added)
  ultimately show ?thesis
    using assms(3,7,8) by (simp add: wrap_JsPort_getBuffer_def arg_ptr_own [OF assms(1,2)]
        guarded_def after_call_ok cleared_status return_fresh)
qed

lemma buffer_length_wrapper:
  assumes "objs (proxies w) v = Some x" "so_ty x = SWIGTYPE_p_JsPortBuffer" "so_ptr x = Some p"
    "objs (port_buffers (js w)) p = Some b"
  shows "wrap_JsPortBuffer_length [PyProxy v] w =
    Some (Returned (Some (PyInt (uint (ucast (word_of_int (pb_len b) :: u32) :: u64)))), w\<lparr>js := cleared w\<rparr>)"
  using assms by (simp add: wrap_JsPortBuffer_length_def JsPortBuffer_length_def arg_ptr_own guarded_def reads_def
      after_call_ok cleared_status return_obj_def SWIG_From_unsigned_SS_int_def SWIG_From_unsigned_SS_long_def)

lemma read_is_shared:
  assumes "JacksRbPort_read_from_ringbuffer api this h = Some (Some buf, len, h')"
  shows "\<exists>p. get_obj this h' = Some p \<and> framebuf p = Some buf"
  using assms by (auto simp: JacksRbPort_read_from_ringbuffer_def bind_eq_Some_conv get_put Let_def split_beta)

lemma small_length:
  assumes "0 \<le> m" "m < 2 ^ 31"
  shows "uint (ucast (word_of_int m :: u32) :: u64) = m"
proof -
  have "uint (word_of_int m :: u32) = m" using assms by (simp add: uint_word_of_int)
  then show ?thesis using assms by (simp add: unsigned_ucast_eq take_bit_int_eq_self)
qed

section \<open>Destroying a port\<close>

text \<open>The module's state after \<open>JsPort\<close> number \<open>p\<close> and its port are freed.\<close>

definition without_port :: "addr \<Rightarrow> js_port \<Rightarrow> 'rb js_world \<Rightarrow> 'rb js_world" where
  "without_port p jp j =
     j\<lparr>core := (core j)\<lparr>port_store := (port_store (core j))\<lparr>objs := (objs (port_store (core j)))(the (jp_impl jp) := None)\<rparr>\<rparr>,
       js_ports := (js_ports j)\<lparr>objs := (objs (js_ports j))(p := None)\<rparr>\<rparr>"

lemma delete_JsPort_ok:
  assumes "objs (js_ports j) p = Some jp" "get_obj (jp_impl jp) (port_store (core j)) = Some impl"
  shows "delete_JsPort (Some p) j = Some (without_port p jp j)"
proof -
  obtain a where a: "jp_impl jp = Some a" using assms(2) by (cases "jp_impl jp") auto
  show ?thesis
    using assms a by (simp add: delete_JsPort_def JacksRbPort_free_def free_obj_def without_port_def)
qed

lemma delete_wrapper:
  assumes "objs (proxies w) v = Some x" "so_ty x = SWIGTYPE_p_JsPort" "so_ptr x = Some p"
    "objs (js_ports (js w)) p = Some jp" "get_obj (jp_impl jp) (port_store (core (js w))) = Some impl"
  shows "wrap_delete_JsPort [PyProxy v] w =
    Some (Returned (Some PyNone), (disowned v w)\<lparr>js := without_port p jp (cleared w)\<rparr>)"
proof -
  have c: "cleared (disowned v w) = cleared w" by (simp add: cleared_def)
  have "delete_JsPort (Some p) (cleared w) = Some (without_port p jp (cleared w))"
    by (rule delete_JsPort_ok) (use assms(4,5) in simp_all)
  then show ?thesis
    by (simp add: wrap_delete_JsPort_def arg_ptr_own(2) [OF assms(1,2)] assms(3) guarded_def changes_def c
        after_call_ok cleared_status without_port_def return_obj_def)
qed

section \<open>Session events\<close>

text \<open>A proxy of an event object whose event carries a session event of JACK.\<close>

definition session_proxy :: "addr \<Rightarrow> ptr \<Rightarrow> jack_session_event_T \<Rightarrow> 'rb py_world \<Rightarrow> bool" where
  "session_proxy v se s w \<longleftrightarrow>
     (\<exists>x p jv. objs (proxies w) v = Some x \<and> so_ty x = SWIGTYPE_p_JsEvent \<and> so_ptr x = Some p \<and>
        objs (js_events (js w)) p = Some jv \<and>
        JacksEvent_get_data (jv_impl jv) (events (core (js w))) = Some se \<and>
        get_obj se (session_events (js w)) = Some s)"

text \<open>The session event changed to \<open>s\<close>, the strings to \<open>h\<close>, no error.\<close>

definition session_put :: "ptr \<Rightarrow> jack_session_event_T \<Rightarrow> string store \<Rightarrow> 'rb py_world \<Rightarrow> 'rb py_world" where
  "session_put se s h w = w\<lparr>js := (cleared w)\<lparr>cstrings := h,
     session_events := (session_events (js w))\<lparr>objs := (objs (session_events (js w)))(the se \<mapsto> s)\<rparr>\<rparr>\<rparr>"

lemma session_proxy_put: "session_proxy v se s w \<Longrightarrow> session_proxy v se s' (session_put se s' h w)"
  by (cases se) (auto simp: session_proxy_def session_put_def)

lemma session_put_simps [simp]:
  "cstrings (js (session_put se s h w)) = h" "error_status (errors (js (session_put se s h w))) = 0"
  "w\<lparr>js := js (session_put se s h w)\<rparr> = session_put se s h w"
  "(js (session_put se s h w))\<lparr>cstrings := h'\<rparr> = js (session_put se s h' w)"
  "w\<lparr>js := j, js := j'\<rparr> = w\<lparr>js := j'\<rparr>"
  by (simp_all add: session_put_def cleared_status)

lemma session_access:
  assumes "session_proxy v se s w"
  obtains p where "\<And>bufs who k. arg_ptr (PyProxy v) SWIGTYPE_p_JsEvent 0 bufs who k w = k (Some p) w"
    "\<And>h. session_of (Some p) ((cleared w)\<lparr>cstrings := h\<rparr>) = Some (se, s, (cleared w)\<lparr>cstrings := h\<rparr>)"
    "se \<noteq> NULL"
proof -
  obtain x p jv where x: "objs (proxies w) v = Some x" "so_ty x = SWIGTYPE_p_JsEvent" "so_ptr x = Some p"
    and e: "objs (js_events (js w)) p = Some jv" "JacksEvent_get_data (jv_impl jv) (events (core (js w))) = Some se"
      "get_obj se (session_events (js w)) = Some s"
    using assms by (auto simp: session_proxy_def)
  have "se \<noteq> NULL" using e(3) by (cases se) simp_all
  with that [of p] show thesis using arg_ptr_own(1) [OF x(1,2)] x(3) e by (simp add: session_of_def)
qed

lemma clear_self: "(cleared w)\<lparr>cstrings := cstrings (js w)\<rparr> = cleared w"
  by (simp add: cleared_def)

text \<open>The getters of strings.\<close>

lemma session_get:
  assumes "session_proxy v se s w"
  shows "wrap_JsEvent_getSessionDir [PyProxy v] w = return_str (session_dir s) [] (w\<lparr>js := cleared w\<rparr>)"
    "wrap_JsEvent_getClientUuid [PyProxy v] w = return_str (client_uuid s) [] (w\<lparr>js := cleared w\<rparr>)"
    "wrap_JsEvent_getCommandLine [PyProxy v] w = return_str (command_line s) [] (w\<lparr>js := cleared w\<rparr>)"
proof -
  obtain p where p: "\<And>bufs who k. arg_ptr (PyProxy v) SWIGTYPE_p_JsEvent 0 bufs who k w = k (Some p) w"
    "\<And>h. session_of (Some p) ((cleared w)\<lparr>cstrings := h\<rparr>) = Some (se, s, (cleared w)\<lparr>cstrings := h\<rparr>)"
    by (rule session_access [OF assms]) (rule that)
  have s: "session_of (Some p) (cleared w) = Some (se, s, cleared w)"
    using p(2) [of "cstrings (js w)"] by (simp add: clear_self)
  note defs = p(1) guarded_def after_call_ok cleared_status s
  show "wrap_JsEvent_getSessionDir [PyProxy v] w = return_str (session_dir s) [] (w\<lparr>js := cleared w\<rparr>)"
    by (simp add: wrap_JsEvent_getSessionDir_def JsEvent_getSessionDir_def defs)
  show "wrap_JsEvent_getClientUuid [PyProxy v] w = return_str (client_uuid s) [] (w\<lparr>js := cleared w\<rparr>)"
    by (simp add: wrap_JsEvent_getClientUuid_def JsEvent_getClientUuid_def defs)
  show "wrap_JsEvent_getCommandLine [PyProxy v] w = return_str (command_line s) [] (w\<lparr>js := cleared w\<rparr>)"
    by (simp add: wrap_JsEvent_getCommandLine_def JsEvent_getCommandLine_def defs)
qed

text \<open>A string borrowed for a call: on the heap, then free again.\<close>

abbreviation pushed_string :: "string \<Rightarrow> string store \<Rightarrow> string store" where
  "pushed_string s h \<equiv> added (s @ [NUL]) h"

definition dropped_string :: "addr \<Rightarrow> string store \<Rightarrow> string store" where
  "dropped_string a h = h\<lparr>objs := (objs h)(a := None)\<rparr>"

lemma arg_str_text:
  assumes "always_alloc (cstrings (js w))"
  shows "arg_str (PyStr text) bufs who k w = k SWIG_NEWOBJ (CHeap (next_addr (cstrings (js w))))
    (w\<lparr>js := (js w)\<lparr>cstrings := pushed_string text (cstrings (js w))\<rparr>\<rparr>)"
  by (simp add: arg_str_def as_char_ptr_str [OF assms] new_chars_ok [OF assms] SWIG_IsOK_def added_def)

lemma cleared_strings: "cleared (w\<lparr>js := (js w)\<lparr>cstrings := h\<rparr>\<rparr>) = (cleared w)\<lparr>cstrings := h\<rparr>"
  by (simp add: cleared_def)

lemma free_text:
  assumes "objs (cstrings (js w)) a = Some x"
  shows "return_obj obj [(SWIG_NEWOBJ, CHeap a)] w =
    Some (Returned (Some obj), w\<lparr>js := (js w)\<lparr>cstrings := dropped_string a (cstrings (js w))\<rparr>\<rparr>)"
  using assms by (simp add: return_obj_def free_buf_def free_chars_def free_obj_def dropped_string_def)

lemma free_session:
  assumes "objs h a = Some x"
  shows "return_obj obj [(SWIG_NEWOBJ, CHeap a)] (session_put se s h w) =
    Some (Returned (Some obj), session_put se s (dropped_string a h) w)"
  using free_text [of "session_put se s h w" a x obj] assms by (simp add: session_put_def)

lemma take_text: "NUL \<notin> set text \<Longrightarrow> c_string (text @ [NUL]) = Some text"
  by (induction "text") (auto simp: c_string_def)

lemma session_set_dir:
  assumes "session_proxy v se s w" "always_alloc (cstrings (js w))"
  defines "a \<equiv> next_addr (cstrings (js w))"
  shows "wrap_JsEvent_setSessionDir [PyProxy v, PyStr text] w =
    Some (Returned (Some PyNone), session_put se (s\<lparr>session_dir := CHeap a\<rparr>)
      (dropped_string a (pushed_string text (cstrings (js w)))) w)"
proof -
  obtain p where p: "\<And>bufs who k. arg_ptr (PyProxy v) SWIGTYPE_p_JsEvent 0 bufs who k w = k (Some p) w"
    "\<And>h. session_of (Some p) ((cleared w)\<lparr>cstrings := h\<rparr>) = Some (se, s, (cleared w)\<lparr>cstrings := h\<rparr>)" "se \<noteq> NULL"
    by (rule session_access [OF assms(1)]) (rule that)
  have g: "get_obj se (session_events (js w)) = Some s" using assms(1) by (auto simp: session_proxy_def)
  have "JsEvent_setSessionDir (Some p) (CHeap a) ((cleared w)\<lparr>cstrings := h\<rparr>) =
      Some (js (session_put se (s\<lparr>session_dir := CHeap a\<rparr>) h w))" for h
    using put_get [OF g, of "s\<lparr>session_dir := CHeap a\<rparr>"]
    by (simp add: JsEvent_setSessionDir_def p(2) put_session_def session_put_def)
  moreover have str: "objs (pushed_string text (cstrings (js w))) a = Some (text @ [NUL])" by (simp add: a_def)
  ultimately show ?thesis
    by (simp add: wrap_JsEvent_setSessionDir_def p(1) arg_str_text [OF assms(2)] cleared_strings a_def [symmetric]
        guarded_def changes_def after_call_ok free_session [OF str])
qed

lemma session_set_command:
  assumes "session_proxy v se s w" "always_alloc (cstrings (js w))" "NUL \<notin> set text"
  defines "a \<equiv> next_addr (cstrings (js w))"
  shows "wrap_JsEvent_setCommandLine [PyProxy v, PyStr text] w =
    Some (Returned (Some PyNone), session_put se (s\<lparr>command_line := CHeap (Suc a)\<rparr>)
      (dropped_string a (pushed_string text (pushed_string text (cstrings (js w))))) w)"
proof -
  obtain p where p: "\<And>bufs who k. arg_ptr (PyProxy v) SWIGTYPE_p_JsEvent 0 bufs who k w = k (Some p) w"
    "\<And>h. session_of (Some p) ((cleared w)\<lparr>cstrings := h\<rparr>) = Some (se, s, (cleared w)\<lparr>cstrings := h\<rparr>)" "se \<noteq> NULL"
    by (rule session_access [OF assms(1)]) (rule that)
  have g: "get_obj se (session_events (js w)) = Some s" using assms(1) by (auto simp: session_proxy_def)
  let ?h = "pushed_string text (cstrings (js w))"
  have take: "c_string (text @ [NUL]) = Some text" by (rule take_text [OF assms(3)])
  have "JsEvent_setCommandLine (Some p) (CHeap a) ((cleared w)\<lparr>cstrings := ?h\<rparr>) =
      Some (js (session_put se (s\<lparr>command_line := CHeap (Suc a)\<rparr>) (pushed_string text ?h) w))"
    using put_get [OF g, of "s\<lparr>command_line := CHeap (Suc a)\<rparr>"] assms(2) take
    by (simp add: JsEvent_setCommandLine_def p(2) put_session_def session_put_def read_chars_def a_def
        new_chars_ok added_def)
  moreover have str: "objs (pushed_string text ?h) a = Some (text @ [NUL])" by (simp add: a_def)
  ultimately show ?thesis
    by (simp add: wrap_JsEvent_setCommandLine_def p(1) arg_str_text [OF assms(2)] cleared_strings a_def [symmetric]
        guarded_def changes_def after_call_ok free_session [OF str])
qed

lemma session_flags:
  assumes "session_proxy v se s w"
  shows "SWIG_AsVal_int obj w = (0, n, w\<lparr>py_err := e\<rparr>) \<Longrightarrow> wrap_JsEvent_setSessionEventFlags [PyProxy v, obj] w =
      Some (Returned (Some PyNone), session_put se (s\<lparr>se_flags := n\<rparr>) (cstrings (js w)) (w\<lparr>py_err := e\<rparr>))"
    "wrap_JsEvent_getSessionEventFlags [PyProxy v] w = Some (Returned (Some (PyInt (se_flags s))), w\<lparr>js := cleared w\<rparr>)"
proof -
  obtain p where p: "\<And>bufs who k. arg_ptr (PyProxy v) SWIGTYPE_p_JsEvent 0 bufs who k w = k (Some p) w"
    "\<And>h. session_of (Some p) ((cleared w)\<lparr>cstrings := h\<rparr>) = Some (se, s, (cleared w)\<lparr>cstrings := h\<rparr>)" "se \<noteq> NULL"
    by (rule session_access [OF assms]) (rule that)
  have g: "get_obj se (session_events (js w)) = Some s" using assms by (auto simp: session_proxy_def)
  have o: "session_of (Some p) (cleared w) = Some (se, s, cleared w)"
    using p(2) [of "cstrings (js w)"] by (simp add: clear_self)
  have c: "cleared (w\<lparr>py_err := e\<rparr>) = cleared w" by (simp add: cleared_def)
  have "JsEvent_setSessionEventFlags (Some p) n (cleared w) =
      Some (js (session_put se (s\<lparr>se_flags := n\<rparr>) (cstrings (js w)) (w\<lparr>py_err := e\<rparr>)))"
    using put_get [OF g, of "s\<lparr>se_flags := n\<rparr>"]
    by (simp add: JsEvent_setSessionEventFlags_def o put_session_def session_put_def c)
  then show "SWIG_AsVal_int obj w = (0, n, w\<lparr>py_err := e\<rparr>) \<Longrightarrow> wrap_JsEvent_setSessionEventFlags [PyProxy v, obj] w =
      Some (Returned (Some PyNone), session_put se (s\<lparr>se_flags := n\<rparr>) (cstrings (js w)) (w\<lparr>py_err := e\<rparr>))"
    by (simp add: wrap_JsEvent_setSessionEventFlags_def p(1) arg_val_def SWIG_IsOK_def guarded_def changes_def c
        after_call_ok return_obj_def)
  show "wrap_JsEvent_getSessionEventFlags [PyProxy v] w = Some (Returned (Some (PyInt (se_flags s))), w\<lparr>js := cleared w\<rparr>)"
    by (simp add: wrap_JsEvent_getSessionEventFlags_def JsEvent_getSessionEventFlags_def p(1) guarded_def
        after_call_ok cleared_status o return_obj_def SWIG_From_int_def)
qed

lemma session_proxy_err: "session_proxy v se s w \<Longrightarrow> session_proxy v se s (w\<lparr>py_err := e\<rparr>)"
  by (simp add: session_proxy_def)

lemma session_flags_back:
  assumes "session_proxy v se s w" "SWIG_AsVal_int obj w = (0, n, w\<lparr>py_err := e\<rparr>)"
  shows "\<exists>w1 w2. wrap_JsEvent_setSessionEventFlags [PyProxy v, obj] w = Some (Returned (Some PyNone), w1) \<and>
        py_err w1 = e \<and> wrap_JsEvent_getSessionEventFlags [PyProxy v] w1 = Some (Returned (Some (PyInt n)), w2)"
  using session_flags(1) [OF assms]
    session_flags(2) [OF session_proxy_put [OF session_proxy_err [OF assms(1)]], of "s\<lparr>se_flags := n\<rparr>" "cstrings (js w)" e]
  by (simp add: session_put_def)

text \<open>The script takes an event of type \<open>PROCESS\<close> and reads a port, through the four wrappers.\<close>

lemma script_reads_port:
  fixes w :: "'rb py_world"
  assumes client: "objs (proxies w) c = Some x" "so_ty x = SWIGTYPE_p_JsClient" "so_ptr x = Some p"
      "objs (js_clients (js w)) p = Some jc" "JacksRbClient_get_event [] (jc_impl jc) (- 1) (core (js w)) = Some (ev, [], s)"
    and type: "JacksEvent_get_type ev (events s) = Some 0"
    and port: "objs (proxies w) q = Some y" "so_ty y = SWIGTYPE_p_JsPort" "so_ptr y = Some r"
      "objs (js_ports (js w)) r = Some jp"
      "JacksRbPort_read_from_ringbuffer (j_ring api) (jp_impl jp) (port_store s) = Some (Some buf, len, h)"
    and len: "0 \<le> len" "len < 2 ^ 31"
    and alloc: "always_alloc (proxies w)" "always_alloc (js_events (js w))" "always_alloc (port_buffers (js w))"
      "q < next_addr (proxies w)" "module_types (rt w)"
  shows "\<exists>e b w1 w2 w3 w4 obj.
    wrap_JsClient_getEvent [] [PyProxy c, PyInt (- 1)] w = Some (Returned (Some (PyProxy e)), w1) \<and>
    wrap_JsEvent_getType [PyProxy e] w1 = Some (Returned (Some (PyInt 0)), w2) \<and>
    wrap_JsPort_getBuffer api [PyProxy q] w2 = Some (Returned (Some (PyProxy b)), w3) \<and>
    wrap_JsPortBuffer_length [PyProxy b] w3 = Some (Returned (Some (PyInt len)), w4) \<and>
    objs (proxies w3) b = Some obj \<and> shared_bytes (so_ptr obj) (js w3) = Some buf"
proof -
  let ?pa = "next_addr (proxies w)"
  obtain sp where sp: "get_obj (jp_impl jp) h = Some sp" "framebuf sp = Some buf" using read_is_shared [OF port(5)] by blast
  define w1 where "w1 = with_proxy (next_addr (js_events (js w))) SWIGTYPE_p_JsEvent
        (w\<lparr>js := (cleared w)\<lparr>core := s, js_events := added \<lparr>jv_impl = ev\<rparr> (js_events (js w))\<rparr>\<rparr>)"
  have 1: "wrap_JsClient_getEvent [] [PyProxy c, PyInt (- 1)] w = Some (Returned (Some (PyProxy ?pa)), w1)"
    unfolding w1_def
    using get_event_wrapper [of w c x p jc "[]" "- 1" ev "[]" s] client alloc by (simp add: long_min_def long_max_def)
  define w2 where "w2 = w1\<lparr>js := cleared w1\<rparr>"
  have 2: "wrap_JsEvent_getType [PyProxy ?pa] w1 = Some (Returned (Some (PyInt 0)), w2)"
    unfolding w2_def using event_type_wrapper [of w1 ?pa _ "next_addr (js_events (js w))" "\<lparr>jv_impl = ev\<rparr>" 0] type
    by (simp add: w1_def)
  have w2: "objs (proxies w2) q = Some y" "objs (js_ports (js w2)) r = Some jp" "core (js w2) = s"
    "always_alloc (port_buffers (js w2))" "always_alloc (proxies w2)" "module_types (rt w2)"
    using port(1,4) alloc by (simp_all add: w2_def w1_def)
  define w3 where "w3 = with_proxy (next_addr (port_buffers (js w2))) SWIGTYPE_p_JsPortBuffer
        (w2\<lparr>js := (cleared w2)\<lparr>port_buffers := added \<lparr>pb_framebuf = jp_impl jp, pb_len = len\<rparr> (port_buffers (js w2)),
           core := (core (js w2))\<lparr>port_store := h\<rparr>\<rparr>\<rparr>)"
  let ?pb = "next_addr (proxies w2)"
  have 3: "wrap_JsPort_getBuffer api [PyProxy q] w2 = Some (Returned (Some (PyProxy ?pb)), w3)"
    unfolding w3_def by (rule get_buffer_wrapper [OF w2(1) port(2,3) w2(2)]) (use w2 port(5) in simp_all)
  let ?b = "\<lparr>so_ptr = Some (next_addr (port_buffers (js w2))), so_ty = SWIGTYPE_p_JsPortBuffer, so_own = 0, so_next = NULL\<rparr>"
  have w3: "objs (proxies w3) ?pb = Some ?b"
    "objs (port_buffers (js w3)) (next_addr (port_buffers (js w2))) = Some \<lparr>pb_framebuf = jp_impl jp, pb_len = len\<rparr>"
    by (simp_all add: w3_def)
  have 4: "wrap_JsPortBuffer_length [PyProxy ?pb] w3 = Some (Returned (Some (PyInt len)), w3\<lparr>js := cleared w3\<rparr>)"
    using buffer_length_wrapper [OF w3(1) _ _ w3(2)] small_length [OF len] by simp
  have "shared_bytes (so_ptr ?b) (js w3) = Some buf" using w3(2) sp by (simp add: shared_bytes_def w3_def)
  with 1 2 3 4 w3(1) show ?thesis by blast
qed

end
