(* ===== verification/Swig_Load.thy ===== *)
theory Swig_Load
  imports SwigInit
begin

text \<open>
  What loading a module does to the type registry: the lists of casts stay well formed, no cast is
  lost, types are shared by name, and the tables stay sorted for the search.
\<close>

section \<open>What a list operation leaves alone\<close>

definition same_names :: "swig_heap \<Rightarrow> swig_heap \<Rightarrow> bool" where
  "same_names h h' \<longleftrightarrow> (\<forall>b. map_option ti_name (ti h' b) = map_option ti_name (ti h b))"

text \<open>Only the type \<open>ty\<close> and the casts \<open>A\<close> change, and they keep names, types and converters.\<close>

definition only_changes :: "addr \<Rightarrow> addr set \<Rightarrow> swig_heap \<Rightarrow> swig_heap \<Rightarrow> bool" where
  "only_changes ty A h h' \<longleftrightarrow>
     (\<forall>b. b \<noteq> ty \<longrightarrow> ti h' b = ti h b) \<and> (\<forall>a. a \<notin> A \<longrightarrow> ci h' a = ci h a) \<and>
     cast_data h' = cast_data h \<and> same_names h h'"

lemma only_changes_refl: "only_changes ty A h h"
  by (simp add: only_changes_def same_names_def)

lemma only_changes_trans:
  "only_changes ty A h h1 \<Longrightarrow> only_changes ty A h1 h2 \<Longrightarrow> only_changes ty A h h2"
  by (simp add: only_changes_def same_names_def)

lemma set_next_changes: "set_next a p h = Some h' \<Longrightarrow> a \<in> A \<Longrightarrow> only_changes ty A h h'"
  by (auto simp: set_next_def only_changes_def same_names_def cast_data_def fun_eq_iff bind_eq_Some_conv)

lemma set_prev_changes: "set_prev a p h = Some h' \<Longrightarrow> a \<in> A \<Longrightarrow> only_changes ty A h h'"
  by (auto simp: set_prev_def only_changes_def same_names_def cast_data_def fun_eq_iff bind_eq_Some_conv)

lemma set_cast_changes: "set_cast ty p h = Some h' \<Longrightarrow> only_changes ty A h h'"
  by (auto simp: set_cast_def only_changes_def same_names_def cast_data_def fun_eq_iff bind_eq_Some_conv)

lemma move_to_top_changes:
  assumes rep: "casts_rep h ty (u # us @ a # vs)" and move: "move_to_top a ty h = Some h'"
    and A: "set (u # us @ a # vs) \<subseteq> A"
  shows "only_changes ty A h h'"
proof -
  obtain t where t: "ti h ty = Some t" "path (nxt h) (ti_cast t) (u # us @ a # vs) NULL"
    and bk: "links_back (prv h) u (us @ a # vs)"
    using rep by (auto simp: casts_rep_def)
  have head: "ti_cast t = Some u" using t(2) by (simp split: option.splits)
  obtain c where c: "ci h a = Some c" using move by (auto simp: move_to_top_def bind_eq_Some_conv)
  have "prv h a = Some (Some (last (u # us)))" using bk by (simp add: links_back_append)
  then have p: "ci_prev c = Some (last (u # us))" using c by (simp add: prv_def)
  have "path (nxt h) (ci_next c) vs NULL"
    using t(2) head c by (auto simp: path_simps nxt_def split: option.splits)
  then have n: "v \<in> A" if "ci_next c = Some v" for v using that A by (cases vs) auto
  have l: "last (u # us) \<in> A" "u \<in> A" "a \<in> A"
    using A last_in_set [of "u # us"] by (auto simp del: last.simps)
  obtain h1 h2 t2 h3 h4 h5 where steps: "set_next (last (u # us)) (ci_next c) h = Some h1"
    "(case ci_next c of None \<Rightarrow> Some h1 | Some n \<Rightarrow> set_prev n (ci_prev c) h1) = Some h2"
    "ti h2 ty = Some t2" "set_next a (ti_cast t2) h2 = Some h3" "set_prev a NULL h3 = Some h4"
    "(case ti_cast t2 of None \<Rightarrow> Some h4 | Some b \<Rightarrow> set_prev b (Some a) h4) = Some h5"
    "set_cast ty (Some a) h5 = Some h'"
    using move c p by (auto simp: move_to_top_def bind_eq_Some_conv simp del: last.simps)
  have s1: "only_changes ty A h h1" using steps(1) l(1) by (rule set_next_changes)
  have s2: "only_changes ty A h1 h2"
    using steps(2) n by (cases "ci_next c") (auto simp: only_changes_refl intro: set_prev_changes)
  have "ti h2 = ti h"
    using steps(1,2) by (auto simp: set_next_def set_prev_def bind_eq_Some_conv split: option.splits)
  then have t2: "ti_cast t2 = Some u" using steps(3) t(1) head by simp
  have s3: "only_changes ty A h2 h3" using steps(4) l(3) by (rule set_next_changes)
  have s4: "only_changes ty A h3 h4" using steps(5) l(3) by (rule set_prev_changes)
  have s5: "only_changes ty A h4 h5" using steps(6) l(2) t2 by (auto intro: set_prev_changes)
  have "only_changes ty A h5 h'" using steps(7) by (rule set_cast_changes)
  with s1 s2 s3 s4 s5 show ?thesis by (blast intro: only_changes_trans)
qed

lemma check_loop_changes:
  "check_loop hit ty iter h = Some (res, h') \<Longrightarrow> casts_rep h ty (us @ vs) \<Longrightarrow> path (nxt h) iter vs NULL \<Longrightarrow>
     only_changes ty (set (us @ vs)) h h'"
proof (induction vs arbitrary: us iter)
  case Nil
  then show ?case by (subst (asm) check_loop.simps) (simp add: only_changes_refl)
next
  case (Cons a vs)
  have it: "iter = Some a" using Cons.prems(3) by (simp split: option.splits)
  obtain c b where c: "ci h a = Some c" "hit h (ci_type c) = Some b"
    using Cons.prems(1) it by (subst (asm) check_loop.simps) (auto simp: bind_eq_Some_conv)
  obtain t where t: "ti h ty = Some t" "path (nxt h) (ti_cast t) (us @ a # vs) NULL"
    using Cons.prems(2) by (auto simp: casts_rep_def)
  show ?case
  proof (cases b)
    case False
    then have "check_loop hit ty (ci_next c) h = Some (res, h')"
      using Cons.prems(1) it c by (subst (asm) check_loop.simps) simp
    moreover have "path (nxt h) (ci_next c) vs NULL" using Cons.prems(3) it c(1) nxt_def [of h a] by auto
    ultimately show ?thesis using Cons.IH [of "ci_next c" "us @ [a]"] Cons.prems(2) by simp
  next
    case True
    show ?thesis
    proof (cases "ti_cast t = Some a")
      case head: True
      then have "h' = h" using Cons.prems(1) it c True t(1) by (subst (asm) check_loop.simps) simp
      then show ?thesis by (simp add: only_changes_refl)
    next
      case False
      then have m: "move_to_top a ty h = Some h'"
        using Cons.prems(1) it c True t(1) by (subst (asm) check_loop.simps) (auto simp: bind_eq_Some_conv)
      obtain u us' where us: "us = u # us'" using False t(2) by (cases us) (auto split: option.splits)
      show ?thesis
        by (rule move_to_top_changes [OF _ m, of u us' vs]) (use Cons.prems(2) us in auto)
    qed
  qed
qed

section \<open>All the lists at once\<close>

definition type_name :: "swig_heap \<Rightarrow> addr \<Rightarrow> string option" where
  "type_name h a = Option.bind (ti h a) ti_name"

definition cast_name :: "swig_heap \<Rightarrow> addr \<Rightarrow> string option" where
  "cast_name h a = Option.bind (ci h a) (\<lambda>c. type_name h (ci_type c))"

text \<open>\<open>L\<close> gives the casts of each type: disjoint well-formed lists of casts from named types.\<close>

definition lists_rep :: "swig_heap \<Rightarrow> (addr \<rightharpoonup> addr list) \<Rightarrow> bool" where
  "lists_rep h L \<longleftrightarrow>
     (\<forall>t cs. L t = Some cs \<longrightarrow> casts_rep h t cs \<and> (\<forall>a \<in> set cs. cast_name h a \<noteq> None)) \<and>
     (\<forall>t u cs ds. L t = Some cs \<and> L u = Some ds \<and> t \<noteq> u \<longrightarrow> set cs \<inter> set ds = {})"

definition unlisted :: "(addr \<rightharpoonup> addr list) \<Rightarrow> addr \<Rightarrow> bool" where
  "unlisted L a \<longleftrightarrow> (\<forall>t cs. L t = Some cs \<longrightarrow> a \<notin> set cs)"

text \<open>What inserting casts changes: \<open>ty\<close>, the casts \<open>A\<close>, and no name.\<close>

definition grows :: "addr \<Rightarrow> addr set \<Rightarrow> swig_heap \<Rightarrow> swig_heap \<Rightarrow> bool" where
  "grows ty A h h' \<longleftrightarrow>
     (\<forall>b. b \<noteq> ty \<longrightarrow> ti h' b = ti h b) \<and> (\<forall>a. a \<notin> A \<longrightarrow> ci h' a = ci h a) \<and>
     cast_name h' = cast_name h \<and> type_name h' = type_name h"

lemma type_name_same: "same_names h h' \<Longrightarrow> type_name h' = type_name h"
proof
  fix a assume "same_names h h'"
  then have "map_option ti_name (ti h' a) = map_option ti_name (ti h a)" by (simp add: same_names_def)
  then show "type_name h' a = type_name h a" by (cases "ti h a"; cases "ti h' a") (simp_all add: type_name_def)
qed

lemma cast_name_data: "cast_data h' = cast_data h \<Longrightarrow> type_name h' = type_name h \<Longrightarrow> cast_name h' = cast_name h"
proof
  fix a assume "cast_data h' = cast_data h" and t: "type_name h' = type_name h"
  then have "cast_data h' a = cast_data h a" by simp
  then show "cast_name h' a = cast_name h a"
    using t by (cases "ci h a"; cases "ci h' a") (simp_all add: cast_name_def cast_data_def)
qed

lemma only_changes_grows: "only_changes ty A h h' \<Longrightarrow> A \<subseteq> B \<Longrightarrow> grows ty B h h'"
  using type_name_same [of h h'] cast_name_data [of h' h] by (auto simp: only_changes_def grows_def)

lemma grows_refl: "grows ty A h h"
  by (simp add: grows_def)

lemma grows_trans: "grows ty A h h1 \<Longrightarrow> grows ty B h1 h2 \<Longrightarrow> grows ty (A \<union> B) h h2"
  by (simp add: grows_def)

lemma casts_rep_cong:
  assumes "casts_rep h t cs" "map_option ti_cast (ti h' t) = map_option ti_cast (ti h t)"
    "\<And>a. a \<in> set cs \<Longrightarrow> ci h' a = ci h a"
  shows "casts_rep h' t cs"
proof -
  obtain u where u: "ti h t = Some u" "path (nxt h) (ti_cast u) cs NULL" using assms(1) by (auto simp: casts_rep_def)
  then obtain u' where u': "ti h' t = Some u'" "ti_cast u' = ti_cast u" using assms(2) by (cases "ti h' t") auto
  have "path (nxt h') (ti_cast u) cs NULL"
    using u(2) assms(3) by (subst path_cong [of _ _ "nxt h"]) (simp_all add: nxt_def)
  moreover have "links_back (prv h') (hd cs) (tl cs)" if ne: "cs \<noteq> []"
  proof -
    have "prv h' b = prv h b" if "b \<in> set (tl cs)" for b
      using assms(3) [OF list.set_sel(2) [OF ne that]] by (simp add: prv_def)
    then have "links_back (prv h') (hd cs) (tl cs) = links_back (prv h) (hd cs) (tl cs)" by (rule links_back_cong)
    then show ?thesis using assms(1) ne by (simp add: casts_rep_def)
  qed
  ultimately show ?thesis using u' by (simp add: casts_rep_def)
qed

text \<open>A change of one list that grows it keeps the others.\<close>

lemma lists_rep_update:
  assumes rep: "lists_rep h L" and gr: "grows ty A h h'"
    and A: "\<forall>t cs. L t = Some cs \<and> t \<noteq> ty \<longrightarrow> set cs \<inter> A = {}"
    and new: "casts_rep h' ty cs'" "\<forall>a \<in> set cs'. cast_name h a \<noteq> None" "set cs' \<subseteq> A"
  shows "lists_rep h' (L(ty \<mapsto> cs'))"
proof -
  have "casts_rep h' t cs" if l: "L t = Some cs" "t \<noteq> ty" for t cs
  proof (rule casts_rep_cong [of h])
    show "casts_rep h t cs" using rep l by (simp add: lists_rep_def)
    show "map_option ti_cast (ti h' t) = map_option ti_cast (ti h t)" using gr l(2) by (simp add: grows_def)
    show "ci h' a = ci h a" if "a \<in> set cs" for a
    proof -
      have "set cs \<inter> A = {}" using A l by blast
      then have "a \<notin> A" using that by blast
      then show ?thesis using gr by (simp add: grows_def)
    qed
  qed
  moreover have "set cs \<inter> set cs' = {}" "set cs' \<inter> set cs = {}" if "L t = Some cs" "t \<noteq> ty" for t cs
    using A new(3) that by blast+
  ultimately show ?thesis using rep gr new(1,2) by (auto simp: lists_rep_def grows_def)
qed

lemma link_cast_rep:
  assumes rep: "casts_rep h ty cs" and a: "a \<notin> set cs" "ci h a = Some c" "ci_next c = NULL"
  shows "\<exists>h'. link_cast a ty h = Some h' \<and> casts_rep h' ty (a # cs) \<and> only_changes ty (insert a (set cs)) h h'"
proof -
  obtain t where t: "ti h ty = Some t" "path (nxt h) (ti_cast t) cs NULL" using rep by (auto simp: casts_rep_def)
  show ?thesis
  proof (cases cs)
    case Nil
    then have "ti_cast t = NULL" using t(2) by simp
    then have l: "link_cast a ty h = set_cast ty (Some a) h" using t(1) by (simp add: link_cast_def)
    then obtain h' where h': "set_cast ty (Some a) h = Some h'" using t(1) by (simp add: set_cast_def)
    then have "casts_rep h' ty (a # cs)"
      using t(1) a Nil by (auto simp: set_cast_def casts_rep_def nxt_def)
    then show ?thesis using l h' set_cast_changes by auto
  next
    case (Cons b bs)
    have head: "ti_cast t = Some b" using t(2) Cons by (simp split: option.splits)
    have bk: "links_back (prv h) b bs" using rep Cons by (simp add: casts_rep_def)
    have dist: "distinct (b # bs)" using path_distinct [OF t(2)] Cons by simp
    obtain q where q: "nxt h b = Some q" using path_in_dom [OF t(2)] Cons by auto
    obtain h1 where h1: "set_prev b (Some a) h = Some h1" "nxt h1 = nxt h" "prv h1 = (prv h)(b \<mapsto> Some a)"
      "cast_data h1 = cast_data h" "ti h1 = ti h"
      using set_prev_eq [OF q] .
    have "nxt h1 a = Some NULL" using h1(2) a by (simp add: nxt_def)
    then obtain h2 where h2: "set_next a (Some b) h1 = Some h2" "nxt h2 = (nxt h1)(a \<mapsto> Some b)" "prv h2 = prv h1"
      "cast_data h2 = cast_data h1" "ti h2 = ti h1"
      by (rule set_next_eq)
    let ?h = "h2\<lparr>ti := (ti h2)(ty \<mapsto> t\<lparr>ti_cast := Some a\<rparr>)\<rparr>"
    have ty: "ti h2 ty = Some t" using t(1) h1(5) h2(5) by simp
    have l: "link_cast a ty h = Some ?h" using t(1) head h1(1) h2(1) ty by (simp add: link_cast_def set_cast_def)
    have same: "nxt ?h = (nxt h)(a \<mapsto> Some b)" "prv ?h = (prv h)(b \<mapsto> Some a)"
      using h1 h2 by (simp_all add: nxt_def [abs_def] prv_def [abs_def])
    have "path (nxt ?h) (Some b) (b # bs) NULL"
      using t(2) head Cons a(1) unfolding same by (subst path_cong [of _ _ "nxt h"]) auto
    moreover have "nxt ?h a = Some (Some b)" "prv ?h b = Some (Some a)" using same by simp_all
    moreover have "links_back (prv ?h) b bs"
      using bk dist unfolding same by (subst links_back_cong [of _ _ "prv h"]) auto
    ultimately have "casts_rep ?h ty (a # cs)" using Cons by (simp add: casts_rep_def path_simps)
    moreover have "only_changes ty (insert a (set cs)) h ?h"
    proof -
      have "only_changes ty (insert a (set cs)) h h1" using h1(1) Cons by (auto intro: set_prev_changes)
      moreover have "only_changes ty (insert a (set cs)) h1 h2" using h2(1) by (auto intro: set_next_changes)
      moreover have "set_cast ty (Some a) h2 = Some ?h" using ty by (simp add: set_cast_def)
      note set_cast_changes [OF this, of "insert a (set cs)"]
      ultimately show ?thesis by (blast intro: only_changes_trans)
    qed
    ultimately show ?thesis using l by blast
  qed
qed

lemma type_check_rep:
  assumes rep: "casts_rep h ty cs" and named: "\<forall>a \<in> set cs. cast_name h a \<noteq> None"
  shows "\<exists>h'. SWIG_TypeCheck n (Some ty) h = Some (first_hit (\<lambda>a. cast_name h a = Some n) cs, h') \<and>
    casts_rep h' ty (hit_to_front (\<lambda>a. cast_name h a = Some n) cs) \<and> only_changes ty (set cs) h h'"
proof -
  obtain t where t: "ti h ty = Some t" "path (nxt h) (ti_cast t) cs NULL" using rep by (auto simp: casts_rep_def)
  have "hits (name_is n) (\<lambda>a. cast_name h a = Some n) h cs"
    using named by (fastforce simp: hits_def name_is_def cast_name_def type_name_def bind_eq_Some_conv)
  then obtain h' where "check_loop (name_is n) ty (ti_cast t) h = Some (first_hit (\<lambda>a. cast_name h a = Some n) cs, h')"
    "casts_rep h' ty (hit_to_front (\<lambda>a. cast_name h a = Some n) cs)"
    using check_loop_rep [of h ty "[]" cs "name_is n", OF _ _ _ t(2)] rep by fastforce
  moreover from check_loop_changes [OF this(1), of "[]" cs] rep t(2) have "only_changes ty (set cs) h h'" by simp
  ultimately show ?thesis using t(1) by (simp add: SWIG_TypeCheck_def)
qed

section \<open>The ring and what is loaded\<close>

primrec links :: "(addr \<rightharpoonup> swig_module_info) \<Rightarrow> addr list \<Rightarrow> addr \<Rightarrow> bool" where
  "links mods [] stop \<longleftrightarrow> True"
| "links mods (a # as) stop \<longleftrightarrow>
     map_option sm_next (mods a) = Some (case as of [] \<Rightarrow> stop | b # _ \<Rightarrow> b) \<and> links mods as stop"

lemma links_ring: "links mods as stop \<Longrightarrow> stop \<notin> set (tl as) \<Longrightarrow> ring_from mods as stop"
proof (induction as)
  case (Cons a as)
  then have "ring_from mods as stop" by (cases as) simp_all
  then show ?case using Cons.prems by auto
qed simp

lemma links_append:
  "links mods (as @ bs) stop \<longleftrightarrow> links mods as (case bs of [] \<Rightarrow> stop | b # _ \<Rightarrow> b) \<and> links mods bs stop"
  by (induction as) (auto split: list.splits)

lemma links_cong: "(\<And>a. a \<in> set as \<Longrightarrow> map_option sm_next (mods' a) = map_option sm_next (mods a)) \<Longrightarrow>
    links mods' as stop = links mods as stop"
  by (induction as) simp_all

lemma find_module_links:
  "links mods (iter # as) head \<Longrightarrow> head \<notin> set as \<Longrightarrow> find_module mods this head iter = Some (this \<in> set (iter # as))"
proof (induction as arbitrary: iter)
  case Nil
  then show ?case by (subst find_module.simps) auto
next
  case (Cons b as)
  have "find_module mods this head b = Some (this \<in> set (b # as))" using Cons by simp
  then show ?case using Cons.prems by (subst find_module.simps) auto
qed

text \<open>\<open>found\<close> is what the search of the other modules gives for a name.\<close>

definition loaded_types :: "swig_heap \<Rightarrow> (addr \<rightharpoonup> swig_module_info) \<Rightarrow> addr list \<Rightarrow> string \<Rightarrow> ptr" where
  "loaded_types h mods as n = first_in_table n (concat (map (\<lambda>b. named_types h (table_of mods b)) as))"

definition searchable :: "addr \<Rightarrow> addr list \<Rightarrow> swig_runtime \<Rightarrow> bool" where
  "searchable this as r \<longleftrightarrow>
     this \<notin> set as \<and> links (modules r) (this # as) this \<and>
     (\<forall>b \<in> set as. \<exists>names. sorted_table (heap r) (table_of (modules r) b) names)"

lemma loaded_type_eq:
  assumes s: "searchable this as r" and n: "type_name (heap r) ty = Some n"
  shows "loaded_type this ty r = Some (loaded_types (heap r) (modules r) as n)"
proof (cases as)
  case Nil
  then show ?thesis using s by (auto simp: searchable_def loaded_type_def loaded_types_def)
next
  case (Cons a bs)
  have "ring_from (modules r) (a # bs) this"
    using s Cons by (intro links_ring) (auto simp: searchable_def)
  from mangled_query_ring [OF this, of "heap r" n] s Cons
  have "SWIG_MangledTypeQueryModule (heap r) (modules r) a this n = Some (loaded_types (heap r) (modules r) as n)"
    by (simp add: searchable_def loaded_types_def)
  moreover obtain m where "modules r this = Some m" "sm_next m = a" "a \<noteq> this"
    using s Cons by (auto simp: searchable_def)
  ultimately show ?thesis using n by (auto simp: loaded_type_def type_name_def bind_eq_Some_conv)
qed

lemma named_types_same: "type_name h' = type_name h \<Longrightarrow> named_types h' = named_types h"
  by (rule ext) (simp add: named_types_def type_name_def [symmetric])

lemma sorted_table_same:
  assumes "type_name h' = type_name h" "sorted_table h types names"
  shows "sorted_table h' types names"
proof -
  have "\<exists>t. ti h' (types ! i) = Some t \<and> ti_name t = Some (names ! i)" if "i < length names" for i
  proof -
    have "type_name h (types ! i) = Some (names ! i)" using assms(2) that by (auto simp: sorted_table_def type_name_def)
    then have "type_name h' (types ! i) = Some (names ! i)" using assms(1) by simp
    then show ?thesis by (auto simp: type_name_def bind_eq_Some_conv)
  qed
  then show ?thesis using assms(2) by (simp add: sorted_table_def)
qed

text \<open>The search sees only names and the tables of the others.\<close>

lemma searchable_same:
  assumes s: "searchable this as r" and names: "type_name (heap r') = type_name (heap r)"
    and mods: "\<And>b. b \<in> set as \<Longrightarrow> modules r' b = modules r b"
    "map_option sm_next (modules r' this) = map_option sm_next (modules r this)"
  shows "searchable this as r'" "loaded_types (heap r') (modules r') as = loaded_types (heap r) (modules r) as"
proof -
  have t: "table_of (modules r') b = table_of (modules r) b" if "b \<in> set as" for b
    using mods(1) [OF that] by (simp add: table_of_def)
  have "links (modules r') (this # as) this = links (modules r) (this # as) this"
    by (rule links_cong) (use mods in auto)
  moreover have "\<exists>ns. sorted_table (heap r') (table_of (modules r') b) ns" if "b \<in> set as" for b
    using s t [OF that] sorted_table_same [OF names] that by (fastforce simp: searchable_def)
  ultimately show "searchable this as r'" using s by (auto simp: searchable_def)
  have "map (\<lambda>b. named_types (heap r') (table_of (modules r') b)) as =
      map (\<lambda>b. named_types (heap r) (table_of (modules r) b)) as"
    using t named_types_same [OF names] by simp
  then show "loaded_types (heap r') (modules r') as = loaded_types (heap r) (modules r) as"
    unfolding loaded_types_def by (simp only:)
qed

lemma first_in_table_Some: "first_in_table n xs = Some a \<Longrightarrow> (a, n) \<in> set xs"
  by (induction n xs rule: first_in_table.induct) (auto split: if_splits)

lemma first_in_table_None: "first_in_table n xs = None \<longleftrightarrow> n \<notin> snd ` set xs"
  by (induction n xs rule: first_in_table.induct) auto

lemma sorted_table_names:
  assumes "sorted_table h types names" "a \<in> set types"
  shows "\<exists>n. type_name h a = Some n \<and> n \<in> set names"
  using assms by (force simp: sorted_table_def in_set_conv_nth type_name_def)

lemma loaded_types_Some:
  assumes "searchable this as r" "loaded_types (heap r) (modules r) as n = Some a"
  shows "type_name (heap r) a = Some n" "\<exists>b \<in> set as. a \<in> set (table_of (modules r) b)"
proof -
  obtain b where b: "b \<in> set as" "a \<in> set (table_of (modules r) b)" "n = the (type_name (heap r) a)"
    using first_in_table_Some [of n _ a] assms(2) by (force simp: loaded_types_def named_types_def type_name_def)
  then show "\<exists>b \<in> set as. a \<in> set (table_of (modules r) b)" by blast
  show "type_name (heap r) a = Some n"
    using b assms(1) sorted_table_names by (fastforce simp: searchable_def)
qed

lemma loaded_types_None:
  assumes "loaded_types (heap r) (modules r) as n = None" "b \<in> set as" "a \<in> set (table_of (modules r) b)"
  shows "type_name (heap r) a \<noteq> Some n"
proof
  assume "type_name (heap r) a = Some n"
  then have "(a, n) \<in> set (named_types (heap r) (table_of (modules r) b))"
    using assms(3) by (force simp: named_types_def type_name_def)
  then show False using assms(1,2) by (force simp: loaded_types_def first_in_table_None)
qed

section \<open>Inserting the casts of a type\<close>

text \<open>A cast of the tables that no list has yet.\<close>

definition loose_cast :: "swig_heap \<Rightarrow> (addr \<rightharpoonup> addr list) \<Rightarrow> addr \<Rightarrow> bool" where
  "loose_cast h L a \<longleftrightarrow> unlisted L a \<and> cast_name h a \<noteq> None \<and> map_option ci_next (ci h a) = Some NULL"

lemma insert_cast_rep:
  assumes s: "searchable this as r" and rep: "lists_rep (heap r) L" and ty: "L ty = Some cs"
    and loose: "loose_cast (heap r) L cast"
  shows "\<exists>h' cs'. insert_cast this own ty cast r = Some (r\<lparr>heap := h'\<rparr>) \<and> lists_rep h' (L(ty \<mapsto> cs')) \<and>
    set cs \<subseteq> set cs' \<and> set cs' \<subseteq> insert cast (set cs) \<and> (\<exists>a \<in> set cs'. cast_name h' a = cast_name h' cast) \<and>
    grows ty (insert cast (set cs)) (heap r) h'"
proof -
  let ?h = "heap r"
  obtain c n where c: "ci ?h cast = Some c" "ci_next c = NULL" "cast_name ?h cast = Some n" "type_name ?h (ci_type c) = Some n"
    and un: "cast \<notin> set cs"
    using loose ty by (auto simp: loose_cast_def unlisted_def cast_name_def bind_eq_Some_conv)
  have crep: "casts_rep ?h ty cs" and named: "\<forall>a \<in> set cs. cast_name ?h a \<noteq> None"
    using rep ty by (simp_all add: lists_rep_def)
  have apart: "\<forall>t ds. L t = Some ds \<and> t \<noteq> ty \<longrightarrow> set ds \<inter> insert cast (set cs) = {}"
    using rep ty loose unfolding lists_rep_def loose_cast_def unlisted_def by blast
  define ret where "ret = loaded_types ?h (modules r) as n"
  have ret: "loaded_type this (ci_type c) r = Some ret" using loaded_type_eq [OF s c(4)] by (simp add: ret_def)
  have linked: ?thesis
    if h1: "insert_cast this own ty cast r = map_option (\<lambda>h. r\<lparr>heap := h\<rparr>) (link_cast cast ty h1)"
      "casts_rep h1 ty cs1" "set cs1 = set cs" "grows ty (insert cast (set cs)) ?h h1"
      "map_option ci_next (ci h1 cast) = Some NULL" for h1 cs1
  proof -
    obtain c1 where c1: "ci h1 cast = Some c1" "ci_next c1 = NULL" using h1(5) by auto
    obtain h' where h': "link_cast cast ty h1 = Some h'" "casts_rep h' ty (cast # cs1)"
      "only_changes ty (insert cast (set cs1)) h1 h'"
      using link_cast_rep [OF h1(2) _ c1] un h1(3) by auto
    have g: "grows ty (insert cast (set cs)) ?h h'"
      using grows_trans [OF h1(4) only_changes_grows [OF h'(3) order_refl]] h1(3) by simp
    moreover have "lists_rep h' (L(ty \<mapsto> cast # cs1))"
      using lists_rep_update [OF rep g apart h'(2)] named c(3) h1(3) by auto
    ultimately show ?thesis using h1(1,3) h'(1) by (intro exI [of _ h'] exI [of _ "cast # cs1"]) auto
  qed
  show ?thesis
  proof (cases ret)
    case None
    then have "insert_cast this own ty cast r = map_option (\<lambda>h. r\<lparr>heap := h\<rparr>) (link_cast cast ty ?h)"
      using c ret by (cases "link_cast cast ty ?h") (simp_all add: insert_cast_def)
    from linked [OF this crep HOL.refl grows_refl] show ?thesis using c by simp
  next
    case (Some a)
    then have a: "type_name ?h a = Some n" using loaded_types_Some(1) [OF s] by (simp add: ret_def)
    show ?thesis
    proof (cases "ty = own")
      case True
      define h1 where "h1 = ?h\<lparr>ci := (ci ?h)(cast \<mapsto> c\<lparr>ci_type := a\<rparr>)\<rparr>"
      have "insert_cast this own ty cast r = map_option (\<lambda>h. r\<lparr>heap := h\<rparr>) (link_cast cast ty h1)"
        using c(1) ret Some True by (cases "link_cast cast ty h1") (simp_all add: insert_cast_def h1_def)
      moreover have "type_name h1 = type_name ?h" by (simp add: h1_def type_name_def fun_eq_iff)
      moreover from this have "cast_name h1 = cast_name ?h"
        using c a by (auto simp: cast_name_def h1_def fun_eq_iff)
      moreover have "casts_rep h1 ty cs" using crep un by (rule_tac casts_rep_cong) (auto simp: h1_def)
      ultimately show ?thesis using linked [of h1 cs] c(2) by (simp add: grows_def h1_def)
    next
      case False
      obtain h1 where h1: "SWIG_TypeCheck n (Some ty) ?h = Some (first_hit (\<lambda>a. cast_name ?h a = Some n) cs, h1)"
        "casts_rep h1 ty (hit_to_front (\<lambda>a. cast_name ?h a = Some n) cs)" "only_changes ty (set cs) ?h h1"
        using type_check_rep [OF crep named] by blast
      let ?cs = "hit_to_front (\<lambda>a. cast_name ?h a = Some n) cs"
      have set_cs: "set ?cs = set cs" using hit_to_front_mset [of _ cs] by (metis set_mset_mset)
      have g: "grows ty (insert cast (set cs)) ?h h1" using only_changes_grows [OF h1(3)] by blast
      obtain ta where ta: "ti ?h a = Some ta" "ti_name ta = Some n" using a by (auto simp: type_name_def bind_eq_Some_conv)
      show ?thesis
      proof (cases "first_hit (\<lambda>a. cast_name ?h a = Some n) cs")
        case None
        then have "insert_cast this own ty cast r = map_option (\<lambda>h. r\<lparr>heap := h\<rparr>) (link_cast cast ty h1)"
          using c(1) ret Some False h1(1) ta by (cases "link_cast cast ty h1") (simp_all add: insert_cast_def)
        moreover have "ci h1 cast = ci ?h cast" using h1(3) un by (simp add: only_changes_def)
        ultimately show ?thesis using linked [OF _ h1(2) set_cs g] c by simp
      next
        case (Some b)
        then have "insert_cast this own ty cast r = Some (r\<lparr>heap := h1\<rparr>)"
          using c(1) ret \<open>ret = Some a\<close> False h1(1) ta by (simp add: insert_cast_def)
        moreover have "b \<in> set cs" "cast_name ?h b = Some n"
          using Some by (auto simp: first_hit_def find_Some_iff)
        moreover have "lists_rep h1 (L(ty \<mapsto> ?cs))"
          using lists_rep_update [OF rep g apart h1(2)] named set_cs by auto
        moreover have "cast_name h1 = cast_name ?h" using g by (simp add: grows_def)
        ultimately show ?thesis using set_cs c(3) g by (intro exI [of _ h1] exI [of _ ?cs]) auto
      qed
    qed
  qed
qed

lemma insert_casts_rep:
  "searchable this as r \<Longrightarrow> lists_rep (heap r) L \<Longrightarrow> L ty = Some cs \<Longrightarrow> distinct row \<Longrightarrow>
     \<forall>cast \<in> set row. loose_cast (heap r) L cast \<Longrightarrow>
   \<exists>h' cs'. insert_casts this own ty row r = Some (r\<lparr>heap := h'\<rparr>) \<and> lists_rep h' (L(ty \<mapsto> cs')) \<and>
     set cs \<subseteq> set cs' \<and> set cs' \<subseteq> set cs \<union> set row \<and>
     (\<forall>cast \<in> set row. \<exists>a \<in> set cs'. cast_name h' a = cast_name h' cast) \<and> grows ty (set cs \<union> set row) (heap r) h'"
proof (induction row arbitrary: r L cs)
  case Nil
  then have "L(ty \<mapsto> cs) = L" by auto
  with Nil show ?case by (intro exI [of _ "heap r"] exI [of _ cs]) (simp add: grows_refl)
next
  case (Cons cast row)
  obtain h1 cs1 where h1: "insert_cast this own ty cast r = Some (r\<lparr>heap := h1\<rparr>)" "lists_rep h1 (L(ty \<mapsto> cs1))"
    "set cs \<subseteq> set cs1" "set cs1 \<subseteq> insert cast (set cs)" "\<exists>a \<in> set cs1. cast_name h1 a = cast_name h1 cast"
    "grows ty (insert cast (set cs)) (heap r) h1"
    using insert_cast_rep [OF Cons.prems(1-3), of cast own] Cons.prems(5) by auto
  let ?r = "r\<lparr>heap := h1\<rparr>"
  have s1: "searchable this as ?r"
    by (rule searchable_same(1) [OF Cons.prems(1)]) (use h1(6) in \<open>simp_all add: grows_def\<close>)
  have loose: "loose_cast h1 (L(ty \<mapsto> cs1)) b" if "b \<in> set row" for b
  proof -
    have b: "loose_cast (heap r) L b" "b \<noteq> cast" using Cons.prems(4,5) that by auto
    then have "b \<notin> set cs" using Cons.prems(3) by (auto simp: loose_cast_def unlisted_def)
    then show ?thesis using b h1(4,6) by (auto simp: loose_cast_def unlisted_def grows_def)
  qed
  obtain h' cs' where h': "insert_casts this own ty row ?r = Some (?r\<lparr>heap := h'\<rparr>)"
    "lists_rep h' (L(ty \<mapsto> cs1, ty \<mapsto> cs'))" "set cs1 \<subseteq> set cs'" "set cs' \<subseteq> set cs1 \<union> set row"
    "\<forall>cast \<in> set row. \<exists>a \<in> set cs'. cast_name h' a = cast_name h' cast" "grows ty (set cs1 \<union> set row) h1 h'"
    using Cons.IH [OF s1, of "L(ty \<mapsto> cs1)" cs1] h1(2) loose Cons.prems(4) by (auto simp del: fun_upd_apply simp: fun_upd_same)
  have g: "grows ty (set cs \<union> set (cast # row)) (heap r) h'"
    using grows_trans [OF h1(6) h'(6)] h1(3,4) by (auto simp: grows_def)
  have "cast_name h' = cast_name h1" using h'(6) by (simp add: grows_def)
  then have "\<forall>b \<in> set (cast # row). \<exists>a \<in> set cs'. cast_name h' a = cast_name h' b"
    using h1(5) h'(3,5) by auto
  then show ?case
    using h1(1,3,4) h'(1-4) g by (intro exI [of _ h'] exI [of _ cs']) (auto simp del: fun_upd_apply)
qed

section \<open>The types of a module\<close>

definition adopted :: "swig_heap \<Rightarrow> (string \<Rightarrow> ptr) \<Rightarrow> addr \<Rightarrow> addr" where
  "adopted h loaded own = (case loaded (the (type_name h own)) of None \<Rightarrow> own | Some ty \<Rightarrow> ty)"

text \<open>A type of the tables that is not in the registry.\<close>

definition loose_type :: "swig_heap \<Rightarrow> (addr \<rightharpoonup> addr list) \<Rightarrow> addr \<Rightarrow> bool" where
  "loose_type h L own \<longleftrightarrow> L own = None \<and> type_name h own \<noteq> None \<and> map_option ti_cast (ti h own) = Some NULL"

text \<open>Lists only grow.\<close>

definition extends :: "(addr \<rightharpoonup> addr list) \<Rightarrow> (addr \<rightharpoonup> addr list) \<Rightarrow> bool" where
  "extends L L' \<longleftrightarrow> (\<forall>t cs. L t = Some cs \<longrightarrow> (\<exists>cs'. L' t = Some cs' \<and> set cs \<subseteq> set cs'))"

lemma extends_refl: "extends L L"
  by (simp add: extends_def)

lemma extends_trans: "extends L L1 \<Longrightarrow> extends L1 L2 \<Longrightarrow> extends L L2"
  unfolding extends_def by (meson order_trans)

lemma extends_upd: "L ty = Some cs \<Longrightarrow> set cs \<subseteq> set cs' \<Longrightarrow> extends L (L(ty \<mapsto> cs'))"
  by (simp add: extends_def)

text \<open>The type an entry gets has a list, and everything else is as it was.\<close>

lemma adopt_type_rep:
  assumes s: "searchable this as r" and rep: "lists_rep (heap r) L" and own: "loose_type (heap r) L own"
    and dom: "\<forall>b \<in> set as. set (table_of (modules r) b) \<subseteq> dom L"
  shows "\<exists>h' L1 cs. adopt_type this own r =
      Some (adopted (heap r) (loaded_types (heap r) (modules r) as) own, r\<lparr>heap := h'\<rparr>) \<and>
    lists_rep h' L1 \<and> extends L L1 \<and>
    L1 (adopted (heap r) (loaded_types (heap r) (modules r) as) own) = Some cs \<and>
    dom L1 = insert (adopted (heap r) (loaded_types (heap r) (modules r) as) own) (dom L) \<and>
    (\<forall>a. unlisted L a \<longrightarrow> unlisted L1 a) \<and>
    grows (adopted (heap r) (loaded_types (heap r) (modules r) as) own) {} (heap r) h'"
proof -
  let ?h = "heap r" and ?f = "loaded_types (heap r) (modules r) as"
  obtain n o1 where n: "type_name ?h own = Some n" and o1: "ti ?h own = Some o1" "ti_cast o1 = NULL"
    using own by (auto simp: loose_type_def)
  have look: "loaded_type this own r = Some (?f n)" by (rule loaded_type_eq [OF s n])
  show ?thesis
  proof (cases "?f n")
    case None
    have "casts_rep ?h own []" using o1 by (simp add: casts_rep_def)
    then have "lists_rep ?h (L(own \<mapsto> []))" using rep by (auto simp: lists_rep_def)
    moreover have "extends L (L(own \<mapsto> []))" using own by (simp add: extends_def loose_type_def)
    moreover have "unlisted (L(own \<mapsto> [])) a" if "unlisted L a" for a using that by (simp add: unlisted_def)
    ultimately show ?thesis
      using look None n by (intro exI [of _ ?h] exI [of _ "L(own \<mapsto> [])"] exI [of _ "[]"])
        (simp add: adopt_type_def adopted_def grows_refl)
  next
    case (Some ty)
    have ad: "adopted ?h ?f own = ty" using Some n by (simp add: adopted_def)
    obtain cs where cs: "L ty = Some cs" using loaded_types_Some(2) [OF s Some] dom by blast
    have "casts_rep ?h ty cs" using rep cs by (simp add: lists_rep_def)
    then obtain t where t: "ti ?h ty = Some t" by (auto simp: casts_rep_def)
    define h' where "h' = (if ti_clientdata o1 = NULL then ?h
      else ?h\<lparr>ti := (ti ?h)(ty \<mapsto> t\<lparr>ti_clientdata := ti_clientdata o1\<rparr>)\<rparr>)"
    have "adopt_type this own r = Some (ty, r\<lparr>heap := h'\<rparr>)"
      using look Some o1 t by (simp add: adopt_type_def h'_def)
    moreover have tn: "type_name h' = type_name ?h" using t by (auto simp: h'_def type_name_def fun_eq_iff)
    moreover have g: "grows ty {} ?h h'" using tn t by (auto simp: grows_def h'_def cast_name_def fun_eq_iff)
    moreover have "lists_rep h' L"
    proof -
      have "casts_rep h' u ds" if "L u = Some ds" for u ds
        by (rule casts_rep_cong [of ?h]) (use rep that t in \<open>auto simp: lists_rep_def h'_def\<close>)
      then show ?thesis using rep g by (auto simp: lists_rep_def grows_def)
    qed
    moreover have "dom L = insert ty (dom L)" using cs by auto
    ultimately show ?thesis using ad cs extends_refl by auto
  qed
qed

lemma init_types_rep:
  "searchable this as r \<Longrightarrow> lists_rep (heap r) L \<Longrightarrow> \<forall>b \<in> set as. set (table_of (modules r) b) \<subseteq> dom L \<Longrightarrow>
   modules r this = Some m \<Longrightarrow> distinct (map fst rows) \<Longrightarrow> distinct (concat (map snd rows)) \<Longrightarrow>
   \<forall>p \<in> set rows. loose_type (heap r) L (fst p) \<and> (\<forall>a \<in> set (snd p). loose_cast (heap r) L a) \<Longrightarrow>
   loaded_types (heap r) (modules r) as = loaded \<Longrightarrow>
   \<exists>h' L'. init_types this rows r = Some (r\<lparr>heap := h',
       modules := (modules r)(this \<mapsto> m\<lparr>sm_types := sm_types m @ map (adopted (heap r) loaded \<circ> fst) rows\<rparr>)\<rparr>) \<and>
     lists_rep h' L' \<and> extends L L' \<and> dom L' = dom L \<union> adopted (heap r) loaded ` fst ` set rows \<and>
     type_name h' = type_name (heap r) \<and> cast_name h' = cast_name (heap r) \<and>
     (\<forall>p \<in> set rows. \<forall>cast \<in> set (snd p). \<exists>cs. L' (adopted (heap r) loaded (fst p)) = Some cs \<and>
        (\<exists>a \<in> set cs. cast_name h' a = cast_name h' cast))"
proof (induction rows arbitrary: r L m)
  case Nil
  then show ?case by (intro exI [of _ "heap r"] exI [of _ L]) (auto simp: extends_refl map_upd_triv)
next
  case (Cons p rows)
  obtain own row where p: "p = (own, row)" by (cases p)
  let ?ty = "adopted (heap r) loaded own"
  obtain h1 L1 cs where h1: "adopt_type this own r = Some (?ty, r\<lparr>heap := h1\<rparr>)" "lists_rep h1 L1" "extends L L1"
    "L1 ?ty = Some cs" "dom L1 = insert ?ty (dom L)" "\<And>a. unlisted L a \<Longrightarrow> unlisted L1 a" "grows ?ty {} (heap r) h1"
    using adopt_type_rep [OF Cons.prems(1,2) _ Cons.prems(3), of own] Cons.prems(7,8) p by auto
  let ?r1 = "r\<lparr>heap := h1\<rparr>"
  have s1: "searchable this as ?r1"
    by (rule searchable_same(1) [OF Cons.prems(1)]) (use h1(7) in \<open>simp_all add: grows_def\<close>)
  have loose1: "loose_cast h1 L1 a" if "loose_cast (heap r) L a" for a
    using that h1(6,7) by (simp add: loose_cast_def grows_def)
  obtain h2 cs' where h2: "insert_casts this own ?ty row ?r1 = Some (?r1\<lparr>heap := h2\<rparr>)" "lists_rep h2 (L1(?ty \<mapsto> cs'))"
    "set cs \<subseteq> set cs'" "set cs' \<subseteq> set cs \<union> set row"
    "\<forall>cast \<in> set row. \<exists>a \<in> set cs'. cast_name h2 a = cast_name h2 cast" "grows ?ty (set cs \<union> set row) h1 h2"
    using insert_casts_rep [OF s1, of L1 ?ty cs row own] h1(2,4) loose1 Cons.prems(6,7) p by auto
  have g: "grows ?ty (set cs \<union> set row) (heap r) h2" using grows_trans [OF h1(7) h2(6)] by simp
  let ?m = "m\<lparr>sm_types := sm_types m @ [?ty]\<rparr>"
  let ?r2 = "r\<lparr>heap := h2, modules := (modules r)(this \<mapsto> ?m)\<rparr>" and ?L2 = "L1(?ty \<mapsto> cs')"
  have tn: "type_name h2 = type_name (heap r)" "cast_name h2 = cast_name (heap r)" using g by (simp_all add: grows_def)
  have out: "this \<notin> set as" using Cons.prems(1) by (simp add: searchable_def)
  have mods: "modules ?r2 b = modules r b" if "b \<in> set as" for b using out that by auto
  have nx: "map_option sm_next (modules ?r2 this) = map_option sm_next (modules r this)" using Cons.prems(4) by simp
  have names: "type_name (heap ?r2) = type_name (heap r)" using tn by simp
  have s2: "searchable this as ?r2" "loaded_types (heap ?r2) (modules ?r2) as = loaded"
    using searchable_same [OF Cons.prems(1) names mods nx] Cons.prems(8) by blast+
  have ad: "adopted h2 loaded = adopted (heap r) loaded" using tn by (simp add: adopted_def [abs_def])
  have "extends L1 ?L2" using h1(4) h2(3) by (rule extends_upd)
  with h1(3) have ex: "extends L ?L2" by (rule extends_trans)
  have dom2: "dom ?L2 = insert ?ty (dom L)" using h1(4,5) by auto
  have ty: "?ty = own \<or> ?ty \<in> dom L"
  proof (cases "loaded (the (type_name (heap r) own))")
    case (Some ty)
    then have "\<exists>b \<in> set as. ty \<in> set (table_of (modules r) b)"
      using loaded_types_Some(2) [OF Cons.prems(1)] Cons.prems(8) by simp
    then show ?thesis using Some Cons.prems(3) by (auto simp: adopted_def)
  qed (simp add: adopted_def)
  have un2: "unlisted ?L2 a" if "unlisted L a" "a \<notin> set row" for a
    using h1(4) h1(6) [OF that(1)] that(2) h2(4) by (auto simp: unlisted_def)
  have rest: "loose_type h2 ?L2 (fst q)" "\<forall>a \<in> set (snd q). loose_cast h2 ?L2 a" if q: "q \<in> set rows" for q
  proof -
    have t: "loose_type (heap r) L (fst q)" using Cons.prems(7) q by simp
    have "fst q \<noteq> own" using Cons.prems(5) p q by force
    then have ne: "fst q \<noteq> ?ty" using ty t by (auto simp: loose_type_def)
    moreover have "?L2 (fst q) = None" using dom2 ne t by (metis domIff insertE loose_type_def)
    ultimately show "loose_type h2 ?L2 (fst q)" using t tn g by (simp add: loose_type_def grows_def)
    show "\<forall>a \<in> set (snd q). loose_cast h2 ?L2 a"
    proof
      fix a assume a: "a \<in> set (snd q)"
      then have l: "loose_cast (heap r) L a" using Cons.prems(7) q by simp
      have row: "a \<notin> set row" using Cons.prems(6) p q a by fastforce
      have "cs = [] \<or> unlisted L1 a" using l h1(6) by (simp add: loose_cast_def)
      then have "a \<notin> set cs" using h1(4) by (auto simp: unlisted_def)
      then have "ci h2 a = ci (heap r) a" using g row by (simp add: grows_def)
      then show "loose_cast h2 ?L2 a" using l un2 row tn by (simp add: loose_cast_def)
    qed
  qed
  have dom_as: "\<forall>b \<in> set as. set (table_of (modules ?r2) b) \<subseteq> dom ?L2"
    using Cons.prems(3) dom2 out by (auto simp: table_of_def)
  have f: "lists_rep (heap ?r2) ?L2" "modules ?r2 this = Some ?m" "distinct (map fst rows)"
    "distinct (concat (map snd rows))"
    "\<forall>q \<in> set rows. loose_type (heap ?r2) ?L2 (fst q) \<and> (\<forall>a \<in> set (snd q). loose_cast (heap ?r2) ?L2 a)"
    using h2(2) Cons.prems(5,6) rest by simp_all
  from Cons.IH [OF s2(1) f(1) dom_as f(2-5) s2(2)]
  obtain h' L' where h': "init_types this rows ?r2 = Some (?r2\<lparr>heap := h', modules := (modules ?r2)(this \<mapsto>
      ?m\<lparr>sm_types := sm_types ?m @ map (adopted (heap ?r2) loaded \<circ> fst) rows\<rparr>)\<rparr>)" "lists_rep h' L'" "extends ?L2 L'"
    "dom L' = dom ?L2 \<union> adopted (heap ?r2) loaded ` fst ` set rows"
    "type_name h' = type_name (heap ?r2)" "cast_name h' = cast_name (heap ?r2)"
    "\<forall>p \<in> set rows. \<forall>cast \<in> set (snd p). \<exists>cs. L' (adopted (heap ?r2) loaded (fst p)) = Some cs \<and>
        (\<exists>a \<in> set cs. cast_name h' a = cast_name h' cast)"
    by blast
  show ?case
  proof (intro exI conjI)
    show "init_types this (p # rows) r = Some (r\<lparr>heap := h', modules := (modules r)(this \<mapsto>
        m\<lparr>sm_types := sm_types m @ map (adopted (heap r) loaded \<circ> fst) (p # rows)\<rparr>)\<rparr>)"
      using h1(1) h2(1) h'(1) Cons.prems(4) p ad by (simp add: set_type_def comp_def)
    show "lists_rep h' L'" by (rule h'(2))
    show "extends L L'" by (rule extends_trans [OF ex h'(3)])
    show "dom L' = dom L \<union> adopted (heap r) loaded ` fst ` set (p # rows)" using h'(4) dom2 ad p by auto
    show "type_name h' = type_name (heap r)" "cast_name h' = cast_name (heap r)" using h'(5,6) tn by simp_all
    show "\<forall>p \<in> set (p # rows). \<forall>cast \<in> set (snd p). \<exists>cs. L' (adopted (heap r) loaded (fst p)) = Some cs \<and>
        (\<exists>a \<in> set cs. cast_name h' a = cast_name h' cast)"
    proof -
      obtain ds where ds: "L' ?ty = Some ds" "set cs' \<subseteq> set ds" using h'(3) unfolding extends_def by (metis fun_upd_same)
      have "cast_name h' = cast_name h2" using h'(6) by simp
      then have "\<forall>cast \<in> set row. \<exists>a \<in> set ds. cast_name h' a = cast_name h' cast" using h2(5) ds(2) by (simp only:) blast
      then show ?thesis using ds(1) h'(7) p ad by auto
    qed
  qed
qed

section \<open>The registry\<close>

text \<open>
  The modules \<open>ms\<close> form the ring the interpreter knows, their tables are sorted by name, types
  of one name are one type, and \<open>L\<close> are the lists of casts.
\<close>

definition registry :: "swig_runtime \<Rightarrow> addr list \<Rightarrow> (addr \<rightharpoonup> addr list) \<Rightarrow> bool" where
  "registry r ms L \<longleftrightarrow>
     ms \<noteq> [] \<and> distinct ms \<and> capsule r = Some (hd ms) \<and> links (modules r) ms (hd ms) \<and>
     (\<forall>b \<in> set ms. \<exists>names. sorted_table (heap r) (table_of (modules r) b) names) \<and>
     (\<forall>b \<in> set ms. set (table_of (modules r) b) \<subseteq> dom L) \<and>
     (\<forall>b \<in> set ms. \<forall>c \<in> set ms. \<forall>t \<in> set (table_of (modules r) b). \<forall>u \<in> set (table_of (modules r) c).
        type_name (heap r) t = type_name (heap r) u \<longrightarrow> t = u) \<and>
     lists_rep (heap r) L"

text \<open>The tables of a module that has never been loaded, as SWIG generates them.\<close>

definition generated :: "swig_tables \<Rightarrow> swig_runtime \<Rightarrow> (addr \<rightharpoonup> addr list) \<Rightarrow> bool" where
  "generated tab r L \<longleftrightarrow>
     modules r (self tab) = None \<and> length (type_initial tab) = length (cast_initial tab) \<and>
     (\<exists>names. sorted_table (heap r) (type_initial tab) names) \<and> distinct (type_initial tab) \<and>
     distinct (concat (cast_initial tab)) \<and> (\<forall>own \<in> set (type_initial tab). loose_type (heap r) L own) \<and>
     (\<forall>a \<in> set (concat (cast_initial tab)). loose_cast (heap r) L a)"

lemma sorted_table_map:
  assumes "sorted_table h types names" "\<And>a. a \<in> set types \<Longrightarrow> type_name h' (f a) = type_name h a"
  shows "sorted_table h' (map f types) names"
proof -
  have "\<exists>t. ti h' (f (types ! i)) = Some t \<and> ti_name t = Some (names ! i)" if i: "i < length names" for i
  proof -
    have "type_name h (types ! i) = Some (names ! i)" using assms(1) i by (auto simp: sorted_table_def type_name_def)
    moreover have "types ! i \<in> set types" using assms(1) i by (simp add: sorted_table_def)
    ultimately have "type_name h' (f (types ! i)) = Some (names ! i)" using assms(2) by simp
    then show ?thesis by (auto simp: type_name_def bind_eq_Some_conv)
  qed
  then show ?thesis using assms(1) by (auto simp: sorted_table_def)
qed

lemma sorted_table_inj:
  assumes "sorted_table h types names" "a \<in> set types" "b \<in> set types" "type_name h a = type_name h b"
  shows "a = b"
proof -
  obtain i j where ij: "i < length types" "j < length types" "a = types ! i" "b = types ! j"
    using assms(2,3) by (auto simp: in_set_conv_nth)
  then have "type_name h a = Some (names ! i)" "type_name h b = Some (names ! j)"
    using assms(1) by (fastforce simp: sorted_table_def type_name_def)+
  then have "names ! i = names ! j" using assms(4) by simp
  moreover have "distinct names" using assms(1) by (simp add: sorted_table_def strict_sorted_iff)
  ultimately show ?thesis using ij assms(1) by (auto simp: sorted_table_def nth_eq_iff_index_eq)
qed

lemma adopted_name:
  assumes "searchable this as r" "type_name (heap r) own \<noteq> None"
  shows "type_name (heap r) (adopted (heap r) (loaded_types (heap r) (modules r) as) own) = type_name (heap r) own"
  using assms loaded_types_Some(1) [OF assms(1)] by (auto simp: adopted_def split: option.splits)

text \<open>What filling the table of \<open>this\<close> reaches, when the others of the ring are \<open>as\<close>.\<close>

definition filled ::
  "addr \<Rightarrow> addr list \<Rightarrow> swig_runtime \<Rightarrow> (addr \<rightharpoonup> addr list) \<Rightarrow> swig_module_info \<Rightarrow> addr list \<Rightarrow> addr list list \<Rightarrow>
    swig_runtime \<Rightarrow> (addr \<rightharpoonup> addr list) \<Rightarrow> bool"
where
  "filled this as r L m types rows r' L' \<longleftrightarrow>
    modules r' = (modules r)(this \<mapsto> m\<lparr>sm_types := types\<rparr>) \<and> capsule r' = capsule r \<and>
    (\<forall>b \<in> insert this (set as). \<exists>names. sorted_table (heap r') (table_of (modules r') b) names) \<and>
    (\<forall>b \<in> insert this (set as). set (table_of (modules r') b) \<subseteq> dom L') \<and>
    (\<forall>b \<in> insert this (set as). \<forall>c \<in> insert this (set as).
       \<forall>t \<in> set (table_of (modules r') b). \<forall>u \<in> set (table_of (modules r') c).
        type_name (heap r') t = type_name (heap r') u \<longrightarrow> t = u) \<and>
    lists_rep (heap r') L' \<and> extends L L' \<and> type_name (heap r') = type_name (heap r) \<and>
    (\<forall>(ty, row) \<in> set (zip types rows). \<forall>cast \<in> set row. \<exists>cs a. L' ty = Some cs \<and> a \<in> set cs \<and>
       cast_name (heap r') a = cast_name (heap r) cast)"

text \<open>The module \<open>this\<close> is in the ring, before the others \<open>as\<close>, with an empty table.\<close>

lemma fill_table:
  assumes s: "searchable this as r" and m: "modules r this = Some m" "sm_types m = []"
    and gen: "generated tab (r\<lparr>modules := (modules r)(self tab := None)\<rparr>) L" and self: "self tab = this"
    and L: "lists_rep (heap r) L" "\<forall>b \<in> set as. set (table_of (modules r) b) \<subseteq> dom L"
    and shared: "\<forall>b \<in> set as. \<forall>c \<in> set as. \<forall>t \<in> set (table_of (modules r) b). \<forall>u \<in> set (table_of (modules r) c).
        type_name (heap r) t = type_name (heap r) u \<longrightarrow> t = u"
  defines "types \<equiv> map (adopted (heap r) (loaded_types (heap r) (modules r) as)) (type_initial tab)"
  shows "\<exists>r' L'. init_types this (zip (type_initial tab) (cast_initial tab)) r = Some r' \<and>
    filled this as r L m types (cast_initial tab) r' L'"
proof -
  let ?loaded = "loaded_types (heap r) (modules r) as" and ?rows = "zip (type_initial tab) (cast_initial tab)"
  let ?ad = "adopted (heap r) ?loaded"
  have len: "length (type_initial tab) = length (cast_initial tab)" using gen by (simp add: generated_def)
  have fst_rows: "map fst ?rows = type_initial tab" and snd_rows: "map snd ?rows = cast_initial tab"
    using len by simp_all
  have loose: "\<forall>p \<in> set ?rows. loose_type (heap r) L (fst p) \<and> (\<forall>a \<in> set (snd p). loose_cast (heap r) L a)"
    using gen by (auto simp: generated_def dest: set_zip_leftD set_zip_rightD)
  have "distinct (map fst ?rows)" "distinct (concat (map snd ?rows))"
    using gen fst_rows snd_rows by (simp_all add: generated_def)
  from init_types_rep [OF s L m(1) this loose HOL.refl] obtain h' L' where init:
    "init_types this ?rows r = Some (r\<lparr>heap := h',
       modules := (modules r)(this \<mapsto> m\<lparr>sm_types := sm_types m @ map (?ad \<circ> fst) ?rows\<rparr>)\<rparr>)"
    "lists_rep h' L'" "extends L L'" "dom L' = dom L \<union> ?ad ` fst ` set ?rows"
    "type_name h' = type_name (heap r)" "cast_name h' = cast_name (heap r)"
    "\<forall>p \<in> set ?rows. \<forall>cast \<in> set (snd p). \<exists>cs. L' (?ad (fst p)) = Some cs \<and>
        (\<exists>a \<in> set cs. cast_name h' a = cast_name h' cast)"
    by blast
  have types: "sm_types m @ map (?ad \<circ> fst) ?rows = types"
    using m(2) fst_rows by (simp add: types_def map_map [symmetric] del: map_map)
  define r' where "r' = r\<lparr>heap := h', modules := (modules r)(this \<mapsto> m\<lparr>sm_types := types\<rparr>)\<rparr>"
  have out: "this \<notin> set as" using s by (simp add: searchable_def)
  have tab: "table_of (modules r') b = table_of (modules r) b" if "b \<in> set as" for b
    using out that by (auto simp: r'_def table_of_def)
  have tab_this: "table_of (modules r') this = types" by (simp add: r'_def table_of_def)
  have name: "type_name (heap r) (?ad own) = type_name (heap r) own" if "own \<in> set (type_initial tab)" for own
    using adopted_name [OF s] gen that by (auto simp: generated_def loose_type_def)
  obtain names where names: "sorted_table (heap r) (type_initial tab) names" using gen by (auto simp: generated_def)
  have sorted: "\<exists>names. sorted_table h' (table_of (modules r') b) names" if b: "b \<in> insert this (set as)" for b
  proof (cases "b = this")
    case True
    have "sorted_table h' types names"
      unfolding types_def by (rule sorted_table_map [OF names]) (simp add: init(5) name)
    then show ?thesis using True tab_this by auto
  next
    case False
    then have b: "b \<in> set as" using b by simp
    then obtain ns where "sorted_table (heap r) (table_of (modules r) b) ns" using s by (auto simp: searchable_def)
    then show ?thesis using sorted_table_same [OF init(5)] tab [OF b] by auto
  qed
  have fst_set: "fst ` set ?rows = set (type_initial tab)" using fst_rows by (metis set_map)
  have dom: "set (table_of (modules r') b) \<subseteq> dom L'" if "b \<in> insert this (set as)" for b
    using that L(2) tab tab_this init(4) fst_set by (cases "b = this") (auto simp: types_def)
  have one: "t = u"
    if b: "b \<in> insert this (set as)" "c \<in> insert this (set as)"
      and t: "t \<in> set (table_of (modules r') b)" "u \<in> set (table_of (modules r') c)"
      and n: "type_name (heap r) t = type_name (heap r) u" for b c t u
  proof -
    have canon: "case ?loaded n of None \<Rightarrow> t \<in> set (type_initial tab) | Some a \<Rightarrow> t = a"
      if at: "b \<in> insert this (set as)" "t \<in> set (table_of (modules r') b)" "type_name (heap r) t = Some n" for b t n
    proof (cases "b = this")
      case True
      then obtain own where own: "own \<in> set (type_initial tab)" "t = ?ad own" using at tab_this by (auto simp: types_def)
      then have "type_name (heap r) own = Some n" using name at by simp
      then show ?thesis using own by (auto simp: adopted_def split: option.splits)
    next
      case False
      then have b: "b \<in> set as" "t \<in> set (table_of (modules r) b)" using at tab by auto
      then obtain a where a: "?loaded n = Some a" using loaded_types_None [OF _ b] at(3) by (cases "?loaded n") auto
      then show ?thesis using loaded_types_Some [OF s a] shared b at(3) by auto
    qed
    have "\<exists>n. type_name (heap r) t = Some n" using sorted [OF b(1)] sorted_table_names t(1) init(5) by metis
    then obtain n where "type_name (heap r) t = Some n" "type_name (heap r) u = Some n" using n by auto
    with canon [OF b(1) t(1)] canon [OF b(2) t(2)] sorted_table_inj [OF names] show ?thesis
      by (auto split: option.splits)
  qed
  have avail: "\<exists>cs a. L' ty = Some cs \<and> a \<in> set cs \<and> cast_name h' a = cast_name (heap r) cast"
    if at: "(ty, row) \<in> set (zip types (cast_initial tab))" "cast \<in> set row" for ty row cast
  proof -
    obtain own where "(own, row) \<in> set ?rows" "ty = ?ad own" using at(1) by (auto simp: types_def zip_map1)
    then show ?thesis using init(6,7) at(2) by fastforce
  qed
  have fields: "heap r' = h'" "capsule r' = capsule r" "modules r' = (modules r)(this \<mapsto> m\<lparr>sm_types := types\<rparr>)"
    by (simp_all add: r'_def)
  show ?thesis
    unfolding filled_def
  proof (intro exI conjI)
    show "init_types this ?rows r = Some r'" using init(1) types by (simp add: r'_def)
    show "\<forall>b \<in> insert this (set as). \<forall>c \<in> insert this (set as).
       \<forall>t \<in> set (table_of (modules r') b). \<forall>u \<in> set (table_of (modules r') c).
        type_name (heap r') t = type_name (heap r') u \<longrightarrow> t = u"
      unfolding fields(1) init(5) using one by (intro ballI impI)
    show "\<forall>b \<in> insert this (set as). \<exists>names. sorted_table (heap r') (table_of (modules r') b) names"
      using sorted fields(1) by simp
    show "\<forall>b \<in> insert this (set as). set (table_of (modules r') b) \<subseteq> dom L'" using dom by blast
    show "\<forall>(ty, row) \<in> set (zip types (cast_initial tab)). \<forall>cast \<in> set row. \<exists>cs a. L' ty = Some cs \<and> a \<in> set cs \<and>
       cast_name (heap r') a = cast_name (heap r) cast"
      using avail fields(1) by blast
    show "lists_rep (heap r') L'" "type_name (heap r') = type_name (heap r)" using init(2,5) fields(1) by simp_all
  qed (rule fields init(3))+
qed

text \<open>In a registry every module finds the type of a name, and all find the same.\<close>

lemma registry_lookup:
  assumes reg: "registry r ms L" and b: "b \<in> set ms" and c: "c \<in> set ms" "t \<in> set (table_of (modules r) c)"
    and n: "type_name (heap r) t = Some n"
  shows "SWIG_MangledTypeQueryModule (heap r) (modules r) b b n = Some (Some t)"
proof -
  obtain us vs where ms: "ms = us @ b # vs" using b by (meson split_list)
  have l: "links (modules r) us b" "links (modules r) (b # vs) (hd ms)"
    using reg ms links_append [of "modules r" us "b # vs"] by (auto simp: registry_def)
  have "links (modules r) ((b # vs) @ us) b"
    unfolding links_append using l ms by (cases us) simp_all
  moreover have "b \<notin> set (vs @ us)" using reg ms by (auto simp: registry_def)
  ultimately have ring: "ring_from (modules r) (b # vs @ us) b" by (intro links_ring) simp_all
  let ?xs = "concat (map (\<lambda>b. named_types (heap r) (table_of (modules r) b)) (b # vs @ us))"
  have sorted: "\<forall>d \<in> set (b # vs @ us). \<exists>names. sorted_table (heap r) (table_of (modules r) d) names"
    using reg ms by (auto simp: registry_def)
  have "(t, n) \<in> set (named_types (heap r) (table_of (modules r) c))"
    using c(2) n by (force simp: named_types_def type_name_def)
  then have "n \<in> snd ` set ?xs" using c(1) ms by force
  then obtain a where a: "first_in_table n ?xs = Some a" using first_in_table_None [of n ?xs] by auto
  then obtain d where d: "d \<in> set ms" "a \<in> set (table_of (modules r) d)" "n = the (type_name (heap r) a)"
    using first_in_table_Some [OF a] ms by (force simp: named_types_def type_name_def)
  then have "type_name (heap r) a = Some n"
    using reg sorted_table_names [of "heap r" "table_of (modules r) d"] by (fastforce simp: registry_def)
  then have "a = t" using reg d c n unfolding registry_def by metis
  then show ?thesis using mangled_query_ring [OF ring sorted, of n] a by simp
qed

lemma registry_check:
  assumes reg: "registry r ms L" and ty: "L ty = Some cs" "a \<in> set cs" "cast_name (heap r) a = Some n"
  shows "\<exists>b h. SWIG_TypeCheck n (Some ty) (heap r) = Some (Some b, h) \<and> cast_name h b = Some n"
proof -
  have rep: "casts_rep (heap r) ty cs" "\<forall>a \<in> set cs. cast_name (heap r) a \<noteq> None"
    using reg ty(1) by (auto simp: registry_def lists_rep_def)
  let ?P = "\<lambda>a. cast_name (heap r) a = Some n"
  obtain h where h: "SWIG_TypeCheck n (Some ty) (heap r) = Some (first_hit ?P cs, h)"
    "only_changes ty (set cs) (heap r) h"
    using type_check_rep [OF rep] by blast
  have "first_hit ?P cs \<noteq> None" using ty(2,3) by (auto simp: first_hit_def find_None_iff)
  then obtain b where b: "first_hit ?P cs = Some b" by blast
  then have "cast_name (heap r) b = Some n" by (auto simp: first_hit_def find_Some_iff)
  moreover have "cast_name h = cast_name (heap r)" using only_changes_grows [OF h(2) order_refl] by (simp add: grows_def)
  ultimately show ?thesis using h(1) b by simp
qed

section \<open>Loading\<close>

lemma get_module:
  assumes "type_pointer r this = NULL \<or> type_pointer r this = capsule r"
  obtains r1 where "SWIG_Python_GetModule this r = (capsule r, r1)" "heap r1 = heap r" "modules r1 = modules r"
    "capsule r1 = capsule r"
  using assms by (cases "type_pointer r this") (auto simp: SWIG_Python_GetModule_def)

text \<open>What loading promises: \<open>loaded\<close> is the type the others had for a name.\<close>

definition loads ::
  "swig_tables \<Rightarrow> swig_runtime \<Rightarrow> (addr \<rightharpoonup> addr list) \<Rightarrow> (string \<Rightarrow> ptr) \<Rightarrow> swig_runtime \<Rightarrow> (addr \<rightharpoonup> addr list) \<Rightarrow> bool"
where
  "loads tab r L loaded r' L' \<longleftrightarrow>
     table_of (modules r') (self tab) = map (adopted (heap r) loaded) (type_initial tab) \<and>
     (\<forall>b. b \<noteq> self tab \<longrightarrow> table_of (modules r') b = table_of (modules r) b) \<and>
     extends L L' \<and> type_name (heap r') = type_name (heap r) \<and>
     (\<forall>(ty, row) \<in> set (zip (table_of (modules r') (self tab)) (cast_initial tab)). \<forall>cast \<in> set row.
        \<exists>cs a. L' ty = Some cs \<and> a \<in> set cs \<and> cast_name (heap r') a = cast_name (heap r) cast)"

lemma filled_registry:
  assumes "filled this as r L m types rows r' L'" "ms \<noteq> []" "distinct ms" "set ms = insert this (set as)"
    "capsule r = Some (hd ms)" "links (modules r') ms (hd ms)"
  shows "registry r' ms L'"
  using assms(1,2,3,6) unfolding registry_def filled_def assms(4) [symmetric] assms(5) by (elim conjE) (intro conjI, assumption+)

lemma load_first:
  assumes first: "capsule r = NULL" "type_pointer r (self tab) = NULL"
    and gen: "generated tab r L" and L: "lists_rep (heap r) L"
  shows "\<exists>r' L'. SWIG_InitializeModule True tab r = Some r' \<and> registry r' [self tab] L' \<and>
    loads tab r L (\<lambda>_. NULL) r' L'"
proof -
  let ?m = "\<lparr>sm_types = [], sm_next = self tab\<rparr>"
  let ?r = "r\<lparr>modules := (modules r)(self tab \<mapsto> ?m), type_pointer := (type_pointer r)(self tab := NULL),
    capsule := Some (self tab)\<rparr>"
  have new: "modules r (self tab) = None" using gen by (simp add: generated_def)
  have s: "searchable (self tab) [] ?r" by (simp add: searchable_def)
  have "(modules r)(self tab := None) = modules r" using new by auto
  then have gen': "generated tab (?r\<lparr>modules := (modules ?r)(self tab := None)\<rparr>) L"
    using gen by (simp add: generated_def)
  have loaded: "loaded_types (heap ?r) (modules ?r) [] = (\<lambda>_. NULL)" by (simp add: loaded_types_def fun_eq_iff)
  have "modules ?r (self tab) = Some ?m" "sm_types ?m = []" by simp_all
  from fill_table [OF s this gen' HOL.refl, unfolded loaded] L obtain r' L' where
    r': "init_types (self tab) (zip (type_initial tab) (cast_initial tab)) ?r = Some r'"
    and f: "filled (self tab) [] ?r L ?m (map (adopted (heap ?r) (\<lambda>_. NULL)) (type_initial tab)) (cast_initial tab) r' L'"
    by auto
  have "SWIG_InitializeModule True tab r = Some r'"
    using r' new first
    by (simp add: SWIG_InitializeModule_def load_module_def Let_def join_ring_def enter_ring_def SWIG_Python_GetModule_def SWIG_Python_SetModule_def)
  moreover have "registry r' [self tab] L'"
    by (rule filled_registry [OF f]) (use f in \<open>simp_all add: filled_def\<close>)
  moreover have "loads tab r L (\<lambda>_. NULL) r' L'"
    using f by (simp add: loads_def filled_def table_of_def)
  ultimately show ?thesis by blast
qed

lemma load_next:
  assumes reg: "registry r ms L" and gen: "generated tab r L"
    and tp: "type_pointer r (self tab) = NULL \<or> type_pointer r (self tab) = capsule r"
  shows "\<exists>r' L'. SWIG_InitializeModule stored tab r = Some r' \<and> registry r' (hd ms # self tab # tl ms) L' \<and>
    loads tab r L (loaded_types (heap r) (modules r) (tl ms @ [hd ms])) r' L'"
proof -
  obtain head vs where ms: "ms = head # vs" using reg by (cases ms) (auto simp: registry_def)
  let ?self = "self tab"
  have new: "modules r ?self = None" using gen by (simp add: generated_def)
  have links: "links (modules r) ms head" and dist: "distinct ms" and cap: "capsule r = Some head"
    using reg ms by (simp_all add: registry_def)
  have "modules r b \<noteq> None" if "b \<in> set bs" "links (modules r) bs stop" for b bs stop
    using that by (induction bs) auto
  then have out: "?self \<notin> set ms" using links new by blast
  obtain h where h: "modules r head = Some h" "sm_next h = (case vs of [] \<Rightarrow> head | v # _ \<Rightarrow> v)"
    using links ms by auto
  have vs: "links (modules r) vs head" using links ms by simp
  let ?m = "\<lparr>sm_types = [], sm_next = ?self\<rparr>" and ?m' = "\<lparr>sm_types = [], sm_next = sm_next h\<rparr>"
  let ?start = "r\<lparr>modules := (modules r)(?self \<mapsto> ?m)\<rparr>"
  obtain r1 where r1: "SWIG_Python_GetModule ?self ?start = (Some head, r1)" "heap r1 = heap r"
    "modules r1 = (modules r)(?self \<mapsto> ?m)" "capsule r1 = Some head"
    using get_module [of ?start ?self] tp cap by auto
  let ?mods = "(modules r)(?self \<mapsto> ?m', head \<mapsto> h\<lparr>sm_next := ?self\<rparr>)"
  let ?r = "r1\<lparr>modules := ?mods\<rparr>" and ?as = "vs @ [head]"
  have ne: "head \<noteq> ?self" "?self \<notin> set vs" "head \<notin> set vs" using out dist ms by auto
  have "links (modules r1) (head # vs) head"
    using links ms ne r1(3) by (subst links_cong [of _ _ "modules r"]) auto
  then have "find_module (modules r1) ?self head head = Some False"
    using find_module_links [of "modules r1" head vs head ?self] ne by auto
  then have join: "join_ring stored ?self ?start = Some (True, ?r)"
    using r1 h ne by (auto simp: join_ring_def enter_ring_def set_module_next_def)
  have vs': "links ?mods vs head"
    using vs ne by (subst links_cong [of _ _ "modules r"]) auto
  have tab: "table_of ?mods b = table_of (modules r) b" if "b \<noteq> ?self" for b
    using h that by (auto simp: table_of_def)
  have tabs: "table_of (modules ?r) b = table_of (modules r) b" if "b \<in> set ?as" for b
    using tab [of b] that ne by auto
  have s: "searchable ?self ?as ?r"
    unfolding searchable_def
  proof (intro conjI)
    show "links (modules ?r) (?self # ?as) ?self"
    proof -
      have "links ?mods ?as ?self" using vs' by (simp add: links_append)
      then show ?thesis using h(2) ne by (cases vs) simp_all
    qed
    show "\<forall>b \<in> set ?as. \<exists>names. sorted_table (heap ?r) (table_of (modules ?r) b) names"
    proof
      fix b assume b: "b \<in> set ?as"
      then have "b \<in> set ms" using ms by auto
      then show "\<exists>names. sorted_table (heap ?r) (table_of (modules ?r) b) names"
        unfolding tabs [OF b] using reg r1(2) by (simp add: registry_def)
    qed
  qed (use ne in auto)
  have loaded: "loaded_types (heap ?r) (modules ?r) ?as = loaded_types (heap r) (modules r) ?as"
  proof -
    have "map (\<lambda>b. named_types (heap ?r) (table_of (modules ?r) b)) ?as =
        map (\<lambda>b. named_types (heap r) (table_of (modules r) b)) ?as"
      using tabs r1(2) by (intro map_cong) simp_all
    then show ?thesis unfolding loaded_types_def by (simp only:)
  qed
  have gen': "generated tab (?r\<lparr>modules := (modules ?r)(?self := None)\<rparr>) L"
    using gen r1(2) by (simp add: generated_def)
  have m: "modules ?r ?self = Some ?m'" "sm_types ?m' = []" using ne by auto
  have as_ms: "set ?as = set ms" using ms by auto
  have dom: "\<forall>b \<in> set ?as. set (table_of (modules ?r) b) \<subseteq> dom L"
  proof
    fix b assume b: "b \<in> set ?as"
    then show "set (table_of (modules ?r) b) \<subseteq> dom L"
      unfolding tabs [OF b] using reg b unfolding as_ms registry_def by blast
  qed
  have shared: "\<forall>b \<in> set ?as. \<forall>c \<in> set ?as. \<forall>t \<in> set (table_of (modules ?r) b). \<forall>u \<in> set (table_of (modules ?r) c).
      type_name (heap ?r) t = type_name (heap ?r) u \<longrightarrow> t = u"
  proof (intro ballI impI)
    fix b c t u
    assume b: "b \<in> set ?as" "c \<in> set ?as" and "t \<in> set (table_of (modules ?r) b)" "u \<in> set (table_of (modules ?r) c)"
      and "type_name (heap ?r) t = type_name (heap ?r) u"
    then have "t \<in> set (table_of (modules r) b)" "u \<in> set (table_of (modules r) c)"
      "type_name (heap r) t = type_name (heap r) u"
      unfolding tabs [OF b(1)] tabs [OF b(2)] using r1(2) by simp_all
    then show "t = u" using reg b unfolding as_ms registry_def by blast
  qed
  have "lists_rep (heap ?r) L" using reg r1(2) by (simp add: registry_def)
  from fill_table [OF s m gen' HOL.refl this dom shared, unfolded loaded] obtain r' L' where
    r': "init_types ?self (zip (type_initial tab) (cast_initial tab)) ?r = Some r'"
    and f: "filled ?self ?as ?r L ?m' (map (adopted (heap ?r) (loaded_types (heap r) (modules r) ?as)) (type_initial tab))
      (cast_initial tab) r' L'"
    by blast
  have mods: "modules r' = ?mods(?self \<mapsto> ?m'\<lparr>sm_types :=
      map (adopted (heap r) (loaded_types (heap r) (modules r) ?as)) (type_initial tab)\<rparr>)"
    using f r1(2) by (simp add: filled_def)
  have "SWIG_InitializeModule stored tab r = Some r'"
    using r' new join by (simp add: SWIG_InitializeModule_def load_module_def Let_def)
  moreover have "registry r' (head # ?self # vs) L'"
  proof (rule filled_registry [OF f])
    show "distinct (head # ?self # vs)" using dist ms ne by auto
    show "set (head # ?self # vs) = insert ?self (set ?as)" by auto
    have "links (modules r') vs head"
      using vs' ne unfolding mods by (subst links_cong [of _ _ ?mods]) auto
    then show "links (modules r') (head # ?self # vs) (hd (head # ?self # vs))"
      using h(2) ne unfolding mods by (cases vs) simp_all
  qed (use r1(4) in simp_all)
  moreover have "loads tab r L (loaded_types (heap r) (modules r) ?as) r' L'"
    unfolding loads_def
  proof (intro conjI allI impI)
    show "table_of (modules r') ?self = map (adopted (heap r) (loaded_types (heap r) (modules r) ?as)) (type_initial tab)"
      unfolding mods by (simp add: table_of_def)
    then show "\<forall>(ty, row) \<in> set (zip (table_of (modules r') ?self) (cast_initial tab)). \<forall>cast \<in> set row.
        \<exists>cs a. L' ty = Some cs \<and> a \<in> set cs \<and> cast_name (heap r') a = cast_name (heap r) cast"
      using f r1(2) by (simp add: filled_def)
    show "table_of (modules r') b = table_of (modules r) b" if "b \<noteq> ?self" for b
      using that h(1) unfolding mods by (simp add: table_of_def)
  qed (use f r1(2) in \<open>simp_all add: filled_def\<close>)
  ultimately show ?thesis using ms by auto
qed

lemma load_again:
  assumes reg: "registry r ms L" and mem: "self tab \<in> set ms"
    and tp: "type_pointer r (self tab) = NULL \<or> type_pointer r (self tab) = capsule r"
  shows "\<exists>r'. SWIG_InitializeModule stored tab r = Some r' \<and> heap r' = heap r \<and> modules r' = modules r \<and>
    capsule r' = capsule r"
proof -
  obtain head vs where ms: "ms = head # vs" using reg by (cases ms) (auto simp: registry_def)
  have links: "links (modules r) (head # vs) head" "head \<notin> set vs" "capsule r = Some head"
    using reg ms by (auto simp: registry_def)
  obtain r1 where r1: "SWIG_Python_GetModule (self tab) r = (Some head, r1)" "heap r1 = heap r"
    "modules r1 = modules r" "capsule r1 = Some head"
    using get_module [OF tp] links(3) by metis
  have "find_module (modules r1) (self tab) head head = Some True"
    using find_module_links [OF links(1,2), of "self tab"] mem ms r1(3) by simp
  then have "join_ring stored (self tab) r = Some (False, r1)" using r1(1) by (simp add: join_ring_def enter_ring_def)
  moreover have "modules r b \<noteq> None" if "b \<in> set bs" "links (modules r) bs stop" for b bs stop
    using that by (induction bs) auto
  then have "modules r (self tab) \<noteq> None" using mem links(1) ms by blast
  ultimately show ?thesis using r1 links(3) by (auto simp: SWIG_InitializeModule_def load_module_def Let_def)
qed

section \<open>The first module, with casts to itself only\<close>

text \<open>Static tables in which the cast of each type is its own; linking them.\<close>

definition self_casts :: "nat \<Rightarrow> swig_heap \<Rightarrow> bool" where
  "self_casts n h \<longleftrightarrow> (\<forall>a < n. ci h a = Some \<lparr>ci_type = a, ci_converter = None, ci_next = NULL, ci_prev = NULL\<rparr> \<and>
     (\<exists>t. ti h a = Some t \<and> ti_cast t = NULL))"

definition linked_casts :: "nat \<Rightarrow> swig_heap \<Rightarrow> swig_heap" where
  "linked_casts k h = h\<lparr>ti := (\<lambda>a. if a < k then map_option (\<lambda>t. t\<lparr>ti_cast := Some a\<rparr>) (ti h a) else ti h a)\<rparr>"

lemma linked_casts_0: "linked_casts 0 h = h"
  by (simp add: linked_casts_def)

lemma link_own_cast:
  assumes k: "k < n" "self_casts n h" and m: "modules r s = Some m" "sm_next m = s" and h: "heap r = linked_casts k h"
  shows "insert_casts s k k [k] r = Some (r\<lparr>heap := linked_casts (Suc k) h\<rparr>)" "adopt_type s k r = Some (k, r)"
proof -
  obtain t where t: "ti h k = Some t" "ti_cast t = NULL"
    and c: "ci h k = Some \<lparr>ci_type = k, ci_converter = None, ci_next = NULL, ci_prev = NULL\<rparr>"
    using k by (auto simp: self_casts_def)
  have "(ti (linked_casts k h))(k \<mapsto> t\<lparr>ti_cast := Some k\<rparr>) = ti (linked_casts (Suc k) h)"
    using t by (auto simp: fun_eq_iff linked_casts_def less_Suc_eq)
  moreover have "(linked_casts k h)\<lparr>ti := ti (linked_casts (Suc k) h)\<rparr> = linked_casts (Suc k) h" by (simp add: linked_casts_def)
  moreover have "ti (linked_casts k h) k = Some t" using t by (simp add: linked_casts_def)
  ultimately have "link_cast k k (linked_casts k h) = Some (linked_casts (Suc k) h)"
    using t(2) by (simp add: link_cast_def set_cast_def)
  moreover have "ci (linked_casts k h) = ci h" by (simp add: linked_casts_def)
  ultimately show "insert_casts s k k [k] r = Some (r\<lparr>heap := linked_casts (Suc k) h\<rparr>)"
    using m c h by (simp add: insert_cast_def loaded_type_def)
  show "adopt_type s k r = Some (k, r)" using m by (simp add: adopt_type_def loaded_type_def)
qed

lemma init_own_types:
  assumes own: "self_casts n h"
  shows "k + d = n \<Longrightarrow> heap r = linked_casts k h \<Longrightarrow> modules r s = Some \<lparr>sm_types = [0..<k], sm_next = s\<rparr> \<Longrightarrow>
    init_types s (zip [k..<n] (map (\<lambda>a. [a]) [k..<n])) r =
      Some (r\<lparr>heap := linked_casts n h, modules := (modules r)(s \<mapsto> \<lparr>sm_types = [0..<n], sm_next = s\<rparr>)\<rparr>)"
proof (induction d arbitrary: k r)
  case 0
  then have "k = n" "(modules r)(s \<mapsto> \<lparr>sm_types = [0..<n], sm_next = s\<rparr>) = modules r" by auto
  with 0 show ?case by simp
next
  case (Suc d)
  then have k: "k < n" by simp
  let ?r = "r\<lparr>heap := linked_casts (Suc k) h, modules := (modules r)(s \<mapsto> \<lparr>sm_types = [0..<Suc k], sm_next = s\<rparr>)\<rparr>"
  have "init_types s (zip [Suc k..<n] (map (\<lambda>a. [a]) [Suc k..<n])) ?r =
      Some (?r\<lparr>heap := linked_casts n h, modules := (modules ?r)(s \<mapsto> \<lparr>sm_types = [0..<n], sm_next = s\<rparr>)\<rparr>)"
    by (rule Suc.IH) (use Suc.prems in simp_all)
  then show ?case
    using link_own_cast [OF k own Suc.prems(3) _ Suc.prems(2)] Suc.prems(3) k
    by (simp add: upt_conv_Cons [OF k] set_type_def del: insert_casts.simps fun_upd_apply)
qed

end
