(* ===== verification/Swig_Data.thy ===== *)
theory Swig_Data
  imports Swig_Load
begin

text \<open>
  Client data in the type registry: setting it on a type ends although casts form cycles, and
  reaches every type that casts without conversion, except behind types that had data.
\<close>

section \<open>Spreading\<close>

definition client_data :: "swig_heap \<Rightarrow> addr \<Rightarrow> ptr" where
  "client_data h t = (case ti h t of None \<Rightarrow> NULL | Some u \<Rightarrow> ti_clientdata u)"

text \<open>Types without data may get \<open>data\<close>; nothing else changes.\<close>

definition spreads :: "ptr \<Rightarrow> swig_heap \<Rightarrow> swig_heap \<Rightarrow> bool" where
  "spreads data h h' \<longleftrightarrow> ci h' = ci h \<and>
     (\<forall>t. ti h' t = ti h t \<or>
       (\<exists>u. ti h t = Some u \<and> ti_clientdata u = NULL \<and> ti h' t = Some (u\<lparr>ti_clientdata := data\<rparr>)))"

text \<open>The casts \<open>cs\<close> that need no conversion come from types with data.\<close>

definition reached :: "swig_heap \<Rightarrow> addr list \<Rightarrow> bool" where
  "reached h cs \<longleftrightarrow>
     (\<forall>a \<in> set cs. \<forall>c. ci h a = Some c \<and> ci_converter c = None \<longrightarrow> client_data h (ci_type c) \<noteq> NULL)"

text \<open>The lists \<open>L\<close> are there, and their casts come from types with lists.\<close>

definition cast_graph :: "swig_heap \<Rightarrow> (addr \<rightharpoonup> addr list) \<Rightarrow> bool" where
  "cast_graph h L \<longleftrightarrow> finite (dom L) \<and>
     (\<forall>t cs. L t = Some cs \<longrightarrow> (\<exists>u. ti h t = Some u \<and> path (nxt h) (ti_cast u) cs NULL) \<and>
        (\<forall>a \<in> set cs. \<exists>c. ci h a = Some c \<and> ci_type c \<in> dom L))"

definition waiting :: "swig_heap \<Rightarrow> (addr \<rightharpoonup> addr list) \<Rightarrow> addr set" where
  "waiting h L = {t \<in> dom L. client_data h t = NULL}"

lemma spreads_refl: "spreads data h h"
  by (simp add: spreads_def)

lemma spreads_cases:
  assumes "spreads data h h'"
  obtains "ti h' t = ti h t"
  | u where "ti h t = Some u" "ti_clientdata u = NULL" "ti h' t = Some (u\<lparr>ti_clientdata := data\<rparr>)"
  using assms unfolding spreads_def by blast

lemma spreads_trans:
  assumes s: "spreads data h h1" "spreads data h1 h2"
  shows "spreads data h h2"
proof -
  have "ti h2 t = ti h t \<or> (\<exists>u. ti h t = Some u \<and> ti_clientdata u = NULL \<and> ti h2 t = Some (u\<lparr>ti_clientdata := data\<rparr>))" for t
  proof (cases rule: spreads_cases [OF s(1), of t, case_names same new])
    case same
    then show ?thesis using s(2) unfolding spreads_def by metis
  next
    case (new u)
    show ?thesis by (rule spreads_cases [OF s(2), of t]) (use new in auto)
  qed
  then show ?thesis using s by (simp add: spreads_def)
qed

lemma spreads_data: "spreads data h h' \<Longrightarrow> client_data h t \<noteq> NULL \<Longrightarrow> client_data h' t = client_data h t"
  by (erule spreads_cases [of _ _ _ t]) (simp_all add: client_data_def)

lemma spreads_new: "spreads data h h' \<Longrightarrow> client_data h t = NULL \<Longrightarrow> client_data h' t \<noteq> NULL \<Longrightarrow> client_data h' t = data"
  by (erule spreads_cases [of _ _ _ t]) (simp_all add: client_data_def)

lemma reached_Cons: "reached h (b # vs) \<longleftrightarrow> reached h [b] \<and> reached h vs"
  by (auto simp: reached_def)

lemma spreads_reached: "spreads data h h' \<Longrightarrow> reached h cs \<Longrightarrow> reached h' cs"
  using spreads_data [of data h h'] by (auto simp: reached_def spreads_def)

lemma spreads_cast_graph:
  assumes "spreads data h h'" "cast_graph h L"
  shows "cast_graph h' L"
proof -
  have ci: "ci h' = ci h" and nx: "nxt h' = nxt h" using assms(1) by (auto simp: spreads_def nxt_def)
  have "\<exists>u. ti h' t = Some u \<and> path (nxt h') (ti_cast u) cs NULL" if l: "L t = Some cs" for t cs
  proof -
    obtain u where u: "ti h t = Some u" "path (nxt h) (ti_cast u) cs NULL"
      using assms(2) l unfolding cast_graph_def by blast
    have "ti h' t = ti h t \<or> (\<exists>u. ti h t = Some u \<and> ti_clientdata u = NULL \<and> ti h' t = Some (u\<lparr>ti_clientdata := data\<rparr>))"
      using assms(1) by (simp add: spreads_def)
    then show ?thesis using u nx by auto
  qed
  then show ?thesis using assms(2) ci by (simp add: cast_graph_def)
qed

lemma spreads_waiting: "spreads data h h' \<Longrightarrow> waiting h' L \<subseteq> waiting h L"
  using spreads_data [of data h h'] by (fastforce simp: waiting_def)

lemma set_data:
  assumes "ti h t = Some u"
  shows "client_data (h\<lparr>ti := (ti h)(t \<mapsto> u\<lparr>ti_clientdata := data\<rparr>)\<rparr>) t = data"
    "ti_clientdata u = NULL \<Longrightarrow> spreads data h (h\<lparr>ti := (ti h)(t \<mapsto> u\<lparr>ti_clientdata := data\<rparr>)\<rparr>)"
  using assms by (auto simp: client_data_def spreads_def)

text \<open>Every type that got data has passed it on.\<close>

definition passed_on :: "swig_heap \<Rightarrow> swig_heap \<Rightarrow> (addr \<rightharpoonup> addr list) \<Rightarrow> bool" where
  "passed_on h h' L \<longleftrightarrow>
     (\<forall>t cs. L t = Some cs \<and> client_data h t = NULL \<and> client_data h' t \<noteq> NULL \<longrightarrow> reached h' cs)"

lemma passed_on_trans:
  assumes "passed_on h h1 L" "passed_on h1 h2 L" "spreads data h1 h2"
  shows "passed_on h h2 L"
  using assms spreads_reached [OF assms(3)] unfolding passed_on_def by metis

lemma client_data_loop:
  assumes d: "data \<noteq> NULL"
  shows "cast_graph h L \<Longrightarrow> card (waiting h L) = k \<Longrightarrow> L t = Some (us @ vs) \<Longrightarrow> path (nxt h) iter vs NULL \<Longrightarrow>
    \<exists>h'. SWIG_TypeClientData a data (Some iter) h = Some h' \<and> spreads data h h' \<and> reached h' vs \<and> passed_on h h' L"
proof (induction k arbitrary: h t us vs iter a rule: less_induct)
  case (less k)
  from less.prems show ?case
  proof (induction vs arbitrary: us iter)
    case Nil
    then show ?case
      by (subst SWIG_TypeClientData.simps) (auto simp: spreads_refl reached_def passed_on_def)
  next
    case (Cons b vs)
    obtain c where c: "ci h b = Some c" "iter = Some b" "path (nxt h) (ci_next c) vs NULL"
      using Cons.prems(4) nxt_def [of h b] by (auto split: option.splits)
    have "\<forall>a \<in> set (us @ b # vs). \<exists>c. ci h a = Some c \<and> ci_type c \<in> dom L"
      using Cons.prems(1,3) unfolding cast_graph_def by blast
    then obtain ds where ds: "L (ci_type c) = Some ds" using c(1) by auto
    then obtain u where u: "ti h (ci_type c) = Some u" "path (nxt h) (ti_cast u) ds NULL"
      using Cons.prems(1) unfolding cast_graph_def by blast
    show ?case
    proof (cases "ci_converter c = None \<and> ti_clientdata u = NULL")
      case False
      have "L t = Some ((us @ [b]) @ vs)" using Cons.prems(3) by simp
      from Cons.IH [OF Cons.prems(1,2) this c(3)] obtain h' where
        h': "SWIG_TypeClientData a data (Some (ci_next c)) h = Some h'" "spreads data h h'" "reached h' vs" "passed_on h h' L"
        by blast
      have "SWIG_TypeClientData a data (Some iter) h = Some h'"
        using False c(1,2) u(1) h'(1) by (subst SWIG_TypeClientData.simps) auto
      moreover have "reached h [b]" using False c(1) u(1) by (auto simp: reached_def client_data_def)
      then have "reached h' [b]" by (rule spreads_reached [OF h'(2)])
      then have "reached h' (b # vs)" using h'(3) reached_Cons by blast
      ultimately show ?thesis using h'(2,4) by blast
    next
      case True
      let ?h1 = "h\<lparr>ti := (ti h)(ci_type c \<mapsto> u\<lparr>ti_clientdata := data\<rparr>)\<rparr>"
      have s1: "spreads data h ?h1" and cd: "client_data ?h1 (ci_type c) = data"
        using set_data [OF u(1)] True by simp_all
      have g1: "cast_graph ?h1 L" by (rule spreads_cast_graph [OF s1 Cons.prems(1)])
      have nx1: "nxt ?h1 = nxt h" by (simp add: nxt_def [abs_def])
      have fin: "finite (waiting h L)" using Cons.prems(1) by (simp add: waiting_def cast_graph_def)
      have "ci_type c \<in> waiting h L" using ds u True by (auto simp: waiting_def client_data_def)
      moreover have "ci_type c \<notin> waiting ?h1 L" using cd d by (simp add: waiting_def)
      ultimately have "waiting ?h1 L \<subset> waiting h L" using spreads_waiting [OF s1] by blast
      then have lt: "card (waiting ?h1 L) < k" using psubset_card_mono [OF fin] Cons.prems(2) by blast
      have "L (ci_type c) = Some ([] @ ds)" using ds by simp
      moreover have "path (nxt ?h1) (ti_cast u) ds NULL" using u(2) nx1 by simp
      ultimately obtain h2 where h2: "SWIG_TypeClientData (ci_type c) data (Some (ti_cast u)) ?h1 = Some h2"
        "spreads data ?h1 h2" "reached h2 ds" "passed_on ?h1 h2 L"
        using less.IH [OF lt g1 HOL.refl, of "ci_type c" "[]" ds "ti_cast u" "ci_type c"] by blast
      have rec: "SWIG_TypeClientData (ci_type c) data None h = Some h2"
        using h2(1) u(1) by (subst SWIG_TypeClientData.simps) simp
      have s2: "spreads data h h2" by (rule spreads_trans [OF s1 h2(2)])
      have p2: "passed_on h h2 L"
        unfolding passed_on_def
      proof (intro allI impI)
        fix t' cs assume t': "L t' = Some cs \<and> client_data h t' = NULL \<and> client_data h2 t' \<noteq> NULL"
        show "reached h2 cs"
        proof (cases "t' = ci_type c")
          case True
          then show ?thesis using t' ds h2(3) by simp
        next
          case False
          then have "client_data ?h1 t' = NULL" using t' by (simp add: client_data_def)
          then show ?thesis using t' h2(4) unfolding passed_on_def by blast
        qed
      qed
      have "waiting h2 L \<subseteq> waiting ?h1 L" by (rule spreads_waiting [OF h2(2)])
      then have lt2: "card (waiting h2 L) < k"
        using lt card_mono [of "waiting ?h1 L" "waiting h2 L"] fin spreads_waiting [OF s1] finite_subset by fastforce
      have g2: "cast_graph h2 L" by (rule spreads_cast_graph [OF s2 Cons.prems(1)])
      have ci2: "ci h2 = ci h" using s2 by (simp add: spreads_def)
      have "path (nxt h2) (ci_next c) vs NULL" using c(3) ci2 by (simp add: nxt_def [abs_def])
      moreover have "L t = Some ((us @ [b]) @ vs)" using Cons.prems(3) by simp
      ultimately obtain h3 where h3: "SWIG_TypeClientData a data (Some (ci_next c)) h2 = Some h3" "spreads data h2 h3"
        "reached h3 vs" "passed_on h2 h3 L"
        using less.IH [OF lt2 g2 HOL.refl] by blast
      have "SWIG_TypeClientData a data (Some iter) h = Some h3"
        using True c(1,2) u(1) rec ci2 h3(1) by (subst SWIG_TypeClientData.simps) simp
      moreover have "reached h3 (b # vs)"
      proof -
        have "client_data h2 (ci_type c) = data" using spreads_data [OF h2(2), of "ci_type c"] cd d by simp
        then have "reached h2 [b]" using c(1) ci2 d by (auto simp: reached_def)
        then have "reached h3 [b]" by (rule spreads_reached [OF h3(2)])
        then show ?thesis using h3(3) reached_Cons by blast
      qed
      ultimately show ?thesis
        using spreads_trans [OF s2 h3(2)] passed_on_trans [OF p2 h3(4,2)] by blast
    qed
  qed
qed

text \<open>Setting data on a type that had none or had other data.\<close>

lemma type_client_data:
  assumes d: "data \<noteq> NULL" and g: "cast_graph h L" and ty: "L ty = Some cs"
  shows "\<exists>u h'. ti h ty = Some u \<and> SWIG_TypeClientData ty data None h = Some h' \<and>
    spreads data (h\<lparr>ti := (ti h)(ty \<mapsto> u\<lparr>ti_clientdata := data\<rparr>)\<rparr>) h' \<and> client_data h' ty = data \<and>
    (\<forall>t ds. L t = Some ds \<and> (t = ty \<or> client_data h t = NULL \<and> client_data h' t \<noteq> NULL) \<longrightarrow> reached h' ds)"
proof -
  obtain u where u: "ti h ty = Some u" "path (nxt h) (ti_cast u) cs NULL"
    using g ty unfolding cast_graph_def by blast
  let ?h1 = "h\<lparr>ti := (ti h)(ty \<mapsto> u\<lparr>ti_clientdata := data\<rparr>)\<rparr>"
  have nx: "nxt ?h1 = nxt h" by (simp add: nxt_def [abs_def])
  have "\<exists>v. ti ?h1 t = Some v \<and> path (nxt ?h1) (ti_cast v) ds NULL" if l: "L t = Some ds" for t ds
  proof -
    obtain v where "ti h t = Some v" "path (nxt h) (ti_cast v) ds NULL" using g l unfolding cast_graph_def by blast
    then show ?thesis using u nx by (cases "t = ty") auto
  qed
  then have g1: "cast_graph ?h1 L" using g by (simp add: cast_graph_def)
  have "L ty = Some ([] @ cs)" "path (nxt ?h1) (ti_cast u) cs NULL" using ty u(2) nx by simp_all
  from client_data_loop [OF d g1 HOL.refl this, of ty] obtain h' where
    h': "SWIG_TypeClientData ty data (Some (ti_cast u)) ?h1 = Some h'" "spreads data ?h1 h'" "reached h' cs" "passed_on ?h1 h' L"
    by blast
  have "SWIG_TypeClientData ty data None h = Some h'" using h'(1) u(1) by (subst SWIG_TypeClientData.simps) simp
  moreover have "client_data ?h1 ty = data" by (simp add: client_data_def)
  then have "client_data h' ty = data" using spreads_data [OF h'(2), of ty] d by simp
  moreover have "reached h' ds" if "L t = Some ds" "t = ty \<or> client_data h t = NULL \<and> client_data h' t \<noteq> NULL" for t ds
  proof (cases "t = ty")
    case True
    then show ?thesis using that(1) ty h'(3) by simp
  next
    case False
    then have "client_data ?h1 t = NULL" using that(2) by (simp add: client_data_def)
    then show ?thesis using that False h'(4) unfolding passed_on_def by blast
  qed
  ultimately show ?thesis using u(1) h'(2) by blast
qed

section \<open>Propagation\<close>

lemma type_client_data_new:
  assumes "data \<noteq> NULL" "cast_graph h L" "L ty = Some cs" "client_data h ty = NULL"
  shows "\<exists>h'. SWIG_TypeClientData ty data None h = Some h' \<and> spreads data h h' \<and> client_data h' ty = data \<and>
    passed_on h h' L"
proof -
  obtain u h' where h': "ti h ty = Some u" "SWIG_TypeClientData ty data None h = Some h'"
    "spreads data (h\<lparr>ti := (ti h)(ty \<mapsto> u\<lparr>ti_clientdata := data\<rparr>)\<rparr>) h'" "client_data h' ty = data"
    "\<forall>t ds. L t = Some ds \<and> (t = ty \<or> client_data h t = NULL \<and> client_data h' t \<noteq> NULL) \<longrightarrow> reached h' ds"
    using type_client_data [OF assms(1-3)] by blast
  have "spreads data h (h\<lparr>ti := (ti h)(ty \<mapsto> u\<lparr>ti_clientdata := data\<rparr>)\<rparr>)"
    using set_data(2) [OF h'(1)] assms(4) h'(1) by (simp add: client_data_def)
  then show ?thesis using h'(2-5) spreads_trans unfolding passed_on_def by blast
qed

lemma propagate_casts_loop:
  assumes d: "data \<noteq> NULL"
  shows "cast_graph h L \<Longrightarrow> L t = Some (us @ vs) \<Longrightarrow> path (nxt h) iter vs NULL \<Longrightarrow>
    \<exists>h'. propagate_casts data iter h = Some h' \<and> spreads data h h' \<and> reached h' vs \<and> passed_on h h' L"
proof (induction vs arbitrary: h us iter)
  case Nil
  then show ?case by (subst propagate_casts.simps) (auto simp: spreads_refl reached_def passed_on_def)
next
  case (Cons b vs)
  obtain c where c: "ci h b = Some c" "iter = Some b" "path (nxt h) (ci_next c) vs NULL"
    using Cons.prems(3) nxt_def [of h b] by (auto split: option.splits)
  have "\<forall>a \<in> set (us @ b # vs). \<exists>c. ci h a = Some c \<and> ci_type c \<in> dom L"
    using Cons.prems(1,2) unfolding cast_graph_def by blast
  then obtain ds where ds: "L (ci_type c) = Some ds" using c(1) by auto
  then obtain u where u: "ti h (ci_type c) = Some u" using Cons.prems(1) unfolding cast_graph_def by blast
  have "\<exists>h1. (if ci_converter c = None
      then (if ti_clientdata u = NULL then SWIG_TypeClientData (ci_type c) data None h else Some h) else Some h) = Some h1 \<and>
      spreads data h h1 \<and> reached h1 [b] \<and> passed_on h h1 L"
  proof (cases "ci_converter c = None \<and> ti_clientdata u = NULL")
    case True
    then have "client_data h (ci_type c) = NULL" using u by (simp add: client_data_def)
    from type_client_data_new [OF d Cons.prems(1) ds this] obtain h1 where
      "SWIG_TypeClientData (ci_type c) data None h = Some h1" "spreads data h h1" "client_data h1 (ci_type c) = data"
      "passed_on h h1 L" by blast
    moreover from this have "reached h1 [b]" using c(1) d by (auto simp: reached_def spreads_def)
    ultimately show ?thesis using True by auto
  next
    case False
    then have "reached h [b]" using c(1) u by (auto simp: reached_def client_data_def)
    then show ?thesis using False spreads_refl by (auto simp: passed_on_def)
  qed
  then obtain h1 where h1: "(if ci_converter c = None
      then (if ti_clientdata u = NULL then SWIG_TypeClientData (ci_type c) data None h else Some h) else Some h) = Some h1"
      "spreads data h h1" "reached h1 [b]" "passed_on h h1 L" by blast
  have ci1: "ci h1 = ci h" using h1(2) by (simp add: spreads_def)
  have "L t = Some ((us @ [b]) @ vs)" "path (nxt h1) (ci_next c) vs NULL"
    using Cons.prems(2) c(3) ci1 by (simp_all add: nxt_def [abs_def])
  from Cons.IH [OF spreads_cast_graph [OF h1(2) Cons.prems(1)] this] obtain h' where
    h': "propagate_casts data (ci_next c) h1 = Some h'" "spreads data h1 h'" "reached h' vs" "passed_on h1 h' L"
    by blast
  have "propagate_casts data iter h = Some h'"
    using c(1,2) u h1(1) ci1 h'(1) by (subst propagate_casts.simps) (auto split: if_splits)
  moreover have "reached h' (b # vs)"
    using spreads_reached [OF h'(2) h1(3)] h'(3) reached_Cons by blast
  ultimately show ?case using spreads_trans [OF h1(2) h'(2)] passed_on_trans [OF h1(4) h'(4,2)] by blast
qed

text \<open>Data only appears, and it is data some type already had.\<close>

definition inherits :: "swig_heap \<Rightarrow> swig_heap \<Rightarrow> bool" where
  "inherits h h' \<longleftrightarrow> ci h' = ci h \<and> (\<forall>t. client_data h t \<noteq> NULL \<longrightarrow> client_data h' t = client_data h t) \<and>
     (\<forall>t. client_data h' t \<noteq> NULL \<longrightarrow> (\<exists>u. client_data h u = client_data h' t))"

lemma inherits_trans: "inherits h h1 \<Longrightarrow> inherits h1 h2 \<Longrightarrow> inherits h h2"
  unfolding inherits_def by metis

lemma spreads_inherits:
  assumes "spreads data h h'" "client_data h t = data"
  shows "inherits h h'"
proof -
  have "\<exists>v. client_data h v = client_data h' u" if "client_data h' u \<noteq> NULL" for u
    using spreads_data [OF assms(1), of u] spreads_new [OF assms(1) _ that] assms(2) by (cases "client_data h u = NULL") auto
  then show ?thesis using spreads_data [OF assms(1)] assms(1) by (simp add: inherits_def spreads_def)
qed

lemma inherits_reached: "inherits h h' \<Longrightarrow> reached h cs \<Longrightarrow> reached h' cs"
  unfolding inherits_def reached_def by metis

lemma propagate_types_rep:
  "cast_graph h L \<Longrightarrow> set tys \<subseteq> dom L \<Longrightarrow>
    \<exists>h'. propagate_types tys h = Some h' \<and> inherits h h' \<and> cast_graph h' L \<and>
      (\<forall>ty \<in> set tys. client_data h ty \<noteq> NULL \<longrightarrow> reached h' (the (L ty)))"
proof (induction tys arbitrary: h)
  case Nil
  then show ?case by (auto simp: inherits_def)
next
  case (Cons ty tys)
  obtain cs where cs: "L ty = Some cs" using Cons.prems(2) by auto
  obtain t where t: "ti h ty = Some t" "path (nxt h) (ti_cast t) cs NULL"
    using Cons.prems(1) cs unfolding cast_graph_def by blast
  have cd: "client_data h ty = ti_clientdata t" using t(1) by (simp add: client_data_def)
  have "\<exists>h1. (if ti_clientdata t = NULL then Some h else propagate_casts (ti_clientdata t) (ti_cast t) h) = Some h1 \<and>
      inherits h h1 \<and> cast_graph h1 L \<and> (client_data h ty \<noteq> NULL \<longrightarrow> reached h1 cs)"
  proof (cases "ti_clientdata t = NULL")
    case True
    then show ?thesis using Cons.prems(1) cd by (auto simp: inherits_def)
  next
    case False
    have "L ty = Some ([] @ cs)" using cs by simp
    from propagate_casts_loop [OF False Cons.prems(1) this t(2)] obtain h1 where
      "propagate_casts (ti_clientdata t) (ti_cast t) h = Some h1" "spreads (ti_clientdata t) h h1" "reached h1 cs" by blast
    then show ?thesis using False spreads_inherits [OF _ cd] spreads_cast_graph Cons.prems(1) by auto
  qed
  then obtain h1 where h1: "(if ti_clientdata t = NULL then Some h else propagate_casts (ti_clientdata t) (ti_cast t) h) = Some h1"
      "inherits h h1" "cast_graph h1 L" "client_data h ty \<noteq> NULL \<longrightarrow> reached h1 cs" by blast
  obtain h' where h': "propagate_types tys h1 = Some h'" "inherits h1 h'" "cast_graph h' L"
      "\<forall>ty \<in> set tys. client_data h1 ty \<noteq> NULL \<longrightarrow> reached h' (the (L ty))"
    using Cons.IH [OF h1(3)] Cons.prems(2) by auto
  have "propagate_types (ty # tys) h = Some h'" using t(1) h1(1) h'(1) by simp
  moreover have "client_data h u \<noteq> NULL \<longrightarrow> reached h' (the (L u))" if "u \<in> set (ty # tys)" for u
    using that h1(2,4) h'(4) inherits_reached [OF h'(2)] cs unfolding inherits_def by auto
  ultimately show ?case using inherits_trans [OF h1(2) h'(2)] h'(3) by blast
qed

end
