(* ===== verification/Registry_Properties.thy ===== *)
theory Registry_Properties
  imports PyRuntime Swig_Data
begin

text \<open>
  The properties of module loading: what the registry is once the Python module has been
  loaded, what loading does when other modules are there, and how client data spreads.
\<close>

section \<open>Loading the module\<close>

lemma linked_tables: "self_casts 14 static_heap" "linked_casts 14 static_heap = swig_heap0"
  by (simp_all add: self_casts_def linked_casts_def static_heap_def swig_heap0_def fun_eq_iff)

text \<open>
  Loading the Python module into an interpreter without SWIG modules builds the registry the
  wrappers work on: the ring of this one module with its 14 types in the order of their names, and
  for each type the list of its one cast. Loading it again changes nothing but the cached
  pointer to the ring.
\<close>
lemma module_load_builds_registry:
  "SWIG_InitializeModule True swig_module interpreter0 =
     Some (interpreter0\<lparr>heap := swig_heap0, modules := swig_modules, capsule := Some 0\<rparr>) \<and>
   SWIG_InitializeModule stored swig_module (interpreter0\<lparr>heap := swig_heap0, modules := swig_modules, capsule := Some 0\<rparr>) =
     Some (interpreter0\<lparr>heap := swig_heap0, modules := swig_modules, capsule := Some 0,
       type_pointer := (\<lambda>_. NULL)(0 := Some 0)\<rparr>)"
proof
  let ?r = "interpreter0\<lparr>modules := [0 \<mapsto> \<lparr>sm_types = [], sm_next = 0\<rparr>], capsule := Some 0\<rparr>"
  have "init_types 0 (zip [0..<14] (map (\<lambda>a. [a]) [0..<14])) ?r =
      Some (?r\<lparr>heap := linked_casts 14 static_heap, modules := (modules ?r)(0 \<mapsto> \<lparr>sm_types = [0..<14], sm_next = 0\<rparr>)\<rparr>)"
    by (rule init_own_types [OF linked_tables(1), of 0 14]) (simp_all add: interpreter0_def linked_casts_0)
  then show "SWIG_InitializeModule True swig_module interpreter0 =
     Some (interpreter0\<lparr>heap := swig_heap0, modules := swig_modules, capsule := Some 0\<rparr>)"
    by (simp add: SWIG_InitializeModule_def load_module_def Let_def join_ring_def enter_ring_def SWIG_Python_GetModule_def SWIG_Python_SetModule_def
        swig_module_def interpreter0_def linked_tables swig_modules_def del: fun_upd_apply upt_rec_numeral)
  show "SWIG_InitializeModule stored swig_module (interpreter0\<lparr>heap := swig_heap0, modules := swig_modules, capsule := Some 0\<rparr>) =
     Some (interpreter0\<lparr>heap := swig_heap0, modules := swig_modules, capsule := Some 0,
       type_pointer := (\<lambda>_. NULL)(0 := Some 0)\<rparr>)"
    by (simp add: SWIG_InitializeModule_def load_module_def Let_def join_ring_def enter_ring_def SWIG_Python_GetModule_def swig_module_def
        interpreter0_def swig_modules_def find_module.simps)
qed



definition type_named :: "string \<Rightarrow> swig_type_info" where
  "type_named n = \<lparr>ti_name = Some n, ti_str = Some n, ti_cast = NULL, ti_clientdata = NULL, ti_owndata = 0\<rparr>"

definition cast_from :: "addr \<Rightarrow> swig_cast_info" where
  "cast_from a = \<lparr>ci_type = a, ci_converter = None, ci_next = NULL, ci_prev = NULL\<rparr>"


definition own_casts :: "addr \<rightharpoonup> addr list" where
  "own_casts a = (if a < 14 then Some [a] else None)"







section \<open>A cast between loaded types\<close>

text \<open>
  Two modules that both have the types A and B; only the second knows that B casts to A. When it is
  loaded second it uses the structures of the first, but its cast keeps pointing to its own
  structure of B. Checked by name the cast is found, checked by structure it is not.
\<close>

definition two_modules :: swig_runtime where
  "two_modules = interpreter0\<lparr>heap :=
     \<lparr>ti = [20 \<mapsto> type_named ''_p_A'', 21 \<mapsto> type_named ''_p_B'', 30 \<mapsto> type_named ''_p_A'', 31 \<mapsto> type_named ''_p_B''],
      ci = [20 \<mapsto> cast_from 20, 21 \<mapsto> cast_from 21, 30 \<mapsto> cast_from 30, 31 \<mapsto> cast_from 31, 32 \<mapsto> cast_from 31]\<rparr>\<rparr>"

lemma step_find: "iter \<noteq> this \<Longrightarrow> mods iter = Some m \<Longrightarrow>
    find_module mods this head iter = (if sm_next m \<noteq> head then find_module mods this head (sm_next m) else Some False)"
  by (subst find_module.simps) simp

lemma step_search:
  assumes "(l + r) mod 2 ^ 64 div 2 = i" "i < length types" "ti h (types ! i) = Some t" "ti_name t = Some n"
  shows "search_types h types name l r =
    (if strcmp name n = 0 then Some (Some (types ! i))
     else if strcmp name n < 0
     then (if i \<noteq> 0 \<and> l \<le> i - 1 then search_types h types name l (i - 1) else Some NULL)
     else (if Suc i \<le> r then search_types h types name (Suc i) r else Some NULL))"
  using assms by (subst search_types.simps) (simp add: c_assert_def Let_def)

lemma step_query:
  assumes "mods iter = Some m" "sm_types m \<noteq> []" "search_types h (sm_types m) name 0 (length (sm_types m) - 1) = Some found"
  shows "SWIG_MangledTypeQueryModule h mods iter stop name =
    (if found \<noteq> NULL then Some found
     else if sm_next m \<noteq> stop then SWIG_MangledTypeQueryModule h mods (sm_next m) stop name else Some NULL)"
  using assms by (subst SWIG_MangledTypeQueryModule.simps) simp

lemma step_check:
  "check_loop hit ty None h = Some (NULL, h)"
  "ci h a = Some c \<Longrightarrow> hit h (ci_type c) = Some False \<Longrightarrow> check_loop hit ty (Some a) h = check_loop hit ty (ci_next c) h"
  "ci h a = Some c \<Longrightarrow> hit h (ci_type c) = Some True \<Longrightarrow> ti h ty = Some t \<Longrightarrow> ti_cast t = Some a \<Longrightarrow>
     check_loop hit ty (Some a) h = Some (Some a, h)"
  by (subst check_loop.simps, simp)+

lemma foreign_cast_keeps_own_type:
  "(do {
      r \<leftarrow> SWIG_InitializeModule True \<lparr>self = 2, type_initial = [20, 21], cast_initial = [[20], [21]]\<rparr> two_modules;
      r \<leftarrow> SWIG_InitializeModule True \<lparr>self = 3, type_initial = [30, 31], cast_initial = [[30, 32], [31]]\<rparr> r;
      m \<leftarrow> modules r 3;
      (by_name, _) \<leftarrow> SWIG_TypeCheck ''_p_B'' (Some 20) (heap r);
      (by_struct, _) \<leftarrow> SWIG_TypeCheckStruct 21 (Some 20) (heap r);
      Some (sm_types m, by_name, by_struct)
    }) = Some ([20, 21], Some 32, NULL)"
  by (simp add: two_modules_def interpreter0_def SWIG_InitializeModule_def load_module_def join_ring_def enter_ring_def SWIG_Python_GetModule_def
      SWIG_Python_SetModule_def adopt_type_def loaded_type_def insert_cast_def link_cast_def set_cast_def set_type_def
      set_module_next_def set_next_def set_prev_def type_named_def cast_from_def SWIG_TypeCheck_def
      SWIG_TypeCheckStruct_def name_is_def strcmp_def less_char_def step_find step_search step_query step_check)

section \<open>Client data\<close>

text \<open>
  C30: Setting the client data of a type ends and reaches its class. In a registry in which types
  cast to themselves and to each other, setting data that is not null returns; the type has
  the data, every type behind a cast without conversion, from it or from a type that got data
  on the way, has some, and only types without data have been changed.
\<close>
theorem client_data_reaches_class:
  assumes "data \<noteq> NULL" "cast_graph h L" "L ty = Some cs"
  shows "\<exists>u h'. ti h ty = Some u \<and> SWIG_TypeClientData ty data None h = Some h' \<and>
    spreads data (h\<lparr>ti := (ti h)(ty \<mapsto> u\<lparr>ti_clientdata := data\<rparr>)\<rparr>) h' \<and> client_data h' ty = data \<and>
    (\<forall>t ds. L t = Some ds \<and> (t = ty \<or> client_data h t = NULL \<and> client_data h' t \<noteq> NULL) \<longrightarrow> reached h' ds)"
  by (rule type_client_data [OF assms])

lemma swig_heap0_graph: "cast_graph swig_heap0 own_casts"
proof -
  have "dom own_casts = {..<14}" by (auto simp: own_casts_def split: if_splits)
  then show ?thesis by (auto simp: cast_graph_def own_casts_def swig_heap0_def nxt_def split: if_splits)
qed

theorem client_data_reaches_class_witness:
  "\<exists>h. SWIG_TypeClientData SWIGTYPE_p_JsPort (Some 77) None swig_heap0 = Some h \<and> client_data h SWIGTYPE_p_JsPort = Some 77"
proof -
  have "own_casts SWIGTYPE_p_JsPort = Some [SWIGTYPE_p_JsPort]" by (simp add: own_casts_def SWIGTYPE_p_JsPort_def)
  from client_data_reaches_class [OF _ swig_heap0_graph this, of "Some 77"] show ?thesis by auto
qed

text \<open>
  The propagation after loading ends, runs once, and completes the classes: client data is
  never changed or invented, every type of the module that had data shares it through its casts
  without conversion, and a second run does nothing.
\<close>
lemma propagation_completes_classes:
  assumes "cast_graph (heap r) L" "modules r this = Some m" "set (sm_types m) \<subseteq> dom L" "\<not> init_run r this"
  shows "\<exists>r'. SWIG_PropagateClientData this r = Some r' \<and> inherits (heap r) (heap r') \<and>
    (\<forall>ty \<in> set (sm_types m). client_data (heap r) ty \<noteq> NULL \<longrightarrow> reached (heap r') (the (L ty))) \<and>
    SWIG_PropagateClientData this r' = Some r'"
proof -
  obtain h' where "propagate_types (sm_types m) (heap r) = Some h'" "inherits (heap r) h'"
    "\<forall>ty \<in> set (sm_types m). client_data (heap r) ty \<noteq> NULL \<longrightarrow> reached h' (the (L ty))"
    using propagate_types_rep [OF assms(1,3)] by blast
  then show ?thesis using assms(2,4) by (simp add: SWIG_PropagateClientData_def)
qed

end
