(* ===== verification/RubyWrap_Correct.thy ===== *)
theory RubyWrap_Correct
  imports RubyWrap PyWrap_Correct Registry_Properties
begin

text \<open>
  Lemmas on the Ruby module: what loading it builds, how classes and methods are found, what
  converting a data object does, the calls it shares with the Python module, and which data
  objects its functions make.
\<close>

section \<open>Loading\<close>

definition ruby_runtime0 :: swig_runtime where
  "ruby_runtime0 = interpreter0\<lparr>heap := swig_heap0, modules := swig_modules, capsule := Some 0\<rparr>"

lemma ruby_initialize: "ruby_InitializeModule swig_module interpreter0 = Some ruby_runtime0"
proof -
  let ?r = "interpreter0\<lparr>modules := [0 \<mapsto> \<lparr>sm_types = [], sm_next = 0\<rparr>], capsule := Some 0\<rparr>"
  have "init_types 0 (zip [0..<14] (map (\<lambda>a. [a]) [0..<14])) ?r =
      Some (?r\<lparr>heap := linked_casts 14 static_heap, modules := (modules ?r)(0 \<mapsto> \<lparr>sm_types = [0..<14], sm_next = 0\<rparr>)\<rparr>)"
    by (rule init_own_types [OF linked_tables(1), of 0 14]) (simp_all add: interpreter0_def linked_casts_0)
  then show ?thesis
    by (simp add: ruby_InitializeModule_def load_module_def Let_def ruby_join_ring_def SWIG_Ruby_GetModule_def
        SWIG_Ruby_SetModule_def swig_module_def interpreter0_def linked_tables swig_modules_def ruby_runtime0_def
        del: fun_upd_apply upt_rec_numeral)
qed

text \<open>A type gets its class structure as client data; nothing else of the table changes.\<close>

definition add_data :: "addr \<Rightarrow> swig_heap \<Rightarrow> swig_heap" where
  "add_data c h = h\<lparr>ti := (ti h)(c \<mapsto> (the (ti h c))\<lparr>ti_clientdata := Some c\<rparr>)\<rparr>"

lemma add_data_types: "module_types h \<Longrightarrow> c < 14 \<Longrightarrow> module_types (add_data c h)"
  unfolding module_types_def add_data_def by fastforce

lemma client_data_own:
  assumes "module_types h" "c < 14"
  shows "SWIG_TypeClientData c (Some c) None h = Some (add_data c h)"
proof -
  obtain t where t: "ti h c = Some t" "ti_cast t = Some c" using assms by (auto simp: module_types_def)
  have c: "ci h c = Some \<lparr>ci_type = c, ci_converter = None, ci_next = NULL, ci_prev = NULL\<rparr>"
    using assms by (simp add: module_types_def swig_heap0_def)
  have end_of_list: "SWIG_TypeClientData c (Some c) (Some NULL) h' = Some h'" for h'
    by (subst SWIG_TypeClientData.simps) simp
  have "SWIG_TypeClientData c (Some c) (Some (Some c)) (add_data c h) = Some (add_data c h)"
    by (subst SWIG_TypeClientData.simps) (simp add: add_data_def c t end_of_list)
  then show ?thesis by (subst SWIG_TypeClientData.simps) (simp add: t add_data_def)
qed

lemma rheap_set [simp]: "heap (rrun (set_rheap h w)) = h" "modules (rrun (set_rheap h w)) = modules (rrun w)"
  "rclasses (set_rheap h w) = rclasses w" "rdefs (set_rheap h w) = rdefs w" "rpointers (set_rheap h w) = rpointers w"
  "rjs (set_rheap h w) = rjs w" "robjs (set_rheap h w) = robjs w" "rconsts (set_rheap h w) = rconsts w"
  "rtrackings (set_rheap h w) = rtrackings w"
  by (simp_all add: set_rheap_def)

definition class_structure :: "string \<Rightarrow> swig_rb_class" where
  "class_structure name = \<lparr>sc_klass = name, sc_destroy = Some (''free_'' @ name), sc_track = False\<rparr>"

definition ruby_class :: "string \<Rightarrow> (string \<times> string) list \<Rightarrow> rb_class" where
  "ruby_class name methods = \<lparr>rk_alloc = Some (''_wrap_'' @ name @ ''_allocate''), rk_methods = map_of (rev methods)\<rparr>"

fun class_defined :: "nat \<times> string \<times> (string \<times> string) list \<Rightarrow> 'rb rb_world \<Rightarrow> 'rb rb_world" where
  "class_defined (i, name, methods) w =
     (set_rheap (add_data i (rheap w)) w)\<lparr>rclasses := (rclasses w)(i \<mapsto> class_structure name),
       rdefs := (rdefs w)(name \<mapsto> ruby_class name methods)\<rparr>"

lemma define_class:
  assumes "module_types (rheap w)" "modules (rrun w) = swig_modules" "i < 14"
  shows "ruby_define_class (i, name, methods) w = Some (class_defined (i, name, methods) w)"
proof -
  have m: "modules (rrun w) (self swig_module) = Some \<lparr>sm_types = [0..<14], sm_next = 0\<rparr>" "[0..<14] ! i = i"
    using assms(2,3) by (simp_all add: swig_modules_def swig_module_def del: upt_rec_numeral)
  then show ?thesis
    using client_data_own [OF assms(1,3)] assms(3)
    by (simp add: ruby_define_class_def Let_def class_structure_def ruby_class_def set_rheap_def del: upt_rec_numeral)
qed

lemma define_classes:
  "module_types (rheap w) \<Longrightarrow> modules (rrun w) = swig_modules \<Longrightarrow> \<forall>e \<in> set es. fst e < 14 \<Longrightarrow>
    each_item ruby_define_class es w = Some (fold class_defined es w)"
proof (induction es arbitrary: w)
  case (Cons e es)
  obtain i name methods where e: "e = (i, name, methods)" by (cases e)
  have "module_types (rheap (class_defined e w))" "modules (rrun (class_defined e w)) = swig_modules"
    using Cons.prems by (simp_all add: e add_data_types)
  then show ?case using define_class [of w i name methods] Cons by (simp add: e)
qed simp

lemma pointer_classes:
  assumes "module_types (rheap w)" "\<forall>a \<in> set tys. a < 14"
  shows "each_item SWIG_Ruby_define_class tys w =
    Some (w\<lparr>rpointers := rpointers w @ map (\<lambda>a. ''TYPE'' @ swig_type_names ! a) tys\<rparr>)"
  using assms
proof (induction tys arbitrary: w)
  case (Cons a tys)
  then have "pointer_class a w = Some (''TYPE'' @ swig_type_names ! a)"
    by (auto simp: pointer_class_def module_types_def)
  then show ?case using Cons by (simp add: SWIG_Ruby_define_class_def)
qed simp

lemma fold_constants:
  "fold (\<lambda>(name, v) w. w\<lparr>rconsts := (rconsts w)(name \<mapsto> ruby_From_int v)\<rparr>) cs w =
     w\<lparr>rconsts := rconsts w ++ map_of (rev (map (\<lambda>(name, v). (name, RInt v)) cs))\<rparr>"
  by (induction cs arbitrary: w) (auto simp: ruby_From_int_def)

text \<open>A world in which the module is loaded: its types, classes and pointer classes.\<close>

definition ruby_loaded :: "'rb rb_world \<Rightarrow> bool" where
  "ruby_loaded w \<longleftrightarrow> module_types (rheap w) \<and> modules (rrun w) = swig_modules \<and>
     (\<forall>(c, name, methods) \<in> set ruby_classes.
        class_of c w = Some (Some (class_structure name)) \<and> rdefs w name = Some (ruby_class name methods)) \<and>
     (\<forall>c < 14. c \<notin> fst ` set ruby_classes \<longrightarrow> class_of c w = Some None) \<and>
     (\<forall>c < 14. ''TYPE'' @ swig_type_names ! c \<in> set (rpointers w))"

lemma fold_class_defined:
  "rclasses (fold class_defined es w) = fold (\<lambda>e m. m(fst e \<mapsto> class_structure (fst (snd e)))) es (rclasses w)"
  "rdefs (fold class_defined es w) = fold (\<lambda>e m. m(fst (snd e) \<mapsto> ruby_class (fst (snd e)) (snd (snd e)))) es (rdefs w)"
  "rheap (fold class_defined es w) = fold (\<lambda>e. add_data (fst e)) es (rheap w)"
  "rpointers (fold class_defined es w) = rpointers w" "modules (rrun (fold class_defined es w)) = modules (rrun w)"
  "rconsts (fold class_defined es w) = rconsts w" "rjs (fold class_defined es w) = rjs w"
  "robjs (fold class_defined es w) = robjs w" "rtrackings (fold class_defined es w) = rtrackings w"
  by (induction es arbitrary: w) auto

lemma fold_first: "fold (\<lambda>e. f (fst e)) es s = fold f (map fst es) s"
  by (induction es arbitrary: s) auto

lemma fold_update_other: "k \<notin> key ` set es \<Longrightarrow> fold (\<lambda>e m. m(key e \<mapsto> val e)) es m k = m k"
  by (induction es arbitrary: m) auto

lemma fold_update: "distinct (map key es) \<Longrightarrow> e \<in> set es \<Longrightarrow> fold (\<lambda>e m. m(key e \<mapsto> val e)) es m (key e) = Some (val e)"
proof (induction es arbitrary: m)
  case (Cons x es)
  show ?case
  proof (cases "e = x")
    case True
    then show ?thesis using Cons.prems by (simp add: fold_update_other fun_upd_same del: fun_upd_apply)
  next
    case False
    then show ?thesis using Cons by (simp del: fun_upd_apply)
  qed
qed simp

lemma class_fields:
  assumes "(c, name, methods) \<in> set ruby_classes"
  shows "rclasses (fold class_defined ruby_classes w) c = Some (class_structure name)"
    "rdefs (fold class_defined ruby_classes w) name = Some (ruby_class name methods)"
proof -
  have "distinct (map fst ruby_classes)" "distinct (map (\<lambda>e. fst (snd e)) ruby_classes)"
    by (simp_all add: ruby_classes_def py_type_defs)
  from fold_update [OF this(1) assms, of "\<lambda>e. class_structure (fst (snd e))"]
    fold_update [OF this(2) assms, of "\<lambda>e. ruby_class (fst (snd e)) (snd (snd e))"]
  show "rclasses (fold class_defined ruby_classes w) c = Some (class_structure name)"
    "rdefs (fold class_defined ruby_classes w) name = Some (ruby_class name methods)"
    unfolding fold_class_defined by simp_all
qed

lemma fold_add_data:
  "module_types h \<Longrightarrow> \<forall>c \<in> set cs. c < 14 \<Longrightarrow> module_types (fold add_data cs h)"
  by (induction cs arbitrary: h) (simp_all add: add_data_types)

lemma fold_client_data:
  "ti h a \<noteq> None \<Longrightarrow> \<exists>t. ti (fold add_data cs h) a = Some t \<and>
     ti_clientdata t = (if a \<in> set cs then Some a else ti_clientdata (the (ti h a)))"
proof (induction cs arbitrary: h)
  case (Cons c cs)
  have "ti (add_data c h) a \<noteq> None" using Cons.prems by (simp add: add_data_def)
  from Cons.IH [OF this] show ?case by (auto simp: add_data_def)
qed auto

lemma classes_indices: "map fst ruby_classes = [7, 5, 8, 6, 4, 3]"
  by (simp add: ruby_classes_def py_type_defs)

definition before_classes :: "(string \<Rightarrow> int) \<Rightarrow> 'rb rb_world \<Rightarrow> 'rb rb_world" where
  "before_classes jack w = w\<lparr>rrun := ruby_runtime0, rpointers := rpointers w @ map (\<lambda>a. ''TYPE'' @ swig_type_names ! a) [0..<14],
    rconsts := rconsts w ++ map_of (rev (map (\<lambda>(name, v). (name, RInt v)) (ruby_constants jack)))\<rparr>"

lemma init_runs:
  assumes "rrun w = interpreter0"
  shows "Init_jacks jack w = Some (fold class_defined ruby_classes (before_classes jack w))"
proof -
  let ?w = "w\<lparr>rrun := ruby_runtime0\<rparr>"
  have run: "module_types (rheap ?w)" "modules ruby_runtime0 (self swig_module) = Some \<lparr>sm_types = [0..<14], sm_next = 0\<rparr>"
    by (simp_all add: ruby_runtime0_def module_types0 swig_modules_def swig_module_def)
  have "\<forall>a \<in> set [0..<14]. a < (14::nat)" by simp
  note pointers = pointer_classes [OF run(1) this]
  have "\<forall>e \<in> set ruby_classes. fst e < 14" by (simp add: ruby_classes_def py_type_defs)
  then have "each_item ruby_define_class ruby_classes (before_classes jack w) =
      Some (fold class_defined ruby_classes (before_classes jack w))"
    by (intro define_classes) (simp_all add: before_classes_def ruby_runtime0_def module_types0)
  then show ?thesis
    using pointers run(2)
    by (simp add: Init_jacks_def assms(1) ruby_initialize fold_constants before_classes_def del: upt_rec_numeral)
qed

lemma classes_loaded:
  assumes "module_types (rheap w)" "\<forall>c < 14. ti_clientdata (the (ti (rheap w) c)) = NULL" "modules (rrun w) = swig_modules"
    "\<forall>c < 14. ''TYPE'' @ swig_type_names ! c \<in> set (rpointers w)"
  shows "ruby_loaded (fold class_defined ruby_classes w)"
proof -
  let ?w = "fold class_defined ruby_classes w"
  have heap: "rheap ?w = fold add_data [7, 5, 8, 6, 4, 3] (rheap w)"
    unfolding fold_class_defined fold_first classes_indices by (rule HOL.refl)
  have data: "\<exists>t. ti (rheap ?w) c = Some t \<and> ti_clientdata t = (if c \<in> {3..8} then Some c else NULL)" if "c < 14" for c
  proof -
    have "ti (rheap w) c \<noteq> None" using assms(1) that by (auto simp: module_types_def)
    from fold_client_data [OF this, of "[7, 5, 8, 6, 4, 3]"] show ?thesis
      using assms(2) that unfolding heap by (auto split: if_splits)
  qed
  have "class_of c ?w = Some (Some (class_structure name)) \<and> rdefs ?w name = Some (ruby_class name methods)"
    if "(c, name, methods) \<in> set ruby_classes" for c name methods
  proof -
    have "c \<in> fst ` set ruby_classes" using that by force
    then have "c \<in> {3..8}" unfolding set_map [symmetric] classes_indices by auto
    then show ?thesis using data [of c] class_fields [OF that, of w] by (auto simp: class_of_def)
  qed
  moreover have "class_of c ?w = Some None" if "c < 14" "c \<notin> fst ` set ruby_classes" for c
  proof -
    have "c \<notin> {3..8}" using that(2) unfolding set_map [symmetric] classes_indices by auto
    then show ?thesis using data [OF that(1)] by (auto simp: class_of_def)
  qed
  ultimately show ?thesis
    using assms fold_add_data(1) [OF assms(1), of "[7, 5, 8, 6, 4, 3]"]
    unfolding ruby_loaded_def heap by (auto simp: fold_class_defined)
qed

section \<open>Methods\<close>

lemma map_of_reversed: "distinct (map fst xs) \<Longrightarrow> (k, v) \<in> set xs \<Longrightarrow> map_of (rev xs) k = Some v"
  by (simp add: rev_map [symmetric])

lemma class_methods:
  assumes "(c, name, methods) \<in> set ruby_classes" "(m, f) \<in> set methods"
  shows "rk_methods (ruby_class name methods) m = Some f"
proof -
  have "\<forall>(c, name, methods) \<in> set ruby_classes. distinct (map fst methods)" by (simp add: ruby_classes_def)
  then have "distinct (map fst methods)" using assms(1) by fastforce
  then show ?thesis using assms(2) by (simp add: ruby_class_def map_of_reversed)
qed

text \<open>The classes of an object that is an instance of \<open>name\<close> or of classes a script derives from it.\<close>

definition instance_of :: "string \<Rightarrow> 'rb rb_world \<Rightarrow> string list \<Rightarrow> bool" where
  "instance_of name w kinds \<longleftrightarrow> (\<exists>subs sups. kinds = subs @ name # sups \<and> (\<forall>k \<in> set subs. rdefs w k = None))"

lemma method_found:
  assumes "ruby_loaded w" "(c, name, methods) \<in> set ruby_classes" "(m, f) \<in> set methods" "instance_of name w kinds"
  shows "find_method w m kinds = Some f" "find_alloc w kinds = Some (''_wrap_'' @ name @ ''_allocate'')"
proof -
  obtain subs sups where kinds: "kinds = subs @ name # sups" "\<forall>k \<in> set subs. rdefs w k = None"
    using assms(4) by (auto simp: instance_of_def)
  have "rdefs w name = Some (ruby_class name methods)" using assms(1,2) by (auto simp: ruby_loaded_def)
  then have found: "find_method w m (name # sups) = Some f" "find_alloc w (name # sups) = Some (''_wrap_'' @ name @ ''_allocate'')"
    using class_methods [OF assms(2,3)] by (simp_all add: ruby_class_def)
  have "find_method w m (subs @ ks) = find_method w m ks" "find_alloc w (subs @ ks) = find_alloc w ks" for ks
    using kinds(2) by (induction subs) simp_all
  then show "find_method w m kinds = Some f" "find_alloc w kinds = Some (''_wrap_'' @ name @ ''_allocate'')"
    using found kinds(1) by simp_all
qed

section \<open>Converting data objects\<close>

lemma class_of_loaded:
  assumes "ruby_loaded w" "(c, name, methods) \<in> set ruby_classes"
  shows "class_of c w = Some (Some (class_structure name))" "c < 14"
proof -
  show "class_of c w = Some (Some (class_structure name))" using assms by (auto simp: ruby_loaded_def)
  show "c < 14" using assms(2) by (auto simp: ruby_classes_def py_type_defs)
qed

lemma convert_instance:
  assumes "ruby_loaded w" "(c, name, methods) \<in> set ruby_classes" "objs (robjs w) a = Some x" "name \<in> set (ro_kinds x)"
  shows "SWIG_Ruby_ConvertPtrAndOwn (RData a) (Some c) 0 k w = k (if ro_data x = NULL then - 100 else 0) (ro_data x) w"
  using assms(3,4) class_of_loaded [OF assms(1,2)]
  by (simp add: SWIG_Ruby_ConvertPtrAndOwn_def class_structure_def)

lemma convert_foreign:
  assumes "ruby_loaded w" "(c, name, methods) \<in> set ruby_classes" "objs (robjs w) a = Some x" "name \<notin> set (ro_kinds x)"
    "ro_swigtype x = Some (swig_type_names ! b)" "b < 14" "b \<noteq> c"
  shows "SWIG_Ruby_ConvertPtrAndOwn (RData a) (Some c) 0 k w = k (- 1) NULL w"
proof -
  have "SWIG_TypeCheck (swig_type_names ! b) (Some c) (rheap w) = Some (NULL, rheap w)"
    by (rule check_other_type) (use assms(1,6,7) class_of_loaded(2) [OF assms(1,2)] in \<open>simp_all add: ruby_loaded_def\<close>)
  moreover have "set_rheap (rheap w) w = w" by (simp add: set_rheap_def)
  ultimately show ?thesis
    using assms(3-5) class_of_loaded [OF assms(1,2)]
    by (simp add: SWIG_Ruby_ConvertPtrAndOwn_def class_structure_def)
qed

lemma rb_arg_instance:
  assumes "ruby_loaded w" "(c, name, methods) \<in> set ruby_classes" "objs (robjs w) a = Some x" "name \<in> set (ro_kinds x)"
  shows "ro_data x = Some p \<Longrightarrow> rb_arg_ptr R (RData a) c who k w = k (Some p) w"
    "ro_data x = NULL \<Longrightarrow> rb_arg_ptr R (RData a) c who k w = rb_arg_fail R (- 100) who (RData a) w"
  by (simp_all add: rb_arg_ptr_def convert_instance [OF assms] SWIG_IsOK_def)

text \<open>Arguments that are no instance of a class: data objects of other types, and other values but nil.\<close>

definition rb_misfit :: "addr \<Rightarrow> string \<Rightarrow> 'rb rb_world \<Rightarrow> rb_value \<Rightarrow> bool" where
  "rb_misfit c name w v \<longleftrightarrow>
     (case v of
        RNil \<Rightarrow> False
      | RData a \<Rightarrow> (\<exists>x b. objs (robjs w) a = Some x \<and> name \<notin> set (ro_kinds x) \<and>
          ro_swigtype x = Some (swig_type_names ! b) \<and> b < 14 \<and> b \<noteq> c)
      | _ \<Rightarrow> True)"

lemma rb_arg_misfit:
  assumes "ruby_loaded w" "(c, name, methods) \<in> set ruby_classes" "rb_misfit c name w v"
  shows "rb_arg_ptr R v c who k w = rb_arg_fail R (- 1) who v w"
proof (cases v)
  case (RData a)
  then obtain x b where "objs (robjs w) a = Some x" "name \<notin> set (ro_kinds x)" "ro_swigtype x = Some (swig_type_names ! b)"
    "b < 14" "b \<noteq> c"
    using assms(3) by (auto simp: rb_misfit_def)
  from convert_foreign [OF assms(1,2) this] show ?thesis by (simp add: RData rb_arg_ptr_def SWIG_IsOK_def)
qed (use assms(3) in \<open>simp_all add: rb_misfit_def rb_arg_ptr_def SWIG_Ruby_ConvertPtrAndOwn_def SWIG_IsOK_def\<close>)

lemma rb_arg_fail_raises:
  "\<exists>msg. rb_arg_fail R (- 100) who v w = Some (RRaised ObjectPreviouslyDeleted msg, w)"
  "\<exists>msg. rb_arg_fail R (- 1) who v w = Some (RRaised rb_eTypeError msg, w)"
  by (auto simp: rb_arg_fail_def rb_raise_def SWIG_Ruby_ErrorType_def SWIG_ArgError_def split: prod.splits)

section \<open>Fresh data objects\<close>

text \<open>A data object that does not own its pointer, as the getters return it.\<close>

definition borrowed :: "string list \<Rightarrow> addr \<Rightarrow> addr \<Rightarrow> swig_rb_object" where
  "borrowed kinds p ty = \<lparr>ro_kinds = kinds, ro_data = Some p, ro_dfree = None, ro_swigtype = Some (swig_type_names ! ty)\<rparr>"

lemma rb_return_fresh:
  assumes "ruby_loaded w" "ty < 14" "always_alloc (robjs w)"
  shows "\<exists>kinds. rb_return_ptr (Some p) ty 0 [] w =
    Some (RReturned (RData (next_addr (robjs w))), w\<lparr>robjs := added (borrowed kinds p ty) (robjs w)\<rparr>)"
proof -
  obtain t where t: "ti (rheap w) ty = Some t" "ti_name t = Some (swig_type_names ! ty)"
    using assms(1,2) by (auto simp: ruby_loaded_def module_types_def)
  note defs = rb_return_ptr_def SWIG_Ruby_NewPointerObj_def Data_Wrap_Struct_def new_added rb_return_obj_def borrowed_def
  show ?thesis
  proof (cases "ty \<in> fst ` set ruby_classes")
    case True
    then obtain name methods where c: "(ty, name, methods) \<in> set ruby_classes" by force
    then show ?thesis
      using class_of_loaded [OF assms(1) c] t assms(3)
      by (intro exI [of _ "[name]"]) (simp add: class_structure_def tracked_object_def defs)
  next
    case False
    then have "class_of ty w = Some None" "''TYPE'' @ swig_type_names ! ty \<in> set (rpointers w)"
      using assms(1,2) by (auto simp: ruby_loaded_def)
    then show ?thesis
      using t assms(3) by (intro exI [of _ "[''TYPE'' @ swig_type_names ! ty]"]) (simp add: defs)
  qed
qed

end
