(* ===== verification/RubyWrap_Calls.thy ===== *)
theory RubyWrap_Calls
  imports RubyWrap_Correct
begin

text \<open>
  Lemmas over all functions of the Ruby module: the receivers they refuse, that they do in a call
  what the Python module does, and which data objects they make are owned by Ruby.
\<close>

section \<open>The functions\<close>

lemma rb_functions_distinct: "distinct (map fst (rb_functions R))"
  by (simp add: rb_functions_def)

lemma rb_call_function: "(f, g) \<in> set (rb_functions R) \<Longrightarrow> rb_call R f = g"
  by (simp add: rb_call_def rb_functions_distinct fun_eq_iff)

lemma rb_calls:
  "rb_call R ''_wrap_JsPortBuffer_getf'' = rb_wrap_JsPortBuffer_getf R"
  "rb_call R ''_wrap_JsPortBuffer_setf'' = rb_wrap_JsPortBuffer_setf R"
  "rb_call R ''_wrap_JsPortBuffer_length'' = rb_wrap_JsPortBuffer_length R"
  "rb_call R ''_wrap_JsPortBuffer_toHexString'' = rb_wrap_JsPortBuffer_toHexString R"
  "rb_call R ''_wrap_new_JsPortBuffer'' = rb_wrap_new_JsPortBuffer R"
  "rb_call R ''_wrap_JsLatencyRange_min'' = rb_wrap_JsLatencyRange_min R"
  "rb_call R ''_wrap_JsLatencyRange_max'' = rb_wrap_JsLatencyRange_max R"
  "rb_call R ''_wrap_new_JsLatencyRange'' = rb_wrap_new_JsLatencyRange R"
  "rb_call R ''_wrap_StringList_get'' = rb_wrap_StringList_get R"
  "rb_call R ''_wrap_StringList_length'' = rb_wrap_StringList_length R"
  "rb_call R ''_wrap_new_StringList'' = rb_wrap_new_StringList R"
  "rb_call R ''_wrap_JsPort_getBuffer'' = rb_wrap_JsPort_getBuffer R"
  "rb_call R ''_wrap_JsPort_name'' = rb_wrap_JsPort_name R"
  "rb_call R ''_wrap_JsPort_connect'' = rb_wrap_JsPort_connect R"
  "rb_call R ''_wrap_JsPort_getLatencyRange'' = rb_wrap_JsPort_getLatencyRange R"
  "rb_call R ''_wrap_JsPort_setLatencyRange'' = rb_wrap_JsPort_setLatencyRange R"
  "rb_call R ''_wrap_JsPort_wakeupLatencyCallbacks'' = rb_wrap_JsPort_wakeupLatencyCallbacks R"
  "rb_call R ''_wrap_JsPort_wakeupSigLatencyCallback'' = rb_wrap_JsPort_wakeupSigLatencyCallback R"
  "rb_call R ''_wrap_JsPort_initCaptureLatencyListener'' = rb_wrap_JsPort_initCaptureLatencyListener R"
  "rb_call R ''_wrap_JsPort_initPlaybackLatencyListener'' = rb_wrap_JsPort_initPlaybackLatencyListener R"
  "rb_call R ''_wrap_JsPort_initLatencyListener'' = rb_wrap_JsPort_initLatencyListener R"
  "rb_call R ''_wrap_new_JsPort'' = rb_wrap_new_JsPort R"
  "rb_call R ''_wrap_JsEvent_getType'' = rb_wrap_JsEvent_getType R"
  "rb_call R ''_wrap_JsEvent_getData'' = rb_wrap_JsEvent_getData R"
  "rb_call R ''_wrap_JsEvent_complete'' = rb_wrap_JsEvent_complete R"
  "rb_call R ''_wrap_JsEvent_getSessionEventType'' = rb_wrap_JsEvent_getSessionEventType R"
  "rb_call R ''_wrap_JsEvent_getSessionDir'' = rb_wrap_JsEvent_getSessionDir R"
  "rb_call R ''_wrap_JsEvent_setSessionDir'' = rb_wrap_JsEvent_setSessionDir R"
  "rb_call R ''_wrap_JsEvent_getClientUuid'' = rb_wrap_JsEvent_getClientUuid R"
  "rb_call R ''_wrap_JsEvent_setClientUuid'' = rb_wrap_JsEvent_setClientUuid R"
  "rb_call R ''_wrap_JsEvent_getCommandLine'' = rb_wrap_JsEvent_getCommandLine R"
  "rb_call R ''_wrap_JsEvent_setCommandLine'' = rb_wrap_JsEvent_setCommandLine R"
  "rb_call R ''_wrap_JsEvent_getSessionEventFlags'' = rb_wrap_JsEvent_getSessionEventFlags R"
  "rb_call R ''_wrap_JsEvent_setSessionEventFlags'' = rb_wrap_JsEvent_setSessionEventFlags R"
  "rb_call R ''_wrap_new_JsEvent'' = rb_wrap_new_JsEvent R"
  "rb_call R ''_wrap_new_JsClient'' = rb_wrap_new_JsClient R"
  "rb_call R ''_wrap_JsClient_getPortNamesByType'' = rb_wrap_JsClient_getPortNamesByType R"
  "rb_call R ''_wrap_JsClient_getPortNames'' = rb_wrap_JsClient_getPortNames R"
  "rb_call R ''_wrap_JsClient_getPort'' = rb_wrap_JsClient_getPort R"
  "rb_call R ''_wrap_JsClient_registerPort'' = rb_wrap_JsClient_registerPort R"
  "rb_call R ''_wrap_JsClient_getEvent'' = rb_wrap_JsClient_getEvent R"
  "rb_call R ''_wrap_JsClient_getSampleRate'' = rb_wrap_JsClient_getSampleRate R"
  "rb_call R ''_wrap_JsClient_activate'' = rb_wrap_JsClient_activate R"
  "rb_call R ''_wrap_JsClient_getName'' = rb_wrap_JsClient_getName R"
  "rb_call R ''_wrap_JsClient_getTransportState'' = rb_wrap_JsClient_getTransportState R"
  "rb_call R ''_wrap_JsClient_recomputeLatencies'' = rb_wrap_JsClient_recomputeLatencies R"
  by (rule rb_call_function, simp add: rb_functions_def)+

lemmas rb_wrap_defs =
  rb_wrap_JsPortBuffer_getf_def rb_wrap_JsPortBuffer_setf_def rb_wrap_JsPortBuffer_length_def
  rb_wrap_JsPortBuffer_toHexString_def rb_wrap_new_JsPortBuffer_def rb_wrap_JsLatencyRange_min_def
  rb_wrap_JsLatencyRange_max_def rb_wrap_new_JsLatencyRange_def rb_wrap_StringList_get_def
  rb_wrap_StringList_length_def rb_wrap_new_StringList_def rb_wrap_JsPort_getBuffer_def rb_wrap_JsPort_name_def
  rb_wrap_JsPort_connect_def rb_wrap_JsPort_getLatencyRange_def rb_wrap_JsPort_setLatencyRange_def
  rb_wrap_JsPort_wakeupLatencyCallbacks_def rb_wrap_JsPort_wakeupSigLatencyCallback_def
  rb_wrap_JsPort_initCaptureLatencyListener_def rb_wrap_JsPort_initPlaybackLatencyListener_def
  rb_wrap_JsPort_initLatencyListener_def rb_wrap_new_JsPort_def rb_wrap_JsEvent_getType_def
  rb_wrap_JsEvent_getData_def rb_wrap_JsEvent_complete_def rb_wrap_JsEvent_getSessionEventType_def
  rb_wrap_JsEvent_getSessionDir_def rb_wrap_JsEvent_setSessionDir_def rb_wrap_JsEvent_getClientUuid_def
  rb_wrap_JsEvent_setClientUuid_def rb_wrap_JsEvent_getCommandLine_def rb_wrap_JsEvent_setCommandLine_def
  rb_wrap_JsEvent_getSessionEventFlags_def rb_wrap_JsEvent_setSessionEventFlags_def rb_wrap_new_JsEvent_def
  rb_wrap_new_JsClient_def rb_wrap_JsClient_getPortNamesByType_def rb_wrap_JsClient_getPortNames_def
  rb_wrap_JsClient_getPort_def rb_wrap_JsClient_registerPort_def rb_wrap_JsClient_getEvent_def
  rb_wrap_JsClient_getSampleRate_def rb_wrap_JsClient_activate_def rb_wrap_JsClient_getName_def
  rb_wrap_JsClient_getTransportState_def rb_wrap_JsClient_recomputeLatencies_def

section \<open>Refused receivers\<close>

text \<open>A method with \<open>n\<close> arguments counts them first and then converts its receiver to class \<open>c\<close>.\<close>

definition takes_self ::
  "'rb rb_api \<Rightarrow> addr \<Rightarrow> nat \<Rightarrow> (rb_value list \<Rightarrow> rb_value \<Rightarrow> 'rb rb_world \<Rightarrow> 'rb rb_outcome) \<Rightarrow> bool" where
  "takes_self R c n g \<longleftrightarrow> (\<exists>who k. \<forall>argv recv. g argv recv = rb_check_argc n argv (rb_arg_ptr R recv c who (k argv)))"

lemma takes_selfI:
  "(\<And>argv recv. g argv recv = rb_check_argc n argv (rb_arg_ptr R recv c who (k argv))) \<Longrightarrow> takes_self R c n g"
  unfolding takes_self_def by blast

lemma methods_take_self:
  "takes_self R SWIGTYPE_p_JsPortBuffer 1 (rb_wrap_JsPortBuffer_getf R)"
  "takes_self R SWIGTYPE_p_JsPortBuffer 2 (rb_wrap_JsPortBuffer_setf R)"
  "takes_self R SWIGTYPE_p_JsPortBuffer 0 (rb_wrap_JsPortBuffer_length R)"
  "takes_self R SWIGTYPE_p_JsPortBuffer 3 (rb_wrap_JsPortBuffer_toHexString R)"
  "takes_self R SWIGTYPE_p_JsLatencyRange 0 (rb_wrap_JsLatencyRange_min R)"
  "takes_self R SWIGTYPE_p_JsLatencyRange 0 (rb_wrap_JsLatencyRange_max R)"
  "takes_self R SWIGTYPE_p_StringList 1 (rb_wrap_StringList_get R)"
  "takes_self R SWIGTYPE_p_StringList 0 (rb_wrap_StringList_length R)"
  "takes_self R SWIGTYPE_p_JsPort 0 (rb_wrap_JsPort_getBuffer R)"
  "takes_self R SWIGTYPE_p_JsPort 0 (rb_wrap_JsPort_name R)"
  "takes_self R SWIGTYPE_p_JsPort 1 (rb_wrap_JsPort_connect R)"
  "takes_self R SWIGTYPE_p_JsPort 1 (rb_wrap_JsPort_getLatencyRange R)"
  "takes_self R SWIGTYPE_p_JsPort 3 (rb_wrap_JsPort_setLatencyRange R)"
  "takes_self R SWIGTYPE_p_JsPort 0 (rb_wrap_JsPort_wakeupLatencyCallbacks R)"
  "takes_self R SWIGTYPE_p_JsPort 0 (rb_wrap_JsPort_wakeupSigLatencyCallback R)"
  "takes_self R SWIGTYPE_p_JsPort 0 (rb_wrap_JsPort_initCaptureLatencyListener R)"
  "takes_self R SWIGTYPE_p_JsPort 0 (rb_wrap_JsPort_initPlaybackLatencyListener R)"
  "takes_self R SWIGTYPE_p_JsPort 0 (rb_wrap_JsPort_initLatencyListener R)"
  "takes_self R SWIGTYPE_p_JsEvent 0 (rb_wrap_JsEvent_getType R)"
  "takes_self R SWIGTYPE_p_JsEvent 0 (rb_wrap_JsEvent_getData R)"
  "takes_self R SWIGTYPE_p_JsEvent 0 (rb_wrap_JsEvent_complete R)"
  "takes_self R SWIGTYPE_p_JsEvent 0 (rb_wrap_JsEvent_getSessionEventType R)"
  "takes_self R SWIGTYPE_p_JsEvent 0 (rb_wrap_JsEvent_getSessionDir R)"
  "takes_self R SWIGTYPE_p_JsEvent 1 (rb_wrap_JsEvent_setSessionDir R)"
  "takes_self R SWIGTYPE_p_JsEvent 0 (rb_wrap_JsEvent_getClientUuid R)"
  "takes_self R SWIGTYPE_p_JsEvent 1 (rb_wrap_JsEvent_setClientUuid R)"
  "takes_self R SWIGTYPE_p_JsEvent 0 (rb_wrap_JsEvent_getCommandLine R)"
  "takes_self R SWIGTYPE_p_JsEvent 1 (rb_wrap_JsEvent_setCommandLine R)"
  "takes_self R SWIGTYPE_p_JsEvent 0 (rb_wrap_JsEvent_getSessionEventFlags R)"
  "takes_self R SWIGTYPE_p_JsEvent 1 (rb_wrap_JsEvent_setSessionEventFlags R)"
  "takes_self R SWIGTYPE_p_JsClient 3 (rb_wrap_JsClient_getPortNamesByType R)"
  "takes_self R SWIGTYPE_p_JsClient 1 (rb_wrap_JsClient_getPortNames R)"
  "takes_self R SWIGTYPE_p_JsClient 1 (rb_wrap_JsClient_getPort R)"
  "takes_self R SWIGTYPE_p_JsClient 2 (rb_wrap_JsClient_registerPort R)"
  "takes_self R SWIGTYPE_p_JsClient 1 (rb_wrap_JsClient_getEvent R)"
  "takes_self R SWIGTYPE_p_JsClient 0 (rb_wrap_JsClient_getSampleRate R)"
  "takes_self R SWIGTYPE_p_JsClient 0 (rb_wrap_JsClient_activate R)"
  "takes_self R SWIGTYPE_p_JsClient 0 (rb_wrap_JsClient_getName R)"
  "takes_self R SWIGTYPE_p_JsClient 0 (rb_wrap_JsClient_getTransportState R)"
  "takes_self R SWIGTYPE_p_JsClient 0 (rb_wrap_JsClient_recomputeLatencies R)"
  by (unfold rb_wrap_defs) (rule takes_selfI, rule HOL.refl)+

lemmas methods_some_self = methods_take_self [THEN exI [of "\<lambda>n. takes_self R c n g" for R c g]]

lemma class_method_takes_self:
  assumes "(c, name, methods) \<in> set ruby_classes" "(m, f) \<in> set methods" "m \<noteq> ''initialize''"
  shows "\<exists>n. takes_self R c n (rb_call R f)"
proof -
  have "\<forall>(c, name, methods) \<in> set ruby_classes. \<forall>(m, f) \<in> set methods.
      m = ''initialize'' \<or> (\<exists>n. takes_self R c n (rb_call R f))"
    by (simp add: ruby_classes_def rb_calls methods_some_self)
  then show ?thesis using assms by fastforce
qed

lemma refused_receiver:
  assumes "takes_self R c n g" "\<And>who k. \<exists>msg. rb_arg_ptr R recv c who k w = Some (RRaised e msg, w)"
  shows "\<exists>msg. g argv recv w = Some (RRaised (if length argv = n then e else rb_eArgError) msg, w)"
  using assms by (fastforce simp: takes_self_def rb_check_argc_def rb_raise_def)

section \<open>Calls in both languages\<close>

text \<open>The same result in Python and in Ruby.\<close>

definition rb_same_value :: "'rb py_world \<Rightarrow> py_obj \<Rightarrow> 'rb rb_world \<Rightarrow> rb_value \<Rightarrow> bool" where
  "rb_same_value pw obj rw v \<longleftrightarrow>
     (case obj of
        PyNone \<Rightarrow> v = RNil
      | PyInt n \<Rightarrow> v = RInt n
      | PyProxy a \<Rightarrow> (\<exists>b x u. v = RData b \<and> objs (proxies pw) a = Some x \<and> objs (robjs rw) b = Some u \<and>
          so_ptr x = ro_data u \<and> ro_swigtype u = Some (swig_type_names ! so_ty x) \<and> (so_own x = 0 \<longleftrightarrow> ro_dfree u = None))
      | _ \<Rightarrow> False)"

text \<open>
  Both undefined, the same result, or the same error, and the same state of the library. Ruby takes
  the text of an error for a format: with a directive in it the call is undefined.
\<close>

definition rb_agree :: "'rb outcome \<Rightarrow> 'rb rb_outcome \<Rightarrow> bool" where
  "rb_agree po ro \<longleftrightarrow>
     (case po of
        None \<Rightarrow> ro = None
      | Some (Returned (Some obj), pw) \<Rightarrow>
          (\<exists>v rw. ro = Some (RReturned v, rw) \<and> rjs rw = js pw \<and> rb_same_value pw obj rw v)
      | Some (Returned None, pw) \<Rightarrow>
          (\<exists>err rw. py_err pw = Some (RuntimeError, err) \<and> rjs rw = js pw \<and>
             ro = Option.bind (bare_format err) (\<lambda>msg. rb_raise JacksRuntimeError msg rw))
      | Some (Exited code, pw) \<Rightarrow> False)"

lemma rb_agree_guarded:
  assumes "js pw = rjs rw" "\<And>r j. rb_agree (k r (pw\<lparr>js := j\<rparr>)) (k' r (rw\<lparr>rjs := j\<rparr>))"
  shows "rb_agree (guarded act k pw) (rb_guarded act k' rw)"
proof -
  have same: "rb_cleared rw = cleared pw" using assms(1) by (simp add: rb_cleared_def cleared_def)
  show ?thesis
  proof (cases "act (cleared pw)")
    case None
    then show ?thesis by (simp add: guarded_def rb_guarded_def same rb_agree_def)
  next
    case (Some called)
    obtain r j where called: "called = (r, j)" by (cases called)
    show ?thesis
    proof (cases "check_exception (errors j)")
      case None
      then show ?thesis using Some called assms(2) by (simp add: guarded_def rb_guarded_def same after_call_def rb_check_error_def)
    next
      case (Some buf)
      then show ?thesis
        using \<open>act (cleared pw) = Some called\<close> called
        by (cases "c_string buf")
          (auto intro!: exI [of _ "rw\<lparr>rjs := j\<rparr>"] simp: guarded_def rb_guarded_def same after_call_def rb_check_error_def rb_agree_def)
    qed
  qed
qed

lemma rb_agree_value:
  "js pw = rjs rw \<Longrightarrow> rb_agree (return_obj PyNone [] pw) (rb_return_obj RNil [] rw)"
  "js pw = rjs rw \<Longrightarrow> rb_agree (return_obj (PyInt n) [] pw) (rb_return_obj (RInt n) [] rw)"
  by (simp_all add: rb_agree_def return_obj_def rb_return_obj_def rb_same_value_def)

lemma rb_agree_object:
  assumes "js pw = rjs rw" "always_alloc (proxies pw)" "always_alloc (robjs rw)" "module_types (rt pw)" "ruby_loaded rw" "ty < 14"
  shows "rb_agree (return_ptr p ty 0 [] pw) (rb_return_ptr p ty 0 [] rw)"
proof (cases p)
  case None
  then show ?thesis
    using assms(1) by (simp add: rb_agree_def return_ptr_def SWIG_NewPointerObj_def rb_return_ptr_def
        SWIG_Ruby_NewPointerObj_def rb_return_obj_def rb_same_value_def)
next
  case (Some a)
  obtain kinds where "rb_return_ptr (Some a) ty 0 [] rw =
      Some (RReturned (RData (next_addr (robjs rw))), rw\<lparr>robjs := added (borrowed kinds a ty) (robjs rw)\<rparr>)"
    using rb_return_fresh [OF assms(5,6,3)] by blast
  moreover have "return_ptr (Some a) ty 0 [] pw =
      Some (Returned (Some (PyProxy (next_addr (proxies pw)))), with_proxy a ty pw)"
    by (rule return_fresh [OF assms(4,6,2)])
  ultimately show ?thesis
    using Some assms(1) by (simp add: rb_agree_def rb_same_value_def borrowed_def)
qed

lemma ruby_loaded_js [simp]: "ruby_loaded (w\<lparr>rjs := j\<rparr>) = ruby_loaded w"
proof -
  have "class_of c (w\<lparr>rjs := j\<rparr>) = class_of c w" for c by (simp add: class_of_def cong: option.case_cong)
  then show ?thesis by (simp add: ruby_loaded_def)
qed

lemma ruby_loaded_objects [simp]: "ruby_loaded (w\<lparr>robjs := h\<rparr>) = ruby_loaded w"
proof -
  have "class_of c (w\<lparr>robjs := h\<rparr>) = class_of c w" for c by (simp add: class_of_def cong: option.case_cong)
  then show ?thesis by (simp add: ruby_loaded_def)
qed

text \<open>The methods without arguments whose result is no string, in both modules, with their classes.\<close>

definition rb_shared_methods ::
  "'rb rb_api \<Rightarrow> ((addr \<times> string) \<times> (py_obj list \<Rightarrow> 'rb py_world \<Rightarrow> 'rb outcome) \<times>
     (rb_value list \<Rightarrow> rb_value \<Rightarrow> 'rb rb_world \<Rightarrow> 'rb rb_outcome)) list" where
  "rb_shared_methods R =
     [((SWIGTYPE_p_JsPortBuffer, ''JsPortBuffer''), wrap_JsPortBuffer_length, rb_wrap_JsPortBuffer_length R),
      ((SWIGTYPE_p_JsLatencyRange, ''JsLatencyRange''), wrap_JsLatencyRange_min, rb_wrap_JsLatencyRange_min R),
      ((SWIGTYPE_p_JsLatencyRange, ''JsLatencyRange''), wrap_JsLatencyRange_max, rb_wrap_JsLatencyRange_max R),
      ((SWIGTYPE_p_StringList, ''StringList''), wrap_StringList_length, rb_wrap_StringList_length R),
      ((SWIGTYPE_p_JsPort, ''JsPort''), wrap_JsPort_getBuffer (r_jack R), rb_wrap_JsPort_getBuffer R),
      ((SWIGTYPE_p_JsPort, ''JsPort''), wrap_JsPort_wakeupLatencyCallbacks, rb_wrap_JsPort_wakeupLatencyCallbacks R),
      ((SWIGTYPE_p_JsPort, ''JsPort''), wrap_JsPort_wakeupSigLatencyCallback, rb_wrap_JsPort_wakeupSigLatencyCallback R),
      ((SWIGTYPE_p_JsPort, ''JsPort''), wrap_JsPort_initCaptureLatencyListener (r_jack R), rb_wrap_JsPort_initCaptureLatencyListener R),
      ((SWIGTYPE_p_JsPort, ''JsPort''), wrap_JsPort_initPlaybackLatencyListener (r_jack R), rb_wrap_JsPort_initPlaybackLatencyListener R),
      ((SWIGTYPE_p_JsPort, ''JsPort''), wrap_JsPort_initLatencyListener (r_jack R), rb_wrap_JsPort_initLatencyListener R),
      ((SWIGTYPE_p_JsEvent, ''JsEvent''), wrap_JsEvent_getType, rb_wrap_JsEvent_getType R),
      ((SWIGTYPE_p_JsEvent, ''JsEvent''), wrap_JsEvent_getData, rb_wrap_JsEvent_getData R),
      ((SWIGTYPE_p_JsEvent, ''JsEvent''), wrap_JsEvent_complete, rb_wrap_JsEvent_complete R),
      ((SWIGTYPE_p_JsEvent, ''JsEvent''), wrap_JsEvent_getSessionEventType, rb_wrap_JsEvent_getSessionEventType R),
      ((SWIGTYPE_p_JsEvent, ''JsEvent''), wrap_JsEvent_getSessionEventFlags, rb_wrap_JsEvent_getSessionEventFlags R),
      ((SWIGTYPE_p_JsClient, ''JsClient''), wrap_JsClient_getSampleRate (r_jack R), rb_wrap_JsClient_getSampleRate R),
      ((SWIGTYPE_p_JsClient, ''JsClient''), wrap_JsClient_activate (r_jack R), rb_wrap_JsClient_activate R),
      ((SWIGTYPE_p_JsClient, ''JsClient''), wrap_JsClient_getTransportState (r_jack R), rb_wrap_JsClient_getTransportState R),
      ((SWIGTYPE_p_JsClient, ''JsClient''), wrap_JsClient_recomputeLatencies (r_jack R), rb_wrap_JsClient_recomputeLatencies R)]"

lemmas rb_shared_defs =
  wrap_JsPortBuffer_length_def rb_wrap_JsPortBuffer_length_def wrap_JsLatencyRange_min_def
  rb_wrap_JsLatencyRange_min_def wrap_JsLatencyRange_max_def rb_wrap_JsLatencyRange_max_def wrap_StringList_length_def
  rb_wrap_StringList_length_def wrap_JsPort_getBuffer_def rb_wrap_JsPort_getBuffer_def
  wrap_JsPort_wakeupLatencyCallbacks_def rb_wrap_JsPort_wakeupLatencyCallbacks_def
  wrap_JsPort_wakeupSigLatencyCallback_def rb_wrap_JsPort_wakeupSigLatencyCallback_def
  wrap_JsPort_initCaptureLatencyListener_def rb_wrap_JsPort_initCaptureLatencyListener_def
  wrap_JsPort_initPlaybackLatencyListener_def rb_wrap_JsPort_initPlaybackLatencyListener_def
  wrap_JsPort_initLatencyListener_def rb_wrap_JsPort_initLatencyListener_def wrap_JsEvent_getType_def
  rb_wrap_JsEvent_getType_def wrap_JsEvent_getData_def rb_wrap_JsEvent_getData_def wrap_JsEvent_complete_def
  rb_wrap_JsEvent_complete_def wrap_JsEvent_getSessionEventType_def rb_wrap_JsEvent_getSessionEventType_def
  wrap_JsEvent_getSessionEventFlags_def rb_wrap_JsEvent_getSessionEventFlags_def wrap_JsClient_getSampleRate_def
  rb_wrap_JsClient_getSampleRate_def wrap_JsClient_activate_def rb_wrap_JsClient_activate_def
  wrap_JsClient_getTransportState_def rb_wrap_JsClient_getTransportState_def wrap_JsClient_recomputeLatencies_def
  rb_wrap_JsClient_recomputeLatencies_def

lemma ruby_from_numbers:
  "ruby_From_int n = RInt n" "ruby_From_unsigned_SS_int k = RInt (uint k)" "ruby_From_size_t m = RInt (uint m)"
  by (simp_all add: ruby_From_int_def ruby_From_unsigned_SS_int_def ruby_From_unsigned_SS_long_def ruby_From_size_t_def
      uint_up_ucast is_up)

lemma rb_shared_agree:
  assumes m: "((c, name), p, l) \<in> set (rb_shared_methods R)" and js: "js pw = rjs rw"
    and x: "objs (proxies pw) v = Some x" "so_ty x = c" "so_ptr x = Some q"
    and u: "objs (robjs rw) a = Some u" "name \<in> set (ro_kinds u)" "ro_data u = Some q"
    and ok: "always_alloc (proxies pw)" "always_alloc (robjs rw)" "module_types (rt pw)" "ruby_loaded rw"
  shows "rb_agree (p [PyProxy v] pw) (l [] (RData a) rw)"
proof -
  have "fst ` set (rb_shared_methods R) \<subseteq> (\<lambda>(c, name, methods). (c, name)) ` set ruby_classes"
    by (simp add: rb_shared_methods_def ruby_classes_def)
  then have cls: "\<exists>methods. (c, name, methods) \<in> set ruby_classes" using m by force
  then have rb: "so_ty x = d \<Longrightarrow> rb_arg_ptr R (RData a) d who k rw = k (Some q) rw" for d who k
    using rb_arg_instance(1) [OF ok(4) _ u(1,2,3)] x(2) by blast
  have py: "so_ty x = d \<Longrightarrow> arg_ptr (PyProxy v) d 0 bufs who k pw = k (Some q) pw" for d bufs who k
    using arg_ptr_own(1) [OF x(1)] x(3) by simp
  have object: "rb_agree (return_ptr r ty 0 [] (pw\<lparr>js := j\<rparr>)) (rb_return_ptr r ty 0 [] (rw\<lparr>rjs := j\<rparr>))" if "ty < 14" for r j ty
    by (rule rb_agree_object) (use ok that in simp_all)
  have buffer: "rb_agree (return_ptr r SWIGTYPE_p_JsPortBuffer 0 [] (pw\<lparr>js := j\<rparr>))
      (rb_return_ptr r SWIGTYPE_p_JsPortBuffer 0 [] (rw\<lparr>rjs := j\<rparr>))"
    and data: "rb_agree (return_ptr r SWIGTYPE_p_void 0 [] (pw\<lparr>js := j\<rparr>)) (rb_return_ptr r SWIGTYPE_p_void 0 [] (rw\<lparr>rjs := j\<rparr>))" for r j
    by (rule object; simp add: py_type_defs)+
  from m x(2) show ?thesis
    unfolding rb_shared_methods_def
    by (auto simp: rb_shared_defs rb_check_argc_def from_numbers ruby_from_numbers py rb
        intro!: rb_agree_guarded [OF js] rb_agree_value buffer data)
qed

section \<open>What calls return\<close>

text \<open>In worlds that satisfy \<open>I\<close>, a step returns only what satisfies \<open>Q\<close>.\<close>

definition rb_ensures ::
  "('rb rb_world \<Rightarrow> bool) \<Rightarrow> (rb_value \<Rightarrow> 'rb rb_world \<Rightarrow> bool) \<Rightarrow> ('rb rb_world \<Rightarrow> 'rb rb_outcome) \<Rightarrow> bool" where
  "rb_ensures I Q k \<longleftrightarrow> (\<forall>w v w1. I w \<longrightarrow> k w = Some (RReturned v, w1) \<longrightarrow> Q v w1)"

lemma no_return: "rb_raise e msg w \<noteq> Some (RReturned v, w1)" "rb_arg_fail R res who x w \<noteq> Some (RReturned v, w1)"
  by (auto simp: rb_raise_def rb_arg_fail_def split: prod.splits)

lemma free_bufs_js: "ruby_free_bufs bs w = Some w1 \<Longrightarrow> \<exists>j. w1 = w\<lparr>rjs := j\<rparr>"
proof (induction bs arbitrary: w)
  case Nil
  then show ?case by (intro exI [of _ "rjs w"]) simp
next
  case (Cons b bs)
  from Cons.prems obtain w2 where "ruby_free_buf b w = Some w2" "ruby_free_bufs bs w2 = Some w1"
    by (auto simp: bind_eq_Some_conv)
  moreover from this(1) have "\<exists>j. w2 = w\<lparr>rjs := j\<rparr>"
    by (auto simp: ruby_free_buf_def split: if_splits intro: exI [of _ "rjs w"])
  ultimately show ?case using Cons.IH by fastforce
qed

text \<open>
  The conversions before a call change neither the data objects nor the classes, so what holds of
  those when a function is entered holds when the library is called and when its result is returned.
\<close>

locale rb_steps =
  fixes I :: "'rb rb_world \<Rightarrow> bool" and Q :: "rb_value \<Rightarrow> 'rb rb_world \<Rightarrow> bool"
  assumes I_js: "I w \<Longrightarrow> I (w\<lparr>rjs := j\<rparr>)"
    and I_heap: "I w \<Longrightarrow> I (set_rheap h w)"
begin

lemma after:
  assumes "rb_ensures I Q k" "I w"
  shows "k w = Some (RReturned v, w1) \<Longrightarrow> Q v w1" "k (w\<lparr>rjs := j\<rparr>) = Some (RReturned v, w1) \<Longrightarrow> Q v w1"
    "k (set_rheap h w) = Some (RReturned v, w1) \<Longrightarrow> Q v w1"
  using assms I_js I_heap unfolding rb_ensures_def by blast+

lemma check_argc: "rb_ensures I Q k \<Longrightarrow> rb_ensures I Q (rb_check_argc n argv k)"
  by (auto simp: rb_ensures_def rb_check_argc_def no_return)

lemma fails: "rb_ensures I Q (rb_arg_fail R res who v)"
  by (simp add: rb_ensures_def no_return)

lemma if_ok: "rb_ensures I Q k \<Longrightarrow> rb_ensures I Q k' \<Longrightarrow> rb_ensures I Q (\<lambda>w. if b then k w else k' w)"
  by (auto simp: rb_ensures_def)

lemma convert:
  assumes "\<And>res p. rb_ensures I Q (k res p)"
  shows "rb_ensures I Q (SWIG_Ruby_ConvertPtrAndOwn v ty 0 k)"
  unfolding rb_ensures_def
proof (intro allI impI)
  fix w u w1 assume w: "I w" and run: "SWIG_Ruby_ConvertPtrAndOwn v ty 0 k w = Some (RReturned u, w1)"
  obtain res p h where "k res p w = Some (RReturned u, w1) \<or> k res p (set_rheap h w) = Some (RReturned u, w1)"
    using run by (auto simp: SWIG_Ruby_ConvertPtrAndOwn_def no_return bind_eq_Some_conv
        split: rb_value.splits if_split_asm option.splits)
  then show "Q u w1" using after [OF assms w] by blast
qed

lemma args:
  "(\<And>p. rb_ensures I Q (k p)) \<Longrightarrow> rb_ensures I Q (rb_arg_ptr R v ty who k)"
  "(\<And>n. rb_ensures I Q (kn n)) \<Longrightarrow> rb_ensures I Q (rb_arg_val conv R v who kn)"
proof -
  show "(\<And>p. rb_ensures I Q (k p)) \<Longrightarrow> rb_ensures I Q (rb_arg_ptr R v ty who k)"
    unfolding rb_arg_ptr_def by (intro convert if_ok fails)
  show "(\<And>n. rb_ensures I Q (kn n)) \<Longrightarrow> rb_ensures I Q (rb_arg_val conv R v who kn)"
    by (auto simp: rb_ensures_def rb_arg_val_def no_return split: prod.splits if_splits)
qed

lemma char_ptr:
  assumes k: "\<And>res p n alloc. rb_ensures I Q (k res p n alloc)"
  shows "rb_ensures I Q (ruby_AsCharPtrAndSize v al k)"
  unfolding rb_ensures_def
proof (intro allI impI)
  fix w u w1 assume w: "I w" and run: "ruby_AsCharPtrAndSize v al k w = Some (RReturned u, w1)"
  let ?k = "\<lambda>res vptr w. if res = 0
      then (case vptr of None \<Rightarrow> k 0 CNULL 0 0 w
            | Some a \<Rightarrow> do { s \<leftarrow> read_chars (CHeap a) (rjs w); k 0 (CHeap a) (length s + 1) 0 w })
      else k (- 5) CNULL 0 al w"
  have "rb_ensures I Q (?k res p)" for res p
    using k by (auto simp: rb_ensures_def bind_eq_Some_conv split: option.splits if_splits)
  note other = after(1) [OF convert [OF this] w]
  show "Q u w1"
  proof (cases v)
    case (RStr a)
    then show ?thesis
      using run after(1,2) [OF k w] by (auto simp: ruby_AsCharPtrAndSize_def bind_eq_Some_conv Let_def split: if_splits prod.splits)
  qed (use run other after(1) [OF k w] in \<open>auto simp: ruby_AsCharPtrAndSize_def bind_eq_Some_conv split: if_splits\<close>)
qed

lemma strings:
  "(\<And>alloc p. rb_ensures I Q (k alloc p)) \<Longrightarrow> rb_ensures I Q (rb_arg_str R v who k)"
  unfolding rb_arg_str_def by (intro char_ptr if_ok fails)

lemma array1:
  assumes k: "\<And>res c. rb_ensures I Q (k res c)"
  shows "rb_ensures I Q (ruby_AsCharArray1 v k)"
  unfolding ruby_AsCharArray1_def
proof (rule char_ptr)
  have buf: "\<exists>j. w1 = w\<lparr>rjs := j\<rparr>" if "ruby_free_buf b w = Some w1" for b w w1
    using free_bufs_js [of "[b]" w w1] that by simp
  show "rb_ensures I Q (\<lambda>w. if SWIG_IsOK res
       then do {
         c \<leftarrow> (case p of
                CHeap a \<Rightarrow> do { s \<leftarrow> objs (cstrings (rjs w)) a; _ \<leftarrow> c_assert (s \<noteq> []); Some (hd s) }
              | _ \<Rightarrow> Some NUL);
         w \<leftarrow> ruby_free_buf (alloc, p) w;
         if n \<le> 1 \<or> n = 2 \<and> p \<noteq> CNULL then k res c w else k (- 5) NUL w
       }
       else k (- 5) NUL w)" for res p n alloc
    unfolding rb_ensures_def
  proof (intro allI impI)
    fix w u w1 assume w: "I w" and run: "(if SWIG_IsOK res
       then do {
         c \<leftarrow> (case p of
                CHeap a \<Rightarrow> do { s \<leftarrow> objs (cstrings (rjs w)) a; _ \<leftarrow> c_assert (s \<noteq> []); Some (hd s) }
              | _ \<Rightarrow> Some NUL);
         w \<leftarrow> ruby_free_buf (alloc, p) w;
         if n \<le> 1 \<or> n = 2 \<and> p \<noteq> CNULL then k res c w else k (- 5) NUL w
       }
       else k (- 5) NUL w) = Some (RReturned u, w1)"
    show "Q u w1"
    proof (cases "SWIG_IsOK res")
      case True
      then obtain c w2 where "ruby_free_buf (alloc, p) w = Some w2"
        and c: "k res c w2 = Some (RReturned u, w1) \<or> k (- 5) NUL w2 = Some (RReturned u, w1)"
        using run by (auto simp: bind_eq_Some_conv split: if_split_asm)
      then obtain j where "w2 = w\<lparr>rjs := j\<rparr>" using buf by blast
      then show ?thesis using c after(2) [OF k w] by blast
    next
      case False
      then show ?thesis using run after(1) [OF k w] by simp
    qed
  qed
qed

lemma chars:
  assumes k: "\<And>c. rb_ensures I Q (k c)"
  shows "rb_ensures I Q (rb_arg_char R v who k)"
proof -
  let ?k = "\<lambda>res c w. if SWIG_IsOK res then k c w else rb_arg_fail R res who v w"
  let ?k2 = "\<lambda>res c w. if SWIG_IsOK res then ?k res c w
       else (let (res, n) = ruby_AsVal_long v
             in if SWIG_IsOK res then (if - 128 \<le> n \<and> n \<le> 127 then ?k res (char_of (n mod 256)) w else ?k (- 7) NUL w)
                else ?k res NUL w)"
  have k2: "rb_ensures I Q (?k2 res c)" for res c
    unfolding rb_ensures_def
    using after(1) [OF k] by (auto simp: Let_def no_return split: prod.splits if_splits)
  have "rb_ensures I Q (ruby_AsCharArray1 v ?k2)" by (rule array1) (rule k2)
  then show ?thesis by (simp only: rb_arg_char_def ruby_AsVal_char_def)
qed

lemma guarded:
  assumes k: "\<And>r. rb_ensures I Q (k r)"
  shows "rb_ensures I Q (rb_guarded act k)"
  unfolding rb_ensures_def rb_guarded_def rb_check_error_def
  using after(2) [OF k] by (auto simp: bind_eq_Some_conv no_return split: option.splits)

end

section \<open>Ownership\<close>

text \<open>No class is tracked; whatever data object is returned, Ruby frees nothing when it collects it.\<close>

definition untracked :: "'rb rb_world \<Rightarrow> bool" where
  "untracked w \<longleftrightarrow> (\<forall>c s. rclasses w c = Some s \<longrightarrow> \<not> sc_track s)"

definition lent :: "rb_value \<Rightarrow> 'rb rb_world \<Rightarrow> bool" where
  "lent v w \<longleftrightarrow> (\<forall>a. v = RData a \<longrightarrow> (\<exists>x. objs (robjs w) a = Some x \<and> ro_dfree x = None))"

interpretation lends: rb_steps untracked lent
  by unfold_locales (auto simp: untracked_def)

lemma lends_return:
  "rb_ensures untracked lent (rb_return_obj RNil bufs)" "rb_ensures untracked lent (rb_return_obj (ruby_From_int n) bufs)"
  "rb_ensures untracked lent (rb_return_obj (ruby_From_unsigned_SS_int i) bufs)"
  "rb_ensures untracked lent (rb_return_obj (ruby_From_size_t m) bufs)"
  "rb_ensures untracked lent (rb_return_str s bufs)" "rb_ensures untracked lent (rb_return_ptr p ty 0 bufs)"
proof -
  show nil: "rb_ensures untracked lent (rb_return_obj RNil bufs)"
    and "rb_ensures untracked lent (rb_return_obj (ruby_From_int n) bufs)"
    "rb_ensures untracked lent (rb_return_obj (ruby_From_unsigned_SS_int i) bufs)"
    "rb_ensures untracked lent (rb_return_obj (ruby_From_size_t m) bufs)"
    by (auto simp: rb_ensures_def lent_def rb_return_obj_def bind_eq_Some_conv ruby_from_numbers)
  show "rb_ensures untracked lent (rb_return_str s bufs)"
    by (auto simp: rb_ensures_def lent_def rb_return_str_def ruby_FromCharPtr_def rb_str_new_def new_obj_def
        Let_def rb_return_obj_def no_return bind_eq_Some_conv split: if_splits prod.splits option.splits)
  show "rb_ensures untracked lent (rb_return_ptr p ty 0 bufs)"
    unfolding rb_ensures_def
  proof (intro allI impI)
    fix w v w1 assume w: "untracked w" and run: "rb_return_ptr p ty 0 bufs w = Some (RReturned v, w1)"
    have wrapped: "lent v w1" if "Data_Wrap_Struct x (\<lambda>a. rb_return_obj (RData a) bufs) w = Some (RReturned v, w1)"
      "ro_dfree x = None" for x
      using that by (auto simp: Data_Wrap_Struct_def new_obj_def Let_def no_return rb_return_obj_def bind_eq_Some_conv lent_def
          dest!: free_bufs_js split: if_splits)
    have old: "tracked_object a name s w = Some RNil" if "class_of ty w = Some (Some s)" for a name s
      using w that by (auto simp: class_of_def untracked_def tracked_object_def bind_eq_Some_conv split: option.splits)
    have "class_of ty w = Some (Some s) \<Longrightarrow> \<not> sc_track s" for s
      using w by (auto simp: class_of_def untracked_def bind_eq_Some_conv split: option.splits)
    then show "lent v w1"
      using run nil w by (cases p) (auto simp: rb_return_ptr_def SWIG_Ruby_NewPointerObj_def bind_eq_Some_conv old no_return
          rb_ensures_def intro: wrapped split: option.splits if_splits)
  qed
qed

lemmas lends_rules = lends.check_argc lends.args lends.strings lends.chars lends.guarded lends_return

lemma lends_methods:
  "rb_ensures untracked lent (rb_wrap_JsPortBuffer_getf R argv recv)"
  "rb_ensures untracked lent (rb_wrap_JsPortBuffer_setf R argv recv)"
  "rb_ensures untracked lent (rb_wrap_JsPortBuffer_length R argv recv)"
  "rb_ensures untracked lent (rb_wrap_JsPortBuffer_toHexString R argv recv)"
  "rb_ensures untracked lent (rb_wrap_JsLatencyRange_min R argv recv)"
  "rb_ensures untracked lent (rb_wrap_JsLatencyRange_max R argv recv)"
  "rb_ensures untracked lent (rb_wrap_StringList_get R argv recv)"
  "rb_ensures untracked lent (rb_wrap_StringList_length R argv recv)"
  "rb_ensures untracked lent (rb_wrap_JsPort_getBuffer R argv recv)"
  "rb_ensures untracked lent (rb_wrap_JsPort_name R argv recv)"
  "rb_ensures untracked lent (rb_wrap_JsPort_connect R argv recv)"
  "rb_ensures untracked lent (rb_wrap_JsPort_getLatencyRange R argv recv)"
  "rb_ensures untracked lent (rb_wrap_JsPort_setLatencyRange R argv recv)"
  "rb_ensures untracked lent (rb_wrap_JsPort_wakeupLatencyCallbacks R argv recv)"
  "rb_ensures untracked lent (rb_wrap_JsPort_wakeupSigLatencyCallback R argv recv)"
  "rb_ensures untracked lent (rb_wrap_JsPort_initCaptureLatencyListener R argv recv)"
  "rb_ensures untracked lent (rb_wrap_JsPort_initPlaybackLatencyListener R argv recv)"
  "rb_ensures untracked lent (rb_wrap_JsPort_initLatencyListener R argv recv)"
  "rb_ensures untracked lent (rb_wrap_JsEvent_getType R argv recv)"
  "rb_ensures untracked lent (rb_wrap_JsEvent_getData R argv recv)"
  "rb_ensures untracked lent (rb_wrap_JsEvent_complete R argv recv)"
  "rb_ensures untracked lent (rb_wrap_JsEvent_getSessionEventType R argv recv)"
  "rb_ensures untracked lent (rb_wrap_JsEvent_getSessionDir R argv recv)"
  "rb_ensures untracked lent (rb_wrap_JsEvent_setSessionDir R argv recv)"
  "rb_ensures untracked lent (rb_wrap_JsEvent_getClientUuid R argv recv)"
  "rb_ensures untracked lent (rb_wrap_JsEvent_setClientUuid R argv recv)"
  "rb_ensures untracked lent (rb_wrap_JsEvent_getCommandLine R argv recv)"
  "rb_ensures untracked lent (rb_wrap_JsEvent_setCommandLine R argv recv)"
  "rb_ensures untracked lent (rb_wrap_JsEvent_getSessionEventFlags R argv recv)"
  "rb_ensures untracked lent (rb_wrap_JsEvent_setSessionEventFlags R argv recv)"
  "rb_ensures untracked lent (rb_wrap_JsClient_getPortNamesByType R argv recv)"
  "rb_ensures untracked lent (rb_wrap_JsClient_getPortNames R argv recv)"
  "rb_ensures untracked lent (rb_wrap_JsClient_getPort R argv recv)"
  "rb_ensures untracked lent (rb_wrap_JsClient_registerPort R argv recv)"
  "rb_ensures untracked lent (rb_wrap_JsClient_getEvent R argv recv)"
  "rb_ensures untracked lent (rb_wrap_JsClient_getSampleRate R argv recv)"
  "rb_ensures untracked lent (rb_wrap_JsClient_activate R argv recv)"
  "rb_ensures untracked lent (rb_wrap_JsClient_getName R argv recv)"
  "rb_ensures untracked lent (rb_wrap_JsClient_getTransportState R argv recv)"
  "rb_ensures untracked lent (rb_wrap_JsClient_recomputeLatencies R argv recv)"
  unfolding rb_wrap_defs by (intro lends_rules)+

lemma function_lends:
  assumes "(f, g) \<in> set (rb_functions R)" "take 10 f \<noteq> ''_wrap_new_''"
  shows "rb_ensures untracked lent (g argv recv)"
proof -
  have "\<forall>(f, g) \<in> set (rb_functions R). take 10 f = ''_wrap_new_'' \<or> rb_ensures untracked lent (g argv recv)"
    by (simp add: rb_functions_def lends_methods)
  then show ?thesis using assms by blast
qed

section \<open>New objects\<close>

definition freed_by :: "addr \<Rightarrow> string \<Rightarrow> 'rb rb_world \<Rightarrow> bool" where
  "freed_by a f w \<longleftrightarrow> (\<exists>x. objs (robjs w) a = Some x \<and> ro_dfree x = Some f)"

definition made :: "addr \<Rightarrow> string \<Rightarrow> rb_value \<Rightarrow> 'rb rb_world \<Rightarrow> bool" where
  "made a f v w \<longleftrightarrow> v = RData a \<and> freed_by a f w"

interpretation owns: rb_steps "freed_by a f" "made a f" for a f
  by unfold_locales (simp_all add: freed_by_def)

lemma owns_constructed:
  assumes "freed_by a f w" "rb_constructed (RData a) bufs called w = Some (RReturned v, w1)"
  shows "made a f v w1"
proof -
  obtain p j where called: "called = (p, j)" by (cases called)
  obtain w2 where w2: "set_data_ptr (RData a) p (w\<lparr>rjs := j\<rparr>) = Some w2"
    "rb_check_error (rb_return_obj (RData a) bufs) w2 = Some (RReturned v, w1)"
    using assms(2) by (auto simp: rb_constructed_def called bind_eq_Some_conv)
  have "freed_by a f w2"
    using assms(1) w2(1) by (auto simp: set_data_ptr_def freed_by_def put_obj_def bind_eq_Some_conv)
  then show ?thesis
    using w2(2) by (auto simp: rb_check_error_def no_return rb_return_obj_def bind_eq_Some_conv made_def freed_by_def
        dest!: free_bufs_js split: option.splits)
qed

lemma owns_construct:
  "rb_ensures (freed_by a f) (made a f) (rb_construct act (RData a) bufs)"
  "rb_ensures (freed_by a f) (made a f) (rb_construct_exit actx (RData a) bufs)"
  by (auto simp: rb_ensures_def rb_construct_def rb_construct_exit_def bind_eq_Some_conv
      intro: owns_constructed split: sum.split_asm)

lemmas owns_rules = owns.check_argc owns.args owns.strings owns_construct

lemma owns_constructors:
  "rb_ensures (freed_by a f) (made a f) (rb_wrap_new_JsPortBuffer R argv (RData a))"
  "rb_ensures (freed_by a f) (made a f) (rb_wrap_new_JsLatencyRange R argv (RData a))"
  "rb_ensures (freed_by a f) (made a f) (rb_wrap_new_StringList R argv (RData a))"
  "rb_ensures (freed_by a f) (made a f) (rb_wrap_new_JsPort R argv (RData a))"
  "rb_ensures (freed_by a f) (made a f) (rb_wrap_new_JsEvent R argv (RData a))"
  "rb_ensures (freed_by a f) (made a f) (rb_wrap_new_JsClient R argv (RData a))"
  unfolding rb_wrap_defs by (intro owns_rules)+

lemma class_constructor:
  assumes "(c, name, methods) \<in> set ruby_classes"
  shows "(''initialize'', ''_wrap_new_'' @ name) \<in> set methods"
    "rb_ensures (freed_by a f) (made a f) (rb_call R (''_wrap_new_'' @ name) argv (RData a))"
    "map_of rb_allocators (''_wrap_'' @ name @ ''_allocate'') = Some (\<lambda>klass. SWIG_Ruby_NewClassInstance klass c)"
proof -
  have "\<forall>(c, name, methods) \<in> set ruby_classes. (''initialize'', ''_wrap_new_'' @ name) \<in> set methods"
    by (simp add: ruby_classes_def)
  then show "(''initialize'', ''_wrap_new_'' @ name) \<in> set methods" using assms by blast
  have "\<forall>(c, name, methods) \<in> set ruby_classes.
      rb_ensures (freed_by a f) (made a f) (rb_call R (''_wrap_new_'' @ name) argv (RData a))"
    by (simp add: ruby_classes_def rb_calls owns_constructors)
  then show "rb_ensures (freed_by a f) (made a f) (rb_call R (''_wrap_new_'' @ name) argv (RData a))" using assms by blast
  have "\<forall>(c, name, methods) \<in> set ruby_classes.
      map_of rb_allocators (''_wrap_'' @ name @ ''_allocate'') = Some (\<lambda>klass. SWIG_Ruby_NewClassInstance klass c)"
    by (simp add: ruby_classes_def rb_allocators_def fun_eq_iff rb_wrap_JsPortBuffer_allocate_def
        rb_wrap_JsLatencyRange_allocate_def rb_wrap_StringList_allocate_def rb_wrap_JsPort_allocate_def
        rb_wrap_JsEvent_allocate_def rb_wrap_JsClient_allocate_def)
  then show "map_of rb_allocators (''_wrap_'' @ name @ ''_allocate'') = Some (\<lambda>klass. SWIG_Ruby_NewClassInstance klass c)"
    using assms by blast
qed

definition blank_object :: "string list \<Rightarrow> addr \<Rightarrow> string \<Rightarrow> swig_rb_object" where
  "blank_object kinds c name = \<lparr>ro_kinds = kinds, ro_data = NULL, ro_dfree = Some (''free_'' @ name),
     ro_swigtype = Some (swig_type_names ! c)\<rparr>"

lemma instance_fields:
  assumes "ruby_loaded w" "(c, name, methods) \<in> set ruby_classes"
  shows "SWIG_Ruby_NewClassInstance kinds c k w = Data_Wrap_Struct (blank_object kinds c name) (\<lambda>obj. k (RData obj)) w"
proof -
  obtain t where t: "ti (rheap w) c = Some t" "ti_name t = Some (swig_type_names ! c)"
    using assms(1) class_of_loaded(2) [OF assms] by (auto simp: ruby_loaded_def module_types_def)
  obtain d where "ti_clientdata t = Some d" "rclasses w d = Some (class_structure name)"
    using class_of_loaded(1) [OF assms] t by (auto simp: class_of_def split: option.splits)
  then show ?thesis using t by (simp add: SWIG_Ruby_NewClassInstance_def class_structure_def blank_object_def)
qed

lemma new_runs:
  assumes "ruby_loaded w" "(c, name, methods) \<in> set ruby_classes" "instance_of name w kinds"
    and h: "new_obj (blank_object kinds c name) (robjs w) = (Some a, h)"
  shows "rb_new R kinds argv w = (case rb_call R (''_wrap_new_'' @ name) argv (RData a) (w\<lparr>robjs := h\<rparr>) of
      Some (RReturned _, w) \<Rightarrow> Some (RReturned (RData a), w) | out \<Rightarrow> out)"
    "objs h a = Some (blank_object kinds c name)"
proof -
  note cls = class_constructor [OF assms(2)]
  show x: "objs h a = Some (blank_object kinds c name)" using h by (auto simp: new_obj_def Let_def split: if_splits)
  have find: "find_alloc w kinds = Some (''_wrap_'' @ name @ ''_allocate'')"
    by (rule method_found(2) [OF assms(1,2) cls(1) assms(3)])
  have "ruby_loaded (w\<lparr>robjs := h\<rparr>)" "instance_of name (w\<lparr>robjs := h\<rparr>) kinds" using assms(1,3) by (simp_all add: instance_of_def)
  then have "find_method (w\<lparr>robjs := h\<rparr>) ''initialize'' kinds = Some (''_wrap_new_'' @ name)"
    using method_found(1) [OF _ assms(2) cls(1)] by blast
  then have "rb_send R (RData a) ''initialize'' argv (w\<lparr>robjs := h\<rparr>) = rb_call R (''_wrap_new_'' @ name) argv (RData a) (w\<lparr>robjs := h\<rparr>)"
    using x by (simp add: rb_send_def blank_object_def del: append.simps)
  then show "rb_new R kinds argv w = (case rb_call R (''_wrap_new_'' @ name) argv (RData a) (w\<lparr>robjs := h\<rparr>) of
      Some (RReturned _, w) \<Rightarrow> Some (RReturned (RData a), w) | out \<Rightarrow> out)"
    using h by (simp add: rb_new_def find cls(3) instance_fields [OF assms(1,2)] Data_Wrap_Struct_def del: append.simps)
qed

lemma new_makes:
  assumes "ruby_loaded w" "(c, name, methods) \<in> set ruby_classes" "instance_of name w kinds"
    "rb_new R kinds argv w = Some (RReturned v, w1)"
  shows "\<exists>a. made a (''free_'' @ name) v w1"
proof -
  note cls = class_constructor [OF assms(2)]
  have find: "find_alloc w kinds = Some (''_wrap_'' @ name @ ''_allocate'')"
    by (rule method_found(2) [OF assms(1,2) cls(1) assms(3)])
  then obtain a h where h: "new_obj (blank_object kinds c name) (robjs w) = (Some a, h)"
    using assms(4) by (auto simp: rb_new_def cls(3) instance_fields [OF assms(1,2)] Data_Wrap_Struct_def no_return
        simp del: append.simps split: prod.splits option.split_asm)
  note run = new_runs [OF assms(1-3) h]
  then have freed: "freed_by a (''free_'' @ name) (w\<lparr>robjs := h\<rparr>)" by (simp add: freed_by_def blank_object_def)
  obtain u where "rb_call R (''_wrap_new_'' @ name) argv (RData a) (w\<lparr>robjs := h\<rparr>) = Some (RReturned u, w1)" "v = RData a"
    using assms(4) unfolding run(1) by (auto split: option.splits prod.splits rb_result.splits)
  with cls(2) freed show ?thesis unfolding rb_ensures_def made_def by blast
qed

section \<open>The loaded module\<close>

lemma untracked_classes: "untracked w \<Longrightarrow> untracked (fold class_defined es w)"
proof (induction es arbitrary: w)
  case (Cons e es)
  obtain i name methods where e: "e = (i, name, methods)" by (cases e)
  have "untracked (class_defined e w)" using Cons.prems by (auto simp: e untracked_def class_structure_def)
  then show ?case using Cons.IH by simp
qed simp

lemma constants_defined: "\<forall>(n, v) \<in> set (ruby_constants jack). rconsts (before_classes jack w) n = Some (RInt v)"
proof -
  let ?cs = "map (\<lambda>(n, v). (n, RInt v)) (ruby_constants jack)"
  have "distinct (map fst ?cs)" by (simp add: ruby_constants_def)
  then have "(n, RInt v) \<in> set ?cs \<Longrightarrow> map_of (rev ?cs) n = Some (RInt v)" for n v by (rule map_of_reversed)
  then show ?thesis by (force simp: before_classes_def map_add_Some_iff)
qed

end
