(* ===== verification/Event_Loop.thy ===== *)
theory Event_Loop
  imports Client_Life
begin

text \<open>
  The event loop with its threads: any number of JACK threads that queue an event and then
  post the semaphore, and the script thread in \<open>JacksRbClient_get_event\<close>, which dequeues and
  waits only after it has found the queue empty. The steps are the operations of the client
  model, each atomic (the queue is lock-free, the semaphore atomic); the interleaving is
  arbitrary, in particular between the enqueue and the post of a callback.

  Theorems: events arrive once, in order, and none is lost; and no wakeup is lost, although the
  semaphore starts at 1 and is not taken when the queue was not empty.
\<close>

datatype script_pc = Dequeuing | Waiting

record ('rb, 't) loop_sys =
  shared :: "'rb jacks"
  script :: script_pc
  posting :: "'t set"
  accepted :: "ptr list"
  delivered :: "ptr list"

text \<open>
  A callback that ignores a full queue posts all the same (\<open>_session_cb\<close>,
  \<open>_shutdown_cb\<close>, \<open>_sample_rate_change_cb\<close>); \<open>_process_cb\<close> gives up instead.
\<close>

inductive loop_step :: "ptr \<Rightarrow> ('rb, 't) loop_sys \<Rightarrow> ('rb, 't) loop_sys \<Rightarrow> bool" for this where
  enqueue: "t \<notin> posting s \<Longrightarrow> client_enqueue this e (shared s) = Some (rc, sh) \<Longrightarrow>
    loop_step this s (s\<lparr>shared := sh, posting := insert t (posting s),
      accepted := (if rc = 1 then accepted s @ [e] else accepted s)\<rparr>)"
| give_up: "t \<notin> posting s \<Longrightarrow> client_enqueue this e (shared s) = Some (rc, sh) \<Longrightarrow> rc \<noteq> 1 \<Longrightarrow>
    loop_step this s (s\<lparr>shared := sh\<rparr>)"
| post: "t \<in> posting s \<Longrightarrow> client_post this (shared s) = Some sh \<Longrightarrow>
    loop_step this s (s\<lparr>shared := sh, posting := posting s - {t}\<rparr>)"
| take_event: "script s = Dequeuing \<Longrightarrow> client_dequeue this (shared s) = Some (rv, je, sh) \<Longrightarrow> rv \<noteq> 0 \<Longrightarrow>
    loop_step this s (s\<lparr>shared := sh, delivered := delivered s @ [je]\<rparr>)"
| found_empty: "script s = Dequeuing \<Longrightarrow> client_dequeue this (shared s) = Some (0, je, sh) \<Longrightarrow>
    loop_step this s (s\<lparr>shared := sh, script := Waiting\<rparr>)"
| pass: "script s = Waiting \<Longrightarrow> client_wait [] this (shared s) = Some ([], sh) \<Longrightarrow>
    loop_step this s (s\<lparr>shared := sh, script := Dequeuing\<rparr>)"

inductive loop_steps :: "ptr \<Rightarrow> ('rb, 't) loop_sys \<Rightarrow> ('rb, 't) loop_sys \<Rightarrow> bool" for this where
  refl: "loop_steps this s s"
| more: "loop_steps this s s1 \<Longrightarrow> loop_step this s1 s2 \<Longrightarrow> loop_steps this s s2"

text \<open>
  The invariant: what was accepted is what was delivered and then what is queued, and a script
  that waits while events are queued has a token, or a callback is about to post one.
\<close>

definition loop_inv ::
  "addr set \<Rightarrow> addr set \<Rightarrow> ptr \<Rightarrow> nat \<Rightarrow> jacks_rb_client_T \<Rightarrow> ('rb, 't) loop_sys \<Rightarrow> bool" where
  "loop_inv A B this n f s \<longleftrightarrow>
     (\<exists>xs v. client_rep A B this (shared s) n xs v f \<and> accepted s = delivered s @ xs \<and>
        (script s = Waiting \<and> xs \<noteq> [] \<longrightarrow> 0 < v \<or> posting s \<noteq> {}))"

lemma sem_up_pos: "0 < sem_up v"
  by (simp add: sem_up_def SEM_VALUE_MAX_def)

lemma loop_invI:
  "client_rep A B this (shared s) n xs v f \<Longrightarrow> accepted s = delivered s @ xs \<Longrightarrow>
     (script s = Waiting \<Longrightarrow> xs \<noteq> [] \<Longrightarrow> 0 < v \<or> posting s \<noteq> {}) \<Longrightarrow> loop_inv A B this n f s"
  unfolding loop_inv_def by blast

lemma loop_inv_step:
  assumes "loop_step this s s'" "loop_inv A B this n f s"
  shows "loop_inv A B this n f s'"
proof -
  obtain xs v where i: "client_rep A B this (shared s) n xs v f" "accepted s = delivered s @ xs"
    "script s = Waiting \<Longrightarrow> xs \<noteq> [] \<Longrightarrow> 0 < v \<or> posting s \<noteq> {}"
    using assms(2) unfolding loop_inv_def by blast
  show ?thesis
    using assms(1)
  proof (cases rule: loop_step.cases)
    case (enqueue t e rc sh)
    obtain sh' where "client_enqueue this e (shared s) = Some (if length xs < n then 1 else 0, sh')"
      "client_rep A B this sh' n (if length xs < n then xs @ [e] else xs) v f"
      by (rule client_enqueue_rep [OF i(1), of e])
    with enqueue(3) have "rc = (if length xs < n then 1 else 0)"
      "client_rep A B this sh n (if length xs < n then xs @ [e] else xs) v f"
      by simp_all
    with i(2) show ?thesis unfolding enqueue(1)
      by (intro loop_invI [of A B this _ n "if length xs < n then xs @ [e] else xs" v]) simp_all
  next
    case (give_up t e rc sh)
    obtain sh' where "client_enqueue this e (shared s) = Some (if length xs < n then 1 else 0, sh')"
      "client_rep A B this sh' n (if length xs < n then xs @ [e] else xs) v f"
      by (rule client_enqueue_rep [OF i(1), of e])
    with give_up(3,4) have "client_rep A B this sh n xs v f" by (simp split: if_splits)
    with i(2,3) show ?thesis unfolding give_up(1) by (intro loop_invI [of A B this _ n xs v]) simp_all
  next
    case (post t sh)
    obtain sh' where "client_post this (shared s) = Some sh'" "client_rep A B this sh' n xs (sem_up v) f"
      by (rule client_post_rep [OF i(1)])
    with post(3) have "client_rep A B this sh n xs (sem_up v) f" by simp
    with i(2) show ?thesis unfolding post(1)
      by (intro loop_invI [of A B this _ n xs "sem_up v"]) (simp_all add: sem_up_pos)
  next
    case (take_event rv je sh)
    obtain sh' where "client_dequeue this (shared s) = Some (case xs of [] \<Rightarrow> (0, NULL, sh') | x # _ \<Rightarrow> (1, x, sh'))"
      "client_rep A B this sh' n (tl xs) v f"
      by (rule client_dequeue_rep [OF i(1)])
    with take_event(3,4) obtain ys where "xs = je # ys" "client_rep A B this sh n ys v f"
      by (cases xs) auto
    with i(2) show ?thesis unfolding take_event(1)
      by (intro loop_invI [of A B this _ n ys v]) (simp_all add: take_event(2))
  next
    case (found_empty je sh)
    obtain sh' where "client_dequeue this (shared s) = Some (case xs of [] \<Rightarrow> (0, NULL, sh') | x # _ \<Rightarrow> (1, x, sh'))"
      "client_rep A B this sh' n (tl xs) v f"
      by (rule client_dequeue_rep [OF i(1)])
    with found_empty(3) have "xs = []" "client_rep A B this sh n [] v f" by (cases xs; simp)+
    with i(2) show ?thesis unfolding found_empty(1) by (intro loop_invI [of A B this _ n "[]" v]) simp_all
  next
    case (pass sh)
    have "v \<noteq> 0" using pass(3) client_wait_zero(1) [of A B this "shared s" n xs f] i(1) by (cases v) simp_all
    then obtain w where v: "v = Suc w" by (cases v) auto
    obtain sh' where "client_wait [] this (shared s) = Some ([], sh')" "client_rep A B this sh' n xs w f"
      by (rule client_wait_rep [OF i(1) [unfolded v], of "[]"])
    with pass(3) have "client_rep A B this sh n xs w f" by simp
    with i(2) show ?thesis unfolding pass(1) by (intro loop_invI [of A B this _ n xs w]) simp_all
  qed
qed

lemma loop_inv_steps: "loop_steps this s s' \<Longrightarrow> loop_inv A B this n f s \<Longrightarrow> loop_inv A B this n f s'"
  by (induction rule: loop_steps.induct) (auto intro: loop_inv_step)

text \<open>A new client, with no callback under way.\<close>

definition loop_start :: "'rb jacks \<Rightarrow> ('rb, 't) loop_sys" where
  "loop_start sh = \<lparr>shared = sh, script = Dequeuing, posting = {}, accepted = [], delivered = []\<rparr>"

lemma loop_inv_start: "client_rep A B this sh n [] v f \<Longrightarrow> loop_inv A B this n f (loop_start sh)"
  by (intro loop_invI [of A B this _ n "[]" v]) (simp_all add: loop_start_def)

lemma loop_inv_bounds:
  assumes "loop_inv A B this n f s"
  shows "\<exists>xs c. get_obj this (clients (shared s)) = Some c \<and> accepted s = delivered s @ xs \<and>
    length xs \<le> n \<and> (script s = Waiting \<and> xs \<noteq> [] \<longrightarrow> 0 < mutex c \<or> posting s \<noteq> {})"
proof -
  obtain xs v where x: "client_rep A B this (shared s) n xs v f" "accepted s = delivered s @ xs"
    "script s = Waiting \<and> xs \<noteq> [] \<longrightarrow> 0 < v \<or> posting s \<noteq> {}"
    using assms unfolding loop_inv_def by blast
  obtain c qs where c: "get_obj this (clients (shared s)) = Some c" "fifo_rep A B (qs, lfds (shared s)) n xs"
    "mutex c = v"
    using x(1) by (rule client_repE)
  have "length xs \<le> n" using lq.rep_bound [OF c(2)] .
  with x c show ?thesis by blast
qed

text \<open>
  The script thread alone gets the next event in at most two more steps, unless a callback is
  still between its enqueue and its post.
\<close>

lemma loop_delivers:
  assumes inv: "loop_inv A B this n f s" and more: "accepted s = delivered s @ x # xs" and idle: "posting s = {}"
  shows "\<exists>s'. loop_steps this s s' \<and> delivered s' = delivered s @ [x] \<and> accepted s' = accepted s"
proof -
  obtain v where i: "client_rep A B this (shared s) n (x # xs) v f"
    "script s = Waiting \<Longrightarrow> 0 < v"
    using inv more idle unfolding loop_inv_def by auto
  have deq: "\<exists>s'. loop_step this r s' \<and> delivered s' = delivered r @ [x] \<and> accepted s' = accepted r"
    if r: "client_rep A B this (shared r) n (x # xs) w f" "script r = Dequeuing" for r :: "('a, 'b) loop_sys" and w
  proof -
    obtain sh' where "client_dequeue this (shared r) = Some (1, x, sh')"
      using client_dequeue_rep [OF r(1)] by auto
    from take_event [OF r(2) this]
    have "loop_step this r (r\<lparr>shared := sh', delivered := delivered r @ [x]\<rparr>)" by simp
    then show ?thesis by (intro exI [of _ "r\<lparr>shared := sh', delivered := delivered r @ [x]\<rparr>"]) simp
  qed
  show ?thesis
  proof (cases "script s")
    case Dequeuing
    from deq [OF i(1) this] show ?thesis using loop_steps.intros by metis
  next
    case Waiting
    with i(2) obtain w where v: "v = Suc w" by (cases v) auto
    obtain sh where sh: "client_wait [] this (shared s) = Some ([], sh)" "client_rep A B this sh n (x # xs) w f"
      using client_wait_rep [OF i(1) [unfolded v]] .
    let ?s1 = "s\<lparr>shared := sh, script := Dequeuing\<rparr>"
    have p: "loop_steps this s ?s1"
      by (rule loop_steps.more [OF loop_steps.refl pass [OF Waiting sh(1)]])
    have "client_rep A B this (shared ?s1) n (x # xs) w f" "script ?s1 = Dequeuing" using sh(2) by simp_all
    from deq [OF this] obtain s' where s': "loop_step this ?s1 s'" "delivered s' = delivered ?s1 @ [x]"
      "accepted s' = accepted ?s1" by blast
    with loop_steps.more [OF p s'(1)] show ?thesis by auto
  qed
qed

end
