(* ===== verification/Freelist_Life.thy ===== *)
theory Freelist_Life
  imports Freelist
begin

text \<open>
  The life of a freelist without user-data callbacks: \<open>freelist_new\<close> under an allocator
  that may fail at any call, and \<open>freelist_delete\<close>. When some allocation fails the
  constructor reports the failure and frees the state structure, but not the elements it had
  already pushed.
\<close>

section \<open>Allocation with failures\<close>

text \<open>How many of the \<open>i\<close> calls from call \<open>c\<close> on succeed.\<close>

definition successes :: "mem \<Rightarrow> nat \<Rightarrow> nat \<Rightarrow> nat" where
  "successes m c i = card {j. j < i \<and> mem_ok m (c + j)}"

lemma successes_0 [simp]: "successes m c 0 = 0"
  by (simp add: successes_def)

lemma successes_Suc:
  "successes m c (Suc i) = successes m c i + (if mem_ok m (c + i) then 1 else 0)"
proof -
  have "{j. j < Suc i \<and> mem_ok m (c + j)} =
      (if mem_ok m (c + i) then insert i {j. j < i \<and> mem_ok m (c + j)} else {j. j < i \<and> mem_ok m (c + j)})"
    by (auto simp: less_Suc_eq)
  then show ?thesis by (simp add: successes_def)
qed

lemma successes_le: "successes m c i \<le> i"
  by (induction i) (simp_all add: successes_Suc)

lemma successes_all: "successes m c i = i \<longleftrightarrow> (\<forall>j < i. mem_ok m (c + j))"
proof (induction i)
  case (Suc i)
  then show ?case using successes_le [of m c i] by (auto simp: successes_Suc less_Suc_eq)
qed simp

definition plain_inv :: "mem \<Rightarrow> addr \<Rightarrow> freelist_state \<Rightarrow> mem \<Rightarrow> nat \<Rightarrow> nat \<Rightarrow> bool" where
  "plain_inv m0 b fs m i k \<longleftrightarrow>
     (\<exists>as. freelist_rep (fs, m) as \<and> length as = k \<and> distinct as \<and>
        dom (fe_cells m) = dom (fe_cells m0) \<union> set as \<and> (\<forall>a \<in> set as. b \<le> a \<and> a < brk m)) \<and>
     k = successes m0 (calls m0) i \<and> calls m = calls m0 + i \<and> mem_ok m = mem_ok m0 \<and>
     qe_cells m = qe_cells m0 \<and> state_blocks m = state_blocks m0 \<and> b \<le> brk m \<and>
     fs_init fs = None \<and> fs_element_count fs = of_nat k"

lemma plain_inv_step:
  assumes inv: "plain_inv m0 b fs m i k"
  shows "\<exists>rv fe fs1 m1. freelist_internal_new_element fs m = Some (rv, fe, fs1, m1) \<and>
    fs_addr fs1 = fs_addr fs \<and>
    (if rv \<noteq> 0 then \<exists>fs2 m2. freelist_push fs1 fe m1 = Some (fs2, m2) \<and> fs_addr fs2 = fs_addr fs \<and>
       plain_inv m0 b fs2 m2 (Suc i) (Suc k)
     else plain_inv m0 b fs1 m1 (Suc i) k)"
proof (cases "mem_ok m (calls m)")
  case False
  then have "freelist_internal_new_element fs m = Some (0, NULL, fs, m\<lparr>calls := Suc (calls m)\<rparr>)"
    by (simp add: freelist_internal_new_element_def malloc_fail Let_def)
  moreover have "plain_inv m0 b fs (m\<lparr>calls := Suc (calls m)\<rparr>) (Suc i) k"
    using inv False by (auto simp: plain_inv_def successes_Suc freelist_rep_def)
  ultimately show ?thesis by simp
next
  case True
  from inv obtain as where as: "freelist_rep (fs, m) as" "length as = k" "distinct as"
    "dom (fe_cells m) = dom (fe_cells m0) \<union> set as" "\<forall>a \<in> set as. b \<le> a \<and> a < brk m"
    by (auto simp: plain_inv_def)
  let ?a = "brk m"
  let ?fs1 = "fs\<lparr>fs_element_count := fs_element_count fs + 1\<rparr>"
  let ?c = "(junk_fe m ?a)\<lparr>fe_user_data := NULL\<rparr>"
  let ?m1 = "m\<lparr>calls := Suc (calls m), brk := Suc ?a, fe_cells := (fe_cells m)(?a \<mapsto> ?c)\<rparr>"
  let ?fs2 = "?fs1\<lparr>fs_aba_counter := fs_aba_counter fs + 1, fs_top := (Some ?a, fs_aba_counter fs + 1)\<rparr>"
  let ?m2 = "?m1\<lparr>fe_cells := (fe_cells m)(?a \<mapsto> ?c\<lparr>fe_next := fs_top fs\<rparr>)\<rparr>"
  have new: "freelist_internal_new_element fs m = Some (1, Some ?a, ?fs1, ?m1)"
    using True inv
    by (simp add: freelist_internal_new_element_def malloc_ok plain_inv_def
        freelist_set_user_data_in_element_def abstraction_increment_def)
  have push: "freelist_push ?fs1 (Some ?a) ?m1 = Some (?fs2, ?m2)"
    by (subst freelist_push_eq [of _ _ ?c]) simp_all
  have out: "?a \<notin> set as" using as(5) by auto
  moreover have "fe_link ?m2 = (fe_link m)(?a \<mapsto> fst (fs_top fs))"
    by (simp add: fe_link_def fun_eq_iff)
  ultimately have "freelist_rep (?fs2, ?m2) (?a # as)"
    using as(1) by (simp add: freelist_rep_def)
  moreover have "plain_inv m0 b ?fs2 ?m2 (Suc i) (Suc k)"
    unfolding plain_inv_def
  proof (intro conjI)
    show "\<exists>as. freelist_rep (?fs2, ?m2) as \<and> length as = Suc k \<and> distinct as \<and>
        dom (fe_cells ?m2) = dom (fe_cells m0) \<union> set as \<and> (\<forall>a \<in> set as. b \<le> a \<and> a < brk ?m2)"
      using calculation as out inv
      by (intro exI [of _ "?a # as"]) (auto simp: plain_inv_def less_Suc_eq)
  qed (use inv True in \<open>auto simp: plain_inv_def successes_Suc add.commute\<close>)
  ultimately show ?thesis using new push by simp
qed

lemma freelist_new_plain:
  assumes wf: "mem_wf m" and ok: "mem_ok m (calls m)" and k: "k = successes m (Suc (calls m)) (unat n)"
  shows "\<exists>as m'. length as = k \<and> distinct as \<and> set as \<inter> live m = {} \<and>
    dom (fe_cells m') = dom (fe_cells m) \<union> set as \<and> qe_cells m' = qe_cells m \<and> mem_wf m' \<and>
    (if k = unat n
     then \<exists>fs. freelist_new n None us m = Some (1, Some fs, m') \<and> freelist_rep (fs, m') as \<and>
       fs_element_count fs = n \<and> fs_addr fs \<notin> live m \<and> state_blocks m' = insert (fs_addr fs) (state_blocks m)
     else freelist_new n None us m = Some (0, None, m') \<and> state_blocks m' = state_blocks m)"
proof -
  let ?m0 = "install Freelist_state (brk m) (m\<lparr>calls := Suc (calls m), brk := Suc (brk m)\<rparr>)"
  let ?fs0 = "\<lparr>fs_top = (NULL, 0), fs_init = None, fs_user_state = us, fs_aba_counter = 0,
               fs_element_count = 0, fs_addr = brk m\<rparr>"
  let ?I = "\<lambda>fs m' i k. plain_inv ?m0 (Suc (brk m)) fs m' i k \<and> fs_addr fs = brk m"
  have "\<exists>k fs' m'. freelist_new_elements ?fs0 n ?m0 = Some (of_nat k, fs', m') \<and> ?I fs' m' (unat n) k"
  proof (rule freelist_new_elements_rule)
    show "?I ?fs0 ?m0 0 0" by (simp add: plain_inv_def freelist_rep_def)
    show "\<exists>rv fe fs1 m1. freelist_internal_new_element fs m = Some (rv, fe, fs1, m1) \<and>
        (if rv \<noteq> 0 then \<exists>fs2 m2. freelist_push fs1 fe m1 = Some (fs2, m2) \<and> ?I fs2 m2 (Suc i) (Suc k)
         else ?I fs1 m1 (Suc i) k)" if "?I fs m i k" for fs m i k
      using plain_inv_step [of ?m0 _ fs m i k] that by (elim conjE) (metis (no_types, lifting))
  qed
  then obtain k' fs' m' where run: "freelist_new_elements ?fs0 n ?m0 = Some (of_nat k', fs', m')"
    "plain_inv ?m0 (Suc (brk m)) fs' m' (unat n) k'" "fs_addr fs' = brk m"
    by blast
  have kk: "k' = k" using run(2) k by (simp add: plain_inv_def successes_def)
  from run(2) obtain as where as: "freelist_rep (fs', m') as" "length as = k" "distinct as"
    "dom (fe_cells m') = dom (fe_cells m) \<union> set as" "\<forall>a \<in> set as. Suc (brk m) \<le> a"
    "\<forall>a \<in> set as. a < brk m'"
    by (auto simp: plain_inv_def kk)
  have same: "qe_cells m' = qe_cells m" "state_blocks m' = insert (brk m) (state_blocks m)" "Suc (brk m) \<le> brk m'"
    using run(2) by (auto simp: plain_inv_def)
  have wf': "mem_wf m'"
    unfolding mem_wf_dom
  proof (intro allI conjI impI)
    fix a
    have old: "a < brk m" if "a \<in> dom (fe_cells m) \<or> a \<in> dom (qe_cells m) \<or> a \<in> state_blocks m"
      using mem_wf_live [OF wf, of a] that by (auto simp only: live_def Un_iff)
    have apart: "a \<in> dom (fe_cells m) \<Longrightarrow> a \<notin> dom (qe_cells m) \<and> a \<notin> state_blocks m"
      using wf unfolding mem_wf_dom by blast
    have new: "Suc (brk m) \<le> a" if "a \<in> set as" using as(5) that by blast
    show "a < brk m'" if "a \<in> dom (fe_cells m')"
    proof (cases "a \<in> set as")
      case True
      then show ?thesis using as(6) by blast
    next
      case False
      with that as(4) have "a \<in> dom (fe_cells m)" by blast
      with old same(3) show ?thesis by simp
    qed
    show "a \<notin> dom (qe_cells m')" if "a \<in> dom (fe_cells m')"
    proof (cases "a \<in> set as")
      case True
      then show ?thesis using new old same(1) by force
    next
      case False
      with that as(4) have "a \<in> dom (fe_cells m)" by blast
      with apart same(1) show ?thesis by simp
    qed
    show "a \<notin> state_blocks m'" if "a \<in> dom (fe_cells m')"
    proof (cases "a \<in> set as")
      case True
      then show ?thesis using new old same(2) by force
    next
      case False
      with that as(4) have "a \<in> dom (fe_cells m)" by blast
      with apart old same(2) show ?thesis by force
    qed
    show "a < brk m'" if "a \<in> dom (qe_cells m')" using that old same by simp
    show "a \<notin> state_blocks m'" if "a \<in> dom (qe_cells m')"
      using that old same wf by (simp add: mem_wf_dom) blast
    show "a < brk m'" if "a \<in> state_blocks m'" using that old same by auto
  qed
  have fresh: "set as \<inter> live m = {}" "brk m \<notin> live m"
    using as(5) mem_wf_live [OF wf] by fastforce+
  have k_le: "k \<le> unat n" using successes_le k by simp
  have "unat (of_nat k :: u64) = k"
    by (intro of_nat_inverse [OF refl] order_le_less_trans [OF k_le]) (rule unsigned_less)
  then have "(of_nat k = n) = (k = unat n)" by auto
  moreover have "abstraction_aligned_free (Some (brk m)) m' =
      Some (m'\<lparr>state_blocks := state_blocks m\<rparr>)"
  proof -
    have "brk m \<notin> dom (fe_cells m')" using as(4,5) mem_wf_brk [OF wf] by (auto simp: domIff)
    then have "fe_cells m' (brk m) = None" by (simp add: domIff)
    moreover have "qe_cells m' (brk m) = None" "state_blocks m' = insert (brk m) (state_blocks m)"
      using run(2) mem_wf_brk [OF wf] by (auto simp: plain_inv_def)
    ultimately show ?thesis
      using mem_wf_brk [OF wf] by (simp add: abstraction_aligned_free_def live_def fun_upd_idem)
  qed
  ultimately have "freelist_new n None us m =
      (if k = unat n then Some (1, Some fs', m') else Some (0, None, m'\<lparr>state_blocks := state_blocks m\<rparr>))"
    using run(1,3) ok by (simp add: freelist_new_def malloc_ok kk)
  then show ?thesis
  proof (cases "k = unat n")
    case True
    then show ?thesis
      using as fresh run wf' \<open>freelist_new n None us m = _\<close>
      by (intro exI [of _ as] exI [of _ m']) (auto simp: plain_inv_def kk)
  next
    case False
    moreover have "mem_wf (m'\<lparr>state_blocks := state_blocks m\<rparr>)"
      using wf' same(2) by (auto simp: mem_wf_def)
    ultimately show ?thesis
      using as fresh run \<open>freelist_new n None us m = _\<close>
      by (intro exI [of _ as] exI [of _ "m'\<lparr>state_blocks := state_blocks m\<rparr>"])
        (auto simp: plain_inv_def)
  qed
qed

section \<open>Deletion\<close>

lemma release_plain:
  "distinct as \<Longrightarrow> set as \<subseteq> dom (fe_cells m) \<Longrightarrow> mem_wf m \<Longrightarrow>
     \<exists>m'. release None us as m = Some m' \<and> dom (fe_cells m') = dom (fe_cells m) - set as \<and>
       qe_cells m' = qe_cells m \<and> state_blocks m' = state_blocks m \<and> mem_wf m'"
proof (induction as arbitrary: m)
  case (Cons a as)
  have other: "qe_cells m a = None" "a \<notin> state_blocks m"
    using Cons.prems by (auto simp: mem_wf_def)
  let ?m1 = "m\<lparr>fe_cells := (fe_cells m)(a := None)\<rparr>"
  have free: "abstraction_aligned_free (Some a) m = Some ?m1"
    using Cons.prems(2) other by (simp add: abstraction_aligned_free_def live_def fun_upd_idem)
  have "distinct as" "set as \<subseteq> dom (fe_cells ?m1)" using Cons.prems(1,2) by auto
  from Cons.IH [OF this free_wf [OF Cons.prems(3) free]] obtain m' where
    "release None us as ?m1 = Some m'" "dom (fe_cells m') = dom (fe_cells ?m1) - set as"
    "qe_cells m' = qe_cells ?m1" "state_blocks m' = state_blocks ?m1" "mem_wf m'"
    by (elim exE conjE) (rule that; assumption)
  with free show ?case by (intro exI [of _ m']) (auto split: if_splits)
qed simp

lemma freelist_delete_plain:
  assumes rep: "freelist_rep (fs, m) as" and wf: "mem_wf m" and block: "fs_addr fs \<in> state_blocks m"
  shows "\<exists>m'. freelist_delete fs None us m = Some m' \<and>
    dom (fe_cells m') = dom (fe_cells m) - set as \<and> qe_cells m' = qe_cells m \<and>
    state_blocks m' = state_blocks m - {fs_addr fs}"
proof -
  have sub: "set as \<subseteq> dom (fe_cells m)"
    using rep path_in_dom [of "fe_link m" _ as] by (fastforce simp: freelist_rep_def fe_link_def)
  obtain m' where m': "release None us as m = Some m'" "dom (fe_cells m') = dom (fe_cells m) - set as"
    "qe_cells m' = qe_cells m" "state_blocks m' = state_blocks m" "mem_wf m'"
    using release_plain [OF fl.rep_distinct [OF rep] sub wf] by blast
  have "map_option (\<lambda>(f, m). (fs_addr f, m)) (freelist_delete_loop fs None us m) = Some (fs_addr fs, m')"
    using freelist_delete_loop_release [OF rep, of None us] m'(1) by simp
  then obtain fs' where loop: "freelist_delete_loop fs None us m = Some (fs', m')" "fs_addr fs' = fs_addr fs"
    by fastforce
  moreover have "fe_cells m' (fs_addr fs) = None" "qe_cells m' (fs_addr fs) = None"
    using m'(4,5) block by (auto simp: mem_wf_def)
  ultimately show ?thesis
    using loop m' block
    by (simp add: freelist_delete_def abstraction_aligned_free_def live_def fun_upd_idem)
qed

end
