(* ===== verification/Freelist_Threads.thy ===== *)
theory Freelist_Threads
  imports Freelist
begin

text \<open>
  The freelist under any interleaving of threads (\<open>lfds/freelist_pop_push.c\<close>). Every access of
  \<open>freelist_push\<close> and \<open>freelist_pop\<close> to shared memory is a step of its own: the two words of the
  top are read one after the other, the two words of the link are written and read one after the
  other, and the increment and the compare-and-swap are atomic. Threads own the elements they
  push: an element is on the list, or held by one thread, which may hand it to another.

  The proof is about the counters. Every push takes a fresh counter, an element on the list
  carries the counter of its push in the pointer to it, and a compare-and-swap that succeeds has
  therefore seen the element's link as it is. Counters are 64 bits, so this holds for fewer than
  \<open>2 ^ 64\<close> pushes.
\<close>

section \<open>The operations in steps\<close>

text \<open>
  Where a thread is. \<open>fe\<close> is the element pushed, \<open>c\<close> its counter; \<open>op\<close>, \<open>oc\<close> are the words of
  \<open>original_fe_next\<close>; \<open>p\<close> and \<open>c\<close> the words of the \<open>fe_local\<close> of a pop, \<open>np\<close> and \<open>nc\<close> those of the
  link the compare-and-swap is given.
\<close>

datatype fl_pc =
    Outside
  | Push_increment addr
  | Push_read_pointer addr u64
  | Push_read_counter addr u64 ptr
  | Push_link_pointer addr u64 ptr u64
  | Push_link_counter addr u64 ptr u64
  | Push_dcas addr u64 ptr u64
  | Pop_read_counter
  | Pop_read_pointer u64
  | Pop_load_pointer addr u64
  | Pop_load_counter addr u64 ptr
  | Pop_dcas addr u64 ptr u64

text \<open>What a step does to the list, seen from outside.\<close>

datatype fl_event = Hidden | Pushed addr | Popped ptr

text \<open>One step. A null pointer ends a pop; a failed compare-and-swap goes round the loop.\<close>

definition pop_test :: "pac \<Rightarrow> fl_pc \<times> fl_event" where
  "pop_test fe_local =
     (case fst fe_local of None \<Rightarrow> (Outside, Popped NULL) | Some p \<Rightarrow> (Pop_load_pointer p (snd fe_local), Hidden))"

fun fl_move :: "fl_pc \<Rightarrow> freelist_state \<Rightarrow> mem \<Rightarrow> (fl_pc \<times> fl_event \<times> freelist_state \<times> mem) option" where
  "fl_move Outside fs m = None"
| "fl_move (Push_increment fe) fs m =
     (let (counter, aba) = abstraction_increment (fs_aba_counter fs)
      in Some (Push_read_pointer fe counter, Hidden, fs\<lparr>fs_aba_counter := aba\<rparr>, m))"
| "fl_move (Push_read_pointer fe c) fs m = Some (Push_read_counter fe c (fst (fs_top fs)), Hidden, fs, m)"
| "fl_move (Push_read_counter fe c op) fs m = Some (Push_link_pointer fe c op (snd (fs_top fs)), Hidden, fs, m)"
| "fl_move (Push_link_pointer fe c op oc) fs m = do {
     e \<leftarrow> fe_cells m fe;
     m \<leftarrow> set_fe_next (Some fe) (op, snd (fe_next e)) m;
     Some (Push_link_counter fe c op oc, Hidden, fs, m)
   }"
| "fl_move (Push_link_counter fe c op oc) fs m = do {
     e \<leftarrow> fe_cells m fe;
     m \<leftarrow> set_fe_next (Some fe) (fst (fe_next e), oc) m;
     Some (Push_dcas fe c op oc, Hidden, fs, m)
   }"
| "fl_move (Push_dcas fe c op oc) fs m =
     (let (cas_result, top, original) = abstraction_dcas (fs_top fs) (Some fe, c) (op, oc);
          fs = fs\<lparr>fs_top := top\<rparr>
      in if cas_result = 0 then Some (Push_link_pointer fe c (fst original) (snd original), Hidden, fs, m)
         else Some (Outside, Pushed fe, fs, m))"
| "fl_move Pop_read_counter fs m = Some (Pop_read_pointer (snd (fs_top fs)), Hidden, fs, m)"
| "fl_move (Pop_read_pointer c) fs m =
     (let (pc, ev) = pop_test (fst (fs_top fs), c) in Some (pc, ev, fs, m))"
| "fl_move (Pop_load_pointer p c) fs m = do {
     e \<leftarrow> fe_cells m p;
     Some (Pop_load_counter p c (fst (fe_next e)), Hidden, fs, m)
   }"
| "fl_move (Pop_load_counter p c np) fs m = do {
     e \<leftarrow> fe_cells m p;
     Some (Pop_dcas p c np (snd (fe_next e)), Hidden, fs, m)
   }"
| "fl_move (Pop_dcas p c np nc) fs m =
     (let (cas_result, top, fe_local) = abstraction_dcas (fs_top fs) (np, nc) (Some p, c);
          fs = fs\<lparr>fs_top := top\<rparr>
      in if cas_result = 0 then (let (pc, ev) = pop_test fe_local in Some (pc, ev, fs, m))
         else Some (Outside, Popped (Some p), fs, m))"

section \<open>The system\<close>

record 't fl_sys =
  fl_fs :: freelist_state
  fl_mem :: mem
  fl_pcs :: "'t \<Rightarrow> fl_pc"
  fl_held :: "'t \<Rightarrow> addr set"
  increments :: nat

fun takes_counter :: "fl_pc \<Rightarrow> bool" where
  "takes_counter (Push_increment fe) = True"
| "takes_counter _ = False"

definition held_after :: "fl_event \<Rightarrow> addr set \<Rightarrow> addr set" where
  "held_after ev H = (case ev of Hidden \<Rightarrow> H | Pushed a \<Rightarrow> H - {a} | Popped p \<Rightarrow> H \<union> set_option p)"

text \<open>
  A thread outside starts a push of an element it holds, or a pop, gets a new element from the
  allocator, or hands an element to another thread; a thread inside takes its next step.
\<close>

inductive fl_step :: "'t fl_sys \<Rightarrow> fl_event \<Rightarrow> 't fl_sys \<Rightarrow> bool" where
  start_push: "fl_pcs s t = Outside \<Longrightarrow> a \<in> fl_held s t \<Longrightarrow>
    fl_step s Hidden (s\<lparr>fl_pcs := (fl_pcs s)(t := Push_increment a)\<rparr>)"
| start_pop: "fl_pcs s t = Outside \<Longrightarrow> fl_step s Hidden (s\<lparr>fl_pcs := (fl_pcs s)(t := Pop_read_counter)\<rparr>)"
| new_element: "fl_pcs s t = Outside \<Longrightarrow> fs_init (fl_fs s) = None \<Longrightarrow>
    freelist_guaranteed_pop (fl_fs s) (fl_mem s) = Some (Some a, fs, m) \<Longrightarrow>
    fl_step s Hidden (s\<lparr>fl_fs := fs, fl_mem := m, fl_held := (fl_held s)(t := insert a (fl_held s t))\<rparr>)"
| hand_over: "fl_pcs s t = Outside \<Longrightarrow> a \<in> fl_held s t \<Longrightarrow> t \<noteq> u \<Longrightarrow>
    fl_step s Hidden (s\<lparr>fl_held := (fl_held s)(t := fl_held s t - {a}, u := insert a (fl_held s u))\<rparr>)"
| inside: "fl_move (fl_pcs s t) (fl_fs s) (fl_mem s) = Some (pc, ev, fs, m) \<Longrightarrow>
    fl_step s ev (s\<lparr>fl_fs := fs, fl_mem := m, fl_pcs := (fl_pcs s)(t := pc),
      fl_held := (fl_held s)(t := held_after ev (fl_held s t)),
      increments := (if takes_counter (fl_pcs s t) then Suc (increments s) else increments s)\<rparr>)"

inductive_cases fl_stepE: "fl_step s ev s'"

definition fl_start :: "freelist_state \<Rightarrow> mem \<Rightarrow> 't fl_sys" where
  "fl_start fs m = \<lparr>fl_fs = fs, fl_mem = m, fl_pcs = (\<lambda>_. Outside), fl_held = (\<lambda>_. {}), increments = 0\<rparr>"

inductive fl_run :: "'t fl_sys \<Rightarrow> fl_event list \<Rightarrow> 't fl_sys \<Rightarrow> bool" where
  fl_run_refl: "fl_run s [] s"
| fl_run_step: "fl_run s es s' \<Longrightarrow> fl_step s' ev s'' \<Longrightarrow> fl_run s (es @ [ev]) s''"

text \<open>The list after the events; \<open>None\<close> when a pop is not what a stack gives.\<close>

fun stack_after :: "fl_event list \<Rightarrow> addr list \<Rightarrow> addr list option" where
  "stack_after [] as = Some as"
| "stack_after (Hidden # es) as = stack_after es as"
| "stack_after (Pushed a # es) as = stack_after es (a # as)"
| "stack_after (Popped p # es) as =
     (case as of
        [] \<Rightarrow> if p = NULL then stack_after es [] else None
      | a # as \<Rightarrow> if p = Some a then stack_after es as else None)"

section \<open>The invariant\<close>

text \<open>The chain from a pointer-and-counter pair: every pointer with the counter of its push.\<close>

fun tagged :: "(addr \<rightharpoonup> freelist_element) \<Rightarrow> (addr \<Rightarrow> u64) \<Rightarrow> pac \<Rightarrow> addr list \<Rightarrow> bool" where
  "tagged cells tag v [] \<longleftrightarrow> v = (NULL, 0)"
| "tagged cells tag v (a # as) \<longleftrightarrow>
     v = (Some a, tag a) \<and> (\<exists>e. cells a = Some e \<and> tagged cells tag (fe_next e) as)"

fun pushing :: "fl_pc \<Rightarrow> addr option" where
  "pushing (Push_increment fe) = Some fe"
| "pushing (Push_read_pointer fe c) = Some fe"
| "pushing (Push_read_counter fe c op) = Some fe"
| "pushing (Push_link_pointer fe c op oc) = Some fe"
| "pushing (Push_link_counter fe c op oc) = Some fe"
| "pushing (Push_dcas fe c op oc) = Some fe"
| "pushing _ = None"

fun own_counter :: "fl_pc \<Rightarrow> u64 option" where
  "own_counter (Push_read_pointer fe c) = Some c"
| "own_counter (Push_read_counter fe c op) = Some c"
| "own_counter (Push_link_pointer fe c op oc) = Some c"
| "own_counter (Push_link_counter fe c op oc) = Some c"
| "own_counter (Push_dcas fe c op oc) = Some c"
| "own_counter _ = None"

fun seen_counter :: "fl_pc \<Rightarrow> u64 option" where
  "seen_counter (Pop_read_pointer c) = Some c"
| "seen_counter (Pop_load_pointer p c) = Some c"
| "seen_counter (Pop_load_counter p c np) = Some c"
| "seen_counter (Pop_dcas p c np nc) = Some c"
| "seen_counter _ = None"

text \<open>What a thread knows of the words it has written or read.\<close>

fun knows :: "fl_pc \<Rightarrow> (addr \<rightharpoonup> freelist_element) \<Rightarrow> (addr \<Rightarrow> u64) \<Rightarrow> addr set \<Rightarrow> bool" where
  "knows (Push_link_counter fe c op oc) cells tag A \<longleftrightarrow> (\<exists>e. cells fe = Some e \<and> fst (fe_next e) = op)"
| "knows (Push_dcas fe c op oc) cells tag A \<longleftrightarrow> (\<exists>e. cells fe = Some e \<and> fe_next e = (op, oc))"
| "knows (Pop_load_pointer p c) cells tag A \<longleftrightarrow> p \<in> dom cells"
| "knows (Pop_load_counter p c np) cells tag A \<longleftrightarrow>
     (\<exists>e. cells p = Some e \<and> (p \<in> A \<and> tag p = c \<longrightarrow> fst (fe_next e) = np))"
| "knows (Pop_dcas p c np nc) cells tag A \<longleftrightarrow>
     (\<exists>e. cells p = Some e \<and> (p \<in> A \<and> tag p = c \<longrightarrow> fe_next e = (np, nc)))"
| "knows _ cells tag A \<longleftrightarrow> True"

text \<open>The shared state, one thread, and two threads side by side.\<close>

definition shared_ok :: "addr list \<Rightarrow> (addr \<Rightarrow> u64) \<Rightarrow> nat \<Rightarrow> freelist_state \<Rightarrow> mem \<Rightarrow> bool" where
  "shared_ok as tag n fs m \<longleftrightarrow>
     tagged (fe_cells m) tag (fs_top fs) as \<and> distinct as \<and> mem_wf m \<and>
     fs_aba_counter fs = of_nat n \<and> (\<forall>a \<in> set as. 0 < unat (tag a) \<and> unat (tag a) \<le> n) \<and> inj_on tag (set as)"

definition thread_ok ::
  "addr set \<Rightarrow> (addr \<Rightarrow> u64) \<Rightarrow> nat \<Rightarrow> (addr \<rightharpoonup> freelist_element) \<Rightarrow> addr set \<Rightarrow> fl_pc \<Rightarrow> bool" where
  "thread_ok A tag n cells H pc \<longleftrightarrow>
     H \<inter> A = {} \<and> H \<subseteq> dom cells \<and> set_option (pushing pc) \<subseteq> H \<and>
     (\<forall>c. own_counter pc = Some c \<longrightarrow> 0 < unat c \<and> unat c \<le> n \<and> c \<notin> tag ` A) \<and>
     (\<forall>c. seen_counter pc = Some c \<longrightarrow> unat c \<le> n) \<and> knows pc cells tag A"

definition apart :: "addr set \<Rightarrow> fl_pc \<Rightarrow> addr set \<Rightarrow> fl_pc \<Rightarrow> bool" where
  "apart H pc G qc \<longleftrightarrow>
     H \<inter> G = {} \<and>
     (\<forall>c. own_counter pc = Some c \<longrightarrow> own_counter qc \<noteq> Some c \<and> seen_counter qc \<noteq> Some c) \<and>
     (\<forall>c. own_counter qc = Some c \<longrightarrow> seen_counter pc \<noteq> Some c)"

definition fl_inv :: "addr list \<Rightarrow> (addr \<Rightarrow> u64) \<Rightarrow> 't fl_sys \<Rightarrow> bool" where
  "fl_inv as tag s \<longleftrightarrow>
     shared_ok as tag (increments s) (fl_fs s) (fl_mem s) \<and>
     (\<forall>t. thread_ok (set as) tag (increments s) (fe_cells (fl_mem s)) (fl_held s t) (fl_pcs s t)) \<and>
     (\<forall>t u. t \<noteq> u \<longrightarrow> apart (fl_held s t) (fl_pcs s t) (fl_held s u) (fl_pcs s u))"

lemma apart_sym: "apart H pc G qc \<longleftrightarrow> apart G qc H pc"
  by (auto simp: apart_def)

text \<open>A thread does not notice what the others do.\<close>

definition unnoticed ::
  "addr set \<Rightarrow> (addr \<Rightarrow> u64) \<Rightarrow> (addr \<rightharpoonup> freelist_element) \<Rightarrow>
   addr set \<Rightarrow> (addr \<Rightarrow> u64) \<Rightarrow> (addr \<rightharpoonup> freelist_element) \<Rightarrow> addr set \<Rightarrow> fl_pc \<Rightarrow> bool" where
  "unnoticed A tag cells A' tag' cells' H pc \<longleftrightarrow>
     H \<inter> A' = {} \<and> (\<forall>a \<in> H. cells' a = cells a) \<and> dom cells \<subseteq> dom cells' \<and>
     (\<forall>c. own_counter pc = Some c \<longrightarrow> c \<notin> tag' ` A') \<and>
     (\<forall>a c. seen_counter pc = Some c \<and> a \<in> A' \<and> tag' a = c \<longrightarrow> a \<in> A \<and> tag a = c \<and> cells' a = cells a)"

lemma knows_unnoticed:
  assumes "knows pc cells tag A" "set_option (pushing pc) \<subseteq> H" "unnoticed A tag cells A' tag' cells' H pc"
  shows "knows pc cells' tag' A'"
  using assms
proof (cases pc)
  case (Pop_load_counter p c np)
  with assms obtain e where e: "cells p = Some e" "p \<in> A \<and> tag p = c \<longrightarrow> fst (fe_next e) = np" by auto
  then obtain e' where e': "cells' p = Some e'" using assms(3) by (fastforce simp: unnoticed_def)
  show ?thesis
    using e e' assms(3) Pop_load_counter by (fastforce simp: unnoticed_def)
next
  case (Pop_dcas p c np nc)
  with assms obtain e where e: "cells p = Some e" "p \<in> A \<and> tag p = c \<longrightarrow> fe_next e = (np, nc)" by auto
  then obtain e' where e': "cells' p = Some e'" using assms(3) by (fastforce simp: unnoticed_def)
  show ?thesis
    using e e' assms(3) Pop_dcas by (fastforce simp: unnoticed_def)
qed (auto simp: unnoticed_def)

lemma thread_ok_unnoticed:
  assumes "thread_ok A tag n cells H pc" "unnoticed A tag cells A' tag' cells' H pc" "n \<le> n'"
  shows "thread_ok A' tag' n' cells' H pc"
proof -
  have "knows pc cells' tag' A'"
    by (rule knows_unnoticed [OF _ _ assms(2)]) (use assms(1) in \<open>auto simp: thread_ok_def\<close>)
  moreover have "H \<subseteq> dom cells'" using assms(1,2) by (auto simp: thread_ok_def unnoticed_def)
  ultimately show ?thesis
    using assms by (auto simp: thread_ok_def unnoticed_def intro: order_trans)
qed

section \<open>What a step does\<close>

text \<open>A step of a thread that keeps everything in order, for itself and for any other thread.\<close>

definition good_move ::
  "addr list \<Rightarrow> (addr \<Rightarrow> u64) \<Rightarrow> nat \<Rightarrow> mem \<Rightarrow> addr set \<Rightarrow> fl_pc \<Rightarrow> fl_event \<Rightarrow>
   addr list \<Rightarrow> (addr \<Rightarrow> u64) \<Rightarrow> nat \<Rightarrow> freelist_state \<Rightarrow> mem \<Rightarrow> addr set \<Rightarrow> fl_pc \<Rightarrow> bool" where
  "good_move as tag n m H pc ev as' tag' n' fs' m' H' pc' \<longleftrightarrow>
     stack_after [ev] as = Some as' \<and> n \<le> n' \<and> shared_ok as' tag' n' fs' m' \<and>
     thread_ok (set as') tag' n' (fe_cells m') H' pc' \<and>
     (\<forall>G qc. thread_ok (set as) tag n (fe_cells m) G qc \<and> apart H pc G qc \<longrightarrow>
        unnoticed (set as) tag (fe_cells m) (set as') tag' (fe_cells m') G qc \<and> apart H' pc' G qc)"

lemma fl_inv_move:
  assumes "fl_inv as tag s"
    "good_move as tag (increments s) (fl_mem s) (fl_held s t) (fl_pcs s t) ev as' tag' n' fs' m' H' pc'"
  shows "fl_inv as' tag' (s\<lparr>fl_fs := fs', fl_mem := m', fl_pcs := (fl_pcs s)(t := pc'),
    fl_held := (fl_held s)(t := H'), increments := n'\<rparr>)"
proof -
  have u: "unnoticed (set as) tag (fe_cells (fl_mem s)) (set as') tag' (fe_cells m') (fl_held s u) (fl_pcs s u)"
    "apart H' pc' (fl_held s u) (fl_pcs s u)" if "u \<noteq> t" for u
    using assms that by (auto simp: fl_inv_def good_move_def)
  have ok: "thread_ok (set as') tag' n' (fe_cells m') (fl_held s u) (fl_pcs s u)" if "u \<noteq> t" for u
    by (rule thread_ok_unnoticed [OF _ u(1) [OF that]]) (use assms in \<open>auto simp: fl_inv_def good_move_def\<close>)
  have "shared_ok as' tag' n' fs' m'" "thread_ok (set as') tag' n' (fe_cells m') H' pc'"
    using assms(2) by (simp_all add: good_move_def)
  moreover have "apart (fl_held s v) (fl_pcs s v) H' pc'" if "v \<noteq> t" for v using u(2) [OF that] by (simp add: apart_sym)
  ultimately show ?thesis
    using ok u(2) assms(1) by (simp add: fl_inv_def)
qed

text \<open>No thread is about to push with the counter of the top.\<close>

lemma top_counter_old:
  assumes "shared_ok as tag n fs m" "thread_ok (set as) tag n (fe_cells m) G qc"
  shows "own_counter qc \<noteq> Some (snd (fs_top fs))" "unat (snd (fs_top fs)) \<le> n"
  using assms by (cases as; auto simp: shared_ok_def thread_ok_def)+

lemma top_pointer:
  assumes "shared_ok as tag n fs m"
  shows "fst (fs_top fs) = NULL \<Longrightarrow> as = []" "fst (fs_top fs) = Some p \<Longrightarrow> p \<in> dom (fe_cells m)"
  using assms by (cases as; auto simp: shared_ok_def)+

lemma quiet_move:
  assumes "shared_ok as tag n fs m" "thread_ok (set as) tag n (fe_cells m) H pc" "stack_after [ev] as = Some as"
    "set_option (pushing pc') \<subseteq> H" "own_counter pc' = None \<or> own_counter pc' = own_counter pc"
    "\<forall>c. seen_counter pc' = Some c \<longrightarrow> seen_counter pc = Some c \<or> c = snd (fs_top fs)"
    "knows pc' (fe_cells m) tag (set as)"
  shows "good_move as tag n m H pc ev as tag n fs m H pc'"
  unfolding good_move_def
proof (intro conjI allI impI)
  have own: "own_counter pc = Some c" if "own_counter pc' = Some c" for c using that assms(5) by auto
  have "unat c \<le> n" if "seen_counter pc' = Some c" for c
    using that assms(2,6) top_counter_old(2) [OF assms(1,2)] by (auto simp: thread_ok_def)
  then show "thread_ok (set as) tag n (fe_cells m) H pc'"
    using assms(2,4,7) own by (simp add: thread_ok_def)
  fix G qc assume o: "thread_ok (set as) tag n (fe_cells m) G qc \<and> apart H pc G qc"
  then show "unnoticed (set as) tag (fe_cells m) (set as) tag (fe_cells m) G qc"
    by (simp add: thread_ok_def unnoticed_def)
  have "seen_counter pc' \<noteq> Some c" if "own_counter qc = Some c" for c
    using that o assms(6) top_counter_old(1) [OF assms(1), of G qc] by (auto simp: apart_def)
  then show "apart H pc' G qc"
    using o own by (simp add: apart_def)
qed (use assms(1,3) in auto)

lemma tagged_frame:
  "tagged cells tag v as \<Longrightarrow> (\<And>a. a \<in> set as \<Longrightarrow> cells' a = cells a \<and> tag' a = tag a) \<Longrightarrow> tagged cells' tag' v as"
  by (induction cells tag v as rule: tagged.induct) auto

lemma tagged_dom: "tagged cells tag v as \<Longrightarrow> set as \<subseteq> dom cells"
  by (induction cells tag v as rule: tagged.induct) auto

lemma next_counter:
  assumes "Suc n < 2 ^ 64"
  shows "unat (of_nat n + 1 :: u64) = Suc n"
proof -
  have "unat (of_nat (Suc n) :: u64) = Suc n mod 2 ^ 64" by (subst unat_of_nat) simp
  then show ?thesis using assms by (simp add: add.commute)
qed

lemma good_increment:
  assumes "shared_ok as tag n fs m" "thread_ok (set as) tag n (fe_cells m) H (Push_increment fe)" "Suc n < 2 ^ 64"
  shows "good_move as tag n m H (Push_increment fe) Hidden as tag (Suc n)
           (fs\<lparr>fs_aba_counter := fs_aba_counter fs + 1\<rparr>) m H (Push_read_pointer fe (fs_aba_counter fs + 1))"
  unfolding good_move_def
proof (intro conjI allI impI)
  let ?c = "fs_aba_counter fs + 1"
  have c: "unat ?c = Suc n" using assms(1,3) next_counter by (simp add: shared_ok_def)
  have fresh: "?c \<notin> tag ` set as" using assms(1) c by (fastforce simp: shared_ok_def)
  show "shared_ok as tag (Suc n) (fs\<lparr>fs_aba_counter := ?c\<rparr>) m"
    using assms(1) by (auto simp: shared_ok_def)
  show "thread_ok (set as) tag (Suc n) (fe_cells m) H (Push_read_pointer fe ?c)"
    using assms(2) c fresh by (simp add: thread_ok_def)
  fix G qc assume o: "thread_ok (set as) tag n (fe_cells m) G qc \<and> apart H (Push_increment fe) G qc"
  then show "unnoticed (set as) tag (fe_cells m) (set as) tag (fe_cells m) G qc"
    by (simp add: thread_ok_def unnoticed_def)
  have "own_counter qc \<noteq> Some ?c" "seen_counter qc \<noteq> Some ?c" using o c by (auto simp: thread_ok_def)
  then show "apart H (Push_read_pointer fe ?c) G qc" using o by (simp add: apart_def)
qed simp_all

lemma good_link:
  assumes "shared_ok as tag n fs m" "thread_ok (set as) tag n (fe_cells m) H pc" "fe \<in> H"
    "pushing pc' = pushing pc" "own_counter pc' = own_counter pc" "seen_counter pc' = None"
    "fe_cells m fe = Some e" "m' = m\<lparr>fe_cells := (fe_cells m)(fe \<mapsto> e')\<rparr>" "knows pc' (fe_cells m') tag (set as)"
  shows "good_move as tag n m H pc Hidden as tag n fs m' H pc'"
  unfolding good_move_def
proof (intro conjI allI impI)
  have fe: "fe \<notin> set as" using assms(2,3) by (auto simp: thread_ok_def)
  then have "tagged (fe_cells m') tag (fs_top fs) as"
    using assms(1,8) by (auto simp: shared_ok_def intro: tagged_frame)
  then show "shared_ok as tag n fs m'" using assms(1,7,8) mem_wf_links by (simp add: shared_ok_def)
  have "H \<subseteq> dom (fe_cells m')" using assms(2,8) by (auto simp: thread_ok_def)
  then show "thread_ok (set as) tag n (fe_cells m') H pc'"
    using assms(2,4-6,9) by (simp add: thread_ok_def)
  fix G qc assume o: "thread_ok (set as) tag n (fe_cells m) G qc \<and> apart H pc G qc"
  then have "fe \<notin> G" using assms(3) by (auto simp: apart_def)
  then have "fe_cells m' a = fe_cells m a" if "a \<in> G \<union> set as" for a using that fe assms(8) by auto
  moreover have "dom (fe_cells m) \<subseteq> dom (fe_cells m')" using assms(8) by auto
  ultimately show "unnoticed (set as) tag (fe_cells m) (set as) tag (fe_cells m') G qc"
    using o by (simp add: thread_ok_def unnoticed_def)
  show "apart H pc' G qc" using o assms(4-6) by (simp add: apart_def)
qed simp_all

lemma good_push:
  assumes "shared_ok as tag n fs m" "thread_ok (set as) tag n (fe_cells m) H (Push_dcas fe c op oc)"
    "fs_top fs = (op, oc)"
  shows "good_move as tag n m H (Push_dcas fe c op oc) (Pushed fe) (fe # as) (tag(fe := c)) n
           (fs\<lparr>fs_top := (Some fe, c)\<rparr>) m (H - {fe}) Outside"
  unfolding good_move_def
proof (intro conjI allI impI)
  let ?tag = "tag(fe := c)"
  have fe: "fe \<in> H" "fe \<notin> set as" using assms(2) by (auto simp: thread_ok_def)
  obtain e where e: "fe_cells m fe = Some e" "fe_next e = (op, oc)" using assms(2) by (auto simp: thread_ok_def)
  have c: "0 < unat c" "unat c \<le> n" "c \<notin> tag ` set as" using assms(2) by (auto simp: thread_ok_def)
  have "tagged (fe_cells m) ?tag (op, oc) as"
    using assms(1,3) fe(2) by (auto simp: shared_ok_def intro!: tagged_frame [of "fe_cells m" tag])
  moreover have "?tag ` set as = tag ` set as" "inj_on ?tag (set as) = inj_on tag (set as)"
    using fe(2) by (auto intro!: inj_on_cong)
  ultimately show "shared_ok (fe # as) ?tag n (fs\<lparr>fs_top := (Some fe, c)\<rparr>) m"
    using assms(1) e fe c by (simp add: shared_ok_def)
  show "thread_ok (set (fe # as)) ?tag n (fe_cells m) (H - {fe}) Outside"
    using assms(2) by (auto simp: thread_ok_def)
  fix G qc assume o: "thread_ok (set as) tag n (fe_cells m) G qc \<and> apart H (Push_dcas fe c op oc) G qc"
  then have "fe \<notin> G" "own_counter qc \<noteq> Some c" "seen_counter qc \<noteq> Some c" using fe(1) by (auto simp: apart_def)
  then show "unnoticed (set as) tag (fe_cells m) (set (fe # as)) ?tag (fe_cells m) G qc"
    using o fe(2) by (auto simp: thread_ok_def unnoticed_def split: if_splits)
  show "apart (H - {fe}) Outside G qc" using o by (auto simp: apart_def)
qed simp_all

lemma good_pop:
  assumes "shared_ok as tag n fs m" "thread_ok (set as) tag n (fe_cells m) H (Pop_dcas p c np nc)"
    "fs_top fs = (Some p, c)"
  obtains as' where "as = p # as'"
    "good_move as tag n m H (Pop_dcas p c np nc) (Popped (Some p)) as' tag n
       (fs\<lparr>fs_top := (np, nc)\<rparr>) m (H \<union> {p}) Outside"
proof -
  obtain as' e where as: "as = p # as'" "tag p = c" "fe_cells m p = Some e" "tagged (fe_cells m) tag (fe_next e) as'"
    using assms(1,3) by (cases as) (auto simp: shared_ok_def)
  have e: "fe_next e = (np, nc)" using assms(2) as by (auto simp: thread_ok_def)
  have "good_move as tag n m H (Pop_dcas p c np nc) (Popped (Some p)) as' tag n
       (fs\<lparr>fs_top := (np, nc)\<rparr>) m (H \<union> {p}) Outside"
    unfolding good_move_def
  proof (intro conjI allI impI)
    show "shared_ok as' tag n (fs\<lparr>fs_top := (np, nc)\<rparr>) m"
      using assms(1) as e by (simp add: shared_ok_def)
    have "p \<notin> set as'" using assms(1) as(1) by (simp add: shared_ok_def)
    then show "thread_ok (set as') tag n (fe_cells m) (H \<union> {p}) Outside"
      using assms(2) as by (auto simp: thread_ok_def)
    fix G qc assume o: "thread_ok (set as) tag n (fe_cells m) G qc \<and> apart H (Pop_dcas p c np nc) G qc"
    then show "unnoticed (set as) tag (fe_cells m) (set as') tag (fe_cells m) G qc"
      using as(1) by (auto simp: thread_ok_def unnoticed_def)
    have "p \<notin> G" using o as(1) by (auto simp: thread_ok_def)
    then show "apart (H \<union> {p}) Outside G qc" using o by (auto simp: apart_def)
  qed (simp_all add: as(1))
  with as(1) show ?thesis by (rule that)
qed

text \<open>Every step of a thread inside an operation is possible, and good.\<close>

lemma pop_test_good:
  assumes "shared_ok as tag n fs m" "thread_ok (set as) tag n (fe_cells m) H pc"
    "pop_test (fst (fs_top fs), c) = (pc', ev)" "seen_counter pc = Some c \<or> c = snd (fs_top fs)"
  shows "good_move as tag n m H pc ev as tag n fs m (held_after ev H) pc'"
proof (cases "fst (fs_top fs)")
  case None
  then have "as = []" "ev = Popped NULL" "pc' = Outside"
    using top_pointer(1) [OF assms(1)] assms(3) by (simp_all add: pop_test_def)
  then show ?thesis
    using quiet_move [OF assms(1,2), of ev pc'] by (simp add: held_after_def)
next
  case (Some p)
  then have "ev = Hidden" "pc' = Pop_load_pointer p c" "p \<in> dom (fe_cells m)"
    using top_pointer(2) [OF assms(1)] assms(3) by (simp_all add: pop_test_def)
  then show ?thesis
    using quiet_move [OF assms(1,2), of ev pc'] assms(4) by (auto simp: held_after_def)
qed

lemma push_move_good:
  assumes "shared_ok as tag n fs m" "thread_ok (set as) tag n (fe_cells m) H pc"
    "fl_move pc fs m = Some (pc', ev, fs', m')" "takes_counter pc \<Longrightarrow> Suc n < 2 ^ 64"
    "pushing pc = Some fe"
  shows "\<exists>as' tag'. good_move as tag n m H pc ev as' tag' (if takes_counter pc then Suc n else n) fs' m' (held_after ev H) pc'"
proof -
  have fe: "fe \<in> H" and k: "knows pc (fe_cells m) tag (set as)"
    using assms(2,5) by (simp_all add: thread_ok_def)
  then obtain e where e: "fe_cells m fe = Some e" using assms(2) by (auto simp: thread_ok_def)
  note quiet = quiet_move [OF assms(1,2), of Hidden pc']
  note link = good_link [OF assms(1,2) fe _ _ _ e refl, of pc']
  show ?thesis
  proof (cases pc)
    case (Push_increment fe)
    then show ?thesis
      using good_increment [OF assms(1)] assms(2-4)
      by (auto simp: abstraction_increment_def held_after_def intro!: exI)
  next
    case (Push_link_pointer fe c op oc)
    then show ?thesis
      using assms(3,5) e link
      by (auto simp: set_fe_next_def held_after_def intro!: exI [of _ as] exI [of _ tag])
  next
    case (Push_link_counter fe c op oc)
    then show ?thesis
      using assms(3,5) e k link
      by (auto simp: set_fe_next_def held_after_def intro!: exI [of _ as] exI [of _ tag])
  next
    case (Push_dcas fe c op oc)
    show ?thesis
    proof (cases "fs_top fs = (op, oc)")
      case True
      then show ?thesis
        using good_push [OF assms(1)] assms(2,3) Push_dcas
        by (auto simp: abstraction_dcas_def held_after_def intro!: exI [of _ "fe # as"] exI [of _ "tag(fe := c)"])
    next
      case False
      then show ?thesis
        using quiet fe assms(3,5) Push_dcas
        by (auto simp: abstraction_dcas_def held_after_def intro!: exI [of _ as] exI [of _ tag])
    qed
  qed (use quiet fe assms(3,5) in \<open>auto simp: held_after_def intro!: exI [of _ as] exI [of _ tag]\<close>)
qed

lemma pop_move_good:
  assumes "shared_ok as tag n fs m" "thread_ok (set as) tag n (fe_cells m) H pc"
    "fl_move pc fs m = Some (pc', ev, fs', m')" "pushing pc = None"
  shows "\<exists>as' tag'. good_move as tag n m H pc ev as' tag' n fs' m' (held_after ev H) pc'"
proof -
  have k: "knows pc (fe_cells m) tag (set as)" using assms(2) by (simp add: thread_ok_def)
  note quiet = quiet_move [OF assms(1,2), of Hidden pc']
  show ?thesis
  proof (cases pc)
    case (Pop_read_pointer c)
    then show ?thesis
      using assms(3) pop_test_good [OF assms(1,2), of c pc' ev]
      by (auto split: prod.splits intro!: exI [of _ as] exI [of _ tag])
  next
    case (Pop_load_counter p c np)
    then have "knows pc' (fe_cells m) tag (set as)" using k assms(3) by (auto simp: prod_eq_iff)
    then show ?thesis
      using quiet Pop_load_counter assms(3,4)
      by (auto simp: held_after_def bind_eq_Some_conv intro!: exI [of _ as] exI [of _ tag])
  next
    case (Pop_dcas p c np nc)
    show ?thesis
    proof (cases "fs_top fs = (Some p, c)")
      case True
      obtain as' where "good_move as tag n m H (Pop_dcas p c np nc) (Popped (Some p)) as' tag n
         (fs\<lparr>fs_top := (np, nc)\<rparr>) m (H \<union> {p}) Outside"
        by (rule good_pop [OF assms(1) _ True]) (use assms(2) Pop_dcas in \<open>simp, blast\<close>)
      then show ?thesis
        using True assms(3) Pop_dcas
        by (auto simp: abstraction_dcas_def held_after_def intro!: exI [of _ as'] exI [of _ tag])
    next
      case False
      then show ?thesis
        using assms(3) Pop_dcas pop_test_good [OF assms(1,2), of "snd (fs_top fs)" pc' ev]
        by (auto simp: abstraction_dcas_def split: prod.splits intro!: exI [of _ as] exI [of _ tag])
    qed
  qed (use quiet k assms(3,4) in \<open>auto simp: held_after_def intro!: exI [of _ as] exI [of _ tag]\<close>)
qed

lemma fl_move_good:
  assumes "shared_ok as tag n fs m" "thread_ok (set as) tag n (fe_cells m) H pc"
    "fl_move pc fs m = Some (pc', ev, fs', m')" "takes_counter pc \<Longrightarrow> Suc n < 2 ^ 64"
  shows "\<exists>as' tag'. good_move as tag n m H pc ev as' tag' (if takes_counter pc then Suc n else n) fs' m' (held_after ev H) pc'"
proof (cases "pushing pc")
  case None
  then have "\<not> takes_counter pc" by (cases pc) simp_all
  then show ?thesis using pop_move_good [OF assms(1-3) None] by simp
next
  case (Some fe)
  then show ?thesis using push_move_good [OF assms] by blast
qed

lemma fl_move_possible:
  assumes "thread_ok (set as) tag n (fe_cells m) H pc" "pc \<noteq> Outside"
  shows "fl_move pc fs m \<noteq> None"
proof (cases pc)
qed (use assms in \<open>auto simp: thread_ok_def set_fe_next_def Let_def split: prod.splits\<close>)

text \<open>An operation acts on the list once, in its last step.\<close>

lemma acts_when_leaving:
  "fl_move pc fs m = Some (pc', ev, fs', m') \<Longrightarrow> pc' = Outside \<longleftrightarrow> ev \<noteq> Hidden"
  by (cases pc) (auto simp: pop_test_def Let_def bind_eq_Some_conv split: prod.splits if_splits option.splits)

section \<open>Runs\<close>

lemma good_start:
  assumes "shared_ok as tag n fs m" "thread_ok (set as) tag n (fe_cells m) H Outside"
    "pc' = Pop_read_counter \<or> pc' = Push_increment a \<and> a \<in> H"
  shows "good_move as tag n m H Outside Hidden as tag n fs m H pc'"
  by (rule quiet_move [OF assms(1,2)]) (use assms(3) in auto)

lemma good_new_element:
  assumes "shared_ok as tag n fs m" "thread_ok (set as) tag n (fe_cells m) H Outside"
    "fs_init fs = None" "freelist_guaranteed_pop fs m = Some (Some a, fs', m')"
  shows "good_move as tag n m H Outside Hidden as tag n fs' m' (insert a H) Outside"
  unfolding good_move_def
proof (intro conjI allI impI)
  note init = assms(3)
  have wf: "mem_wf m" using assms(1) by (simp add: shared_ok_def)
  have ok: "mem_ok m (calls m)"
    using assms(4) init
    by (auto simp: freelist_guaranteed_pop_def freelist_internal_new_element_def malloc_fail intro: ccontr)
  let ?e = "junk_fe m (brk m)\<lparr>fe_user_data := NULL\<rparr>"
  have m: "a = brk m" "fs' = fs\<lparr>fs_element_count := snd (abstraction_increment (fs_element_count fs))\<rparr>"
    "m' = m\<lparr>calls := Suc (calls m), brk := Suc (brk m), fe_cells := (fe_cells m)(brk m \<mapsto> ?e)\<rparr>"
    using assms(4) init ok
    by (auto simp: freelist_guaranteed_pop_def freelist_internal_new_element_def malloc_ok
        freelist_set_user_data_in_element_def)
  have "mem_wf m'"
    using mem_wf_links [OF mem_wf_install [OF wf, where k = Freelist_element and c = "Suc (calls m)"], where a = a] m
    by simp
  with m init have m': "a = brk m" "fe_cells m' = (fe_cells m)(a \<mapsto> ?e)" "fs_top fs' = fs_top fs"
    "fs_aba_counter fs' = fs_aba_counter fs" "mem_wf m'"
    by simp_all
  have new: "fe_cells m a = None" using m'(1) mem_wf_brk [OF wf] by simp
  then have A: "a \<notin> set as" using assms(1) tagged_dom by (fastforce simp: shared_ok_def)
  then have "tagged (fe_cells m') tag (fs_top fs) as"
    using assms(1) m'(2) by (auto simp: shared_ok_def intro: tagged_frame)
  then show "shared_ok as tag n fs' m'" using assms(1) m' by (simp add: shared_ok_def)
  show "thread_ok (set as) tag n (fe_cells m') (insert a H) Outside"
    using assms(2) A m'(2) by (auto simp: thread_ok_def)
  fix G qc assume o: "thread_ok (set as) tag n (fe_cells m) G qc \<and> apart H Outside G qc"
  then have G: "a \<notin> G" using new by (auto simp: thread_ok_def)
  have "fe_cells m' b = fe_cells m b" if "b \<in> G \<union> set as" for b using that G A m'(2) by auto
  then show "unnoticed (set as) tag (fe_cells m) (set as) tag (fe_cells m') G qc"
    using o m'(2) by (auto simp: thread_ok_def unnoticed_def)
  show "apart (insert a H) Outside G qc" using o G by (simp add: apart_def)
qed simp_all

lemma fl_inv_handover:
  assumes "fl_inv as tag s" "fl_pcs s t = Outside" "a \<in> fl_held s t" "t \<noteq> u"
  shows "fl_inv as tag (s\<lparr>fl_held := (fl_held s)(t := fl_held s t - {a}, u := insert a (fl_held s u))\<rparr>)"
proof -
  have t: "thread_ok (set as) tag (increments s) (fe_cells (fl_mem s)) (fl_held s v) (fl_pcs s v)" for v
    using assms(1) by (simp add: fl_inv_def)
  have p: "apart (fl_held s v) (fl_pcs s v) (fl_held s w) (fl_pcs s w)" if "v \<noteq> w" for v w
    using assms(1) that by (simp add: fl_inv_def)
  let ?h = "(fl_held s)(t := fl_held s t - {a}, u := insert a (fl_held s u))"
  have "thread_ok (set as) tag (increments s) (fe_cells (fl_mem s)) (?h v) (fl_pcs s v)" for v
    using t [of v] t [of t] assms(2-4) by (auto simp: thread_ok_def)
  moreover have "apart (?h v) (fl_pcs s v) (?h w) (fl_pcs s w)" if "v \<noteq> w" for v w
    using p [OF that] p [of t v] p [of t w] that assms(3,4) by (auto simp: apart_def)
  ultimately show ?thesis using assms(1) by (simp add: fl_inv_def)
qed

lemma fl_inv_step:
  assumes "fl_step s ev s'" "fl_inv as tag s" "increments s' < 2 ^ 64"
  shows "\<exists>as' tag'. fl_inv as' tag' s' \<and> stack_after [ev] as = Some as'"
proof -
  have sh: "shared_ok as tag (increments s) (fl_fs s) (fl_mem s)"
    and th: "\<And>t. thread_ok (set as) tag (increments s) (fe_cells (fl_mem s)) (fl_held s t) (fl_pcs s t)"
    using assms(2) by (simp_all add: fl_inv_def)
  have move: ?thesis
    if "good_move as tag (increments s) (fl_mem s) (fl_held s t) (fl_pcs s t) ev as' tag' n' fs' m' H' pc'"
      "s' = s\<lparr>fl_fs := fs', fl_mem := m', fl_pcs := (fl_pcs s)(t := pc'), fl_held := (fl_held s)(t := H'), increments := n'\<rparr>"
    for t as' tag' n' fs' m' H' pc'
    using fl_inv_move [OF assms(2) that(1)] that by (auto simp: good_move_def)
  show ?thesis
    using assms(1)
  proof cases
    case (start_push t a)
    then have "good_move as tag (increments s) (fl_mem s) (fl_held s t) (fl_pcs s t) ev as tag (increments s) (fl_fs s) (fl_mem s) (fl_held s t) (Push_increment a)"
      using good_start [OF sh, of _ "Push_increment a" a] th [of t] by simp
    then show ?thesis by (rule move) (use start_push in \<open>cases s, simp add: fun_upd_idem\<close>)
  next
    case (start_pop t)
    then have "good_move as tag (increments s) (fl_mem s) (fl_held s t) (fl_pcs s t) ev as tag (increments s) (fl_fs s) (fl_mem s) (fl_held s t) Pop_read_counter"
      using good_start [OF sh, of _ Pop_read_counter] th [of t] by simp
    then show ?thesis by (rule move) (use start_pop in \<open>cases s, simp add: fun_upd_idem\<close>)
  next
    case (new_element t a fs m)
    then have "good_move as tag (increments s) (fl_mem s) (fl_held s t) (fl_pcs s t) ev as tag (increments s) fs m (insert a (fl_held s t)) Outside"
      using good_new_element [OF sh, of _ a fs m] th [of t] by simp
    then show ?thesis by (rule move) (use new_element in \<open>cases s, simp add: fun_upd_idem\<close>)
  next
    case (hand_over t a u)
    then show ?thesis using fl_inv_handover [OF assms(2)] by auto
  next
    case (inside t pc fs m)
    have "takes_counter (fl_pcs s t) \<Longrightarrow> Suc (increments s) < 2 ^ 64" using assms(3) inside by simp
    from fl_move_good [OF sh th inside(2) this] obtain as' tag' where
      "good_move as tag (increments s) (fl_mem s) (fl_held s t) (fl_pcs s t) ev as' tag'
         (if takes_counter (fl_pcs s t) then Suc (increments s) else increments s) fs m (held_after ev (fl_held s t)) pc"
      by blast
    then show ?thesis by (rule move) (use inside(1) in simp)
  qed
qed

lemma fl_step_increments: "fl_step s ev s' \<Longrightarrow> increments s \<le> increments s'"
  by (auto elim!: fl_stepE)

lemma stack_after_append:
  "stack_after (es @ es') as = Option.bind (stack_after es as) (stack_after es')"
  by (induction es as rule: stack_after.induct) (auto split: list.splits)

lemma fl_inv_run:
  assumes "fl_run s0 es s" "fl_inv as0 tag0 s0" "increments s < 2 ^ 64"
  shows "\<exists>as tag. fl_inv as tag s \<and> stack_after es as0 = Some as"
  using assms
proof (induction rule: fl_run.induct)
  case (fl_run_refl s)
  then show ?case by auto
next
  case (fl_run_step s es s' ev s'')
  then have "increments s' < 2 ^ 64" using fl_step_increments order_le_less_trans by blast
  then obtain as tag where i: "fl_inv as tag s'" "stack_after es as0 = Some as" using fl_run_step by auto
  with fl_inv_step [OF fl_run_step(2) i(1)] fl_run_step.prems show ?case
    by (fastforce simp: stack_after_append)
qed

lemma fl_inv_start:
  assumes "fs_top fs = (NULL, 0)" "fs_aba_counter fs = 0" "mem_wf m"
  shows "fl_inv [] tag (fl_start fs m)"
  using assms by (simp add: fl_inv_def fl_start_def shared_ok_def thread_ok_def apart_def)

lemma tagged_path: "tagged (fe_cells m) tag v as \<Longrightarrow> path (fe_link m) (fst v) as NULL"
  by (induction "fe_cells m" tag v as rule: tagged.induct) (auto simp: fe_link_def)

lemma fl_inv_facts:
  assumes "fl_inv as tag s"
  shows "freelist_rep (fl_fs s, fl_mem s) as" "fl_held s t \<inter> set as = {}" "t \<noteq> u \<Longrightarrow> fl_held s t \<inter> fl_held s u = {}"
    "fl_pcs s t \<noteq> Outside \<Longrightarrow> fl_move (fl_pcs s t) (fl_fs s) (fl_mem s) \<noteq> None"
proof -
  have th: "thread_ok (set as) tag (increments s) (fe_cells (fl_mem s)) (fl_held s t) (fl_pcs s t)"
    and sh: "shared_ok as tag (increments s) (fl_fs s) (fl_mem s)"
    using assms by (simp_all add: fl_inv_def)
  show "freelist_rep (fl_fs s, fl_mem s) as"
    using sh tagged_path [of "fl_mem s" tag "fs_top (fl_fs s)"] by (simp add: shared_ok_def freelist_rep_def)
  show "fl_held s t \<inter> set as = {}" using th by (simp add: thread_ok_def)
  show "fl_pcs s t \<noteq> Outside \<Longrightarrow> fl_move (fl_pcs s t) (fl_fs s) (fl_mem s) \<noteq> None"
    by (rule fl_move_possible [OF th])
  show "t \<noteq> u \<Longrightarrow> fl_held s t \<inter> fl_held s u = {}" using assms by (simp add: fl_inv_def apart_def)
qed

section \<open>Schedules\<close>

text \<open>A schedule fixes who moves, and then there is one run.\<close>

datatype 't fl_act = Begin_push 't addr | Begin_pop 't | Allocate 't | Give 't addr 't | Go 't

fun fl_do :: "'t fl_act \<Rightarrow> 't fl_sys \<Rightarrow> (fl_event \<times> 't fl_sys) option" where
  "fl_do (Begin_push t a) s =
     (if fl_pcs s t = Outside \<and> a \<in> fl_held s t
      then Some (Hidden, s\<lparr>fl_pcs := (fl_pcs s)(t := Push_increment a)\<rparr>) else None)"
| "fl_do (Begin_pop t) s =
     (if fl_pcs s t = Outside then Some (Hidden, s\<lparr>fl_pcs := (fl_pcs s)(t := Pop_read_counter)\<rparr>) else None)"
| "fl_do (Allocate t) s =
     (if fl_pcs s t = Outside \<and> Option.is_none (fs_init (fl_fs s))
      then (case freelist_guaranteed_pop (fl_fs s) (fl_mem s) of
              Some (Some a, fs, m) \<Rightarrow>
                Some (Hidden, s\<lparr>fl_fs := fs, fl_mem := m, fl_held := (fl_held s)(t := insert a (fl_held s t))\<rparr>)
            | _ \<Rightarrow> None)
      else None)"
| "fl_do (Give t a u) s =
     (if fl_pcs s t = Outside \<and> a \<in> fl_held s t \<and> t \<noteq> u
      then Some (Hidden, s\<lparr>fl_held := (fl_held s)(t := fl_held s t - {a}, u := insert a (fl_held s u))\<rparr>) else None)"
| "fl_do (Go t) s = do {
     (pc, ev, fs, m) \<leftarrow> fl_move (fl_pcs s t) (fl_fs s) (fl_mem s);
     Some (ev, s\<lparr>fl_fs := fs, fl_mem := m, fl_pcs := (fl_pcs s)(t := pc),
       fl_held := (fl_held s)(t := held_after ev (fl_held s t)),
       increments := (if takes_counter (fl_pcs s t) then Suc (increments s) else increments s)\<rparr>)
   }"

fun fl_schedule :: "'t fl_act list \<Rightarrow> 't fl_sys \<Rightarrow> (fl_event list \<times> 't fl_sys) option" where
  "fl_schedule [] s = Some ([], s)"
| "fl_schedule (a # acts) s = do {
     (ev, s) \<leftarrow> fl_do a s;
     (es, s) \<leftarrow> fl_schedule acts s;
     Some (ev # es, s)
   }"

lemma fl_do_step:
  assumes "fl_do a s = Some (ev, s')"
  shows "fl_step s ev s'"
proof (cases a)
  case (Go t)
  with assms show ?thesis using fl_step.inside [of s t] by (auto simp: bind_eq_Some_conv)
qed (use assms in \<open>auto simp: Option.is_none_def split: if_splits option.splits prod.splits intro: fl_step.intros\<close>)

lemma fl_run_cons: "fl_run s' es s'' \<Longrightarrow> fl_step s ev s' \<Longrightarrow> fl_run s (ev # es) s''"
proof (induction rule: fl_run.induct)
  case (fl_run_refl s')
  show ?case using fl_run.fl_run_step [OF fl_run.fl_run_refl fl_run_refl] by simp
next
  case (fl_run_step s' es s1 ev' s2)
  show ?case using fl_run.fl_run_step [OF fl_run_step.IH [OF fl_run_step.prems] fl_run_step.hyps(2)] by simp
qed

lemma fl_schedule_run: "fl_schedule acts s = Some (es, s') \<Longrightarrow> fl_run s es s'"
proof (induction acts arbitrary: s es)
  case Nil
  then show ?case by (auto intro: fl_run_refl)
next
  case (Cons a acts)
  then show ?case by (auto simp: bind_eq_Some_conv dest!: fl_do_step intro: fl_run_cons)
qed

end
