(* ===== verification/Lfds_Properties.thy ===== *)
theory Lfds_Properties
  imports Queue_Check Freelist_Life Freelist_Threads
begin

text \<open>
  The properties of the lock-free library: the compare-and-swap bodies, the freelist, the
  queue, their validators, and the limits of their constructors. Each is an instance of the
  lemmas of the component theories, and each with hypotheses is followed by a witness on a
  concrete memory.
\<close>

section \<open>A concrete memory\<close>

text \<open>Nothing allocated, every allocation succeeds, fresh memory reads as zero.\<close>

definition empty_mem :: mem where
  "empty_mem = \<lparr>fe_cells = Map.empty, qe_cells = Map.empty, state_blocks = {}, brk = 16, calls = 0,
     mem_ok = (\<lambda>_. True), junk_fe = (\<lambda>_. \<lparr>fe_next = (NULL, 0), fe_user_data = NULL\<rparr>),
     junk_qe = (\<lambda>_. \<lparr>qe_next = (NULL, 0), qe_fe = NULL, qe_user_data = NULL\<rparr>),
     junk_word = (\<lambda>_ _. 0), junk_ptr = (\<lambda>_. NULL)\<rparr>"

text \<open>The same memory when only the first \<open>k\<close> calls of the allocator succeed.\<close>

definition scarce_mem :: "nat \<Rightarrow> mem" where
  "scarce_mem k = empty_mem\<lparr>mem_ok := (\<lambda>j. j < k)\<rparr>"

lemma empty_mem_ok: "always_ok empty_mem" "mem_wf empty_mem" "live empty_mem = {}"
  by (simp_all add: empty_mem_def always_ok_def mem_wf_def live_def)

lemma scarce_mem_simps [simp]:
  "mem_wf (scarce_mem k)" "mem_ok (scarce_mem k) j \<longleftrightarrow> j < k" "calls (scarce_mem k) = 0"
  "live (scarce_mem k) = {}" "state_blocks (scarce_mem k) = {}"
  by (simp_all add: scarce_mem_def empty_mem_def mem_wf_def live_def)

section \<open>Atomic primitives\<close>

text \<open>
  C38: The double-word compare-and-swap means the same on every x86 target. The bodies for
  x86-64 and i686, in their position-dependent and position-independent forms, and the 32-bit
  Windows body return the same flag and leave the same destination and comparand; the
  position-independent ones also preserve the register that holds the global offset table.
\<close>
theorem dcas_x86_targets_agree:
  "(case dcas_x64 r dest exch cmp of (flag, dest', cmp', r') \<Rightarrow> (flag, dest', cmp')) = abstraction_dcas dest exch cmp \<and>
   (case dcas_i686 r dest exch cmp of (flag, dest', cmp', r') \<Rightarrow> (flag, dest', cmp')) = abstraction_dcas dest exch cmp \<and>
   (case dcas_x64_pic r dest exch cmp of (flag, dest', cmp', r') \<Rightarrow>
      ((flag, dest', cmp'), bx r')) = (abstraction_dcas dest exch cmp, bx r) \<and>
   (case dcas_i686_pic r dest exch cmp of (flag, dest', cmp', r') \<Rightarrow>
      ((flag, dest', cmp'), bx r')) = (abstraction_dcas dest exch cmp, bx r) \<and>
   dcas_win32 dest exch cmp = abstraction_dcas dest exch cmp"
  using dcas_x86_eq [of r dest exch cmp] dcas_pic_bx [of r dest exch cmp] dcas_win32_eq [of dest exch cmp]
  by (auto split: prod.splits)



section \<open>The freelist\<close>

text \<open>
  C14: Pushes and pops on a freelist are those of a stack. For any sequence in which the
  caller pushes only elements it owns that are not on the list, the operations return, pop
  what the stack pops (\<open>NULL\<close> when it is empty), and change nothing but the links, the top
  and the counter.
\<close>
theorem freelist_is_a_stack:
  assumes "freelist_rep (fs, m) as" and "legal_ops (\<lambda>a. a \<in> dom (fe_cells m)) ops as"
  shows "\<exists>fs' m'. run_pool pool_pop pool_push ops (fs, m) = Some (fst (run_stack ops as), (fs', m')) \<and>
    freelist_rep (fs', m') (snd (run_stack ops as)) \<and>
    freelist_frame (fs', m') = freelist_frame (fs, m)"
proof -
  have "legal_ops (freelist_owns (fs, m)) ops as"
    using assms(2) by (simp add: freelist_owns_def [abs_def])
  from fl.run_refines [OF assms(1) this] show ?thesis by force
qed

definition two_cells :: "freelist_state \<times> mem" where
  "two_cells = (\<lparr>fs_top = (Some 3, 1), fs_init = None, fs_user_state = NULL, fs_aba_counter = 1,
       fs_element_count = 2, fs_addr = 9\<rparr>,
     empty_mem\<lparr>fe_cells := [3 \<mapsto> \<lparr>fe_next = (NULL, 0), fe_user_data = NULL\<rparr>,
                           4 \<mapsto> \<lparr>fe_next = (NULL, 0), fe_user_data = NULL\<rparr>]\<rparr>)"

theorem freelist_is_a_stack_witness:
  "\<exists>s'. run_pool pool_pop pool_push [Push 4, Pop, Pop, Pop] two_cells = Some ([Some 4, Some 3, NULL], s')"
proof -
  have rep: "freelist_rep (fst two_cells, snd two_cells) [3]"
    by (simp add: two_cells_def freelist_rep_def fe_link_def)
  have legal: "legal_ops (\<lambda>a. a \<in> dom (fe_cells (snd two_cells))) [Push 4, Pop, Pop, Pop] [3]"
    by (simp add: two_cells_def)
  from freelist_is_a_stack [OF rep legal] show ?thesis by auto
qed

text \<open>
  C13: The freelist is a linearizable stack. Let any number of threads push and pop, one access to
  shared memory at a time and in any order, on a list that was empty: every operation takes
  effect at one of its steps, in the order of the steps the results are those of a stack, and
  the chain from the top is the contents of that stack. No element is on the list and held by a thread, or
  held by two, and no thread inside an operation ever touches memory that is not an element.
  The counters make it so until \<open>2 ^ 64\<close> pushes have started.
\<close>
theorem freelist_linearizable:
  fixes s :: "'t fl_sys"
  assumes "fs_top fs = (NULL, 0)" "fs_aba_counter fs = 0" "mem_wf m"
    "fl_run (fl_start fs m) es s" "increments s < 2 ^ 64"
  shows "\<exists>as. stack_after es [] = Some as \<and> freelist_rep (fl_fs s, fl_mem s) as \<and>
    (\<forall>t. fl_held s t \<inter> set as = {} \<and> (\<forall>u. t \<noteq> u \<longrightarrow> fl_held s t \<inter> fl_held s u = {})) \<and>
    (\<forall>t. fl_pcs s t \<noteq> Outside \<longrightarrow> fl_move (fl_pcs s t) (fl_fs s) (fl_mem s) \<noteq> None)"
proof -
  obtain as tag where "fl_inv as tag s" "stack_after es [] = Some as"
    using fl_inv_run [OF assms(4) fl_inv_start [OF assms(1-3)] assms(5)] by blast
  then show ?thesis using fl_inv_facts [of as tag s] by (intro exI [of _ as]) simp
qed

text \<open>
  The schedule the counters are for: while thread 1 is between reading the link of the top and
  its compare-and-swap, thread 0 pops both elements and pushes the first one back.
\<close>

definition aba_schedule :: "nat fl_act list" where
  "aba_schedule =
     [Allocate 0, Allocate 0, Begin_push 0 16] @ replicate 6 (Go 0) @ [Begin_push 0 17] @ replicate 6 (Go 0) @
     [Begin_pop 1] @ replicate 4 (Go 1) @
     [Begin_pop 0] @ replicate 5 (Go 0) @ [Begin_pop 0] @ replicate 5 (Go 0) @
     [Begin_push 0 17] @ replicate 6 (Go 0) @ replicate 4 (Go 1)"

definition new_freelist :: freelist_state where
  "new_freelist = \<lparr>fs_top = (NULL, 0), fs_init = None, fs_user_state = NULL, fs_aba_counter = 0,
     fs_element_count = 0, fs_addr = 0\<rparr>"

abbreviation aba_events :: "fl_event list" where
  "aba_events \<equiv> [Pushed 16, Pushed 17, Popped (Some 17), Popped (Some 16), Pushed 17, Popped (Some 17)]"

lemma aba_run:
  "map_option (\<lambda>(es, s). (filter (\<lambda>e. e \<noteq> Hidden) es, increments s))
     (fl_schedule aba_schedule (fl_start new_freelist empty_mem)) = Some (aba_events, 3)"
  by code_simp

theorem freelist_linearizable_witness:
  "\<exists>es (s :: nat fl_sys) as. fl_run (fl_start new_freelist empty_mem) es s \<and> increments s = 3 \<and>
     filter (\<lambda>e. e \<noteq> Hidden) es = aba_events \<and>
     stack_after es [] = Some as \<and> freelist_rep (fl_fs s, fl_mem s) as"
proof -
  obtain es s where run: "fl_schedule aba_schedule (fl_start new_freelist empty_mem) = Some (es, s)"
    and s: "increments s = 3" "filter (\<lambda>e. e \<noteq> Hidden) es = aba_events"
    using aba_run by auto
  have "fl_run (fl_start new_freelist empty_mem) es s" by (rule fl_schedule_run [OF run])
  with freelist_linearizable [of new_freelist empty_mem es s] s empty_mem_ok show ?thesis
    by (auto simp: new_freelist_def)
qed

text \<open>
  C34: The loop check of the freelist validator decides. On a finite heap whose links point to
  elements or are \<open>NULL\<close> it always returns; it answers ``loop'' exactly when no chain from
  the top ends; and on a proper list it answers by comparing the number of elements with the
  bounds it was given.
\<close>
theorem freelist_validate_decides:
  assumes "closed (fe_link m)" "valid_ptr (fe_link m) (fst (fs_top fs))" "finite (dom (fe_cells m))"
  shows "(freelist_internal_validate fs vi m = Some VALIDITY_INVALID_LOOP \<longleftrightarrow>
      \<not> (\<exists>as. freelist_rep (fs, m) as)) \<and>
    (\<forall>as. freelist_rep (fs, m) as \<longrightarrow> freelist_internal_validate fs vi m =
      Some (case vi of None \<Rightarrow> VALIDITY_VALID
        | Some vi \<Rightarrow> if of_nat (length as) > max_elements vi then VALIDITY_INVALID_ADDITIONAL_ELEMENTS
            else if of_nat (length as) < min_elements vi then VALIDITY_INVALID_MISSING_ELEMENTS
            else VALIDITY_VALID))"
proof -
  have fin: "finite (dom (fe_link m))"
    by (rule finite_subset [OF _ assms(3)]) (auto simp: fe_link_def)
  show ?thesis
    using freelist_validate_loop [OF assms(1,2) fin] freelist_validate_rep
    by (auto simp: check_count_def Let_def split: option.splits if_splits)
qed

definition looped_cells :: mem where
  "looped_cells = empty_mem\<lparr>fe_cells := [3 \<mapsto> \<lparr>fe_next = (Some 4, 0), fe_user_data = NULL\<rparr>,
     4 \<mapsto> \<lparr>fe_next = (Some 3, 0), fe_user_data = NULL\<rparr>]\<rparr>"

theorem freelist_validate_decides_witness:
  "closed (fe_link looped_cells) \<and> \<not> (\<exists>as. freelist_rep (fst two_cells, looped_cells) as) \<and>
   freelist_internal_validate (fst two_cells) None looped_cells = Some VALIDITY_INVALID_LOOP"
proof -
  have link: "fe_link looped_cells = [3 \<mapsto> Some 4, 4 \<mapsto> Some 3]"
    by (auto simp: looped_cells_def fe_link_def fun_eq_iff)
  have cl: "closed (fe_link looped_cells)" "valid_ptr (fe_link looped_cells) (fst (fs_top (fst two_cells)))"
    by (auto simp: closed_def valid_ptr_def link two_cells_def)
  have fin: "finite (dom (fe_cells looped_cells))" by (simp add: looped_cells_def)
  have never: "\<not> path [3 \<mapsto> Some 4, 4 \<mapsto> Some (3::nat)] (Some a) as NULL" if "a \<in> {3, 4}" for a as
    using that by (induction as arbitrary: a) (auto split: if_splits)
  have "\<not> (\<exists>as. freelist_rep (fst two_cells, looped_cells) as)"
    using never [of 3] by (simp add: freelist_rep_def link two_cells_def)
  with freelist_validate_decides [OF cl fin, of None] cl(1) show ?thesis by blast
qed



text \<open>
  A freelist built with every allocation succeeding and then deleted gives back every
  block it took: the memory holds the same elements and state blocks as before.
\<close>
lemma freelist_new_delete:
  assumes "mem_wf m" "always_ok m"
  shows "\<exists>fs m1 m2. freelist_new n None us m = Some (1, Some fs, m1) \<and>
    card (dom (fe_cells m1) - dom (fe_cells m)) = unat n \<and>
    freelist_delete fs None us m1 = Some m2 \<and> dom (fe_cells m2) = dom (fe_cells m) \<and>
    qe_cells m2 = qe_cells m \<and> state_blocks m2 = state_blocks m"
proof -
  have k: "unat n = successes m (Suc (calls m)) (unat n)"
    using assms(2) successes_all [of m "Suc (calls m)" "unat n"] by (simp add: always_ok_def)
  have "mem_ok m (calls m)" using assms(2) by (simp add: always_ok_def)
  from freelist_new_plain [OF assms(1) this k, of us] obtain as fs m1 where f:
    "length as = unat n" "distinct as" "set as \<inter> live m = {}" "dom (fe_cells m1) = dom (fe_cells m) \<union> set as"
    "qe_cells m1 = qe_cells m" "freelist_new n None us m = Some (1, Some fs, m1)" "freelist_rep (fs, m1) as"
    "fs_addr fs \<notin> live m" "state_blocks m1 = insert (fs_addr fs) (state_blocks m)" "mem_wf m1"
    by (simp only: simp_thms if_True) blast
  from freelist_delete_plain [OF f(7,10), of us] f(9) obtain m2 where
    "freelist_delete fs None us m1 = Some m2" "dom (fe_cells m2) = dom (fe_cells m1) - set as"
    "qe_cells m2 = qe_cells m1" "state_blocks m2 = state_blocks m1 - {fs_addr fs}"
    by auto
  moreover have "dom (fe_cells m1) - set as = dom (fe_cells m)" "dom (fe_cells m1) - dom (fe_cells m) = set as"
    using f(3,4) by (auto simp: live_def)
  moreover have "state_blocks m1 - {fs_addr fs} = state_blocks m" using f(8,9) by (auto simp: live_def)
  ultimately show ?thesis using f by (intro exI conjI) (assumption | simp add: distinct_card)+
qed

section \<open>The queue\<close>

lemma new_queue:
  "n + 1 \<noteq> 0 \<Longrightarrow> \<exists>qs m A B. queue_new n empty_mem = Some (1, Some qs, m) \<and>
     fifo_rep A B (qs, m) (unat n) [] \<and> queue_state_ok A B (qs, m) (unat n) \<and> always_ok m"
  by (rule queue_new_ok [OF empty_mem_ok(1,2)]) (assumption, blast)

text \<open>
  C3: The whole life of a queue. Built with capacity \<open>n\<close> it is an empty FIFO of fresh
  blocks; any sequence of enqueues and dequeues terminates and returns exactly what a list
  bounded by \<open>n\<close> returns, an enqueue refusing (0) when it is full and a dequeue reporting
  0 and \<open>NULL\<close> when it is empty; and deleting it, in any state, gives every block back.
\<close>
theorem queue_life_cycle:
  assumes "always_ok m" "mem_wf m" "n + 1 \<noteq> 0" "harmless delete us"
  shows "\<exists>qs m1 qs2 m2 m3. queue_new n m = Some (1, Some qs, m1) \<and>
    run_fifo fifo_enq fifo_deq ops (qs, m1) = Some (fst (run_list (unat n) ops []), (qs2, m2)) \<and>
    queue_delete qs2 delete us m2 = Some m3 \<and>
    dom (fe_cells m3) = dom (fe_cells m) \<and> dom (qe_cells m3) = dom (qe_cells m) \<and>
    state_blocks m3 = state_blocks m"
proof -
  obtain qs m1 A B where new: "queue_new n m = Some (1, Some qs, m1)" "fifo_rep A B (qs, m1) (unat n) []"
    "queue_state_ok A B (qs, m1) (unat n)" "A \<inter> live m = {}" "B \<inter> live m = {}"
    "{q_addr qs, fs_addr (q_fs qs)} \<inter> live m = {}"
    "dom (fe_cells m1) = dom (fe_cells m) \<union> A" "dom (qe_cells m1) = dom (qe_cells m) \<union> B"
    "state_blocks m1 = state_blocks m \<union> {q_addr qs, fs_addr (q_fs qs)}"
    by (rule queue_new_ok [OF assms(1-3)]) (rule that)
  obtain qs2 m2 where run: "run_fifo fifo_enq fifo_deq ops (qs, m1) = Some (fst (run_list (unat n) ops []), (qs2, m2))"
    "fifo_rep A B (qs2, m2) (unat n) (snd (run_list (unat n) ops []))" "fifo_frame (qs2, m2) = fifo_frame (qs, m1)"
    using lq.run_refines [OF new(2), of ops] by force
  obtain m3 where del: "queue_delete qs2 delete us m2 = Some m3"
    "dom (fe_cells m3) = dom (fe_cells m2) - A" "dom (qe_cells m3) = dom (qe_cells m2) - B"
    "state_blocks m3 = state_blocks m2 - {q_addr qs2, fs_addr (q_fs qs2)}"
    using queue_delete_ok [OF run(2) queue_state_ok_frame [OF run(3) new(3)] assms(4)] by blast
  have "dom (fe_cells m3) = dom (fe_cells m)" "dom (qe_cells m3) = dom (qe_cells m)"
    "state_blocks m3 = state_blocks m"
    using del(2-4) run(3) new(4-9) by (auto simp: fifo_frame_def live_def)
  with new(1) run(1) del(1) show ?thesis by blast
qed

theorem queue_life_cycle_witness:
  "\<exists>qs m1 s m3. queue_new 1 empty_mem = Some (1, Some qs, m1) \<and>
     run_fifo fifo_enq fifo_deq [Enq (Some 7), Enq (Some 8), Deq, Deq] (qs, m1) =
       Some ([(1, NULL), (0, NULL), (1, Some 7), (0, NULL)], s) \<and>
     queue_delete (fst s) None NULL (snd s) = Some m3 \<and> live m3 = {}"
proof -
  have h: "harmless None NULL" and n: "(1::u64) + 1 \<noteq> 0" by (simp_all add: harmless_def)
  from queue_life_cycle [OF empty_mem_ok(1,2) n h, of "[Enq (Some 7), Enq (Some 8), Deq, Deq]"]
  obtain qs m1 qs2 m2 m3 where "queue_new 1 empty_mem = Some (1, Some qs, m1)"
    "run_fifo fifo_enq fifo_deq [Enq (Some 7), Enq (Some 8), Deq, Deq] (qs, m1) =
       Some ([(1, NULL), (0, NULL), (1, Some 7), (0, NULL)], (qs2, m2))"
    "queue_delete qs2 None NULL m2 = Some m3" "dom (fe_cells m3) = dom (fe_cells empty_mem)"
    "dom (qe_cells m3) = dom (qe_cells empty_mem)" "state_blocks m3 = state_blocks empty_mem"
    by (auto simp: Let_def)
  then show ?thesis
    by (intro exI [of _ qs] exI [of _ m1] exI [of _ "(qs2, m2)"] exI [of _ m3])
      (simp add: live_def empty_mem_def)
qed

text \<open>
  Growth. On a queue in any state, full or not, \<open>queue_guaranteed_enqueue\<close> succeeds when
  the allocator does: it appends the element, raises the capacity by one with two fresh
  blocks, and the queue goes on as a FIFO of the new capacity.
\<close>
lemma guaranteed_enqueue_grows:
  assumes "fifo_rep A B (qs, m) n xs" "queue_state_ok A B (qs, m) n" "always_ok m"
  shows "\<exists>qs' m'. queue_guaranteed_enqueue qs x m = Some (1, qs', m') \<and>
    (\<exists>s. run_fifo fifo_enq fifo_deq ops (qs', m') = Some (fst (run_list (Suc n) ops (xs @ [x])), s)) \<and>
    brk m \<notin> live m \<and> Suc (brk m) \<notin> live m"
proof -
  obtain qs' m' where g: "queue_guaranteed_enqueue qs x m = Some (1, qs', m')"
    "fifo_rep (insert (brk m) A) (insert (Suc (brk m)) B) (qs', m') (Suc n) (xs @ [x])"
    "{brk m, Suc (brk m)} \<inter> live m = {}"
    using queue_guaranteed_enqueue_ok [OF assms] by blast
  with lq.run_refines [OF g(2), of ops] show ?thesis by blast
qed

text \<open>
  The queue validator on a well-formed queue of capacity \<open>n\<close> with \<open>k\<close> elements always
  returns and never reports a loop. With bounds inside the capacity its two verdicts, on the
  chain and on the freelist, are both ``valid'' exactly when \<open>k\<close> lies within the bounds.
\<close>
lemma queue_validate_within_capacity:
  assumes "fifo_rep A B (qs, m) n xs" "queue_state_ok A B (qs, m) n" "n < 2 ^ 64"
    and "min_elements vi \<le> max_elements vi" "unat (max_elements vi) \<le> n"
  shows "\<exists>v w. queue_internal_validate qs (Some vi) m = Some (v, w) \<and>
    v \<noteq> VALIDITY_INVALID_LOOP \<and> w \<noteq> VALIDITY_INVALID_LOOP \<and>
    (v = VALIDITY_VALID \<longleftrightarrow> unat (min_elements vi) \<le> length xs \<and> length xs \<le> unat (max_elements vi)) \<and>
    (w = VALIDITY_VALID \<longleftrightarrow> unat (min_elements vi) \<le> length xs \<and> length xs \<le> unat (max_elements vi))"
proof -
  have "length xs \<le> n" by (rule lq.rep_bound [OF assms(1)])
  note agree = expected_validity_agree [OF this assms(3-5)]
  have "fst (expected_validity n (length xs) (Some vi)) \<noteq> VALIDITY_INVALID_LOOP"
    "snd (expected_validity n (length xs) (Some vi)) \<noteq> VALIDITY_INVALID_LOOP"
    by (simp_all add: expected_validity_def check_count_def Let_def)
  with agree queue_validate_rep [OF assms(1,2), of "Some vi"] show ?thesis
    by (cases "expected_validity n (length xs) (Some vi)") auto
qed

text \<open>
  Outside the capacity the freelist verdict is wrong. The bounds for the freelist are
  computed in unsigned arithmetic, so an upper bound above the capacity wraps to a huge lower
  bound: the queue itself is valid, and the freelist is reported to miss elements.
\<close>
lemma queue_validate_false_alarm:
  assumes "fifo_rep A B (qs, m) n xs" "queue_state_ok A B (qs, m) n" "n < unat mx"
  shows "queue_internal_validate qs (Some \<lparr>min_elements = 0, max_elements = mx\<rparr>) m =
    Some (VALIDITY_VALID, VALIDITY_INVALID_MISSING_ELEMENTS)"
proof -
  have k: "length xs \<le> n" by (rule lq.rep_bound [OF assms(1)])
  have mx: "unat mx < 2 ^ 64" using unsigned_less [of mx] by simp
  have above: "n - j < y" if "int y = int n - int x + 2 ^ 64" "x < 2 ^ 64" "j \<le> n" for x y j
  proof -
    have "int n < int y" using that(1,2) by simp
    then show ?thesis using that(3) by simp
  qed
  have wrap: "(int n - int x + 2 ^ 64) mod 2 ^ 64 = int n - int x + 2 ^ 64" if "n < x" "x < 2 ^ 64" for x
    using that by (intro mod_pos_pos_trivial) simp_all
  have n: "unat (of_nat n :: u64) = n" "unat (of_nat (length xs) :: u64) = length xs"
    "unat (of_nat (n - length xs) :: u64) = n - length xs"
    by (rule of_nat_inverse [OF refl], use assms(3) k mx in simp)+
  have un: "uint (of_nat n :: u64) = int n" using n(1) by (simp only: uint_nat)
  have "uint (of_nat n - mx) = (int n - int (unat mx)) mod 2 ^ 64"
    unfolding uint_word_ariths un uint_nat [of mx] by simp
  also have "\<dots> = (int n - int (unat mx) + 2 ^ 64) mod 2 ^ 64" by simp
  also have "\<dots> = int n - int (unat mx) + 2 ^ 64"
    using wrap [OF assms(3) mx] .
  finally have "int (unat (of_nat n - mx)) = int n - int (unat mx) + 2 ^ 64" by (simp only: uint_nat)
  then have "n - length xs < unat (of_nat n - mx)" using above [OF _ mx k] by blast
  then have low: "of_nat (n - length xs) < (of_nat n - mx :: u64)" by (simp add: word_less_nat_alt n(3))
  have high: "\<not> (of_nat n :: u64) < of_nat (n - length xs)" by (simp add: word_less_nat_alt n)
  have q: "\<not> mx < (of_nat (length xs) :: u64)" using k assms(3) by (simp add: word_less_nat_alt n)
  show ?thesis
    using queue_validate_rep [OF assms(1,2), of "Some \<lparr>min_elements = 0, max_elements = mx\<rparr>"] low high q
    by (simp del: of_nat_diff add: expected_validity_def check_count_def Let_def)
qed

end
