(* ===== verification/Core_Properties.thy ===== *)
theory Core_Properties
  imports Event_Loop Helper Lfds_Properties
begin

text \<open>
  The properties of the core library: the event loop between the JACK threads and the script,
  the session protocol, the latch, the ports, registration, activation, destruction, and the
  error channel of the script bindings. Each is an instance of the lemmas of the component
  theories; each with hypotheses is followed by a witness on a concrete program state.
\<close>

section \<open>A concrete program state\<close>

text \<open>A ring buffer that holds at most \<open>K\<close> bytes.\<close>

definition byte_ring :: "nat \<Rightarrow> u8 list ringbuffer_api" where
  "byte_ring K =
     \<lparr>rb_create = (\<lambda>n. if unat n \<le> Suc K then Some [] else None),
      rb_write = (\<lambda>r data n.
        (let r = take K r; k = min (unat n) (K - length r) in (of_nat k, r @ take k data))),
      rb_read_space = (\<lambda>r. of_nat (length (take K r))),
      rb_read = (\<lambda>r n. (take (unat n) (take K r), drop (unat n) (take K r)))\<rparr>"

lemma byte_ring_ok: "K < 2 ^ 64 \<Longrightarrow> ringbuffer_ok (byte_ring K) (take K) (\<lambda>_. K)"
  by (auto simp: ringbuffer_ok_def byte_ring_def Let_def min_def split: if_splits)

definition empty_store :: "'a store" where
  "empty_store = \<lparr>objs = Map.empty, next_addr = 100, alloc_calls = 0, alloc_ok = (\<lambda>_. True)\<rparr>"

lemma empty_store_always [simp]: "always_alloc empty_store"
  by (simp add: always_alloc_def empty_store_def)

definition quiet_world :: port_world where
  "quiet_world = \<lparr>latency_cb = None, written = [], signals = 0\<rparr>"

definition idle_server :: jack_server where
  "idle_server = \<lparr>on_shutdown = None, sample_rate_callback = None, session_callback = None,
     process_callback = None, client_open = False, replied = [], events_freed = []\<rparr>"

definition jacks0 :: "'rb jacks" where
  "jacks0 = \<lparr>clients = empty_store, events = empty_store, latches = empty_store,
     port_store = empty_store, lfds = empty_mem, port_env = quiet_world, jackd = idle_server\<rparr>"

lemma jacks0_sel [simp]:
  "clients jacks0 = empty_store" "events jacks0 = empty_store" "latches jacks0 = empty_store"
  "port_store jacks0 = empty_store" "lfds jacks0 = empty_mem"
  by (simp_all add: jacks0_def)

definition junk_client :: jacks_rb_client_T where
  "junk_client = \<lparr>ports = None, nports = 7, rb_size = 7, client = NULL, event_queue = None, mutex = 7,
     process_event = NULL, session_event = NULL, session_latch = NULL, sample_rate_event = NULL,
     shutdown_event = NULL, activated = 7\<rparr>"

abbreviation junk0 :: indeterminate where
  "junk0 \<equiv> \<lparr>junk_byte = (\<lambda>_. 0), junk_int = 0\<rparr>"

text \<open>A client made in that state, with an event queue of \<open>r\<close> places.\<close>

abbreviation new_client :: "u32 \<Rightarrow> (int + (ptr \<times> u8 list jacks)) option" where
  "new_client r \<equiv> JacksRbClient_new (Some 1) junk_client (\<lambda>_. NULL) r jacks0"

lemma new_client_ready:
  assumes "r \<noteq> 0"
  obtains this s A B f where "new_client r = Some (Inr (this, s))"
    "client_rep A B this s (unat r) [] 1 f" "client_objects f s"
    "ports_ready bytes cap f s 0 w" "activated f = NO" "rb_size f = r"
    "get_obj (session_latch f) (latches s) = Some \<lparr>status = NOT_POSTED\<rparr>"
proof -
  have r: "r = (if r \<noteq> 0 then r else DEFAULT_RB_SIZE)" using assms by simp
  obtain this A B f and s :: "u8 list jacks" where
    n: "new_client r = Some (Inr (this, s))" "client_rep A B this s (unat r) [] 1 f" "client_objects f s"
    "ports f = Some (map (\<lambda>_. NULL) [0..<MAX_PORTS])" "nports f = 0" "activated f = NO" "rb_size f = r"
    "get_obj (session_latch f) (latches s) = Some \<lparr>status = NOT_POSTED\<rparr>" "port_store s = port_store jacks0"
    by (rule client_new_ok [of jacks0 "Some 1" r r junk_client "\<lambda>_. NULL"]) (use r empty_mem_ok in simp_all)
  have "ports_ready bytes cap f s 0 w" using n(4,5,9) by (simp add: ports_ready_def)
  with n show thesis using that by blast
qed

section \<open>The event loop\<close>






section \<open>The process callback\<close>


text \<open>Two ports on the concrete client, with rings of 64 bytes.\<close>

abbreviation two_port_client :: "ptr \<Rightarrow> u8 list jacks \<Rightarrow> bool" where
  "two_port_client this s \<equiv> \<exists>s0. new_client 4 = Some (Inr (this, s0)) \<and>
     register_many (byte_ring 64) (\<lambda>_ _ _. Some 5) junk0 this [(''in'', 1), (''out'', 2)] s0 = Some s"

lemma two_ports:
  obtains this s A B f w where "two_port_client this s" "client_rep A B this s 4 [] 1 f" "client_objects f s"
    "ports_ready (take 64) (\<lambda>_. 64) f s 2 w" "\<forall>i < 2. w i = fresh_view 64 4 0 (Some 5)"
proof -
  obtain this s0 A B f where n: "new_client 4 = Some (Inr (this, s0))"
    "client_rep A B this s0 (unat (4::u32)) [] 1 f" "client_objects f s0"
    "ports_ready (take 64) (\<lambda>_. 64) f s0 0 undefined" "rb_size f = 4"
    by (rule new_client_ready [of 4 "take 64" "\<lambda>_. 64" undefined]) (use that in simp_all)
  have ring: "rb_create (byte_ring 64) (jacks_sample_size * ucast (rb_size f)) = Some []"
    by (simp add: n(5) byte_ring_def jacks_sample_size_def)
  have ok: "ringbuffer_ok (byte_ring 64) (take 64) (\<lambda>_. 64)" by (rule byte_ring_ok) simp
  have n2: "client_rep A B this s0 4 [] 1 f" using n(2) by simp
  let ?reqs = "[(''in'', 1), (''out'', 2)] :: (string \<times> u64) list"
  have two: "(2 :: nat) = length ?reqs" by simp
  obtain s f' w where r:
    "register_many (byte_ring 64) (\<lambda>_ _ _. Some 5) junk0 this ?reqs s0 = Some s"
    "client_rep A B this s 4 [] 1 f'" "ports_ready (take 64) (\<lambda>_. 64) f' s 2 w"
    "\<forall>i < 2. w i = fresh_view 64 4 0 (Some 5)" "client_objects f' s"
    unfolding two
    using register_many_ok [OF ok n2 n(4) ring, of ?reqs "\<lambda>_ _ _. Some 5" junk0] n(3,5)
    by (auto simp: MAX_PORTS_def simp del: register_many.simps)
  show thesis by (rule that [OF _ r(2,5,3,4)]) (use n(1) r(1) in blast)
qed


section \<open>The session protocol\<close>

text \<open>
  C7: A session request is answered exactly once, after the script. With room in the event
  queue, the callback queues the session event behind the events already there and waits; the
  script, taking and completing one event after the other, reaches it as the last; the
  completion releases the callback, which replies to JACK with that session event, frees it,
  and leaves the event object without data and the latch ready for the next request.
\<close>
theorem session_round_trip:
  assumes "client_rep A B this s n xs v f" "client_objects f s" "length xs < n" "set xs \<subseteq> plain_events f"
  shows "\<exists>s1 s'. session_cb_notify event this s = Some s1 \<and>
    JacksEvent_get_data (session_event f) (events s1) = Some event \<and>
    session_cb (answer_many (Suc (length xs)) this) [] event this s = Some s' \<and>
    client_rep A B this s' n [] (sem_up v) f \<and> client_objects f s' \<and>
    JacksEvent_get_data (session_event f) (events s') = Some NULL \<and>
    get_obj (session_latch f) (latches s') = Some \<lparr>status = NOT_POSTED\<rparr> \<and>
    replied (jackd s') = replied (jackd s) @ [event] \<and>
    events_freed (jackd s') = events_freed (jackd s) @ [event]"
proof -
  obtain s1 where s1: "session_cb_notify event this s = Some s1"
    "client_rep A B this s1 n (xs @ [session_event f]) (sem_up v) f"
    "JacksEvent_get_data (session_event f) (events s1) = Some event" "client_objects f s1" "jackd s1 = jackd s"
    by (rule session_notify [OF assms(1,2), of event]) (use that assms(3) in simp)
  obtain s2 where s2: "answer_many (length xs) this s1 = Some s2"
    "client_rep A B this s2 n [session_event f] (sem_up v) f" "others s2 = others s1"
    using answer_many_plain [OF s1(2,4) assms(4)] by blast
  have o2: "client_objects f s2"
    by (rule client_objects_same [OF s1(4)]) (use s2(3) in \<open>simp_all add: others_eq\<close>)
  obtain s3 where s3: "answer this s2 = Some s3" "client_rep A B this s3 n [] (sem_up v) f" "client_objects f s3"
    "get_obj (session_latch f) (latches s3) = Some \<lparr>status = POSTED\<rparr>" "jackd s3 = jackd s2"
    by (rule answer_session [OF s2(2) o2]) (rule that)
  have env: "answer_many (Suc (length xs)) this s1 = Some s3"
    using answer_many_add [of "length xs" "Suc 0" this s1] s2(1) s3(1) by simp
  obtain s' where s': "session_cb_finish [] event this s3 = Some s'" "client_rep A B this s' n [] (sem_up v) f"
    "client_objects f s'" "JacksEvent_get_data (session_event f) (events s') = Some NULL"
    "get_obj (session_latch f) (latches s') = Some \<lparr>status = NOT_POSTED\<rparr>"
    "jackd s' = (jackd s3)\<lparr>replied := replied (jackd s3) @ [event], events_freed := events_freed (jackd s3) @ [event]\<rparr>"
    using session_finish [OF s3(2,3), of event] s3(4) by (auto simp: NOT_POSTED_def)
  have "session_cb (answer_many (Suc (length xs)) this) [] event this s = Some s'"
    using s1(1) env s'(1) by (simp add: session_cb_def del: answer_many.simps)
  moreover have "jackd s3 = jackd s" using s3(5) s2(3) s1(5) by (simp add: others_eq)
  ultimately show ?thesis using s1(1,3) s' by simp
qed

lemma two_port_start:
  obtains this s A B f where "two_port_client this s" "client_rep A B this s 4 [] 1 f" "client_objects f s"
proof -
  obtain this A B f w and s :: "u8 list jacks" where "two_port_client this s" "client_rep A B this s 4 [] 1 f"
    "client_objects f s"
    by (rule two_ports) (rule that)
  then show thesis using that by blast
qed

theorem session_round_trip_witness:
  "\<exists>this s s'. two_port_client this s \<and> session_cb (answer_many 1 this) [] (Some 77) this s = Some s' \<and>
     replied (jackd s') = replied (jackd s) @ [Some 77]"
proof -
  obtain this A B f and s :: "u8 list jacks" where p: "two_port_client this s" "client_rep A B this s 4 [] 1 f"
    "client_objects f s"
    by (rule two_port_start) (rule that)
  obtain s' where "session_cb (answer_many (Suc 0) this) [] (Some 77) this s = Some s'"
    "replied (jackd s') = replied (jackd s) @ [Some 77]"
    using session_round_trip [OF p(2,3), of "Some 77"] by auto
  with p(1) show ?thesis by (simp only: One_nat_def) blast
qed

text \<open>
  C28: A session request on a full queue is never answered. The callback ignores the refusal of
  the queue and waits for a completion that cannot come: however many events the script takes
  and completes, the callback does not return, so JACK never gets its reply.
\<close>
theorem session_on_full_queue_blocks:
  assumes "client_rep A B this s n xs v f" "client_objects f s" "length xs = n" "set xs \<subseteq> plain_events f"
    "get_obj (session_latch f) (latches s) = Some \<lparr>status = NOT_POSTED\<rparr>"
  shows "(\<exists>s1. session_cb_notify event this s = Some s1) \<and>
    session_cb (answer_many k this) [] event this s = None"
proof -
  obtain s1 where s1: "session_cb_notify event this s = Some s1" "client_rep A B this s1 n xs (sem_up v) f"
    "client_objects f s1" "latches s1 = latches s"
    by (rule session_notify [OF assms(1,2), of event]) (use that assms(3) in simp)
  have "Option.bind (answer_many k this s1) (session_cb_finish [] event this) = None"
  proof (cases "k \<le> length xs")
    case True
    have r1: "client_rep A B this s1 n (take k xs @ drop k xs) (sem_up v) f" using s1(2) by simp
    have sub: "set (take k xs) \<subseteq> plain_events f" using assms(4) set_take_subset by fastforce
    obtain s2 where s2: "answer_many (length (take k xs)) this s1 = Some s2"
      "client_rep A B this s2 n (drop k xs) (sem_up v) f" "others s2 = others s1"
      using answer_many_plain [OF r1 s1(3) sub] by blast
    have o2: "client_objects f s2"
      by (rule client_objects_same [OF s1(3)]) (use s2(3) in \<open>simp_all add: others_eq\<close>)
    have "get_obj (session_latch f) (latches s2) \<noteq> Some \<lparr>status = POSTED\<rparr>"
      using assms(5) s1(4) s2(3) by (simp add: others_eq)
    then have "session_cb_finish [] event this s2 = None" using session_finish [OF s2(2) o2, of event] by simp
    moreover have "length (take k xs) = k" using True by simp
    ultimately show ?thesis using s2(1) by simp
  next
    case False
    then obtain j where j: "k = length xs + Suc j" by (metis add_Suc_right less_imp_Suc_add not_le)
    have r1: "client_rep A B this s1 n (xs @ []) (sem_up v) f" using s1(2) by simp
    obtain s2 where s2: "answer_many (length xs) this s1 = Some s2" "client_rep A B this s2 n [] (sem_up v) f"
      using answer_many_plain [OF r1 s1(3) assms(4)] by blast
    have "answer this s2 = None" using get_event_blocks [OF s2(2)] by (simp add: answer_def)
    then show ?thesis using s2(1) by (simp only: j answer_many_add answer_many.simps) simp
  qed
  with s1(1) show ?thesis by (simp add: session_cb_def)
qed

theorem session_on_full_queue_blocks_witness:
  "\<exists>this s0 s. new_client 1 = Some (Inr (this, s0)) \<and> shutdown_cb this s0 = Some s \<and>
     session_cb (answer_many 1 this) [] (Some 77) this s = None"
proof -
  obtain this A B f and s0 :: "u8 list jacks" where n: "new_client 1 = Some (Inr (this, s0))"
    "client_rep A B this s0 (unat (1::u32)) [] 1 f" "client_objects f s0"
    "get_obj (session_latch f) (latches s0) = Some \<lparr>status = NOT_POSTED\<rparr>"
    by (rule new_client_ready [of 1]) (use that in simp_all)
  have rep: "client_rep A B this s0 1 [] 1 f" using n(2) by simp
  obtain c qs where c: "get_obj this (clients s0) = Some c" "fixed c = f" using rep by (rule client_repE)
  obtain s1 s where s: "client_enqueue this (shutdown_event f) s0 = Some (1, s1)" "client_post this s1 = Some s"
    "client_rep A B this s 1 [shutdown_event f] (sem_up 1) f" "others s = others s0"
    by (rule client_notify_rep [OF rep, of "shutdown_event f"]) (use that in simp)
  have run: "shutdown_cb this s0 = Some s"
    using s(1,2) c fixed_sel(9) [OF c(2)] by (simp add: shutdown_cb_def)
  have obj: "client_objects f s"
    by (rule client_objects_same [OF n(3)]) (use s(4) in \<open>simp_all add: others_eq\<close>)
  have latch: "get_obj (session_latch f) (latches s) = Some \<lparr>status = NOT_POSTED\<rparr>"
    using n(4) s(4) by (simp add: others_eq)
  have "session_cb (answer_many 1 this) [] (Some 77) this s = None"
    using session_on_full_queue_blocks [OF s(3) obj _ _ latch, of "Some 77" 1] by (simp add: plain_events_def)
  with n(1) run show ?thesis by blast
qed

text \<open>
  A session event that is completed twice spoils the next request. The second completion
  leaves the latch posted; the next session callback then replies to JACK and frees the event
  although the script has done nothing, and the event object the script will find in the queue
  no longer has any data.
\<close>
lemma session_stale_completion:
  assumes "client_rep A B this s n xs v f" "client_objects f s" "length xs < n"
  shows "\<exists>s1 s'. complete_event (session_event f) s = Some s1 \<and>
    session_cb Some [] event this s1 = Some s' \<and>
    replied (jackd s') = replied (jackd s) @ [event] \<and>
    client_rep A B this s' n (xs @ [session_event f]) (sem_up v) f \<and>
    JacksEvent_get_data (session_event f) (events s') = Some NULL"
proof -
  obtain s1 where s1: "complete_event (session_event f) s = Some s1" "client_objects f s1"
    "get_obj (session_latch f) (latches s1) = Some \<lparr>status = POSTED\<rparr>"
    "clients s1 = clients s" "lfds s1 = lfds s" "jackd s1 = jackd s"
    by (rule complete_session [OF assms(2)]) (rule that)
  have r1: "client_rep A B this s1 n xs v f" by (rule client_rep_same [OF assms(1) s1(4,5)])
  obtain s2 where s2: "session_cb_notify event this s1 = Some s2"
    "client_rep A B this s2 n (xs @ [session_event f]) (sem_up v) f" "client_objects f s2"
    "latches s2 = latches s1" "jackd s2 = jackd s1"
    by (rule session_notify [OF r1 s1(2), of event]) (use that assms(3) in simp)
  obtain s' where "session_cb_finish [] event this s2 = Some s'"
    "client_rep A B this s' n (xs @ [session_event f]) (sem_up v) f"
    "JacksEvent_get_data (session_event f) (events s') = Some NULL"
    "replied (jackd s') = replied (jackd s2) @ [event]"
    using session_finish [OF s2(2,3), of event] s1(3) s2(4) by auto
  with s1(1,6) s2(1,5) show ?thesis by (simp add: session_cb_def)
qed

section \<open>The latch\<close>

text \<open>
  C12: The latch under any interleaving. With any number of threads in \<open>JacksLatch_get\<close> and
  \<open>JacksLatch_post\<close>, spurious wakeups and signals that wake several waiters: at most one
  thread is between lock and unlock; while the flag is posted and a thread sleeps, some thread
  is about to see the flag or to signal it; and as long as a call is neither sleeping nor done,
  some such call can take a step.
\<close>
theorem latch_safe_and_live:
  assumes "latch_reachable s"
  shows "(\<forall>t u. holds_mutex (pcs s t) \<and> holds_mutex (pcs s u) \<longrightarrow> t = u) \<and>
    (flag s = POSTED \<and> sleepers s \<noteq> {} \<longrightarrow> (\<exists>t. attends (pcs s t))) \<and>
    ((\<exists>t. \<not> outside (pcs s t)) \<longrightarrow> (\<exists>u s'. \<not> outside (pcs s u) \<and> latch_step s u s'))"
  using latch_reachable_inv [OF assms] latch_progress [OF assms]
  by (auto simp: mutex_inv_def wakeup_inv_def)

text \<open>A waiter sleeps, then a poster sets the flag.\<close>

definition latch_scene :: "nat latch_sys" where
  "latch_scene = \<lparr>flag = POSTED, owner = Some 1, pcs = (\<lambda>_. Idle)(0 := G_sleep, 1 := P_signal)\<rparr>"

lemma latch_scene_run: "latch_run latch_init [Silent, Silent, Silent, Silent, Silent, Posted] latch_scene"
proof -
  define s0 where "s0 = (latch_init :: nat latch_sys)"
  define s1 where "s1 = goto 0 G_lock s0"
  define s2 where "s2 = goto 0 G_test (s1\<lparr>owner := Some 0\<rparr>)"
  define s3 where "s3 = goto 0 G_sleep (s2\<lparr>owner := None\<rparr>)"
  define s4 where "s4 = goto 1 P_lock s3"
  define s5 where "s5 = goto 1 P_set (s4\<lparr>owner := Some 1\<rparr>)"
  define s6 where "s6 = goto 1 P_signal (s5\<lparr>flag := POSTED\<rparr>)"
  note defs = s6_def s5_def s4_def s3_def s2_def s1_def s0_def latch_init_def
  have 1: "latch_step s0 0 s1" unfolding s1_def by (rule call_get) (simp add: defs)
  have 2: "latch_step s1 0 s2" unfolding s2_def by (rule get_lock) (simp_all add: defs)
  have 3: "latch_step s2 0 s3" unfolding s3_def by (rule get_wait) (simp_all add: defs)
  have 4: "latch_step s3 1 s4" unfolding s4_def by (rule call_post) (simp add: defs)
  have 5: "latch_step s4 1 s5" unfolding s5_def by (rule post_lock) (simp_all add: defs)
  have 6: "latch_step s5 1 s6" unfolding s6_def by (rule post_set) (simp add: defs)
  have "latch_run s0 ((((((([] @ [observe s0 0]) @ [observe s1 0]) @ [observe s2 0]) @ [observe s3 1]) @
      [observe s4 1]) @ [observe s5 1])) s6"
    by (rule run_step [OF run_step [OF run_step [OF run_step [OF run_step [OF run_step [OF run_nil 1] 2] 3] 4] 5] 6])
  moreover have "s6 = latch_scene"
    by (simp add: latch_scene_def defs goto_def fun_eq_iff)
  moreover have "observe s0 0 = Silent" "observe s1 0 = Silent" "observe s2 0 = Silent" "observe s3 1 = Silent"
    "observe s4 1 = Silent" "observe s5 1 = Posted"
    by (simp_all add: observe_def defs)
  ultimately show ?thesis by (simp add: s0_def)
qed

lemma latch_scene_reachable: "latch_reachable latch_scene"
  by (rule latch_run_reachable [OF latch_scene_run latch_reachable.init])

theorem latch_safe_and_live_witness:
  "sleepers latch_scene \<noteq> {} \<and> (\<exists>t. attends (pcs latch_scene t)) \<and> (\<exists>u s'. latch_step latch_scene u s')"
proof -
  have "flag latch_scene = POSTED" "0 \<in> sleepers latch_scene" "\<not> outside (pcs latch_scene 1)"
    by (simp_all add: latch_scene_def sleepers_def)
  with latch_safe_and_live [OF latch_scene_reachable] show ?thesis by blast
qed

text \<open>
  C10: To its callers the latch is one atomic flag. Every step of every run changes the flag as
  the atomic latch does with the event observed (a post sets it, a successful get takes it), so
  in a run from a clear flag the gets that succeeded, and the one a posted flag still allows,
  are at most the posts; and the sequential functions agree: a get after a post returns at
  once, a second get does not.
\<close>
theorem latch_is_atomic_flag:
  assumes "latch_run s es s'" "latch_reachable s" "flag s = NOT_POSTED" "latch_step s' t s''"
  shows "atomic_latch (flag s') (observe s' t) (flag s'') \<and>
    count_list es Taken + (if flag s' = POSTED then 1 else 0) \<le> count_list es Posted \<and>
    (JacksLatch_post p h = Some (rc, h1) \<longrightarrow>
       (\<exists>h2. JacksLatch_get [] p h1 = Some (0, h2) \<and> JacksLatch_get [] p h2 = None))"
  using latch_step_atomic [OF assms(4) latch_run_reachable [OF assms(1,2)]]
    latch_run_counts [OF assms(1-3)] post_then_get by blast

theorem latch_is_atomic_flag_witness:
  "\<exists>s'. latch_step latch_scene 1 s' \<and> atomic_latch POSTED Silent (flag s') \<and>
     count_list [Silent, Silent, Silent, Silent, Silent, Posted] Taken + 1 \<le>
       count_list [Silent, Silent, Silent, Silent, Silent, Posted] Posted"
proof -
  have scene: "flag latch_scene = POSTED" "pcs latch_scene 1 = P_signal" "observe latch_scene 1 = Silent"
    by (simp_all add: latch_scene_def observe_def)
  obtain s' where s': "latch_step latch_scene 1 s'"
    using post_signal [OF scene(2), of "sleepers latch_scene"] by (auto simp: signalled_def)
  have "flag (latch_init :: nat latch_sys) = NOT_POSTED" by (simp add: latch_init_def)
  from latch_is_atomic_flag [OF latch_scene_run latch_reachable.init this s'] scene(1,3) s'
  show ?thesis by auto
qed

section \<open>Ports\<close>

text \<open>
  C8: A port is a bounded byte queue. Whatever the order of process cycles and reads, each
  cycle appends the bytes of the JACK buffer, as many as fit, and reports -1 exactly when some
  did not; each read returns the oldest bytes, as many as the sample buffer holds, and their
  number; and no access leaves a buffer.
\<close>
theorem port_is_a_byte_queue:
  assumes "ringbuffer_ok api bytes cap" "unat s < 2 ^ 31" "port_rep bytes cap this h c s n q"
    "\<forall>x \<in> set ops. whole_samples x" "n + int (length ops) < 2 ^ 31"
  shows "\<exists>h' n'. run_port api this ops h = Some (fst (run_bytes c (unat s) ops q), h') \<and>
    n \<le> n' \<and> n' \<le> n + int (length ops) \<and>
    port_rep bytes cap this h' c s n' (snd (run_bytes c (unat s) ops q)) \<and> length q \<le> c"
  using run_port_bytes [OF assms] port_bounds [OF assms(1,3)] by blast

lemma new_port:
  "\<exists>this h. JacksRbPort_new (byte_ring 16) junk0 (Some 5) (Some 6) 4 empty_store = Some (this, h) \<and>
     port_rep (take 16) (\<lambda>_. 16) this h 16 4 0 []"
proof -
  have ok: "ringbuffer_ok (byte_ring 16) (take 16) (\<lambda>_. 16)" by (rule byte_ring_ok) simp
  have ring: "rb_create (byte_ring 16) (jacks_sample_size * ucast (4::u32)) = Some []"
    by (simp add: byte_ring_def jacks_sample_size_def)
  from port_new_rep [OF ok _ _ ring, of empty_store junk0 "Some 5" "Some 6"]
  show ?thesis by (simp add: empty_store_def) blast
qed

theorem port_is_a_byte_queue_witness:
  "\<exists>this h h'. JacksRbPort_new (byte_ring 16) junk0 (Some 5) (Some 6) 4 empty_store = Some (this, h) \<and>
     run_port (byte_ring 16) this [Cycle (replicate 12 1), Cycle (replicate 8 2), Fetch, Fetch] h =
       Some ([Wrote 0, Wrote (- 1), Got 4 (replicate 4 1), Got 4 (replicate 4 1)], h')"
proof -
  obtain this h where p: "JacksRbPort_new (byte_ring 16) junk0 (Some 5) (Some 6) 4 empty_store = Some (this, h)"
    "port_rep (take 16) (\<lambda>_. 16) this h 16 4 0 []"
    using new_port by blast
  have ok: "ringbuffer_ok (byte_ring 16) (take 16) (\<lambda>_. 16)" by (rule byte_ring_ok) simp
  let ?ops = "[Cycle (replicate 12 1), Cycle (replicate 8 2), Fetch, Fetch]"
  have four: "unat (4::u32) = 4" by simp
  have "fst (run_bytes 16 (unat (4::u32)) ?ops []) =
      [Wrote 0, Wrote (- 1), Got 4 (replicate 4 1), Got 4 (replicate 4 1)]"
    unfolding four by (simp add: eval_nat_numeral)
  with port_is_a_byte_queue [OF ok _ p(2), of ?ops] p(1) show ?thesis by auto
qed

text \<open>
  Without an overrun a port loses nothing and stays aligned. If no cycle reports -1, what
  was read followed by what is still in flight is exactly what was written, in order; and when
  the sample buffer is a whole number of samples, every read returns whole samples.
\<close>
lemma port_lossless_aligned:
  assumes "length q \<le> c" "Wrote (- 1) \<notin> set (fst (run_bytes c s ops q))"
    "s mod 4 = 0" "length q mod 4 = 0" "\<forall>x \<in> set ops. whole_samples x"
  shows "received (fst (run_bytes c s ops q)) @ snd (run_bytes c s ops q) = q @ sent ops \<and>
    (\<forall>len bs. Got len bs \<in> set (fst (run_bytes c s ops q)) \<longrightarrow> length bs mod 4 = 0)"
  using run_bytes_lossless [OF assms(1,2)] run_bytes_aligned [OF assms(3,4,2,5)] by blast

section \<open>Registration, activation, destruction\<close>

text \<open>
  C27: A client takes 999 ports and no more. Registrations return as long as the total stays
  within the port table, every new port has an empty ring for at least the configured number
  of frames and the name and options it was asked for, and the ports registered before are
  unchanged; one registration more has no defined result.
\<close>
theorem registration_up_to_999:
  assumes "client_rep A B this s n xs v f" "ports_ready bytes cap f s k w" "ringbuffer_ok api bytes cap"
    "rb_create api (jacks_sample_size * ucast (rb_size f)) = Some ring"
  shows "if k + length reqs \<le> 999
    then \<exists>s' f' w'. register_many api reg junk this reqs s = Some s' \<and> client_rep A B this s' n xs v f' \<and>
       ports_ready bytes cap f' s' (k + length reqs) w' \<and> (\<forall>i < k. w' i = w i) \<and>
       4 * unat (rb_size f) \<le> Suc (cap ring) \<and>
       (\<forall>i < length reqs. w' (k + i) = fresh_view (cap ring) (rb_size f) (junk_int junk)
          (reg (client f) (fst (reqs ! i)) (snd (reqs ! i))))
    else register_many api reg junk this reqs s = None"
proof -
  have room: "4 * unat (rb_size f) \<le> Suc (cap ring)"
    using ring_create [OF assms(3,4)] by (simp add: sample_bytes)
  note many = register_many_ok [OF assms(3,1,2,4), of reqs reg junk, unfolded MAX_PORTS_def]
  show ?thesis
  proof (cases "k + length reqs \<le> 999")
    case True
    with many room show ?thesis by simp blast
  next
    case False
    with many show ?thesis by simp
  qed
qed

theorem registration_up_to_999_witness:
  "\<exists>this s s'. new_client 4 = Some (Inr (this, s)) \<and>
     register_many (byte_ring 64) (\<lambda>_ _ _. Some 5) junk0 this (replicate 999 (''p'', 0)) s = Some s' \<and>
     register_many (byte_ring 64) (\<lambda>_ _ _. Some 5) junk0 this (replicate 1000 (''p'', 0)) s = None"
proof -
  obtain this A B f and s :: "u8 list jacks" where n: "new_client 4 = Some (Inr (this, s))"
    "client_rep A B this s (unat (4::u32)) [] 1 f"
    "ports_ready (take 64) (\<lambda>_. 64) f s 0 undefined" "rb_size f = 4"
    by (rule new_client_ready [of 4 "take 64" "\<lambda>_. 64" undefined]) (use that in simp_all)
  have ring: "rb_create (byte_ring 64) (jacks_sample_size * ucast (rb_size f)) = Some []"
    by (simp add: n(4) byte_ring_def jacks_sample_size_def)
  have ok: "ringbuffer_ok (byte_ring 64) (take 64) (\<lambda>_. 64)" by (rule byte_ring_ok) simp
  note many = registration_up_to_999 [OF n(2,3) ok ring, where reg = "\<lambda>_ _ _. Some 5" and junk = junk0]
  obtain s' where "register_many (byte_ring 64) (\<lambda>_ _ _. Some 5) junk0 this (replicate 999 (''p'', 0)) s = Some s'"
    using many [of "replicate 999 (''p'', 0)"] by auto
  moreover have "register_many (byte_ring 64) (\<lambda>_ _ _. Some 5) junk0 this (replicate 1000 (''p'', 0)) s = None"
    using many [of "replicate 1000 (''p'', 0)"] by simp
  ultimately show ?thesis using n(1) by blast
qed

text \<open>
  Activation. With audio it installs the process callback, returns what JACK returns and
  can happen once: every later activation returns -1 and changes nothing. Without audio the
  guard is never set, so a second activation reaches JACK again.
\<close>
lemma activation_guard:
  assumes "client_rep A B this s n xs v f" "activated f \<noteq> YES"
  shows "(\<exists>s'. JacksRbClient_activate rc this YES s = Some (rc, s') \<and>
      process_callback (jackd s') = Some this \<and> JacksRbClient_activate rc2 this pa s' = Some (- 1, s')) \<and>
    JacksRbClient_activate rc this NO s = Some (rc, s)"
proof -
  obtain c where c: "get_obj this (clients s) = Some c" "fixed c = f" using assms(1) by (rule client_repE)
  have "activated c \<noteq> YES" using assms(2) fixed_sel(10) [OF c(2)] by simp
  from activate_audio [OF c(1) this] activate_no_audio [OF c(1) this, of NO] show ?thesis
    by (simp add: YES_def NO_def)
qed

text \<open>
  C40: Destroying a client closes it and frees its four events, its latch and itself, each
  once, so that a later call on it has no defined result. It frees neither the event queue nor
  the ports: their memory stays allocated.
\<close>
theorem client_free_and_leak:
  assumes "client_rep A B this s n xs v f" "client_objects f s"
  shows "\<exists>s'. JacksRbClient_free (Some this) s = Some s' \<and> \<not> client_open (jackd s') \<and>
    (\<forall>e \<in> {process_event f, session_event f, sample_rate_event f, shutdown_event f}.
       get_obj e (events s) \<noteq> None \<and> get_obj e (events s') = None) \<and>
    get_obj (session_latch f) (latches s') = None \<and>
    JacksRbClient_get_event env this t s' = None \<and> JacksRbClient_free (Some this) s' = None \<and>
    lfds s' = lfds s \<and> port_store s' = port_store s"
proof -
  obtain s' where s': "JacksRbClient_free (Some this) s = Some s'" "get_obj this (clients s') = None"
    "get_obj (process_event f) (events s') = None" "get_obj (session_event f) (events s') = None"
    "get_obj (sample_rate_event f) (events s') = None" "get_obj (shutdown_event f) (events s') = None"
    "get_obj (session_latch f) (latches s') = None" "\<not> client_open (jackd s')" "lfds s' = lfds s"
    "port_store s' = port_store s"
    using client_free_ok [OF assms] by blast
  have "JacksRbClient_get_event env this t s' = None"
    by (subst JacksRbClient_get_event.simps) (simp add: client_dequeue_def s'(2))
  moreover have "JacksRbClient_free (Some this) s' = None"
    using s'(2) by (cases this) (simp_all add: JacksRbClient_free_def)
  ultimately show ?thesis using s' assms(2) by (auto simp: client_objects_def)
qed

theorem client_free_and_leak_witness:
  "\<exists>this s s'. two_port_client this s \<and> JacksRbClient_free (Some this) s = Some s' \<and>
     JacksRbClient_get_event [] this 0 s' = None \<and> lfds s' = lfds s"
proof -
  obtain this A B f and s :: "u8 list jacks" where p: "two_port_client this s" "client_rep A B this s 4 [] 1 f"
    "client_objects f s"
    by (rule two_port_start) (rule that)
  from client_free_and_leak [OF p(2,3), of "[]" 0] p(1) show ?thesis by blast
qed

section \<open>Latency listeners\<close>

text \<open>A port as \<open>JacksRbPort_new\<close> leaves it, as far as the listeners go.\<close>

definition no_listener :: "ptr \<Rightarrow> 'rb port_T store \<Rightarrow> bool" where
  "no_listener this h \<longleftrightarrow>
     (\<exists>p. get_obj this h = Some p \<and> capture_lat_cb_fd p = (0, 0) \<and> \<not> lat_cb_is_init p)"

text \<open>
  One latency listener per client. When two ports of a client listen, the second takes
  the callback: a capture notification is written to the first port's socket before the second
  port listens, and only to the second port's afterwards.
\<close>
lemma latency_second_port_steals:
  assumes "no_listener this h" "no_listener that h" "this \<noteq> that"
    "fd0 \<noteq> 0" "fd1 \<noteq> 0" "fd2 \<noteq> 0" "fd3 \<noteq> 0"
  shows "\<exists>h1 w1 h2 w2.
    JacksRbPort_init_capture_latency_listener (0, (fd0, fd1)) 0 this h w = Some (fd1, h1, w1) \<and>
    deliver_latency JackCaptureLatency h1 w1 = Some (w1\<lparr>written := written w1 @ [(fd0, CHR ''b'')]\<rparr>) \<and>
    JacksRbPort_init_capture_latency_listener (0, (fd2, fd3)) 0 that h1 w1 = Some (fd3, h2, w2) \<and>
    deliver_latency JackCaptureLatency h2 w2 = Some (w2\<lparr>written := written w2 @ [(fd2, CHR ''b'')]\<rparr>)"
proof -
  obtain p q where p: "get_obj this h = Some p" "capture_lat_cb_fd p = (0, 0)" "\<not> lat_cb_is_init p"
    and q: "get_obj that h = Some q" "capture_lat_cb_fd q = (0, 0)" "\<not> lat_cb_is_init q"
    using assms(1,2) by (auto simp: no_listener_def)
  let ?w1 = "w\<lparr>latency_cb := Some (Latency_listener_fd, this)\<rparr>"
  obtain h1 where h1: "JacksRbPort_init_capture_latency_listener (0, (fd0, fd1)) 0 this h w = Some (fd1, h1, ?w1)"
    "get_obj this h1 = Some (p\<lparr>capture_lat_cb_fd := (fd0, fd1), lat_cb_is_init := True\<rparr>)"
    "\<forall>r. r \<noteq> this \<longrightarrow> get_obj r h1 = get_obj r h"
    using capture_first [OF p HOL.refl assms(5), of fd0 0 w] by auto
  have q1: "get_obj that h1 = Some q" using h1(3) q(1) assms(3) by simp
  let ?w2 = "?w1\<lparr>latency_cb := Some (Latency_listener_fd, that)\<rparr>"
  obtain h2 where h2: "JacksRbPort_init_capture_latency_listener (0, (fd2, fd3)) 0 that h1 ?w1 = Some (fd3, h2, ?w2)"
    "get_obj that h2 = Some (q\<lparr>capture_lat_cb_fd := (fd2, fd3), lat_cb_is_init := True\<rparr>)"
    using capture_first [OF q1 q(2,3) HOL.refl assms(7), of fd2 0 ?w1] by auto
  show ?thesis
    by (intro exI [of _ h1] exI [of _ ?w1] exI [of _ h2] exI [of _ ?w2])
      (simp add: h1(1,2) h2 deliver_latency_def latency_listener_fd_def JackCaptureLatency_def assms(4,6))
qed

text \<open>Two fresh ports.\<close>

definition silent_port :: "u8 list port_T" where
  "silent_port = \<lparr>playback_lat_cb_fd = (0, 0), capture_lat_cb_fd = (0, 0), lat_cb_is_init = False,
     port_rb_size = 4, jport = Some 5, jackclient = Some 6, rb = Some [], framebuf = None, overruns = 0\<rparr>"

definition two_silent :: "u8 list port_T store" where
  "two_silent = empty_store\<lparr>objs := [1 \<mapsto> silent_port, 2 \<mapsto> silent_port]\<rparr>"

lemma two_silent_ports: "no_listener (Some 1) two_silent" "no_listener (Some 2) two_silent"
  by (simp_all add: no_listener_def two_silent_def silent_port_def)

text \<open>
  A failed registration is reported once. When \<open>jack_set_latency_callback\<close> fails the call
  returns -1 but leaves the socket in the port, so every later call returns the descriptor as
  if it had succeeded, whatever JACK would answer, and no callback is ever installed.
\<close>
lemma latency_failure_reported_once:
  assumes "no_listener this h" "rc \<noteq> 0" "fd1 \<noteq> 0"
  shows "\<exists>h1. JacksRbPort_init_capture_latency_listener (0, (fd0, fd1)) rc this h w = Some (- 1, h1, w) \<and>
    JacksRbPort_init_capture_latency_listener sp rc2 this h1 w = Some (fd1, h1, w)"
proof -
  obtain p where p: "get_obj this h = Some p" "capture_lat_cb_fd p = (0, 0)" "\<not> lat_cb_is_init p"
    using assms(1) by (auto simp: no_listener_def)
  obtain h1 where h1: "JacksRbPort_init_capture_latency_listener (0, (fd0, fd1)) rc this h w = Some (- 1, h1, w)"
    "get_obj this h1 = Some (p\<lparr>capture_lat_cb_fd := (fd0, fd1), lat_cb_is_init := False\<rparr>)"
    using capture_first [OF p HOL.refl assms(3), of fd0 rc w] assms(2) by auto
  from capture_again [OF h1(2), of sp rc2 w] h1(1) assms(3) show ?thesis by simp
qed

section \<open>Events and errors\<close>

text \<open>
  The life of an event. A new event has its type, no data and its completion token;
  setting its data is read back and changes neither its type, nor its completion, nor another
  event; completing it calls the token with its argument; and after it is freed every
  operation on it, a second free included, has no defined result.
\<close>
lemma event_life:
  assumes "JacksEvent_new t c arg h = (Some a, h1)" "JacksEvent_set_data (Some a) d h1 = Some h2"
    "JacksEvent_free (Some (Some a)) h2 = Some h3"
  shows "JacksEvent_get_type (Some a) h1 = Some t \<and> JacksEvent_get_data (Some a) h1 = Some NULL \<and>
    JacksEvent_get_type (Some a) h2 = Some t \<and> JacksEvent_get_data (Some a) h2 = Some d \<and>
    (\<forall>q. q \<noteq> Some a \<longrightarrow> JacksEvent_get_data q h2 = JacksEvent_get_data q h1) \<and>
    JacksEvent_complete call (Some a) h2 w = (case c of None \<Rightarrow> Some w | Some f \<Rightarrow> call f arg w) \<and>
    JacksEvent_get_type (Some a) h3 = None \<and> JacksEvent_get_data (Some a) h3 = None \<and>
    JacksEvent_complete call (Some a) h3 w = None \<and> JacksEvent_free (Some (Some a)) h3 = None"
  using new_event_get(1,2) [OF assms(1)] new_event_get(3) [OF assms(1), of call w] set_data_get [OF assms(2)]
    set_data_complete [OF assms(2), of call "Some a" w] freed_event_dead(1,2,5) [OF assms(3)]
    freed_event_dead(4) [OF assms(3), of call w] by simp

text \<open>
  C36: What the scripts see of an error. After any sequence of throws of messages shorter than
  256 characters the error is set and its text is the last message followed by what longer
  earlier messages left; it is the last message exactly when no earlier one was longer.
  Clearing the flag does not clear the text.
\<close>
theorem error_text_overlays:
  assumes "\<forall>m \<in> set (msgs @ [msg]). is_text m"
  shows "\<exists>s buf. throw_all (msgs @ [msg]) exception_init = Some s \<and> check_exception s = Some buf \<and>
    c_string buf = Some (foldl overlay [] (msgs @ [msg])) \<and>
    (c_string buf = Some msg \<longleftrightarrow> (\<forall>m \<in> set msgs. length m \<le> length msg)) \<and>
    check_exception (clear_exception s) = None \<and> error_message (clear_exception s) = buf"
proof -
  obtain s where s: "throw_all (msgs @ [msg]) exception_init = Some s"
    "holds_text s (foldl overlay [] (msgs @ [msg]))" "error_status s = 1"
    using throw_all_holds [OF holds_init assms] by auto
  show ?thesis
    using s holds_text_c_string [OF s(2)] overlays_last [of "[]" msgs msg]
    by (simp add: check_exception_def clear_exception_def)
qed

theorem error_text_overlays_witness:
  "\<exists>s buf. throw_all [''bad port name'', ''no data''] exception_init = Some s \<and> check_exception s = Some buf \<and>
     c_string buf = Some ''no datat name''"
proof -
  have msgs: "[''bad port name'', ''no data''] = [''bad port name''] @ [''no data'']" by simp
  have "\<forall>m \<in> set ([''bad port name''] @ [''no data'']). is_text m" by (simp add: is_text_def)
  from error_text_overlays [OF this] show ?thesis by (simp only: msgs) (auto simp: overlay_def)
qed

text \<open>
  A long error message is not a string. Throwing one of 256 characters or more fills the
  buffer, never more than it, and leaves no terminator: reading the error afterwards runs past
  the end of the buffer.
\<close>
lemma long_error_unterminated:
  assumes "256 \<le> length msg" "length msg < 2 ^ 31" "NUL \<notin> set msg" "length (error_message s) = 256"
  shows "\<exists>s'. throw_exception msg s = Some s' \<and> check_exception s' = Some (take 256 msg) \<and>
    c_string (take 256 msg) = None"
  using throw_eq [OF assms(2,4)] assms
  by (auto simp: check_exception_def c_string_def dest: in_set_takeD)

end
