(* ===== verification/Script_Properties.thy ===== *)
theory Script_Properties
  imports PyWrap_Correct Core_Properties
begin

text \<open>
  The properties of the script side: the type registry and packing of the SWIG runtime, the
  conversion and ownership protocol of the Python wrappers, the sessions and errors as a script
  sees them, and the way of a sample from the JACK callback to the script.
\<close>

section \<open>The type registry\<close>

text \<open>
  C31: The type check is a move-to-front list. It finds the first cast whose type has the name,
  unlinks it and puts it in front of the doubly linked list, whose forward and backward links
  stay consistent; no cast is lost or duplicated, none changes its type or converter.
\<close>
theorem type_check_moves_to_front:
  assumes "casts_rep h ty cs"
    "\<forall>a \<in> set cs. \<exists>c t. ci h a = Some c \<and> ti h (ci_type c) = Some t \<and> ti_name t = Some (nm a)"
  shows "\<exists>h'. SWIG_TypeCheck name (Some ty) h = Some (first_hit (\<lambda>a. nm a = name) cs, h') \<and>
    casts_rep h' ty (hit_to_front (\<lambda>a. nm a = name) cs) \<and>
    mset (hit_to_front (\<lambda>a. nm a = name) cs) = mset cs \<and> cast_data h' = cast_data h"
proof -
  obtain t where t: "ti h ty = Some t" "path (nxt h) (ti_cast t) cs NULL" using assms(1) by (auto simp: casts_rep_def)
  have hit: "hits (name_is name) (\<lambda>a. nm a = name) h cs"
    using assms(2) by (fastforce simp: hits_def name_is_def)
  have "casts_rep h ty ([] @ cs)" "\<forall>a \<in> set []. \<not> nm a = name" using assms(1) by simp_all
  from check_loop_rep [OF this(1) hit this(2) t(2)] show ?thesis
    using t(1) by (auto simp: SWIG_TypeCheck_def hit_to_front_mset)
qed

text \<open>Three casts in a list, the last of type \<open>b\<close>.\<close>

definition three_casts :: swig_heap where
  "three_casts =
     \<lparr>ti = [0 \<mapsto> \<lparr>ti_name = Some ''a'', ti_str = None, ti_cast = Some 10, ti_clientdata = NULL, ti_owndata = 0\<rparr>,
           1 \<mapsto> \<lparr>ti_name = Some ''b'', ti_str = None, ti_cast = NULL, ti_clientdata = NULL, ti_owndata = 0\<rparr>],
      ci = [10 \<mapsto> \<lparr>ci_type = 0, ci_converter = None, ci_next = Some 11, ci_prev = NULL\<rparr>,
            11 \<mapsto> \<lparr>ci_type = 0, ci_converter = None, ci_next = Some 12, ci_prev = Some 10\<rparr>,
            12 \<mapsto> \<lparr>ci_type = 1, ci_converter = None, ci_next = NULL, ci_prev = Some 11\<rparr>]\<rparr>"

theorem type_check_moves_to_front_witness:
  "\<exists>h'. SWIG_TypeCheck ''b'' (Some 0) three_casts = Some (Some 12, h') \<and> casts_rep h' 0 [12, 10, 11]"
proof -
  have rep: "casts_rep three_casts 0 [10, 11, 12]"
    by (simp add: casts_rep_def three_casts_def nxt_def prv_def)
  have names: "\<forall>a \<in> set [10, 11, 12]. \<exists>c t. ci three_casts a = Some c \<and> ti three_casts (ci_type c) = Some t \<and>
      ti_name t = Some (if a = 12 then ''b'' else ''a'')"
    by (simp add: three_casts_def)
  from type_check_moves_to_front [OF rep names, of "''b''"] show ?thesis
    by (auto simp: first_hit_def hit_to_front_def)
qed

text \<open>
  C32: The lookup of a type by its name is correct and ends. On a ring of modules whose tables
  are sorted (and no longer than 2^63), the binary searches return the type of the first module
  that has the name, or null when none has it.
\<close>
theorem type_query_finds:
  assumes "ring_from mods (a # as) a" "\<forall>b \<in> set (a # as). \<exists>names. sorted_table h (table_of mods b) names"
  shows "SWIG_MangledTypeQueryModule h mods a a name =
    Some (first_in_table name (concat (map (\<lambda>b. named_types h (table_of mods b)) (a # as))))"
  by (rule mangled_query_ring [OF assms])

lemma module_ring: "ring_from swig_modules [0] 0" "table_of swig_modules 0 = [0..<14]"
  by (simp_all add: swig_modules_def table_of_def)

lemma sorted_names: "sorted_table swig_heap0 [0..<14] swig_type_names"
proof -
  have len: "length swig_type_names = 14" by (simp add: swig_type_names_def)
  have "sorted_wrt (<) swig_type_names" by (simp add: swig_type_names_def less_char_def)
  with len show ?thesis by (simp add: sorted_table_def swig_heap0_def)
qed

lemma module_names: "named_types swig_heap0 [0..<14] = zip [0..<14] swig_type_names"
  by (rule named_types_zip [OF sorted_names])

theorem type_query_finds_witness:
  "SWIG_MangledTypeQueryModule swig_heap0 swig_modules 0 0 ''_p_char'' = Some (Some SWIGTYPE_p_char) \<and>
   SWIG_MangledTypeQueryModule swig_heap0 swig_modules 0 0 ''_p_int'' = Some NULL"
proof -
  have tabs: "\<forall>b \<in> set [0]. \<exists>names. sorted_table swig_heap0 (table_of swig_modules b) names"
    using sorted_names module_ring(2) by auto
  show ?thesis
    unfolding type_query_finds [OF module_ring(1) tabs]
    by (simp add: module_ring(2) module_names) (simp add: upt_conv_Cons swig_type_names_def SWIGTYPE_p_char_def)
qed

text \<open>
  C33: Packed pointers unpack to themselves. With room for it in the buffer, a pointer and a
  type name are packed into text from which exactly that pointer and that name come back,
  whatever name the unpacker was given; without room nothing is written.
\<close>
theorem pack_pointer_roundtrip:
  assumes "length bytes = 8"
  shows "(length name + 18 \<le> bsz \<longrightarrow>
      (\<exists>buf. SWIG_PackVoidPtr bytes name bsz = Some buf \<and> length buf < bsz \<and>
        SWIG_UnpackVoidPtr buf other = (Some name, bytes))) \<and>
    (\<not> length name + 18 \<le> bsz \<longrightarrow> SWIG_PackVoidPtr bytes name bsz = None)"
proof -
  have "SWIG_UnpackData (SWIG_PackData bytes @ name) 8 = (Some name, bytes)"
    using unpack_pack [of bytes name] assms by simp
  then show ?thesis
    using assms by (auto simp: SWIG_PackVoidPtr_def SWIG_UnpackVoidPtr_def Let_def simp del: SWIG_UnpackData.simps)
qed

theorem pack_pointer_roundtrip_witness:
  "\<exists>buf. SWIG_PackVoidPtr [0x90, 1, 2, 3, 4, 5, 6, 0xff] ''_p_JsPort'' 64 = Some buf \<and>
     SWIG_UnpackVoidPtr buf [] = (Some ''_p_JsPort'', [0x90, 1, 2, 3, 4, 5, 6, 0xff])"
  using pack_pointer_roundtrip [of "[0x90, 1, 2, 3, 4, 5, 6, 0xff]" "''_p_JsPort''" 64 "[]"]
  by (simp del: SWIG_UnpackData.simps) blast

text \<open>
  Comparing a name with a list of names separated by bars is membership, for names without
  blanks; in particular the comparison ends and stays inside both strings.
\<close>
lemma type_equiv_is_membership:
  assumes "plain_name tb" "\<forall>c \<in> set names. plain_name c"
  shows "SWIG_TypeEquiv (bar_join names) tb = Some (if tb \<in> set names then 1 else 0)"
  using equiv_loop_plain [OF assms, of "[]"] by (simp add: SWIG_TypeEquiv_def)

text \<open>
  A trailing blank makes the comparison leave the strings. Two equal names that end in a
  blank are compared past their terminators: skipping the blank reaches the end, the two
  terminators are equal, and the loop, which tests only for the exact end, runs on.
\<close>
lemma type_equiv_trailing_blank:
  "SWIG_TypeEquiv ''int '' ''int '' = None \<and> SWIG_TypeEquiv ''char *'' ''char*'' = Some 1"
  by (simp add: equiv_single run_names)

section \<open>A concrete module state\<close>

definition js0 :: "'rb jacks \<Rightarrow> 'rb js_world" where
  "js0 c = \<lparr>core = c, port_buffers = empty_store, latency_ranges = empty_store, string_lists = empty_store,
     js_ports = empty_store, js_events = empty_store, js_clients = empty_store, session_events = empty_store,
     cstrings = empty_store, errors = exception_init, latency_set = []\<rparr>"

definition py0 :: "'rb js_world \<Rightarrow> (addr \<rightharpoonup> swig_py_object) \<Rightarrow> 'rb py_world" where
  "py0 j ps = \<lparr>js = j, proxies = empty_store\<lparr>objs := ps\<rparr>, rt = swig_heap0, py_err = None\<rparr>"

lemma py0_sel [simp]:
  "js (py0 j ps) = j" "objs (proxies (py0 j ps)) = ps" "rt (py0 j ps) = swig_heap0" "py_err (py0 j ps) = None"
  by (simp_all add: py0_def)

text \<open>A proxy that owns its pointer.\<close>

definition owner :: "ptr \<Rightarrow> addr \<Rightarrow> swig_py_object" where
  "owner p ty = \<lparr>so_ptr = p, so_ty = ty, so_own = 1, so_next = NULL\<rparr>"


text \<open>Answers of JACK for the examples: nothing goes wrong but \<open>jack_connect\<close>.\<close>

definition quiet_api :: "u8 list jack_api" where
  "quiet_api = \<lparr>j_ring = byte_ring 64, j_junk = junk0, j_junk_client = junk_client, j_junk_ports = (\<lambda>_. NULL), j_junk_impl = NULL,
     j_client_open = (\<lambda>_ _ _. Some 1), j_activate = 0, j_port_register = (\<lambda>_ _ _. Some 5),
     j_port_by_name = (\<lambda>_ _. NULL), j_port_name = (\<lambda>_. ''system:in''), j_connect = (\<lambda>_ _ _. 17),
     j_get_ports = (\<lambda>_ _ _ _. None), j_get_latency_range = (\<lambda>_ _. (0, 0)), j_sample_rate = (\<lambda>_. 48000),
     j_client_name = (\<lambda>_. ''synth''), j_transport_query = (\<lambda>_. 0), j_recompute = (\<lambda>_. 0),
     j_socketpair = (0, (3, 4)), j_set_latency_callback = 0\<rparr>"


text \<open>A module state with one port object.\<close>

definition one_port :: "u8 list py_world" where
  "one_port = py0 ((js0 (jacks0\<lparr>port_store := empty_store\<lparr>objs := [3 \<mapsto> silent_port]\<rparr>\<rparr>))
       \<lparr>js_ports := empty_store\<lparr>objs := [2 \<mapsto> \<lparr>jp_impl = Some 3, jp_clientimpl = Some 1\<rparr>]\<rparr>\<rparr>)
     [1 \<mapsto> owner (Some 2) SWIGTYPE_p_JsPort, 4 \<mapsto> owner (Some 2) SWIGTYPE_p_JsEvent]"


text \<open>A session event of JACK behind proxy 4, and an event without data behind proxy 5.\<close>

definition quit_request :: jack_session_event_T where
  "quit_request = \<lparr>se_type = 2, session_dir = CStatic ''/tmp/s/'', client_uuid = CStatic ''17'',
     command_line = CNULL, se_flags = 0\<rparr>"

definition session_scene :: "u8 list py_world" where
  "session_scene = py0 ((js0 (jacks0\<lparr>events := empty_store\<lparr>objs :=
       [8 \<mapsto> (plain_event 1)\<lparr>event_data := Some 9\<rparr>, 10 \<mapsto> plain_event 0]\<rparr>\<rparr>))
       \<lparr>js_events := empty_store\<lparr>objs := [2 \<mapsto> \<lparr>jv_impl = Some 8\<rparr>, 3 \<mapsto> \<lparr>jv_impl = Some 10\<rparr>]\<rparr>,
        session_events := empty_store\<lparr>objs := [9 \<mapsto> quit_request]\<rparr>\<rparr>)
     [4 \<mapsto> owner (Some 2) SWIGTYPE_p_JsEvent, 5 \<mapsto> owner (Some 3) SWIGTYPE_p_JsEvent]"


lemma session_scene_proxy: "session_proxy 4 (Some 9) quit_request session_scene"
  "always_alloc (cstrings (js session_scene))"
  by (simp_all add: session_proxy_def session_scene_def js0_def owner_def JacksEvent_get_data_def)


section \<open>Arguments\<close>



text \<open>
  Integers are checked against the C type, unless they are too large for \<open>long\<close>. Session
  flags that fit an \<open>int\<close> are stored and read back; others that fit a \<open>long\<close> are an
  \<open>OverflowError\<close> and change nothing; but an integer beyond \<open>long\<close> is stored as -1, with
  the interpreter's exception left pending behind a result that says success.
\<close>
lemma flags_argument_range:
  assumes "session_proxy v se s w"
  shows "(- (2 ^ 31) \<le> n \<and> n < 2 ^ 31 \<longrightarrow>
      (\<exists>w1 w2. wrap_JsEvent_setSessionEventFlags [PyProxy v, PyInt n] w = Some (Returned (Some PyNone), w1) \<and>
        py_err w1 = py_err w \<and>
        wrap_JsEvent_getSessionEventFlags [PyProxy v] w1 = Some (Returned (Some (PyInt n)), w2))) \<and>
    (long_min \<le> n \<and> n \<le> long_max \<and> \<not> (- (2 ^ 31) \<le> n \<and> n < 2 ^ 31) \<longrightarrow>
      wrap_JsEvent_setSessionEventFlags [PyProxy v, PyInt n] w = Some (Returned None, w\<lparr>py_err :=
        Some (OverflowError, arg_message (''JsEvent_setSessionEventFlags'', ''2'', ''jack_session_flags_t''))\<rparr>)) \<and>
    (\<not> (long_min \<le> n \<and> n \<le> long_max) \<longrightarrow>
      (\<exists>w1 w2. wrap_JsEvent_setSessionEventFlags [PyProxy v, PyInt n] w = Some (Returned (Some PyNone), w1) \<and>
        py_err w1 = Some (OverflowError, ''Python int too large to convert to C long'') \<and>
        wrap_JsEvent_getSessionEventFlags [PyProxy v] w1 = Some (Returned (Some (PyInt (- 1))), w2)))"
proof -
  let ?err = "Some (OverflowError, ''Python int too large to convert to C long'')"
  have small: "- (2 ^ 31) \<le> n \<and> n < 2 ^ 31 \<Longrightarrow> SWIG_AsVal_int (PyInt n) w = (0, n, w\<lparr>py_err := py_err w\<rparr>)"
    unfolding as_val_int by simp
  have mid: "long_min \<le> n \<and> n \<le> long_max \<and> \<not> (- (2 ^ 31) \<le> n \<and> n < 2 ^ 31) \<Longrightarrow>
      SWIG_AsVal_int (PyInt n) w = (- 7, 0, w)"
    unfolding as_val_int by (simp only: simp_thms if_False if_True)
  have big: "\<not> (long_min \<le> n \<and> n \<le> long_max) \<Longrightarrow>
      SWIG_AsVal_int (PyInt n) w = (0, - 1, w\<lparr>py_err := ?err\<rparr>)"
    unfolding as_val_int by (auto simp: long_min_def long_max_def)
  obtain x where x: "objs (proxies w) v = Some x" "so_ty x = SWIGTYPE_p_JsEvent"
    using assms by (auto simp: session_proxy_def)
  have "wrap_JsEvent_setSessionEventFlags [PyProxy v, PyInt n] w = Some (Returned None, w\<lparr>py_err :=
        Some (OverflowError, arg_message (''JsEvent_setSessionEventFlags'', ''2'', ''jack_session_flags_t''))\<rparr>)"
    if "SWIG_AsVal_int (PyInt n) w = (- 7, 0, w)"
    using that by (simp add: wrap_JsEvent_setSessionEventFlags_def arg_ptr_own(1) [OF x] arg_val_def SWIG_IsOK_def
        arg_fail_def SWIG_Error_def SWIG_ArgError_def SWIG_ErrorType_def)
  with mid session_flags_back [OF assms small] session_flags_back [OF assms big] show ?thesis by blast
qed

section \<open>Errors\<close>

text \<open>
  C26: How a failing call reaches the script. When JACK refuses a connection the script gets a
  \<open>RuntimeError\<close>, whose text is the message laid over whatever text an earlier error left;
  when JACK accepts, the result is 0, no exception is set, and an error that was pending in the
  library before the call is forgotten.
\<close>
theorem connect_reports_errors:
  assumes "objs (proxies w) u = Some x" "so_ty x = SWIGTYPE_p_JsPort" "so_ptr x = Some a"
    "objs (proxies w) v = Some y" "so_ty y = SWIGTYPE_p_JsPort" "so_ptr y = Some b"
    "objs (js_ports (js w)) a = Some jp" "get_obj (jp_impl jp) (port_store (core (js w))) = Some pa"
    "objs (js_ports (js w)) b = Some jq" "get_obj (jp_impl jq) (port_store (core (js w))) = Some pb"
    "JacksRbClient_get_client (jackclient pa) (clients (core (js w))) = Some cl" "holds_text (errors (js w)) held"
  shows "\<exists>w'. core (js w') = core (js w) \<and>
    (if j_connect api cl (j_port_name api (jport pa)) (j_port_name api (jport pb)) = 0
     then wrap_JsPort_connect api [PyProxy u, PyProxy v] w = Some (Returned (Some (PyInt 0)), w') \<and>
       py_err w' = py_err w \<and> check_exception (errors (js w')) = None
     else wrap_JsPort_connect api [PyProxy u, PyProxy v] w = Some (Returned None, w') \<and>
       py_err w' = Some (RuntimeError, overlay held ''can not connect ports''))"
proof -
  let ?rc = "j_connect api cl (j_port_name api (jport pa)) (j_port_name api (jport pb))"
  have ok: "wrap_JsPort_connect api [PyProxy u, PyProxy v] w =
      Option.bind (JsPort_connect api (Some a) (Some b) (cleared w))
        (\<lambda>called. after_call called (\<lambda>result. return_obj (SWIG_From_int result) []) w)"
    using assms(3,6) by (simp add: wrap_JsPort_connect_def arg_ptr_own [OF assms(1,2)] arg_ptr_own [OF assms(4,5)]
        guarded_def)
  have rc: "JacksRbPort_connect (j_connect api) (j_port_name api) (core_client (cleared w)) (jp_impl jp) (jp_impl jq)
      (port_store (core (cleared w))) = Some (if ?rc \<noteq> 0 then - 1 else 0)"
    using assms(8,10,11) by (simp add: JacksRbPort_connect_def core_client_def)
  show ?thesis
  proof (cases "?rc = 0")
    case True
    then have "JsPort_connect api (Some a) (Some b) (cleared w) = Some (0, cleared w)"
      using rc assms(7,9) by (simp add: JsPort_connect_def)
    then have "wrap_JsPort_connect api [PyProxy u, PyProxy v] w = Some (Returned (Some (PyInt 0)), w\<lparr>js := cleared w\<rparr>)"
      by (simp add: ok after_call_ok cleared_status return_obj_def SWIG_From_int_def)
    with True show ?thesis by (auto simp: check_exception_def cleared_status)
  next
    case False
    have "holds_text (errors (cleared w)) held"
      using assms(12) by (simp add: cleared_def clear_exception_def holds_text_def)
    moreover have "is_text ''can not connect ports''" by (simp add: is_text_def)
    ultimately obtain e where e: "throw_exception ''can not connect ports'' (errors (cleared w)) = Some e"
      "holds_text e (overlay held ''can not connect ports'')" "error_status e = 1"
      using throw_holds by blast
    let ?j = "(cleared w)\<lparr>errors := e\<rparr>"
    have "JsPort_connect api (Some a) (Some b) (cleared w) = Some (- 1, ?j)"
      using rc assms(7,9) False e(1) by (simp add: JsPort_connect_def js_throw_def)
    then have "wrap_JsPort_connect api [PyProxy u, PyProxy v] w =
        Some (Returned None, w\<lparr>js := ?j, py_err := Some (RuntimeError, overlay held ''can not connect ports'')\<rparr>)"
      using e(3) holds_text_c_string [OF e(2)] by (simp add: ok after_call_error)
    with False show ?thesis by (simp add: overlay_def)
  qed
qed

text \<open>The port connected to itself, after a longer error; the client is number 6.\<close>

definition failing_scene :: "u8 list py_world" where
  "failing_scene = one_port\<lparr>js := (js one_port)\<lparr>errors := the (throw_exception ''can not init playback latency callback'' exception_init),
     core := (core (js one_port))\<lparr>clients := empty_store\<lparr>objs := [6 \<mapsto> junk_client]\<rparr>\<rparr>\<rparr>\<rparr>"

theorem connect_reports_errors_witness:
  "\<exists>w'. wrap_JsPort_connect quiet_api [PyProxy 1, PyProxy 1] failing_scene = Some (Returned None, w') \<and>
     py_err w' = Some (RuntimeError, ''can not connect ports latency callback'')"
proof -
  have held: "holds_text (errors (js failing_scene)) ''can not init playback latency callback''"
    using throw_holds [OF holds_init, of "''can not init playback latency callback''"]
    by (auto simp: is_text_def overlay_def failing_scene_def)
  have w: "objs (proxies failing_scene) 1 = Some (owner (Some 2) SWIGTYPE_p_JsPort)"
    "objs (js_ports (js failing_scene)) 2 = Some \<lparr>jp_impl = Some 3, jp_clientimpl = Some 1\<rparr>"
    "get_obj (jp_impl \<lparr>jp_impl = Some 3, jp_clientimpl = Some 1\<rparr>) (port_store (core (js failing_scene))) = Some silent_port"
    "JacksRbClient_get_client (jackclient silent_port) (clients (core (js failing_scene))) = Some NULL"
    by (simp_all add: failing_scene_def one_port_def js0_def silent_port_def JacksRbClient_get_client_def junk_client_def)
  show ?thesis
    using connect_reports_errors [OF w(1) _ _ w(1) _ _ w(2,3,2,3,4) held, of quiet_api]
    by (auto simp: owner_def quiet_api_def overlay_def)
qed

text \<open>
  Session accessors of other events crash instead of raising. On an event whose data is
  null, as every event but a pending session request is, the accessors throw "not a session
  event" and then use the null pointer all the same, so the call has no defined result and the
  exception never reaches the script; only \<open>getData\<close> returns \<open>None\<close>.
\<close>
lemma session_getters_without_data:
  assumes "objs (proxies w) v = Some x" "so_ty x = SWIGTYPE_p_JsEvent" "so_ptr x = Some p"
    "objs (js_events (js w)) p = Some jv" "JacksEvent_get_data (jv_impl jv) (events (core (js w))) = Some NULL"
  shows "wrap_JsEvent_getSessionEventType [PyProxy v] w = None \<and> wrap_JsEvent_getSessionDir [PyProxy v] w = None \<and>
    wrap_JsEvent_getClientUuid [PyProxy v] w = None \<and> wrap_JsEvent_getCommandLine [PyProxy v] w = None \<and>
    wrap_JsEvent_getSessionEventFlags [PyProxy v] w = None \<and>
    wrap_JsEvent_setSessionEventFlags [PyProxy v, PyInt 0] w = None \<and>
    wrap_JsEvent_getData [PyProxy v] w = Some (Returned (Some PyNone), w\<lparr>js := cleared w\<rparr>)"
proof -
  have s: "session_of (Some p) (cleared w) = None"
    using assms(4,5) by (cases "js_throw ''not a session event'' (cleared w)") (simp_all add: session_of_def)
  have d: "JsEvent_getData (Some p) (cleared w) = Some NULL" using assms(4,5) by (simp add: JsEvent_getData_def)
  have z: "- (2 ^ 31) \<le> (0::int)" "(0::int) < 2 ^ 31" by simp_all
  have i: "SWIG_AsVal_int (PyInt 0) w = (0, 0, w)" unfolding as_val_int using z by simp
  note defs = arg_ptr_own(1) [OF assms(1,2)] assms(3) guarded_def changes_def s
  show ?thesis
    by (simp add: defs wrap_JsEvent_getSessionEventType_def JsEvent_getSessionEventType_def
        wrap_JsEvent_getSessionDir_def JsEvent_getSessionDir_def wrap_JsEvent_getClientUuid_def JsEvent_getClientUuid_def
        wrap_JsEvent_getCommandLine_def JsEvent_getCommandLine_def wrap_JsEvent_getSessionEventFlags_def
        JsEvent_getSessionEventFlags_def wrap_JsEvent_setSessionEventFlags_def JsEvent_setSessionEventFlags_def
        arg_val_def i SWIG_IsOK_def wrap_JsEvent_getData_def d reads_def after_call_ok cleared_status return_ptr_def
        SWIG_NewPointerObj_def)
qed

section \<open>Strings of a session\<close>

text \<open>
  C37: A script reads back the command line it set, but not the session directory. The command
  line is copied and comes back as it was; the directory keeps the pointer to the converted
  argument, which the wrapper frees before it returns, so reading it back is a use after free.
\<close>
theorem session_strings:
  assumes "session_proxy v se s w" "always_alloc (cstrings (js w))" "NUL \<notin> set text" "length text < 2 ^ 31"
  shows "(\<exists>w1 w2. wrap_JsEvent_setCommandLine [PyProxy v, PyStr text] w = Some (Returned (Some PyNone), w1) \<and>
      wrap_JsEvent_getCommandLine [PyProxy v] w1 = Some (Returned (Some (PyStr text)), w2)) \<and>
    (\<exists>w1. wrap_JsEvent_setSessionDir [PyProxy v, PyStr text] w = Some (Returned (Some PyNone), w1) \<and>
      wrap_JsEvent_getSessionDir [PyProxy v] w1 = None)"
proof -
  let ?a = "next_addr (cstrings (js w))"
  let ?h = "pushed_string text (cstrings (js w))"
  let ?c = "s\<lparr>command_line := CHeap (Suc ?a)\<rparr>"
  let ?d = "s\<lparr>session_dir := CHeap ?a\<rparr>"
  have take: "c_string (text @ [NUL]) = Some text" by (rule take_text [OF assms(3)])
  have "objs (pushed_string text ?h) (Suc ?a) = Some (text @ [NUL])"
    by simp
  then have "return_str (CHeap (Suc ?a)) [] w' = Some (Returned (Some (PyStr text)), w')"
    if "cstrings (js w') = dropped_string ?a (pushed_string text ?h)" for w' :: "'a py_world"
    using that take assms(4)
    by (simp add: return_str_def SWIG_FromCharPtr_def read_chars_def dropped_string_def return_obj_def)
  then have "\<exists>w2. wrap_JsEvent_getCommandLine [PyProxy v] (session_put se ?c (dropped_string ?a (pushed_string text ?h)) w) =
      Some (Returned (Some (PyStr text)), w2)"
    by (simp add: session_get(3) [OF session_proxy_put [OF assms(1)]])
  moreover have "return_str (CHeap ?a) [] w' = None" if "cstrings (js w') = dropped_string ?a ?h" for w' :: "'a py_world"
    using that by (simp add: return_str_def SWIG_FromCharPtr_def read_chars_def dropped_string_def)
  then have "wrap_JsEvent_getSessionDir [PyProxy v] (session_put se ?d (dropped_string ?a ?h) w) = None"
    by (simp add: session_get(1) [OF session_proxy_put [OF assms(1)]])
  ultimately show ?thesis
    using session_set_command [OF assms(1-3)] session_set_dir [OF assms(1,2), of "text"] by auto
qed


theorem session_strings_witness:
  "\<exists>w1 w2 w3. wrap_JsEvent_setCommandLine [PyProxy 4, PyStr ''synth -s''] session_scene = Some (Returned (Some PyNone), w1) \<and>
     wrap_JsEvent_getCommandLine [PyProxy 4] w1 = Some (Returned (Some (PyStr ''synth -s'')), w2) \<and>
     wrap_JsEvent_setSessionDir [PyProxy 4, PyStr ''synth -s''] session_scene = Some (Returned (Some PyNone), w3) \<and>
     wrap_JsEvent_getSessionDir [PyProxy 4] w3 = None"
  using session_strings [OF session_scene_proxy, of "''synth -s''"] by simp


section \<open>Ownership\<close>

text \<open>
  C16: A port is destroyed once. Whether the script deletes it or its proxy is collected, the
  port object and its port are freed; a deleted proxy owns nothing, so collecting it later
  frees nothing more, and deleting it again would be a use after free.
\<close>
theorem port_destroyed_once:
  fixes w :: "'rb py_world"
  assumes "objs (proxies w) v = Some x" "so_ty x = SWIGTYPE_p_JsPort" "so_ptr x = Some p" "so_own x = 1"
    "objs (js_ports (js w)) p = Some jp" "get_obj (jp_impl jp) (port_store (core (js w))) = Some impl"
    "always_alloc (proxies w)" "v \<noteq> next_addr (proxies w)"
  shows "\<exists>w1 w2 w3.
    wrap_delete_JsPort [PyProxy v] w = Some (Returned (Some PyNone), w1) \<and>
    js w1 = without_port p jp (cleared w) \<and>
    wrap_delete_JsPort [PyProxy v] w1 = None \<and>
    SwigPyObject_dealloc swig_destroy v w1 = Some w2 \<and> js w2 = js w1 \<and>
    SwigPyObject_dealloc swig_destroy v w = Some w3 \<and> js w3 = without_port p jp (cleared w) \<and>
    objs (proxies w2) v = None \<and> objs (proxies w3) v = None"
proof -
  define w1 where "w1 = (disowned v w)\<lparr>js := without_port p jp (cleared w)\<rparr>"
  have run: "wrap_delete_JsPort [PyProxy v] w = Some (Returned (Some PyNone), w1)"
    unfolding w1_def by (rule delete_wrapper [OF assms(1-3,5,6)])
  have own1: "objs (proxies w1) v = Some (x\<lparr>so_own := 0\<rparr>)" using assms(1) by (simp add: w1_def)
  have again: "wrap_delete_JsPort [PyProxy v] w1 = None"
  proof -
    have "delete_JsPort (Some p) (cleared (disowned v w1)) = None"
      by (simp add: delete_JsPort_def w1_def without_port_def)
    then show ?thesis
      using own1 assms(2,3) arg_ptr_own(2) [OF own1, of SWIGTYPE_p_JsPort]
      by (simp add: wrap_delete_JsPort_def guarded_def changes_def)
  qed
  define w2 where "w2 = w1\<lparr>proxies := (proxies w1)\<lparr>objs := (objs (proxies w1))(v := None)\<rparr>\<rparr>"
  have gc1: "SwigPyObject_dealloc swig_destroy v w1 = Some w2"
    using own1 by (simp add: SwigPyObject_dealloc_def free_obj_def w2_def)
  define t where "t = next_addr (proxies w)"
  define tmp where "tmp = \<lparr>so_ptr = so_ptr x, so_ty = so_ty x, so_own = 0, so_next = NULL\<rparr>"
  obtain wt where new: "SwigPyObject_New (so_ptr x) (so_ty x) 0 w = (Some t, wt)" "js wt = js w"
    "objs (proxies wt) = (objs (proxies w))(t \<mapsto> tmp)" "cleared wt = cleared w"
    using always_new [OF assms(7)] by (simp add: SwigPyObject_New_def t_def tmp_def cleared_def)
  have vt: "v \<noteq> t" using assms(8) by (simp add: t_def)
  have tmp: "objs (proxies wt) t = Some tmp" "so_ty tmp = SWIGTYPE_p_JsPort" "so_ptr tmp = Some p"
    using new(3) assms(2,3) by (simp_all add: tmp_def)
  define wd where "wd = (disowned t wt)\<lparr>js := without_port p jp (cleared w)\<rparr>"
  have run2: "wrap_delete_JsPort [PyProxy t] wt = Some (Returned (Some PyNone), wd)"
    using delete_wrapper [OF tmp, of jp impl] assms(5,6) new(2,4) by (simp add: wd_def)
  have wd: "objs (proxies wd) t = Some (tmp\<lparr>so_own := 0\<rparr>)" "objs (proxies wd) v = Some x"
    using tmp(1) new(3) assms(1) vt by (simp_all add: wd_def)
  have dest: "(swig_destroy (so_ty x) :: (py_obj list \<Rightarrow> 'rb py_world \<Rightarrow> 'rb outcome) option) = Some wrap_delete_JsPort"
    by (simp add: swig_destroy_def assms(2) SWIGTYPE_p_JsPort_def SWIGTYPE_p_JsClient_def SWIGTYPE_p_JsEvent_def
        SWIGTYPE_p_JsLatencyRange_def)
  define w3 where "w3 = wd\<lparr>proxies := (proxies wd)\<lparr>objs := (objs (proxies wd))(t := None, v := None)\<rparr>\<rparr>"
  have gc: "SwigPyObject_dealloc swig_destroy v w = Some w3"
    using assms(1,4) dest new(1) run2 wd vt by (simp add: SwigPyObject_dealloc_def free_obj_def w3_def)
  show ?thesis
    using run again gc1 gc by (auto simp: w1_def w2_def w3_def wd_def)
qed

theorem port_destroyed_once_witness:
  "\<exists>w1 w2. wrap_delete_JsPort [PyProxy 1] one_port = Some (Returned (Some PyNone), w1) \<and>
     objs (js_ports (js w1)) 2 = None \<and> objs (port_store (core (js w1))) 3 = None \<and>
     SwigPyObject_dealloc swig_destroy 1 w1 = Some w2 \<and> js w2 = js w1"
proof -
  have w: "objs (proxies one_port) 1 = Some (owner (Some 2) SWIGTYPE_p_JsPort)"
    "objs (js_ports (js one_port)) 2 = Some \<lparr>jp_impl = Some 3, jp_clientimpl = Some 1\<rparr>"
    "get_obj (jp_impl \<lparr>jp_impl = Some 3, jp_clientimpl = Some 1\<rparr>) (port_store (core (js one_port))) = Some (silent_port)"
    "always_alloc (proxies one_port)" "1 \<noteq> next_addr (proxies one_port)"
    by (simp_all add: one_port_def py0_def js0_def) (simp add: empty_store_def)
  show ?thesis
    using port_destroyed_once [OF w(1) _ _ _ w(2-5)] by (fastforce simp: owner_def without_port_def)
qed


section \<open>From the callback to the script\<close>




end
