(* ===== verification/Ruby_Properties.thy ===== *)
theory Ruby_Properties
  imports RubyWrap_Calls Script_Properties
begin

text \<open>
  The properties of the Ruby module: what loading builds, which objects are refused, the agreement
  with the Python module, and who frees what.
\<close>

section \<open>Loading\<close>


text \<open>An interpreter with some library objects and the data objects for them.\<close>

definition ruby_start :: "'rb js_world \<Rightarrow> (addr \<rightharpoonup> swig_rb_object) \<Rightarrow> 'rb rb_world" where
  "ruby_start j os = \<lparr>rjs = j, robjs = \<lparr>objs = os, next_addr = 100, alloc_calls = 0, alloc_ok = \<lambda>_. True\<rparr>,
     rrun = interpreter0, rclasses = Map.empty, rdefs = Map.empty, rconsts = Map.empty, rpointers = [], rtrackings = Map.empty\<rparr>"


section \<open>Receivers\<close>

text \<open>The module as loading leaves it, with some library objects and the data objects for them.\<close>

definition rb0 :: "'rb js_world \<Rightarrow> (addr \<rightharpoonup> swig_rb_object) \<Rightarrow> 'rb rb_world" where
  "rb0 j os = fold class_defined ruby_classes (before_classes (\<lambda>_. 7) (ruby_start j os))"

lemma rb0_simps [simp]:
  "rjs (rb0 j os) = j" "objs (robjs (rb0 j os)) = os" "next_addr (robjs (rb0 j os)) = 100" "always_alloc (robjs (rb0 j os))"
  by (simp_all add: rb0_def fold_class_defined before_classes_def ruby_start_def always_alloc_def)

lemma rb0_loaded: "ruby_loaded (rb0 j os)" "untracked (rb0 j os)"
proof -
  let ?w = "before_classes (\<lambda>_. 7) (ruby_start j os)"
  show "ruby_loaded (rb0 j os)"
    unfolding rb0_def
    by (rule classes_loaded) (simp_all add: before_classes_def ruby_runtime0_def module_types0, simp add: swig_heap0_def)
  have "untracked ?w" by (simp add: untracked_def before_classes_def ruby_start_def)
  then show "untracked (rb0 j os)" unfolding rb0_def by (rule untracked_classes)
qed

text \<open>The answers of the interpreter for the examples.\<close>

definition ruby_answers :: "u8 list rb_api" where
  "ruby_answers = \<lparr>r_jack = quiet_api, r_env = [], r_classname = (\<lambda>_. ''Object''), r_inspect = (\<lambda>_. ''#<Object>'')\<rparr>"

text \<open>A port behind data object 1, an object of class \<open>JsPort\<close> without one behind 2.\<close>

definition ruby_port_scene :: "u8 list rb_world" where
  "ruby_port_scene = rb0 (js one_port) [1 \<mapsto> borrowed [''JsPort''] 2 SWIGTYPE_p_JsPort,
     2 \<mapsto> blank_object [''Speaker'', ''JsPort''] SWIGTYPE_p_JsPort ''JsPort'']"

lemma port_class: "\<exists>methods. (SWIGTYPE_p_JsPort, ''JsPort'', methods) \<in> set ruby_classes \<and> (''connect'', ''_wrap_JsPort_connect'') \<in> set methods"
  by (simp add: ruby_classes_def)

text \<open>
  C24: An object without a pointer never reaches the library. On an object of any class of the module
  (or of a class a script derives from it) whose pointer is null, because it was allocated and not
  initialized or because \<open>initialize\<close> raised, every method raises \<open>ObjectPreviouslyDeleted\<close>,
  or an argument error when the number of arguments is not the method's; nothing changes.
\<close>
theorem ruby_blank_receiver_refused:
  assumes "ruby_loaded w" "(c, name, methods) \<in> set ruby_classes" "(m, f) \<in> set methods" "m \<noteq> ''initialize''"
    "objs (robjs w) a = Some x" "instance_of name w (ro_kinds x)" "ro_data x = NULL"
  shows "\<exists>n. \<forall>argv. \<exists>msg. rb_send R (RData a) m argv w =
    Some (RRaised (if length argv = n then ObjectPreviouslyDeleted else rb_eArgError) msg, w)"
proof -
  obtain n where n: "takes_self R c n (rb_call R f)" using class_method_takes_self [OF assms(2-4)] by blast
  have "name \<in> set (ro_kinds x)" using assms(6) by (auto simp: instance_of_def)
  then have "\<exists>msg. rb_arg_ptr R (RData a) c who k w = Some (RRaised ObjectPreviouslyDeleted msg, w)" for who k
    using rb_arg_instance(2) [OF assms(1,2,5)] assms(7) rb_arg_fail_raises(1) by simp
  note refused = refused_receiver [OF n this]
  have "rb_send R (RData a) m argv w = rb_call R f argv (RData a) w" for argv
    using assms(5) method_found(1) [OF assms(1-3,6)] by (simp add: rb_send_def)
  then show ?thesis using refused by metis
qed

theorem ruby_blank_receiver_refused_witness:
  "\<exists>n. \<forall>argv. \<exists>msg. rb_send ruby_answers (RData 2) ''connect'' argv ruby_port_scene =
     Some (RRaised (if length argv = n then ObjectPreviouslyDeleted else rb_eArgError) msg, ruby_port_scene)"
proof -
  obtain methods where cls: "(SWIGTYPE_p_JsPort, ''JsPort'', methods) \<in> set ruby_classes"
    "(''connect'', ''_wrap_JsPort_connect'') \<in> set methods" using port_class by blast
  have x: "objs (robjs ruby_port_scene) 2 = Some (blank_object [''Speaker'', ''JsPort''] SWIGTYPE_p_JsPort ''JsPort'')"
    by (simp add: ruby_port_scene_def)
  have "rdefs ruby_port_scene ''Speaker'' = None"
    by (simp add: ruby_port_scene_def rb0_def fold_class_defined before_classes_def ruby_start_def ruby_classes_def)
  then have "instance_of ''JsPort'' ruby_port_scene [''Speaker'', ''JsPort'']"
    unfolding instance_of_def by (intro exI [of _ "[''Speaker'']"] exI [of _ "[]"]) simp
  then show ?thesis
    by (intro ruby_blank_receiver_refused [OF _ cls _ x]) (simp_all add: blank_object_def ruby_port_scene_def rb0_loaded)
qed

section \<open>Both languages\<close>

text \<open>
  C22: The Ruby and the Python module do the same. For each method without arguments (those that return
  strings apart), called on objects for the same thing in the same state of the library, both calls
  are undefined, or both return the same: nothing, the same number, or an object of the same type for
  the same thing, which neither owns; or both raise the error of the library, except that Ruby takes
  its text for a format, so that with a directive in it the Ruby call is undefined. They leave
  the library in the same state.
\<close>
theorem python_ruby_agree:
  assumes "((c, name), p, l) \<in> set (rb_shared_methods R)" "js pw = rjs rw"
    "objs (proxies pw) v = Some x" "so_ty x = c" "so_ptr x = Some q"
    "objs (robjs rw) a = Some u" "name \<in> set (ro_kinds u)" "ro_data u = Some q"
    "always_alloc (proxies pw)" "always_alloc (robjs rw)" "module_types (rt pw)" "ruby_loaded rw"
  shows "rb_agree (p [PyProxy v] pw) (l [] (RData a) rw)"
  by (rule rb_shared_agree [OF assms])

theorem python_ruby_agree_witness:
  "rb_agree (wrap_JsPort_getBuffer (r_jack ruby_answers) [PyProxy 1] one_port)
     (rb_wrap_JsPort_getBuffer ruby_answers [] (RData 1) ruby_port_scene)"
proof (rule python_ruby_agree)
  show "((SWIGTYPE_p_JsPort, ''JsPort''), wrap_JsPort_getBuffer (r_jack ruby_answers), rb_wrap_JsPort_getBuffer ruby_answers)
      \<in> set (rb_shared_methods ruby_answers)"
    by (simp add: rb_shared_methods_def)
  show "objs (proxies one_port) 1 = Some (owner (Some 2) SWIGTYPE_p_JsPort)" by (simp add: one_port_def)
  show "module_types (rt one_port)" by (simp add: one_port_def module_types0)
  show "always_alloc (proxies one_port)" by (simp add: one_port_def py0_def empty_store_def always_alloc_def)
  show "objs (robjs ruby_port_scene) 1 = Some (borrowed [''JsPort''] 2 SWIGTYPE_p_JsPort)" by (simp add: ruby_port_scene_def)
qed (simp_all add: ruby_port_scene_def rb0_loaded owner_def borrowed_def)

section \<open>Ownership\<close>

definition rb_removed :: "addr \<Rightarrow> 'rb rb_world \<Rightarrow> 'rb rb_world" where
  "rb_removed a w = w\<lparr>robjs := (robjs w)\<lparr>objs := (objs (robjs w))(a := None)\<rparr>\<rparr>"

lemma collect_object:
  assumes "objs (robjs w) a = Some x"
  shows "ro_dfree x = None \<Longrightarrow> rb_collect rb_destroy a w = Some (rb_removed a w)"
    "ro_dfree x = Some (''free_'' @ name) \<Longrightarrow> (c, name, methods) \<in> set ruby_classes \<Longrightarrow>
      rb_collect rb_destroy a w = (case ro_data x of None \<Rightarrow> Some (rb_removed a w)
        | p \<Rightarrow> map_option (\<lambda>j. rb_removed a (w\<lparr>rjs := j\<rparr>)) (library_delete c p (rjs w)))"
proof -
  show "ro_dfree x = None \<Longrightarrow> rb_collect rb_destroy a w = Some (rb_removed a w)"
    using assms by (cases "ro_data x") (simp_all add: rb_collect_def free_obj_def rb_removed_def)
  assume x: "ro_dfree x = Some (''free_'' @ name)" and cls: "(c, name, methods) \<in> set ruby_classes"
  have "\<forall>(c, name, methods) \<in> set ruby_classes. rb_destroy (''free_'' @ name) p w =
      map_option (\<lambda>j. w\<lparr>rjs := j\<rparr>) (library_delete c (Some p) (rjs w))" for p
    by (simp add: ruby_classes_def rb_destroy_def rb_destructors_def library_delete_def py_type_defs
        rb_free_JsPortBuffer_def rb_free_JsLatencyRange_def rb_free_StringList_def rb_free_JsPort_def
        rb_free_JsEvent_def rb_free_JsClient_def)
  then have d: "rb_destroy (''free_'' @ name) p w = map_option (\<lambda>j. w\<lparr>rjs := j\<rparr>) (library_delete c (Some p) (rjs w))" for p
    using cls by blast
  show "rb_collect rb_destroy a w = (case ro_data x of None \<Rightarrow> Some (rb_removed a w)
        | p \<Rightarrow> map_option (\<lambda>j. rb_removed a (w\<lparr>rjs := j\<rparr>)) (library_delete c p (rjs w)))"
  proof (cases "ro_data x")
    case (Some p)
    then show ?thesis
      using assms x d [of p]
      by (cases "library_delete c (Some p) (rjs w)") (simp_all add: rb_collect_def free_obj_def rb_removed_def del: append.simps)
  qed (use assms in \<open>simp add: rb_collect_def free_obj_def rb_removed_def\<close>)
qed


text \<open>
  A port object a script makes itself has no port behind it, so deleting it fails the assertion
  of \<open>JacksRbPort_free\<close>: collecting it ends the process.
\<close>
lemma blank_port_fails:
  "objs (js_ports j) p = Some \<lparr>jp_impl = NULL, jp_clientimpl = NULL\<rparr> \<Longrightarrow> library_delete SWIGTYPE_p_JsPort (Some p) j = None"
  "objs (js_events j) p = Some \<lparr>jv_impl = NULL\<rparr> \<Longrightarrow> library_delete SWIGTYPE_p_JsEvent (Some p) j = None"
  by (simp_all add: library_delete_def py_type_defs delete_JsPort_def delete_JsEvent_def JacksRbPort_free_def JacksEvent_free_def)



text \<open>
  What the other functions return is never freed. Whatever data object a function of the module
  that is no constructor returns, for any arguments and in any state, Ruby frees nothing when it
  collects it, so the ports, events, buffers and lists the getters allocate stay allocated.
\<close>
lemma ruby_getters_lend:
  assumes "(f, g) \<in> set (rb_functions R)" "take 10 f \<noteq> ''_wrap_new_''" "untracked w"
    "g argv recv w = Some (RReturned (RData a), w1)"
  shows "rb_collect rb_destroy a w1 = Some (rb_removed a w1)"
proof -
  have "lent (RData a) w1" using function_lends [OF assms(1,2)] assms(3,4) unfolding rb_ensures_def by blast
  then obtain x where "objs (robjs w1) a = Some x" "ro_dfree x = None" by (auto simp: lent_def)
  then show ?thesis by (rule collect_object(1))
qed

end
