(* ===== verification/LuaRuntime.thy ===== *)
theory LuaRuntime
  imports Bindings SwigInit
begin

text \<open>
  The runtime of the Lua module (\<open>modules/lua/Jacks_lua_wrap.c\<close>): the values a script hands over,
  SWIG's userdata and their conversion, the arguments of a wrapper function, and the metatables and
  module table through which Lua finds attributes, methods and constants.

  The stack of a call is the list of its arguments, and what is left on it the list of results.
  Tables are maps from names; the C functions in them are named as in the file. Lua strings are
  blocks of \<open>cstrings\<close>, so a pointer into one is as good as the string lives.
\<close>

section \<open>State\<close>

text \<open>
  \<open>LForeign\<close> is a userdata of another library (or a light one), \<open>LOther\<close> any other value, by the
  name of its type.
\<close>

datatype lua_value =
    LNil | LBoolean bool | LNumber c_double | LString addr | LUserdata addr | LForeign
  | LCFunction string | LOther string

text \<open>The structure SWIG keeps in a userdata, and the metatable Lua keeps with it.\<close>

record swig_lua_userdata =
  lu_type :: addr
  lu_own :: int
  lu_ptr :: ptr
  lu_meta :: "string option"

record swig_lua_class =
  lc_name :: string
  lc_type :: addr
  lc_constructor :: "string option"
  lc_destructor :: "string option"
  lc_methods :: "(string \<times> string) list"
  lc_attributes :: "(string \<times> string \<times> string option) list"
  lc_bases :: "ptr list"
  lc_base_names :: "string list"

text \<open>
  The metatable of a class: its \<open>.type\<close>, the tables \<open>.get\<close>, \<open>.set\<close> and \<open>.fn\<close>, and the
  functions that stand in the metatable itself.
\<close>

record swig_lua_metatable =
  mt_type :: string
  mt_get :: "string \<rightharpoonup> string"
  mt_set :: "string \<rightharpoonup> string"
  mt_fn :: "string \<rightharpoonup> string"
  mt_events :: "string \<rightharpoonup> string"

record swig_lua_module =
  md_fields :: "string \<rightharpoonup> lua_value"
  md_get :: "string \<rightharpoonup> string"
  md_set :: "string \<rightharpoonup> string"

text \<open>\<open>lmetas\<close>: the table \<open>SWIG\<close> in the registry; \<open>lmodule\<close>: the module table, once made.\<close>

record 'rb lua_world =
  ljs :: "'rb js_world"
  userdata :: "swig_lua_userdata store"
  lrun :: swig_runtime
  lclasses :: "addr \<rightharpoonup> swig_lua_class"
  lmetas :: "string \<rightharpoonup> swig_lua_metatable"
  lmodule :: swig_lua_module
  lglobals :: "string \<rightharpoonup> lua_value"

text \<open>
  What the interpreter and JACK answer: the number a string denotes, the string of a number, the
  position \<open>luaL_error\<close> puts before a message.
\<close>

record 'rb lua_api =
  l_jack :: "'rb jack_api"
  l_env :: "('rb jacks \<Rightarrow> 'rb jacks option) list"
  l_str2number :: "string \<Rightarrow> c_double option"
  l_number2str :: "c_double \<Rightarrow> string"
  l_where :: string

datatype lua_error = LMessage string | LNoMemory

datatype lua_result = LReturned "lua_value list" | LRaised lua_error | LExited int

type_synonym 'rb lua_outcome = "(lua_result \<times> 'rb lua_world) option"

abbreviation lheap :: "'rb lua_world \<Rightarrow> swig_heap" where
  "lheap w \<equiv> heap (lrun w)"

definition set_lheap :: "swig_heap \<Rightarrow> 'rb lua_world \<Rightarrow> 'rb lua_world" where
  "set_lheap h w = w\<lparr>lrun := (lrun w)\<lparr>heap := h\<rparr>\<rparr>"

section \<open>Values\<close>

definition lua_text :: "addr \<Rightarrow> 'rb lua_world \<Rightarrow> string option" where
  "lua_text a w = map_option butlast (objs (cstrings (ljs w)) a)"

definition lua_pushstring :: "string \<Rightarrow> 'rb lua_world \<Rightarrow> lua_value option \<times> 'rb lua_world" where
  "lua_pushstring s w =
     (let (p, h) = new_obj (s @ [NUL]) (cstrings (ljs w))
      in (map_option LString p, w\<lparr>ljs := (ljs w)\<lparr>cstrings := h\<rparr>\<rparr>))"

definition lua_isuserdata :: "lua_value \<Rightarrow> bool" where
  "lua_isuserdata v = (case v of LUserdata a \<Rightarrow> True | LForeign \<Rightarrow> True | _ \<Rightarrow> False)"

definition SWIG_isptrtype :: "lua_value \<Rightarrow> bool" where
  "SWIG_isptrtype v \<longleftrightarrow> lua_isuserdata v \<or> v = LNil"

definition SWIG_lua_isnilstring :: "lua_value \<Rightarrow> bool" where
  "SWIG_lua_isnilstring v = (case v of LString a \<Rightarrow> True | LNumber d \<Rightarrow> True | LNil \<Rightarrow> True | _ \<Rightarrow> False)"

definition lua_isnumber :: "'rb lua_api \<Rightarrow> lua_value \<Rightarrow> 'rb lua_world \<Rightarrow> bool option" where
  "lua_isnumber L v w =
     (case v of
        LNumber d \<Rightarrow> Some True
      | LString a \<Rightarrow> map_option (\<lambda>s. l_str2number L s \<noteq> None) (lua_text a w)
      | _ \<Rightarrow> Some False)"

definition lua_tonumber :: "'rb lua_api \<Rightarrow> lua_value \<Rightarrow> 'rb lua_world \<Rightarrow> c_double option" where
  "lua_tonumber L v w =
     (case v of
        LNumber d \<Rightarrow> Some d
      | LString a \<Rightarrow> map_option (\<lambda>s. case l_str2number L s of None \<Rightarrow> Finite 0 0 | Some d \<Rightarrow> d) (lua_text a w)
      | _ \<Rightarrow> Some (Finite 0 0))"

definition lua_typename :: "lua_value \<Rightarrow> string" where
  "lua_typename v =
     (case v of
        LNil \<Rightarrow> ''nil'' | LBoolean b \<Rightarrow> ''boolean'' | LNumber d \<Rightarrow> ''number'' | LString a \<Rightarrow> ''string''
      | LUserdata a \<Rightarrow> ''userdata'' | LForeign \<Rightarrow> ''userdata'' | LCFunction f \<Rightarrow> ''function'' | LOther t \<Rightarrow> t)"

text \<open>The value of \<open>lua_touserdata\<close> is read as SWIG's structure, whatever library made it.\<close>

definition as_swig :: "lua_value \<Rightarrow> 'rb lua_world \<Rightarrow> swig_lua_userdata option" where
  "as_swig v w = (case v of LUserdata a \<Rightarrow> objs (userdata w) a | _ \<Rightarrow> None)"

definition SWIG_Lua_typename :: "lua_value \<Rightarrow> 'rb lua_world \<Rightarrow> string option" where
  "SWIG_Lua_typename v w =
     (if lua_isuserdata v
      then do {
        usr \<leftarrow> as_swig v w;
        t \<leftarrow> ti (lheap w) (lu_type usr);
        Some (case ti_str t of Some s \<Rightarrow> s | None \<Rightarrow> ''userdata (unknown type)'')
      }
      else Some (lua_typename v))"

text \<open>\<open>swig_type\<close> and \<open>swig_equals\<close>, which a script may call.\<close>

definition SWIG_Lua_type :: "lua_value list \<Rightarrow> 'rb lua_world \<Rightarrow> 'rb lua_outcome" where
  "SWIG_Lua_type args w = do {
     name \<leftarrow> (case args of [] \<Rightarrow> Some ''no value'' | v # _ \<Rightarrow> SWIG_Lua_typename v w);
     let (v, w) = lua_pushstring name w
     in Some (case v of None \<Rightarrow> LRaised LNoMemory | Some v \<Rightarrow> LReturned [v], w)
   }"

definition SWIG_Lua_equal :: "lua_value list \<Rightarrow> 'rb lua_world \<Rightarrow> 'rb lua_outcome" where
  "SWIG_Lua_equal args w =
     (case args of
        u # v # _ \<Rightarrow>
          (if lua_isuserdata u \<and> lua_isuserdata v
           then do {
             usr1 \<leftarrow> as_swig u w;
             usr2 \<leftarrow> as_swig v w;
             Some (LReturned [LBoolean (lu_ptr usr1 = lu_ptr usr2)], w)
           }
           else Some (LReturned [], w))
      | _ \<Rightarrow> Some (LReturned [], w))"

section \<open>Userdata\<close>

text \<open>The return code, the pointer, the state.\<close>

definition SWIG_Lua_ConvertPtr ::
  "lua_value \<Rightarrow> addr option \<Rightarrow> nat \<Rightarrow> 'rb lua_world \<Rightarrow> (int \<times> ptr \<times> 'rb lua_world) option" where
  "SWIG_Lua_ConvertPtr v ty flags w =
     (if v = LNil then Some (0, NULL, w)
      else if lua_isuserdata v
      then do {
        usr \<leftarrow> as_swig v w;
        w \<leftarrow> (case v of
               LUserdata a \<Rightarrow>
                 (if odd flags
                  then map_option (\<lambda>h. w\<lparr>userdata := h\<rparr>) (put_obj (Some a) (usr\<lparr>lu_own := 0\<rparr>) (userdata w))
                  else Some w)
             | _ \<Rightarrow> None);
        (case ty of
           None \<Rightarrow> Some (0, lu_ptr usr, w)
         | Some t \<Rightarrow> do {
             (cast, h) \<leftarrow> SWIG_TypeCheckStruct (lu_type usr) (Some t) (lheap w);
             if cast = NULL then Some (- 1, NULL, set_lheap h w)
             else do {
               p \<leftarrow> SWIG_TypeCast cast (lu_ptr usr) h;
               Some (0, p, set_lheap h w)
             }
           })
      }
      else Some (- 1, NULL, w))"

definition SWIG_Lua_AddMetatable :: "addr \<Rightarrow> addr \<Rightarrow> 'rb lua_world \<Rightarrow> 'rb lua_world option" where
  "SWIG_Lua_AddMetatable a ty w = do {
     t \<leftarrow> ti (lheap w) ty;
     (case ti_clientdata t of
        None \<Rightarrow> Some w
      | Some c \<Rightarrow> do {
          clss \<leftarrow> lclasses w c;
          if lmetas w (lc_name clss) = None then Some w
          else do {
            usr \<leftarrow> objs (userdata w) a;
            h \<leftarrow> put_obj (Some a) (usr\<lparr>lu_meta := Some (lc_name clss)\<rparr>) (userdata w);
            Some (w\<lparr>userdata := h\<rparr>)
          }
        })
   }"

text \<open>No value when Lua has no memory left, which raises an error.\<close>

definition SWIG_Lua_NewPointerObj ::
  "ptr \<Rightarrow> addr \<Rightarrow> int \<Rightarrow> 'rb lua_world \<Rightarrow> (lua_value option \<times> 'rb lua_world) option" where
  "SWIG_Lua_NewPointerObj p ty own w =
     (if p = NULL then Some (Some LNil, w)
      else (let (usr, h) = new_obj \<lparr>lu_type = ty, lu_own = own, lu_ptr = p, lu_meta = None\<rparr> (userdata w);
                w = w\<lparr>userdata := h\<rparr>
            in case usr of
                 None \<Rightarrow> Some (None, w)
               | Some a \<Rightarrow> map_option (\<lambda>w. (Some (LUserdata a), w)) (SWIG_Lua_AddMetatable a ty w)))"

text \<open>
  \<open>__gc\<close>: the destructor of the class of an owned object; \<open>destroy\<close> runs a destructor by its name.
\<close>

definition SWIG_Lua_class_destruct ::
  "(string \<Rightarrow> ptr \<Rightarrow> 'rb lua_world \<Rightarrow> 'rb lua_world option) \<Rightarrow> addr \<Rightarrow> 'rb lua_world \<Rightarrow> 'rb lua_world option" where
  "SWIG_Lua_class_destruct destroy v w = do {
     usr \<leftarrow> objs (userdata w) v;
     if lu_own usr \<noteq> 0
     then do {
       t \<leftarrow> ti (lheap w) (lu_type usr);
       (case ti_clientdata t of
          None \<Rightarrow> Some w
        | Some c \<Rightarrow> do {
            clss \<leftarrow> lclasses w c;
            (case lc_destructor clss of None \<Rightarrow> Some w | Some d \<Rightarrow> destroy d (lu_ptr usr) w)
          })
     }
     else Some w
   }"

text \<open>Lua collects a userdata: the \<open>__gc\<close> of its metatable runs, then its memory goes.\<close>

definition lua_collect ::
  "(string \<Rightarrow> ptr \<Rightarrow> 'rb lua_world \<Rightarrow> 'rb lua_world option) \<Rightarrow> addr \<Rightarrow> 'rb lua_world \<Rightarrow> 'rb lua_world option" where
  "lua_collect destroy v w = do {
     usr \<leftarrow> objs (userdata w) v;
     w \<leftarrow> (case Option.bind (lu_meta usr) (\<lambda>m. Option.bind (lmetas w m) (\<lambda>mt. mt_events mt ''__gc'')) of
            None \<Rightarrow> Some w
          | Some f \<Rightarrow> if f = ''SWIG_Lua_class_destruct'' then SWIG_Lua_class_destruct destroy v w else None);
     h \<leftarrow> free_obj (Some v) (userdata w);
     Some (w\<lparr>userdata := h\<rparr>)
   }"

definition lua_collect_string :: "addr \<Rightarrow> 'rb lua_world \<Rightarrow> 'rb lua_world option" where
  "lua_collect_string a w =
     map_option (\<lambda>h. w\<lparr>ljs := (ljs w)\<lparr>cstrings := h\<rparr>\<rparr>) (free_obj (Some a) (cstrings (ljs w)))"

section \<open>Errors\<close>

text \<open>\<open>lua_error\<close> with a message on the stack.\<close>

definition lua_error :: "string \<Rightarrow> 'rb lua_world \<Rightarrow> 'rb lua_outcome" where
  "lua_error msg w = Some (LRaised (LMessage msg), w)"

text \<open>\<open>luaL_error\<close> gets the text of an exception as its format.\<close>

definition luaL_error :: "'rb lua_api \<Rightarrow> string \<Rightarrow> 'rb lua_world \<Rightarrow> 'rb lua_outcome" where
  "luaL_error L err w = do { msg \<leftarrow> bare_format err; lua_error (l_where L @ msg) w }"

definition SWIG_fail_arg :: "string \<Rightarrow> nat \<Rightarrow> string \<Rightarrow> lua_value list \<Rightarrow> 'rb lua_world \<Rightarrow> 'rb lua_outcome" where
  "SWIG_fail_arg func argnum ty args w = do {
     got \<leftarrow> SWIG_Lua_typename (args ! (argnum - 1)) w;
     lua_error (''Error in '' @ func @ '' (arg '' @ decimal argnum @ ''), expected '' @ [CHR 0x27] @ ty @
       [CHR 0x27] @ '' got '' @ [CHR 0x27] @ got @ [CHR 0x27]) w
   }"

definition SWIG_fail_ptr :: "string \<Rightarrow> nat \<Rightarrow> addr \<Rightarrow> lua_value list \<Rightarrow> 'rb lua_world \<Rightarrow> 'rb lua_outcome" where
  "SWIG_fail_ptr func argnum ty args w = do {
     t \<leftarrow> ti (lheap w) ty;
     SWIG_fail_arg func argnum (case ti_str t of Some s \<Rightarrow> s | None \<Rightarrow> ''void*'') args w
   }"

definition SWIG_check_num_args ::
  "string \<Rightarrow> nat \<Rightarrow> nat \<Rightarrow> lua_value list \<Rightarrow> ('rb lua_world \<Rightarrow> 'rb lua_outcome) \<Rightarrow> 'rb lua_world \<Rightarrow> 'rb lua_outcome" where
  "SWIG_check_num_args func a b args k w =
     (if length args < a \<or> length args > b
      then lua_error (''Error in '' @ func @ '' expected '' @ decimal a @ ''..'' @ decimal b @ '' args, got '' @
        decimal (length args)) w
      else k w)"

definition SWIG_contract_assert :: "bool \<Rightarrow> string \<Rightarrow> ('rb lua_world \<Rightarrow> 'rb lua_outcome) \<Rightarrow> 'rb lua_world \<Rightarrow> 'rb lua_outcome" where
  "SWIG_contract_assert expr msg k w = (if expr then k w else lua_error msg w)"

definition SWIG_Lua_MustGetPtr ::
  "lua_value \<Rightarrow> addr option \<Rightarrow> nat \<Rightarrow> nat \<Rightarrow> string \<Rightarrow> (ptr \<Rightarrow> 'rb lua_world \<Rightarrow> 'rb lua_outcome) \<Rightarrow> 'rb lua_world \<Rightarrow> 'rb lua_outcome"
where
  "SWIG_Lua_MustGetPtr v ty flags argnum func k w = do {
     (res, p, w) \<leftarrow> SWIG_Lua_ConvertPtr v ty flags w;
     if SWIG_IsOK res then k p w
     else do {
       str \<leftarrow> (case ty of None \<Rightarrow> Some ''void*''
              | Some t \<Rightarrow> map_option (\<lambda>t. case ti_str t of Some s \<Rightarrow> s | None \<Rightarrow> ''void*'') (ti (lheap w) t));
       lua_error (''Error in '' @ func @ '', expected a '' @ str @ '' at argument number '' @ decimal argnum @ [CHR 0x0A]) w
     }
   }"

definition SWIG_Lua_set_immutable :: "'rb lua_world \<Rightarrow> 'rb lua_outcome" where
  "SWIG_Lua_set_immutable w = lua_error ''This variable is immutable'' w"

end
