(* ===== verification/LuaTables.thy ===== *)
theory LuaTables
  imports LuaRuntime
begin

text \<open>
  How Lua finds the attributes and methods of the classes and the contents of the module
  (\<open>modules/lua/Jacks_lua_wrap.c\<close>): the registration of classes, the functions behind
  \<open>__index\<close> and \<open>__newindex\<close>, the constants, and the ring of SWIG modules as the Lua
  registry keeps it.
\<close>

section \<open>The ring of modules\<close>

text \<open>The field \<open>capsule\<close> is here the light userdata in the registry of Lua.\<close>

definition SWIG_Lua_GetModule :: "swig_runtime \<Rightarrow> ptr" where
  "SWIG_Lua_GetModule r = capsule r"

definition SWIG_Lua_SetModule :: "addr \<Rightarrow> swig_runtime \<Rightarrow> swig_runtime" where
  "SWIG_Lua_SetModule m r = r\<lparr>capsule := Some m\<rparr>"

definition lua_join_ring :: "addr \<Rightarrow> swig_runtime \<Rightarrow> (bool \<times> swig_runtime) option" where
  "lua_join_ring this r =
     (case SWIG_Lua_GetModule r of
        None \<Rightarrow> Some (True, SWIG_Lua_SetModule this r)
      | Some head \<Rightarrow> enter_ring this head r)"

definition SWIG_Lua_InitializeModule :: "swig_tables \<Rightarrow> swig_runtime \<Rightarrow> swig_runtime option" where
  "SWIG_Lua_InitializeModule tab r = load_module lua_join_ring tab r"

section \<open>Calls\<close>

text \<open>The results of a call adjusted to one value.\<close>

definition one_result :: "'rb lua_outcome \<Rightarrow> 'rb lua_outcome" where
  "one_result out =
     (case out of
        Some (LReturned vs, w) \<Rightarrow> Some (LReturned [case vs of [] \<Rightarrow> LNil | v # _ \<Rightarrow> v], w)
      | _ \<Rightarrow> out)"

definition no_result :: "'rb lua_outcome \<Rightarrow> 'rb lua_outcome" where
  "no_result out = (case out of Some (LReturned vs, w) \<Rightarrow> Some (LReturned [], w) | _ \<Rightarrow> out)"

section \<open>Classes\<close>

definition metatable_of :: "addr \<Rightarrow> 'rb lua_world \<Rightarrow> swig_lua_metatable option" where
  "metatable_of v w = do { usr \<leftarrow> objs (userdata w) v; m \<leftarrow> lu_meta usr; lmetas w m }"

text \<open>
  \<open>__index\<close> of an object: an attribute is read, a method is handed out; \<open>call\<close> runs a C
  function by its name. Keys are strings.
\<close>

definition SWIG_Lua_class_get ::
  "(string \<Rightarrow> lua_value list \<Rightarrow> 'rb lua_world \<Rightarrow> 'rb lua_outcome) \<Rightarrow> addr \<Rightarrow> addr \<Rightarrow> 'rb lua_world \<Rightarrow> 'rb lua_outcome" where
  "SWIG_Lua_class_get call v key w = do {
     mt \<leftarrow> metatable_of v w;
     name \<leftarrow> lua_text key w;
     (case mt_get mt name of
        Some f \<Rightarrow> one_result (call f [LUserdata v] w)
      | None \<Rightarrow>
          (case mt_fn mt name of
             Some f \<Rightarrow> Some (LReturned [LCFunction f], w)
           | None \<Rightarrow>
               (case mt_events mt ''__getitem'' of
                  Some f \<Rightarrow> one_result (call f [LUserdata v, LString key] w)
                | None \<Rightarrow> Some (LReturned [], w))))
   }"

text \<open>After a \<open>__setitem\<close> the metatable is what is left on the stack.\<close>

definition SWIG_Lua_class_set ::
  "(string \<Rightarrow> lua_value list \<Rightarrow> 'rb lua_world \<Rightarrow> 'rb lua_outcome) \<Rightarrow> addr \<Rightarrow> addr \<Rightarrow> lua_value \<Rightarrow> 'rb lua_world \<Rightarrow>
     'rb lua_outcome" where
  "SWIG_Lua_class_set call v key val w = do {
     mt \<leftarrow> metatable_of v w;
     name \<leftarrow> lua_text key w;
     (case mt_set mt name of
        Some f \<Rightarrow> no_result (call f [LUserdata v, val] w)
      | None \<Rightarrow>
          (case mt_events mt ''__setitem'' of
             Some f \<Rightarrow>
               (case call f [LUserdata v, LString key, val] w of
                  Some (LReturned vs, w) \<Rightarrow> Some (LReturned [LOther ''table''], w)
                | out \<Rightarrow> out)
           | None \<Rightarrow> Some (LReturned [], w)))
   }"

definition SWIG_Lua_add_class_variable ::
  "string \<Rightarrow> string \<Rightarrow> string option \<Rightarrow> swig_lua_metatable \<Rightarrow> swig_lua_metatable" where
  "SWIG_Lua_add_class_variable name getFn setFn mt =
     (let mt = mt\<lparr>mt_get := (mt_get mt)(name \<mapsto> getFn)\<rparr>
      in case setFn of None \<Rightarrow> mt | Some f \<Rightarrow> mt\<lparr>mt_set := (mt_set mt)(name \<mapsto> f)\<rparr>)"

text \<open>The attributes and methods of one class; names that begin with \<open>__\<close> also go to the metatable.\<close>

definition add_own_details :: "swig_lua_class \<Rightarrow> swig_lua_metatable \<Rightarrow> swig_lua_metatable" where
  "add_own_details clss mt =
     (let mt = fold (\<lambda>(name, getFn, setFn). SWIG_Lua_add_class_variable name getFn setFn) (lc_attributes clss) mt;
          mt = fold (\<lambda>(name, f) mt. mt\<lparr>mt_fn := (mt_fn mt)(name \<mapsto> f)\<rparr>) (lc_methods clss) mt
      in fold (\<lambda>(name, f) mt. if take 2 name = ''__'' then mt\<lparr>mt_events := (mt_events mt)(name \<mapsto> f)\<rparr> else mt)
           (lc_methods clss) mt)"

text \<open>The base classes first, each with its own; the loop stops at the first one that is null.\<close>

partial_function (option) add_bases_details ::
  "(addr \<rightharpoonup> swig_lua_class) \<Rightarrow> ptr list \<Rightarrow> swig_lua_metatable \<Rightarrow> swig_lua_metatable option" where
  "add_bases_details classes bases mt =
     (case bases of
        Some b # rest \<Rightarrow> do {
          clss \<leftarrow> classes b;
          mt \<leftarrow> add_bases_details classes (lc_bases clss) mt;
          add_bases_details classes rest (add_own_details clss mt)
        }
      | _ \<Rightarrow> Some mt)"

definition SWIG_Lua_add_class_details ::
  "(addr \<rightharpoonup> swig_lua_class) \<Rightarrow> swig_lua_class \<Rightarrow> swig_lua_metatable \<Rightarrow> swig_lua_metatable option" where
  "SWIG_Lua_add_class_details classes clss mt =
     map_option (add_own_details clss) (add_bases_details classes (lc_bases clss) mt)"

text \<open>The base classes are looked up by name in the ring of the module at \<open>this\<close>, the head.\<close>

fun find_bases :: "addr \<Rightarrow> swig_runtime \<Rightarrow> string list \<Rightarrow> ptr list \<Rightarrow> ptr list option" where
  "find_bases this r (name # names) (b # bs) = do {
     b \<leftarrow> (if b \<noteq> NULL then Some b
          else do {
            info \<leftarrow> SWIG_TypeQueryModule (heap r) (modules r) this this name;
            (case info of None \<Rightarrow> Some NULL | Some t \<Rightarrow> map_option ti_clientdata (ti (heap r) t))
          });
     map_option ((#) b) (find_bases this r names bs)
   }"
| "find_bases this r [] bs = Some bs"
| "find_bases this r (name # names) [] = None"

definition SWIG_Lua_init_base_class :: "addr \<Rightarrow> 'rb lua_world \<Rightarrow> 'rb lua_world option" where
  "SWIG_Lua_init_base_class c w = do {
     clss \<leftarrow> lclasses w c;
     if lc_base_names clss = [] then Some w
     else do {
       module \<leftarrow> SWIG_Lua_GetModule (lrun w);
       bases \<leftarrow> find_bases module (lrun w) (lc_base_names clss) (lc_bases clss);
       Some (w\<lparr>lclasses := (lclasses w)(c \<mapsto> clss\<lparr>lc_bases := bases\<rparr>)\<rparr>)
     }
   }"

definition add_module_field :: "string \<Rightarrow> lua_value \<Rightarrow> 'rb lua_world \<Rightarrow> 'rb lua_world" where
  "add_module_field name v w = w\<lparr>lmodule := (lmodule w)\<lparr>md_fields := (md_fields (lmodule w))(name \<mapsto> v)\<rparr>\<rparr>"

definition new_metatable :: "string \<Rightarrow> swig_lua_metatable" where
  "new_metatable name =
     \<lparr>mt_type = name, mt_get = Map.empty, mt_set = Map.empty, mt_fn = Map.empty,
      mt_events = [''__index'' \<mapsto> ''SWIG_Lua_class_get'', ''__newindex'' \<mapsto> ''SWIG_Lua_class_set'',
                   ''__gc'' \<mapsto> ''SWIG_Lua_class_destruct'']\<rparr>"

definition SWIG_Lua_class_register :: "addr \<Rightarrow> 'rb lua_world \<Rightarrow> 'rb lua_world option" where
  "SWIG_Lua_class_register c w = do {
     clss \<leftarrow> lclasses w c;
     let w = (case lc_constructor clss of
                None \<Rightarrow> w
              | Some f \<Rightarrow> add_module_field (lc_name clss) (LCFunction f) w)
     in do {
       mt \<leftarrow> SWIG_Lua_add_class_details (lclasses w) clss (new_metatable (lc_name clss));
       Some (w\<lparr>lmetas := (lmetas w)(lc_name clss \<mapsto> mt)\<rparr>)
     }
   }"

section \<open>The module\<close>

text \<open>Reading a field that is not in the module table, and writing one.\<close>

definition SWIG_Lua_module_get ::
  "(string \<Rightarrow> lua_value list \<Rightarrow> 'rb lua_world \<Rightarrow> 'rb lua_outcome) \<Rightarrow> string \<Rightarrow> 'rb lua_world \<Rightarrow> 'rb lua_outcome" where
  "SWIG_Lua_module_get call name w =
     (case md_get (lmodule w) name of
        Some f \<Rightarrow> one_result (call f [] w)
      | None \<Rightarrow> Some (LReturned [LNil], w))"

definition SWIG_Lua_module_set ::
  "(string \<Rightarrow> lua_value list \<Rightarrow> 'rb lua_world \<Rightarrow> 'rb lua_outcome) \<Rightarrow> string \<Rightarrow> lua_value \<Rightarrow> 'rb lua_world \<Rightarrow> 'rb lua_outcome"
where
  "SWIG_Lua_module_set call name v w =
     (case md_set (lmodule w) name of
        Some f \<Rightarrow> no_result (call f [v] w)
      | None \<Rightarrow> Some (LReturned [], add_module_field name v w))"

text \<open>The module is a new global table of its name.\<close>

definition SWIG_Lua_module_begin :: "string \<Rightarrow> 'rb lua_world \<Rightarrow> 'rb lua_world" where
  "SWIG_Lua_module_begin name w =
     w\<lparr>lmodule := \<lparr>md_fields = Map.empty, md_get = Map.empty, md_set = Map.empty\<rparr>,
       lglobals := (lglobals w)(name \<mapsto> LOther ''table'')\<rparr>"

definition SWIG_Lua_module_add_variable :: "string \<Rightarrow> string \<Rightarrow> string option \<Rightarrow> 'rb lua_world \<Rightarrow> 'rb lua_world" where
  "SWIG_Lua_module_add_variable name getFn setFn w =
     (let m = (lmodule w)\<lparr>md_get := (md_get (lmodule w))(name \<mapsto> getFn)\<rparr>
      in w\<lparr>lmodule := (case setFn of None \<Rightarrow> m | Some f \<Rightarrow> m\<lparr>md_set := (md_set m)(name \<mapsto> f)\<rparr>)\<rparr>)"

definition SWIG_Lua_module_add_function :: "string \<Rightarrow> string \<Rightarrow> 'rb lua_world \<Rightarrow> 'rb lua_world" where
  "SWIG_Lua_module_add_function name f w = add_module_field name (LCFunction f) w"

text \<open>Constants by kind; packed objects are not among them.\<close>

datatype swig_lua_const =
    SWIG_LUA_INT string int | SWIG_LUA_FLOAT string c_double | SWIG_LUA_CHAR string char
  | SWIG_LUA_STRING string char_ptr | SWIG_LUA_POINTER string ptr addr

definition push_constant :: "swig_lua_const \<Rightarrow> 'rb lua_world \<Rightarrow> (string \<times> lua_value option \<times> 'rb lua_world) option" where
  "push_constant c w =
     (case c of
        SWIG_LUA_INT name l \<Rightarrow> Some (name, Some (LNumber (to_double l)), w)
      | SWIG_LUA_FLOAT name d \<Rightarrow> Some (name, Some (LNumber d), w)
      | SWIG_LUA_CHAR name ch \<Rightarrow> Some (name, lua_pushstring [ch] w)
      | SWIG_LUA_STRING name p \<Rightarrow>
          (if p = CNULL then Some (name, Some LNil, w)
           else map_option (\<lambda>s. (name, lua_pushstring s w)) (read_chars p (ljs w)))
      | SWIG_LUA_POINTER name p ty \<Rightarrow> map_option (Pair name) (SWIG_Lua_NewPointerObj p ty 0 w))"

text \<open>The flag says that Lua had the memory.\<close>

fun SWIG_Lua_InstallConstants :: "swig_lua_const list \<Rightarrow> 'rb lua_world \<Rightarrow> (bool \<times> 'rb lua_world) option" where
  "SWIG_Lua_InstallConstants [] w = Some (True, w)"
| "SWIG_Lua_InstallConstants (c # cs) w = do {
     (name, v, w) \<leftarrow> push_constant c w;
     (case v of
        None \<Rightarrow> Some (False, w)
      | Some v \<Rightarrow> SWIG_Lua_InstallConstants cs (add_module_field name v w))
   }"

end
