(* ===== verification/LuaWrap.thy ===== *)
theory LuaWrap
  imports LuaTables
begin

text \<open>
  The functions of the Lua module (\<open>_wrap_*\<close> and \<open>swig_delete_*\<close> in
  \<open>modules/lua/Jacks_lua_wrap.c\<close>), one definition each, its class tables, and the loading of the
  module. The wrapper functions share one protocol, in the order of the C code: the arguments are
  counted, the type of each is checked, then each is converted, with a contract that unsigned
  numbers are not negative; the error channel is cleared, the function of \<open>Bindings\<close> is
  called, and an error that is set is raised; otherwise the result is pushed. Errors are raised
  by a jump, so nothing after them runs.
\<close>

section \<open>The protocol\<close>

definition check_arg ::
  "(lua_value \<Rightarrow> 'rb lua_world \<Rightarrow> bool option) \<Rightarrow> lua_value list \<Rightarrow> string \<Rightarrow> nat \<Rightarrow> string \<Rightarrow>
     ('rb lua_world \<Rightarrow> 'rb lua_outcome) \<Rightarrow> 'rb lua_world \<Rightarrow> 'rb lua_outcome" where
  "check_arg fits args func i ty k w = do {
     b \<leftarrow> fits (args ! (i - 1)) w;
     if b then k w else SWIG_fail_arg func i ty args w
   }"

abbreviation check_ptr where "check_ptr \<equiv> check_arg (\<lambda>v w. Some (SWIG_isptrtype v))"
abbreviation check_str where "check_str \<equiv> check_arg (\<lambda>v w. Some (SWIG_lua_isnilstring v))"
abbreviation check_num where "check_num L \<equiv> check_arg (lua_isnumber L)"

definition get_ptr ::
  "lua_value list \<Rightarrow> string \<Rightarrow> nat \<Rightarrow> addr \<Rightarrow> (ptr \<Rightarrow> 'rb lua_world \<Rightarrow> 'rb lua_outcome) \<Rightarrow> 'rb lua_world \<Rightarrow> 'rb lua_outcome"
where
  "get_ptr args func i ty k w = do {
     (res, p, w) \<leftarrow> SWIG_Lua_ConvertPtr (args ! (i - 1)) (Some ty) 0 w;
     if SWIG_IsOK res then k p w else SWIG_fail_ptr func i ty args w
   }"

text \<open>A double cast to an integer type: towards zero, and undefined when that does not fit.\<close>

definition truncated :: "int \<Rightarrow> int \<Rightarrow> int" where
  "truncated m e = (if 0 \<le> e then m * 2 ^ nat e else sgn m * (\<bar>m\<bar> div 2 ^ nat (- e)))"

definition cast_double :: "int \<Rightarrow> int \<Rightarrow> c_double \<Rightarrow> int option" where
  "cast_double lo hi d =
     (case d of
        Finite m e \<Rightarrow> (let n = truncated m e in if lo \<le> n \<and> n \<le> hi then Some n else None)
      | _ \<Rightarrow> None)"

definition not_negative :: "c_double \<Rightarrow> bool" where
  "not_negative d = (case d of Finite m e \<Rightarrow> 0 \<le> m | Infinite neg \<Rightarrow> \<not> neg | NotANumber \<Rightarrow> False)"

definition get_num ::
  "int \<Rightarrow> int \<Rightarrow> 'rb lua_api \<Rightarrow> lua_value list \<Rightarrow> nat \<Rightarrow> (int \<Rightarrow> 'rb lua_world \<Rightarrow> 'rb lua_outcome) \<Rightarrow>
     'rb lua_world \<Rightarrow> 'rb lua_outcome" where
  "get_num lo hi L args i k w = do {
     d \<leftarrow> lua_tonumber L (args ! (i - 1)) w;
     n \<leftarrow> cast_double lo hi d;
     k n w
   }"

abbreviation get_int where "get_int \<equiv> get_num (- (2 ^ 31)) (2 ^ 31 - 1)"
abbreviation get_long where "get_long \<equiv> get_num (- (2 ^ 63)) (2 ^ 63 - 1)"

text \<open>Unsigned numbers, after the contract.\<close>

definition get_unsigned ::
  "int \<Rightarrow> (int \<Rightarrow> 'v) \<Rightarrow> 'rb lua_api \<Rightarrow> lua_value list \<Rightarrow> nat \<Rightarrow> ('v \<Rightarrow> 'rb lua_world \<Rightarrow> 'rb lua_outcome) \<Rightarrow>
     'rb lua_world \<Rightarrow> 'rb lua_outcome" where
  "get_unsigned hi word L args i k w = do {
     d \<leftarrow> lua_tonumber L (args ! (i - 1)) w;
     SWIG_contract_assert (not_negative d) ''number must not be negative''
       (get_num 0 hi L args i (\<lambda>n. k (word n))) w
   }"

definition get_uint :: "'rb lua_api \<Rightarrow> lua_value list \<Rightarrow> nat \<Rightarrow> (u32 \<Rightarrow> 'rb lua_world \<Rightarrow> 'rb lua_outcome) \<Rightarrow> 'rb lua_world \<Rightarrow> 'rb lua_outcome" where
  "get_uint = get_unsigned (2 ^ 32 - 1) word_of_int"

definition get_ulong :: "'rb lua_api \<Rightarrow> lua_value list \<Rightarrow> nat \<Rightarrow> (u64 \<Rightarrow> 'rb lua_world \<Rightarrow> 'rb lua_outcome) \<Rightarrow> 'rb lua_world \<Rightarrow> 'rb lua_outcome" where
  "get_ulong = get_unsigned (2 ^ 64 - 1) word_of_int"

text \<open>The rounding to \<open>float\<close> is left out: no function uses such an argument.\<close>

definition get_float :: "'rb lua_api \<Rightarrow> lua_value list \<Rightarrow> nat \<Rightarrow> (c_double \<Rightarrow> 'rb lua_world \<Rightarrow> 'rb lua_outcome) \<Rightarrow> 'rb lua_world \<Rightarrow> 'rb lua_outcome" where
  "get_float L args i k w = do { d \<leftarrow> lua_tonumber L (args ! (i - 1)) w; k d w }"

text \<open>\<open>lua_tostring\<close>: the memory of the string itself; a number becomes a string first.\<close>

definition get_str :: "'rb lua_api \<Rightarrow> lua_value list \<Rightarrow> nat \<Rightarrow> (char_ptr \<Rightarrow> 'rb lua_world \<Rightarrow> 'rb lua_outcome) \<Rightarrow> 'rb lua_world \<Rightarrow> 'rb lua_outcome" where
  "get_str L args i k w =
     (case args ! (i - 1) of
        LString a \<Rightarrow> k (CHeap a) w
      | LNumber d \<Rightarrow>
          (case lua_pushstring (l_number2str L d) w of
             (Some (LString a), w) \<Rightarrow> k (CHeap a) w
           | (_, w) \<Rightarrow> Some (LRaised LNoMemory, w))
      | _ \<Rightarrow> k CNULL w)"

text \<open>\<open>(lua_tostring(L, i))[0]\<close>\<close>

definition get_char :: "'rb lua_api \<Rightarrow> lua_value list \<Rightarrow> nat \<Rightarrow> (char \<Rightarrow> 'rb lua_world \<Rightarrow> 'rb lua_outcome) \<Rightarrow> 'rb lua_world \<Rightarrow> 'rb lua_outcome" where
  "get_char L args i k = get_str L args i (\<lambda>p w.
     case p of
       CHeap a \<Rightarrow> do { s \<leftarrow> objs (cstrings (ljs w)) a; _ \<leftarrow> c_assert (s \<noteq> []); k (hd s) w }
     | _ \<Rightarrow> None)"

definition lua_cleared :: "'rb lua_world \<Rightarrow> 'rb js_world" where
  "lua_cleared w = (ljs w)\<lparr>errors := clear_exception (errors (ljs w))\<rparr>"

definition lua_after_call ::
  "'rb lua_api \<Rightarrow> 'r \<times> 'rb js_world \<Rightarrow> ('r \<Rightarrow> 'rb lua_world \<Rightarrow> 'rb lua_outcome) \<Rightarrow> 'rb lua_world \<Rightarrow> 'rb lua_outcome" where
  "lua_after_call L called k w =
     (case called of (r, j) \<Rightarrow>
        (case check_exception (errors j) of
           None \<Rightarrow> k r (w\<lparr>ljs := j\<rparr>)
         | Some buf \<Rightarrow> do { err \<leftarrow> c_string buf; luaL_error L err (w\<lparr>ljs := j\<rparr>) }))"

definition lua_guarded ::
  "'rb lua_api \<Rightarrow> ('rb js_world \<Rightarrow> ('r \<times> 'rb js_world) option) \<Rightarrow> ('r \<Rightarrow> 'rb lua_world \<Rightarrow> 'rb lua_outcome) \<Rightarrow>
     'rb lua_world \<Rightarrow> 'rb lua_outcome" where
  "lua_guarded L act k w = do { called \<leftarrow> act (lua_cleared w); lua_after_call L called k w }"

definition lua_guarded_exit ::
  "'rb lua_api \<Rightarrow> ('rb js_world \<Rightarrow> (int + ('r \<times> 'rb js_world)) option) \<Rightarrow> ('r \<Rightarrow> 'rb lua_world \<Rightarrow> 'rb lua_outcome) \<Rightarrow>
     'rb lua_world \<Rightarrow> 'rb lua_outcome" where
  "lua_guarded_exit L act k w = do {
     called \<leftarrow> act (lua_cleared w);
     (case called of
        Inl code \<Rightarrow> Some (LExited code, w)
      | Inr called \<Rightarrow> lua_after_call L called k w)
   }"

text \<open>The results: nothing, a number, a string (copied), an object.\<close>

definition push_none :: "'rb lua_world \<Rightarrow> 'rb lua_outcome" where
  "push_none w = Some (LReturned [], w)"

definition push_number :: "int \<Rightarrow> 'rb lua_world \<Rightarrow> 'rb lua_outcome" where
  "push_number n w = Some (LReturned [LNumber (to_double n)], w)"

definition push_str :: "char_ptr \<Rightarrow> 'rb lua_world \<Rightarrow> 'rb lua_outcome" where
  "push_str p w =
     (if p = CNULL then Some (LReturned [LNil], w)
      else do {
        s \<leftarrow> read_chars p (ljs w);
        let (v, w) = lua_pushstring s w
        in Some (case v of None \<Rightarrow> LRaised LNoMemory | Some v \<Rightarrow> LReturned [v], w)
      })"

definition push_ptr :: "ptr \<Rightarrow> addr \<Rightarrow> int \<Rightarrow> 'rb lua_world \<Rightarrow> 'rb lua_outcome" where
  "push_ptr p ty own w = do {
     (v, w) \<leftarrow> SWIG_Lua_NewPointerObj p ty own w;
     Some (case v of None \<Rightarrow> LRaised LNoMemory | Some v \<Rightarrow> LReturned [v], w)
   }"

text \<open>The indices of the types.\<close>

definition SWIGTYPE_lua_JsClient :: addr where "SWIGTYPE_lua_JsClient = 3"
definition SWIGTYPE_lua_JsEvent :: addr where "SWIGTYPE_lua_JsEvent = 4"
definition SWIGTYPE_lua_JsLatencyRange :: addr where "SWIGTYPE_lua_JsLatencyRange = 5"
definition SWIGTYPE_lua_JsPort :: addr where "SWIGTYPE_lua_JsPort = 6"
definition SWIGTYPE_lua_JsPortBuffer :: addr where "SWIGTYPE_lua_JsPortBuffer = 7"
definition SWIGTYPE_lua_StringList :: addr where "SWIGTYPE_lua_StringList = 8"
definition SWIGTYPE_lua_float :: addr where "SWIGTYPE_lua_float = 9"
definition SWIGTYPE_lua_void :: addr where "SWIGTYPE_lua_void = 12"

section \<open>Sample buffers\<close>

definition lua_delete_JsPortBuffer :: "ptr \<Rightarrow> 'rb lua_world \<Rightarrow> 'rb lua_world option" where
  "lua_delete_JsPortBuffer p w = map_option (\<lambda>j. w\<lparr>ljs := j\<rparr>) (delete_JsPortBuffer p (ljs w))"

definition lua_wrap_JsPortBuffer_getf :: "'rb lua_api \<Rightarrow> lua_value list \<Rightarrow> 'rb lua_world \<Rightarrow> 'rb lua_outcome" where
  "lua_wrap_JsPortBuffer_getf L args =
     SWIG_check_num_args ''JsPortBuffer::getf'' 2 2 args (
     check_ptr args ''JsPortBuffer::getf'' 1 ''JsPortBuffer *'' (
     check_num L args ''JsPortBuffer::getf'' 2 ''unsigned int'' (
     get_ptr args ''JsPortBuffer_getf'' 1 SWIGTYPE_lua_JsPortBuffer (\<lambda>arg1.
     get_uint L args 2 (\<lambda>arg2.
     lua_guarded L (reads (JsPortBuffer_getf arg1 arg2)) (\<lambda>result.
     push_ptr result SWIGTYPE_lua_float 0))))))"

definition lua_wrap_JsPortBuffer_setf :: "'rb lua_api \<Rightarrow> lua_value list \<Rightarrow> 'rb lua_world \<Rightarrow> 'rb lua_outcome" where
  "lua_wrap_JsPortBuffer_setf L args =
     SWIG_check_num_args ''JsPortBuffer::setf'' 3 3 args (
     check_ptr args ''JsPortBuffer::setf'' 1 ''JsPortBuffer *'' (
     check_num L args ''JsPortBuffer::setf'' 2 ''unsigned int'' (
     check_num L args ''JsPortBuffer::setf'' 3 ''float'' (
     get_ptr args ''JsPortBuffer_setf'' 1 SWIGTYPE_lua_JsPortBuffer (\<lambda>arg1.
     get_uint L args 2 (\<lambda>arg2.
     get_float L args 3 (\<lambda>arg3.
     lua_guarded L (changes (JsPortBuffer_setf arg1 arg2)) (\<lambda>result.
     push_none))))))))"

definition lua_wrap_JsPortBuffer_length :: "'rb lua_api \<Rightarrow> lua_value list \<Rightarrow> 'rb lua_world \<Rightarrow> 'rb lua_outcome" where
  "lua_wrap_JsPortBuffer_length L args =
     SWIG_check_num_args ''JsPortBuffer::length'' 1 1 args (
     check_ptr args ''JsPortBuffer::length'' 1 ''JsPortBuffer *'' (
     get_ptr args ''JsPortBuffer_length'' 1 SWIGTYPE_lua_JsPortBuffer (\<lambda>arg1.
     lua_guarded L (reads (JsPortBuffer_length arg1)) (\<lambda>result.
     push_number (uint result)))))"

definition lua_wrap_JsPortBuffer_toHexString :: "'rb lua_api \<Rightarrow> lua_value list \<Rightarrow> 'rb lua_world \<Rightarrow> 'rb lua_outcome" where
  "lua_wrap_JsPortBuffer_toHexString L args =
     SWIG_check_num_args ''JsPortBuffer::toHexString'' 4 4 args (
     check_ptr args ''JsPortBuffer::toHexString'' 1 ''JsPortBuffer *'' (
     check_num L args ''JsPortBuffer::toHexString'' 2 ''unsigned int'' (
     check_num L args ''JsPortBuffer::toHexString'' 3 ''unsigned int'' (
     check_str args ''JsPortBuffer::toHexString'' 4 ''char'' (
     get_ptr args ''JsPortBuffer_toHexString'' 1 SWIGTYPE_lua_JsPortBuffer (\<lambda>arg1.
     get_uint L args 2 (\<lambda>arg2.
     get_uint L args 3 (\<lambda>arg3.
     get_char L args 4 (\<lambda>arg4.
     lua_guarded L (JsPortBuffer_toHexString (l_jack L) arg1 arg2 arg3 arg4) (\<lambda>result.
     push_str result))))))))))"

definition lua_wrap_new_JsPortBuffer :: "'rb lua_api \<Rightarrow> lua_value list \<Rightarrow> 'rb lua_world \<Rightarrow> 'rb lua_outcome" where
  "lua_wrap_new_JsPortBuffer L args =
     SWIG_check_num_args ''JsPortBuffer::JsPortBuffer'' 0 0 args (
     lua_guarded L (makes port_buffers (\<lambda>h w. w\<lparr>port_buffers := h\<rparr>) \<lparr>pb_framebuf = NULL, pb_len = 0\<rparr>) (\<lambda>result.
     push_ptr result SWIGTYPE_lua_JsPortBuffer 1))"

section \<open>Latency ranges\<close>

definition lua_delete_JsLatencyRange :: "ptr \<Rightarrow> 'rb lua_world \<Rightarrow> 'rb lua_world option" where
  "lua_delete_JsLatencyRange p w = map_option (\<lambda>j. w\<lparr>ljs := j\<rparr>) (delete_JsLatencyRange p (ljs w))"

definition lua_wrap_JsLatencyRange_min :: "'rb lua_api \<Rightarrow> lua_value list \<Rightarrow> 'rb lua_world \<Rightarrow> 'rb lua_outcome" where
  "lua_wrap_JsLatencyRange_min L args =
     SWIG_check_num_args ''JsLatencyRange::min'' 1 1 args (
     check_ptr args ''JsLatencyRange::min'' 1 ''JsLatencyRange *'' (
     get_ptr args ''JsLatencyRange_min'' 1 SWIGTYPE_lua_JsLatencyRange (\<lambda>arg1.
     lua_guarded L (reads (JsLatencyRange_min arg1)) (\<lambda>result.
     push_number result))))"

definition lua_wrap_JsLatencyRange_max :: "'rb lua_api \<Rightarrow> lua_value list \<Rightarrow> 'rb lua_world \<Rightarrow> 'rb lua_outcome" where
  "lua_wrap_JsLatencyRange_max L args =
     SWIG_check_num_args ''JsLatencyRange::max'' 1 1 args (
     check_ptr args ''JsLatencyRange::max'' 1 ''JsLatencyRange *'' (
     get_ptr args ''JsLatencyRange_max'' 1 SWIGTYPE_lua_JsLatencyRange (\<lambda>arg1.
     lua_guarded L (reads (JsLatencyRange_max arg1)) (\<lambda>result.
     push_number result))))"

definition lua_wrap_new_JsLatencyRange :: "'rb lua_api \<Rightarrow> lua_value list \<Rightarrow> 'rb lua_world \<Rightarrow> 'rb lua_outcome" where
  "lua_wrap_new_JsLatencyRange L args =
     SWIG_check_num_args ''JsLatencyRange::JsLatencyRange'' 0 0 args (
     lua_guarded L (makes latency_ranges (\<lambda>h w. w\<lparr>latency_ranges := h\<rparr>) \<lparr>lr_rmin = 0, lr_rmax = 0\<rparr>) (\<lambda>result.
     push_ptr result SWIGTYPE_lua_JsLatencyRange 1))"

section \<open>Lists of names\<close>

definition lua_delete_StringList :: "ptr \<Rightarrow> 'rb lua_world \<Rightarrow> 'rb lua_world option" where
  "lua_delete_StringList p w = map_option (\<lambda>j. w\<lparr>ljs := j\<rparr>) (delete_StringList p (ljs w))"

definition lua_wrap_StringList_get :: "'rb lua_api \<Rightarrow> lua_value list \<Rightarrow> 'rb lua_world \<Rightarrow> 'rb lua_outcome" where
  "lua_wrap_StringList_get L args =
     SWIG_check_num_args ''StringList::get'' 2 2 args (
     check_ptr args ''StringList::get'' 1 ''StringList *'' (
     check_num L args ''StringList::get'' 2 ''int'' (
     get_ptr args ''StringList_get'' 1 SWIGTYPE_lua_StringList (\<lambda>arg1.
     get_int L args 2 (\<lambda>arg2.
     lua_guarded L (reads (StringList_get arg1 arg2)) (\<lambda>result.
     push_str result))))))"

definition lua_wrap_StringList_length :: "'rb lua_api \<Rightarrow> lua_value list \<Rightarrow> 'rb lua_world \<Rightarrow> 'rb lua_outcome" where
  "lua_wrap_StringList_length L args =
     SWIG_check_num_args ''StringList::length'' 1 1 args (
     check_ptr args ''StringList::length'' 1 ''StringList *'' (
     get_ptr args ''StringList_length'' 1 SWIGTYPE_lua_StringList (\<lambda>arg1.
     lua_guarded L (StringList_length arg1) (\<lambda>result.
     push_number (uint result)))))"

definition lua_wrap_new_StringList :: "'rb lua_api \<Rightarrow> lua_value list \<Rightarrow> 'rb lua_world \<Rightarrow> 'rb lua_outcome" where
  "lua_wrap_new_StringList L args =
     SWIG_check_num_args ''StringList::StringList'' 0 0 args (
     lua_guarded L (makes string_lists (\<lambda>h w. w\<lparr>string_lists := h\<rparr>) \<lparr>sl_impl = None, sl_len = 0\<rparr>) (\<lambda>result.
     push_ptr result SWIGTYPE_lua_StringList 1))"

section \<open>Ports\<close>

definition lua_delete_JsPort :: "ptr \<Rightarrow> 'rb lua_world \<Rightarrow> 'rb lua_world option" where
  "lua_delete_JsPort p w = map_option (\<lambda>j. w\<lparr>ljs := j\<rparr>) (delete_JsPort p (ljs w))"

definition lua_wrap_JsPort_getBuffer :: "'rb lua_api \<Rightarrow> lua_value list \<Rightarrow> 'rb lua_world \<Rightarrow> 'rb lua_outcome" where
  "lua_wrap_JsPort_getBuffer L args =
     SWIG_check_num_args ''JsPort::getBuffer'' 1 1 args (
     check_ptr args ''JsPort::getBuffer'' 1 ''JsPort *'' (
     get_ptr args ''JsPort_getBuffer'' 1 SWIGTYPE_lua_JsPort (\<lambda>arg1.
     lua_guarded L (JsPort_getBuffer (l_jack L) arg1) (\<lambda>result.
     push_ptr result SWIGTYPE_lua_JsPortBuffer 0))))"

definition lua_wrap_JsPort_name :: "'rb lua_api \<Rightarrow> lua_value list \<Rightarrow> 'rb lua_world \<Rightarrow> 'rb lua_outcome" where
  "lua_wrap_JsPort_name L args =
     SWIG_check_num_args ''JsPort::name'' 1 1 args (
     check_ptr args ''JsPort::name'' 1 ''JsPort *'' (
     get_ptr args ''JsPort_name'' 1 SWIGTYPE_lua_JsPort (\<lambda>arg1.
     lua_guarded L (reads (JsPort_name (l_jack L) arg1)) (\<lambda>result.
     push_str result))))"

definition lua_wrap_JsPort_connect :: "'rb lua_api \<Rightarrow> lua_value list \<Rightarrow> 'rb lua_world \<Rightarrow> 'rb lua_outcome" where
  "lua_wrap_JsPort_connect L args =
     SWIG_check_num_args ''JsPort::connect'' 2 2 args (
     check_ptr args ''JsPort::connect'' 1 ''JsPort *'' (
     check_ptr args ''JsPort::connect'' 2 ''JsPort *'' (
     get_ptr args ''JsPort_connect'' 1 SWIGTYPE_lua_JsPort (\<lambda>arg1.
     get_ptr args ''JsPort_connect'' 2 SWIGTYPE_lua_JsPort (\<lambda>arg2.
     lua_guarded L (JsPort_connect (l_jack L) arg1 arg2) (\<lambda>result.
     push_number result))))))"

definition lua_wrap_JsPort_getLatencyRange :: "'rb lua_api \<Rightarrow> lua_value list \<Rightarrow> 'rb lua_world \<Rightarrow> 'rb lua_outcome" where
  "lua_wrap_JsPort_getLatencyRange L args =
     SWIG_check_num_args ''JsPort::getLatencyRange'' 2 2 args (
     check_ptr args ''JsPort::getLatencyRange'' 1 ''JsPort *'' (
     check_num L args ''JsPort::getLatencyRange'' 2 ''enum JackLatencyCallbackMode'' (
     get_ptr args ''JsPort_getLatencyRange'' 1 SWIGTYPE_lua_JsPort (\<lambda>arg1.
     get_int L args 2 (\<lambda>arg2.
     lua_guarded L (JsPort_getLatencyRange (l_jack L) arg1 arg2) (\<lambda>result.
     push_ptr result SWIGTYPE_lua_JsLatencyRange 0))))))"

definition lua_wrap_JsPort_setLatencyRange :: "'rb lua_api \<Rightarrow> lua_value list \<Rightarrow> 'rb lua_world \<Rightarrow> 'rb lua_outcome" where
  "lua_wrap_JsPort_setLatencyRange L args =
     SWIG_check_num_args ''JsPort::setLatencyRange'' 4 4 args (
     check_ptr args ''JsPort::setLatencyRange'' 1 ''JsPort *'' (
     check_num L args ''JsPort::setLatencyRange'' 2 ''enum JackLatencyCallbackMode'' (
     check_num L args ''JsPort::setLatencyRange'' 3 ''int'' (
     check_num L args ''JsPort::setLatencyRange'' 4 ''int'' (
     get_ptr args ''JsPort_setLatencyRange'' 1 SWIGTYPE_lua_JsPort (\<lambda>arg1.
     get_int L args 2 (\<lambda>arg2.
     get_int L args 3 (\<lambda>arg3.
     get_int L args 4 (\<lambda>arg4.
     lua_guarded L (changes (JsPort_setLatencyRange arg1 arg2 arg3 arg4)) (\<lambda>result.
     push_none))))))))))"

definition lua_wrap_JsPort_wakeupLatencyCallbacks :: "'rb lua_api \<Rightarrow> lua_value list \<Rightarrow> 'rb lua_world \<Rightarrow> 'rb lua_outcome" where
  "lua_wrap_JsPort_wakeupLatencyCallbacks L args =
     SWIG_check_num_args ''JsPort::wakeupLatencyCallbacks'' 1 1 args (
     check_ptr args ''JsPort::wakeupLatencyCallbacks'' 1 ''JsPort *'' (
     get_ptr args ''JsPort_wakeupLatencyCallbacks'' 1 SWIGTYPE_lua_JsPort (\<lambda>arg1.
     lua_guarded L (changes (JsPort_wakeupLatencyCallbacks arg1)) (\<lambda>result.
     push_none))))"

definition lua_wrap_JsPort_wakeupSigLatencyCallback :: "'rb lua_api \<Rightarrow> lua_value list \<Rightarrow> 'rb lua_world \<Rightarrow> 'rb lua_outcome" where
  "lua_wrap_JsPort_wakeupSigLatencyCallback L args =
     SWIG_check_num_args ''JsPort::wakeupSigLatencyCallback'' 1 1 args (
     check_ptr args ''JsPort::wakeupSigLatencyCallback'' 1 ''JsPort *'' (
     get_ptr args ''JsPort_wakeupSigLatencyCallback'' 1 SWIGTYPE_lua_JsPort (\<lambda>arg1.
     lua_guarded L (changes (JsPort_wakeupSigLatencyCallback arg1)) (\<lambda>result.
     push_none))))"

definition lua_wrap_JsPort_initCaptureLatencyListener :: "'rb lua_api \<Rightarrow> lua_value list \<Rightarrow> 'rb lua_world \<Rightarrow> 'rb lua_outcome" where
  "lua_wrap_JsPort_initCaptureLatencyListener L args =
     SWIG_check_num_args ''JsPort::initCaptureLatencyListener'' 1 1 args (
     check_ptr args ''JsPort::initCaptureLatencyListener'' 1 ''JsPort *'' (
     get_ptr args ''JsPort_initCaptureLatencyListener'' 1 SWIGTYPE_lua_JsPort (\<lambda>arg1.
     lua_guarded L (JsPort_initCaptureLatencyListener (l_jack L) arg1) (\<lambda>result.
     push_number result))))"

definition lua_wrap_JsPort_initPlaybackLatencyListener :: "'rb lua_api \<Rightarrow> lua_value list \<Rightarrow> 'rb lua_world \<Rightarrow> 'rb lua_outcome" where
  "lua_wrap_JsPort_initPlaybackLatencyListener L args =
     SWIG_check_num_args ''JsPort::initPlaybackLatencyListener'' 1 1 args (
     check_ptr args ''JsPort::initPlaybackLatencyListener'' 1 ''JsPort *'' (
     get_ptr args ''JsPort_initPlaybackLatencyListener'' 1 SWIGTYPE_lua_JsPort (\<lambda>arg1.
     lua_guarded L (JsPort_initPlaybackLatencyListener (l_jack L) arg1) (\<lambda>result.
     push_number result))))"

definition lua_wrap_JsPort_initLatencyListener :: "'rb lua_api \<Rightarrow> lua_value list \<Rightarrow> 'rb lua_world \<Rightarrow> 'rb lua_outcome" where
  "lua_wrap_JsPort_initLatencyListener L args =
     SWIG_check_num_args ''JsPort::initLatencyListener'' 1 1 args (
     check_ptr args ''JsPort::initLatencyListener'' 1 ''JsPort *'' (
     get_ptr args ''JsPort_initLatencyListener'' 1 SWIGTYPE_lua_JsPort (\<lambda>arg1.
     lua_guarded L (JsPort_initLatencyListener (l_jack L) arg1) (\<lambda>result.
     push_number result))))"

definition lua_wrap_new_JsPort :: "'rb lua_api \<Rightarrow> lua_value list \<Rightarrow> 'rb lua_world \<Rightarrow> 'rb lua_outcome" where
  "lua_wrap_new_JsPort L args =
     SWIG_check_num_args ''JsPort::JsPort'' 0 0 args (
     lua_guarded L (makes js_ports (\<lambda>h w. w\<lparr>js_ports := h\<rparr>) \<lparr>jp_impl = NULL, jp_clientimpl = NULL\<rparr>) (\<lambda>result.
     push_ptr result SWIGTYPE_lua_JsPort 1))"

section \<open>Events\<close>

definition lua_delete_JsEvent :: "ptr \<Rightarrow> 'rb lua_world \<Rightarrow> 'rb lua_world option" where
  "lua_delete_JsEvent p w = map_option (\<lambda>j. w\<lparr>ljs := j\<rparr>) (delete_JsEvent p (ljs w))"

definition lua_wrap_JsEvent_getType :: "'rb lua_api \<Rightarrow> lua_value list \<Rightarrow> 'rb lua_world \<Rightarrow> 'rb lua_outcome" where
  "lua_wrap_JsEvent_getType L args =
     SWIG_check_num_args ''JsEvent::getType'' 1 1 args (
     check_ptr args ''JsEvent::getType'' 1 ''JsEvent *'' (
     get_ptr args ''JsEvent_getType'' 1 SWIGTYPE_lua_JsEvent (\<lambda>arg1.
     lua_guarded L (reads (JsEvent_getType arg1)) (\<lambda>result.
     push_number result))))"

definition lua_wrap_JsEvent_getData :: "'rb lua_api \<Rightarrow> lua_value list \<Rightarrow> 'rb lua_world \<Rightarrow> 'rb lua_outcome" where
  "lua_wrap_JsEvent_getData L args =
     SWIG_check_num_args ''JsEvent::getData'' 1 1 args (
     check_ptr args ''JsEvent::getData'' 1 ''JsEvent *'' (
     get_ptr args ''JsEvent_getData'' 1 SWIGTYPE_lua_JsEvent (\<lambda>arg1.
     lua_guarded L (reads (JsEvent_getData arg1)) (\<lambda>result.
     push_ptr result SWIGTYPE_lua_void 0))))"

definition lua_wrap_JsEvent_complete :: "'rb lua_api \<Rightarrow> lua_value list \<Rightarrow> 'rb lua_world \<Rightarrow> 'rb lua_outcome" where
  "lua_wrap_JsEvent_complete L args =
     SWIG_check_num_args ''JsEvent::complete'' 1 1 args (
     check_ptr args ''JsEvent::complete'' 1 ''JsEvent *'' (
     get_ptr args ''JsEvent_complete'' 1 SWIGTYPE_lua_JsEvent (\<lambda>arg1.
     lua_guarded L (changes (JsEvent_complete arg1)) (\<lambda>result.
     push_none))))"

definition lua_wrap_JsEvent_getSessionEventType :: "'rb lua_api \<Rightarrow> lua_value list \<Rightarrow> 'rb lua_world \<Rightarrow> 'rb lua_outcome" where
  "lua_wrap_JsEvent_getSessionEventType L args =
     SWIG_check_num_args ''JsEvent::getSessionEventType'' 1 1 args (
     check_ptr args ''JsEvent::getSessionEventType'' 1 ''JsEvent *'' (
     get_ptr args ''JsEvent_getSessionEventType'' 1 SWIGTYPE_lua_JsEvent (\<lambda>arg1.
     lua_guarded L (JsEvent_getSessionEventType arg1) (\<lambda>result.
     push_number result))))"

definition lua_wrap_JsEvent_getSessionDir :: "'rb lua_api \<Rightarrow> lua_value list \<Rightarrow> 'rb lua_world \<Rightarrow> 'rb lua_outcome" where
  "lua_wrap_JsEvent_getSessionDir L args =
     SWIG_check_num_args ''JsEvent::getSessionDir'' 1 1 args (
     check_ptr args ''JsEvent::getSessionDir'' 1 ''JsEvent *'' (
     get_ptr args ''JsEvent_getSessionDir'' 1 SWIGTYPE_lua_JsEvent (\<lambda>arg1.
     lua_guarded L (JsEvent_getSessionDir arg1) (\<lambda>result.
     push_str result))))"

definition lua_wrap_JsEvent_setSessionDir :: "'rb lua_api \<Rightarrow> lua_value list \<Rightarrow> 'rb lua_world \<Rightarrow> 'rb lua_outcome" where
  "lua_wrap_JsEvent_setSessionDir L args =
     SWIG_check_num_args ''JsEvent::setSessionDir'' 2 2 args (
     check_ptr args ''JsEvent::setSessionDir'' 1 ''JsEvent *'' (
     check_str args ''JsEvent::setSessionDir'' 2 ''char const *'' (
     get_ptr args ''JsEvent_setSessionDir'' 1 SWIGTYPE_lua_JsEvent (\<lambda>arg1.
     get_str L args 2 (\<lambda>arg2.
     lua_guarded L (changes (JsEvent_setSessionDir arg1 arg2)) (\<lambda>result.
     push_none))))))"

definition lua_wrap_JsEvent_getClientUuid :: "'rb lua_api \<Rightarrow> lua_value list \<Rightarrow> 'rb lua_world \<Rightarrow> 'rb lua_outcome" where
  "lua_wrap_JsEvent_getClientUuid L args =
     SWIG_check_num_args ''JsEvent::getClientUuid'' 1 1 args (
     check_ptr args ''JsEvent::getClientUuid'' 1 ''JsEvent *'' (
     get_ptr args ''JsEvent_getClientUuid'' 1 SWIGTYPE_lua_JsEvent (\<lambda>arg1.
     lua_guarded L (JsEvent_getClientUuid arg1) (\<lambda>result.
     push_str result))))"

definition lua_wrap_JsEvent_setClientUuid :: "'rb lua_api \<Rightarrow> lua_value list \<Rightarrow> 'rb lua_world \<Rightarrow> 'rb lua_outcome" where
  "lua_wrap_JsEvent_setClientUuid L args =
     SWIG_check_num_args ''JsEvent::setClientUuid'' 2 2 args (
     check_ptr args ''JsEvent::setClientUuid'' 1 ''JsEvent *'' (
     check_str args ''JsEvent::setClientUuid'' 2 ''char const *'' (
     get_ptr args ''JsEvent_setClientUuid'' 1 SWIGTYPE_lua_JsEvent (\<lambda>arg1.
     get_str L args 2 (\<lambda>arg2.
     lua_guarded L (changes (JsEvent_setClientUuid arg1 arg2)) (\<lambda>result.
     push_none))))))"

definition lua_wrap_JsEvent_getCommandLine :: "'rb lua_api \<Rightarrow> lua_value list \<Rightarrow> 'rb lua_world \<Rightarrow> 'rb lua_outcome" where
  "lua_wrap_JsEvent_getCommandLine L args =
     SWIG_check_num_args ''JsEvent::getCommandLine'' 1 1 args (
     check_ptr args ''JsEvent::getCommandLine'' 1 ''JsEvent *'' (
     get_ptr args ''JsEvent_getCommandLine'' 1 SWIGTYPE_lua_JsEvent (\<lambda>arg1.
     lua_guarded L (JsEvent_getCommandLine arg1) (\<lambda>result.
     push_str result))))"

definition lua_wrap_JsEvent_setCommandLine :: "'rb lua_api \<Rightarrow> lua_value list \<Rightarrow> 'rb lua_world \<Rightarrow> 'rb lua_outcome" where
  "lua_wrap_JsEvent_setCommandLine L args =
     SWIG_check_num_args ''JsEvent::setCommandLine'' 2 2 args (
     check_ptr args ''JsEvent::setCommandLine'' 1 ''JsEvent *'' (
     check_str args ''JsEvent::setCommandLine'' 2 ''char *'' (
     get_ptr args ''JsEvent_setCommandLine'' 1 SWIGTYPE_lua_JsEvent (\<lambda>arg1.
     get_str L args 2 (\<lambda>arg2.
     lua_guarded L (changes (JsEvent_setCommandLine arg1 arg2)) (\<lambda>result.
     push_none))))))"

definition lua_wrap_JsEvent_getSessionEventFlags :: "'rb lua_api \<Rightarrow> lua_value list \<Rightarrow> 'rb lua_world \<Rightarrow> 'rb lua_outcome" where
  "lua_wrap_JsEvent_getSessionEventFlags L args =
     SWIG_check_num_args ''JsEvent::getSessionEventFlags'' 1 1 args (
     check_ptr args ''JsEvent::getSessionEventFlags'' 1 ''JsEvent *'' (
     get_ptr args ''JsEvent_getSessionEventFlags'' 1 SWIGTYPE_lua_JsEvent (\<lambda>arg1.
     lua_guarded L (JsEvent_getSessionEventFlags arg1) (\<lambda>result.
     push_number result))))"

definition lua_wrap_JsEvent_setSessionEventFlags :: "'rb lua_api \<Rightarrow> lua_value list \<Rightarrow> 'rb lua_world \<Rightarrow> 'rb lua_outcome" where
  "lua_wrap_JsEvent_setSessionEventFlags L args =
     SWIG_check_num_args ''JsEvent::setSessionEventFlags'' 2 2 args (
     check_ptr args ''JsEvent::setSessionEventFlags'' 1 ''JsEvent *'' (
     check_num L args ''JsEvent::setSessionEventFlags'' 2 ''jack_session_flags_t'' (
     get_ptr args ''JsEvent_setSessionEventFlags'' 1 SWIGTYPE_lua_JsEvent (\<lambda>arg1.
     get_int L args 2 (\<lambda>arg2.
     lua_guarded L (changes (JsEvent_setSessionEventFlags arg1 arg2)) (\<lambda>result.
     push_none))))))"

definition lua_wrap_new_JsEvent :: "'rb lua_api \<Rightarrow> lua_value list \<Rightarrow> 'rb lua_world \<Rightarrow> 'rb lua_outcome" where
  "lua_wrap_new_JsEvent L args =
     SWIG_check_num_args ''JsEvent::JsEvent'' 0 0 args (
     lua_guarded L (makes js_events (\<lambda>h w. w\<lparr>js_events := h\<rparr>) \<lparr>jv_impl = NULL\<rparr>) (\<lambda>result.
     push_ptr result SWIGTYPE_lua_JsEvent 1))"

section \<open>Clients\<close>

definition lua_wrap_new_JsClient :: "'rb lua_api \<Rightarrow> lua_value list \<Rightarrow> 'rb lua_world \<Rightarrow> 'rb lua_outcome" where
  "lua_wrap_new_JsClient L args =
     SWIG_check_num_args ''JsClient::JsClient'' 4 4 args (
     check_str args ''JsClient::JsClient'' 1 ''char const *'' (
     check_str args ''JsClient::JsClient'' 2 ''char const *'' (
     check_num L args ''JsClient::JsClient'' 3 ''jack_options_t'' (
     check_num L args ''JsClient::JsClient'' 4 ''unsigned int'' (
     get_str L args 1 (\<lambda>arg1.
     get_str L args 2 (\<lambda>arg2.
     get_int L args 3 (\<lambda>arg3.
     get_uint L args 4 (\<lambda>arg4.
     lua_guarded_exit L (new_JsClient (l_jack L) arg1 arg2 arg3 arg4) (\<lambda>result.
     push_ptr result SWIGTYPE_lua_JsClient 1))))))))))"

definition lua_delete_JsClient :: "ptr \<Rightarrow> 'rb lua_world \<Rightarrow> 'rb lua_world option" where
  "lua_delete_JsClient p w = map_option (\<lambda>j. w\<lparr>ljs := j\<rparr>) (delete_JsClient p (ljs w))"

definition lua_wrap_JsClient_getPortNamesByType :: "'rb lua_api \<Rightarrow> lua_value list \<Rightarrow> 'rb lua_world \<Rightarrow> 'rb lua_outcome" where
  "lua_wrap_JsClient_getPortNamesByType L args =
     SWIG_check_num_args ''JsClient::getPortNamesByType'' 4 4 args (
     check_ptr args ''JsClient::getPortNamesByType'' 1 ''JsClient *'' (
     check_str args ''JsClient::getPortNamesByType'' 2 ''char const *'' (
     check_str args ''JsClient::getPortNamesByType'' 3 ''char const *'' (
     check_num L args ''JsClient::getPortNamesByType'' 4 ''enum JackPortFlags'' (
     get_ptr args ''JsClient_getPortNamesByType'' 1 SWIGTYPE_lua_JsClient (\<lambda>arg1.
     get_str L args 2 (\<lambda>arg2.
     get_str L args 3 (\<lambda>arg3.
     get_int L args 4 (\<lambda>arg4.
     lua_guarded L (JsClient_getPortNamesByType (l_jack L) arg1 arg2 arg3 arg4) (\<lambda>result.
     push_ptr result SWIGTYPE_lua_StringList 0))))))))))"

definition lua_wrap_JsClient_getPortNames :: "'rb lua_api \<Rightarrow> lua_value list \<Rightarrow> 'rb lua_world \<Rightarrow> 'rb lua_outcome" where
  "lua_wrap_JsClient_getPortNames L args =
     SWIG_check_num_args ''JsClient::getPortNames'' 2 2 args (
     check_ptr args ''JsClient::getPortNames'' 1 ''JsClient *'' (
     check_str args ''JsClient::getPortNames'' 2 ''char const *'' (
     get_ptr args ''JsClient_getPortNames'' 1 SWIGTYPE_lua_JsClient (\<lambda>arg1.
     get_str L args 2 (\<lambda>arg2.
     lua_guarded L (JsClient_getPortNames (l_jack L) arg1 arg2) (\<lambda>result.
     push_ptr result SWIGTYPE_lua_StringList 0))))))"

definition lua_wrap_JsClient_getPort :: "'rb lua_api \<Rightarrow> lua_value list \<Rightarrow> 'rb lua_world \<Rightarrow> 'rb lua_outcome" where
  "lua_wrap_JsClient_getPort L args =
     SWIG_check_num_args ''JsClient::getPort'' 2 2 args (
     check_ptr args ''JsClient::getPort'' 1 ''JsClient *'' (
     check_str args ''JsClient::getPort'' 2 ''char *'' (
     get_ptr args ''JsClient_getPort'' 1 SWIGTYPE_lua_JsClient (\<lambda>arg1.
     get_str L args 2 (\<lambda>arg2.
     lua_guarded L (JsClient_getPort (l_jack L) arg1 arg2) (\<lambda>result.
     push_ptr result SWIGTYPE_lua_JsPort 0))))))"

definition lua_wrap_JsClient_registerPort :: "'rb lua_api \<Rightarrow> lua_value list \<Rightarrow> 'rb lua_world \<Rightarrow> 'rb lua_outcome" where
  "lua_wrap_JsClient_registerPort L args =
     SWIG_check_num_args ''JsClient::registerPort'' 3 3 args (
     check_ptr args ''JsClient::registerPort'' 1 ''JsClient *'' (
     check_str args ''JsClient::registerPort'' 2 ''char *'' (
     check_num L args ''JsClient::registerPort'' 3 ''unsigned long'' (
     get_ptr args ''JsClient_registerPort'' 1 SWIGTYPE_lua_JsClient (\<lambda>arg1.
     get_str L args 2 (\<lambda>arg2.
     get_ulong L args 3 (\<lambda>arg3.
     lua_guarded L (JsClient_registerPort (l_jack L) arg1 arg2 arg3) (\<lambda>result.
     push_ptr result SWIGTYPE_lua_JsPort 0))))))))"

definition lua_wrap_JsClient_getEvent :: "'rb lua_api \<Rightarrow> lua_value list \<Rightarrow> 'rb lua_world \<Rightarrow> 'rb lua_outcome" where
  "lua_wrap_JsClient_getEvent L args =
     SWIG_check_num_args ''JsClient::getEvent'' 2 2 args (
     check_ptr args ''JsClient::getEvent'' 1 ''JsClient *'' (
     check_num L args ''JsClient::getEvent'' 2 ''long'' (
     get_ptr args ''JsClient_getEvent'' 1 SWIGTYPE_lua_JsClient (\<lambda>arg1.
     get_long L args 2 (\<lambda>arg2.
     lua_guarded L (JsClient_getEvent (l_env L) arg1 arg2) (\<lambda>result.
     push_ptr result SWIGTYPE_lua_JsEvent 0))))))"

definition lua_wrap_JsClient_getSampleRate :: "'rb lua_api \<Rightarrow> lua_value list \<Rightarrow> 'rb lua_world \<Rightarrow> 'rb lua_outcome" where
  "lua_wrap_JsClient_getSampleRate L args =
     SWIG_check_num_args ''JsClient::getSampleRate'' 1 1 args (
     check_ptr args ''JsClient::getSampleRate'' 1 ''JsClient *'' (
     get_ptr args ''JsClient_getSampleRate'' 1 SWIGTYPE_lua_JsClient (\<lambda>arg1.
     lua_guarded L (reads (JsClient_getSampleRate (l_jack L) arg1)) (\<lambda>result.
     push_number (uint result)))))"

definition lua_wrap_JsClient_activate :: "'rb lua_api \<Rightarrow> lua_value list \<Rightarrow> 'rb lua_world \<Rightarrow> 'rb lua_outcome" where
  "lua_wrap_JsClient_activate L args =
     SWIG_check_num_args ''JsClient::activate'' 1 1 args (
     check_ptr args ''JsClient::activate'' 1 ''JsClient *'' (
     get_ptr args ''JsClient_activate'' 1 SWIGTYPE_lua_JsClient (\<lambda>arg1.
     lua_guarded L (JsClient_activate (l_jack L) arg1) (\<lambda>result.
     push_number result))))"

definition lua_wrap_JsClient_getName :: "'rb lua_api \<Rightarrow> lua_value list \<Rightarrow> 'rb lua_world \<Rightarrow> 'rb lua_outcome" where
  "lua_wrap_JsClient_getName L args =
     SWIG_check_num_args ''JsClient::getName'' 1 1 args (
     check_ptr args ''JsClient::getName'' 1 ''JsClient *'' (
     get_ptr args ''JsClient_getName'' 1 SWIGTYPE_lua_JsClient (\<lambda>arg1.
     lua_guarded L (reads (JsClient_getName (l_jack L) arg1)) (\<lambda>result.
     push_str result))))"

definition lua_wrap_JsClient_getTransportState :: "'rb lua_api \<Rightarrow> lua_value list \<Rightarrow> 'rb lua_world \<Rightarrow> 'rb lua_outcome" where
  "lua_wrap_JsClient_getTransportState L args =
     SWIG_check_num_args ''JsClient::getTransportState'' 1 1 args (
     check_ptr args ''JsClient::getTransportState'' 1 ''JsClient *'' (
     get_ptr args ''JsClient_getTransportState'' 1 SWIGTYPE_lua_JsClient (\<lambda>arg1.
     lua_guarded L (reads (JsClient_getTransportState (l_jack L) arg1)) (\<lambda>result.
     push_number result))))"

definition lua_wrap_JsClient_recomputeLatencies :: "'rb lua_api \<Rightarrow> lua_value list \<Rightarrow> 'rb lua_world \<Rightarrow> 'rb lua_outcome" where
  "lua_wrap_JsClient_recomputeLatencies L args =
     SWIG_check_num_args ''JsClient::recomputeLatencies'' 1 1 args (
     check_ptr args ''JsClient::recomputeLatencies'' 1 ''JsClient *'' (
     get_ptr args ''JsClient_recomputeLatencies'' 1 SWIGTYPE_lua_JsClient (\<lambda>arg1.
     lua_guarded L (changes (JsClient_recomputeLatencies (l_jack L) arg1)) (\<lambda>result.
     push_none))))"

section \<open>The tables of the classes\<close>

definition wrap_class_JsPortBuffer :: swig_lua_class where
  "wrap_class_JsPortBuffer =
     \<lparr>lc_name = ''JsPortBuffer'', lc_type = SWIGTYPE_lua_JsPortBuffer, lc_constructor = Some ''_wrap_new_JsPortBuffer'', lc_destructor = Some ''swig_delete_JsPortBuffer'',
      lc_methods =
        [(''getf'', ''_wrap_JsPortBuffer_getf''), (''setf'', ''_wrap_JsPortBuffer_setf''),
         (''length'', ''_wrap_JsPortBuffer_length''), (''toHexString'', ''_wrap_JsPortBuffer_toHexString'')],
      lc_attributes = [], lc_bases = [], lc_base_names = []\<rparr>"

definition wrap_class_JsLatencyRange :: swig_lua_class where
  "wrap_class_JsLatencyRange =
     \<lparr>lc_name = ''JsLatencyRange'', lc_type = SWIGTYPE_lua_JsLatencyRange, lc_constructor = Some ''_wrap_new_JsLatencyRange'', lc_destructor = Some ''swig_delete_JsLatencyRange'',
      lc_methods =
        [(''min'', ''_wrap_JsLatencyRange_min''), (''max'', ''_wrap_JsLatencyRange_max'')],
      lc_attributes = [], lc_bases = [], lc_base_names = []\<rparr>"

definition wrap_class_StringList :: swig_lua_class where
  "wrap_class_StringList =
     \<lparr>lc_name = ''StringList'', lc_type = SWIGTYPE_lua_StringList, lc_constructor = Some ''_wrap_new_StringList'', lc_destructor = Some ''swig_delete_StringList'',
      lc_methods =
        [(''get'', ''_wrap_StringList_get''), (''length'', ''_wrap_StringList_length'')],
      lc_attributes = [], lc_bases = [], lc_base_names = []\<rparr>"

definition wrap_class_JsPort :: swig_lua_class where
  "wrap_class_JsPort =
     \<lparr>lc_name = ''JsPort'', lc_type = SWIGTYPE_lua_JsPort, lc_constructor = Some ''_wrap_new_JsPort'', lc_destructor = Some ''swig_delete_JsPort'',
      lc_methods =
        [(''getBuffer'', ''_wrap_JsPort_getBuffer''), (''name'', ''_wrap_JsPort_name''),
         (''connect'', ''_wrap_JsPort_connect''), (''getLatencyRange'', ''_wrap_JsPort_getLatencyRange''),
         (''setLatencyRange'', ''_wrap_JsPort_setLatencyRange''),
         (''wakeupLatencyCallbacks'', ''_wrap_JsPort_wakeupLatencyCallbacks''),
         (''wakeupSigLatencyCallback'', ''_wrap_JsPort_wakeupSigLatencyCallback''),
         (''initCaptureLatencyListener'', ''_wrap_JsPort_initCaptureLatencyListener''),
         (''initPlaybackLatencyListener'', ''_wrap_JsPort_initPlaybackLatencyListener''),
         (''initLatencyListener'', ''_wrap_JsPort_initLatencyListener'')],
      lc_attributes = [], lc_bases = [], lc_base_names = []\<rparr>"

definition wrap_class_JsEvent :: swig_lua_class where
  "wrap_class_JsEvent =
     \<lparr>lc_name = ''JsEvent'', lc_type = SWIGTYPE_lua_JsEvent, lc_constructor = Some ''_wrap_new_JsEvent'', lc_destructor = Some ''swig_delete_JsEvent'',
      lc_methods =
        [(''getType'', ''_wrap_JsEvent_getType''), (''getData'', ''_wrap_JsEvent_getData''),
         (''complete'', ''_wrap_JsEvent_complete''),
         (''getSessionEventType'', ''_wrap_JsEvent_getSessionEventType''),
         (''getSessionDir'', ''_wrap_JsEvent_getSessionDir''),
         (''setSessionDir'', ''_wrap_JsEvent_setSessionDir''),
         (''getClientUuid'', ''_wrap_JsEvent_getClientUuid''),
         (''setClientUuid'', ''_wrap_JsEvent_setClientUuid''),
         (''getCommandLine'', ''_wrap_JsEvent_getCommandLine''),
         (''setCommandLine'', ''_wrap_JsEvent_setCommandLine''),
         (''getSessionEventFlags'', ''_wrap_JsEvent_getSessionEventFlags''),
         (''setSessionEventFlags'', ''_wrap_JsEvent_setSessionEventFlags'')],
      lc_attributes = [], lc_bases = [], lc_base_names = []\<rparr>"

definition wrap_class_JsClient :: swig_lua_class where
  "wrap_class_JsClient =
     \<lparr>lc_name = ''JsClient'', lc_type = SWIGTYPE_lua_JsClient, lc_constructor = Some ''_wrap_new_JsClient'', lc_destructor = Some ''swig_delete_JsClient'',
      lc_methods =
        [(''getPortNamesByType'', ''_wrap_JsClient_getPortNamesByType''),
         (''getPortNames'', ''_wrap_JsClient_getPortNames''), (''getPort'', ''_wrap_JsClient_getPort''),
         (''registerPort'', ''_wrap_JsClient_registerPort''), (''getEvent'', ''_wrap_JsClient_getEvent''),
         (''getSampleRate'', ''_wrap_JsClient_getSampleRate''), (''activate'', ''_wrap_JsClient_activate''),
         (''getName'', ''_wrap_JsClient_getName''),
         (''getTransportState'', ''_wrap_JsClient_getTransportState''),
         (''recomputeLatencies'', ''_wrap_JsClient_recomputeLatencies'')],
      lc_attributes = [], lc_bases = [], lc_base_names = []\<rparr>"

definition swig_lua_classes :: "addr \<rightharpoonup> swig_lua_class" where
  "swig_lua_classes =
     [3 \<mapsto> wrap_class_JsClient, 4 \<mapsto> wrap_class_JsEvent, 5 \<mapsto> wrap_class_JsLatencyRange,
      6 \<mapsto> wrap_class_JsPort, 7 \<mapsto> wrap_class_JsPortBuffer, 8 \<mapsto> wrap_class_StringList]"

section \<open>The C functions by name\<close>

definition lua_functions :: "'rb lua_api \<Rightarrow> (string \<times> (lua_value list \<Rightarrow> 'rb lua_world \<Rightarrow> 'rb lua_outcome)) list" where
  "lua_functions L =
     [(''_wrap_JsPortBuffer_getf'', lua_wrap_JsPortBuffer_getf L),
      (''_wrap_JsPortBuffer_setf'', lua_wrap_JsPortBuffer_setf L),
      (''_wrap_JsPortBuffer_length'', lua_wrap_JsPortBuffer_length L),
      (''_wrap_JsPortBuffer_toHexString'', lua_wrap_JsPortBuffer_toHexString L),
      (''_wrap_new_JsPortBuffer'', lua_wrap_new_JsPortBuffer L),
      (''_wrap_JsLatencyRange_min'', lua_wrap_JsLatencyRange_min L),
      (''_wrap_JsLatencyRange_max'', lua_wrap_JsLatencyRange_max L),
      (''_wrap_new_JsLatencyRange'', lua_wrap_new_JsLatencyRange L),
      (''_wrap_StringList_get'', lua_wrap_StringList_get L),
      (''_wrap_StringList_length'', lua_wrap_StringList_length L),
      (''_wrap_new_StringList'', lua_wrap_new_StringList L),
      (''_wrap_JsPort_getBuffer'', lua_wrap_JsPort_getBuffer L),
      (''_wrap_JsPort_name'', lua_wrap_JsPort_name L), (''_wrap_JsPort_connect'', lua_wrap_JsPort_connect L),
      (''_wrap_JsPort_getLatencyRange'', lua_wrap_JsPort_getLatencyRange L),
      (''_wrap_JsPort_setLatencyRange'', lua_wrap_JsPort_setLatencyRange L),
      (''_wrap_JsPort_wakeupLatencyCallbacks'', lua_wrap_JsPort_wakeupLatencyCallbacks L),
      (''_wrap_JsPort_wakeupSigLatencyCallback'', lua_wrap_JsPort_wakeupSigLatencyCallback L),
      (''_wrap_JsPort_initCaptureLatencyListener'', lua_wrap_JsPort_initCaptureLatencyListener L),
      (''_wrap_JsPort_initPlaybackLatencyListener'', lua_wrap_JsPort_initPlaybackLatencyListener L),
      (''_wrap_JsPort_initLatencyListener'', lua_wrap_JsPort_initLatencyListener L),
      (''_wrap_new_JsPort'', lua_wrap_new_JsPort L), (''_wrap_JsEvent_getType'', lua_wrap_JsEvent_getType L),
      (''_wrap_JsEvent_getData'', lua_wrap_JsEvent_getData L),
      (''_wrap_JsEvent_complete'', lua_wrap_JsEvent_complete L),
      (''_wrap_JsEvent_getSessionEventType'', lua_wrap_JsEvent_getSessionEventType L),
      (''_wrap_JsEvent_getSessionDir'', lua_wrap_JsEvent_getSessionDir L),
      (''_wrap_JsEvent_setSessionDir'', lua_wrap_JsEvent_setSessionDir L),
      (''_wrap_JsEvent_getClientUuid'', lua_wrap_JsEvent_getClientUuid L),
      (''_wrap_JsEvent_setClientUuid'', lua_wrap_JsEvent_setClientUuid L),
      (''_wrap_JsEvent_getCommandLine'', lua_wrap_JsEvent_getCommandLine L),
      (''_wrap_JsEvent_setCommandLine'', lua_wrap_JsEvent_setCommandLine L),
      (''_wrap_JsEvent_getSessionEventFlags'', lua_wrap_JsEvent_getSessionEventFlags L),
      (''_wrap_JsEvent_setSessionEventFlags'', lua_wrap_JsEvent_setSessionEventFlags L),
      (''_wrap_new_JsEvent'', lua_wrap_new_JsEvent L), (''_wrap_new_JsClient'', lua_wrap_new_JsClient L),
      (''_wrap_JsClient_getPortNamesByType'', lua_wrap_JsClient_getPortNamesByType L),
      (''_wrap_JsClient_getPortNames'', lua_wrap_JsClient_getPortNames L),
      (''_wrap_JsClient_getPort'', lua_wrap_JsClient_getPort L),
      (''_wrap_JsClient_registerPort'', lua_wrap_JsClient_registerPort L),
      (''_wrap_JsClient_getEvent'', lua_wrap_JsClient_getEvent L),
      (''_wrap_JsClient_getSampleRate'', lua_wrap_JsClient_getSampleRate L),
      (''_wrap_JsClient_activate'', lua_wrap_JsClient_activate L),
      (''_wrap_JsClient_getName'', lua_wrap_JsClient_getName L),
      (''_wrap_JsClient_getTransportState'', lua_wrap_JsClient_getTransportState L),
      (''_wrap_JsClient_recomputeLatencies'', lua_wrap_JsClient_recomputeLatencies L),
      (''SWIG_Lua_type'', SWIG_Lua_type), (''SWIG_Lua_equal'', SWIG_Lua_equal)]"

definition lua_call :: "'rb lua_api \<Rightarrow> string \<Rightarrow> lua_value list \<Rightarrow> 'rb lua_world \<Rightarrow> 'rb lua_outcome" where
  "lua_call L f args w = (case map_of (lua_functions L) f of None \<Rightarrow> None | Some g \<Rightarrow> g args w)"

definition lua_destructors :: "(string \<times> (ptr \<Rightarrow> 'rb lua_world \<Rightarrow> 'rb lua_world option)) list" where
  "lua_destructors =
     [(''swig_delete_JsPortBuffer'', lua_delete_JsPortBuffer),
      (''swig_delete_JsLatencyRange'', lua_delete_JsLatencyRange),
      (''swig_delete_StringList'', lua_delete_StringList), (''swig_delete_JsPort'', lua_delete_JsPort),
      (''swig_delete_JsEvent'', lua_delete_JsEvent), (''swig_delete_JsClient'', lua_delete_JsClient)]"

definition lua_destroy :: "string \<Rightarrow> ptr \<Rightarrow> 'rb lua_world \<Rightarrow> 'rb lua_world option" where
  "lua_destroy f p w = (case map_of lua_destructors f of None \<Rightarrow> None | Some d \<Rightarrow> d p w)"

section \<open>Loading the module\<close>

text \<open>The static tables: types with their class as client data, and one cast each.\<close>

definition lua_type_names :: "string list" where
  "lua_type_names =
     [''_p_JackOptions'', ''_p_JackSessionEventType'', ''_p_JackSessionFlags'', ''_p_JsClient'', ''_p_JsEvent'',
      ''_p_JsLatencyRange'', ''_p_JsPort'', ''_p_JsPortBuffer'', ''_p_StringList'', ''_p_float'',
      ''_p_jack_transport_state_t'', ''_p_uint32_t'', ''_p_void'']"

definition lua_type_strs :: "string list" where
  "lua_type_strs =
     [''enum JackOptions *|jack_options_t *'', ''enum JackSessionEventType *|jack_session_event_type_t *'',
      ''jack_session_flags_t *|enum JackSessionFlags *'', ''JsClient *'', ''JsEvent *'', ''JsLatencyRange *'',
      ''JsPort *'', ''JsPortBuffer *'', ''StringList *'', ''float *|jack_default_audio_sample_t *'',
      ''enum jack_transport_state_t *|jack_transport_state_t *'', ''uint32_t *|jack_nframes_t *'', ''void *'']"

definition lua_static_heap :: swig_heap where
  "lua_static_heap =
     \<lparr>ti = (\<lambda>a. if a < 13
              then Some \<lparr>ti_name = Some (lua_type_names ! a), ti_str = Some (lua_type_strs ! a), ti_cast = NULL,
                     ti_clientdata = (if swig_lua_classes a = None then NULL else Some a), ti_owndata = 0\<rparr>
              else None),
      ci = (\<lambda>a. if a < 13
              then Some \<lparr>ci_type = a, ci_converter = None, ci_next = NULL, ci_prev = NULL\<rparr> else None)\<rparr>"

definition lua_swig_module :: swig_tables where
  "lua_swig_module = \<lparr>self = 0, type_initial = [0..<13], cast_initial = map (\<lambda>a. [a]) [0..<13]\<rparr>"

text \<open>\<open>jack\<close> gives the values of the constants of JACK's headers.\<close>

definition swig_constants :: "(string \<Rightarrow> int) \<Rightarrow> swig_lua_const list" where
  "swig_constants jack =
     [SWIG_LUA_INT ''PROCESS'' (event_code PROCESS), SWIG_LUA_INT ''SESSION'' (event_code SESSION),
      SWIG_LUA_INT ''ERR'' (event_code ERR),
      SWIG_LUA_INT ''SAMPLE_RATE_CHANGE'' (event_code SAMPLE_RATE_CHANGE),
      SWIG_LUA_INT ''SHUTDOWN'' (event_code SHUTDOWN),
      SWIG_LUA_INT ''JackTransportStopped'' (jack ''JackTransportStopped''),
      SWIG_LUA_INT ''JackTransportRolling'' (jack ''JackTransportRolling''),
      SWIG_LUA_INT ''JackTransportLooping'' (jack ''JackTransportLooping''),
      SWIG_LUA_INT ''JackTransportStarting'' (jack ''JackTransportStarting''),
      SWIG_LUA_INT ''JackPortIsInput'' (jack ''JackPortIsInput''),
      SWIG_LUA_INT ''JackPortIsOutput'' (jack ''JackPortIsOutput''),
      SWIG_LUA_INT ''JackPortIsPhysical'' (jack ''JackPortIsPhysical''),
      SWIG_LUA_INT ''JackPortCanMonitor'' (jack ''JackPortCanMonitor''),
      SWIG_LUA_INT ''JackPortIsTerminal'' (jack ''JackPortIsTerminal''),
      SWIG_LUA_INT ''JackNullOption'' (jack ''JackNullOption''),
      SWIG_LUA_INT ''JackNoStartServer'' (jack ''JackNoStartServer''),
      SWIG_LUA_INT ''JackUseExactName'' (jack ''JackUseExactName''),
      SWIG_LUA_INT ''JackServerName'' (jack ''JackServerName''),
      SWIG_LUA_INT ''JackLoadName'' (jack ''JackLoadName''),
      SWIG_LUA_INT ''JackLoadInit'' (jack ''JackLoadInit''),
      SWIG_LUA_INT ''JackSessionID'' (jack ''JackSessionID''),
      SWIG_LUA_INT ''JackSessionSave'' (jack ''JackSessionSave''),
      SWIG_LUA_INT ''JackSessionSaveAndQuit'' (jack ''JackSessionSaveAndQuit''),
      SWIG_LUA_INT ''JackSessionSaveTemplate'' (jack ''JackSessionSaveTemplate''),
      SWIG_LUA_INT ''JackSessionSaveError'' (jack ''JackSessionSaveError''),
      SWIG_LUA_INT ''JackSessionNeedTerminal'' (jack ''JackSessionNeedTerminal''),
      SWIG_LUA_INT ''JackCaptureLatency'' (jack ''JackCaptureLatency''),
      SWIG_LUA_INT ''JackPlaybackLatency'' (jack ''JackPlaybackLatency'')]"

fun each_class :: "(addr \<Rightarrow> 'rb lua_world \<Rightarrow> 'rb lua_world option) \<Rightarrow> addr list \<Rightarrow> 'rb lua_world \<Rightarrow> 'rb lua_world option" where
  "each_class f [] w = Some w"
| "each_class f (ty # tys) w = do {
     t \<leftarrow> ti (lheap w) ty;
     w \<leftarrow> (case ti_clientdata t of None \<Rightarrow> Some w | Some c \<Rightarrow> f c w);
     each_class f tys w
   }"

text \<open>The lists of functions and variables are empty, and so is the Lua code run at the end.\<close>

definition luaopen_jacks :: "(string \<Rightarrow> int) \<Rightarrow> 'rb lua_world \<Rightarrow> 'rb lua_outcome" where
  "luaopen_jacks jack w = do {
     r \<leftarrow> SWIG_Lua_InitializeModule lua_swig_module (lrun w);
     r \<leftarrow> SWIG_PropagateClientData (self lua_swig_module) r;
     m \<leftarrow> modules r (self lua_swig_module);
     let w = w\<lparr>lrun := r, lglobals := (lglobals w)(''swig_type'' \<mapsto> LCFunction ''SWIG_Lua_type'',
                ''swig_equals'' \<mapsto> LCFunction ''SWIG_Lua_equal'')\<rparr>;
         w = SWIG_Lua_module_begin ''jacks'' w
     in do {
       w \<leftarrow> each_class SWIG_Lua_init_base_class (sm_types m) w;
       w \<leftarrow> each_class SWIG_Lua_class_register (sm_types m) w;
       (ok, w) \<leftarrow> SWIG_Lua_InstallConstants (swig_constants jack) w;
       Some (if ok then LReturned [LOther ''table''] else LRaised LNoMemory, w)
     }
   }"

end
