(* ===== verification/LuaWrap_Correct.thy ===== *)
theory LuaWrap_Correct
  imports LuaWrap PyWrap_Correct Swig_Load
begin

text \<open>
  Lemmas on the Lua module: what loading it builds, how methods are found, what converting a
  userdata does, which arguments the wrapper functions refuse, and the calls they share with the
  Python module.
\<close>

section \<open>Loading\<close>

definition lua_heap0 :: swig_heap where
  "lua_heap0 = linked_casts 13 lua_static_heap"

text \<open>A Lua state without SWIG modules.\<close>

definition lua_interpreter0 :: swig_runtime where
  "lua_interpreter0 = \<lparr>heap = lua_static_heap, modules = Map.empty, capsule = NULL, type_pointer = (\<lambda>_. NULL),
     init_run = (\<lambda>_. False)\<rparr>"

definition lua_runtime0 :: swig_runtime where
  "lua_runtime0 = lua_interpreter0\<lparr>heap := lua_heap0, modules := [0 \<mapsto> \<lparr>sm_types = [0..<13], sm_next = 0\<rparr>], capsule := Some 0,
     init_run := (\<lambda>_. False)(0 := True)\<rparr>"

lemma lua_type:
  "a < 13 \<Longrightarrow> ti lua_heap0 a = Some \<lparr>ti_name = Some (lua_type_names ! a), ti_str = Some (lua_type_strs ! a), ti_cast = Some a,
     ti_clientdata = (if swig_lua_classes a = None then NULL else Some a), ti_owndata = 0\<rparr>"
  by (simp add: lua_heap0_def linked_casts_def lua_static_heap_def)

lemma lua_cast: "a < 13 \<Longrightarrow> ci lua_heap0 a = Some \<lparr>ci_type = a, ci_converter = None, ci_next = NULL, ci_prev = NULL\<rparr>"
  by (simp add: lua_heap0_def linked_casts_def lua_static_heap_def)

lemma lua_initialize:
  "SWIG_Lua_InitializeModule lua_swig_module lua_interpreter0 = Some (lua_runtime0\<lparr>init_run := \<lambda>_. False\<rparr>)"
proof -
  let ?r = "lua_interpreter0\<lparr>modules := [0 \<mapsto> \<lparr>sm_types = [], sm_next = 0\<rparr>], capsule := Some 0\<rparr>"
  have "self_casts 13 lua_static_heap" by (simp add: self_casts_def lua_static_heap_def)
  then have "init_types 0 (zip [0..<13] (map (\<lambda>a. [a]) [0..<13])) ?r =
      Some (?r\<lparr>heap := linked_casts 13 lua_static_heap, modules := (modules ?r)(0 \<mapsto> \<lparr>sm_types = [0..<13], sm_next = 0\<rparr>)\<rparr>)"
    by (rule init_own_types [of 13 lua_static_heap 0 13]) (simp_all add: lua_interpreter0_def linked_casts_0)
  then show ?thesis
    by (simp add: SWIG_Lua_InitializeModule_def load_module_def Let_def lua_join_ring_def SWIG_Lua_GetModule_def
        SWIG_Lua_SetModule_def lua_swig_module_def lua_interpreter0_def lua_runtime0_def lua_heap0_def
        del: fun_upd_apply upt_rec_numeral)
qed

lemma lua_propagate_cast: "a < 13 \<Longrightarrow> swig_lua_classes a = Some c \<Longrightarrow>
    propagate_casts data (Some a) lua_heap0 = Some lua_heap0"
  by (subst propagate_casts.simps, subst propagate_casts.simps) (simp add: lua_cast lua_type)

lemma lua_propagate_types: "\<forall>a \<in> set tys. a < 13 \<Longrightarrow> propagate_types tys lua_heap0 = Some lua_heap0"
  by (induction tys) (use lua_propagate_cast in \<open>auto simp: lua_type\<close>)

lemma lua_propagate:
  "SWIG_PropagateClientData 0 (lua_runtime0\<lparr>init_run := \<lambda>_. False\<rparr>) = Some lua_runtime0"
  by (simp add: SWIG_PropagateClientData_def lua_runtime0_def lua_propagate_types lua_interpreter0_def
      del: upt_rec_numeral)

section \<open>Classes\<close>

lemma no_bases: "add_bases_details classes [] mt = Some mt"
  by (subst add_bases_details.simps) simp

lemma fold_methods:
  "fold (\<lambda>(name, f) mt. mt\<lparr>mt_fn := (mt_fn mt)(name \<mapsto> f)\<rparr>) ms mt = mt\<lparr>mt_fn := mt_fn mt ++ map_of (rev ms)\<rparr>"
  by (induction ms arbitrary: mt) (auto simp: map_add_assoc)

lemma map_of_rev: "distinct (map fst xs) \<Longrightarrow> map_of (rev xs) = map_of xs"
  by (intro map_of_inject_set [THEN iffD2]) (simp_all add: rev_map [symmetric])

lemma fold_events:
  "\<forall>(name, f) \<in> set ms. take 2 name \<noteq> ''__'' \<Longrightarrow>
    fold (\<lambda>(name, f) mt. if take 2 name = ''__'' then mt\<lparr>mt_events := (mt_events mt)(name \<mapsto> f)\<rparr> else mt) ms mt = mt"
  by (induction ms) auto

text \<open>A class with methods only.\<close>

definition plain_class :: "swig_lua_class \<Rightarrow> bool" where
  "plain_class clss \<longleftrightarrow> lc_attributes clss = [] \<and> lc_bases clss = [] \<and> lc_base_names clss = [] \<and>
     distinct (map fst (lc_methods clss)) \<and> (\<forall>(name, f) \<in> set (lc_methods clss). take 2 name \<noteq> ''__'')"

definition class_metatable :: "swig_lua_class \<Rightarrow> swig_lua_metatable" where
  "class_metatable clss = (new_metatable (lc_name clss))\<lparr>mt_fn := map_of (lc_methods clss)\<rparr>"

lemma plain_class_details:
  assumes "plain_class clss"
  shows "SWIG_Lua_add_class_details classes clss (new_metatable (lc_name clss)) = Some (class_metatable clss)"
proof -
  have "\<forall>(name, f) \<in> set (lc_methods clss). take 2 name \<noteq> ''__''" "distinct (map fst (lc_methods clss))"
    using assms by (simp_all add: plain_class_def)
  then show ?thesis
    using assms by (simp add: SWIG_Lua_add_class_details_def plain_class_def no_bases add_own_details_def Let_def
        fold_methods fold_events map_of_rev class_metatable_def new_metatable_def)
qed

lemmas class_defs = wrap_class_JsClient_def wrap_class_JsEvent_def wrap_class_JsLatencyRange_def
  wrap_class_JsPort_def wrap_class_JsPortBuffer_def wrap_class_StringList_def

lemma module_class:
  assumes "swig_lua_classes c = Some clss"
  shows "plain_class clss" "3 \<le> c" "c < 9" "lc_type clss = c"
proof -
  have c: "(c, clss) \<in> {(3, wrap_class_JsClient), (4, wrap_class_JsEvent), (5, wrap_class_JsLatencyRange),
      (6, wrap_class_JsPort), (7, wrap_class_JsPortBuffer), (8, wrap_class_StringList)}"
    using assms by (auto simp: swig_lua_classes_def split: if_splits)
  then show "3 \<le> c" "c < 9" by auto
  from c show "plain_class clss" by (auto simp: plain_class_def class_defs)
  from c show "lc_type clss = c"
    by (auto simp: class_defs SWIGTYPE_lua_JsClient_def SWIGTYPE_lua_JsEvent_def SWIGTYPE_lua_JsLatencyRange_def
        SWIGTYPE_lua_JsPort_def SWIGTYPE_lua_JsPortBuffer_def SWIGTYPE_lua_StringList_def)
qed

definition registered :: "swig_lua_class \<Rightarrow> 'rb lua_world \<Rightarrow> 'rb lua_world" where
  "registered clss w =
     (add_module_field (lc_name clss) (LCFunction (the (lc_constructor clss))) w)
       \<lparr>lmetas := (lmetas w)(lc_name clss \<mapsto> class_metatable clss)\<rparr>"

lemma registered_simps [simp]:
  "ljs (registered clss w) = ljs w" "userdata (registered clss w) = userdata w" "lrun (registered clss w) = lrun w"
  "lclasses (registered clss w) = lclasses w" "lglobals (registered clss w) = lglobals w"
  "lmetas (registered clss w) = (lmetas w)(lc_name clss \<mapsto> class_metatable clss)"
  "md_fields (lmodule (registered clss w)) =
     (md_fields (lmodule w))(lc_name clss \<mapsto> LCFunction (the (lc_constructor clss)))"
  by (simp_all add: registered_def add_module_field_def)

lemma register_class:
  assumes "lclasses w c = Some clss" "plain_class clss" "lc_constructor clss \<noteq> None"
  shows "SWIG_Lua_class_register c w = Some (registered clss w)"
proof -
  obtain f where "lc_constructor clss = Some f" using assms(3) by blast
  then show ?thesis
    using assms(1) plain_class_details [OF assms(2)]
    by (simp add: SWIG_Lua_class_register_def Let_def registered_def add_module_field_def)
qed

definition all_registered :: "'rb lua_world \<Rightarrow> 'rb lua_world" where
  "all_registered w = fold registered [wrap_class_JsClient, wrap_class_JsEvent, wrap_class_JsLatencyRange,
     wrap_class_JsPort, wrap_class_JsPortBuffer, wrap_class_StringList] w"

lemma each_plain: "lheap w = lua_heap0 \<Longrightarrow> a < 13 \<Longrightarrow> swig_lua_classes a = None \<Longrightarrow>
    each_class f (a # as) w = each_class f as w"
  by (simp add: lua_type)

lemma each_register: "lheap w = lua_heap0 \<Longrightarrow> lclasses w = swig_lua_classes \<Longrightarrow> a < 13 \<Longrightarrow> swig_lua_classes a = Some clss \<Longrightarrow>
    lc_constructor clss \<noteq> None \<Longrightarrow>
    each_class SWIG_Lua_class_register (a # as) w = each_class SWIG_Lua_class_register as (registered clss w)"
  by (simp add: lua_type register_class module_class(1))

lemma swig_classes:
  "swig_lua_classes 3 = Some wrap_class_JsClient" "swig_lua_classes 4 = Some wrap_class_JsEvent"
  "swig_lua_classes 5 = Some wrap_class_JsLatencyRange" "swig_lua_classes 6 = Some wrap_class_JsPort"
  "swig_lua_classes 7 = Some wrap_class_JsPortBuffer" "swig_lua_classes 8 = Some wrap_class_StringList"
  "a < 3 \<or> 9 \<le> a \<Longrightarrow> swig_lua_classes a = None"
  by (auto simp: swig_lua_classes_def)

lemma constructors:
  "lc_constructor wrap_class_JsClient \<noteq> None" "lc_constructor wrap_class_JsEvent \<noteq> None"
  "lc_constructor wrap_class_JsLatencyRange \<noteq> None" "lc_constructor wrap_class_JsPort \<noteq> None"
  "lc_constructor wrap_class_JsPortBuffer \<noteq> None" "lc_constructor wrap_class_StringList \<noteq> None"
  by (simp_all add: class_defs)

lemma register_classes:
  assumes "lheap w = lua_heap0" "lclasses w = swig_lua_classes"
  shows "each_class SWIG_Lua_class_register [0..<13] w = Some (all_registered w)"
proof -
  have "[0..<13] = [0, 1, 2, 3, 4, 5, 6, 7, 8, 9, 10, 11, 12::nat]" by (simp add: upt_conv_Cons)
  then show ?thesis
    using assms by (simp add: each_plain each_register swig_classes constructors all_registered_def del: each_class.simps(2) upt_rec_numeral)
qed

lemma init_bases:
  "lheap w = lua_heap0 \<Longrightarrow> lclasses w = swig_lua_classes \<Longrightarrow> \<forall>a \<in> set tys. a < 13 \<Longrightarrow>
    each_class SWIG_Lua_init_base_class tys w = Some w"
proof (induction tys)
  case (Cons a tys)
  have "SWIG_Lua_init_base_class c w = Some w" if "swig_lua_classes c = Some clss" for c clss
    using module_class(1) [OF that] Cons.prems(2) that by (simp add: SWIG_Lua_init_base_class_def plain_class_def)
  with Cons show ?case by (auto simp: lua_type)
qed simp

section \<open>Constants\<close>

lemma install_numbers:
  "SWIG_Lua_InstallConstants (map (\<lambda>(n, v). SWIG_LUA_INT n v) cs) w =
    Some (True, fold (\<lambda>(n, v). add_module_field n (LNumber (to_double v))) cs w)"
  by (induction cs arbitrary: w) (auto simp: push_constant_def)

lemma number_fields:
  "md_fields (lmodule (fold (\<lambda>(n, v). add_module_field n (LNumber (to_double v))) cs w)) =
    md_fields (lmodule w) ++ map_of (rev (map (\<lambda>(n, v). (n, LNumber (to_double v))) cs))"
  "ljs (fold (\<lambda>(n, v). add_module_field n (LNumber (to_double v))) cs w) = ljs w"
  "userdata (fold (\<lambda>(n, v). add_module_field n (LNumber (to_double v))) cs w) = userdata w"
  "lrun (fold (\<lambda>(n, v). add_module_field n (LNumber (to_double v))) cs w) = lrun w"
  "lclasses (fold (\<lambda>(n, v). add_module_field n (LNumber (to_double v))) cs w) = lclasses w"
  "lmetas (fold (\<lambda>(n, v). add_module_field n (LNumber (to_double v))) cs w) = lmetas w"
  "lglobals (fold (\<lambda>(n, v). add_module_field n (LNumber (to_double v))) cs w) = lglobals w"
  by (induction cs arbitrary: w) (auto simp: add_module_field_def map_add_assoc)

definition constant_pair :: "swig_lua_const \<Rightarrow> string \<times> int" where
  "constant_pair c = (case c of SWIG_LUA_INT n v \<Rightarrow> (n, v) | _ \<Rightarrow> ([], 0))"

lemma constant_pairs: "swig_constants jack = map (\<lambda>(n, v). SWIG_LUA_INT n v) (map constant_pair (swig_constants jack))"
  by (simp add: swig_constants_def constant_pair_def)

lemma constant_names: "distinct (map (fst \<circ> constant_pair) (swig_constants jack))"
  by (simp add: swig_constants_def constant_pair_def)

lemma class_names [simp]:
  "lc_name wrap_class_JsClient = ''JsClient''"
  "lc_name wrap_class_JsEvent = ''JsEvent''"
  "lc_name wrap_class_JsLatencyRange = ''JsLatencyRange''"
  "lc_name wrap_class_JsPort = ''JsPort''"
  "lc_name wrap_class_JsPortBuffer = ''JsPortBuffer''"
  "lc_name wrap_class_StringList = ''StringList''"
  "lc_constructor wrap_class_JsClient = Some ''_wrap_new_JsClient''"
  "lc_constructor wrap_class_JsEvent = Some ''_wrap_new_JsEvent''"
  "lc_constructor wrap_class_JsLatencyRange = Some ''_wrap_new_JsLatencyRange''"
  "lc_constructor wrap_class_JsPort = Some ''_wrap_new_JsPort''"
  "lc_constructor wrap_class_JsPortBuffer = Some ''_wrap_new_JsPortBuffer''"
  "lc_constructor wrap_class_StringList = Some ''_wrap_new_StringList''"
  by (simp_all add: class_defs)

lemma class_constants: "swig_lua_classes c = Some clss \<Longrightarrow> lc_name clss \<notin> (fst \<circ> constant_pair) ` set (swig_constants jack)"
  by (auto simp: swig_lua_classes_def swig_constants_def constant_pair_def split: if_splits)

lemma registered_class:
  assumes "swig_lua_classes c = Some clss"
  shows "lmetas (all_registered w) (lc_name clss) = Some (class_metatable clss)"
    "md_fields (lmodule (all_registered w)) (lc_name clss) = map_option LCFunction (lc_constructor clss)"
proof -
  have "clss \<in> {wrap_class_JsClient, wrap_class_JsEvent, wrap_class_JsLatencyRange, wrap_class_JsPort,
      wrap_class_JsPortBuffer, wrap_class_StringList}"
    using assms by (auto simp: swig_lua_classes_def split: if_splits)
  then show "lmetas (all_registered w) (lc_name clss) = Some (class_metatable clss)"
    "md_fields (lmodule (all_registered w)) (lc_name clss) = map_option LCFunction (lc_constructor clss)"
    by (auto simp: all_registered_def)
qed

text \<open>What the module table holds once classes are registered and constants installed.\<close>

lemma installed_fields:
  fixes w :: "'rb lua_world" and jack :: "string \<Rightarrow> int"
  defines "w2 \<equiv> fold (\<lambda>(n, v). add_module_field n (LNumber (to_double v))) (map constant_pair (swig_constants jack))
    (all_registered w)"
  shows "SWIG_LUA_INT n v \<in> set (swig_constants jack) \<Longrightarrow> md_fields (lmodule w2) n = Some (LNumber (to_double v))"
    "swig_lua_classes c = Some clss \<Longrightarrow> md_fields (lmodule w2) (lc_name clss) = map_option LCFunction (lc_constructor clss)"
proof -
  let ?cs = "map constant_pair (swig_constants jack)"
  let ?m = "map_of (map (\<lambda>(n, v). (n, LNumber (to_double v))) ?cs)"
  have "map_of (rev (map (\<lambda>(n, v). (n, LNumber (to_double v))) ?cs)) = ?m"
    by (rule map_of_rev) (use constant_names in \<open>simp add: comp_def case_prod_unfold\<close>)
  then have fields: "md_fields (lmodule w2) = md_fields (lmodule (all_registered w)) ++ ?m"
    unfolding w2_def by (simp only: number_fields)
  show "md_fields (lmodule w2) n = Some (LNumber (to_double v))" if "SWIG_LUA_INT n v \<in> set (swig_constants jack)"
  proof -
    have "(n, LNumber (to_double v)) \<in> set (map (\<lambda>(n, v). (n, LNumber (to_double v))) ?cs)"
      using that by (force simp: constant_pair_def)
    then have "?m n = Some (LNumber (to_double v))"
      by (intro map_of_is_SomeI) (use constant_names in \<open>simp_all add: comp_def case_prod_unfold\<close>)
    then show ?thesis unfolding fields by (simp add: map_add_def)
  qed
  show "md_fields (lmodule w2) (lc_name clss) = map_option LCFunction (lc_constructor clss)"
    if "swig_lua_classes c = Some clss"
  proof -
    have "lc_name clss \<notin> (fst \<circ> constant_pair) ` set (swig_constants jack)" by (rule class_constants [OF that])
    then have "?m (lc_name clss) = None"
      by (auto simp: map_of_eq_None_iff image_image case_prod_unfold comp_def)
    then show ?thesis unfolding fields using registered_class(2) [OF that] by (simp add: map_add_def)
  qed
qed

lemma all_registered_simps [simp]:
  "ljs (all_registered w) = ljs w" "userdata (all_registered w) = userdata w" "lrun (all_registered w) = lrun w"
  "lclasses (all_registered w) = lclasses w"
  by (simp_all add: all_registered_def)

section \<open>The loaded module\<close>

definition lua_loaded :: "'rb lua_world \<Rightarrow> bool" where
  "lua_loaded w \<longleftrightarrow> lheap w = lua_heap0 \<and> lclasses w = swig_lua_classes \<and>
     (\<forall>c clss. swig_lua_classes c = Some clss \<longrightarrow> lmetas w (lc_name clss) = Some (class_metatable clss))"

lemma loaded_registered:
  "lheap w = lua_heap0 \<Longrightarrow> lclasses w = swig_lua_classes \<Longrightarrow>
    lua_loaded (fold (\<lambda>(n, v). add_module_field n (LNumber (to_double v))) cs (all_registered w))"
  by (auto simp: lua_loaded_def number_fields registered_class(1))

lemma class_get_method:
  assumes "lua_loaded w" "objs (userdata w) v = Some u" "lu_meta u = Some (lc_name clss)" "swig_lua_classes c = Some clss"
    "lua_text key w = Some m"
  shows "SWIG_Lua_class_get call v key w =
      Some (LReturned (case map_of (lc_methods clss) m of None \<Rightarrow> [] | Some f \<Rightarrow> [LCFunction f]), w)"
    "SWIG_Lua_class_set call v key val w = Some (LReturned [], w)"
proof -
  have "metatable_of v w = Some (class_metatable clss)"
    using assms by (simp add: metatable_of_def lua_loaded_def)
  then show "SWIG_Lua_class_get call v key w =
      Some (LReturned (case map_of (lc_methods clss) m of None \<Rightarrow> [] | Some f \<Rightarrow> [LCFunction f]), w)"
    "SWIG_Lua_class_set call v key val w = Some (LReturned [], w)"
    using assms(5) by (simp_all add: SWIG_Lua_class_get_def SWIG_Lua_class_set_def class_metatable_def new_metatable_def
        split: option.split)
qed

text \<open>\<open>obj:name(args)\<close> in a script.\<close>

definition lua_invoke :: "'rb lua_api \<Rightarrow> addr \<Rightarrow> addr \<Rightarrow> lua_value list \<Rightarrow> 'rb lua_world \<Rightarrow> 'rb lua_outcome" where
  "lua_invoke L v key args w =
     (case SWIG_Lua_class_get (lua_call L) v key w of
        Some (LReturned [LCFunction f], w) \<Rightarrow> lua_call L f (LUserdata v # args) w
      | _ \<Rightarrow> None)"

lemma functions_distinct: "distinct (map fst (lua_functions L))"
  by (simp add: lua_functions_def)

lemma lua_call_function: "(f, g) \<in> set (lua_functions L) \<Longrightarrow> lua_call L f = g"
  using map_of_is_SomeI [OF functions_distinct, of f g L] by (simp add: lua_call_def fun_eq_iff)

text \<open>Every method of a class is one of the functions of the module.\<close>

lemma module_methods:
  assumes "swig_lua_classes c = Some clss" "(m, f) \<in> set (lc_methods clss)"
  shows "\<exists>g. (f, g) \<in> set (lua_functions L)"
proof -
  have "clss \<in> {wrap_class_JsClient, wrap_class_JsEvent, wrap_class_JsLatencyRange, wrap_class_JsPort,
      wrap_class_JsPortBuffer, wrap_class_StringList}"
    using assms(1) by (auto simp: swig_lua_classes_def split: if_splits)
  then have "f \<in> fst ` set (lua_functions L)" using assms(2) by (auto simp: class_defs lua_functions_def)
  then show ?thesis by auto
qed

section \<open>Objects\<close>

definition lua_object :: "addr \<Rightarrow> addr \<Rightarrow> int \<Rightarrow> swig_lua_userdata" where
  "lua_object p c own = \<lparr>lu_type = c, lu_own = own, lu_ptr = Some p, lu_meta = map_option lc_name (swig_lua_classes c)\<rparr>"

lemma new_object:
  assumes "lua_loaded w" "c < 13" "always_alloc (userdata w)"
  shows "SWIG_Lua_NewPointerObj (Some p) c own w =
    Some (Some (LUserdata (next_addr (userdata w))), w\<lparr>userdata := added (lua_object p c own) (userdata w)\<rparr>)"
proof -
  have heap: "lheap w = lua_heap0" "lclasses w = swig_lua_classes" using assms(1) by (simp_all add: lua_loaded_def)
  show ?thesis
  proof (cases "swig_lua_classes c")
    case None
    then show ?thesis
      using assms(2,3) heap by (simp add: SWIG_Lua_NewPointerObj_def new_added SWIG_Lua_AddMetatable_def lua_type lua_object_def)
  next
    case (Some clss)
    then have "lmetas w (lc_name clss) = Some (class_metatable clss)" using assms(1) by (simp add: lua_loaded_def)
    with Some show ?thesis
      using assms(2,3) heap
      by (simp add: SWIG_Lua_NewPointerObj_def new_added SWIG_Lua_AddMetatable_def lua_type lua_object_def)
  qed
qed

section \<open>Converting userdata\<close>

lemma lua_check_type:
  "a < 13 \<Longrightarrow> t < 13 \<Longrightarrow> SWIG_TypeCheckStruct a (Some t) lua_heap0 = Some (if a = t then Some t else NULL, lua_heap0)"
proof -
  assume "a < 13" "t < 13"
  moreover have "check_loop hit t (Some t) lua_heap0 = Some (if b then Some t else NULL, lua_heap0)"
    if "hit lua_heap0 t = Some b" for hit b
    using that \<open>t < 13\<close> by (subst check_loop.simps, simp add: lua_cast lua_type, subst check_loop.simps, simp)
  ultimately show ?thesis by (simp add: SWIG_TypeCheckStruct_def lua_type)
qed

lemma set_same_heap: "lheap w = h \<Longrightarrow> set_lheap h w = w"
  by (simp add: set_lheap_def)

lemma lua_convert:
  assumes "lheap w = lua_heap0" "objs (userdata w) v = Some u" "lu_type u < 13" "c < 13"
  shows "SWIG_Lua_ConvertPtr (LUserdata v) (Some c) 0 w = Some (if lu_type u = c then (0, lu_ptr u, w) else (- 1, NULL, w))"
  using assms by (simp add: SWIG_Lua_ConvertPtr_def lua_isuserdata_def as_swig_def lua_check_type set_same_heap
      SWIG_TypeCast_def lua_cast)

lemma get_ptr_own:
  assumes "lheap w = lua_heap0" "objs (userdata w) v = Some u" "lu_type u = c" "c < 13" "args ! (i - 1) = LUserdata v"
  shows "get_ptr args func i c k w = k (lu_ptr u) w"
  using assms by (simp add: get_ptr_def lua_convert SWIG_IsOK_def)

section \<open>Refused arguments\<close>

text \<open>
  A value whose type SWIG can name: the script's strings are alive, and a userdata is SWIG's own, of a
  type of this module.
\<close>

definition readable :: "'rb lua_world \<Rightarrow> lua_value \<Rightarrow> bool" where
  "readable w v \<longleftrightarrow>
     (case v of
        LString a \<Rightarrow> lua_text a w \<noteq> None
      | LUserdata a \<Rightarrow> (\<exists>u. objs (userdata w) a = Some u \<and> lu_type u < 13)
      | LForeign \<Rightarrow> False
      | _ \<Rightarrow> True)"

text \<open>Not an object of class \<open>c\<close>, nor nil, which stands for the null pointer.\<close>

definition misfit :: "addr \<Rightarrow> 'rb lua_world \<Rightarrow> lua_value \<Rightarrow> bool" where
  "misfit c w v \<longleftrightarrow> readable w v \<and> v \<noteq> LNil \<and> (\<forall>a. v = LUserdata a \<longrightarrow> lu_type (the (objs (userdata w) a)) \<noteq> c)"

definition refused :: "'rb lua_world \<Rightarrow> 'rb lua_outcome \<Rightarrow> bool" where
  "refused w out \<longleftrightarrow> (\<exists>msg. out = Some (LRaised (LMessage msg), w))"

lemma readable_typename: "lheap w = lua_heap0 \<Longrightarrow> readable w v \<Longrightarrow> \<exists>s. SWIG_Lua_typename v w = Some s"
  by (cases v) (auto simp: readable_def SWIG_Lua_typename_def lua_isuserdata_def as_swig_def lua_type)

lemma refused_fail:
  assumes "lheap w = lua_heap0" "readable w (args ! (i - 1))"
  shows "refused w (SWIG_fail_arg func i ty args w)"
  using readable_typename [OF assms] by (auto simp: refused_def SWIG_fail_arg_def lua_error_def)

lemma refused_count:
  "(length args = n \<Longrightarrow> refused w (k w)) \<Longrightarrow> refused w (SWIG_check_num_args func n n args k w)"
  by (auto simp: SWIG_check_num_args_def refused_def lua_error_def)

lemma refused_check:
  assumes "lheap w = lua_heap0" "readable w (args ! (i - 1))" "\<exists>b. fits (args ! (i - 1)) w = Some b" "refused w (k w)"
  shows "refused w (check_arg fits args func i ty k w)"
  using assms refused_fail [OF assms(1,2)] by (auto simp: check_arg_def)

lemma readable_number: "readable w v \<Longrightarrow> \<exists>b. lua_isnumber L v w = Some b"
  by (cases v) (auto simp: readable_def lua_isnumber_def)

lemma refused_ptr:
  assumes "lheap w = lua_heap0" "misfit c w (args ! (i - 1))" "c < 13"
  shows "refused w (get_ptr args func i c k w)"
proof -
  let ?v = "args ! (i - 1)"
  have r: "readable w ?v" "?v \<noteq> LNil" using assms(2) by (simp_all add: misfit_def)
  have "SWIG_Lua_ConvertPtr ?v (Some c) 0 w = Some (- 1, NULL, w)"
  proof (cases ?v)
    case (LUserdata a)
    then obtain u where "objs (userdata w) a = Some u" "lu_type u < 13" "lu_type u \<noteq> c"
      using assms(2) by (auto simp: misfit_def readable_def)
    then show ?thesis using LUserdata lua_convert [OF assms(1) _ _ assms(3)] by simp
  qed (use r in \<open>simp_all add: SWIG_Lua_ConvertPtr_def lua_isuserdata_def readable_def\<close>)
  then show ?thesis
    using refused_fail [OF assms(1) r(1)] assms(1,3) by (simp add: get_ptr_def SWIG_IsOK_def SWIG_fail_ptr_def lua_type)
qed

end
