(* ===== verification/LuaWrap_Calls.thy ===== *)
theory LuaWrap_Calls
  imports LuaWrap_Correct
begin

text \<open>
  Lemmas over all wrapper functions of the Lua module: which arguments they refuse, that they do
  in a call what the Python module does, and which objects they make are owned by Lua.
\<close>

section \<open>Refused arguments\<close>

lemma lua_calls:
  "lua_call L ''_wrap_JsPortBuffer_getf'' = lua_wrap_JsPortBuffer_getf L"
  "lua_call L ''_wrap_JsPortBuffer_setf'' = lua_wrap_JsPortBuffer_setf L"
  "lua_call L ''_wrap_JsPortBuffer_length'' = lua_wrap_JsPortBuffer_length L"
  "lua_call L ''_wrap_JsPortBuffer_toHexString'' = lua_wrap_JsPortBuffer_toHexString L"
  "lua_call L ''_wrap_new_JsPortBuffer'' = lua_wrap_new_JsPortBuffer L"
  "lua_call L ''_wrap_JsLatencyRange_min'' = lua_wrap_JsLatencyRange_min L"
  "lua_call L ''_wrap_JsLatencyRange_max'' = lua_wrap_JsLatencyRange_max L"
  "lua_call L ''_wrap_new_JsLatencyRange'' = lua_wrap_new_JsLatencyRange L"
  "lua_call L ''_wrap_StringList_get'' = lua_wrap_StringList_get L"
  "lua_call L ''_wrap_StringList_length'' = lua_wrap_StringList_length L"
  "lua_call L ''_wrap_new_StringList'' = lua_wrap_new_StringList L"
  "lua_call L ''_wrap_JsPort_getBuffer'' = lua_wrap_JsPort_getBuffer L"
  "lua_call L ''_wrap_JsPort_name'' = lua_wrap_JsPort_name L"
  "lua_call L ''_wrap_JsPort_connect'' = lua_wrap_JsPort_connect L"
  "lua_call L ''_wrap_JsPort_getLatencyRange'' = lua_wrap_JsPort_getLatencyRange L"
  "lua_call L ''_wrap_JsPort_setLatencyRange'' = lua_wrap_JsPort_setLatencyRange L"
  "lua_call L ''_wrap_JsPort_wakeupLatencyCallbacks'' = lua_wrap_JsPort_wakeupLatencyCallbacks L"
  "lua_call L ''_wrap_JsPort_wakeupSigLatencyCallback'' = lua_wrap_JsPort_wakeupSigLatencyCallback L"
  "lua_call L ''_wrap_JsPort_initCaptureLatencyListener'' = lua_wrap_JsPort_initCaptureLatencyListener L"
  "lua_call L ''_wrap_JsPort_initPlaybackLatencyListener'' = lua_wrap_JsPort_initPlaybackLatencyListener L"
  "lua_call L ''_wrap_JsPort_initLatencyListener'' = lua_wrap_JsPort_initLatencyListener L"
  "lua_call L ''_wrap_new_JsPort'' = lua_wrap_new_JsPort L"
  "lua_call L ''_wrap_JsEvent_getType'' = lua_wrap_JsEvent_getType L"
  "lua_call L ''_wrap_JsEvent_getData'' = lua_wrap_JsEvent_getData L"
  "lua_call L ''_wrap_JsEvent_complete'' = lua_wrap_JsEvent_complete L"
  "lua_call L ''_wrap_JsEvent_getSessionEventType'' = lua_wrap_JsEvent_getSessionEventType L"
  "lua_call L ''_wrap_JsEvent_getSessionDir'' = lua_wrap_JsEvent_getSessionDir L"
  "lua_call L ''_wrap_JsEvent_setSessionDir'' = lua_wrap_JsEvent_setSessionDir L"
  "lua_call L ''_wrap_JsEvent_getClientUuid'' = lua_wrap_JsEvent_getClientUuid L"
  "lua_call L ''_wrap_JsEvent_setClientUuid'' = lua_wrap_JsEvent_setClientUuid L"
  "lua_call L ''_wrap_JsEvent_getCommandLine'' = lua_wrap_JsEvent_getCommandLine L"
  "lua_call L ''_wrap_JsEvent_setCommandLine'' = lua_wrap_JsEvent_setCommandLine L"
  "lua_call L ''_wrap_JsEvent_getSessionEventFlags'' = lua_wrap_JsEvent_getSessionEventFlags L"
  "lua_call L ''_wrap_JsEvent_setSessionEventFlags'' = lua_wrap_JsEvent_setSessionEventFlags L"
  "lua_call L ''_wrap_new_JsEvent'' = lua_wrap_new_JsEvent L"
  "lua_call L ''_wrap_new_JsClient'' = lua_wrap_new_JsClient L"
  "lua_call L ''_wrap_JsClient_getPortNamesByType'' = lua_wrap_JsClient_getPortNamesByType L"
  "lua_call L ''_wrap_JsClient_getPortNames'' = lua_wrap_JsClient_getPortNames L"
  "lua_call L ''_wrap_JsClient_getPort'' = lua_wrap_JsClient_getPort L"
  "lua_call L ''_wrap_JsClient_registerPort'' = lua_wrap_JsClient_registerPort L"
  "lua_call L ''_wrap_JsClient_getEvent'' = lua_wrap_JsClient_getEvent L"
  "lua_call L ''_wrap_JsClient_getSampleRate'' = lua_wrap_JsClient_getSampleRate L"
  "lua_call L ''_wrap_JsClient_activate'' = lua_wrap_JsClient_activate L"
  "lua_call L ''_wrap_JsClient_getName'' = lua_wrap_JsClient_getName L"
  "lua_call L ''_wrap_JsClient_getTransportState'' = lua_wrap_JsClient_getTransportState L"
  "lua_call L ''_wrap_JsClient_recomputeLatencies'' = lua_wrap_JsClient_recomputeLatencies L"
  by (rule lua_call_function, simp add: lua_functions_def)+

lemmas lua_wrap_defs = lua_wrap_JsPortBuffer_getf_def lua_wrap_JsPortBuffer_setf_def lua_wrap_JsPortBuffer_length_def lua_wrap_JsPortBuffer_toHexString_def lua_wrap_new_JsPortBuffer_def lua_wrap_JsLatencyRange_min_def lua_wrap_JsLatencyRange_max_def lua_wrap_new_JsLatencyRange_def lua_wrap_StringList_get_def lua_wrap_StringList_length_def lua_wrap_new_StringList_def lua_wrap_JsPort_getBuffer_def lua_wrap_JsPort_name_def lua_wrap_JsPort_connect_def lua_wrap_JsPort_getLatencyRange_def lua_wrap_JsPort_setLatencyRange_def lua_wrap_JsPort_wakeupLatencyCallbacks_def lua_wrap_JsPort_wakeupSigLatencyCallback_def lua_wrap_JsPort_initCaptureLatencyListener_def lua_wrap_JsPort_initPlaybackLatencyListener_def lua_wrap_JsPort_initLatencyListener_def lua_wrap_new_JsPort_def lua_wrap_JsEvent_getType_def lua_wrap_JsEvent_getData_def lua_wrap_JsEvent_complete_def lua_wrap_JsEvent_getSessionEventType_def lua_wrap_JsEvent_getSessionDir_def lua_wrap_JsEvent_setSessionDir_def lua_wrap_JsEvent_getClientUuid_def lua_wrap_JsEvent_setClientUuid_def lua_wrap_JsEvent_getCommandLine_def lua_wrap_JsEvent_setCommandLine_def lua_wrap_JsEvent_getSessionEventFlags_def lua_wrap_JsEvent_setSessionEventFlags_def lua_wrap_new_JsEvent_def lua_wrap_new_JsClient_def lua_wrap_JsClient_getPortNamesByType_def lua_wrap_JsClient_getPortNames_def lua_wrap_JsClient_getPort_def lua_wrap_JsClient_registerPort_def lua_wrap_JsClient_getEvent_def lua_wrap_JsClient_getSampleRate_def lua_wrap_JsClient_activate_def lua_wrap_JsClient_getName_def lua_wrap_JsClient_getTransportState_def lua_wrap_JsClient_recomputeLatencies_def

lemmas lua_type_defs = SWIGTYPE_lua_JsClient_def SWIGTYPE_lua_JsEvent_def SWIGTYPE_lua_JsLatencyRange_def
  SWIGTYPE_lua_JsPort_def SWIGTYPE_lua_JsPortBuffer_def SWIGTYPE_lua_StringList_def SWIGTYPE_lua_float_def
  SWIGTYPE_lua_void_def

lemma refused_methods:
  assumes heap: "lheap w = lua_heap0" and side: "readable w obj" "\<And>i. i < length args \<Longrightarrow> readable w (args ! i)"
  shows
    "misfit 7 w obj \<Longrightarrow> refused w (lua_wrap_JsPortBuffer_getf L (obj # args) w)"
    "misfit 7 w obj \<Longrightarrow> refused w (lua_wrap_JsPortBuffer_setf L (obj # args) w)"
    "misfit 7 w obj \<Longrightarrow> refused w (lua_wrap_JsPortBuffer_length L (obj # args) w)"
    "misfit 7 w obj \<Longrightarrow> refused w (lua_wrap_JsPortBuffer_toHexString L (obj # args) w)"
    "misfit 5 w obj \<Longrightarrow> refused w (lua_wrap_JsLatencyRange_min L (obj # args) w)"
    "misfit 5 w obj \<Longrightarrow> refused w (lua_wrap_JsLatencyRange_max L (obj # args) w)"
    "misfit 8 w obj \<Longrightarrow> refused w (lua_wrap_StringList_get L (obj # args) w)"
    "misfit 8 w obj \<Longrightarrow> refused w (lua_wrap_StringList_length L (obj # args) w)"
    "misfit 6 w obj \<Longrightarrow> refused w (lua_wrap_JsPort_getBuffer L (obj # args) w)"
    "misfit 6 w obj \<Longrightarrow> refused w (lua_wrap_JsPort_name L (obj # args) w)"
    "misfit 6 w obj \<Longrightarrow> refused w (lua_wrap_JsPort_connect L (obj # args) w)"
    "misfit 6 w obj \<Longrightarrow> refused w (lua_wrap_JsPort_getLatencyRange L (obj # args) w)"
    "misfit 6 w obj \<Longrightarrow> refused w (lua_wrap_JsPort_setLatencyRange L (obj # args) w)"
    "misfit 6 w obj \<Longrightarrow> refused w (lua_wrap_JsPort_wakeupLatencyCallbacks L (obj # args) w)"
    "misfit 6 w obj \<Longrightarrow> refused w (lua_wrap_JsPort_wakeupSigLatencyCallback L (obj # args) w)"
    "misfit 6 w obj \<Longrightarrow> refused w (lua_wrap_JsPort_initCaptureLatencyListener L (obj # args) w)"
    "misfit 6 w obj \<Longrightarrow> refused w (lua_wrap_JsPort_initPlaybackLatencyListener L (obj # args) w)"
    "misfit 6 w obj \<Longrightarrow> refused w (lua_wrap_JsPort_initLatencyListener L (obj # args) w)"
    "misfit 4 w obj \<Longrightarrow> refused w (lua_wrap_JsEvent_getType L (obj # args) w)"
    "misfit 4 w obj \<Longrightarrow> refused w (lua_wrap_JsEvent_getData L (obj # args) w)"
    "misfit 4 w obj \<Longrightarrow> refused w (lua_wrap_JsEvent_complete L (obj # args) w)"
    "misfit 4 w obj \<Longrightarrow> refused w (lua_wrap_JsEvent_getSessionEventType L (obj # args) w)"
    "misfit 4 w obj \<Longrightarrow> refused w (lua_wrap_JsEvent_getSessionDir L (obj # args) w)"
    "misfit 4 w obj \<Longrightarrow> refused w (lua_wrap_JsEvent_setSessionDir L (obj # args) w)"
    "misfit 4 w obj \<Longrightarrow> refused w (lua_wrap_JsEvent_getClientUuid L (obj # args) w)"
    "misfit 4 w obj \<Longrightarrow> refused w (lua_wrap_JsEvent_setClientUuid L (obj # args) w)"
    "misfit 4 w obj \<Longrightarrow> refused w (lua_wrap_JsEvent_getCommandLine L (obj # args) w)"
    "misfit 4 w obj \<Longrightarrow> refused w (lua_wrap_JsEvent_setCommandLine L (obj # args) w)"
    "misfit 4 w obj \<Longrightarrow> refused w (lua_wrap_JsEvent_getSessionEventFlags L (obj # args) w)"
    "misfit 4 w obj \<Longrightarrow> refused w (lua_wrap_JsEvent_setSessionEventFlags L (obj # args) w)"
    "misfit 3 w obj \<Longrightarrow> refused w (lua_wrap_JsClient_getPortNamesByType L (obj # args) w)"
    "misfit 3 w obj \<Longrightarrow> refused w (lua_wrap_JsClient_getPortNames L (obj # args) w)"
    "misfit 3 w obj \<Longrightarrow> refused w (lua_wrap_JsClient_getPort L (obj # args) w)"
    "misfit 3 w obj \<Longrightarrow> refused w (lua_wrap_JsClient_registerPort L (obj # args) w)"
    "misfit 3 w obj \<Longrightarrow> refused w (lua_wrap_JsClient_getEvent L (obj # args) w)"
    "misfit 3 w obj \<Longrightarrow> refused w (lua_wrap_JsClient_getSampleRate L (obj # args) w)"
    "misfit 3 w obj \<Longrightarrow> refused w (lua_wrap_JsClient_activate L (obj # args) w)"
    "misfit 3 w obj \<Longrightarrow> refused w (lua_wrap_JsClient_getName L (obj # args) w)"
    "misfit 3 w obj \<Longrightarrow> refused w (lua_wrap_JsClient_getTransportState L (obj # args) w)"
    "misfit 3 w obj \<Longrightarrow> refused w (lua_wrap_JsClient_recomputeLatencies L (obj # args) w)"
  unfolding lua_wrap_defs
  by (intro refused_count refused_check [OF heap] refused_ptr [OF heap];
      simp add: side readable_number lua_type_defs)+

lemma refused_self:
  assumes heap: "lheap w = lua_heap0" and c: "swig_lua_classes c = Some clss" and m: "(m, f) \<in> set (lc_methods clss)"
    and args: "\<forall>v \<in> set (obj # args). readable w v" and obj: "misfit c w obj"
  shows "refused w (lua_call L f (obj # args) w)"
proof -
  have "readable w obj" "\<And>i. i < length args \<Longrightarrow> readable w (args ! i)" using args by simp_all
  from refused_methods [OF heap this] show ?thesis
    using c m obj by (auto simp: swig_lua_classes_def class_defs lua_calls split: if_splits)
qed

section \<open>Calls in both languages\<close>

text \<open>
  The same result in Python and in Lua: nothing or null, a number, or an object that points to the
  same thing, with the same type and owner.
\<close>

definition same_value :: "'rb py_world \<Rightarrow> py_obj \<Rightarrow> 'rb lua_world \<Rightarrow> lua_value list \<Rightarrow> bool" where
  "same_value pw obj lw vs \<longleftrightarrow>
     (case obj of
        PyNone \<Rightarrow> vs = [] \<or> vs = [LNil]
      | PyInt n \<Rightarrow> vs = [LNumber (to_double n)]
      | PyProxy a \<Rightarrow> (\<exists>b x u. vs = [LUserdata b] \<and> objs (proxies pw) a = Some x \<and> objs (userdata lw) b = Some u \<and>
          so_ptr x = lu_ptr u \<and> so_own x = lu_own u \<and> swig_type_names ! so_ty x = lua_type_names ! lu_type u)
      | _ \<Rightarrow> False)"

text \<open>Both undefined, the same result, or the same error; and the same state of the library.\<close>

definition agree :: "'rb lua_api \<Rightarrow> 'rb outcome \<Rightarrow> 'rb lua_outcome \<Rightarrow> bool" where
  "agree L po lo \<longleftrightarrow>
     (case po of
        None \<Rightarrow> lo = None
      | Some (Returned (Some obj), pw) \<Rightarrow>
          (\<exists>vs lw. lo = Some (LReturned vs, lw) \<and> ljs lw = js pw \<and> same_value pw obj lw vs)
      | Some (Returned None, pw) \<Rightarrow>
          (\<exists>err lw. py_err pw = Some (RuntimeError, err) \<and> ljs lw = js pw \<and> lo = luaL_error L err lw)
      | Some (Exited code, pw) \<Rightarrow> False)"

lemma agree_guarded:
  assumes "js pw = ljs lw" "\<And>r j. agree L (k r (pw\<lparr>js := j\<rparr>)) (k' r (lw\<lparr>ljs := j\<rparr>))"
  shows "agree L (guarded act k pw) (lua_guarded L act k' lw)"
proof -
  have same: "lua_cleared lw = cleared pw" using assms(1) by (simp add: lua_cleared_def cleared_def)
  show ?thesis
  proof (cases "act (cleared pw)")
    case None
    then show ?thesis by (simp add: guarded_def lua_guarded_def same agree_def)
  next
    case (Some called)
    obtain r j where called: "called = (r, j)" by (cases called)
    show ?thesis
    proof (cases "check_exception (errors j)")
      case None
      then show ?thesis using Some called assms(2) by (simp add: guarded_def lua_guarded_def same after_call_def lua_after_call_def)
    next
      case (Some buf)
      then show ?thesis
        using \<open>act (cleared pw) = Some called\<close> called
        by (cases "c_string buf") (auto intro!: exI [of _ "lw\<lparr>ljs := j\<rparr>"] simp: guarded_def lua_guarded_def same after_call_def lua_after_call_def agree_def)
    qed
  qed
qed

lemma agree_none: "js pw = ljs lw \<Longrightarrow> agree L (return_obj PyNone [] pw) (push_none lw)"
  by (simp add: agree_def return_obj_def push_none_def same_value_def)

lemma agree_number: "js pw = ljs lw \<Longrightarrow> agree L (return_obj (PyInt n) [] pw) (push_number n lw)"
  by (simp add: agree_def return_obj_def push_number_def same_value_def)

lemma agree_object:
  assumes "js pw = ljs lw" "always_alloc (proxies pw)" "always_alloc (userdata lw)" "module_types (rt pw)" "lua_loaded lw"
    "ty < 14" "ty' < 13" "swig_type_names ! ty = lua_type_names ! ty'"
  shows "agree L (return_ptr p ty 0 [] pw) (push_ptr p ty' 0 lw)"
proof (cases p)
  case None
  then show ?thesis
    using assms(1) by (simp add: agree_def return_ptr_def SWIG_NewPointerObj_def push_ptr_def SWIG_Lua_NewPointerObj_def same_value_def)
next
  case (Some a)
  have "push_ptr (Some a) ty' 0 lw = Some (LReturned [LUserdata (next_addr (userdata lw))],
      lw\<lparr>userdata := added (lua_object a ty' 0) (userdata lw)\<rparr>)"
    by (simp add: push_ptr_def new_object [OF assms(5,7,3)])
  moreover have "return_ptr (Some a) ty 0 [] pw =
      Some (Returned (Some (PyProxy (next_addr (proxies pw)))), with_proxy a ty pw)"
    by (rule return_fresh [OF assms(4,6,2)])
  ultimately show ?thesis
    using Some assms(1,8) by (simp add: agree_def same_value_def lua_object_def)
qed

lemma lua_loaded_js [simp]: "lua_loaded (w\<lparr>ljs := j\<rparr>) = lua_loaded w"
  by (simp add: lua_loaded_def)

lemma lua_self:
  assumes "lua_loaded lw" "objs (userdata lw) a = Some u" "lu_type u = c" "c < 13"
  shows "SWIG_check_num_args func 1 1 [LUserdata a] k lw = k lw"
    "SWIG_check_num_args func (Suc 0) (Suc 0) [LUserdata a] k lw = k lw"
    "check_ptr [LUserdata a] func 1 ty k lw = k lw" "check_ptr [LUserdata a] func (Suc 0) ty k lw = k lw"
    "get_ptr [LUserdata a] func 1 c k' lw = k' (lu_ptr u) lw" "get_ptr [LUserdata a] func (Suc 0) c k' lw = k' (lu_ptr u) lw"
  using assms get_ptr_own [of lw a u c "[LUserdata a]" 1 func k']
  by (simp_all add: SWIG_check_num_args_def check_arg_def SWIG_isptrtype_def lua_isuserdata_def lua_loaded_def)

text \<open>The methods without arguments whose result is no string, in both modules.\<close>

definition shared_methods ::
  "'rb lua_api \<Rightarrow> (addr \<times> (py_obj list \<Rightarrow> 'rb py_world \<Rightarrow> 'rb outcome) \<times>
     (lua_value list \<Rightarrow> 'rb lua_world \<Rightarrow> 'rb lua_outcome)) list" where
  "shared_methods L =
     [(SWIGTYPE_p_JsPortBuffer, wrap_JsPortBuffer_length, lua_wrap_JsPortBuffer_length L),
      (SWIGTYPE_p_JsLatencyRange, wrap_JsLatencyRange_min, lua_wrap_JsLatencyRange_min L),
      (SWIGTYPE_p_JsLatencyRange, wrap_JsLatencyRange_max, lua_wrap_JsLatencyRange_max L),
      (SWIGTYPE_p_StringList, wrap_StringList_length, lua_wrap_StringList_length L),
      (SWIGTYPE_p_JsPort, wrap_JsPort_getBuffer (l_jack L), lua_wrap_JsPort_getBuffer L),
      (SWIGTYPE_p_JsPort, wrap_JsPort_wakeupLatencyCallbacks, lua_wrap_JsPort_wakeupLatencyCallbacks L),
      (SWIGTYPE_p_JsPort, wrap_JsPort_wakeupSigLatencyCallback, lua_wrap_JsPort_wakeupSigLatencyCallback L),
      (SWIGTYPE_p_JsPort, wrap_JsPort_initCaptureLatencyListener (l_jack L), lua_wrap_JsPort_initCaptureLatencyListener L),
      (SWIGTYPE_p_JsPort, wrap_JsPort_initPlaybackLatencyListener (l_jack L), lua_wrap_JsPort_initPlaybackLatencyListener L),
      (SWIGTYPE_p_JsPort, wrap_JsPort_initLatencyListener (l_jack L), lua_wrap_JsPort_initLatencyListener L),
      (SWIGTYPE_p_JsEvent, wrap_JsEvent_getType, lua_wrap_JsEvent_getType L),
      (SWIGTYPE_p_JsEvent, wrap_JsEvent_getData, lua_wrap_JsEvent_getData L),
      (SWIGTYPE_p_JsEvent, wrap_JsEvent_complete, lua_wrap_JsEvent_complete L),
      (SWIGTYPE_p_JsEvent, wrap_JsEvent_getSessionEventType, lua_wrap_JsEvent_getSessionEventType L),
      (SWIGTYPE_p_JsEvent, wrap_JsEvent_getSessionEventFlags, lua_wrap_JsEvent_getSessionEventFlags L),
      (SWIGTYPE_p_JsClient, wrap_JsClient_getSampleRate (l_jack L), lua_wrap_JsClient_getSampleRate L),
      (SWIGTYPE_p_JsClient, wrap_JsClient_activate (l_jack L), lua_wrap_JsClient_activate L),
      (SWIGTYPE_p_JsClient, wrap_JsClient_getTransportState (l_jack L), lua_wrap_JsClient_getTransportState L),
      (SWIGTYPE_p_JsClient, wrap_JsClient_recomputeLatencies (l_jack L), lua_wrap_JsClient_recomputeLatencies L)]"

lemmas shared_wrapper_defs = wrap_JsPortBuffer_length_def lua_wrap_JsPortBuffer_length_def
  wrap_JsLatencyRange_min_def lua_wrap_JsLatencyRange_min_def wrap_JsLatencyRange_max_def
  lua_wrap_JsLatencyRange_max_def wrap_StringList_length_def lua_wrap_StringList_length_def
  wrap_JsPort_getBuffer_def lua_wrap_JsPort_getBuffer_def wrap_JsPort_wakeupLatencyCallbacks_def
  lua_wrap_JsPort_wakeupLatencyCallbacks_def wrap_JsPort_wakeupSigLatencyCallback_def
  lua_wrap_JsPort_wakeupSigLatencyCallback_def wrap_JsPort_initCaptureLatencyListener_def
  lua_wrap_JsPort_initCaptureLatencyListener_def wrap_JsPort_initPlaybackLatencyListener_def
  lua_wrap_JsPort_initPlaybackLatencyListener_def wrap_JsPort_initLatencyListener_def
  lua_wrap_JsPort_initLatencyListener_def wrap_JsEvent_getType_def lua_wrap_JsEvent_getType_def
  wrap_JsEvent_getData_def lua_wrap_JsEvent_getData_def wrap_JsEvent_complete_def lua_wrap_JsEvent_complete_def
  wrap_JsEvent_getSessionEventType_def lua_wrap_JsEvent_getSessionEventType_def
  wrap_JsEvent_getSessionEventFlags_def lua_wrap_JsEvent_getSessionEventFlags_def wrap_JsClient_getSampleRate_def
  lua_wrap_JsClient_getSampleRate_def wrap_JsClient_activate_def lua_wrap_JsClient_activate_def
  wrap_JsClient_getTransportState_def lua_wrap_JsClient_getTransportState_def
  wrap_JsClient_recomputeLatencies_def lua_wrap_JsClient_recomputeLatencies_def

lemma type_indices:
  "SWIGTYPE_lua_JsClient = SWIGTYPE_p_JsClient" "SWIGTYPE_lua_JsEvent = SWIGTYPE_p_JsEvent"
  "SWIGTYPE_lua_JsLatencyRange = SWIGTYPE_p_JsLatencyRange" "SWIGTYPE_lua_JsPort = SWIGTYPE_p_JsPort"
  "SWIGTYPE_lua_JsPortBuffer = SWIGTYPE_p_JsPortBuffer" "SWIGTYPE_lua_StringList = SWIGTYPE_p_StringList"
  by (simp_all add: lua_type_defs py_type_defs)

lemma shared_agree:
  assumes m: "(c, p, l) \<in> set (shared_methods L)" and js: "js pw = ljs lw"
    and x: "objs (proxies pw) v = Some x" "so_ty x = c"
    and u: "objs (userdata lw) a = Some u" "lu_type u = c" and same: "so_ptr x = lu_ptr u"
    and ok: "always_alloc (proxies pw)" "always_alloc (userdata lw)" "module_types (rt pw)" "lua_loaded lw"
  shows "agree L (p [PyProxy v] pw) (l [LUserdata a] lw)"
proof -
  have c: "c < 13" using m by (auto simp: shared_methods_def py_type_defs)
  have lua: "lu_type u = d \<Longrightarrow> SWIG_check_num_args func (Suc 0) (Suc 0) [LUserdata a]
      (check_ptr [LUserdata a] func (Suc 0) ty (get_ptr [LUserdata a] name (Suc 0) d k)) lw = k (lu_ptr u) lw" for d func ty name k
    using lua_self [OF ok(4) u(1)] u(2) c by simp
  have py: "so_ty x = d \<Longrightarrow> arg_ptr (PyProxy v) d 0 bufs who k pw = k (lu_ptr u) pw" for d bufs who k
    using arg_ptr_own(1) [OF x(1)] same by simp
  have object: "agree L (return_ptr q ty 0 [] (pw\<lparr>js := j\<rparr>)) (push_ptr q ty' 0 (lw\<lparr>ljs := j\<rparr>))"
    if "ty < 14" "ty' < 13" "swig_type_names ! ty = lua_type_names ! ty'" for q j ty ty'
    by (rule agree_object) (use ok that in simp_all)
  note names = swig_type_names_def lua_type_names_def py_type_defs lua_type_defs
  have buffer: "agree L (return_ptr q SWIGTYPE_p_JsPortBuffer 0 [] (pw\<lparr>js := j\<rparr>))
      (push_ptr q SWIGTYPE_p_JsPortBuffer 0 (lw\<lparr>ljs := j\<rparr>))"
    and data: "agree L (return_ptr q SWIGTYPE_p_void 0 [] (pw\<lparr>js := j\<rparr>)) (push_ptr q SWIGTYPE_lua_void 0 (lw\<lparr>ljs := j\<rparr>))" for q j
    by (rule object; simp add: names)+
  from m x(2) u(2) show ?thesis
    unfolding shared_methods_def
    by (auto simp: shared_wrapper_defs type_indices py lua from_numbers
        intro!: agree_guarded [OF js] agree_none agree_number buffer data)
qed

section \<open>Ownership\<close>

text \<open>Whatever object a call returns is a new userdata with the given owner flag.\<close>

definition gives :: "int \<Rightarrow> ('rb lua_world \<Rightarrow> 'rb lua_outcome) \<Rightarrow> bool" where
  "gives own k \<longleftrightarrow> (\<forall>w a w1. k w = Some (LReturned [LUserdata a], w1) \<longrightarrow>
     (\<exists>u. objs (userdata w1) a = Some u \<and> lu_own u = own))"

lemma gives_fail: "SWIG_fail_arg func i ty args w \<noteq> Some (LReturned vs, w1)"
  "SWIG_fail_ptr func i c args w \<noteq> Some (LReturned vs, w1)" "luaL_error L err w \<noteq> Some (LReturned vs, w1)"
  by (auto simp: SWIG_fail_ptr_def SWIG_fail_arg_def lua_error_def luaL_error_def bind_eq_Some_conv)

lemma gives_args:
  "gives own k \<Longrightarrow> gives own (SWIG_check_num_args func n m args k)"
  "gives own k \<Longrightarrow> gives own (check_arg fits args func i ty k)"
  by (auto simp: gives_def SWIG_check_num_args_def check_arg_def lua_error_def gives_fail bind_eq_Some_conv split: if_splits)

lemma gives_values:
  "(\<And>p. gives own (k p)) \<Longrightarrow> gives own (get_ptr args func i c k)"
  "(\<And>n. gives own (kn n)) \<Longrightarrow> gives own (get_num lo hi L args i kn)"
  "(\<And>d. gives own (kd d)) \<Longrightarrow> gives own (get_float L args i kd)"
  by (auto simp: gives_def get_ptr_def get_num_def get_float_def gives_fail bind_eq_Some_conv split: if_splits)

lemma gives_unsigned:
  assumes "\<And>n. gives own (k n)"
  shows "gives own (get_unsigned hi word L args i k)"
proof -
  have "gives own (get_num 0 hi L args i (\<lambda>n. k (word n)))" by (rule gives_values(2)) (rule assms)
  then show ?thesis
    by (auto simp: gives_def get_unsigned_def SWIG_contract_assert_def lua_error_def bind_eq_Some_conv split: if_splits)
qed

lemma gives_str:
  assumes "\<And>p. gives own (k p)"
  shows "gives own (get_str L args i k)"
  using assms unfolding gives_def get_str_def
  by (auto split: lua_value.splits option.splits prod.splits)

lemma gives_char:
  assumes "\<And>c. gives own (k c)"
  shows "gives own (get_char L args i k)"
  unfolding get_char_def
  by (rule gives_str) (use assms in \<open>auto simp: gives_def bind_eq_Some_conv split: char_ptr.splits\<close>)

lemma gives_after: "(\<And>r. gives own (k r)) \<Longrightarrow> gives own (lua_after_call L called k)"
  by (auto simp: gives_def lua_after_call_def gives_fail bind_eq_Some_conv split: option.splits prod.splits)

lemma gives_guarded:
  assumes k: "\<And>r. gives own (k r)"
  shows "gives own (lua_guarded L act k)" "gives own (lua_guarded_exit L actx k)"
proof -
  note after = gives_after [OF k, unfolded gives_def, rule_format]
  show "gives own (lua_guarded L act k)"
    using after by (auto simp: gives_def lua_guarded_def bind_eq_Some_conv)
  show "gives own (lua_guarded_exit L actx k)"
    unfolding gives_def
  proof (intro allI impI)
    fix w a w1 assume "lua_guarded_exit L actx k w = Some (LReturned [LUserdata a], w1)"
    then obtain called where "(case called of Inl code \<Rightarrow> Some (LExited code, w) | Inr c \<Rightarrow> lua_after_call L c k w) =
        Some (LReturned [LUserdata a], w1)"
      by (auto simp: lua_guarded_exit_def bind_eq_Some_conv)
    then show "\<exists>u. objs (userdata w1) a = Some u \<and> lu_own u = own"
      using after by (cases called) auto
  qed
qed

lemma gives_push:
  "gives own push_none" "gives own (push_number n)" "gives own (push_str s)" "gives own (push_ptr p c own)"
proof -
  show "gives own push_none" "gives own (push_number n)" "gives own (push_str s)"
    by (auto simp: gives_def push_none_def push_number_def push_str_def lua_pushstring_def new_obj_def Let_def
        bind_eq_Some_conv split: if_splits)
  show "gives own (push_ptr p c own)"
    by (auto simp: gives_def push_ptr_def SWIG_Lua_NewPointerObj_def SWIG_Lua_AddMetatable_def new_obj_def Let_def
        put_obj_def bind_eq_Some_conv split: if_splits option.splits prod.splits)
qed

lemmas gives_rules = gives_args gives_values gives_unsigned gives_str gives_char gives_guarded gives_push

lemma gives_functions:
  "gives 0 (lua_wrap_JsPortBuffer_getf L args)"
  "gives 0 (lua_wrap_JsPortBuffer_setf L args)"
  "gives 0 (lua_wrap_JsPortBuffer_length L args)"
  "gives 0 (lua_wrap_JsPortBuffer_toHexString L args)"
  "gives 1 (lua_wrap_new_JsPortBuffer L args)"
  "gives 0 (lua_wrap_JsLatencyRange_min L args)"
  "gives 0 (lua_wrap_JsLatencyRange_max L args)"
  "gives 1 (lua_wrap_new_JsLatencyRange L args)"
  "gives 0 (lua_wrap_StringList_get L args)"
  "gives 0 (lua_wrap_StringList_length L args)"
  "gives 1 (lua_wrap_new_StringList L args)"
  "gives 0 (lua_wrap_JsPort_getBuffer L args)"
  "gives 0 (lua_wrap_JsPort_name L args)"
  "gives 0 (lua_wrap_JsPort_connect L args)"
  "gives 0 (lua_wrap_JsPort_getLatencyRange L args)"
  "gives 0 (lua_wrap_JsPort_setLatencyRange L args)"
  "gives 0 (lua_wrap_JsPort_wakeupLatencyCallbacks L args)"
  "gives 0 (lua_wrap_JsPort_wakeupSigLatencyCallback L args)"
  "gives 0 (lua_wrap_JsPort_initCaptureLatencyListener L args)"
  "gives 0 (lua_wrap_JsPort_initPlaybackLatencyListener L args)"
  "gives 0 (lua_wrap_JsPort_initLatencyListener L args)"
  "gives 1 (lua_wrap_new_JsPort L args)"
  "gives 0 (lua_wrap_JsEvent_getType L args)"
  "gives 0 (lua_wrap_JsEvent_getData L args)"
  "gives 0 (lua_wrap_JsEvent_complete L args)"
  "gives 0 (lua_wrap_JsEvent_getSessionEventType L args)"
  "gives 0 (lua_wrap_JsEvent_getSessionDir L args)"
  "gives 0 (lua_wrap_JsEvent_setSessionDir L args)"
  "gives 0 (lua_wrap_JsEvent_getClientUuid L args)"
  "gives 0 (lua_wrap_JsEvent_setClientUuid L args)"
  "gives 0 (lua_wrap_JsEvent_getCommandLine L args)"
  "gives 0 (lua_wrap_JsEvent_setCommandLine L args)"
  "gives 0 (lua_wrap_JsEvent_getSessionEventFlags L args)"
  "gives 0 (lua_wrap_JsEvent_setSessionEventFlags L args)"
  "gives 1 (lua_wrap_new_JsEvent L args)"
  "gives 1 (lua_wrap_new_JsClient L args)"
  "gives 0 (lua_wrap_JsClient_getPortNamesByType L args)"
  "gives 0 (lua_wrap_JsClient_getPortNames L args)"
  "gives 0 (lua_wrap_JsClient_getPort L args)"
  "gives 0 (lua_wrap_JsClient_registerPort L args)"
  "gives 0 (lua_wrap_JsClient_getEvent L args)"
  "gives 0 (lua_wrap_JsClient_getSampleRate L args)"
  "gives 0 (lua_wrap_JsClient_activate L args)"
  "gives 0 (lua_wrap_JsClient_getName L args)"
  "gives 0 (lua_wrap_JsClient_getTransportState L args)"
  "gives 0 (lua_wrap_JsClient_recomputeLatencies L args)"
  unfolding lua_wrap_defs get_uint_def get_ulong_def by (intro gives_rules)+

lemma function_ownership:
  assumes "(f, g) \<in> set (lua_functions L)"
  shows "gives (if take 10 f = ''_wrap_new_'' then 1 else 0) (g args)"
proof -
  have "gives 0 (SWIG_Lua_type args)" "gives 0 (SWIG_Lua_equal args)"
    by (auto simp: gives_def SWIG_Lua_type_def SWIG_Lua_equal_def lua_pushstring_def new_obj_def Let_def
        bind_eq_Some_conv split: list.splits if_splits)
  then show ?thesis using assms gives_functions [of L args] by (auto simp: lua_functions_def)
qed

end
