(* ===== verification/Lua_Properties.thy ===== *)
theory Lua_Properties
  imports LuaWrap_Calls Script_Properties
begin

text \<open>
  The properties of the Lua module: what loading builds, how methods are found, which arguments
  are refused, the agreement with the Python module, ownership and the lifetime of strings.
\<close>

section \<open>Loading\<close>




section \<open>Methods\<close>

text \<open>
  An object has exactly the methods of its class. Reading the name of a method gives its wrapper
  function, so calling the method runs that function on the object and the arguments; any other
  name reads as nothing, and writing to an object does nothing at all.
\<close>
lemma lua_methods_found:
  assumes "lua_loaded w" "objs (userdata w) v = Some u" "lu_meta u = Some (lc_name clss)" "swig_lua_classes c = Some clss"
    "lua_text key w = Some m"
  shows "(\<forall>f. (m, f) \<in> set (lc_methods clss) \<longrightarrow>
      (\<exists>g. (f, g) \<in> set (lua_functions L) \<and> lua_invoke L v key args w = g (LUserdata v # args) w)) \<and>
    (m \<notin> fst ` set (lc_methods clss) \<longrightarrow> SWIG_Lua_class_get (lua_call L) v key w = Some (LReturned [], w)) \<and>
    SWIG_Lua_class_set (lua_call L) v key val w = Some (LReturned [], w)"
proof (intro conjI allI impI)
  show "\<exists>g. (f, g) \<in> set (lua_functions L) \<and> lua_invoke L v key args w = g (LUserdata v # args) w"
    if mem: "(m, f) \<in> set (lc_methods clss)" for f
  proof -
    obtain g where g: "(f, g) \<in> set (lua_functions L)" using module_methods [OF assms(4) mem] by blast
    have "distinct (map fst (lc_methods clss))" using module_class(1) [OF assms(4)] by (simp add: plain_class_def)
    then have "map_of (lc_methods clss) m = Some f" using mem by (rule map_of_is_SomeI)
    then show ?thesis
      using g class_get_method(1) [OF assms] lua_call_function [OF g] by (auto simp: lua_invoke_def)
  qed
  show "SWIG_Lua_class_get (lua_call L) v key w = Some (LReturned [], w)" if "m \<notin> fst ` set (lc_methods clss)"
    using class_get_method(1) [OF assms] that by (simp add: map_of_eq_None_iff [THEN iffD2])
  show "SWIG_Lua_class_set (lua_call L) v key val w = Some (LReturned [], w)"
    by (rule class_get_method(2) [OF assms])
qed

text \<open>A loaded module with some library objects and the userdata for them.\<close>

definition lua0 :: "'rb js_world \<Rightarrow> (addr \<rightharpoonup> swig_lua_userdata) \<Rightarrow> 'rb lua_world" where
  "lua0 j us = \<lparr>ljs = j, userdata = \<lparr>objs = us, next_addr = 100, alloc_calls = 0, alloc_ok = \<lambda>_. True\<rparr>,
     lrun = lua_runtime0, lclasses = swig_lua_classes,
     lmetas = map_of (map (\<lambda>clss. (lc_name clss, class_metatable clss)) [wrap_class_JsClient, wrap_class_JsEvent,
       wrap_class_JsLatencyRange, wrap_class_JsPort, wrap_class_JsPortBuffer, wrap_class_StringList]),
     lmodule = \<lparr>md_fields = Map.empty, md_get = Map.empty, md_set = Map.empty\<rparr>, lglobals = Map.empty\<rparr>"

lemma lua0_simps [simp]:
  "ljs (lua0 j us) = j" "objs (userdata (lua0 j us)) = us" "always_alloc (userdata (lua0 j us))"
  "next_addr (userdata (lua0 j us)) = 100" "lheap (lua0 j us) = lua_heap0"
  by (simp_all add: lua0_def always_alloc_def lua_runtime0_def)

lemma lua0_loaded: "lua_loaded (lua0 j us)"
  unfolding lua_loaded_def by (auto simp: lua0_def lua_runtime0_def swig_lua_classes_def split: if_splits)

text \<open>The answers of the interpreter for the examples.\<close>

definition lua_answers :: "u8 list lua_api" where
  "lua_answers = \<lparr>l_jack = quiet_api, l_env = [], l_str2number = (\<lambda>_. None), l_number2str = (\<lambda>_. ''0''),
     l_where = ''script.lua:1: ''\<rparr>"

text \<open>A port object and its userdata, and the string \<open>connect\<close>.\<close>

definition lua_port_scene :: "u8 list lua_world" where
  "lua_port_scene = lua0 ((js0 (jacks0\<lparr>port_store := empty_store\<lparr>objs := [3 \<mapsto> silent_port]\<rparr>\<rparr>))
       \<lparr>js_ports := empty_store\<lparr>objs := [2 \<mapsto> \<lparr>jp_impl = Some 3, jp_clientimpl = Some 1\<rparr>]\<rparr>,
        cstrings := empty_store\<lparr>objs := [7 \<mapsto> ''connect'' @ [NUL]], next_addr := 20\<rparr>\<rparr>)
     [1 \<mapsto> lua_object 2 SWIGTYPE_lua_JsPort 0, 4 \<mapsto> lua_object 2 SWIGTYPE_lua_JsEvent 0]"

section \<open>Arguments\<close>



text \<open>
  What passes for an object is not checked further: nil stands for the null pointer, and the
  userdata of another library is read as if it were SWIG's. With either, reading a port's buffer has
  no defined result; nor has it when such a userdata is given for a number, because the message
  would name its type.
\<close>
lemma lua_foreign_userdata_undefined:
  "lua_wrap_JsPort_getBuffer L [LNil] w = None \<and> lua_wrap_JsPort_getBuffer L [LForeign] w = None \<and>
   lua_wrap_StringList_get L [LNil, LForeign] w = None"
  by (simp_all add: lua_wrap_JsPort_getBuffer_def lua_wrap_StringList_get_def SWIG_check_num_args_def check_arg_def
      SWIG_isptrtype_def lua_isuserdata_def get_ptr_def SWIG_Lua_ConvertPtr_def as_swig_def SWIG_IsOK_def
      lua_guarded_def JsPort_getBuffer_def lua_isnumber_def SWIG_fail_arg_def SWIG_Lua_typename_def)

section \<open>Both languages\<close>

text \<open>
  C17: The Lua and the Python module do the same. For each method without arguments (those that return
  strings apart), called on objects for the same thing in the same state of the library, both calls
  are undefined, or both raise the error of the library, or both return the same: nothing, the
  same number, or an object of the same type for the same thing, which neither owns. They leave the
  library in the same state.
\<close>
theorem python_lua_agree:
  assumes "(c, p, l) \<in> set (shared_methods L)" "js pw = ljs lw"
    "objs (proxies pw) v = Some x" "so_ty x = c" "objs (userdata lw) a = Some u" "lu_type u = c" "so_ptr x = lu_ptr u"
    "always_alloc (proxies pw)" "always_alloc (userdata lw)" "module_types (rt pw)" "lua_loaded lw"
  shows "agree L (p [PyProxy v] pw) (l [LUserdata a] lw)"
  by (rule shared_agree [OF assms])

theorem python_lua_agree_witness:
  "agree lua_answers (wrap_JsPort_getBuffer (l_jack lua_answers) [PyProxy 1] one_port)
     (lua_wrap_JsPort_getBuffer lua_answers [LUserdata 1] (lua0 (js one_port) [1 \<mapsto> lua_object 2 6 0]))"
proof (rule python_lua_agree)
  show "(SWIGTYPE_p_JsPort, wrap_JsPort_getBuffer (l_jack lua_answers), lua_wrap_JsPort_getBuffer lua_answers) \<in> set (shared_methods lua_answers)"
    by (simp add: shared_methods_def)
  show "objs (proxies one_port) 1 = Some (owner (Some 2) SWIGTYPE_p_JsPort)" by (simp add: one_port_def)
  show "module_types (rt one_port)" by (simp add: one_port_def module_types0)
  show "always_alloc (proxies one_port)" by (simp add: one_port_def py0_def empty_store_def always_alloc_def)
  show "lu_type (lua_object 2 6 0) = SWIGTYPE_p_JsPort" "so_ptr (owner (Some 2) SWIGTYPE_p_JsPort) = lu_ptr (lua_object 2 6 0)"
    by (simp_all add: lua_object_def owner_def SWIGTYPE_p_JsPort_def)
qed (simp_all add: lua0_loaded owner_def)

section \<open>Ownership\<close>

text \<open>
  C21: Only constructors make objects Lua owns. Whatever object a function of the module returns, for
  any arguments and in any state, is owned exactly when the function is a constructor; the ports,
  events, buffers and lists the other functions allocate and return are never owned.
\<close>
theorem lua_only_constructors_own:
  assumes "(f, g) \<in> set (lua_functions L)" "g args w = Some (LReturned [LUserdata a], w1)"
  shows "\<exists>u. objs (userdata w1) a = Some u \<and> lu_own u = (if take 10 f = ''_wrap_new_'' then 1 else 0)"
  using function_ownership [OF assms(1), of args] assms(2) by (auto simp: gives_def)

theorem lua_only_constructors_own_witness:
  "\<exists>a w1 u. lua_wrap_new_JsPort lua_answers [] lua_port_scene = Some (LReturned [LUserdata a], w1) \<and>
     objs (userdata w1) a = Some u \<and> lu_own u = 1"
proof -
  have scene: "lua_loaded (lua_port_scene\<lparr>ljs := j\<rparr>)" "always_alloc (userdata (lua_port_scene\<lparr>ljs := j\<rparr>))" for j
    by (simp_all add: lua_port_scene_def lua0_loaded)
  obtain p j where "makes js_ports (\<lambda>h w. w\<lparr>js_ports := h\<rparr>) \<lparr>jp_impl = NULL, jp_clientimpl = NULL\<rparr>
      (lua_cleared lua_port_scene) = Some (Some p, j)" "error_status (errors j) = 0"
    by (simp add: makes_def lua_cleared_def clear_exception_def lua_port_scene_def js0_def empty_store_def new_obj_def)
  then have run: "\<exists>a w1. lua_wrap_new_JsPort lua_answers [] lua_port_scene = Some (LReturned [LUserdata a], w1)"
    by (simp add: lua_wrap_new_JsPort_def SWIG_check_num_args_def lua_guarded_def lua_after_call_def check_exception_def
        push_ptr_def new_object [OF scene(1) _ scene(2)] SWIGTYPE_lua_JsPort_def)
  have fn: "(''_wrap_new_JsPort'', lua_wrap_new_JsPort lua_answers) \<in> set (lua_functions lua_answers)" by (simp add: lua_functions_def)
  from run lua_only_constructors_own [OF fn] show ?thesis by fastforce
qed

definition collected :: "addr \<Rightarrow> 'rb lua_world \<Rightarrow> 'rb lua_world" where
  "collected v w = w\<lparr>userdata := (userdata w)\<lparr>objs := (objs (userdata w))(v := None)\<rparr>\<rparr>"

lemma destructors:
  "lc_destructor wrap_class_JsClient = Some ''swig_delete_JsClient''"
  "lc_destructor wrap_class_JsEvent = Some ''swig_delete_JsEvent''"
  "lc_destructor wrap_class_JsLatencyRange = Some ''swig_delete_JsLatencyRange''"
  "lc_destructor wrap_class_JsPort = Some ''swig_delete_JsPort''"
  "lc_destructor wrap_class_JsPortBuffer = Some ''swig_delete_JsPortBuffer''"
  "lc_destructor wrap_class_StringList = Some ''swig_delete_StringList''"
  by (simp_all add: class_defs)

lemma lua_destroys:
  "lua_destroy ''swig_delete_JsClient'' = lua_delete_JsClient"
  "lua_destroy ''swig_delete_JsEvent'' = lua_delete_JsEvent"
  "lua_destroy ''swig_delete_JsLatencyRange'' = lua_delete_JsLatencyRange"
  "lua_destroy ''swig_delete_JsPort'' = lua_delete_JsPort"
  "lua_destroy ''swig_delete_JsPortBuffer'' = lua_delete_JsPortBuffer"
  "lua_destroy ''swig_delete_StringList'' = lua_delete_StringList"
  by (simp_all add: lua_destroy_def lua_destructors_def fun_eq_iff)

lemma class_destructor:
  assumes "swig_lua_classes c = Some clss"
  shows "\<exists>d. lc_destructor clss = Some d \<and> lua_destroy d p w = map_option (\<lambda>j. w\<lparr>ljs := j\<rparr>) (library_delete c p (ljs w))"
proof -
  have "(c, clss) \<in> {(3, wrap_class_JsClient), (4, wrap_class_JsEvent), (5, wrap_class_JsLatencyRange),
      (6, wrap_class_JsPort), (7, wrap_class_JsPortBuffer), (8, wrap_class_StringList)}"
    using assms by (auto simp: swig_lua_classes_def split: if_splits)
  then show ?thesis
    by (elim insertE emptyE; simp add: destructors lua_destroys library_delete_def py_type_defs
        lua_delete_JsClient_def lua_delete_JsEvent_def lua_delete_JsLatencyRange_def lua_delete_JsPort_def
        lua_delete_JsPortBuffer_def lua_delete_StringList_def)
qed

text \<open>
  C18: The collector destroys an owned object once and leaves the others alone. Collecting a userdata
  that owns its object runs the delete function of its class on it; collecting one that does not
  changes nothing in the library, so what the getters allocate is never freed. Either way the
  userdata is gone and cannot be collected again.
\<close>
theorem lua_collected_once:
  assumes "lua_loaded w" "objs (userdata w) v = Some (lua_object p c own)" "swig_lua_classes c = Some clss"
  shows "lua_collect lua_destroy v w =
      (if own = 0 then Some (collected v w)
       else map_option (\<lambda>j. collected v (w\<lparr>ljs := j\<rparr>)) (library_delete c (Some p) (ljs w))) \<and>
    (\<forall>w'. lua_collect lua_destroy v w = Some w' \<longrightarrow> lua_collect lua_destroy v w' = None)"
proof -
  have loaded: "lheap w = lua_heap0" "lclasses w = swig_lua_classes" "lmetas w (lc_name clss) = Some (class_metatable clss)"
    using assms(1,3) by (simp_all add: lua_loaded_def)
  obtain d where d: "lc_destructor clss = Some d"
    "lua_destroy d (Some p) w = map_option (\<lambda>j. w\<lparr>ljs := j\<rparr>) (library_delete c (Some p) (ljs w))"
    using class_destructor [OF assms(3)] by blast
  have "SWIG_Lua_class_destruct lua_destroy v w =
      (if own = 0 then Some w else map_option (\<lambda>j. w\<lparr>ljs := j\<rparr>) (library_delete c (Some p) (ljs w)))"
    using assms(2,3) loaded d module_class(3) [OF assms(3)]
    by (simp add: SWIG_Lua_class_destruct_def lua_object_def lua_type)
  moreover have "mt_events (class_metatable clss) ''__gc'' = Some ''SWIG_Lua_class_destruct''"
    by (simp add: class_metatable_def new_metatable_def)
  ultimately have run: "lua_collect lua_destroy v w =
      (if own = 0 then Some (collected v w)
       else map_option (\<lambda>j. collected v (w\<lparr>ljs := j\<rparr>)) (library_delete c (Some p) (ljs w)))"
    using assms(2,3) loaded(3)
    by (cases "library_delete c (Some p) (ljs w)") (simp_all add: lua_collect_def lua_object_def free_obj_def collected_def)
  have "lua_collect lua_destroy v (collected v w') = None" for w' :: "'a lua_world"
    by (simp add: lua_collect_def collected_def)
  with run show ?thesis by (auto split: if_splits)
qed

theorem lua_collected_once_witness:
  "lua_collect lua_destroy 1 lua_port_scene = Some (collected 1 lua_port_scene) \<and>
   (\<exists>w. lua_collect lua_destroy 1 (lua0 (ljs lua_port_scene) [1 \<mapsto> lua_object 2 SWIGTYPE_lua_JsPort 1]) = Some w \<and>
      objs (js_ports (ljs w)) 2 = None)"
proof
  have cls: "swig_lua_classes SWIGTYPE_lua_JsPort = Some wrap_class_JsPort" by (simp add: SWIGTYPE_lua_JsPort_def swig_classes)
  show "lua_collect lua_destroy 1 lua_port_scene = Some (collected 1 lua_port_scene)"
    using lua_collected_once [OF _ _ cls, of lua_port_scene 1 2 0]
    by (simp add: lua_port_scene_def lua0_loaded)
  have "\<exists>j. library_delete SWIGTYPE_lua_JsPort (Some 2) (ljs lua_port_scene) = Some j \<and> objs (js_ports j) 2 = None"
    by (simp add: library_delete_def lua_type_defs py_type_defs delete_JsPort_def lua_port_scene_def js0_def empty_store_def
        JacksRbPort_free_def free_obj_def silent_port_def)
  then show "\<exists>w. lua_collect lua_destroy 1 (lua0 (ljs lua_port_scene) [1 \<mapsto> lua_object 2 SWIGTYPE_lua_JsPort 1]) = Some w \<and>
      objs (js_ports (ljs w)) 2 = None"
    using lua_collected_once [OF lua0_loaded _ cls, of "ljs lua_port_scene" _ 1 2 1] by (auto simp: collected_def)
qed

section \<open>Strings and numbers\<close>

text \<open>The event behind a userdata has session data \<open>s\<close> at \<open>se\<close>.\<close>

definition lua_session :: "addr \<Rightarrow> ptr \<Rightarrow> jack_session_event_T \<Rightarrow> 'rb lua_world \<Rightarrow> bool" where
  "lua_session v se s w \<longleftrightarrow> lua_loaded w \<and>
     (\<exists>u p jv. objs (userdata w) v = Some u \<and> lu_type u = SWIGTYPE_lua_JsEvent \<and> lu_ptr u = Some p \<and>
        objs (js_events (ljs w)) p = Some jv \<and> JacksEvent_get_data (jv_impl jv) (events (core (ljs w))) = Some se \<and>
        get_obj se (session_events (ljs w)) = Some s)"

lemma lua_cleared_simps [simp]:
  "core (lua_cleared w) = core (ljs w)" "js_events (lua_cleared w) = js_events (ljs w)"
  "session_events (lua_cleared w) = session_events (ljs w)" "cstrings (lua_cleared w) = cstrings (ljs w)"
  "error_status (errors (lua_cleared w)) = 0"
  by (simp_all add: lua_cleared_def clear_exception_def)

lemma lua_after_ok: "error_status (errors j) = 0 \<Longrightarrow> lua_after_call L (r, j) k w = k r (w\<lparr>ljs := j\<rparr>)"
  by (simp add: lua_after_call_def check_exception_def)

lemma lua_session_of:
  assumes "lua_session v se s w"
  obtains p where "session_of (Some p) (lua_cleared w) = Some (se, s, lua_cleared w)" "se \<noteq> NULL"
    "\<And>name k. get_ptr (LUserdata v # args) name (Suc 0) SWIGTYPE_lua_JsEvent k w = k (Some p) w"
proof -
  obtain u p jv where u: "lua_loaded w" "objs (userdata w) v = Some u" "lu_type u = SWIGTYPE_lua_JsEvent" "lu_ptr u = Some p"
    and e: "objs (js_events (ljs w)) p = Some jv" "JacksEvent_get_data (jv_impl jv) (events (core (ljs w))) = Some se"
    "get_obj se (session_events (ljs w)) = Some s"
    using assms by (auto simp: lua_session_def)
  have "get_ptr (LUserdata v # args) name (Suc 0) SWIGTYPE_lua_JsEvent k w = k (Some p) w" for name k
    using get_ptr_own [OF _ u(2,3)] u(1,4) by (simp add: lua_loaded_def SWIGTYPE_lua_JsEvent_def)
  moreover have "se \<noteq> NULL" using e(3) by (cases se) simp_all
  moreover have "session_of (Some p) (lua_cleared w) = Some (se, s, lua_cleared w)"
    using e \<open>se \<noteq> NULL\<close> by (simp add: session_of_def)
  ultimately show thesis using that by blast
qed

lemma lua_session_dir:
  assumes "lua_session v se s w"
  shows "lua_wrap_JsEvent_getSessionDir L [LUserdata v] w = push_str (session_dir s) (w\<lparr>ljs := lua_cleared w\<rparr>)"
    "lua_wrap_JsEvent_setSessionDir L [LUserdata v, LString k] w = Some (LReturned [], w\<lparr>ljs := (lua_cleared w)
       \<lparr>session_events := (session_events (ljs w))\<lparr>objs := (objs (session_events (ljs w)))
          (the se \<mapsto> s\<lparr>session_dir := CHeap k\<rparr>)\<rparr>\<rparr>\<rparr>)"
proof -
  have ptr: "SWIG_isptrtype (LUserdata v)" by (simp add: SWIG_isptrtype_def lua_isuserdata_def)
  obtain p where p: "session_of (Some p) (lua_cleared w) = Some (se, s, lua_cleared w)" "se \<noteq> NULL"
    "\<And>name k. get_ptr (LUserdata v # []) name (Suc 0) SWIGTYPE_lua_JsEvent k w = k (Some p) w"
    by (rule lua_session_of [OF assms, of "[]"]) (rule that)
  then show "lua_wrap_JsEvent_getSessionDir L [LUserdata v] w = push_str (session_dir s) (w\<lparr>ljs := lua_cleared w\<rparr>)"
    using ptr by (simp add: lua_wrap_JsEvent_getSessionDir_def SWIG_check_num_args_def check_arg_def lua_guarded_def
        JsEvent_getSessionDir_def lua_after_ok)
  obtain q where q: "session_of (Some q) (lua_cleared w) = Some (se, s, lua_cleared w)" "se \<noteq> NULL"
    "\<And>name k'. get_ptr (LUserdata v # [LString k]) name (Suc 0) SWIGTYPE_lua_JsEvent k' w = k' (Some q) w"
    by (rule lua_session_of [OF assms, of "[LString k]"]) (rule that)
  have "get_obj se (session_events (ljs w)) = Some s" using assms by (auto simp: lua_session_def)
  from q put_get [OF this] show "lua_wrap_JsEvent_setSessionDir L [LUserdata v, LString k] w =
      Some (LReturned [], w\<lparr>ljs := (lua_cleared w)\<lparr>session_events := (session_events (ljs w))
        \<lparr>objs := (objs (session_events (ljs w)))(the se \<mapsto> s\<lparr>session_dir := CHeap k\<rparr>)\<rparr>\<rparr>\<rparr>)"
    using ptr by (simp add: lua_wrap_JsEvent_setSessionDir_def SWIG_check_num_args_def check_arg_def SWIG_lua_isnilstring_def
        get_str_def lua_guarded_def changes_def JsEvent_setSessionDir_def put_session_def lua_after_ok push_none_def)
qed

text \<open>
  A session directory set from Lua lives as long as the script keeps the string. The event
  keeps a pointer into the Lua string itself, so it reads back as it was set while the string is
  alive, and reading it after the string was collected is a use after free.
\<close>
lemma lua_session_dir_lifetime:
  assumes "lua_session v se s w" "objs (cstrings (ljs w)) k = Some (text @ [NUL])" "NUL \<notin> set text"
    "always_alloc (cstrings (ljs w))" "k \<noteq> next_addr (cstrings (ljs w))"
  shows "\<exists>w1. lua_wrap_JsEvent_setSessionDir L [LUserdata v, LString k] w = Some (LReturned [], w1) \<and>
    (\<exists>a w2. lua_wrap_JsEvent_getSessionDir L [LUserdata v] w1 = Some (LReturned [LString a], w2) \<and>
       lua_text a w2 = Some text) \<and>
    (\<exists>w3. lua_collect_string k w1 = Some w3 \<and> lua_wrap_JsEvent_getSessionDir L [LUserdata v] w3 = None)"
proof -
  let ?s = "s\<lparr>session_dir := CHeap k\<rparr>"
  define w1 where "w1 = w\<lparr>ljs := (lua_cleared w)\<lparr>session_events := (session_events (ljs w))
       \<lparr>objs := (objs (session_events (ljs w)))(the se \<mapsto> ?s)\<rparr>\<rparr>\<rparr>"
  have set: "lua_wrap_JsEvent_setSessionDir L [LUserdata v, LString k] w = Some (LReturned [], w1)"
    unfolding w1_def by (rule lua_session_dir(2) [OF assms(1)])
  obtain e where "se = Some e" using assms(1) by (cases se) (auto simp: lua_session_def)
  then have s1: "lua_session v se ?s w1" using assms(1) by (fastforce simp: lua_session_def w1_def)
  have text1: "c_string (text @ [NUL]) = Some text" by (rule take_text [OF assms(3)])
  have str: "cstrings (ljs w1) = cstrings (ljs w)" by (simp add: w1_def)
  have get: "\<exists>a w2. lua_wrap_JsEvent_getSessionDir L [LUserdata v] w1 = Some (LReturned [LString a], w2) \<and> lua_text a w2 = Some text"
    using assms(2,4) text1 str
    by (simp add: lua_session_dir(1) [OF s1] push_str_def read_chars_def lua_pushstring_def new_added lua_text_def)
  define w3 where "w3 = w1\<lparr>ljs := (ljs w1)\<lparr>cstrings := (cstrings (ljs w1))\<lparr>objs := (objs (cstrings (ljs w1)))(k := None)\<rparr>\<rparr>\<rparr>"
  have "lua_collect_string k w1 = Some w3"
    using assms(2) str by (simp add: lua_collect_string_def free_obj_def w3_def)
  moreover have s3: "lua_session v se ?s w3" using s1 by (simp add: lua_session_def w3_def)
  have "objs (cstrings (ljs w3)) k = None" by (simp add: w3_def)
  then have "lua_wrap_JsEvent_getSessionDir L [LUserdata v] w3 = None"
    by (simp add: lua_session_dir(1) [OF s3] push_str_def read_chars_def)
  ultimately show ?thesis using set get by blast
qed

text \<open>
  What a Lua number means as an unsigned argument: negative numbers (and NaN) are refused with the
  contract's message and change nothing; others are cut to an integer, and the call is made with it
  when it is below 2^32; from there on the cast has no defined result, and no check stops it.
\<close>
lemma lua_unsigned_argument:
  assumes "lua_loaded w" "objs (userdata w) v = Some u" "lu_type u = SWIGTYPE_lua_JsPortBuffer"
  shows "lua_wrap_JsPortBuffer_getf L [LUserdata v, LNumber d] w =
    (if not_negative d
     then (case cast_double 0 (2 ^ 32 - 1) d of
             None \<Rightarrow> None
           | Some n \<Rightarrow> lua_guarded L (reads (JsPortBuffer_getf (lu_ptr u) (word_of_int n)))
               (\<lambda>result. push_ptr result SWIGTYPE_lua_float 0) w)
     else Some (LRaised (LMessage ''number must not be negative''), w))"
proof -
  have "get_ptr [LUserdata v, LNumber d] name (Suc 0) SWIGTYPE_lua_JsPortBuffer k w = k (lu_ptr u) w" for name k
    using get_ptr_own [OF _ assms(2,3)] assms(1) by (simp add: lua_loaded_def SWIGTYPE_lua_JsPortBuffer_def)
  then show ?thesis
    by (cases "cast_double 0 (2 ^ 32 - 1) d")
      (simp_all add: lua_wrap_JsPortBuffer_getf_def SWIG_check_num_args_def check_arg_def SWIG_isptrtype_def lua_isuserdata_def
        lua_isnumber_def get_uint_def get_unsigned_def get_num_def lua_tonumber_def SWIG_contract_assert_def lua_error_def)
qed

end
