(* ===== verification/Queue_Threads.thy ===== *)
theory Queue_Threads
  imports Queue Freelist_Threads
begin

text \<open>
  The queue under any interleaving of threads (\<open>lfds/queue_queue.c\<close>, and
  \<open>queue_internal_init_element\<close> of \<open>lfds/queue_new.c\<close>). As in \<open>Freelist_Threads\<close>, every access to
  shared memory is a step of its own: the two words of a pointer-and-counter pair are read and
  written one after the other, increments and the compare-and-swap are atomic. The freelist
  operations inside an enqueue and a dequeue are the steps \<open>fl_move\<close> of that theory.

  A schedule says which thread moves next; a statement about all schedules is a statement about
  all interleavings.
\<close>

section \<open>Where a thread is\<close>

text \<open>The assignments of \<open>queue_internal_init_element\<close>, in their order.\<close>

datatype init_label = I_element | I_counter | I_clear | I_number | I_store | I_fe | I_data

text \<open>The accesses of \<open>queue_internal_queue\<close>.\<close>

datatype link_label =
    L_enqueue_pointer | L_enqueue_counter | L_next_pointer | L_next_counter
  | L_check_pointer | L_check_counter | L_link | L_help | L_swing

text \<open>The accesses of \<open>queue_dequeue\<close>.\<close>

datatype take_label =
    T_dequeue_pointer | T_dequeue_counter | T_enqueue_pointer | T_enqueue_counter
  | T_next_pointer | T_next_counter | T_check_pointer | T_check_counter
  | T_help | T_data | T_move | T_element

text \<open>
  With its local variables: the arguments of \<open>Init\<close> are \<open>fe\<close>, \<open>qe\<close>, the number for the link and
  \<open>user_data\<close>; those of \<open>Link\<close> are \<open>qe\<close>, \<open>enqueue\<close>, \<open>next\<close> and \<open>user_data\<close>; those of \<open>Take\<close> are
  \<open>dequeue\<close>, \<open>enqueue\<close>, \<open>next\<close> and \<open>*user_data\<close>. A local not yet assigned is \<open>(NULL, 0)\<close>.
\<close>

datatype q_pc =
    Q_idle
  | New_pop fl_pc ptr
  | Init init_label addr pac u64 ptr
  | Link link_label pac pac pac ptr
  | Take take_label pac pac pac ptr
  | Recycle fl_pc ptr

text \<open>
  What is seen from outside: calls with their arguments, returns with their results, and the
  steps \<open>Appended\<close> and \<open>Removed\<close> at which an element enters and leaves the chain.
\<close>

datatype q_event =
    Inner
  | Call_enqueue ptr
  | Appended ptr
  | Enqueued
  | Refused
  | Call_dequeue
  | Removed ptr
  | Dequeued ptr
  | Empty

section \<open>Steps\<close>

definition set_qe :: "ptr \<Rightarrow> (queue_element \<Rightarrow> queue_element) \<Rightarrow> mem \<Rightarrow> mem option" where
  "set_qe qe f m = do {
     a \<leftarrow> qe;
     c \<leftarrow> qe_cells m a;
     Some (m\<lparr>qe_cells := (qe_cells m)(a \<mapsto> f c)\<rparr>)
   }"

fun init_move :: "init_label \<Rightarrow> addr \<Rightarrow> pac \<Rightarrow> u64 \<Rightarrow> ptr \<Rightarrow> queue_state \<Rightarrow> mem \<Rightarrow> (q_pc \<times> queue_state \<times> mem) option" where
  "init_move I_element fe qe n v qs m = do {
     p \<leftarrow> freelist_get_user_data_from_element (Some fe) m;
     Some (Init I_counter fe (p, snd qe) n v, qs, m)
   }"
| "init_move I_counter fe qe n v qs m =
     (let (counter, aba) = abstraction_increment (q_aba_counter qs)
      in Some (Init I_clear fe (fst qe, counter) n v, qs\<lparr>q_aba_counter := aba\<rparr>, m))"
| "init_move I_clear fe qe n v qs m = do {
     m \<leftarrow> set_qe (fst qe) (\<lambda>c. c\<lparr>qe_next := (NULL, snd (qe_next c))\<rparr>) m;
     Some (Init I_number fe qe n v, qs, m)
   }"
| "init_move I_number fe qe n v qs m =
     (let (n, aba) = abstraction_increment (q_aba_counter qs)
      in Some (Init I_store fe qe n v, qs\<lparr>q_aba_counter := aba\<rparr>, m))"
| "init_move I_store fe qe n v qs m = do {
     m \<leftarrow> set_qe (fst qe) (\<lambda>c. c\<lparr>qe_next := (fst (qe_next c), n)\<rparr>) m;
     Some (Init I_fe fe qe n v, qs, m)
   }"
| "init_move I_fe fe qe n v qs m = do {
     m \<leftarrow> set_qe (fst qe) (\<lambda>c. c\<lparr>qe_fe := Some fe\<rparr>) m;
     Some (Init I_data fe qe n v, qs, m)
   }"
| "init_move I_data fe qe n v qs m = do {
     m \<leftarrow> set_qe (fst qe) (\<lambda>c. c\<lparr>qe_user_data := v\<rparr>) m;
     Some (Link L_enqueue_pointer qe (NULL, 0) (NULL, 0) v, qs, m)
   }"

text \<open>\<open>e\<close> and \<open>n\<close> are the locals \<open>enqueue\<close> and \<open>next\<close>.\<close>

fun link_move ::
  "link_label \<Rightarrow> pac \<Rightarrow> pac \<Rightarrow> pac \<Rightarrow> ptr \<Rightarrow> queue_state \<Rightarrow> mem \<Rightarrow> (q_pc \<times> q_event \<times> queue_state \<times> mem) option"
where
  "link_move L_enqueue_pointer qe e n v qs m =
     Some (Link L_enqueue_counter qe (fst (q_enqueue qs), snd e) n v, Inner, qs, m)"
| "link_move L_enqueue_counter qe e n v qs m =
     Some (Link L_next_pointer qe (fst e, snd (q_enqueue qs)) n v, Inner, qs, m)"
| "link_move L_next_pointer qe e n v qs m = do {
     a \<leftarrow> fst e;
     c \<leftarrow> qe_cells m a;
     Some (Link L_next_counter qe e (fst (qe_next c), snd n) v, Inner, qs, m)
   }"
| "link_move L_next_counter qe e n v qs m = do {
     a \<leftarrow> fst e;
     c \<leftarrow> qe_cells m a;
     Some (Link L_check_pointer qe e (fst n, snd (qe_next c)) v, Inner, qs, m)
   }"
| "link_move L_check_pointer qe e n v qs m =
     Some (Link (if fst (q_enqueue qs) = fst e then L_check_counter else L_enqueue_pointer) qe e n v, Inner, qs, m)"
| "link_move L_check_counter qe e n v qs m =
     (if snd (q_enqueue qs) = snd e then
        if fst n = NULL then Some (Link L_link (fst qe, snd n + sizeof_queue_element) e n v, Inner, qs, m)
        else Some (Link L_help qe e (fst n, snd e + sizeof_queue_element) v, Inner, qs, m)
      else Some (Link L_enqueue_pointer qe e n v, Inner, qs, m))"
| "link_move L_link qe e n v qs m = do {
     a \<leftarrow> fst e;
     c \<leftarrow> qe_cells m a;
     let (cas_result, dest, n) = abstraction_dcas (qe_next c) qe n
     in do {
       m \<leftarrow> set_qe_next (Some a) dest m;
       if cas_result = 0 then Some (Link L_enqueue_pointer qe e n v, Inner, qs, m)
       else Some (Link L_swing (fst qe, snd e + sizeof_queue_element) e n v, Appended v, qs, m)
     }
   }"
| "link_move L_help qe e n v qs m =
     (let (_, dest, e) = abstraction_dcas (q_enqueue qs) n e
      in Some (Link L_enqueue_pointer qe e n v, Inner, qs\<lparr>q_enqueue := dest\<rparr>, m))"
| "link_move L_swing qe e n v qs m =
     (let (_, dest, e) = abstraction_dcas (q_enqueue qs) qe e
      in Some (Q_idle, Enqueued, qs\<lparr>q_enqueue := dest\<rparr>, m))"

text \<open>\<open>d\<close>, \<open>e\<close> and \<open>n\<close> are the locals \<open>dequeue\<close>, \<open>enqueue\<close> and \<open>next\<close>.\<close>

fun take_move ::
  "take_label \<Rightarrow> pac \<Rightarrow> pac \<Rightarrow> pac \<Rightarrow> ptr \<Rightarrow> queue_state \<Rightarrow> mem \<Rightarrow> (q_pc \<times> q_event \<times> queue_state \<times> mem) option"
where
  "take_move T_dequeue_pointer d e n v qs m =
     Some (Take T_dequeue_counter (fst (q_dequeue qs), snd d) e n v, Inner, qs, m)"
| "take_move T_dequeue_counter d e n v qs m =
     Some (Take T_enqueue_pointer (fst d, snd (q_dequeue qs)) e n v, Inner, qs, m)"
| "take_move T_enqueue_pointer d e n v qs m =
     Some (Take T_enqueue_counter d (fst (q_enqueue qs), snd e) n v, Inner, qs, m)"
| "take_move T_enqueue_counter d e n v qs m =
     Some (Take T_next_pointer d (fst e, snd (q_enqueue qs)) n v, Inner, qs, m)"
| "take_move T_next_pointer d e n v qs m = do {
     a \<leftarrow> fst d;
     c \<leftarrow> qe_cells m a;
     Some (Take T_next_counter d e (fst (qe_next c), snd n) v, Inner, qs, m)
   }"
| "take_move T_next_counter d e n v qs m = do {
     a \<leftarrow> fst d;
     c \<leftarrow> qe_cells m a;
     Some (Take T_check_pointer d e (fst n, snd (qe_next c)) v, Inner, qs, m)
   }"
| "take_move T_check_pointer d e n v qs m =
     Some (Take (if fst d = fst (q_dequeue qs) then T_check_counter else T_dequeue_pointer) d e n v, Inner, qs, m)"
| "take_move T_check_counter d e n v qs m =
     (if snd d = snd (q_dequeue qs) then
        case classify QUEUE_STATE_UNKNOWN e d n of
          QUEUE_STATE_UNKNOWN \<Rightarrow> Some (Take T_dequeue_pointer d e n v, Inner, qs, m)
        | QUEUE_STATE_EMPTY \<Rightarrow> Some (Q_idle, Empty, qs, m)
        | QUEUE_STATE_ENQUEUE_OUT_OF_PLACE \<Rightarrow>
            Some (Take T_help d e (fst n, snd e + sizeof_queue_element) v, Inner, qs, m)
        | QUEUE_STATE_ATTEMPT_DEQUEUE \<Rightarrow> Some (Take T_data d e n v, Inner, qs, m)
      else Some (Take T_dequeue_pointer d e n v, Inner, qs, m))"
| "take_move T_help d e n v qs m =
     (let (_, dest, e) = abstraction_dcas (q_enqueue qs) n e
      in Some (Take T_dequeue_pointer d e n v, Inner, qs\<lparr>q_enqueue := dest\<rparr>, m))"
| "take_move T_data d e n v qs m = do {
     a \<leftarrow> fst n;
     c \<leftarrow> qe_cells m a;
     Some (Take T_move d e (fst n, snd d + sizeof_queue_element) (qe_user_data c), Inner, qs, m)
   }"
| "take_move T_move d e n v qs m =
     (let (cas_result, dest, d) = abstraction_dcas (q_dequeue qs) n d;
          qs = qs\<lparr>q_dequeue := dest\<rparr>
      in if cas_result = 1 then Some (Take T_element d e n v, Removed v, qs, m)
         else Some (Take T_dequeue_pointer d e n v, Inner, qs, m))"
| "take_move T_element d e n v qs m = do {
     a \<leftarrow> fst d;
     c \<leftarrow> qe_cells m a;
     fe \<leftarrow> qe_fe c;
     Some (Recycle (Push_increment fe) v, Inner, qs, m)
   }"

text \<open>How an enqueue goes on when the pop has ended, and a dequeue when the push has.\<close>

fun after_pop :: "fl_pc \<Rightarrow> fl_event \<Rightarrow> ptr \<Rightarrow> q_pc \<times> q_event" where
  "after_pop pc (Popped None) v = (Q_idle, Refused)"
| "after_pop pc (Popped (Some fe)) v = (Init I_element fe (NULL, 0) 0 v, Inner)"
| "after_pop pc _ v = (New_pop pc v, Inner)"

fun after_push :: "fl_pc \<Rightarrow> fl_event \<Rightarrow> ptr \<Rightarrow> q_pc \<times> q_event" where
  "after_push pc (Pushed fe) v = (Q_idle, Dequeued v)"
| "after_push pc _ v = (Recycle pc v, Inner)"

fun q_move :: "q_pc \<Rightarrow> queue_state \<Rightarrow> mem \<Rightarrow> (q_pc \<times> q_event \<times> queue_state \<times> mem) option" where
  "q_move Q_idle qs m = None"
| "q_move (New_pop pc v) qs m = do {
     (pc, ev, fs, m) \<leftarrow> fl_move pc (q_fs qs) m;
     let (pc, ev) = after_pop pc ev v in Some (pc, ev, qs\<lparr>q_fs := fs\<rparr>, m)
   }"
| "q_move (Init l fe qe n v) qs m = do {
     (pc, qs, m) \<leftarrow> init_move l fe qe n v qs m;
     Some (pc, Inner, qs, m)
   }"
| "q_move (Link l qe e n v) qs m = link_move l qe e n v qs m"
| "q_move (Take l d e n v) qs m = take_move l d e n v qs m"
| "q_move (Recycle pc v) qs m = do {
     (pc, ev, fs, m) \<leftarrow> fl_move pc (q_fs qs) m;
     let (pc, ev) = after_push pc ev v in Some (pc, ev, qs\<lparr>q_fs := fs\<rparr>, m)
   }"

section \<open>Schedules\<close>

record 't q_sys =
  sys_qs :: queue_state
  sys_mem :: mem
  sys_pcs :: "'t \<Rightarrow> q_pc"

datatype 't q_act = Do_enqueue 't ptr | Do_dequeue 't | Step 't

fun actor :: "'t q_act \<Rightarrow> 't" where
  "actor (Do_enqueue t v) = t" | "actor (Do_dequeue t) = t" | "actor (Step t) = t"

text \<open>An idle thread may start an operation; a thread inside one takes its next step.\<close>

fun q_do :: "'t q_act \<Rightarrow> 't q_sys \<Rightarrow> (q_event \<times> 't q_sys) option" where
  "q_do (Do_enqueue t v) s =
     (if sys_pcs s t = Q_idle
      then Some (Call_enqueue v, s\<lparr>sys_pcs := (sys_pcs s)(t := New_pop Pop_read_counter v)\<rparr>) else None)"
| "q_do (Do_dequeue t) s =
     (if sys_pcs s t = Q_idle
      then Some (Call_dequeue, s\<lparr>sys_pcs := (sys_pcs s)(t := Take T_dequeue_pointer (NULL, 0) (NULL, 0) (NULL, 0) NULL)\<rparr>)
      else None)"
| "q_do (Step t) s = do {
     (pc, ev, qs, m) \<leftarrow> q_move (sys_pcs s t) (sys_qs s) (sys_mem s);
     Some (ev, \<lparr>sys_qs = qs, sys_mem = m, sys_pcs = (sys_pcs s)(t := pc)\<rparr>)
   }"

fun q_schedule :: "'t q_act list \<Rightarrow> 't q_sys \<Rightarrow> (('t \<times> q_event) list \<times> 't q_sys) option" where
  "q_schedule [] s = Some ([], s)"
| "q_schedule (a # acts) s = do {
     (ev, s) \<leftarrow> q_do a s;
     (es, s) \<leftarrow> q_schedule acts s;
     Some ((actor a, ev) # es, s)
   }"

definition q_start :: "queue_state \<Rightarrow> mem \<Rightarrow> 't q_sys" where
  "q_start qs m = \<lparr>sys_qs = qs, sys_mem = m, sys_pcs = (\<lambda>_. Q_idle)\<rparr>"

definition visible :: "('t \<times> q_event) list \<Rightarrow> ('t \<times> q_event) list" where
  "visible es = filter (\<lambda>(t, ev). ev \<noteq> Inner) es"

section \<open>Torn reads\<close>

text \<open>
  The element whose link a thread has read by half, and the element whose link its next step
  writes. A step tears a read when it writes the link another thread has read by half.
\<close>

fun half_read :: "q_pc \<Rightarrow> ptr" where
  "half_read (Link L_next_counter qe e n v) = fst e"
| "half_read _ = NULL"

fun link_written :: "q_pc \<Rightarrow> ptr" where
  "link_written (Init I_clear fe qe n v) = fst qe"
| "link_written (Init I_store fe qe n v) = fst qe"
| "link_written (Link L_link qe e n v) = fst e"
| "link_written _ = NULL"

fun tears :: "'t q_act \<Rightarrow> 't q_sys \<Rightarrow> bool" where
  "tears (Step t) s =
     (\<exists>u. u \<noteq> t \<and> half_read (sys_pcs s u) \<noteq> NULL \<and> half_read (sys_pcs s u) = link_written (sys_pcs s t))"
| "tears _ s = False"

fun untorn :: "'t q_act list \<Rightarrow> 't q_sys \<Rightarrow> bool" where
  "untorn [] s = True"
| "untorn (a # acts) s =
     (\<not> tears a s \<and> (case q_do a s of None \<Rightarrow> True | Some (ev, s) \<Rightarrow> untorn acts s))"

section \<open>The specification\<close>

text \<open>
  A queue that many threads use. Between its call and its return an operation takes effect
  once: an enqueue appends its value, a dequeue takes the oldest value, or finds at some moment
  that there is none. \<open>Looking b\<close> is a dequeue that has not taken effect; \<open>b\<close> says that the
  queue has been empty since it was called.
\<close>

datatype status = Outside_op | Adding ptr | Added | Looking bool | Took ptr

fun look_again :: "status \<Rightarrow> status" where
  "look_again (Looking b) = Looking True"
| "look_again st = st"

fun spec_step :: "'t \<Rightarrow> q_event \<Rightarrow> ptr list \<times> ('t \<Rightarrow> status) \<Rightarrow> (ptr list \<times> ('t \<Rightarrow> status)) option" where
  "spec_step t Inner (vs, st) = Some (vs, st)"
| "spec_step t (Call_enqueue v) (vs, st) = (if st t = Outside_op then Some (vs, st(t := Adding v)) else None)"
| "spec_step t (Appended v) (vs, st) = (if st t = Adding v then Some (vs @ [v], st(t := Added)) else None)"
| "spec_step t Enqueued (vs, st) = (if st t = Added then Some (vs, st(t := Outside_op)) else None)"
| "spec_step t Refused (vs, st) =
     (case st t of Adding v \<Rightarrow> Some (vs, st(t := Outside_op)) | _ \<Rightarrow> None)"
| "spec_step t Call_dequeue (vs, st) =
     (if st t = Outside_op then Some (vs, st(t := Looking (vs = []))) else None)"
| "spec_step t (Removed v) (vs, st) =
     (case (st t, vs) of
        (Looking b, w # ws) \<Rightarrow>
          if v = w then Some (ws, (if ws = [] then look_again \<circ> st else st)(t := Took v)) else None
      | _ \<Rightarrow> None)"
| "spec_step t (Dequeued v) (vs, st) = (if st t = Took v then Some (vs, st(t := Outside_op)) else None)"
| "spec_step t Empty (vs, st) = (if st t = Looking True then Some (vs, st(t := Outside_op)) else None)"

fun spec_run :: "('t \<times> q_event) list \<Rightarrow> ptr list \<times> ('t \<Rightarrow> status) \<Rightarrow> (ptr list \<times> ('t \<Rightarrow> status)) option" where
  "spec_run [] st = Some st"
| "spec_run ((t, ev) # es) st = Option.bind (spec_step t ev st) (spec_run es)"

end
