(* ===== verification/Queue_Inv.thy ===== *)
theory Queue_Inv
  imports Queue_Threads
begin

text \<open>
  What holds between the steps of any number of threads on a queue, and that what a thread
  knows survives the steps of the others. The ends of the queue carry counters that grow with
  every move, so a pair once read and later found unchanged has not moved in between. A link
  carries the number drawn when its element was prepared, until the element is linked to its
  successor.
\<close>

section \<open>Elements and counters\<close>

definition next_qe :: "mem \<Rightarrow> addr \<Rightarrow> pac" where
  "next_qe m a = qe_next (the (qe_cells m a))"

definition data_qe :: "mem \<Rightarrow> addr \<Rightarrow> ptr" where
  "data_qe m a = qe_user_data (the (qe_cells m a))"

definition fe_qe :: "mem \<Rightarrow> addr \<Rightarrow> ptr" where
  "fe_qe m a = qe_fe (the (qe_cells m a))"

abbreviation elements :: "mem \<Rightarrow> addr set" where
  "elements m \<equiv> dom (qe_cells m)"

text \<open>The queue element a freelist element stands for.\<close>

definition element_of :: "mem \<Rightarrow> addr \<Rightarrow> addr option" where
  "element_of m fe = Option.bind (fe_cells m fe) fe_user_data"

text \<open>A counter after some moves. Moves below \<open>2 ^ 58\<close> are told apart.\<close>

definition tick :: "u64 \<Rightarrow> nat \<Rightarrow> u64" where
  "tick c k = c + of_nat (32 * k)"

lemma unat_small: "k < 2 ^ 64 \<Longrightarrow> unat (of_nat k :: u64) = k"
  using unat_of_nat [of k, where 'a = 64] by simp

lemma of_nat_small: "j < 2 ^ 64 \<Longrightarrow> k < 2 ^ 64 \<Longrightarrow> (of_nat j :: u64) = of_nat k \<longleftrightarrow> j = k"
  by (metis unat_small)

lemma tick_Suc: "tick c (Suc k) = tick c k + sizeof_queue_element"
  by (simp add: tick_def sizeof_queue_element_def algebra_simps)

lemma tick_inj: "j < 2 ^ 59 \<Longrightarrow> k < 2 ^ 59 \<Longrightarrow> tick c j = tick c k \<longleftrightarrow> j = k"
  using of_nat_small [of "32 * j" "32 * k"] by (simp add: tick_def)

text \<open>
  Ghosts: the chain from the dummy on, the number each element was last prepared with, how
  often the ends have moved from which counters, and how many numbers have been drawn.
\<close>

record q_ghost =
  chain :: "addr list"
  num :: "addr \<rightharpoonup> nat"
  d_moves :: nat
  e_moves :: nat
  d_base :: u64
  e_base :: u64
  drawn :: nat

definition old_d :: "q_ghost \<Rightarrow> u64 set" where
  "old_d g = tick (d_base g) ` {.. d_moves g}"

definition old_e :: "q_ghost \<Rightarrow> u64 set" where
  "old_e g = tick (e_base g) ` {.. e_moves g}"

fun chained :: "(addr \<Rightarrow> pac) \<Rightarrow> (addr \<rightharpoonup> nat) \<Rightarrow> addr list \<Rightarrow> bool" where
  "chained lk nm [] \<longleftrightarrow> True"
| "chained lk nm [q] \<longleftrightarrow> (\<exists>k. nm q = Some k \<and> lk q = (NULL, of_nat k))"
| "chained lk nm (q # x # xs) \<longleftrightarrow>
     (\<exists>k. nm q = Some k \<and> lk q = (Some x, of_nat k + sizeof_queue_element)) \<and> chained lk nm (x # xs)"

lemma chained_cong:
  "(\<And>q. q \<in> set qs \<Longrightarrow> lk' q = lk q \<and> nm' q = nm q) \<Longrightarrow> chained lk' nm' qs = chained lk nm qs"
  by (induction lk nm qs rule: chained.induct) auto

lemma chained_tl: "chained lk nm (q # qs) \<Longrightarrow> chained lk nm qs"
  by (cases qs) auto

lemma chained_append: "chained lk nm (xs @ ys) \<Longrightarrow> chained lk nm ys"
  by (induction xs) (auto dest: chained_tl)

lemma chained_last: "chained lk nm (xs @ [q]) \<Longrightarrow> \<exists>k. nm q = Some k \<and> lk q = (NULL, of_nat k)"
  using chained_append by fastforce

lemma chained_mid:
  "chained lk nm (xs @ q # x # ys) \<Longrightarrow> \<exists>k. nm q = Some k \<and> lk q = (Some x, of_nat k + sizeof_queue_element)"
  using chained_append by fastforce

lemma chained_num: "chained lk nm qs \<Longrightarrow> q \<in> set qs \<Longrightarrow> \<exists>k. nm q = Some k"
  by (induction lk nm qs rule: chained.induct) auto

lemma chained_snoc:
  assumes "chained lk nm (xs @ [q])" "lk' x = (NULL, of_nat j)" "nm' x = Some j"
    "nm q = Some k" "lk' q = (Some x, of_nat k + sizeof_queue_element)" "x \<notin> set (xs @ [q])" "q \<notin> set xs"
    "\<And>a. a \<noteq> q \<Longrightarrow> a \<noteq> x \<Longrightarrow> lk' a = lk a" "\<And>a. a \<noteq> x \<Longrightarrow> nm' a = nm a"
  shows "chained lk' nm' (xs @ [q, x])"
  using assms
proof (induction xs)
  case Nil
  then show ?case by simp
next
  case (Cons a xs)
  then have "chained lk' nm' (xs @ [q, x])" by (auto dest: chained_tl)
  with Cons.prems show ?case by (cases xs) auto
qed

section \<open>What a thread knows\<close>

definition idle_link :: "q_ghost \<Rightarrow> mem \<Rightarrow> addr \<Rightarrow> bool" where
  "idle_link g m q \<longleftrightarrow> (\<forall>k. num g q = Some k \<longrightarrow> snd (next_qe m q) = of_nat k + sizeof_queue_element)"

definition numbered :: "q_ghost \<Rightarrow> mem \<Rightarrow> addr \<Rightarrow> bool" where
  "numbered g m q \<longleftrightarrow> (\<exists>k. num g q = Some k \<and> 2 \<le> k \<and> next_qe m q = (NULL, of_nat k))"

fun init_knows :: "q_ghost \<Rightarrow> mem \<Rightarrow> init_label \<Rightarrow> addr \<Rightarrow> u64 \<Rightarrow> addr \<Rightarrow> bool" where
  "init_knows g m I_element fe n q \<longleftrightarrow> True"
| "init_knows g m I_counter fe n q \<longleftrightarrow> True"
| "init_knows g m I_clear fe n q \<longleftrightarrow> 1 \<le> drawn g"
| "init_knows g m I_number fe n q \<longleftrightarrow> 1 \<le> drawn g \<and> fst (next_qe m q) = NULL"
| "init_knows g m I_store fe n q \<longleftrightarrow>
     fst (next_qe m q) = NULL \<and>
     (\<exists>k. n = of_nat k \<and> 2 \<le> k \<and> k \<le> drawn g \<and> (\<forall>j. num g q = Some j \<longrightarrow> j < k))"
| "init_knows g m I_fe fe n q \<longleftrightarrow> numbered g m q"
| "init_knows g m I_data fe n q \<longleftrightarrow> numbered g m q \<and> fe_qe m q = Some fe"

text \<open>An enqueuer's copy \<open>n\<close> of the link of the element \<open>enqueue\<close> pointed to.\<close>

definition good_link_copy :: "q_ghost \<Rightarrow> mem \<Rightarrow> addr \<Rightarrow> pac \<Rightarrow> bool" where
  "good_link_copy g m a n \<longleftrightarrow>
     (if fst n = NULL
      then (\<exists>k. num g a = Some k \<and> snd n = of_nat k) \<and> (next_qe m a = n \<or> fst (next_qe m a) \<noteq> NULL)
      else fst (next_qe m a) = fst n)"

fun link_knows :: "q_ghost \<Rightarrow> pac \<Rightarrow> mem \<Rightarrow> link_label \<Rightarrow> pac \<Rightarrow> pac \<Rightarrow> pac \<Rightarrow> addr \<Rightarrow> bool" where
  "link_knows g E m L_enqueue_pointer qe e n a \<longleftrightarrow> True"
| "link_knows g E m L_enqueue_counter qe e n a \<longleftrightarrow> fst e = Some a \<and> a \<in> elements m"
| "link_knows g E m L_next_pointer qe e n a \<longleftrightarrow> fst e = Some a \<and> a \<in> elements m \<and> snd e \<in> old_e g"
| "link_knows g E m L_next_counter qe e n a \<longleftrightarrow>
     fst e = Some a \<and> a \<in> elements m \<and> snd e \<in> old_e g \<and> fst n = fst (next_qe m a)"
| "link_knows g E m L_check_pointer qe e n a \<longleftrightarrow>
     fst e = Some a \<and> a \<in> elements m \<and> snd e \<in> old_e g \<and> (E = e \<longrightarrow> good_link_copy g m a n)"
| "link_knows g E m L_check_counter qe e n a \<longleftrightarrow>
     fst e = Some a \<and> a \<in> elements m \<and> snd e \<in> old_e g \<and> (snd E = snd e \<longrightarrow> E = e \<and> good_link_copy g m a n)"
| "link_knows g E m L_link qe e n a \<longleftrightarrow>
     fst e = Some a \<and> a \<in> elements m \<and> snd e \<in> old_e g \<and> fst n = NULL \<and>
     (\<exists>k j. snd n = of_nat k \<and> num g a = Some j \<and> k \<le> j) \<and> (next_qe m a = n \<longrightarrow> E = e) \<and>
     snd qe = snd n + sizeof_queue_element"
| "link_knows g E m L_help qe e n a \<longleftrightarrow>
     fst e = Some a \<and> snd e \<in> old_e g \<and> snd n = snd e + sizeof_queue_element \<and> fst n \<noteq> NULL \<and>
     (E = e \<longrightarrow> fst (next_qe m a) = fst n)"
| "link_knows g E m L_swing qe e n a \<longleftrightarrow>
     fst e = Some a \<and> snd e \<in> old_e g \<and> snd qe = snd e + sizeof_queue_element \<and> fst qe \<noteq> NULL \<and>
     (E = e \<longrightarrow> fst (next_qe m a) = fst qe)"

text \<open>
  A dequeuer's copies: \<open>ahead\<close> when the ends differed while \<open>dequeue\<close> stood still; \<open>took_link\<close>
  for the link; \<open>seen\<close> says that the queue has been empty since the call.
\<close>

definition ahead :: "pac \<Rightarrow> pac \<Rightarrow> pac \<Rightarrow> pac \<Rightarrow> bool" where
  "ahead D E d e \<longleftrightarrow> (D = d \<and> fst e \<noteq> fst d \<longrightarrow> fst E \<noteq> fst D)"

definition took_link :: "pac \<Rightarrow> pac \<Rightarrow> mem \<Rightarrow> bool \<Rightarrow> pac \<Rightarrow> pac \<Rightarrow> pac \<Rightarrow> addr \<Rightarrow> bool" where
  "took_link D E m seen d e n a \<longleftrightarrow>
     (D = d \<and> fst n \<noteq> NULL \<longrightarrow> fst (next_qe m a) = fst n) \<and>
     (D = d \<and> fst n = NULL \<longrightarrow> fst e = fst d \<and> seen) \<and>
     (E = e \<and> fst e = fst d \<and> fst n \<noteq> NULL \<longrightarrow> fst (next_qe m a) = fst n)"

fun take_knows ::
  "q_ghost \<Rightarrow> pac \<Rightarrow> pac \<Rightarrow> mem \<Rightarrow> bool \<Rightarrow> take_label \<Rightarrow> pac \<Rightarrow> pac \<Rightarrow> pac \<Rightarrow> ptr \<Rightarrow> addr \<Rightarrow> bool"
where
  "take_knows g D E m seen T_dequeue_pointer d e n v a \<longleftrightarrow> True"
| "take_knows g D E m seen T_dequeue_counter d e n v a \<longleftrightarrow> fst d = Some a \<and> a \<in> elements m"
| "take_knows g D E m seen T_enqueue_pointer d e n v a \<longleftrightarrow> fst d = Some a \<and> a \<in> elements m \<and> snd d \<in> old_d g"
| "take_knows g D E m seen T_enqueue_counter d e n v a \<longleftrightarrow>
     fst d = Some a \<and> a \<in> elements m \<and> snd d \<in> old_d g \<and> ahead D E d e"
| "take_knows g D E m seen T_next_pointer d e n v a \<longleftrightarrow>
     fst d = Some a \<and> a \<in> elements m \<and> snd d \<in> old_d g \<and> ahead D E d e \<and> snd e \<in> old_e g"
| "take_knows g D E m seen T_next_counter d e n v a \<longleftrightarrow>
     fst d = Some a \<and> a \<in> elements m \<and> snd d \<in> old_d g \<and> ahead D E d e \<and> snd e \<in> old_e g \<and>
     took_link D E m seen d e n a"
| "take_knows g D E m seen T_check_pointer d e n v a \<longleftrightarrow>
     fst d = Some a \<and> a \<in> elements m \<and> snd d \<in> old_d g \<and> ahead D E d e \<and> snd e \<in> old_e g \<and>
     took_link D E m seen d e n a"
| "take_knows g D E m seen T_check_counter d e n v a \<longleftrightarrow>
     fst d = Some a \<and> a \<in> elements m \<and> snd d \<in> old_d g \<and> ahead D E d e \<and> snd e \<in> old_e g \<and>
     took_link D E m seen d e n a \<and> (snd D = snd d \<longrightarrow> D = d)"
| "take_knows g D E m seen T_help d e n v a \<longleftrightarrow>
     fst e = Some a \<and> snd e \<in> old_e g \<and> snd n = snd e + sizeof_queue_element \<and> fst n \<noteq> NULL \<and>
     (E = e \<longrightarrow> fst (next_qe m a) = fst n)"
| "take_knows g D E m seen T_data d e n v a \<longleftrightarrow>
     fst d = Some a \<and> snd d \<in> old_d g \<and> (\<exists>x \<in> elements m. fst n = Some x) \<and>
     (D = d \<longrightarrow> fst (next_qe m a) = fst n \<and> fst E \<noteq> fst D)"
| "take_knows g D E m seen T_move d e n v a \<longleftrightarrow>
     fst d = Some a \<and> snd d \<in> old_d g \<and> snd n = snd d + sizeof_queue_element \<and>
     (\<exists>x \<in> elements m. fst n = Some x \<and> (D = d \<longrightarrow> fst (next_qe m a) = fst n \<and> fst E \<noteq> fst D \<and> data_qe m x = v))"
| "take_knows g D E m seen T_element d e n v a \<longleftrightarrow> fst d = Some a \<and> a \<in> elements m"

text \<open>The element a thread has prepared and not yet linked.\<close>

fun prepared :: "q_pc \<Rightarrow> ptr" where
  "prepared (Init I_fe fe qe n v) = fst qe"
| "prepared (Init I_data fe qe n v) = fst qe"
| "prepared (Link l qe e n v) = (if l = L_swing then NULL else fst qe)"
| "prepared _ = NULL"

text \<open>\<open>H\<close> are the freelist elements the thread holds, \<open>st\<close> is where it is in the specification.\<close>

fun q_knows :: "q_ghost \<Rightarrow> queue_state \<Rightarrow> mem \<Rightarrow> addr set \<Rightarrow> status \<Rightarrow> q_pc \<Rightarrow> bool" where
  "q_knows g qs m H st Q_idle \<longleftrightarrow> st = Outside_op"
| "q_knows g qs m H st (New_pop pc v) \<longleftrightarrow> st = Adding v \<and> pushing pc = None \<and> pc \<noteq> Outside"
| "q_knows g qs m H st (Init l fe qe n v) \<longleftrightarrow>
     st = Adding v \<and> fe \<in> H \<and> (\<exists>q \<in> elements m. element_of m fe = Some q \<and>
       (l = I_element \<or> fst qe = Some q) \<and> init_knows g m l fe n q)"
| "q_knows g qs m H st (Link l qe e n v) \<longleftrightarrow>
     st = (if l = L_swing then Added else Adding v) \<and> link_knows g (q_enqueue qs) m l qe e n (the (fst e)) \<and>
     (l \<noteq> L_swing \<longrightarrow> (\<exists>q \<in> elements m. \<exists>fe \<in> H. fst qe = Some q \<and> element_of m fe = Some q \<and> numbered g m q \<and>
        fe_qe m q = Some fe \<and> data_qe m q = v))"
| "q_knows g qs m H st (Take l d e n v) \<longleftrightarrow>
     (if l = T_element then st = Took v else \<exists>b. st = Looking b) \<and>
     take_knows g (q_dequeue qs) (q_enqueue qs) m (st = Looking True) l d e n v
       (the (fst (if l = T_help then e else d))) \<and>
     (l = T_element \<longrightarrow> (\<exists>fe \<in> H. element_of m fe = fst d \<and> fe_qe m (the (fst d)) = Some fe))"
| "q_knows g qs m H st (Recycle pc v) \<longleftrightarrow> st = Took v \<and> pushing pc \<noteq> None"

section \<open>The shared state\<close>

definition q_shared :: "nat \<Rightarrow> q_ghost \<Rightarrow> queue_state \<Rightarrow> mem \<Rightarrow> addr set \<Rightarrow> addr list \<Rightarrow> bool" where
  "q_shared B g qs m H free \<longleftrightarrow>
     chain g \<noteq> [] \<and> distinct (chain g) \<and> set (chain g) \<subseteq> elements m \<and>
     chained (next_qe m) (num g) (chain g) \<and>
     q_dequeue qs = (Some (hd (chain g)), tick (d_base g) (d_moves g)) \<and>
     (\<exists>xs a ys. chain g = xs @ a # ys \<and> length ys \<le> 1 \<and> q_enqueue qs = (Some a, tick (e_base g) (e_moves g))) \<and>
     q_aba_counter qs = of_nat (drawn g) \<and> d_moves g \<le> B \<and> e_moves g \<le> B \<and> drawn g \<le> B \<and>
     (\<forall>q k. num g q = Some k \<longrightarrow> k \<le> drawn g \<or> chain g = [q] \<and> k \<le> 2) \<and>
     (\<forall>q \<in> set (chain g). \<exists>fe \<in> H. fe_qe m q = Some fe \<and> element_of m fe = Some q) \<and>
     (\<forall>fe \<in> dom (fe_cells m). \<exists>q \<in> elements m. element_of m fe = Some q) \<and>
     (\<forall>fe fe' q. element_of m fe = Some q \<and> element_of m fe' = Some q \<longrightarrow> fe = fe') \<and>
     (\<forall>fe \<in> set free. \<forall>q. element_of m fe = Some q \<longrightarrow> idle_link g m q)"

text \<open>A thread with what it holds: nothing of the chain, and no prepared element but one.\<close>

definition q_thread :: "q_ghost \<Rightarrow> queue_state \<Rightarrow> mem \<Rightarrow> addr set \<Rightarrow> status \<Rightarrow> q_pc \<Rightarrow> bool" where
  "q_thread g qs m H st pc \<longleftrightarrow>
     q_knows g qs m H st pc \<and>
     (\<forall>fe \<in> H. \<forall>q. element_of m fe = Some q \<longrightarrow> q \<notin> set (chain g) \<and> (prepared pc \<noteq> Some q \<longrightarrow> idle_link g m q))"

text \<open>A step of another thread, as a thread holding \<open>H\<close> sees it.\<close>

definition undisturbed ::
  "q_ghost \<Rightarrow> queue_state \<Rightarrow> mem \<Rightarrow> q_ghost \<Rightarrow> queue_state \<Rightarrow> mem \<Rightarrow> addr set \<Rightarrow> bool" where
  "undisturbed g qs m g' qs' m' H \<longleftrightarrow>
     elements m \<subseteq> elements m' \<and> element_of m' = element_of m \<and>
     old_e g \<subseteq> old_e g' \<and> old_d g \<subseteq> old_d g' \<and> drawn g \<le> drawn g' \<and>
     (q_enqueue qs' = q_enqueue qs \<or>
        snd (q_enqueue qs') \<notin> old_e g \<and> fst (next_qe m (the (fst (q_enqueue qs)))) \<noteq> NULL) \<and>
     (q_dequeue qs' = q_dequeue qs \<or> snd (q_dequeue qs') \<notin> old_d g) \<and>
     (\<forall>a. fst (q_enqueue qs) = Some a \<and> q_enqueue qs' = q_enqueue qs \<longrightarrow>
        num g' a = num g a \<and>
        (next_qe m' a = next_qe m a \<or> fst (next_qe m a) = NULL \<and> fst (next_qe m' a) \<noteq> NULL)) \<and>
     (\<forall>a. fst (q_dequeue qs) = Some a \<and> q_dequeue qs' = q_dequeue qs \<longrightarrow>
        (\<forall>x. fst (next_qe m a) = Some x \<longrightarrow> fst (next_qe m' a) = Some x \<and> data_qe m' x = data_qe m x) \<and>
        (fst (q_enqueue qs) \<noteq> Some a \<longrightarrow> fst (q_enqueue qs') \<noteq> Some a)) \<and>
     (\<forall>a j k. num g a = Some j \<and> k \<le> j \<and> next_qe m' a = (NULL, of_nat k) \<longrightarrow> next_qe m a = (NULL, of_nat k)) \<and>
     (\<forall>a j. num g a = Some j \<longrightarrow> (\<exists>j'\<ge>j. num g' a = Some j')) \<and>
     (\<forall>fe \<in> H. \<forall>q. element_of m fe = Some q \<longrightarrow>
        qe_cells m' q = qe_cells m q \<and> num g' q = num g q \<and> (q \<notin> set (chain g) \<longrightarrow> q \<notin> set (chain g')))"

lemma undisturbedD:
  assumes "undisturbed g qs m g' qs' m' H"
  shows "a \<in> elements m \<Longrightarrow> a \<in> elements m'" "element_of m' = element_of m"
    "c \<in> old_e g \<Longrightarrow> c \<in> old_e g'" "c \<in> old_d g \<Longrightarrow> c \<in> old_d g'" "drawn g \<le> drawn g'"
    "q_enqueue qs' = q_enqueue qs \<or>
      snd (q_enqueue qs') \<notin> old_e g \<and> fst (next_qe m (the (fst (q_enqueue qs)))) \<noteq> NULL"
    "q_dequeue qs' = q_dequeue qs \<or> snd (q_dequeue qs') \<notin> old_d g"
    "q_enqueue qs' = q_enqueue qs \<Longrightarrow> fst (q_enqueue qs) = Some a \<Longrightarrow> num g' a = num g a \<and>
      (next_qe m' a = next_qe m a \<or> fst (next_qe m a) = NULL \<and> fst (next_qe m' a) \<noteq> NULL)"
    "q_dequeue qs' = q_dequeue qs \<Longrightarrow> fst (q_dequeue qs) = Some a \<Longrightarrow> fst (next_qe m a) = Some x \<Longrightarrow>
      fst (next_qe m' a) = Some x \<and> data_qe m' x = data_qe m x"
    "q_dequeue qs' = q_dequeue qs \<Longrightarrow> fst (q_dequeue qs) = Some a \<Longrightarrow> fst (q_enqueue qs) \<noteq> Some a \<Longrightarrow>
      fst (q_enqueue qs') \<noteq> Some a"
    "num g a = Some j \<Longrightarrow> k \<le> j \<Longrightarrow> next_qe m' a = (NULL, of_nat k) \<Longrightarrow> next_qe m a = (NULL, of_nat k)"
    "num g a = Some j \<Longrightarrow> \<exists>j'\<ge>j. num g' a = Some j'"
    "fe \<in> H \<Longrightarrow> element_of m fe = Some q \<Longrightarrow> qe_cells m' q = qe_cells m q \<and> num g' q = num g q"
    "fe \<in> H \<Longrightarrow> element_of m fe = Some q \<Longrightarrow> q \<notin> set (chain g) \<Longrightarrow> q \<notin> set (chain g')"
  using assms unfolding undisturbed_def by blast+

lemma same_cell:
  "qe_cells m' q = qe_cells m q \<Longrightarrow> next_qe m' q = next_qe m q \<and> data_qe m' q = data_qe m q \<and> fe_qe m' q = fe_qe m q"
  by (simp add: next_qe_def data_qe_def fe_qe_def)

lemma init_knows_undisturbed:
  assumes "init_knows g m l fe n q" "qe_cells m' q = qe_cells m q" "num g' q = num g q" "drawn g \<le> drawn g'"
  shows "init_knows g' m' l fe n q"
  using assms same_cell [OF assms(2)] by (cases l) (auto simp: numbered_def)

text \<open>An end that is found as it was read has not moved.\<close>

lemma unmoved_e:
  assumes "undisturbed g qs m g' qs' m' H" "snd e \<in> old_e g" "snd (q_enqueue qs') = snd e"
  shows "q_enqueue qs' = q_enqueue qs"
  using undisturbedD(6) [OF assms(1)] assms(2,3) by auto

lemma unmoved_d:
  assumes "undisturbed g qs m g' qs' m' H" "snd d \<in> old_d g" "snd (q_dequeue qs') = snd d"
  shows "q_dequeue qs' = q_dequeue qs"
  using undisturbedD(7) [OF assms(1)] assms(2,3) by auto

lemma good_link_copy_undisturbed:
  assumes u: "undisturbed g qs m g' qs' m' H" and e: "q_enqueue qs' = q_enqueue qs" "fst (q_enqueue qs) = Some a"
    and "good_link_copy g m a n"
  shows "good_link_copy g' m' a n"
  using undisturbedD(8) [OF u e] assms(4) by (auto simp: good_link_copy_def split: if_splits)

lemma successor_undisturbed:
  assumes u: "undisturbed g qs m g' qs' m' H" and e: "fst e = Some a" "snd e \<in> old_e g" "fst n \<noteq> NULL"
    and "q_enqueue qs = e \<longrightarrow> fst (next_qe m a) = fst n"
  shows "q_enqueue qs' = e \<longrightarrow> fst (next_qe m' a) = fst n"
proof
  assume "q_enqueue qs' = e"
  moreover from this have "q_enqueue qs' = q_enqueue qs" using unmoved_e [OF u e(2)] by simp
  ultimately show "fst (next_qe m' a) = fst n" using undisturbedD(8) [OF u, of a] assms(5) e(1,3) by auto
qed

lemma link_knows_undisturbed:
  assumes k: "link_knows g (q_enqueue qs) m l qe e n a" and u: "undisturbed g qs m g' qs' m' H"
    and half: "l = L_next_counter \<Longrightarrow> fst (next_qe m' a) = fst (next_qe m a)"
  shows "link_knows g' (q_enqueue qs') m' l qe e n a"
proof (cases l)
  case L_link
  with k obtain j i where kj: "snd n = of_nat i" "num g a = Some j" "i \<le> j" by auto
  have "q_enqueue qs' = e" if "next_qe m' a = n"
  proof -
    have "next_qe m a = n" using that undisturbedD(11) [OF u kj(2,3)] k kj L_link by (cases n) auto
    then show ?thesis using k L_link undisturbedD(6) [OF u] by auto
  qed
  then show ?thesis using k L_link kj undisturbedD(1,3) [OF u] undisturbedD(12) [OF u kj(2)] by fastforce
next
  case L_check_pointer
  then show ?thesis
    using k undisturbedD(1,3) [OF u] unmoved_e [OF u] good_link_copy_undisturbed [OF u, of a n] by fastforce
next
  case L_check_counter
  then show ?thesis
    using k undisturbedD(1,3) [OF u] unmoved_e [OF u] good_link_copy_undisturbed [OF u, of a n] by fastforce
next
  case L_help
  then show ?thesis using k undisturbedD(3) [OF u] successor_undisturbed [OF u, of e a n] by auto
next
  case L_swing
  then show ?thesis using k undisturbedD(3) [OF u] successor_undisturbed [OF u, of e a qe] by auto
qed (use k half undisturbedD(1,3) [OF u] in auto)

lemma ahead_undisturbed:
  assumes u: "undisturbed g qs m g' qs' m' H" and "snd d \<in> old_d g"
    and "ahead (q_dequeue qs) (q_enqueue qs) d e" and "fst d = Some a"
  shows "ahead (q_dequeue qs') (q_enqueue qs') d e"
  unfolding ahead_def
proof
  assume a: "q_dequeue qs' = d \<and> fst e \<noteq> fst d"
  then have d: "q_dequeue qs' = q_dequeue qs" using unmoved_d [OF u assms(2)] by simp
  then show "fst (q_enqueue qs') \<noteq> fst (q_dequeue qs')"
    using a assms(3) assms(4) undisturbedD(10) [OF u d, of a] by (auto simp: ahead_def)
qed

lemma took_link_undisturbed:
  assumes u: "undisturbed g qs m g' qs' m' H" and "snd d \<in> old_d g" "snd e \<in> old_e g" "fst d = Some a"
    and took: "took_link (q_dequeue qs) (q_enqueue qs) m seen d e n a"
  shows "took_link (q_dequeue qs') (q_enqueue qs') m' seen d e n a"
proof -
  have "q_dequeue qs' = q_dequeue qs" if "q_dequeue qs' = d" using that unmoved_d [OF u assms(2)] by simp
  then have D: "fst (next_qe m' a) = fst n" if "q_dequeue qs' = d" "fst n \<noteq> NULL"
    using that took assms(4) undisturbedD(9) [OF u, of a] by (auto simp: took_link_def)
  have E: "fst (next_qe m' a) = fst n" if "q_enqueue qs' = e" "fst e = fst d" "fst n \<noteq> NULL"
    using that took assms(4) successor_undisturbed [OF u, of e a n] assms(3) by (auto simp: took_link_def)
  have "fst e = fst d \<and> seen" if "q_dequeue qs' = d" "fst n = NULL"
    using that took unmoved_d [OF u assms(2)] by (auto simp: took_link_def)
  with D E show ?thesis by (auto simp: took_link_def)
qed

lemma front_undisturbed:
  assumes u: "undisturbed g qs m g' qs' m' H" and "snd d \<in> old_d g" "fst d = Some a" "q_dequeue qs' = d"
    and "q_dequeue qs = d \<longrightarrow> fst (next_qe m a) = Some x \<and> fst (q_enqueue qs) \<noteq> fst (q_dequeue qs)"
  shows "fst (next_qe m' a) = Some x \<and> fst (q_enqueue qs') \<noteq> fst (q_dequeue qs') \<and> data_qe m' x = data_qe m x \<and>
    q_dequeue qs = d"
proof -
  have D: "q_dequeue qs' = q_dequeue qs" using assms(4) unmoved_d [OF u assms(2)] by simp
  then show ?thesis
    using assms(3-5) undisturbedD(9) [OF u D, of a x] undisturbedD(10) [OF u D, of a] by auto
qed

lemma take_knows_undisturbed:
  assumes k: "take_knows g (q_dequeue qs) (q_enqueue qs) m seen l d e n v a"
    and u: "undisturbed g qs m g' qs' m' H"
  shows "take_knows g' (q_dequeue qs') (q_enqueue qs') m' seen l d e n v a"
proof -
  note old = undisturbedD(1,3,4) [OF u]
  note ahead' = ahead_undisturbed [OF u, of d e a] and took' = took_link_undisturbed [OF u, of d e a seen n]
  show ?thesis
  proof (cases l)
    case T_check_counter
    then show ?thesis using k old ahead' took' unmoved_d [OF u, of d] by auto
  next
    case T_help
    then show ?thesis using k old successor_undisturbed [OF u, of e a n] by auto
  next
    case T_data
    then show ?thesis using k old front_undisturbed [OF u, of d a] by fastforce
  next
    case T_move
    from k [unfolded T_move] obtain x where x: "x \<in> elements m" "fst n = Some x"
      "q_dequeue qs = d \<longrightarrow> fst (next_qe m a) = fst n \<and> fst (q_enqueue qs) \<noteq> fst (q_dequeue qs) \<and> data_qe m x = v"
      unfolding take_knows.simps by blast
    then show ?thesis using T_move k old front_undisturbed [OF u, of d a x] by auto
  qed (use k old ahead' took' in auto)
qed

text \<open>The specification only ever tells a waiting dequeue that the queue has been empty.\<close>

definition status_after :: "status \<Rightarrow> status \<Rightarrow> bool" where
  "status_after st st' \<longleftrightarrow> st' = st \<or> st' = look_again st"

lemma take_knows_seen:
  "take_knows g D E m seen l d e n v a \<Longrightarrow> (seen \<longrightarrow> seen') \<Longrightarrow> take_knows g D E m seen' l d e n v a"
  by (cases l) (auto simp: took_link_def)

lemma q_knows_undisturbed:
  assumes k: "q_knows g qs m H st pc" and u: "undisturbed g qs m g' qs' m' H" and st: "status_after st st'"
    and half: "half_read pc \<noteq> NULL \<Longrightarrow> next_qe m' (the (half_read pc)) = next_qe m (the (half_read pc))"
  shows "q_knows g' qs' m' H st' pc"
proof (cases pc)
  case (Init l fe qe n v)
  then show ?thesis
    using k st undisturbedD(1,2,5,13) [OF u] init_knows_undisturbed [where g = g and g' = g' and m = m and m' = m']
    by (fastforce simp: status_after_def)
next
  case (Link l qe e n v)
  have "link_knows g' (q_enqueue qs') m' l qe e n (the (fst e))"
  proof (rule link_knows_undisturbed [OF _ u])
    show "link_knows g (q_enqueue qs) m l qe e n (the (fst e))" using k Link by simp
    show "fst (next_qe m' (the (fst e))) = fst (next_qe m (the (fst e)))" if "l = L_next_counter"
      using that k Link half by (cases "fst e") auto
  qed
  moreover have "\<exists>q \<in> elements m'. \<exists>fe \<in> H. fst qe = Some q \<and> element_of m' fe = Some q \<and> numbered g' m' q \<and>
      fe_qe m' q = Some fe \<and> data_qe m' q = v" if ns: "l \<noteq> L_swing"
  proof -
    obtain q fe where q: "q \<in> elements m" "fe \<in> H" "fst qe = Some q" "element_of m fe = Some q" "numbered g m q"
      "fe_qe m q = Some fe" "data_qe m q = v"
      using k Link ns by auto
    moreover have "qe_cells m' q = qe_cells m q" "num g' q = num g q" using undisturbedD(13) [OF u q(2,4)] by auto
    ultimately show ?thesis
      using undisturbedD(1,2) [OF u] same_cell [of m' q m] by (auto simp: numbered_def intro!: bexI [of _ q] bexI [of _ fe])
  qed
  ultimately show ?thesis using k st Link by (auto simp: status_after_def)
next
  case (Take l d e n v)
  let ?a = "the (fst (if l = T_help then e else d))"
  have "take_knows g (q_dequeue qs) (q_enqueue qs) m (st = Looking True) l d e n v ?a" using k Take by simp
  from take_knows_undisturbed [OF this u]
  have "take_knows g' (q_dequeue qs') (q_enqueue qs') m' (st' = Looking True) l d e n v ?a"
    by (rule take_knows_seen) (use st in \<open>auto simp: status_after_def\<close>)
  moreover have "if l = T_element then st' = Took v else \<exists>b. st' = Looking b"
    using k Take st by (auto simp: status_after_def split: if_splits)
  moreover have "\<exists>fe \<in> H. element_of m' fe = fst d \<and> fe_qe m' (the (fst d)) = Some fe" if te: "l = T_element"
  proof -
    obtain fe where fe: "fe \<in> H" "element_of m fe = fst d" "fe_qe m (the (fst d)) = Some fe"
      and "fst d = Some (the (fst d))"
      using k Take te by auto
    then have "qe_cells m' (the (fst d)) = qe_cells m (the (fst d))"
      using undisturbedD(13) [OF u fe(1), of "the (fst d)"] by simp
    from same_cell [OF this] have "fe_qe m' (the (fst d)) = Some fe" using fe(3) by simp
    with fe(1,2) undisturbedD(2) [OF u] show ?thesis by (intro bexI [of _ fe]) simp_all
  qed
  ultimately show ?thesis using Take by simp
qed (use k st in \<open>auto simp: status_after_def\<close>)

lemma q_thread_undisturbed:
  assumes k: "q_thread g qs m H st pc" and u: "undisturbed g qs m g' qs' m' H" and st: "status_after st st'"
    and half: "half_read pc \<noteq> NULL \<Longrightarrow> next_qe m' (the (half_read pc)) = next_qe m (the (half_read pc))"
  shows "q_thread g' qs' m' H st' pc"
  using q_knows_undisturbed [OF _ u st half] k undisturbedD(2,13,14) [OF u] same_cell [of m' _ m]
  unfolding q_thread_def idle_link_def by (metis (no_types, lifting))

end
