(* ===== verification/Queue_Linear.thy ===== *)
theory Queue_Linear
  imports Queue_Inv
begin

text \<open>
  Every step of every thread keeps the invariant of \<open>Queue_Inv\<close> and does in the specification
  what its event says.
\<close>

section \<open>The invariant of the system\<close>

text \<open>
  The freelist of the queue, as the system of \<open>Freelist_Threads\<close>: the threads, and the queue
  itself (\<open>None\<close>), which holds the elements of its chain and never acts.
\<close>

fun fl_pc_of :: "q_pc \<Rightarrow> fl_pc" where
  "fl_pc_of (New_pop pc v) = pc"
| "fl_pc_of (Recycle pc v) = pc"
| "fl_pc_of _ = Outside"

definition fl_view :: "queue_state \<Rightarrow> mem \<Rightarrow> ('t \<Rightarrow> q_pc) \<Rightarrow> ('t option \<Rightarrow> addr set) \<Rightarrow> nat \<Rightarrow> 't option fl_sys" where
  "fl_view qs m pcs H n = \<lparr>fl_fs = q_fs qs, fl_mem = m,
     fl_pcs = (\<lambda>t. case t of None \<Rightarrow> Outside | Some t \<Rightarrow> fl_pc_of (pcs t)), fl_held = H, increments = n\<rparr>"

record 't q_all =
  gh :: q_ghost
  spare :: "addr list"
  tags :: "addr \<Rightarrow> u64"
  incs :: nat
  hold :: "'t option \<Rightarrow> addr set"

definition q_inv :: "nat \<Rightarrow> 't q_all \<Rightarrow> ptr list \<times> ('t \<Rightarrow> status) \<Rightarrow> 't q_sys \<Rightarrow> bool" where
  "q_inv B a sp s \<longleftrightarrow>
     fl_inv (spare a) (tags a) (fl_view (sys_qs s) (sys_mem s) (sys_pcs s) (hold a) (incs a)) \<and> incs a \<le> B \<and>
     q_shared B (gh a) (sys_qs s) (sys_mem s) (hold a None) (spare a) \<and>
     (\<forall>t. q_thread (gh a) (sys_qs s) (sys_mem s) (hold a (Some t)) (snd sp t) (sys_pcs s t)) \<and>
     fst sp = map (data_qe (sys_mem s)) (tl (chain (gh a))) \<and>
     (fst sp = [] \<longrightarrow> (\<forall>t b. snd sp t = Looking b \<longrightarrow> b))"

text \<open>A step that keeps it.\<close>

lemma q_inv_step:
  assumes inv: "q_inv B a sp s"
    and s': "s' = \<lparr>sys_qs = qs', sys_mem = m', sys_pcs = (sys_pcs s)(t := pc')\<rparr>"
    and fl: "fl_inv (spare a') (tags a') (fl_view qs' m' ((sys_pcs s)(t := pc')) (hold a') (incs a'))" "incs a' \<le> Suc B"
    and sh: "q_shared (Suc B) (gh a') qs' m' (hold a' None) (spare a')"
    and me: "q_thread (gh a') qs' m' (hold a' (Some t)) (snd sp' t) pc'"
    and others: "\<And>u. u \<noteq> t \<Longrightarrow> hold a' (Some u) = hold a (Some u)"
      "\<And>u. u \<noteq> t \<Longrightarrow> undisturbed (gh a) (sys_qs s) (sys_mem s) (gh a') qs' m' (hold a (Some u))"
      "\<And>u. u \<noteq> t \<Longrightarrow> status_after (snd sp u) (snd sp' u)"
      "\<And>u. u \<noteq> t \<Longrightarrow> half_read (sys_pcs s u) \<noteq> NULL \<Longrightarrow>
        next_qe m' (the (half_read (sys_pcs s u))) = next_qe (sys_mem s) (the (half_read (sys_pcs s u)))"
    and sp: "fst sp' = map (data_qe m') (tl (chain (gh a')))" "\<And>t b. fst sp' = [] \<Longrightarrow> snd sp' t = Looking b \<Longrightarrow> b"
  shows "q_inv (Suc B) a' sp' s'"
proof -
  have "q_thread (gh a') qs' m' (hold a' (Some u)) (snd sp' u) (sys_pcs s u)" if "u \<noteq> t" for u
  proof -
    have "q_thread (gh a) (sys_qs s) (sys_mem s) (hold a (Some u)) (snd sp u) (sys_pcs s u)"
      using inv by (simp add: q_inv_def)
    from q_thread_undisturbed [OF this others(2,3) [OF that] others(4) [OF that]]
    show ?thesis using others(1) [OF that] by simp
  qed
  then show ?thesis using s' fl sh me sp by (auto simp: q_inv_def)
qed

section \<open>The two ends\<close>

lemma q_sharedD:
  assumes "q_shared B g qs m H as"
  shows "chain g \<noteq> []" "distinct (chain g)" "set (chain g) \<subseteq> elements m" "chained (next_qe m) (num g) (chain g)"
    "q_dequeue qs = (Some (hd (chain g)), tick (d_base g) (d_moves g))"
    "q_aba_counter qs = of_nat (drawn g)" "d_moves g \<le> B" "e_moves g \<le> B" "drawn g \<le> B"
    "num g q = Some k \<Longrightarrow> k \<le> drawn g \<or> chain g = [q] \<and> k \<le> 2"
    "q \<in> set (chain g) \<Longrightarrow> \<exists>fe \<in> H. fe_qe m q = Some fe \<and> element_of m fe = Some q"
    "fe \<in> dom (fe_cells m) \<Longrightarrow> \<exists>q \<in> elements m. element_of m fe = Some q"
    "element_of m fe = Some q \<Longrightarrow> element_of m fe' = Some q \<Longrightarrow> fe = fe'"
    "fe \<in> set as \<Longrightarrow> element_of m fe = Some q \<Longrightarrow> idle_link g m q"
  using assms unfolding q_shared_def by blast+

text \<open>The tail is the last element or the one before it.\<close>

lemma tail_cases:
  assumes "q_shared B g qs m H as"
  obtains (last) xs a k where "chain g = xs @ [a]" "q_enqueue qs = (Some a, tick (e_base g) (e_moves g))"
      "num g a = Some k" "next_qe m a = (NULL, of_nat k)"
  | (lag) xs a b k where "chain g = xs @ [a, b]" "q_enqueue qs = (Some a, tick (e_base g) (e_moves g))"
      "num g a = Some k" "next_qe m a = (Some b, of_nat k + sizeof_queue_element)"
proof -
  obtain xs a ys where ys: "chain g = xs @ a # ys" "length ys \<le> 1"
    "q_enqueue qs = (Some a, tick (e_base g) (e_moves g))"
    using assms unfolding q_shared_def by blast
  note ch = q_sharedD(4) [OF assms]
  show thesis
  proof (cases ys)
    case Nil
    then show ?thesis using ys chained_last [of "next_qe m" "num g" xs a] ch last by auto
  next
    case (Cons b zs)
    then have "zs = []" using ys(2) by simp
    then show ?thesis using Cons ys chained_mid [of "next_qe m" "num g" xs a b "[]"] ch lag by auto
  qed
qed

lemma tail_element:
  assumes "q_shared B g qs m H as"
  shows "\<exists>a \<in> elements m. fst (q_enqueue qs) = Some a" "snd (q_enqueue qs) \<in> old_e g"
  using q_sharedD(3) [OF assms] by (cases rule: tail_cases [OF assms]; auto simp: old_e_def)+

lemma head_element:
  assumes "q_shared B g qs m H as"
  shows "\<exists>a \<in> elements m. fst (q_dequeue qs) = Some a" "snd (q_dequeue qs) \<in> old_d g"
  using q_sharedD(1,3,5) [OF assms] by (cases "chain g"; auto simp: old_d_def)+

lemma head_next:
  assumes "q_shared B g qs m H as" "fst (q_dequeue qs) = Some a"
  shows "fst (next_qe m a) = NULL \<Longrightarrow> chain g = [a] \<and> fst (q_enqueue qs) = Some a"
    "fst (next_qe m a) = Some x \<Longrightarrow> \<exists>xs. chain g = a # x # xs"
proof -
  have a: "a = hd (chain g)" using q_sharedD(5) [OF assms(1)] assms(2) by simp
  obtain ys where ys: "chain g = a # ys" using a q_sharedD(1) [OF assms(1)] by (cases "chain g") auto
  note ch = q_sharedD(4) [OF assms(1)]
  show "chain g = [a] \<and> fst (q_enqueue qs) = Some a" if "fst (next_qe m a) = NULL"
  proof -
    have "chain g = [a]" using ch ys that by (cases ys) auto
    then show ?thesis by (cases rule: tail_cases [OF assms(1)]) auto
  qed
  show "\<exists>xs. chain g = a # x # xs" if "fst (next_qe m a) = Some x"
    using ch ys that by (cases ys) auto
qed

lemma tail_copy:
  assumes "q_shared B g qs m H as" "q_enqueue qs = e" "fst e = Some a"
  shows "good_link_copy g m a (next_qe m a)"
  using assms(2,3) by (cases rule: tail_cases [OF assms(1)]) (auto simp: good_link_copy_def)

section \<open>Steps on local variables\<close>

text \<open>Nothing another thread knows changes when the chain and the ends do not.\<close>

lemma undisturbed_quiet:
  assumes "qe_cells m' = qe_cells m" "element_of m' = element_of m"
    "q_enqueue qs' = q_enqueue qs" "q_dequeue qs' = q_dequeue qs" "g' = g\<lparr>drawn := k\<rparr>" "drawn g \<le> k"
  shows "undisturbed g qs m g' qs' m' H"
  using assms by (auto simp: undisturbed_def next_qe_def data_qe_def old_d_def old_e_def)

lemma q_shared_quiet:
  assumes "q_shared B g qs m H as" "qe_cells m' = qe_cells m" "element_of m' = element_of m"
    "dom (fe_cells m') = dom (fe_cells m)" "q_enqueue qs' = q_enqueue qs" "q_dequeue qs' = q_dequeue qs"
    "g' = g\<lparr>drawn := k\<rparr>" "drawn g \<le> k" "k \<le> B'" "B \<le> B'" "q_aba_counter qs' = of_nat k"
    "\<And>fe q. fe \<in> set as' \<Longrightarrow> element_of m fe = Some q \<Longrightarrow> idle_link g m q"
  shows "q_shared B' g' qs' m' H as'"
  using assms(1) assms(2-12) unfolding q_shared_def idle_link_def next_qe_def fe_qe_def
  by simp (meson le_trans)

lemma fl_view_local:
  "fl_pc_of pc' = fl_pc_of (pcs t) \<Longrightarrow> fl_view qs m (pcs(t := pc')) H n = fl_view qs m pcs H n"
  by (auto simp: fl_view_def fun_eq_iff split: option.splits)

lemma q_inv_local:
  assumes inv: "q_inv B a (vs, st) s"
    and k: "q_knows (gh a) (sys_qs s) (sys_mem s) (hold a (Some t)) st' pc'"
    and pc': "prepared pc' = prepared (sys_pcs s t)" "fl_pc_of pc' = fl_pc_of (sys_pcs s t)"
    and st': "vs = [] \<Longrightarrow> \<forall>b. st' = Looking b \<longrightarrow> b"
  shows "q_inv (Suc B) a (vs, st(t := st')) (s\<lparr>sys_pcs := (sys_pcs s)(t := pc')\<rparr>)"
proof (rule q_inv_step [OF inv, of _ "sys_qs s" "sys_mem s" t pc'])
  show "q_shared (Suc B) (gh a) (sys_qs s) (sys_mem s) (hold a None) (spare a)"
    by (rule q_shared_quiet [where B = B and g = "gh a" and k = "drawn (gh a)" and as = "spare a"])
      (use inv in \<open>auto simp: q_inv_def dest: q_sharedD(6,9,14)\<close>)
  show "undisturbed (gh a) (sys_qs s) (sys_mem s) (gh a) (sys_qs s) (sys_mem s) (hold a (Some u))" for u
    by (rule undisturbed_quiet [where k = "drawn (gh a)"]) simp_all
  show "b" if "fst (vs, st(t := st')) = []" "snd (vs, st(t := st')) u = Looking b" for u b
    using inv st' that by (auto simp: q_inv_def split: if_splits)
qed (use inv k pc' in \<open>auto simp: q_inv_def fl_view_local q_thread_def status_after_def\<close>)

text \<open>The reads and tests of an enqueue.\<close>

fun linking :: "q_ghost \<Rightarrow> queue_state \<Rightarrow> mem \<Rightarrow> ptr \<Rightarrow> ptr \<Rightarrow> q_pc \<Rightarrow> bool" where
  "linking g qs m q v (Link l qe e n w) \<longleftrightarrow>
     l \<noteq> L_swing \<and> fst qe = q \<and> w = v \<and> link_knows g (q_enqueue qs) m l qe e n (the (fst e))"
| "linking g qs m q v _ \<longleftrightarrow> False"

fun link_local :: "link_label \<Rightarrow> bool" where
  "link_local L_link = False" | "link_local L_help = False" | "link_local L_swing = False" | "link_local _ = True"

lemma link_read_good:
  assumes sh: "q_shared B g qs m H as" and l: "link_local l" "link_move l qe e n v qs m = Some (pc', ev, qs', m')"
    and k: "link_knows g (q_enqueue qs) m l qe e n (the (fst e))"
  shows "ev = Inner" "qs' = qs" "m' = m"
    "linking g qs m (fst qe) v pc'"
proof -
  show "ev = Inner" "qs' = qs" "m' = m"
    using l by (cases l; auto simp: bind_eq_Some_conv split: if_splits)+
  show "linking g qs m (fst qe) v pc'"
  proof (cases l)
    case L_enqueue_pointer
    then show ?thesis using l tail_element(1) [OF sh] by auto
  next
    case L_enqueue_counter
    then show ?thesis using l k tail_element(2) [OF sh] by auto
  next
    case L_next_pointer
    then show ?thesis using l k by (auto simp: bind_eq_Some_conv next_qe_def)
  next
    case L_next_counter
    have "good_link_copy g m (the (fst e)) (next_qe m (the (fst e)))" if "q_enqueue qs = e"
      using tail_copy [OF sh that, of "the (fst e)"] k L_next_counter by simp
    moreover have "pc' = Link L_check_pointer qe e (next_qe m (the (fst e))) v"
      using l k L_next_counter by (auto simp: bind_eq_Some_conv next_qe_def)
    ultimately show ?thesis using k L_next_counter by auto
  next
    case L_check_pointer
    then show ?thesis using l k by (cases "fst (q_enqueue qs) = fst e") (auto simp: prod_eq_iff)
  next
    case L_check_counter
    then show ?thesis using l k by (auto simp: good_link_copy_def split: if_splits)
  qed (use l in simp_all)
qed

text \<open>The reads and tests of a dequeue.\<close>

fun taking :: "q_ghost \<Rightarrow> queue_state \<Rightarrow> mem \<Rightarrow> bool \<Rightarrow> q_pc \<Rightarrow> bool" where
  "taking g qs m seen (Take l d e n v) \<longleftrightarrow>
     l \<noteq> T_element \<and> take_knows g (q_dequeue qs) (q_enqueue qs) m seen l d e n v (the (fst (if l = T_help then e else d)))"
| "taking g qs m seen _ \<longleftrightarrow> False"

fun take_local :: "take_label \<Rightarrow> bool" where
  "take_local T_help = False" | "take_local T_move = False" | "take_local T_element = False" | "take_local _ = True"

lemma take_read_good:
  assumes sh: "q_shared B g qs m H as" and l: "take_local l" "take_move l d e n v qs m = Some (pc', ev, qs', m')"
    and k: "take_knows g (q_dequeue qs) (q_enqueue qs) m seen l d e n v (the (fst d))"
    and empty: "tl (chain g) = [] \<longrightarrow> seen"
  shows "qs' = qs" "m' = m"
    "ev = Empty \<and> pc' = Q_idle \<and> seen \<or> ev = Inner \<and> taking g qs m seen pc'"
      (is ?goal)
proof -
  show "qs' = qs" "m' = m"
    using l by (cases l; auto simp: bind_eq_Some_conv split: if_splits dequeue_state.splits)+
  show ?goal
  proof (cases l)
    case T_dequeue_pointer
    then show ?thesis using l head_element(1) [OF sh] by auto
  next
    case T_dequeue_counter
    then show ?thesis using l k head_element(2) [OF sh] by auto
  next
    case T_enqueue_pointer
    then show ?thesis using l k by (auto simp: ahead_def)
  next
    case T_enqueue_counter
    then show ?thesis using l k tail_element(2) [OF sh] by (auto simp: ahead_def)
  next
    case T_next_pointer
    have "fst e = fst d \<and> seen" if "q_dequeue qs = d" "fst (next_qe m (the (fst d))) = NULL"
      using head_next(1) [OF sh, of "the (fst d)"] that k T_next_pointer empty by (auto simp: ahead_def)
    then show ?thesis using l k T_next_pointer by (auto simp: bind_eq_Some_conv next_qe_def took_link_def ahead_def)
  next
    case T_next_counter
    then show ?thesis using l k by (auto simp: bind_eq_Some_conv took_link_def ahead_def)
  next
    case T_check_pointer
    then show ?thesis using l k by (cases "fst d = fst (q_dequeue qs)") (auto simp: prod_eq_iff)
  next
    case T_check_counter
    have "x \<in> elements m" if "q_dequeue qs = d" "fst (next_qe m (the (fst d))) = Some x" for x
    proof -
      have "fst (q_dequeue qs) = Some (the (fst d))" using that k T_check_counter by auto
      from head_next(2) [OF sh this that(2)] show ?thesis using q_sharedD(3) [OF sh] by auto
    qed
    then show ?thesis using l k T_check_counter
      by (auto simp: classify_def took_link_def ahead_def split: if_splits)
  next
    case T_data
    then show ?thesis using l k by (auto simp: bind_eq_Some_conv data_qe_def)
  qed (use l in simp_all)
qed

section \<open>Preparing an element\<close>

text \<open>A write to an element that only this thread holds.\<close>

lemma private_undisturbed:
  assumes sh: "q_shared B g qs m H as" and q: "q \<notin> set (chain g)"
    and m': "m' = m\<lparr>qe_cells := (qe_cells m)(q \<mapsto> c)\<rparr>"
    and qs': "q_enqueue qs' = q_enqueue qs" "q_dequeue qs' = q_dequeue qs"
    and g': "g' = g\<lparr>num := (num g)(q := nq)\<rparr>"
    and nq: "\<And>j. num g q = Some j \<Longrightarrow> \<exists>j'\<ge>j. nq = Some j'"
    and lk: "\<And>j k. num g q = Some j \<Longrightarrow> k \<le> j \<Longrightarrow> qe_next c = (NULL, of_nat k) \<Longrightarrow> next_qe m q = (NULL, of_nat k)"
    and G: "\<And>fe. fe \<in> G \<Longrightarrow> element_of m fe \<noteq> Some q"
  shows "undisturbed g qs m g' qs' m' G"
proof -
  have same: "next_qe m' a = next_qe m a" "data_qe m' a = data_qe m a" if "a \<noteq> q" for a
    using that m' by (simp_all add: next_qe_def data_qe_def)
  have new: "next_qe m' q = qe_next c" using m' by (simp add: next_qe_def)
  have E: "fst (q_enqueue qs) \<noteq> Some q" using q by (cases rule: tail_cases [OF sh]) auto
  have D: "fst (q_dequeue qs) \<noteq> Some q" using q q_sharedD(1,5) [OF sh] by auto
  have X: "x \<noteq> q" if "fst (q_dequeue qs) = Some a" "fst (next_qe m a) = Some x" for a x
    using head_next(2) [OF sh that] q by auto
  show ?thesis
    unfolding undisturbed_def
  proof (intro conjI allI impI ballI)
    show "next_qe m a = (NULL, of_nat k)"
      if "num g a = Some j \<and> k \<le> j \<and> next_qe m' a = (NULL, of_nat k)" for a j k
      using that same(1) [of a] lk new by (cases "a = q") auto
    show "\<exists>j'\<ge>j. num g' a = Some j'" if "num g a = Some j" for a j
      using that nq g' by auto
  qed (use m' qs' g' E D X same G in \<open>auto simp: old_d_def old_e_def element_of_def fun_eq_iff\<close>)
qed

lemma private_shared:
  assumes sh: "q_shared B g qs m H as" and q: "q \<notin> set (chain g)" "q \<in> elements m"
    and m': "m' = m\<lparr>qe_cells := (qe_cells m)(q \<mapsto> c)\<rparr>"
    and qs': "q_enqueue qs' = q_enqueue qs" "q_dequeue qs' = q_dequeue qs" "q_aba_counter qs' = q_aba_counter qs"
    and g': "g' = g\<lparr>num := (num g)(q := nq)\<rparr>" and nq: "\<And>j. nq = Some j \<Longrightarrow> j \<le> drawn g"
    and as: "\<And>fe. fe \<in> set as \<Longrightarrow> element_of m fe \<noteq> Some q"
  shows "q_shared (Suc B) g' qs' m' H as"
proof -
  have same: "next_qe m' a = next_qe m a" "fe_qe m' a = fe_qe m a" if "a \<noteq> q" for a
    using that m' by (simp_all add: next_qe_def fe_qe_def)
  have ch: "chained (next_qe m') (num g') (chain g) = chained (next_qe m) (num g) (chain g)"
    by (rule chained_cong) (use q g' same in auto)
  have el: "element_of m' = element_of m" "elements m' = elements m" using m' q(2) by (auto simp: element_of_def fun_eq_iff)
  have in_chain: "a \<noteq> q" if "a \<in> set (chain g)" for a using that q by auto
  have idle: "idle_link g' m' a" if "fe \<in> set as" "element_of m fe = Some a" for fe a
    using that q_sharedD(14) [OF sh that] as [OF that(1)] g' same(1) [of a] by (auto simp: idle_link_def)
  show ?thesis
    using sh ch el in_chain same idle q qs' g' m' nq unfolding q_shared_def by (auto split: if_splits)
qed

text \<open>What the threads hold is theirs alone.\<close>

lemma fl_inv_apart:
  assumes "fl_inv as tag (fl_view qs m pcs H n)"
  shows "x \<noteq> y \<Longrightarrow> H x \<inter> H y = {}" "H x \<inter> set as = {}" "mem_wf m" "H x \<subseteq> dom (fe_cells m)"
proof -
  show "x \<noteq> y \<Longrightarrow> H x \<inter> H y = {}" "H x \<inter> set as = {}"
    using fl_inv_facts(2,3) [OF assms, of x] by (simp_all add: fl_view_def)
  show "mem_wf m" "H x \<subseteq> dom (fe_cells m)"
    using assms by (simp_all add: fl_inv_def shared_ok_def thread_ok_def fl_view_def)
qed

lemma held_alone:
  assumes inv: "q_inv B a sp s" and fe: "fe \<in> hold a (Some t)" "element_of (sys_mem s) fe = Some q"
  shows "q \<notin> set (chain (gh a))" "u \<noteq> Some t \<Longrightarrow> fe' \<in> hold a u \<Longrightarrow> element_of (sys_mem s) fe' \<noteq> Some q"
    "fe' \<in> set (spare a) \<Longrightarrow> element_of (sys_mem s) fe' \<noteq> Some q"
proof -
  have fl: "fl_inv (spare a) (tags a) (fl_view (sys_qs s) (sys_mem s) (sys_pcs s) (hold a) (incs a))"
    and sh: "q_shared B (gh a) (sys_qs s) (sys_mem s) (hold a None) (spare a)"
    and th: "q_thread (gh a) (sys_qs s) (sys_mem s) (hold a (Some t)) (snd sp t) (sys_pcs s t)"
    using inv by (simp_all add: q_inv_def)
  show "q \<notin> set (chain (gh a))" using th fe by (simp add: q_thread_def)
  have eq: "fe' = fe" if "element_of (sys_mem s) fe' = Some q" using q_sharedD(13) [OF sh that fe(2)] .
  show "u \<noteq> Some t \<Longrightarrow> fe' \<in> hold a u \<Longrightarrow> element_of (sys_mem s) fe' \<noteq> Some q"
    using eq fe(1) fl_inv_apart(1) [OF fl, of u "Some t"] by auto
  show "fe' \<in> set (spare a) \<Longrightarrow> element_of (sys_mem s) fe' \<noteq> Some q"
    using eq fe(1) fl_inv_apart(2) [OF fl, of "Some t"] by auto
qed

lemma fl_inv_other_memory:
  assumes "fl_inv as tag (fl_view qs m pcs H n)" "fe_cells m' = fe_cells m" "mem_wf m'" "q_fs qs' = q_fs qs"
    "fl_pc_of pc' = fl_pc_of (pcs t)"
  shows "fl_inv as tag (fl_view qs' m' (pcs(t := pc')) H n)"
  using assms(1) unfolding fl_view_local [of pc' pcs t, OF assms(5)]
  using assms(2-4) by (simp add: fl_inv_def fl_view_def shared_ok_def thread_ok_def)

lemma mem_wf_elements: "mem_wf m \<Longrightarrow> q \<in> elements m \<Longrightarrow> mem_wf (m\<lparr>qe_cells := (qe_cells m)(q \<mapsto> c)\<rparr>)"
  by (auto simp: mem_wf_def)

text \<open>A step writes the links it is said to write.\<close>

lemma set_qe_next_qe:
  "set_qe p f m = Some m' \<Longrightarrow> p \<noteq> Some a \<or> (\<forall>c. qe_next (f c) = qe_next c) \<Longrightarrow> next_qe m' a = next_qe m a"
  by (auto simp: set_qe_def bind_eq_Some_conv next_qe_def split: if_splits)

lemma fl_move_frame:
  assumes "fl_move pc fs m = Some (pc', ev, fs', m')"
  shows "qe_cells m' = qe_cells m" "dom (fe_cells m') = dom (fe_cells m)" "element_of m' = element_of m"
  using assms by (cases pc; auto simp: set_fe_next_def bind_eq_Some_conv element_of_def fun_eq_iff Let_def
      split: prod.splits if_splits)+

lemma q_move_link:
  assumes "q_move pc qs m = Some (pc', ev, qs', m')" "link_written pc \<noteq> Some x"
  shows "next_qe m' x = next_qe m x"
proof (cases pc)
  case (Init l fe qe n v)
  then show ?thesis
    using assms by (cases l) (auto simp: bind_eq_Some_conv Let_def intro: set_qe_next_qe split: prod.splits)
next
  case (Link l qe e n v)
  then show ?thesis
    using assms by (cases l)
      (auto simp: bind_eq_Some_conv Let_def set_qe_next_def next_qe_def abstraction_dcas_def split: if_splits)
next
  case (Take l d e n v)
  then show ?thesis
    using assms by (cases l)
      (auto simp: bind_eq_Some_conv Let_def split: prod.splits if_splits dequeue_state.splits)
next
  case (New_pop fpc v)
  then show ?thesis
    using assms by (auto simp: bind_eq_Some_conv next_qe_def split_beta Let_def dest: fl_move_frame(1))
next
  case (Recycle fpc v)
  then show ?thesis
    using assms by (auto simp: bind_eq_Some_conv next_qe_def split_beta Let_def dest: fl_move_frame(1))
qed (use assms in simp)

text \<open>Who steps, and what the schedule promises.\<close>

definition untorn_step :: "'t q_sys \<Rightarrow> 't \<Rightarrow> bool" where
  "untorn_step s t \<longleftrightarrow>
     (\<forall>u. u \<noteq> t \<longrightarrow> half_read (sys_pcs s u) \<noteq> NULL \<longrightarrow> half_read (sys_pcs s u) \<noteq> link_written (sys_pcs s t))"

lemma untorn_link:
  assumes "untorn_step s t" "q_move (sys_pcs s t) (sys_qs s) (sys_mem s) = Some (pc', ev, qs', m')"
    "u \<noteq> t" "half_read (sys_pcs s u) \<noteq> NULL"
  shows "next_qe m' (the (half_read (sys_pcs s u))) = next_qe (sys_mem s) (the (half_read (sys_pcs s u)))"
  by (rule q_move_link [OF assms(2)]) (use assms(1,3,4) in \<open>auto simp: untorn_step_def\<close>)

lemma q_inv_private:
  assumes inv: "q_inv B a (vs, st) s" and fe: "fe \<in> hold a (Some t)" "element_of (sys_mem s) fe = Some q"
    and q: "q \<in> elements (sys_mem s)"
    and move: "q_move (sys_pcs s t) (sys_qs s) (sys_mem s) = Some (pc', Inner, sys_qs s, m')" "untorn_step s t"
    and m': "m' = (sys_mem s)\<lparr>qe_cells := (qe_cells (sys_mem s))(q \<mapsto> c)\<rparr>"
    and nq: "\<And>j. num (gh a) q = Some j \<Longrightarrow> \<exists>j'\<ge>j. nq = Some j'" "\<And>j. nq = Some j \<Longrightarrow> j \<le> drawn (gh a)"
    and lk: "\<And>j k. num (gh a) q = Some j \<Longrightarrow> k \<le> j \<Longrightarrow> qe_next c = (NULL, of_nat k) \<Longrightarrow>
      next_qe (sys_mem s) q = (NULL, of_nat k)"
    and a': "a' = a\<lparr>gh := (gh a)\<lparr>num := (num (gh a))(q := nq)\<rparr>\<rparr>"
    and k: "q_knows (gh a') (sys_qs s) m' (hold a (Some t)) (st t) pc'"
    and pc: "fl_pc_of pc' = fl_pc_of (sys_pcs s t)" "prepared (sys_pcs s t) = NULL \<or> prepared (sys_pcs s t) = Some q"
      "prepared pc' \<noteq> Some q \<Longrightarrow> idle_link (gh a') m' q"
  shows "q_inv (Suc B) a' (vs, st) (s\<lparr>sys_mem := m', sys_pcs := (sys_pcs s)(t := pc')\<rparr>)"
proof (rule q_inv_step [OF inv, of _ "sys_qs s" m' t pc' a'])
  have fl: "fl_inv (spare a) (tags a) (fl_view (sys_qs s) (sys_mem s) (sys_pcs s) (hold a) (incs a))" "incs a \<le> B"
    and sh: "q_shared B (gh a) (sys_qs s) (sys_mem s) (hold a None) (spare a)"
    and th: "q_thread (gh a) (sys_qs s) (sys_mem s) (hold a (Some t)) (st t) (sys_pcs s t)"
    using inv by (simp_all add: q_inv_def)
  note alone = held_alone [OF inv fe]
  show "fl_inv (spare a') (tags a') (fl_view (sys_qs s) m' ((sys_pcs s)(t := pc')) (hold a') (incs a'))"
    using fl_inv_other_memory [OF fl(1) _ _ _ pc(1), of m' "sys_qs s"] mem_wf_elements [OF fl_inv_apart(3) [OF fl(1)] q] a' m'
    by simp
  show "q_shared (Suc B) (gh a') (sys_qs s) m' (hold a' None) (spare a')"
    using private_shared [OF sh alone(1) q m', of "sys_qs s" _ nq] nq(2) alone(3) a' by simp
  show "undisturbed (gh a) (sys_qs s) (sys_mem s) (gh a') (sys_qs s) m' (hold a (Some u))" if "u \<noteq> t" for u
    using private_undisturbed [OF sh alone(1) m', of "sys_qs s" _ nq] nq(1) lk alone(2) [of "Some u"] that a' by simp
  have "idle_link (gh a') m' x" if "f \<in> hold a (Some t)" "element_of (sys_mem s) f = Some x" "prepared pc' \<noteq> Some x" for f x
  proof (cases "x = q")
    case True
    then show ?thesis using that(3) pc(3) by simp
  next
    case False
    then have "prepared (sys_pcs s t) \<noteq> Some x" using that(3) pc(2) by auto
    then have "idle_link (gh a) (sys_mem s) x" using th that(1,2) by (simp add: q_thread_def)
    then show ?thesis using False a' m' by (simp add: idle_link_def next_qe_def)
  qed
  moreover have "element_of m' = element_of (sys_mem s)" using m' by (simp add: element_of_def fun_eq_iff)
  ultimately show "q_thread (gh a') (sys_qs s) m' (hold a' (Some t)) (snd (vs, st) t) pc'"
    using k th a' by (simp add: q_thread_def)
  show "fst (vs, st) = map (data_qe m') (tl (chain (gh a')))"
  proof -
    have "x \<noteq> q" if "x \<in> set (tl (chain (gh a)))" for x
      using that alone(1) by (metis list.sel(2) list.set_sel(2))
    then show ?thesis using inv a' m' by (simp add: q_inv_def data_qe_def)
  qed
qed (use inv a' untorn_link [OF move(2,1)] in \<open>auto simp: q_inv_def status_after_def\<close>)

lemma q_inv_draw:
  assumes inv: "q_inv B a (vs, st) s" and d: "d = Suc (drawn (gh a))"
    and qs': "qs' = (sys_qs s)\<lparr>q_aba_counter := of_nat d\<rparr>" and a': "a' = a\<lparr>gh := (gh a)\<lparr>drawn := d\<rparr>\<rparr>"
    and k: "q_knows (gh a') qs' (sys_mem s) (hold a (Some t)) (st t) pc'"
    and pc': "prepared pc' = prepared (sys_pcs s t)" "fl_pc_of pc' = fl_pc_of (sys_pcs s t)"
  shows "q_inv (Suc B) a' (vs, st) (s\<lparr>sys_qs := qs', sys_pcs := (sys_pcs s)(t := pc')\<rparr>)"
proof (rule q_inv_step [OF inv, of _ qs' "sys_mem s" t pc' a'])
  have sh: "q_shared B (gh a) (sys_qs s) (sys_mem s) (hold a None) (spare a)"
    and fl: "fl_inv (spare a) (tags a) (fl_view (sys_qs s) (sys_mem s) (sys_pcs s) (hold a) (incs a))"
    using inv by (simp_all add: q_inv_def)
  have "q_shared (Suc B) (gh a') qs' (sys_mem s) (hold a None) (spare a)"
    by (rule q_shared_quiet [OF sh, where k = d])
      (use qs' a' d q_sharedD(9,14) [OF sh] in auto)
  then show "q_shared (Suc B) (gh a') qs' (sys_mem s) (hold a' None) (spare a')" using a' by simp
  show "undisturbed (gh a) (sys_qs s) (sys_mem s) (gh a') qs' (sys_mem s) (hold a (Some u))" for u
    by (rule undisturbed_quiet [where k = d]) (use qs' a' d in auto)
  show "fl_inv (spare a') (tags a') (fl_view qs' (sys_mem s) ((sys_pcs s)(t := pc')) (hold a') (incs a'))"
    using fl_inv_other_memory [OF fl _ _ _ pc'(2), of "sys_mem s" qs'] fl_inv_apart(3) [OF fl] qs' a' by simp
qed (use inv k pc' a' in \<open>auto simp: q_inv_def q_thread_def idle_link_def status_after_def\<close>)

definition good_step :: "nat \<Rightarrow> ptr list \<times> ('t \<Rightarrow> status) \<Rightarrow> 't q_sys \<Rightarrow> 't \<Rightarrow> q_pc \<Rightarrow> q_event \<Rightarrow> queue_state \<Rightarrow> mem \<Rightarrow> bool" where
  "good_step B sp s t pc' ev qs' m' \<longleftrightarrow>
     (\<exists>a' sp'. spec_step t ev sp = Some sp' \<and>
        q_inv (Suc B) a' sp' \<lparr>sys_qs = qs', sys_mem = m', sys_pcs = (sys_pcs s)(t := pc')\<rparr>)"

lemma good_stepI:
  "q_inv (Suc B) a' sp' s' \<Longrightarrow> s' = \<lparr>sys_qs = qs', sys_mem = m', sys_pcs = (sys_pcs s)(t := pc')\<rparr> \<Longrightarrow>
     spec_step t ev sp = Some sp' \<Longrightarrow> good_step B sp s t pc' ev qs' m'"
  by (auto simp: good_step_def)

lemma element_of_get: "freelist_get_user_data_from_element (Some fe) m = Some p \<Longrightarrow> element_of m fe = p"
  by (auto simp: freelist_get_user_data_from_element_def element_of_def bind_eq_Some_conv)

lemma sizeof_apart: "k \<le> j \<Longrightarrow> j < 2 ^ 58 \<Longrightarrow> (of_nat j :: u64) + sizeof_queue_element \<noteq> of_nat k"
  using of_nat_small [of "j + 32" k] by (simp add: sizeof_queue_element_def)

lemma init_good:
  assumes inv: "q_inv B a (vs, st) s" and pc: "sys_pcs s t = Init l fe qe n v"
    and move: "q_move (sys_pcs s t) (sys_qs s) (sys_mem s) = Some (pc', ev, qs', m')"
    and un: "untorn_step s t" and B: "B < 2 ^ 58"
  shows "good_step B (vs, st) s t pc' ev qs' m'"
proof -
  let ?g = "gh a" and ?m = "sys_mem s" and ?H = "hold a (Some t)"
  have sh: "q_shared B ?g (sys_qs s) ?m (hold a None) (spare a)"
    and th: "q_thread ?g (sys_qs s) ?m ?H (st t) (sys_pcs s t)"
    using inv by (simp_all add: q_inv_def)
  obtain q where q: "st t = Adding v" "fe \<in> ?H" "q \<in> elements ?m" "element_of ?m fe = Some q"
      "l = I_element \<or> fst qe = Some q" and k: "init_knows ?g ?m l fe n q"
    using th pc by (auto simp: q_thread_def)
  obtain c where c: "qe_cells ?m q = Some c" using q(3) by auto
  have alone: "q \<notin> set (chain ?g)" by (rule held_alone(1) [OF inv q(2,4)])
  have le: "j \<le> drawn ?g" if "num ?g q = Some j" for j
    using q_sharedD(10) [OF sh that] alone by auto
  have idle: "prepared (sys_pcs s t) \<noteq> Some q \<longrightarrow> idle_link ?g ?m q" using th q(2,4) by (simp add: q_thread_def)
  have ev: "ev = Inner" using move pc by (auto simp: bind_eq_Some_conv)
  note priv = q_inv_private [OF inv q(2,4,3) _ un]
  have g: "num (gh a') = (num ?g)(q := nq) \<Longrightarrow> num (gh a') q = nq" for nq and a' :: "'t q_all" by simp
  have cell: "next_qe ?m q = qe_next c" using c by (simp add: next_qe_def)
  show ?thesis
  proof (cases l)
    case I_element
    then have pc': "pc' = Init I_counter fe (Some q, snd qe) n v" "qs' = sys_qs s" "m' = ?m"
      using move pc q(4) element_of_get [of fe ?m] by (auto simp: bind_eq_Some_conv)
    show ?thesis
      by (rule good_stepI [OF q_inv_local [OF inv, of t "st t" pc']]) (use pc' pc q ev I_element in \<open>simp_all add: fun_upd_idem\<close>)
  next
    case I_counter
    then have pc': "pc' = Init I_clear fe (Some q, of_nat (Suc (drawn ?g))) n v" "m' = ?m"
      "qs' = (sys_qs s)\<lparr>q_aba_counter := of_nat (Suc (drawn ?g))\<rparr>"
      using move pc q(5) q_sharedD(6) [OF sh] by (auto simp: abstraction_increment_def Let_def add.commute)
    show ?thesis
      by (rule good_stepI [OF q_inv_draw [OF inv refl pc'(3) refl, of t pc']])
        (use k I_counter pc' pc q ev in simp_all)
  next
    case I_number
    then have pc': "pc' = Init I_store fe qe (of_nat (Suc (drawn ?g))) v" "m' = ?m"
      "qs' = (sys_qs s)\<lparr>q_aba_counter := of_nat (Suc (drawn ?g))\<rparr>"
      using move pc q(5) q_sharedD(6) [OF sh] by (auto simp: abstraction_increment_def Let_def add.commute)
    have "init_knows (?g\<lparr>drawn := Suc (drawn ?g)\<rparr>) ?m I_store fe (of_nat (Suc (drawn ?g))) q"
      using k I_number le by (auto intro!: exI [of _ "Suc (drawn ?g)"] simp: less_Suc_eq_le)
    then show ?thesis
      by (intro good_stepI [OF q_inv_draw [OF inv refl pc'(3) refl, of t pc']])
        (use I_number pc' pc q ev in simp_all)
  next
    case I_clear
    let ?c = "c\<lparr>qe_next := (NULL, snd (qe_next c))\<rparr>"
    have pc': "pc' = Init I_number fe qe n v" "qs' = sys_qs s" "m' = ?m\<lparr>qe_cells := (qe_cells ?m)(q \<mapsto> ?c)\<rparr>"
      using move pc q(5) c I_clear by (auto simp: set_qe_def bind_eq_Some_conv)
    have no: "idle_link ?g ?m q" using idle pc I_clear by simp
    have apart: "snd (qe_next c) \<noteq> of_nat i" if "num ?g q = Some j" "i \<le> j" for i j
      using that no sizeof_apart [of i j] le [OF that(1)] q_sharedD(9) [OF sh] B cell by (simp add: idle_link_def)
    show ?thesis
    proof (rule good_stepI [OF priv [where pc' = pc' and m' = m' and c = ?c and nq = "num ?g q"]])
      show "next_qe ?m q = (NULL, of_nat i)" if "num ?g q = Some j" "i \<le> j" "qe_next ?c = (NULL, of_nat i)" for i j
        using apart [OF that(1,2)] that(3) by simp
    qed (use pc' pc q ev I_clear move le k no cell in \<open>auto simp: idle_link_def next_qe_def element_of_def\<close>)
  next
    case I_store
    let ?c = "c\<lparr>qe_next := (fst (qe_next c), n)\<rparr>"
    have pc': "pc' = Init I_fe fe qe n v" "qs' = sys_qs s" "m' = ?m\<lparr>qe_cells := (qe_cells ?m)(q \<mapsto> ?c)\<rparr>"
      using move pc q(5) c I_store by (auto simp: set_qe_def bind_eq_Some_conv)
    obtain i where i: "n = of_nat i" "2 \<le> i" "i \<le> drawn ?g" "\<And>j. num ?g q = Some j \<Longrightarrow> j < i" "fst (qe_next c) = NULL"
      using k I_store cell by auto
    have apart: "of_nat i \<noteq> (of_nat j :: u64)" if "j < i" for j
      using that of_nat_small [of i j] i(3) q_sharedD(9) [OF sh] B by simp
    show ?thesis
    proof (rule good_stepI [OF priv [where pc' = pc' and m' = m' and c = ?c and nq = "Some i"]])
      show "next_qe ?m q = (NULL, of_nat k)" if "num ?g q = Some j" "k \<le> j" "qe_next ?c = (NULL, of_nat k)" for k j
        using apart [of k] i(1) i(4) [OF that(1)] that(2,3) by simp
      show "\<exists>j'\<ge>j. Some i = Some j'" if "num ?g q = Some j" for j using i(4) [OF that] by auto
    qed (use pc' pc q ev I_store move i cell in \<open>auto simp: next_qe_def element_of_def numbered_def\<close>)
  next
    case I_fe
    let ?c = "c\<lparr>qe_fe := Some fe\<rparr>"
    have pc': "pc' = Init I_data fe qe n v" "qs' = sys_qs s" "m' = ?m\<lparr>qe_cells := (qe_cells ?m)(q \<mapsto> ?c)\<rparr>"
      using move pc q(5) c I_fe by (auto simp: set_qe_def bind_eq_Some_conv)
    show ?thesis
      by (rule good_stepI [OF priv [where pc' = pc' and m' = m' and c = ?c and nq = "num ?g q"]])
        (use pc' pc q ev I_fe move le k cell in
          \<open>auto simp: next_qe_def fe_qe_def element_of_def numbered_def\<close>)
  next
    case I_data
    let ?c = "c\<lparr>qe_user_data := v\<rparr>"
    have pc': "pc' = Link L_enqueue_pointer qe (NULL, 0) (NULL, 0) v" "qs' = sys_qs s"
      "m' = ?m\<lparr>qe_cells := (qe_cells ?m)(q \<mapsto> ?c)\<rparr>"
      using move pc q(5) c I_data by (auto simp: set_qe_def bind_eq_Some_conv)
    show ?thesis
      by (rule good_stepI [OF priv [where pc' = pc' and m' = m' and c = ?c and nq = "num ?g q"]])
        (use pc' pc q ev I_data move le k cell c in
          \<open>auto simp: next_qe_def fe_qe_def data_qe_def element_of_def numbered_def\<close>)
  qed
qed

section \<open>Steps inside the freelist\<close>

lemma fl_view_step:
  "fl_view qs' m' (pcs(t := pc')) H' n' =
     (fl_view qs m pcs H n)\<lparr>fl_fs := q_fs qs', fl_mem := m',
       fl_pcs := (fl_pcs (fl_view qs m pcs H n))(Some t := fl_pc_of pc'), fl_held := H', increments := n'\<rparr>"
  by (auto simp: fl_view_def fun_eq_iff split: option.splits)

lemma fl_view_sel [simp]:
  "increments (fl_view qs m pcs H n) = n" "fl_held (fl_view qs m pcs H n) = H"
  "fl_pcs (fl_view qs m pcs H n) (Some t) = fl_pc_of (pcs t)" "fl_pcs (fl_view qs m pcs H n) None = Outside"
  "fl_fs (fl_view qs m pcs H n) = q_fs qs" "fl_mem (fl_view qs m pcs H n) = m"
  by (simp_all add: fl_view_def)

lemma fl_part:
  assumes inv: "q_inv B a sp s" and B: "B < 2 ^ 58"
    and move: "fl_move (fl_pc_of (sys_pcs s t)) (q_fs (sys_qs s)) (sys_mem s) = Some (fpc, fev, fs, m')"
    and pc': "fl_pc_of pc' = fpc"
  obtains as' tg n' where "stack_after [fev] (spare a) = Some as'" "n' \<le> Suc B"
    "fl_inv as' tg (fl_view ((sys_qs s)\<lparr>q_fs := fs\<rparr>) m' ((sys_pcs s)(t := pc'))
       ((hold a)(Some t := held_after fev (hold a (Some t)))) n')"
proof -
  let ?v = "fl_view (sys_qs s) (sys_mem s) (sys_pcs s) (hold a) (incs a)"
  let ?n = "if takes_counter (fl_pcs ?v (Some t)) then Suc (incs a) else incs a"
  let ?v' = "fl_view ((sys_qs s)\<lparr>q_fs := fs\<rparr>) m' ((sys_pcs s)(t := pc'))
       ((hold a)(Some t := held_after fev (hold a (Some t)))) ?n"
  have n: "?n \<le> Suc B" and fl: "fl_inv (spare a) (tags a) ?v" using inv by (auto simp: q_inv_def)
  have "fl_move (fl_pcs ?v (Some t)) (fl_fs ?v) (fl_mem ?v) = Some (fpc, fev, fs, m')"
    using move by (simp add: fl_view_def)
  from fl_step.inside [OF this] have "fl_step ?v fev ?v'"
    unfolding fl_view_step [of "(sys_qs s)\<lparr>q_fs := fs\<rparr>" m' "sys_pcs s" t pc' _ _ "sys_qs s" "sys_mem s" "hold a" "incs a"]
    using pc' by (cases "takes_counter (fl_pc_of (sys_pcs s t))") simp_all
  moreover have "increments ?v' < 2 ^ 64" using n B by (simp add: fl_view_def)
  ultimately obtain as' tg where "fl_inv as' tg ?v'" "stack_after [fev] (spare a) = Some as'"
    using fl_inv_step [OF _ fl] by blast
  with n show thesis by (intro that)
qed

lemma fl_good:
  assumes inv: "q_inv B a (vs, st) s" and B: "B < 2 ^ 58" and un: "untorn_step s t"
    and move: "q_move (sys_pcs s t) (sys_qs s) (sys_mem s) = Some (pc', ev, qs', m')"
    and fl: "fl_move (fl_pc_of (sys_pcs s t)) (q_fs (sys_qs s)) (sys_mem s) = Some (fpc, fev, fs, m')"
      "fl_pc_of pc' = fpc" "qs' = (sys_qs s)\<lparr>q_fs := fs\<rparr>"
    and k: "q_knows (gh a) qs' m' (held_after fev (hold a (Some t))) st' pc'"
      "prepared pc' = NULL" "prepared (sys_pcs s t) = NULL" "\<And>b. st' \<noteq> Looking b"
    and sp: "spec_step t ev (vs, st) = Some (vs, st(t := st'))"
  shows "good_step B (vs, st) s t pc' ev qs' m'"
proof -
  let ?g = "gh a" and ?m = "sys_mem s"
  have sh: "q_shared B ?g (sys_qs s) ?m (hold a None) (spare a)"
    and th: "q_thread ?g (sys_qs s) ?m (hold a (Some t)) (st t) (sys_pcs s t)"
    and fv: "fl_inv (spare a) (tags a) (fl_view (sys_qs s) ?m (sys_pcs s) (hold a) (incs a))"
    using inv by (simp_all add: q_inv_def)
  obtain as' tg n' where st: "stack_after [fev] (spare a) = Some as'" "n' \<le> Suc B"
    and fl': "fl_inv as' tg (fl_view qs' m' ((sys_pcs s)(t := pc')) ((hold a)(Some t := held_after fev (hold a (Some t)))) n')"
    using fl_part [OF inv B fl(1,2)] fl(3) by metis
  note frame = fl_move_frame [OF fl(1)]
  have cells: "next_qe m' = next_qe ?m" "data_qe m' = data_qe ?m"
    using frame(1) by (simp_all add: next_qe_def data_qe_def fun_eq_iff)
  have used: "idle_link ?g ?m q \<and> q \<notin> set (chain ?g)"
    if "fe \<in> set (spare a) \<union> hold a (Some t)" "element_of ?m fe = Some q" for fe q
  proof (cases "fe \<in> hold a (Some t)")
    case True
    then show ?thesis using th that(2) k(3) by (simp add: q_thread_def)
  next
    case False
    then have fe: "fe \<in> set (spare a)" using that by simp
    have "q \<notin> set (chain ?g)"
    proof
      assume "q \<in> set (chain ?g)"
      then obtain fe' where "fe' \<in> hold a None" "element_of ?m fe' = Some q" using q_sharedD(11) [OF sh] by blast
      then show False using q_sharedD(13) [OF sh that(2)] fl_inv_apart(2) [OF fv, of None] fe by blast
    qed
    then show ?thesis using q_sharedD(14) [OF sh fe that(2)] by simp
  qed
  have moved: "set as' \<union> held_after fev (hold a (Some t)) \<subseteq> set (spare a) \<union> hold a (Some t)"
  proof (cases fev)
    case (Pushed x)
    then have "pushing (fl_pc_of (sys_pcs s t)) = Some x"
      using fl(1) by (cases "fl_pc_of (sys_pcs s t)") (auto simp: bind_eq_Some_conv Let_def pop_test_def split: prod.splits if_splits option.splits)
    then have "x \<in> hold a (Some t)"
      using fv by (auto simp: fl_inv_def thread_ok_def fl_view_def dest!: spec [of _ "Some t"])
    then show ?thesis using st Pushed by (auto simp: held_after_def)
  qed (use st in \<open>auto simp: held_after_def split: list.splits if_splits\<close>)
  let ?a = "a\<lparr>spare := as', tags := tg, incs := n', hold := (hold a)(Some t := held_after fev (hold a (Some t)))\<rparr>"
  show ?thesis
  proof (rule good_stepI [OF q_inv_step [OF inv refl, of ?a qs' m' t pc' "(vs, st(t := st'))"] refl])
    show "q_shared (Suc B) (gh ?a) qs' m' (hold ?a None) (spare ?a)"
      using q_shared_quiet [OF sh frame(1,3,2), of qs' ?g "drawn ?g" "Suc B" as'] fl(3) q_sharedD(6,9) [OF sh] used moved
      by auto
    show "undisturbed (gh a) (sys_qs s) ?m (gh ?a) qs' m' (hold a (Some u))" for u
      by (rule undisturbed_quiet [where k = "drawn ?g"]) (use frame fl(3) in simp_all)
    show "q_thread (gh ?a) qs' m' (hold ?a (Some t)) (snd (vs, st(t := st')) t) pc'"
    proof -
      have "idle_link ?g m' q \<and> q \<notin> set (chain ?g)"
        if "fe \<in> held_after fev (hold a (Some t))" "element_of ?m fe = Some q" for fe q
        using used [of fe q] moved that cells by (auto simp: idle_link_def)
      then show ?thesis using k frame(3) by (simp add: q_thread_def)
    qed
    show "b" if "fst (vs, st(t := st')) = []" "snd (vs, st(t := st')) u = Looking b" for u b
      using inv k(4) that by (auto simp: q_inv_def split: if_splits)
  qed (use inv fl' st sp cells untorn_link [OF un move] in \<open>auto simp: q_inv_def status_after_def\<close>)
qed

lemma new_pop_good:
  assumes inv: "q_inv B a (vs, st) s" and pc: "sys_pcs s t = New_pop fpc0 v"
    and move: "q_move (sys_pcs s t) (sys_qs s) (sys_mem s) = Some (pc', ev, qs', m')"
    and un: "untorn_step s t" and B: "B < 2 ^ 58"
  shows "good_step B (vs, st) s t pc' ev qs' m'"
proof -
  have sh: "q_shared B (gh a) (sys_qs s) (sys_mem s) (hold a None) (spare a)"
    and fv: "fl_inv (spare a) (tags a) (fl_view (sys_qs s) (sys_mem s) (sys_pcs s) (hold a) (incs a))"
    and st: "st t = Adding v" "pushing fpc0 = None"
    using inv pc by (auto simp: q_inv_def q_thread_def dest!: spec [of _ t])
  obtain fpc fev fs where fl: "fl_move fpc0 (q_fs (sys_qs s)) (sys_mem s) = Some (fpc, fev, fs, m')"
    and pc': "after_pop fpc fev v = (pc', ev)" "qs' = (sys_qs s)\<lparr>q_fs := fs\<rparr>"
    using move pc by (auto simp: bind_eq_Some_conv split_beta Let_def prod_eq_iff)
  have ev: "fev \<noteq> Pushed x" "pushing fpc = None" for x
    using fl st(2) by (cases fpc0; auto simp: bind_eq_Some_conv Let_def pop_test_def split: prod.splits if_splits option.splits)+
  note frame = fl_move_frame [OF fl]
  have "fl_pc_of pc' = fpc" using pc'(1) acts_when_leaving [OF fl] by (cases fev; cases "case fev of Popped p \<Rightarrow> p") auto
  moreover have "\<exists>st'. q_knows (gh a) qs' m' (held_after fev (hold a (Some t))) st' pc' \<and>
      prepared pc' = NULL \<and> (\<forall>b. st' \<noteq> Looking b) \<and> spec_step t ev (vs, st) = Some (vs, st(t := st'))"
  proof (cases fev)
    case Hidden
    then have "fpc \<noteq> Outside" using acts_when_leaving [OF fl] by simp
    then show ?thesis using Hidden pc' st ev(2) by (auto simp: fun_upd_idem intro!: exI [of _ "Adding v"])
  next
    case (Popped p)
    show ?thesis
    proof (cases p)
      case None
      then show ?thesis using pc' st Popped by auto
    next
      case (Some fe)
      obtain as' where "stack_after [fev] (spare a) = Some as'" 
        using fl_part [OF inv B, of t fpc fev fs m' pc'] fl pc \<open>fl_pc_of pc' = fpc\<close> by auto
      then have "fe \<in> set (spare a)" using Popped Some by (auto split: list.splits if_splits)
      moreover have "set (spare a) \<subseteq> dom (fe_cells (sys_mem s))"
        by (rule tagged_dom [of _ "tags a" "fs_top (q_fs (sys_qs s))"]) (use fv in \<open>simp add: fl_inv_def shared_ok_def\<close>)
      ultimately obtain q where "q \<in> elements (sys_mem s)" "element_of (sys_mem s) fe = Some q"
        using q_sharedD(12) [OF sh, of fe] by blast
      then have q: "q \<in> elements m'" "element_of m' fe = Some q" by (simp_all add: frame)
      have "pc' = Init I_element fe (NULL, 0) 0 v" "ev = Inner" using pc'(1) Popped Some by simp_all
      moreover have "fe \<in> held_after fev (hold a (Some t))" using Popped Some by (simp add: held_after_def)
      ultimately show ?thesis
        using st(1) q by (intro exI [of _ "Adding v"]) (simp add: fun_upd_idem)
    qed
  qed (use ev in simp)
  ultimately show ?thesis using fl_good [OF inv B un move _ _ pc'(2), of fpc fev] fl pc by auto
qed

lemma recycle_good:
  assumes inv: "q_inv B a (vs, st) s" and pc: "sys_pcs s t = Recycle fpc0 v"
    and move: "q_move (sys_pcs s t) (sys_qs s) (sys_mem s) = Some (pc', ev, qs', m')"
    and un: "untorn_step s t" and B: "B < 2 ^ 58"
  shows "good_step B (vs, st) s t pc' ev qs' m'"
proof -
  have st: "st t = Took v" "pushing fpc0 \<noteq> None"
    using inv pc by (auto simp: q_inv_def q_thread_def dest!: spec [of _ t])
  obtain fpc fev fs where fl: "fl_move fpc0 (q_fs (sys_qs s)) (sys_mem s) = Some (fpc, fev, fs, m')"
    and pc': "after_push fpc fev v = (pc', ev)" "qs' = (sys_qs s)\<lparr>q_fs := fs\<rparr>"
    using move pc by (auto simp: bind_eq_Some_conv split_beta Let_def prod_eq_iff)
  have ev: "fev \<noteq> Popped x" "fev = Hidden \<longrightarrow> pushing fpc \<noteq> None" for x
    using fl st(2) by (cases fpc0; auto simp: bind_eq_Some_conv Let_def split: prod.splits if_splits)+
  have "fl_pc_of pc' = fpc" using pc'(1) acts_when_leaving [OF fl] by (cases fev) auto
  moreover have "\<exists>st'. q_knows (gh a) qs' m' (held_after fev (hold a (Some t))) st' pc' \<and>
      prepared pc' = NULL \<and> (\<forall>b. st' \<noteq> Looking b) \<and> spec_step t ev (vs, st) = Some (vs, st(t := st'))"
    using pc' st ev by (cases fev) (auto simp: fun_upd_idem intro!: exI [of _ "Took v"])
  ultimately show ?thesis using fl_good [OF inv B un move _ _ pc'(2), of fpc fev] fl pc by auto
qed

lemma q_inv_fl_start:
  assumes inv: "q_inv B a (vs, st) s" and B: "B < 2 ^ 58"
    and fl: "fl_step (fl_view (sys_qs s) (sys_mem s) (sys_pcs s) (hold a) (incs a)) Hidden
      (fl_view (sys_qs s) (sys_mem s) ((sys_pcs s)(t := pc')) (hold a) (incs a))"
    and k: "q_knows (gh a) (sys_qs s) (sys_mem s) (hold a (Some t)) st' pc'"
    and pc': "prepared pc' = prepared (sys_pcs s t)" and st': "\<And>b. st' \<noteq> Looking b"
  shows "\<exists>a'. q_inv (Suc B) a' (vs, st(t := st')) (s\<lparr>sys_pcs := (sys_pcs s)(t := pc')\<rparr>)"
proof -
  have fv: "fl_inv (spare a) (tags a) (fl_view (sys_qs s) (sys_mem s) (sys_pcs s) (hold a) (incs a))" "incs a \<le> B"
    using inv by (simp_all add: q_inv_def)
  then obtain tg where tg: "fl_inv (spare a) tg (fl_view (sys_qs s) (sys_mem s) ((sys_pcs s)(t := pc')) (hold a) (incs a))"
    using fl_inv_step [OF fl fv(1)] B by auto
  let ?a = "a\<lparr>tags := tg\<rparr>"
  have "q_inv (Suc B) ?a (vs, st(t := st')) (s\<lparr>sys_pcs := (sys_pcs s)(t := pc')\<rparr>)"
  proof (rule q_inv_step [OF inv, of _ "sys_qs s" "sys_mem s" t pc'])
    have sh: "q_shared B (gh a) (sys_qs s) (sys_mem s) (hold a None) (spare a)" using inv by (simp add: q_inv_def)
    show "q_shared (Suc B) (gh ?a) (sys_qs s) (sys_mem s) (hold ?a None) (spare ?a)"
      using q_shared_quiet [OF sh, of _ _ "gh a" "drawn (gh a)" "Suc B" "spare a"] q_sharedD(6,9,14) [OF sh] by auto
    show "undisturbed (gh a) (sys_qs s) (sys_mem s) (gh ?a) (sys_qs s) (sys_mem s) (hold a (Some u))" for u
      by (rule undisturbed_quiet [where k = "drawn (gh a)"]) simp_all
    show "b" if "fst (vs, st(t := st')) = []" "snd (vs, st(t := st')) u = Looking b" for u b
      using inv st' that by (auto simp: q_inv_def split: if_splits)
  qed (use inv k pc' tg in \<open>auto simp: q_inv_def q_thread_def status_after_def\<close>)
  then show ?thesis ..
qed

section \<open>Moving the tail\<close>

lemma new_tick:
  assumes "k < 2 ^ 58"
  shows "tick c (Suc k) \<notin> tick c ` {..k}"
proof
  assume "tick c (Suc k) \<in> tick c ` {..k}"
  then obtain j where "j \<le> k" "tick c (Suc k) = tick c j" by auto
  then show False using tick_inj [of "Suc k" j c] assms by simp
qed

lemma q_inv_advance:
  assumes inv: "q_inv B a (vs, st) s" and B: "B < 2 ^ 58"
    and E: "fst (q_enqueue (sys_qs s)) = Some p" "fst (next_qe (sys_mem s) p) = Some x"
    and qs': "qs' = (sys_qs s)\<lparr>q_enqueue := (Some x, snd (q_enqueue (sys_qs s)) + sizeof_queue_element)\<rparr>"
    and a': "a' = a\<lparr>gh := (gh a)\<lparr>e_moves := Suc (e_moves (gh a))\<rparr>\<rparr>"
    and k: "q_knows (gh a') qs' (sys_mem s) (hold a (Some t)) st' pc'"
    and pc': "prepared pc' = prepared (sys_pcs s t)" "fl_pc_of pc' = fl_pc_of (sys_pcs s t)"
    and st': "\<And>b. vs = [] \<Longrightarrow> st' = Looking b \<Longrightarrow> b"
  shows "q_inv (Suc B) a' (vs, st(t := st')) (s\<lparr>sys_qs := qs', sys_pcs := (sys_pcs s)(t := pc')\<rparr>)"
proof (rule q_inv_step [OF inv, of _ qs' "sys_mem s" t pc' a'])
  let ?g = "gh a" and ?m = "sys_mem s"
  have sh: "q_shared B ?g (sys_qs s) ?m (hold a None) (spare a)"
    and fl: "fl_inv (spare a) (tags a) (fl_view (sys_qs s) ?m (sys_pcs s) (hold a) (incs a))"
    using inv by (simp_all add: q_inv_def)
  obtain xs where xs: "chain ?g = xs @ [p, x]" "snd (q_enqueue (sys_qs s)) = tick (e_base ?g) (e_moves ?g)"
    using E by (cases rule: tail_cases [OF sh]) auto
  then have E': "q_enqueue qs' = (Some x, tick (e_base ?g) (Suc (e_moves ?g)))"
    using qs' by (simp add: tick_Suc)
  have x: "hd (chain ?g) \<noteq> x" using q_sharedD(2) [OF sh] xs(1) by (cases xs) auto
  have "\<exists>ys b zs. chain ?g = ys @ b # zs \<and> length zs \<le> 1 \<and> q_enqueue qs' = (Some b, tick (e_base ?g) (Suc (e_moves ?g)))"
    using xs(1) E' by (intro exI [of _ "xs @ [p]"] exI [of _ x] exI [of _ "[]"]) simp
  then show "q_shared (Suc B) (gh a') qs' ?m (hold a' None) (spare a')"
    using sh a' qs' unfolding q_shared_def idle_link_def by (auto intro: le_SucI)
  have new: "tick (e_base ?g) (Suc (e_moves ?g)) \<notin> old_e ?g"
    using new_tick [of "e_moves ?g"] q_sharedD(8) [OF sh] B by (simp add: old_e_def)
  show "undisturbed ?g (sys_qs s) ?m (gh a') qs' ?m (hold a (Some u))" for u
    using new E E' x q_sharedD(5) [OF sh] a' qs' unfolding undisturbed_def
    by (auto simp: old_e_def old_d_def)
  show "fl_inv (spare a') (tags a') (fl_view qs' ?m ((sys_pcs s)(t := pc')) (hold a') (incs a'))"
    using fl_inv_other_memory [OF fl _ _ _ pc'(2), of ?m qs'] fl_inv_apart(3) [OF fl] qs' a' by simp
  show "b" if "fst (vs, st(t := st')) = []" "snd (vs, st(t := st')) u = Looking b" for u b
    using inv st' that by (auto simp: q_inv_def split: if_splits)
qed (use inv k pc' a' in \<open>auto simp: q_inv_def q_thread_def idle_link_def status_after_def\<close>)

lemma old_e_now: "q_shared B g qs m H as \<Longrightarrow> snd (q_enqueue qs) \<in> old_e g"
  by (rule tail_element(2))

text \<open>The compare-and-swap on the tail: it moves to the next element or stays.\<close>

lemma advance_good:
  assumes inv: "q_inv B a (vs, st) s" and B: "B < 2 ^ 58"
    and cas: "qs' = (sys_qs s)\<lparr>q_enqueue := (if q_enqueue (sys_qs s) = e then n else q_enqueue (sys_qs s))\<rparr>"
    and e: "fst e = Some p" "snd n = snd e + sizeof_queue_element" "fst n \<noteq> NULL"
      "q_enqueue (sys_qs s) = e \<longrightarrow> fst (next_qe (sys_mem s) p) = fst n"
    and k: "\<And>g qs. num g = num (gh a) \<Longrightarrow> q_knows g qs (sys_mem s) (hold a (Some t)) st' pc'"
    and pc': "prepared pc' = prepared (sys_pcs s t)" "fl_pc_of pc' = fl_pc_of (sys_pcs s t)"
    and st': "\<And>b. vs = [] \<Longrightarrow> st' = Looking b \<Longrightarrow> b"
    and sp: "spec_step t ev (vs, st) = Some (vs, st(t := st'))"
  shows "good_step B (vs, st) s t pc' ev qs' (sys_mem s)"
proof (cases "q_enqueue (sys_qs s) = e")
  case True
  then obtain x where x: "fst (next_qe (sys_mem s) p) = Some x" "n = (Some x, snd e + sizeof_queue_element)"
    using e by (cases n) auto
  show ?thesis
    by (rule good_stepI [OF q_inv_advance [OF inv B _ x(1) _ refl, of qs' t st' pc']])
      (use True x e(1) cas k pc' st' sp in auto)
next
  case False
  then have "qs' = sys_qs s" using cas by simp
  then show ?thesis
    by (intro good_stepI [OF q_inv_local [OF inv k [OF refl] pc']]) (use st' sp in auto)
qed

section \<open>Linking an element\<close>

lemma q_inv_append:
  assumes inv: "q_inv B a (vs, st) s" and B: "B < 2 ^ 58"
    and pc: "sys_pcs s t = Link L_link qe e n v" and un: "untorn_step s t"
    and move: "q_move (sys_pcs s t) (sys_qs s) (sys_mem s) = Some (pc', Appended v, sys_qs s, m')"
    and c: "fst e = Some p" "qe_cells (sys_mem s) p = Some c" "qe_next c = n" "fst n = NULL"
    and m': "m' = (sys_mem s)\<lparr>qe_cells := (qe_cells (sys_mem s))(p \<mapsto> c\<lparr>qe_next := qe\<rparr>)\<rparr>"
    and pc': "pc' = Link L_swing (fst qe, snd e + sizeof_queue_element) e n v"
  shows "\<exists>a'. q_inv (Suc B) a' (vs @ [v], st(t := Added)) (s\<lparr>sys_mem := m', sys_pcs := (sys_pcs s)(t := pc')\<rparr>)"
proof -
  let ?g = "gh a" and ?m = "sys_mem s" and ?H = "hold a (Some t)"
  have sh: "q_shared B ?g (sys_qs s) ?m (hold a None) (spare a)"
    and fv: "fl_inv (spare a) (tags a) (fl_view (sys_qs s) ?m (sys_pcs s) (hold a) (incs a))" "incs a \<le> B"
    and th: "\<And>u. q_thread ?g (sys_qs s) ?m (hold a (Some u)) (st u) (sys_pcs s u)"
    and vs: "vs = map (data_qe ?m) (tl (chain ?g))"
    using inv by (simp_all add: q_inv_def)
  obtain q fe where q: "q \<in> elements ?m" "fe \<in> ?H" "fst qe = Some q" "element_of ?m fe = Some q"
      "fe_qe ?m q = Some fe" "data_qe ?m q = v"
    and num: "numbered ?g ?m q" and st: "st t = Adding v"
    and lk: "snd e \<in> old_e ?g" "next_qe ?m p = n \<longrightarrow> q_enqueue (sys_qs s) = e" "snd qe = snd n + sizeof_queue_element"
    using th [of t] pc c(1) by (auto simp: q_thread_def)
  have n: "next_qe ?m p = n" using c by (simp add: next_qe_def)
  then have E: "q_enqueue (sys_qs s) = e" using lk(2) by simp
  obtain xs k where xs: "chain ?g = xs @ [p]" "num ?g p = Some k" "n = (NULL, of_nat k)"
    and e: "e = (Some p, tick (e_base ?g) (e_moves ?g))"
    using E c(1,4) n by (cases rule: tail_cases [OF sh]) auto
  have qe: "qe = (Some q, of_nat k + sizeof_queue_element)" using q(3) lk(3) xs(3) by (cases qe) simp
  note alone = held_alone [OF inv q(2,4)]
  have dist: "distinct (xs @ [p, q])" using q_sharedD(2) [OF sh] xs(1) alone(1) by auto
  have pq: "p \<noteq> q" and in_chain: "p \<in> set (chain ?g)" using dist xs(1) by auto
  obtain j where j: "num ?g q = Some j" "2 \<le> j" "next_qe ?m q = (NULL, of_nat j)" using num by (auto simp: numbered_def)
  have "j \<le> drawn ?g" using q_sharedD(10) [OF sh j(1)] alone(1) by auto
  then have le: "i \<le> drawn ?g" if "num ?g x = Some i" for x i
    using q_sharedD(10) [OF sh that] j(2) by auto
  have cell: "next_qe m' p = qe" "\<And>x. x \<noteq> p \<Longrightarrow> next_qe m' x = next_qe ?m x" "data_qe m' = data_qe ?m" "fe_qe m' = fe_qe ?m"
    using m' c(2) by (auto simp: next_qe_def data_qe_def fe_qe_def fun_eq_iff)
  have el: "element_of m' = element_of ?m" "elements m' = elements ?m" "fe_cells m' = fe_cells ?m"
    using m' c(2) by (auto simp: element_of_def fun_eq_iff)
  let ?g' = "?g\<lparr>chain := chain ?g @ [q]\<rparr>"
  let ?h = "(hold a)(Some t := ?H - {fe}, None := insert fe (hold a None))"
  let ?a = "a\<lparr>gh := ?g', hold := ?h\<rparr>"
  have fl: "fl_inv (spare a) (tags a) (fl_view (sys_qs s) m' ((sys_pcs s)(t := pc')) ?h (incs a))"
  proof -
    have "fl_inv (spare a) (tags a) (fl_view (sys_qs s) ?m (sys_pcs s) ?h (incs a))"
      using fl_inv_handover [OF fv(1), of "Some t" fe None] q(2) pc by (simp add: fl_view_def)
    from fl_inv_other_memory [OF this el(3), of "sys_qs s" pc' t]
    show ?thesis using mem_wf_elements [OF fl_inv_apart(3) [OF fv(1)], of p] c(2) m' pc pc' by auto
  qed
  have ch: "chained (next_qe m') (num ?g') (chain ?g')"
    using chained_snoc [of "next_qe ?m" "num ?g" xs p "next_qe m'" q j "num ?g" k]
      q_sharedD(4) [OF sh] xs j dist cell pq qe by simp
  have shared: "q_shared (Suc B) ?g' (sys_qs s) m' (insert fe (hold a None)) (spare a)"
  proof -
    have "\<exists>ys b zs. chain ?g' = ys @ b # zs \<and> length zs \<le> 1 \<and> q_enqueue (sys_qs s) = (Some b, tick (e_base ?g') (e_moves ?g'))"
      using xs(1) e E by (intro exI [of _ xs] exI [of _ p] exI [of _ "[q]"]) simp
    moreover have "\<exists>f \<in> insert fe (hold a None). fe_qe m' x = Some f \<and> element_of m' f = Some x" if "x \<in> set (chain ?g')" for x
      using that q(4,5) q_sharedD(11) [OF sh, of x] cell(4) el(1) by auto
    moreover have "idle_link ?g' m' x" if "f \<in> set (spare a)" "element_of m' f = Some x" for f x
    proof -
      have "x \<noteq> p"
      proof
        assume "x = p"
        then obtain f' where "f' \<in> hold a None" "element_of ?m f' = Some x" using q_sharedD(11) [OF sh in_chain] by auto
        then show False using q_sharedD(13) [OF sh, of f x f'] fl_inv_apart(2) [OF fv(1), of None] that el(1) by auto
      qed
      then show ?thesis using q_sharedD(14) [OF sh that(1)] that(2) el(1) cell(2) by (simp add: idle_link_def)
    qed
    moreover have "hd (chain ?g') = hd (chain ?g)" using q_sharedD(1) [OF sh] by simp
    moreover have "distinct (chain ?g')" "set (chain ?g') \<subseteq> elements m'"
      using q_sharedD(1,3) [OF sh] dist xs(1) q(1) el(2) by auto
    ultimately show ?thesis
      using ch q_sharedD(5-9,12,13) [OF sh] le el unfolding q_shared_def by (auto intro: le_SucI)
  qed
  have thread: "q_thread ?g' (sys_qs s) m' (?H - {fe}) Added pc'"
  proof -
    have "idle_link ?g' m' x \<and> x \<notin> set (chain ?g')" if "f \<in> ?H - {fe}" "element_of m' f = Some x" for f x
    proof -
      have f: "f \<in> ?H" "element_of ?m f = Some x" using that el(1) by auto
      have "x \<noteq> q" using that f q(4) q_sharedD(13) [OF sh f(2), of fe] by auto
      moreover have "x \<notin> set (chain ?g)" "x \<noteq> q \<longrightarrow> idle_link ?g ?m x"
        using th [of t] f pc q(3) by (auto simp: q_thread_def)
      moreover from this(1) have "x \<noteq> p" using in_chain by auto
      ultimately show ?thesis using cell(2) [of x] by (simp add: idle_link_def)
    qed
    moreover have "old_e ?g' = old_e ?g" by (simp add: old_e_def)
    ultimately show ?thesis
      using pc' lk(1) c(1) q(3) cell(1) E by (auto simp: q_thread_def)
  qed
  have others: "undisturbed ?g (sys_qs s) ?m ?g' (sys_qs s) m' (hold a (Some u))" if "u \<noteq> t" for u
  proof -
    have D: "x \<noteq> q" "d \<noteq> p" if "fst (q_dequeue (sys_qs s)) = Some d" "fst (next_qe ?m d) = Some x" for d x
      using head_next(2) [OF sh that] alone(1) that(2) n c(4) by auto
    have H: "x \<noteq> p" "x \<noteq> q" if "f \<in> hold a (Some u)" "element_of ?m f = Some x" for f x
      using that th [of u] in_chain alone(2) [of "Some u" f] \<open>u \<noteq> t\<close> by (auto simp: q_thread_def)
    show ?thesis
      unfolding undisturbed_def
    proof (intro conjI allI impI ballI)
      show "next_qe ?m x = (NULL, of_nat i)" if "num ?g x = Some j \<and> i \<le> j \<and> next_qe m' x = (NULL, of_nat i)" for x j i
        using that cell(1,2) qe by (cases "x = p") auto
    qed (use cell el D H m' n c(4) E e qe in \<open>auto simp: old_e_def old_d_def\<close>)
  qed
  have "q_inv (Suc B) ?a (vs @ [v], st(t := Added)) (s\<lparr>sys_mem := m', sys_pcs := (sys_pcs s)(t := pc')\<rparr>)"
  proof (rule q_inv_step [OF inv, of _ "sys_qs s" m' t pc'])
    show "fst (vs @ [v], st(t := Added)) = map (data_qe m') (tl (chain (gh ?a)))"
      using vs cell(3) q(6) q_sharedD(1) [OF sh] by simp
  qed (use fl shared thread others fv(2) untorn_link [OF un move] in \<open>auto simp: status_after_def\<close>)
  then show ?thesis ..
qed

lemma link_good:
  assumes inv: "q_inv B a (vs, st) s" and pc: "sys_pcs s t = Link l qe e n v"
    and move: "q_move (sys_pcs s t) (sys_qs s) (sys_mem s) = Some (pc', ev, qs', m')"
    and un: "untorn_step s t" and B: "B < 2 ^ 58"
  shows "good_step B (vs, st) s t pc' ev qs' m'"
proof -
  let ?g = "gh a" and ?m = "sys_mem s" and ?H = "hold a (Some t)"
  have sh: "q_shared B ?g (sys_qs s) ?m (hold a None) (spare a)"
    and th: "q_thread ?g (sys_qs s) ?m ?H (st t) (sys_pcs s t)"
    using inv by (simp_all add: q_inv_def)
  have know: "link_knows ?g (q_enqueue (sys_qs s)) ?m l qe e n (the (fst e))"
    and st: "st t = (if l = L_swing then Added else Adding v)"
    and own: "l \<noteq> L_swing \<Longrightarrow> \<exists>q \<in> elements ?m. \<exists>fe \<in> ?H. fst qe = Some q \<and> element_of ?m fe = Some q \<and>
      numbered ?g ?m q \<and> fe_qe ?m q = Some fe \<and> data_qe ?m q = v"
    using th pc by (auto simp: q_thread_def)
  have lm: "link_move l qe e n v (sys_qs s) ?m = Some (pc', ev, qs', m')" using move pc by simp
  have restart: "q_knows g qs ?m ?H (Adding v) (Link L_enqueue_pointer qe e' n' v)"
    if "l \<noteq> L_swing" "\<And>q. numbered ?g ?m q \<Longrightarrow> numbered g ?m q" for g qs e' n'
    using own [OF that(1)] that(2) by auto
  show ?thesis
  proof (cases "link_local l")
    case True
    note r = link_read_good [OF sh True lm know]
    then obtain l' qe' e' n' where pc': "pc' = Link l' qe' e' n' v" "l' \<noteq> L_swing" "fst qe' = fst qe"
      by (cases pc') auto
    have nl: "l \<noteq> L_swing" using True by auto
    then have "q_knows ?g (sys_qs s) ?m ?H (Adding v) pc'"
      using r(4) pc' own by simp
    then show ?thesis
      by (intro good_stepI [OF q_inv_local [OF inv, of t "Adding v" pc']])
        (use r pc' pc st nl in \<open>auto simp: fun_upd_idem\<close>)
  next
    case False
    then consider (link) "l = L_link" | (lagging) "l = L_help" | (swing) "l = L_swing" by (cases l) auto
    then show ?thesis
    proof cases
      case link
      obtain p c where p: "fst e = Some p" "qe_cells ?m p = Some c" using know link by auto
      show ?thesis
      proof (cases "qe_next c = n")
        case True
        have c: "fst n = NULL" using know link by simp
        have r: "pc' = Link L_swing (fst qe, snd e + sizeof_queue_element) e n v" "ev = Appended v" "qs' = sys_qs s"
          "m' = ?m\<lparr>qe_cells := (qe_cells ?m)(p \<mapsto> c\<lparr>qe_next := qe\<rparr>)\<rparr>"
          using lm link p True by (auto simp: set_qe_next_def)
        show ?thesis
          using q_inv_append [OF inv B pc [unfolded link] un _ p True c r(4,1)] move r st link
          by (auto intro: good_stepI)
      next
        case False
        then have r: "pc' = Link L_enqueue_pointer qe e (qe_next c) v" "ev = Inner" "qs' = sys_qs s"
          "m' = ?m\<lparr>qe_cells := (qe_cells ?m)(p \<mapsto> c\<lparr>qe_next := qe_next c\<rparr>)\<rparr>"
          using lm link p by (auto simp: set_qe_next_def abstraction_dcas_def)
        have "m' = ?m" using r(4) p(2) by (simp add: fun_upd_idem)
        then show ?thesis
          by (intro good_stepI [OF q_inv_local [OF inv restart [where e' = e and n' = "qe_next c"]]])
            (use r pc st link in \<open>auto simp: fun_upd_idem\<close>)
      qed
    next
      case lagging
      then have r: "ev = Inner" "m' = ?m"
        "pc' = Link L_enqueue_pointer qe (q_enqueue (sys_qs s)) n v"
        "qs' = (sys_qs s)\<lparr>q_enqueue := (if q_enqueue (sys_qs s) = e then n else q_enqueue (sys_qs s))\<rparr>"
        using lm by (auto simp: abstraction_dcas_def Let_def split: prod.splits if_splits)
      have k: "fst e = Some (the (fst e))" "snd n = snd e + sizeof_queue_element" "fst n \<noteq> NULL"
        "q_enqueue (sys_qs s) = e \<longrightarrow> fst (next_qe ?m (the (fst e))) = fst n"
        using know lagging by auto
      show ?thesis
        unfolding r(2)
        by (rule advance_good [OF inv B r(4) k, of t "Adding v" pc'])
          (use r pc st lagging own in \<open>auto simp: numbered_def fun_upd_idem\<close>)
    next
      case swing
      then have r: "ev = Enqueued" "m' = ?m" "pc' = Q_idle"
        "qs' = (sys_qs s)\<lparr>q_enqueue := (if q_enqueue (sys_qs s) = e then qe else q_enqueue (sys_qs s))\<rparr>"
        using lm by (auto simp: abstraction_dcas_def Let_def split: prod.splits if_splits)
      have k: "fst e = Some (the (fst e))" "snd qe = snd e + sizeof_queue_element" "fst qe \<noteq> NULL"
        "q_enqueue (sys_qs s) = e \<longrightarrow> fst (next_qe ?m (the (fst e))) = fst qe"
        using know swing by auto
      show ?thesis
        unfolding r(2)
        by (rule advance_good [OF inv B r(4) k, of t Outside_op pc']) (use r pc st swing in auto)
    qed
  qed
qed

end
