(* ===== verification/Queue_Runs.thy ===== *)
theory Queue_Runs
  imports Queue_Linear Queue_Life
begin

text \<open>
  Runs of any number of threads on a queue, from its construction: the remaining steps of a
  dequeue, every schedule without torn reads as a run of the specification, and schedules with
  one producer as a case in which no read is torn.
\<close>

section \<open>Taking an element\<close>

lemma q_inv_remove:
  assumes inv: "q_inv B a (vs, st) s" and B: "B < 2 ^ 58"
    and pc: "sys_pcs s t = Take T_move d e n v"
    and D: "q_dequeue (sys_qs s) = d"
    and qs': "qs' = (sys_qs s)\<lparr>q_dequeue := n\<rparr>" and pc': "pc' = Take T_element d e' n' v"
  shows "good_step B (vs, st) s t pc' (Removed v) qs' (sys_mem s)"
proof -
  let ?g = "gh a" and ?m = "sys_mem s" and ?H = "hold a (Some t)"
  have sh: "q_shared B ?g (sys_qs s) ?m (hold a None) (spare a)"
    and fv: "fl_inv (spare a) (tags a) (fl_view (sys_qs s) ?m (sys_pcs s) (hold a) (incs a))" "incs a \<le> B"
    and th: "\<And>u. q_thread ?g (sys_qs s) ?m (hold a (Some u)) (st u) (sys_pcs s u)"
    and vs: "vs = map (data_qe ?m) (tl (chain ?g))" and seen: "\<And>u b. vs = [] \<Longrightarrow> st u = Looking b \<Longrightarrow> b"
    using inv by (auto simp: q_inv_def)
  obtain p x b where p: "fst d = Some p" "fst n = Some x" "fst (next_qe ?m p) = Some x" "data_qe ?m x = v"
    "snd n = snd d + sizeof_queue_element" "fst (q_enqueue (sys_qs s)) \<noteq> Some p" and st: "st t = Looking b"
    using th [of t] pc D by (auto simp: q_thread_def)
  obtain xs where xs: "chain ?g = p # x # xs" using head_next(2) [OF sh, of p x] D p by auto
  have n: "n = (Some x, tick (d_base ?g) (Suc (d_moves ?g)))"
    using p(2,5) D q_sharedD(5) [OF sh] by (cases n) (auto simp: tick_Suc)
  obtain fe where fe: "fe \<in> hold a None" "fe_qe ?m p = Some fe" "element_of ?m fe = Some p"
    using q_sharedD(11) [OF sh, of p] xs by auto
  let ?g' = "?g\<lparr>chain := x # xs, d_moves := Suc (d_moves ?g)\<rparr>"
  let ?h = "(hold a)(None := hold a None - {fe}, Some t := insert fe ?H)"
  let ?a = "a\<lparr>gh := ?g', hold := ?h\<rparr>"
  let ?st = "(if xs = [] then look_again \<circ> st else st)(t := Took v)"
  have ws: "vs = v # map (data_qe ?m) xs" using vs xs p(4) by simp
  have dist: "distinct (p # x # xs)" using q_sharedD(2) [OF sh] xs by simp
  have fl: "fl_inv (spare a) (tags a) (fl_view qs' ?m ((sys_pcs s)(t := pc')) ?h (incs a))"
  proof -
    have "fl_inv (spare a) (tags a) (fl_view (sys_qs s) ?m (sys_pcs s) ?h (incs a))"
      using fl_inv_handover [OF fv(1), of None fe "Some t"] fe(1) by (simp add: fl_view_def)
    from fl_inv_other_memory [OF this refl _ _, of qs' pc' t]
    show ?thesis using fl_inv_apart(3) [OF fv(1)] qs' pc pc' by simp
  qed
  have idle: "idle_link ?g ?m p"
    using chained_mid [of "next_qe ?m" "num ?g" "[]" p x xs] q_sharedD(4) [OF sh] xs by (auto simp: idle_link_def)
  have shared: "q_shared (Suc B) ?g' qs' ?m (hold a None - {fe}) (spare a)"
  proof -
    have E: "\<exists>ys c zs. x # xs = ys @ c # zs \<and> length zs \<le> 1 \<and> q_enqueue (sys_qs s) = (Some c, tick (e_base ?g) (e_moves ?g))"
    proof -
      obtain ys c zs where c: "chain ?g = ys @ c # zs" "length zs \<le> 1"
        "q_enqueue (sys_qs s) = (Some c, tick (e_base ?g) (e_moves ?g))"
        using sh unfolding q_shared_def by blast
      with p(6) xs obtain ys' where "ys = p # ys'" by (cases ys) auto
      with c xs show ?thesis by auto
    qed
    have bk: "\<exists>f \<in> hold a None - {fe}. fe_qe ?m y = Some f \<and> element_of ?m f = Some y" if y: "y \<in> set (x # xs)" for y
    proof -
      obtain f where "f \<in> hold a None" "fe_qe ?m y = Some f" "element_of ?m f = Some y"
        using q_sharedD(11) [OF sh, of y] y xs by auto
      moreover from this fe(3) have "f \<noteq> fe" using dist y by auto
      ultimately show ?thesis by auto
    qed
    have le: "k \<le> drawn ?g" if "num ?g y = Some k" for y k using q_sharedD(10) [OF sh that] xs by auto
    show ?thesis
      unfolding q_shared_def
    proof (intro conjI)
      show "\<exists>ys c zs. chain ?g' = ys @ c # zs \<and> length zs \<le> 1 \<and>
          q_enqueue qs' = (Some c, tick (e_base ?g') (e_moves ?g'))"
        using E qs' by simp
      show "\<forall>q \<in> set (chain ?g'). \<exists>fe' \<in> hold a None - {fe}. fe_qe ?m q = Some fe' \<and> element_of ?m fe' = Some q"
        using bk by simp
    qed (use q_sharedD(3-9,12-14) [OF sh] xs dist le n qs' in \<open>auto simp: idle_link_def intro: le_SucI\<close>)
  qed
  have thread: "q_thread ?g' qs' ?m (insert fe ?H) (Took v) pc'"
  proof -
    have "idle_link ?g' ?m y \<and> y \<notin> set (chain ?g')" if "f \<in> insert fe ?H" "element_of ?m f = Some y" for f y
    proof (cases "f = fe")
      case True
      then show ?thesis using that fe(3) idle dist by (auto simp: idle_link_def)
    next
      case False
      then show ?thesis using that th [of t] pc xs by (auto simp: q_thread_def idle_link_def)
    qed
    moreover have "p \<in> elements ?m" using q_sharedD(3) [OF sh] xs by auto
    ultimately show ?thesis using pc' p(1) fe by (auto simp: q_thread_def)
  qed
  have new: "snd n \<notin> old_d ?g"
    using new_tick [of "d_moves ?g"] q_sharedD(7) [OF sh] B n by (simp add: old_d_def)
  have others: "undisturbed ?g (sys_qs s) ?m ?g' qs' ?m (hold a (Some u))" for u
    using new D n qs' xs unfolding undisturbed_def by (auto simp: old_e_def old_d_def)
  have "q_inv (Suc B) ?a (map (data_qe ?m) xs, ?st) (s\<lparr>sys_qs := qs', sys_pcs := (sys_pcs s)(t := pc')\<rparr>)"
  proof (rule q_inv_step [OF inv, of _ qs' ?m t pc'])
    show "bb" if "fst (map (data_qe ?m) xs, ?st) = []" "snd (map (data_qe ?m) xs, ?st) u = Looking bb" for u bb
      using that by (cases "st u") (auto split: if_splits)
    show "status_after (snd (vs, st) u) (snd (map (data_qe ?m) xs, ?st) u)" if "u \<noteq> t" for u
      using that by (auto simp: status_after_def)
  qed (use fl fv(2) shared thread others in auto)
  then show ?thesis
    by (rule good_stepI) (use ws st in auto)
qed

lemma take_good:
  assumes inv: "q_inv B a (vs, st) s" and pc: "sys_pcs s t = Take l d e n v"
    and move: "q_move (sys_pcs s t) (sys_qs s) (sys_mem s) = Some (pc', ev, qs', m')"
    and un: "untorn_step s t" and B: "B < 2 ^ 58"
  shows "good_step B (vs, st) s t pc' ev qs' m'"
proof -
  let ?g = "gh a" and ?m = "sys_mem s" and ?H = "hold a (Some t)"
  have sh: "q_shared B ?g (sys_qs s) ?m (hold a None) (spare a)"
    and th: "q_thread ?g (sys_qs s) ?m ?H (st t) (sys_pcs s t)"
    and vs: "vs = map (data_qe ?m) (tl (chain ?g))" and seen: "\<And>b. vs = [] \<Longrightarrow> st t = Looking b \<Longrightarrow> b"
    using inv by (auto simp: q_inv_def)
  have know: "take_knows ?g (q_dequeue (sys_qs s)) (q_enqueue (sys_qs s)) ?m (st t = Looking True) l d e n v
      (the (fst (if l = T_help then e else d)))"
    and st: "if l = T_element then st t = Took v else \<exists>b. st t = Looking b"
    and own: "l = T_element \<Longrightarrow> \<exists>fe \<in> ?H. element_of ?m fe = fst d \<and> fe_qe ?m (the (fst d)) = Some fe"
    using th pc by (auto simp: q_thread_def)
  have tm: "take_move l d e n v (sys_qs s) ?m = Some (pc', ev, qs', m')" using move pc by simp
  show ?thesis
  proof (cases "take_local l")
    case True
    have nl: "l \<noteq> T_help" "l \<noteq> T_element" using True by auto
    then obtain b where b: "st t = Looking b" using st by auto
    have empty: "tl (chain ?g) = [] \<longrightarrow> st t = Looking True" using vs seen b by auto
    note r = take_read_good [OF sh True tm _ empty]
    have k: "take_knows ?g (q_dequeue (sys_qs s)) (q_enqueue (sys_qs s)) ?m (st t = Looking True) l d e n v (the (fst d))"
      using know nl by simp
    show ?thesis
      using r(3) [OF k]
    proof (elim disjE conjE)
      assume e: "ev = Empty" "pc' = Q_idle" "st t = Looking True"
      show ?thesis
        by (rule good_stepI [OF q_inv_local [OF inv, of t Outside_op pc']]) (use e r(1,2) [OF k] pc in auto)
    next
      assume e: "ev = Inner" "taking ?g (sys_qs s) ?m (st t = Looking True) pc'"
      then have "q_knows ?g (sys_qs s) ?m ?H (st t) pc'" "prepared pc' = NULL" "fl_pc_of pc' = Outside"
        using b by (cases pc'; auto)+
      then show ?thesis
        by (intro good_stepI [OF q_inv_local [OF inv, of t "st t" pc']])
          (use e(1) r(1,2) [OF k] pc seen in \<open>auto simp: fun_upd_idem\<close>)
    qed
  next
    case False
    then consider (lagging) "l = T_help" | (move) "l = T_move" | (element) "l = T_element" by (cases l) auto
    then show ?thesis
    proof cases
      case lagging
      then obtain b where b: "st t = Looking b" using st by auto
      have r: "ev = Inner" "m' = ?m" "pc' = Take T_dequeue_pointer d (q_enqueue (sys_qs s)) n v"
        "qs' = (sys_qs s)\<lparr>q_enqueue := (if q_enqueue (sys_qs s) = e then n else q_enqueue (sys_qs s))\<rparr>"
        using tm lagging by (auto simp: abstraction_dcas_def Let_def split: prod.splits if_splits)
      have k: "fst e = Some (the (fst e))" "snd n = snd e + sizeof_queue_element" "fst n \<noteq> NULL"
        "q_enqueue (sys_qs s) = e \<longrightarrow> fst (next_qe ?m (the (fst e))) = fst n"
        using know lagging by auto
      show ?thesis
        unfolding r(2)
        by (rule advance_good [OF inv B r(4) k, of t "st t" pc'])
          (use r pc b seen lagging in \<open>auto simp: fun_upd_idem\<close>)
    next
      case move
      then obtain b where b: "st t = Looking b" using st by auto
      show ?thesis
      proof (cases "q_dequeue (sys_qs s) = d")
        case True
        then have r: "ev = Removed v" "m' = ?m" "qs' = (sys_qs s)\<lparr>q_dequeue := n\<rparr>" "pc' = Take T_element d e n v"
          using tm move by (auto simp: Let_def)
        show ?thesis using q_inv_remove [OF inv B _ True r(3,4)] pc move r by simp
      next
        case False
        then have r: "ev = Inner" "m' = ?m" "qs' = sys_qs s" "pc' = Take T_dequeue_pointer (q_dequeue (sys_qs s)) e n v"
          using tm move by (auto simp: abstraction_dcas_def Let_def)
        show ?thesis
          by (rule good_stepI [OF q_inv_local [OF inv, of t "st t" pc']])
            (use r pc b seen move in \<open>auto simp: fun_upd_idem\<close>)
      qed
    next
      case element
      obtain fe where fe: "fe \<in> ?H" "fe_qe ?m (the (fst d)) = Some fe" using own [OF element] by auto
      then have r: "ev = Inner" "m' = ?m" "qs' = sys_qs s" "pc' = Recycle (Push_increment fe) v"
        using tm element by (auto simp: bind_eq_Some_conv fe_qe_def)
      let ?v = "fl_view (sys_qs s) ?m (sys_pcs s) (hold a) (incs a)"
      have "fl_step ?v Hidden (?v\<lparr>fl_pcs := (fl_pcs ?v)(Some t := Push_increment fe)\<rparr>)"
        by (rule fl_step.start_push) (use fe(1) pc in simp_all)
      moreover have "?v\<lparr>fl_pcs := (fl_pcs ?v)(Some t := Push_increment fe)\<rparr> =
          fl_view (sys_qs s) ?m ((sys_pcs s)(t := pc')) (hold a) (incs a)"
        using r(4) by (auto simp: fl_view_def fun_eq_iff split: option.splits)
      ultimately obtain a' where "q_inv (Suc B) a' (vs, st(t := Took v)) (s\<lparr>sys_pcs := (sys_pcs s)(t := pc')\<rparr>)"
        using q_inv_fl_start [OF inv B, of t pc' "Took v"] r(4) pc element by auto
      then show ?thesis
        by (rule good_stepI) (use r st element in \<open>auto simp: fun_upd_idem\<close>)
    qed
  qed
qed

section \<open>Schedules\<close>

lemma q_move_good:
  assumes inv: "q_inv B a sp s"
    and move: "q_move (sys_pcs s t) (sys_qs s) (sys_mem s) = Some (pc', ev, qs', m')"
    and un: "untorn_step s t" and B: "B < 2 ^ 58"
  shows "good_step B sp s t pc' ev qs' m'"
proof -
  obtain vs st where sp: "sp = (vs, st)" by (cases sp)
  note inv = inv [unfolded sp]
  show ?thesis
  proof (cases "sys_pcs s t")
    case (New_pop pc v) then show ?thesis using new_pop_good [OF inv _ move un B] sp by simp
  next
    case (Init l fe qe n v) then show ?thesis using init_good [OF inv _ move un B] sp by simp
  next
    case (Link l qe e n v) then show ?thesis using link_good [OF inv _ move un B] sp by simp
  next
    case (Take l d e n v) then show ?thesis using take_good [OF inv _ move un B] sp by simp
  next
    case (Recycle pc v) then show ?thesis using recycle_good [OF inv _ move un B] sp by simp
  qed (use move in simp)
qed

lemma q_start_good:
  assumes inv: "q_inv B a (vs, st) s" and B: "B < 2 ^ 58" and idle: "sys_pcs s t = Q_idle"
  shows "\<exists>a' sp'. spec_step t (Call_enqueue v) (vs, st) = Some sp' \<and>
      q_inv (Suc B) a' sp' (s\<lparr>sys_pcs := (sys_pcs s)(t := New_pop Pop_read_counter v)\<rparr>)"
    "\<exists>a' sp'. spec_step t Call_dequeue (vs, st) = Some sp' \<and>
      q_inv (Suc B) a' sp' (s\<lparr>sys_pcs := (sys_pcs s)(t := Take T_dequeue_pointer d e n w)\<rparr>)"
proof -
  have st: "st t = Outside_op" using inv idle by (auto simp: q_inv_def q_thread_def dest!: spec [of _ t])
  let ?v = "fl_view (sys_qs s) (sys_mem s) (sys_pcs s) (hold a) (incs a)"
  have "fl_step ?v Hidden (?v\<lparr>fl_pcs := (fl_pcs ?v)(Some t := Pop_read_counter)\<rparr>)"
    by (rule fl_step.start_pop) (use idle in simp)
  moreover have "?v\<lparr>fl_pcs := (fl_pcs ?v)(Some t := Pop_read_counter)\<rparr> =
      fl_view (sys_qs s) (sys_mem s) ((sys_pcs s)(t := New_pop Pop_read_counter v)) (hold a) (incs a)"
    by (auto simp: fl_view_def fun_eq_iff split: option.splits)
  ultimately show "\<exists>a' sp'. spec_step t (Call_enqueue v) (vs, st) = Some sp' \<and>
      q_inv (Suc B) a' sp' (s\<lparr>sys_pcs := (sys_pcs s)(t := New_pop Pop_read_counter v)\<rparr>)"
    using q_inv_fl_start [OF inv B, of t "New_pop Pop_read_counter v" "Adding v"] idle st by auto
  show "\<exists>a' sp'. spec_step t Call_dequeue (vs, st) = Some sp' \<and>
      q_inv (Suc B) a' sp' (s\<lparr>sys_pcs := (sys_pcs s)(t := Take T_dequeue_pointer d e n w)\<rparr>)"
    using q_inv_local [OF inv, of t "Looking (vs = [])" "Take T_dequeue_pointer d e n w"] idle st by auto
qed

lemma q_do_good:
  assumes inv: "q_inv B a sp s" and B: "B < 2 ^ 58" and act: "q_do act s = Some (ev, s')" and un: "\<not> tears act s"
  shows "\<exists>a' sp'. spec_step (actor act) ev sp = Some sp' \<and> q_inv (Suc B) a' sp' s'"
proof -
  obtain vs st where sp: "sp = (vs, st)" by (cases sp)
  show ?thesis
  proof (cases act)
    case (Do_enqueue t v)
    then show ?thesis using q_start_good(1) [OF inv [unfolded sp] B] act sp by (auto split: if_splits)
  next
    case (Do_dequeue t)
    then have "sys_pcs s t = Q_idle" and "ev = Call_dequeue"
      "s' = s\<lparr>sys_pcs := (sys_pcs s)(t := Take T_dequeue_pointer (NULL, 0) (NULL, 0) (NULL, 0) NULL)\<rparr>"
      using act by (simp_all split: if_splits)
    then show ?thesis using q_start_good(2) [OF inv [unfolded sp] B, of t] sp Do_dequeue by simp
  next
    case (Step t)
    then obtain pc' qs' m' where m: "q_move (sys_pcs s t) (sys_qs s) (sys_mem s) = Some (pc', ev, qs', m')"
      "s' = \<lparr>sys_qs = qs', sys_mem = m', sys_pcs = (sys_pcs s)(t := pc')\<rparr>"
      using act by (auto simp: bind_eq_Some_conv)
    have "untorn_step s t" using un Step by (auto simp: untorn_step_def)
    from q_move_good [OF inv m(1) this B] show ?thesis using m(2) Step by (auto simp: good_step_def)
  qed
qed

lemma q_schedule_good:
  "q_inv B a sp s \<Longrightarrow> q_schedule acts s = Some (es, s') \<Longrightarrow> untorn acts s \<Longrightarrow> B + length acts < 2 ^ 58 \<Longrightarrow>
     \<exists>a' sp'. spec_run es sp = Some sp' \<and> q_inv (B + length acts) a' sp' s'"
proof (induction acts arbitrary: B a sp s es)
  case Nil
  then show ?case by auto
next
  case (Cons act acts)
  then obtain ev s1 es1 where step: "q_do act s = Some (ev, s1)" "q_schedule acts s1 = Some (es1, s')"
    "es = (actor act, ev) # es1"
    by (auto simp: bind_eq_Some_conv)
  obtain a1 sp1 where "spec_step (actor act) ev sp = Some sp1" "q_inv (Suc B) a1 sp1 s1"
    using q_do_good [OF Cons.prems(1) _ step(1)] Cons.prems(3,4) by auto
  moreover have "untorn acts s1" using Cons.prems(3) step(1) by simp
  ultimately show ?case using Cons.IH [of "Suc B" a1 sp1 s1 es1] step Cons.prems(4) by auto
qed

text \<open>A thread inside an operation can always take its next step.\<close>

lemma q_move_possible:
  assumes inv: "q_inv B a sp s" and in_op: "sys_pcs s t \<noteq> Q_idle"
  shows "q_move (sys_pcs s t) (sys_qs s) (sys_mem s) \<noteq> None"
proof -
  let ?m = "sys_mem s"
  have fv: "fl_inv (spare a) (tags a) (fl_view (sys_qs s) ?m (sys_pcs s) (hold a) (incs a))"
    and k: "q_knows (gh a) (sys_qs s) ?m (hold a (Some t)) (snd sp t) (sys_pcs s t)"
    using inv by (simp_all add: q_inv_def q_thread_def)
  have fl: "fl_move (fl_pc_of (sys_pcs s t)) (q_fs (sys_qs s)) ?m \<noteq> None" if "fl_pc_of (sys_pcs s t) \<noteq> Outside"
    using fl_inv_facts(4) [OF fv, of "Some t"] that by simp
  show ?thesis
  proof (cases "sys_pcs s t")
    case (New_pop pc v)
    then show ?thesis using fl k by (auto simp: split_beta)
  next
    case (Recycle pc v)
    then have "pc \<noteq> Outside" using k by auto
    then show ?thesis using Recycle fl by (auto simp: split_beta)
  next
    case (Init l fe qe n v)
    then have "fe \<in> dom (fe_cells ?m)" using k fl_inv_apart(4) [OF fv, of "Some t"] by auto
    then show ?thesis
      using Init k by (cases l)
        (auto simp: freelist_get_user_data_from_element_def c_assert_def set_qe_def Let_def split: prod.splits)
  next
    case (Link l qe e n v)
    then show ?thesis
      using k by (cases l; cases "fst e") (auto simp: set_qe_next_def abstraction_dcas_def Let_def split: prod.splits)
  next
    case (Take l d e n v)
    then show ?thesis
      using k by (cases l; cases "fst d") (auto simp: Let_def fe_qe_def split: prod.splits dequeue_state.splits)
  qed (use in_op in simp)
qed

text \<open>What the invariant says about the memory, without its ghosts.\<close>

lemma chained_path: "chained lk nm qs \<Longrightarrow> qs \<noteq> [] \<Longrightarrow> set qs \<subseteq> elements m \<Longrightarrow> lk = next_qe m \<Longrightarrow>
    path (qe_link m) (Some (hd qs)) qs NULL"
  by (induction lk nm qs rule: chained.induct) (auto simp: qe_link_def next_qe_def)

lemma q_inv_contents:
  assumes "q_inv B a sp s"
  shows "\<exists>qs. path (qe_link (sys_mem s)) (fst (q_dequeue (sys_qs s))) qs NULL \<and> qs \<noteq> [] \<and>
    fst sp = map (data_qe (sys_mem s)) (tl qs)"
proof -
  have sh: "q_shared B (gh a) (sys_qs s) (sys_mem s) (hold a None) (spare a)"
    and vs: "fst sp = map (data_qe (sys_mem s)) (tl (chain (gh a)))"
    using assms by (simp_all add: q_inv_def)
  show ?thesis
    using chained_path [OF q_sharedD(4,1,3) [OF sh] refl] q_sharedD(1,5) [OF sh] vs by auto
qed

section \<open>A new queue\<close>

text \<open>The freelist of a queue under construction: the counters are those of its pushes.\<close>

definition pairs_numbered :: "mem \<Rightarrow> freelist_state \<Rightarrow> mem \<Rightarrow> node list \<Rightarrow> bool" where
  "pairs_numbered m0 fs m ps \<longleftrightarrow>
     pairs_inv m0 fs m ps \<and> junk_word m = junk_word m0 \<and> fs_aba_counter fs = of_nat (length ps) \<and>
     (\<exists>tg. tagged (fe_cells m) tg (fs_top fs) (map fst ps) \<and> inj_on tg (fst ` set ps) \<and>
        (\<forall>a \<in> fst ` set ps. 0 < unat (tg a) \<and> unat (tg a) \<le> length ps))"

lemma pairs_numbered_step:
  assumes "pairs_numbered m0 fs m ps" "length ps < 2 ^ 63"
  shows "\<exists>fs1 fs2. freelist_internal_new_element fs m = Some (1, Some (brk m), fs1, grown m) \<and>
    freelist_push fs1 (Some (brk m)) (grown m) = Some (fs2, pushed m (fs_top fs)) \<and>
    fs_addr fs2 = fs_addr fs \<and>
    pairs_numbered m0 fs2 (pushed m (fs_top fs)) ((brk m, Suc (brk m)) # ps)"
proof -
  have inv: "pairs_inv m0 fs m ps" and aba: "fs_aba_counter fs = of_nat (length ps)"
    using assms(1) by (simp_all add: pairs_numbered_def)
  obtain tg where tg: "tagged (fe_cells m) tg (fs_top fs) (map fst ps)" "inj_on tg (fst ` set ps)"
    "\<forall>a \<in> fst ` set ps. 0 < unat (tg a) \<and> unat (tg a) \<le> length ps"
    using assms(1) by (auto simp: pairs_numbered_def)
  obtain fs1 fs2 where new: "freelist_internal_new_element fs m = Some (1, Some (brk m), fs1, grown m)"
    and push: "freelist_push fs1 (Some (brk m)) (grown m) = Some (fs2, pushed m (fs_top fs))"
    and addr: "fs_addr fs2 = fs_addr fs" and inv': "pairs_inv m0 fs2 (pushed m (fs_top fs)) ((brk m, Suc (brk m)) # ps)"
    using pairs_inv_step [OF inv] by blast
  have fs1: "fs1 = fs\<lparr>fs_element_count := fs_element_count fs + 1\<rparr>"
    using new new_element_grown [of m fs] inv by (simp add: pairs_inv_def)
  have fs2: "fs_aba_counter fs2 = of_nat (Suc (length ps))" "fs_top fs2 = (Some (brk m), of_nat (Suc (length ps)))"
    using push freelist_push_eq [of "grown m" "brk m" _ fs1] fs1 aba by (auto simp: grown_def add.commute)
  have out: "brk m \<notin> fst ` set ps" using inv by (force simp: pairs_inv_def)
  have un: "unat (of_nat (Suc (length ps)) :: u64) = Suc (length ps)" using assms(2) by (intro unat_small) simp
  let ?tg = "tg(brk m := of_nat (Suc (length ps)))"
  have "tagged (fe_cells (pushed m (fs_top fs))) ?tg (fs_top fs) (map fst ps)"
    by (rule tagged_frame [OF tg(1)]) (use out in \<open>auto simp: image_iff\<close>)
  then have "tagged (fe_cells (pushed m (fs_top fs))) ?tg (fs_top fs2) (brk m # map fst ps)"
    using fs2(2) by simp
  moreover have "inj_on ?tg (insert (brk m) (fst ` set ps))"
    using tg(2,3) out un by (fastforce simp: inj_on_def)
  moreover have "0 < unat (?tg b) \<and> unat (?tg b) \<le> Suc (length ps)" if "b \<in> insert (brk m) (fst ` set ps)" for b
    using that tg(3) out un by (cases "b = brk m") auto
  moreover have "junk_word (pushed m (fs_top fs)) = junk_word m0"
    using assms(1) by (simp add: pairs_numbered_def pushed_def grown_def)
  ultimately have "pairs_numbered m0 fs2 (pushed m (fs_top fs)) ((brk m, Suc (brk m)) # ps)"
    using inv' fs2(1) unfolding pairs_numbered_def by (intro conjI exI [of _ ?tg]) simp_all
  with new push addr show ?thesis by blast
qed

lemma new_elements_numbered:
  assumes "pairs_numbered m0 fs m []" "unat n < 2 ^ 63"
  shows "\<exists>fs' m' ps. freelist_new_elements fs n m = Some (n, fs', m') \<and>
    pairs_numbered m0 fs' m' ps \<and> length ps = unat n \<and> fs_addr fs' = fs_addr fs"
proof -
  let ?I = "\<lambda>fs' m i k. k = i \<and> i \<le> unat n \<and> (\<exists>ps. pairs_numbered m0 fs' m ps \<and> length ps = i) \<and> fs_addr fs' = fs_addr fs"
  have "\<exists>k fs' m'. freelist_new_elements fs n m = Some (of_nat k, fs', m') \<and> ?I fs' m' (unat n) k"
  proof (rule freelist_new_elements_rule [where I = ?I])
    show "?I fs m 0 0" using assms by auto
    fix fs' m i k
    assume "?I fs' m i k" and lt: "i < unat n"
    then obtain ps where ps: "pairs_numbered m0 fs' m ps" "length ps = i" "k = i" "fs_addr fs' = fs_addr fs"
      by blast
    have "length ps < 2 ^ 63" using lt ps(2) assms(2) by simp
    from pairs_numbered_step [OF ps(1) this] ps(2-4) lt
    show "\<exists>rv fe fs1 m1. freelist_internal_new_element fs' m = Some (rv, fe, fs1, m1) \<and>
        (if rv \<noteq> 0 then \<exists>fs2 m2. freelist_push fs1 fe m1 = Some (fs2, m2) \<and> ?I fs2 m2 (Suc i) (Suc k)
         else ?I fs1 m1 (Suc i) k)"
      by (metis Suc_leI length_Cons zero_neq_one)
  qed
  then show ?thesis by auto
qed

lemma freelist_new_numbered:
  assumes "always_ok m" "mem_wf m" "unat n < 2 ^ 63"
    and "m1 = install Queue_state (brk m) (m\<lparr>calls := Suc (calls m), brk := Suc (brk m)\<rparr>)"
  shows "\<exists>fs m' ps. freelist_new n (Some queue_internal_freelist_init_function) NULL m1 =
      Some (1, Some fs, m') \<and> pairs_numbered (started m) fs m' ps \<and> length ps = unat n"
proof -
  have mal: "abstraction_aligned_malloc Freelist_state m1 = (Some (Suc (brk m)), started m)"
    using assms(1,4) by (simp add: malloc_ok always_ok_def started_def insert_commute)
  have "pairs_numbered (started m) (fresh_freelist (Suc (brk m))) (started m) []"
    using pairs_inv_fresh [OF mem_wf_started [OF assms(2)], of "Suc (brk m)"] assms(1)
    by (simp add: pairs_numbered_def fresh_freelist_def)
  from new_elements_numbered [OF this assms(3)]
  obtain fs' m' ps where "freelist_new_elements (fresh_freelist (Suc (brk m))) n (started m) = Some (n, fs', m')"
    "pairs_numbered (started m) fs' m' ps" "length ps = unat n"
    by blast
  then show ?thesis by (auto simp: freelist_new_def mal fresh_freelist_def [symmetric])
qed

text \<open>
  The invariant of a queue just made. The number of the dummy's link is drawn from a field that
  has not been initialised; it is 2 when the block reads as zero.
\<close>

lemma q_inv_new:
  assumes inv: "pairs_numbered m0 fs m ((f, q) # ps)" and m0: "fe_cells m0 = Map.empty" "qe_cells m0 = Map.empty"
    and fc: "fe_cells m f = Some fc" "fe_user_data fc = Some q" and len: "Suc (length ps) < 2 ^ 63"
    and m': "m' = m\<lparr>qe_cells := (qe_cells m)(q \<mapsto> \<lparr>qe_next = (NULL, 2), qe_fe = Some f, qe_user_data = NULL\<rparr>)\<rparr>"
    and qs: "q_dequeue qs = (Some q, d0)" "q_enqueue qs = (Some q, e0)" "q_aba_counter qs = 0"
      "q_fs qs = fs\<lparr>fs_top := fe_next fc\<rparr>"
  shows "\<exists>a. q_inv (Suc (length ps)) a ([], \<lambda>_. Outside_op) (q_start qs m' :: 't q_sys)"
proof -
  obtain tg where tg: "tagged (fe_cells m) tg (fs_top fs) (f # map fst ps)" "inj_on tg (insert f (fst ` set ps))"
      "\<forall>a \<in> insert f (fst ` set ps). 0 < unat (tg a) \<and> unat (tg a) \<le> Suc (length ps)"
    and pi: "pairs_inv m0 fs m ((f, q) # ps)" and aba: "fs_aba_counter fs = of_nat (Suc (length ps))"
    using inv by (auto simp: pairs_numbered_def)
  have own: "owns_pair m n" if "n \<in> set ((f, q) # ps)" for n using pi that by (auto simp: pairs_inv_def)
  have dom: "dom (fe_cells m) = insert f (fst ` set ps)" "elements m = insert q (snd ` set ps)"
    using pi m0 by (simp_all add: pairs_inv_def)
  have dist: "distinct (f # map fst ps)" "distinct (q # map snd ps)" using pi by (simp_all add: pairs_inv_def)
  have wf: "mem_wf m" using pi by (simp add: pairs_inv_def)
  let ?g = "\<lparr>chain = [q], num = [q \<mapsto> 2], d_moves = 0, e_moves = 0, d_base = d0, e_base = e0, drawn = 0\<rparr>"
  let ?h = "\<lambda>u :: 't option. case u of None \<Rightarrow> {f} | Some t \<Rightarrow> {}"
  let ?a = "\<lparr>gh = ?g, spare = map fst ps, tags = tg, incs = Suc (length ps), hold = ?h\<rparr>"
  have q: "q \<in> elements m" using dom by simp
  have el: "element_of m' = element_of m" "elements m' = elements m" "fe_cells m' = fe_cells m"
    using m' q by (auto simp: element_of_def fun_eq_iff)
  have pair: "element_of m a = Some b" if "(a, b) \<in> set ((f, q) # ps)" for a b
    using own [OF that] by (auto simp: owns_pair_def element_of_def)
  have elem: "(a, b) \<in> set ((f, q) # ps)" if "element_of m a = Some b" for a b
  proof -
    have "a \<in> dom (fe_cells m)" using that by (auto simp: element_of_def bind_eq_Some_conv)
    then obtain b' where b': "(a, b') \<in> set ((f, q) # ps)" using dom(1) by fastforce
    then show ?thesis using pair [OF b'] that by simp
  qed
  have inj: "a = a'" if "element_of m a = Some b" "element_of m a' = Some b" for a a' b
  proof -
    have "inj_on snd (set ((f, q) # ps))" using dist(2) distinct_map [of snd "(f, q) # ps"] by simp
    from inj_onD [OF this, of "(a, b)" "(a', b)"] show ?thesis using elem [OF that(1)] elem [OF that(2)] by simp
  qed
  have whole: "\<forall>fe \<in> dom (fe_cells m). \<exists>x \<in> elements m. element_of m fe = Some x"
  proof
    fix fe assume "fe \<in> dom (fe_cells m)"
    then obtain x where x: "(fe, x) \<in> set ((f, q) # ps)" using dom(1) by fastforce
    then have "x \<in> elements m" using dom(2) by force
    then show "\<exists>x \<in> elements m. element_of m fe = Some x" using pair [OF x] by blast
  qed
  have others: "x \<noteq> q" if "fe \<in> set (map fst ps)" "element_of m fe = Some x" for fe x
  proof
    assume "x = q"
    then have "fe = f" using inj [of fe q f] pair [of f q] that(2) by simp
    then show False using that(1) dist(1) by simp
  qed
  have fl: "fl_inv (map fst ps) tg (fl_view qs m' (\<lambda>_. Q_idle) ?h (Suc (length ps)))"
  proof -
    have "tagged (fe_cells m) tg (fe_next fc) (map fst ps)" using tg(1) fc(1) by auto
    moreover have "mem_wf m'" using mem_wf_elements [OF wf q] m' by simp
    ultimately show ?thesis
      using dist(1) tg(2,3) aba qs(4) el(3) fc(1)
      by (auto simp: fl_inv_def shared_ok_def thread_ok_def apart_def fl_view_def inj_on_insert split: option.splits)
  qed
  have "q_inv (Suc (length ps)) ?a ([], \<lambda>_. Outside_op) (q_start qs m')"
    unfolding q_inv_def
  proof (intro conjI)
    show "q_shared (Suc (length ps)) (gh ?a) (sys_qs (q_start qs m')) (sys_mem (q_start qs m')) (hold ?a None) (spare ?a)"
      unfolding q_shared_def
    proof (intro conjI)
      show "\<exists>xs a ys. chain (gh ?a) = xs @ a # ys \<and> length ys \<le> 1 \<and>
          q_enqueue (sys_qs (q_start qs m')) = (Some a, tick (e_base (gh ?a)) (e_moves (gh ?a)))"
        using qs(2) by (intro exI [of _ "[]"] exI [of _ q]) (simp add: q_start_def tick_def)
      show "\<forall>fe fe' x. element_of (sys_mem (q_start qs m')) fe = Some x \<and> element_of (sys_mem (q_start qs m')) fe' = Some x \<longrightarrow> fe = fe'"
        using inj el(1) by (simp add: q_start_def)
      show "\<forall>fe \<in> dom (fe_cells (sys_mem (q_start qs m'))). \<exists>x \<in> elements (sys_mem (q_start qs m')).
          element_of (sys_mem (q_start qs m')) fe = Some x"
        using whole el by (simp add: q_start_def)
      show "\<forall>fe \<in> set (spare ?a). \<forall>x. element_of (sys_mem (q_start qs m')) fe = Some x \<longrightarrow>
          idle_link (gh ?a) (sys_mem (q_start qs m')) x"
        using others el(1) by (auto simp: q_start_def idle_link_def)
    qed (use q el pair [of f q] qs m' in \<open>auto simp: q_start_def tick_def next_qe_def fe_qe_def\<close>)
  qed (use fl in \<open>auto simp: q_start_def q_thread_def\<close>)
  then show ?thesis ..
qed

lemma queue_new_start:
  assumes ok: "always_ok m" and wf: "mem_wf m" and empty: "fe_cells m = Map.empty" "qe_cells m = Map.empty"
    and zero: "\<And>b. junk_word m b 4 = 0" and n: "unat n < 2 ^ 62"
    and new: "queue_new n m = Some (rv, Some qs, m')"
  shows "\<exists>a. q_inv (Suc (unat n)) a ([], \<lambda>_. Outside_op) (q_start qs m' :: 't q_sys)"
proof -
  define m1 where "m1 = install Queue_state (brk m) (m\<lparr>calls := Suc (calls m), brk := Suc (brk m)\<rparr>)"
  have mal: "abstraction_aligned_malloc Queue_state m = (Some (brk m), m1)"
    using ok by (simp add: malloc_ok always_ok_def m1_def)
  have "n + 1 \<noteq> 0"
  proof
    assume "n + 1 = 0"
    then have "n = - 1" by (metis add_eq_0_iff add.commute)
    then show False using n by (simp add: unsigned_minus_1_eq_mask mask_eq_exp_minus_1)
  qed
  then have un: "unat (n + 1) = Suc (unat n)" using unatSuc [of n] by (simp add: add.commute)
  obtain fs m2 ps0 where fl: "freelist_new (n + 1) (Some queue_internal_freelist_init_function) NULL m1 =
      Some (1, Some fs, m2)" "pairs_numbered (started m) fs m2 ps0" "length ps0 = Suc (unat n)"
    using freelist_new_numbered [OF ok wf _ m1_def, of "n + 1"] n un by auto
  then obtain f q ps where ps: "ps0 = (f, q) # ps" "length ps = unat n" by (cases ps0) auto
  note inv = fl(2) [unfolded ps(1)]
  have "owns_pair m2 (f, q)" and rep: "freelist_rep (fs, m2) (f # map fst ps)"
    using inv by (auto simp: pairs_numbered_def pairs_inv_def)
  then obtain fc where fc: "fe_cells m2 f = Some fc" "fe_user_data fc = Some q" "q \<in> elements m2"
    using owns_pairD by blast
  have aba: "junk_word m2 (brk m) 4 = 0"
    using inv zero by (simp add: pairs_numbered_def started_def)
  define qs0 where "qs0 = \<lparr>q_enqueue = (NULL, junk_word m2 (brk m) 1),
    q_dequeue = (NULL, junk_word m2 (brk m) 3), q_aba_counter = junk_word m2 (brk m) 4, q_fs = fs, q_addr = brk m\<rparr>"
  have "freelist_rep (q_fs qs0, m2) (f # map fst ps)" using rep by (simp add: qs0_def)
  note dummy = new_element_eq [OF this fc, of NULL]
  have "qs = (qs0\<lparr>q_fs := fs\<lparr>fs_top := fe_next fc\<rparr>, q_dequeue := (Some q, junk_word m2 (brk m) 3),
      q_enqueue := (Some q, junk_word m2 (brk m) 1), q_aba_counter := 0\<rparr>)"
    and m': "m' = m2\<lparr>qe_cells := (qe_cells m2)(q \<mapsto> \<lparr>qe_next = (NULL, 2), qe_fe = Some f, qe_user_data = NULL\<rparr>)\<rparr>"
    using new fl(1) dummy aba
    by (auto simp: queue_new_def mal qs0_def [symmetric, unfolded One_nat_def] Let_def) (auto simp: qs0_def)
  then have qs: "q_dequeue qs = (Some q, junk_word m2 (brk m) 3)" "q_enqueue qs = (Some q, junk_word m2 (brk m) 1)"
      "q_aba_counter qs = 0" "q_fs qs = fs\<lparr>fs_top := fe_next fc\<rparr>"
    by simp_all
  show ?thesis
    using q_inv_new [OF inv _ _ fc(1,2) _ m' qs] empty ps(2) n by simp
qed


section \<open>One producer\<close>

text \<open>Only an enqueue reads a link by half before writing one, and only an enqueue prepares links.\<close>

fun enqueuing :: "q_pc \<Rightarrow> bool" where
  "enqueuing (New_pop pc v) = True"
| "enqueuing (Init l fe qe n v) = True"
| "enqueuing (Link l qe e n v) = True"
| "enqueuing pc = False"

fun enqueues_by :: "'t \<Rightarrow> 't q_act \<Rightarrow> bool" where
  "enqueues_by p (Do_enqueue t v) = (t = p)"
| "enqueues_by p act = True"

lemma q_move_enqueuing:
  assumes "q_move pc qs m = Some (pc', ev, qs', m')" "enqueuing pc'"
  shows "enqueuing pc"
proof (cases pc)
  case (Take l d e n v)
  then show ?thesis using assms
    by (cases l) (auto simp: bind_eq_Some_conv Let_def split: if_splits prod.splits dequeue_state.splits)
next
  case (Recycle q v)
  then obtain q' ev1 fs m1 where "fl_move q (q_fs qs) m = Some (q', ev1, fs, m1)"
    "pc' = fst (after_push q' ev1 v)"
    using assms(1) by (auto simp: bind_eq_Some_conv split_beta)
  moreover have "\<not> enqueuing (fst (after_push q' ev1 v))" by (cases ev1) simp_all
  ultimately show ?thesis using assms(2) by simp
qed (use assms in simp_all)

lemma q_do_enqueuing:
  assumes "q_do act s = Some (ev, s')" "enqueues_by p act" "\<forall>t. enqueuing (sys_pcs s t) \<longrightarrow> t = p"
  shows "\<forall>t. enqueuing (sys_pcs s' t) \<longrightarrow> t = p"
proof (cases act)
  case (Step t)
  then obtain pc' qs' m' where "q_move (sys_pcs s t) (sys_qs s) (sys_mem s) = Some (pc', ev, qs', m')"
    "sys_pcs s' = (sys_pcs s)(t := pc')"
    using assms(1) by (auto simp: bind_eq_Some_conv)
  then show ?thesis using assms(3) q_move_enqueuing by (metis fun_upd_apply)
qed (use assms in \<open>auto split: if_splits\<close>)

lemma half_read_enqueuing: "half_read pc \<noteq> NULL \<Longrightarrow> enqueuing pc"
  by (cases pc rule: half_read.cases) simp_all

lemma link_written_enqueuing: "link_written pc \<noteq> NULL \<Longrightarrow> enqueuing pc"
  by (cases pc rule: link_written.cases) simp_all

lemma one_producer_untears:
  assumes "\<forall>t. enqueuing (sys_pcs s t) \<longrightarrow> t = p"
  shows "\<not> tears act s"
proof (cases act)
  case (Step t)
  show ?thesis
  proof
    assume "tears act s"
    then obtain u where "u \<noteq> t" "half_read (sys_pcs s u) \<noteq> NULL" "link_written (sys_pcs s t) \<noteq> NULL"
      using Step by (metis tears.simps(1))
    then show False using assms half_read_enqueuing link_written_enqueuing by metis
  qed
qed simp_all

lemma one_producer_untorn:
  "\<forall>act \<in> set acts. enqueues_by p act \<Longrightarrow> \<forall>t. enqueuing (sys_pcs s t) \<longrightarrow> t = p \<Longrightarrow> untorn acts s"
proof (induction acts arbitrary: s)
  case (Cons act acts)
  have "untorn acts s'" if "q_do act s = Some (ev, s')" for ev s'
    using Cons.IH [of s'] Cons.prems(1) q_do_enqueuing [OF that _ Cons.prems(2)] by simp
  then show ?case using one_producer_untears [OF Cons.prems(2)] by (auto split: option.splits)
qed simp

section \<open>Schedules of a new queue\<close>

lemma new_queue_schedule:
  fixes acts :: "'t q_act list"
  assumes "always_ok m" "mem_wf m" "fe_cells m = Map.empty" "qe_cells m = Map.empty"
    "\<And>b. junk_word m b 4 = 0" "unat n + length acts < 2 ^ 57" "queue_new n m = Some (rv, Some qs, m')"
    "q_schedule acts (q_start qs m') = Some (es, s)" "untorn acts (q_start qs m')"
  shows "\<exists>vs st elems. spec_run es ([], \<lambda>_. Outside_op) = Some (vs, st) \<and>
    path (qe_link (sys_mem s)) (fst (q_dequeue (sys_qs s))) elems NULL \<and>
    elems \<noteq> [] \<and> vs = map (data_qe (sys_mem s)) (tl elems) \<and>
    (\<forall>t. sys_pcs s t \<noteq> Q_idle \<longrightarrow> q_do (Step t) s \<noteq> None)"
proof -
  have n: "unat n < 2 ^ 62" "Suc (unat n) + length acts < 2 ^ 58" using assms(6) by simp_all
  obtain a where "q_inv (Suc (unat n)) a ([], \<lambda>_. Outside_op) (q_start qs m' :: 't q_sys)"
    using queue_new_start [OF assms(1-5) n(1) assms(7)] by blast
  from q_schedule_good [OF this assms(8,9) n(2)]
  obtain a' vs st where sp: "spec_run es ([], \<lambda>_. Outside_op) = Some (vs, st)"
    and inv: "q_inv (Suc (unat n) + length acts) a' (vs, st) s"
    by (metis surj_pair)
  have "q_do (Step t) s \<noteq> None" if "sys_pcs s t \<noteq> Q_idle" for t
    using q_move_possible [OF inv that] by auto
  then show ?thesis using sp q_inv_contents [OF inv] by auto
qed

end
