(* ===== verification/Spec2Isabelle.thy ===== *)
theory Spec2Isabelle
  imports Ruby_Properties Lua_Properties Threads_Properties Registry_Properties
begin

text \<open>
  Jacks: script bindings for the JACK audio server, verified.

  \<^bold>\<open>The program.\<close> A script (Python, Ruby, Perl, Lua) opens a client of the JACK server. JACK calls
  back on its own threads: for every period of audio, for session requests, for a changed sample
  rate, on shutdown, and when latencies change. The callbacks of \<open>corelib/JacksRbClient.c\<close> copy
  the samples of each port into a ring buffer (\<open>corelib/JacksRbPort.c\<close>), put an event
  (\<open>corelib/JacksEvent.c\<close>) into a lock-free queue (\<open>corelib/lfds/\<close>) and post a semaphore. The
  script loops over \<open>getEvent\<close>, reads the buffers of its ports, and completes the event; for a
  session request the callback waits on a latch (\<open>corelib/JacksLatch.c\<close>) until it has. Errors
  go through one static buffer (\<open>corelib/JacksHelper.c\<close>). The classes the script sees are the
  extension functions of \<open>modules/Jacks.i\<close>, wrapped by code SWIG generates for each language;
  the wrappers for Python 3 (\<open>modules/python3/Jacks_python3_wrap.c\<close>), Lua
  (\<open>modules/lua/Jacks_lua_wrap.c\<close>) and Ruby (\<open>modules/ruby/Jacks_ruby_wrap.c\<close>) are modelled. The
  extension functions and the type registry, which all three contain, are defined once and mapped to
  the Python 3 file.

  \<^bold>\<open>Conventions.\<close> Every C function is a definition of its name. \<open>None\<close> as the result of a
  definition means that the C code has no defined result: a failed assertion, a null or dangling
  pointer, an access outside an object, a loop or a wait that does not end. Memory comes from
  allocators that may fail at any call; addresses are not reused while the proofs rely on it, so a
  use after \<open>free\<close> is undefined. Loops that may not end are \<open>partial_function (option)\<close>; no
  definition carries fuel, and that the code returns is part of the statements (a result
  \<open>Some\<close>). 32-bit and 64-bit quantities are words; a C \<open>int\<close> is an \<open>int\<close> with its range checked
  where the code can leave it.

  \<^bold>\<open>The core library.\<close>
  \<^item> \<open>Prelude\<close>, \<open>Linked\<close>, \<open>Store\<close>: words, pointers, chains of links and the two-speed loop check,
    heap objects.
  \<^item> \<open>Abstraction\<close>: the atomics of \<open>abstraction_*.c\<close> for every target, and aligned memory.
  \<^item> \<open>Freelist\<close>, \<open>Freelist_Life\<close>: \<open>freelist_*.c\<close>; \<open>freelist_rep\<close> relates the chain to a list; the
    locale \<open>pool\<close> is what the queue relies on, interpreted on the code's push and pop.
    \<open>Freelist_Threads\<close>: push and pop by any number of threads, one access to shared memory at a
    time, and the invariant that makes every interleaving a stack.
  \<^item> \<open>Queue\<close>, \<open>Queue_Correct\<close>, \<open>Queue_Life\<close>, \<open>Queue_Check\<close>: \<open>queue_*.c\<close>; \<open>queue_rep\<close> relates the
    two ends, the chain and the freelist to the contents; the locale \<open>bounded_fifo\<close> is the
    contract the client relies on, interpreted on the code's enqueue and dequeue; construction,
    growth, deletion, and the validator.
  \<^item> \<open>Queue_Threads\<close>: enqueue and dequeue by any number of threads as schedules of single accesses
    (\<open>q_move\<close>, \<open>q_schedule\<close>), and the specification of a FIFO whose operations take effect
    between call and return (\<open>spec_run\<close>). \<open>Queue_Inv\<close> has the invariant: what each thread knows at
    each of its program points, with ghosts for the chain, the numbers of the links and the moves
    of the two ends. \<open>Queue_Linear\<close> shows that it is kept by the steps of an enqueue and of the
    freelist, \<open>Queue_Runs\<close> by those of a dequeue, then by schedules from a new queue.
  \<^item> \<open>Helper\<close>, \<open>Event\<close>, \<open>Latch\<close>: the error channel byte by byte; events; the latch, sequentially
    and as the step relation \<open>latch_step\<close> of any number of threads with spurious wakeups, with
    its invariant and a simulation by an atomic flag.
  \<^item> \<open>Port\<close>, \<open>Port_Correct\<close>: ports, their rings (the contract \<open>ringbuffer_ok\<close> states what the JACK
    documentation promises) and the latency listeners.
  \<^item> \<open>Client\<close>, \<open>Client_Correct\<close>, \<open>Client_Life\<close>: the callbacks, \<open>getEvent\<close>, registration,
    activation, construction and destruction; \<open>client_rep\<close> ties a client to its queue, its
    semaphore and its fixed fields; \<open>ports_ready\<close> describes the port table.
  \<^item> \<open>Event_Loop\<close>: callbacks on any number of threads and the script, as the step relation
    \<open>loop_step\<close>, with the invariant behind the first property.

  \<^bold>\<open>The script side.\<close>
  \<^item> \<open>Bindings\<close>: the extension functions, over the core state, one store per wrapper structure, and
    the record \<open>jack_api\<close> of what JACK and the system answer.
  \<^item> \<open>SwigTypes\<close>, \<open>Swig_Correct\<close>: the type registry of the SWIG runtime: name comparison, the
    move-to-front type check on a doubly linked list, the binary search over a ring of modules,
    and the packing of pointers.
  \<^item> \<open>SwigInit\<close>: loading a module (\<open>SWIG_InitializeModule\<close>): the ring the interpreter keeps, the
    types taken over from other modules, the casts; and \<open>SWIG_PropagateClientData\<close>. \<open>Swig_Load\<close>
    shows that loading keeps the invariant \<open>registry\<close>; \<open>Swig_Data\<close> that client data spreads over
    cyclic casts and ends.
  \<^item> \<open>PyRuntime\<close>: proxies and their ownership, and the conversions of pointers, numbers and strings.
  \<^item> \<open>PyWrap\<close>, \<open>PyWrap_Correct\<close>: the 52 wrapper functions over the steps they share (count the
    arguments, convert each, clear the error channel, call, check it, convert the result, free
    the borrowed strings), and the lemmas on those steps.
  \<^item> \<open>LuaRuntime\<close>, \<open>LuaTables\<close>: the Lua side of the runtime. A world (\<open>lua_world\<close>) has the library,
    SWIG's userdata, the ring of modules, and the tables through which Lua finds things: class
    metatables, the module table, globals. Conversion, ownership and collection of userdata,
    errors, attribute lookup, class registration, constants.
  \<^item> \<open>LuaWrap\<close>: the 46 wrapper functions and 6 destructors, the static tables of the file, and
    \<open>luaopen_jacks\<close>. \<open>LuaWrap_Correct\<close> follows the loading (\<open>lua_loaded\<close> is the state it leaves),
    method lookup, and the refusal of arguments (\<open>refused\<close>); \<open>LuaWrap_Calls\<close> what results own
    (\<open>gives\<close>), and the agreement of a Lua call with the Python call (\<open>agree\<close>).
  \<^item> \<open>RubyRuntime\<close>: the Ruby side of the runtime. A world (\<open>rb_world\<close>) has the library, Ruby's data
    objects, the ring of modules and the classes. Errors leave a function at once, so steps that may
    raise take what follows them as an argument. Conversion, ownership, tracking and collection of
    data objects, numbers, strings, packed objects.
  \<^item> \<open>RubyWrap\<close>: the 46 wrapper functions, 6 allocators and 6 delete functions, the classes, the
    constants and \<open>Init_jacks\<close>; \<open>rb_new\<close> and \<open>rb_send\<close> are what the interpreter does with a call.
    \<open>RubyWrap_Correct\<close> follows the loading (\<open>ruby_loaded\<close> is the state it leaves) and the conversion of
    objects. In \<open>RubyWrap_Calls\<close> the locale \<open>rb_steps\<close> states what the steps before a call leave
    alone, interpreted once for what getters lend and once for what constructors own; the
    agreement of a Ruby call with the Python call is \<open>rb_agree\<close>.

  \<^bold>\<open>The properties\<close> are in \<open>Lfds_Properties\<close>, \<open>Threads_Properties\<close>, \<open>Core_Properties\<close>,
  \<open>Registry_Properties\<close>, \<open>Script_Properties\<close>, \<open>Lua_Properties\<close> and \<open>Ruby_Properties\<close>. They show that the queue is a
  bounded FIFO through its whole life and the freelist a stack; that both are linearizable under
  every interleaving of their accesses, the queue as long as no link is written while another
  thread has read half of it, hence with one producer and any number of consumers, and that two
  producers can lose an element; that no accepted event is lost, reordered or left without a wakeup
  under any interleaving; that a port is a bounded byte queue and the samples of a cycle reach the
  script's buffer; that a session request is answered after the script completed it; that the
  latch is safe and live; that wrongly typed arguments never reach the library, from Python or
  Lua; that a port is destroyed once; that type lookup and validation end; that loading a module
  keeps one structure per type name and every cast; that pointers pack and unpack; that loading
  the Lua and the Ruby module builds their classes; that objects without a pointer never reach the
  library from Ruby; that what a script makes is deleted once; and that the languages give the
  same results and leave the library in the same state. They also state exactly where
  the code fails: full event queues under a session request, double completion, texts that
  overlap in the error buffer, capacities and bounds that wrap, session strings used after they
  are freed or collected, integers beyond \<open>long\<close>, more than 999 ports, foreign userdata, what is
  leaked and when. Each property with hypotheses is followed by a witness on a concrete program
  state.

  \<^bold>\<open>Bounds.\<close> The number of ports is \<open>MAX_PORTS\<close> (999), the default ring 16384 frames, the error
  buffer 256 characters, the semaphore \<open>SEM_VALUE_MAX\<close>; all are the code's. Hypotheses such as
  fewer than 2^31 overruns keep signed counters in range. The counters of the lock-free pairs are
  64 bits wide and may come round: the freelist is followed for fewer than 2^64 pushes, the queue,
  whose counters grow by 32 (the pointer arithmetic of the code), for fewer than 2^57 accesses.
  Nothing else is bounded.

  \<^bold>\<open>Not modelled.\<close>
  \<^item> Memory orders weaker than sequential consistency: the threads of \<open>Freelist_Threads\<close> and
    \<open>Queue_Threads\<close> interleave single accesses to one memory. Growing, validating and deleting
    a queue while other threads use it. In \<open>Event_Loop\<close> a queue operation is one step.
  \<^item> JACK itself, its ring buffer, sockets, signals and the allocator: parameters, with their
    documented behaviour as hypotheses where a proof needs it. Messages on \<open>stderr\<close>.
  \<^item> The Python interpreter beyond object kinds, the pending exception and proxies: reference
    counts, the module object with its constants, packed objects, weak references, instance creation and
    printing in the generated runtime.
  \<^item> The Lua interpreter beyond values, strings, userdata and tables: its stack is the list of
    arguments and results; keys are strings; a C function in a table is its name. The rounding of
    a number to \<open>float\<close>, packed objects, and \<open>SWIG_Lua_dostring\<close>, called on the empty string only.
  \<^item> The Ruby interpreter beyond values, data objects, classes and their method tables: strings are
    blocks of characters, a C function in a table is its name, and when the collector runs is open.
    The pointer type of \<open>char\<close> is looked up anew each time instead of cached; the helpers of the
    runtime that nothing in the module calls are left out.
  \<^item> The Python 2 wrapper, which equals the Python 3 one byte for byte, and the Perl wrapper,
    generated from the same interface.
  \<^item> The Node.js module (\<open>modules/nodejs\<close>). It does not compile: it calls functions and constructors
    with the wrong number of arguments and uses a type that is not declared, so it has no behaviour
    to model; \<open>configure.ac\<close> marks it as not yet implemented.
\<close>

end
